(* ===== verification/Prelude.thy ===== *)
theory Prelude
  imports Complex_Main "HOL-Library.AList" "HOL-Library.Char_ord" "HOL-Library.List_Lexorder"
    "HOL-Library.Product_Lexorder"
begin

text \<open>
  The Python values and built-ins the node's code computes with, and the generic lemmas the
  component theories share.

  A value that reaches the code from JSON (a request, a policy, a persisted file) is a
  \<open>pyval\<close>. A dict keeps its insertion order, so it is an association list with
  \<open>map_of\<close> as lookup and \<open>AList.update\<close> as item assignment: an existing key
  keeps its place and a new one goes to the end. A string is a list of code points below 256
  (\<open>char\<close>); \<open>strip\<close> and \<open>lower\<close> follow Python on that range. A float carries
  its exact value and the text \<open>repr\<close> prints for it. An exception is a value of
  \<open>exn\<close>, and a computation that may raise returns \<open>exn + 'a\<close>.
\<close>

named_theorems norm_facts \<open>what the normalising helpers guarantee of their results\<close>

section \<open>Values and exceptions\<close>

datatype pyval =
    PNone
  | PBool bool
  | PInt int
  | PFloat rat string
  | PStr string
  | PList "pyval list"
  | PDict "(string \<times> pyval) list"

type_synonym pydict = "(string \<times> pyval) list"

datatype exn =
    ValueError string
  | TypeError
  | AttributeError
  | KeyError string
  | RuntimeError string
  | IndexError

type_synonym 'a result = "exn + 'a"

definition ebind :: "'a result \<Rightarrow> ('a \<Rightarrow> 'b result) \<Rightarrow> 'b result" where
  "ebind m f = (case m of Inl e \<Rightarrow> Inl e | Inr x \<Rightarrow> f x)"

section \<open>Characters and strings\<close>

definition py_isspace :: "char \<Rightarrow> bool" where
  "py_isspace c =
     (let n = (of_char c :: nat)
      in (9 \<le> n \<and> n \<le> 13) \<or> (28 \<le> n \<and> n \<le> 32) \<or> n = 133 \<or> n = 160)"

definition py_lower_char :: "char \<Rightarrow> char" where
  "py_lower_char c =
     (let n = (of_char c :: nat)
      in if (65 \<le> n \<and> n \<le> 90) \<or> (192 \<le> n \<and> n \<le> 222 \<and> n \<noteq> 215) then char_of (n + 32) else c)"

definition py_lower :: "string \<Rightarrow> string" where
  "py_lower s = map py_lower_char s"

definition py_lstrip :: "string \<Rightarrow> string" where
  "py_lstrip s = dropWhile py_isspace s"

definition py_strip :: "string \<Rightarrow> string" where
  "py_strip s = rev (py_lstrip (rev (py_lstrip s)))"

definition py_startswith :: "string \<Rightarrow> string \<Rightarrow> bool" where
  "py_startswith s p = (take (length p) s = p)"

definition py_endswith :: "string \<Rightarrow> string \<Rightarrow> bool" where
  "py_endswith s p = (py_startswith (rev s) (rev p))"

definition py_replace_char :: "char \<Rightarrow> char \<Rightarrow> string \<Rightarrow> string" where
  "py_replace_char a b s = map (\<lambda>c. if c = a then b else c) s"

fun py_join :: "string \<Rightarrow> string list \<Rightarrow> string" where
  "py_join sep [] = []"
| "py_join sep [x] = x"
| "py_join sep (x # y # zs) = x @ sep @ py_join sep (y # zs)"

fun nat_text :: "nat \<Rightarrow> string" where
  "nat_text n =
     (if n < 10 then [char_of (48 + n)] else nat_text (n div 10) @ [char_of (48 + n mod 10)])"

declare nat_text.simps [simp del]

definition int_text :: "int \<Rightarrow> string" where
  "int_text i = (if i < 0 then ''-'' @ nat_text (nat (- i)) else nat_text (nat i))"

subsection \<open>repr and str\<close>

definition hex_digit :: "nat \<Rightarrow> char" where
  "hex_digit n = (if n < 10 then char_of (48 + n) else char_of (87 + n))"

definition repr_char :: "char \<Rightarrow> char \<Rightarrow> string" where
  "repr_char q c =
     (let n = (of_char c :: nat)
      in if c = q \<or> n = 92 then [char_of (92::nat), c]
         else if n = 10 then [char_of (92::nat), CHR ''n'']
         else if n = 13 then [char_of (92::nat), CHR ''r'']
         else if n = 9 then [char_of (92::nat), CHR ''t'']
         else if n < 32 \<or> (127 \<le> n \<and> n \<le> 160) \<or> n = 173
           then [char_of (92::nat), CHR ''x'', hex_digit (n div 16), hex_digit (n mod 16)]
         else [c])"

definition repr_quote :: "string \<Rightarrow> char" where
  "repr_quote s =
     (if char_of (39::nat) \<in> set s \<and> char_of (34::nat) \<notin> set s
      then char_of (34::nat) else char_of (39::nat))"

definition repr_string :: "string \<Rightarrow> string" where
  "repr_string s =
     (let q = repr_quote s in [q] @ concat (map (repr_char q) s) @ [q])"

fun py_repr :: "pyval \<Rightarrow> string" where
  "py_repr PNone = ''None''"
| "py_repr (PBool b) = (if b then ''True'' else ''False'')"
| "py_repr (PInt i) = int_text i"
| "py_repr (PFloat r txt) = txt"
| "py_repr (PStr s) = repr_string s"
| "py_repr (PList xs) = ''['' @ py_join '', '' (map py_repr xs) @ '']''"
| "py_repr (PDict kvs) =
     ''{'' @ py_join '', '' (map (\<lambda>kv. repr_string (fst kv) @ '': '' @ py_repr (snd kv)) kvs) @ ''}''"

fun py_str :: "pyval \<Rightarrow> string" where
  "py_str (PStr s) = s"
| "py_str v = py_repr v"

section \<open>Truthiness, \<open>or\<close>, and the common idioms\<close>

fun truthy :: "pyval \<Rightarrow> bool" where
  "truthy PNone = False"
| "truthy (PBool b) = b"
| "truthy (PInt i) = (i \<noteq> 0)"
| "truthy (PFloat r txt) = (r \<noteq> 0)"
| "truthy (PStr s) = (s \<noteq> [])"
| "truthy (PList xs) = (xs \<noteq> [])"
| "truthy (PDict kvs) = (kvs \<noteq> [])"

definition py_or :: "pyval \<Rightarrow> pyval \<Rightarrow> pyval" where
  "py_or a b = (if truthy a then a else b)"

definition is_dict :: "pyval \<Rightarrow> bool" where
  "is_dict v = (case v of PDict _ \<Rightarrow> True | _ \<Rightarrow> False)"

text \<open>\<open>v if isinstance(v, dict) else {}\<close> and \<open>v if isinstance(v, list) else []\<close>.\<close>

definition as_dict :: "pyval \<Rightarrow> pydict" where
  "as_dict v = (case v of PDict d \<Rightarrow> d | _ \<Rightarrow> [])"

definition as_list :: "pyval \<Rightarrow> pyval list" where
  "as_list v = (case v of PList xs \<Rightarrow> xs | _ \<Rightarrow> [])"

text \<open>\<open>d.get(k)\<close> on a dict, and \<open>v.get(k)\<close> on a value not known to be one.\<close>

definition dget :: "pydict \<Rightarrow> string \<Rightarrow> pyval" where
  "dget d k = (case map_of d k of None \<Rightarrow> PNone | Some v \<Rightarrow> v)"

definition vget :: "pyval \<Rightarrow> string \<Rightarrow> pyval result" where
  "vget v k = (case v of PDict d \<Rightarrow> Inr (dget d k) | _ \<Rightarrow> Inl AttributeError)"

text \<open>\<open>str(v or "").strip()\<close>, the body of every \<open>_normalize_string\<close> of the code.\<close>

definition str_or :: "pyval \<Rightarrow> string \<Rightarrow> string" where
  "str_or v d = (if truthy v then py_str v else d)"

definition norm_string :: "pyval \<Rightarrow> string" where
  "norm_string v = py_strip (str_or v '''')"

text \<open>\<open>text or None\<close> for a text.\<close>

definition none_if_empty :: "string \<Rightarrow> string option" where
  "none_if_empty s = (if s = [] then None else Some s)"

text \<open>A text as a value, with \<open>None\<close> for no text.\<close>

fun opt_str :: "string option \<Rightarrow> pyval" where
  "opt_str None = PNone"
| "opt_str (Some s) = PStr s"

text \<open>Appending the items that are not there yet, in order: \<open>dict.fromkeys\<close> and the
  \<open>if text and text not in normalized\<close> loops.\<close>

fun dedup_onto :: "'a list \<Rightarrow> 'a list \<Rightarrow> 'a list" where
  "dedup_onto acc [] = acc"
| "dedup_onto acc (x # xs) = dedup_onto (if x \<in> set acc then acc else acc @ [x]) xs"

definition dedup :: "'a list \<Rightarrow> 'a list" where
  "dedup xs = dedup_onto [] xs"

definition norm_string_list :: "pyval \<Rightarrow> string list" where
  "norm_string_list v =
     (case v of PList xs \<Rightarrow> dedup (filter (\<lambda>t. t \<noteq> []) (map norm_string xs)) | _ \<Rightarrow> [])"

text \<open>\<open>list(v)\<close>: the items of a list, the characters of a text, the keys of a dict.\<close>

fun py_list :: "pyval \<Rightarrow> pyval list result" where
  "py_list (PList xs) = Inr xs"
| "py_list (PStr s) = Inr (map (\<lambda>c. PStr [c]) s)"
| "py_list (PDict d) = Inr (map (\<lambda>kv. PStr (fst kv)) d)"
| "py_list v = Inl TypeError"

section \<open>int()\<close>

definition is_digit :: "char \<Rightarrow> bool" where
  "is_digit c = (let n = (of_char c :: nat) in 48 \<le> n \<and> n \<le> 57)"

definition digit_value :: "char \<Rightarrow> nat" where
  "digit_value c = of_char c - 48"

text \<open>Digits with single underscores between them, as \<open>int(text)\<close> accepts them; the
  accumulator holds the value read so far.\<close>

fun digits_value :: "nat \<Rightarrow> string \<Rightarrow> nat option" where
  "digits_value acc [] = Some acc"
| "digits_value acc [c] = (if is_digit c then Some (acc * 10 + digit_value c) else None)"
| "digits_value acc (c # d # cs) =
     (if is_digit c then digits_value (acc * 10 + digit_value c) (d # cs)
      else if c = CHR ''_'' \<and> is_digit d then digits_value acc (d # cs)
      else None)"

definition nat_of_text :: "string \<Rightarrow> nat option" where
  "nat_of_text s = (case s of [] \<Rightarrow> None | c # _ \<Rightarrow> if is_digit c then digits_value 0 s else None)"

definition int_of_text :: "string \<Rightarrow> int option" where
  "int_of_text s =
     (case py_strip s of
        [] \<Rightarrow> None
      | c # cs \<Rightarrow>
          if c = CHR ''-'' then map_option (\<lambda>n. - int n) (nat_of_text cs)
          else if c = CHR ''+'' then map_option int (nat_of_text cs)
          else map_option int (nat_of_text (c # cs)))"

definition rat_trunc :: "rat \<Rightarrow> int" where
  "rat_trunc r = (if r < 0 then - \<lfloor>- r\<rfloor> else \<lfloor>r\<rfloor>)"

fun py_int :: "pyval \<Rightarrow> int result" where
  "py_int (PBool b) = Inr (if b then 1 else 0)"
| "py_int (PInt i) = Inr i"
| "py_int (PFloat r txt) = Inr (rat_trunc r)"
| "py_int (PStr s) =
     (case int_of_text s of None \<Rightarrow> Inl (ValueError ''invalid literal for int()'') | Some i \<Rightarrow> Inr i)"
| "py_int v = Inl TypeError"

text \<open>\<open>isinstance(v, int)\<close> (a bool is an int) and \<open>isinstance(v, (int, float))\<close>, with the
  number it then is.\<close>

fun int_of_pyval :: "pyval \<Rightarrow> int option" where
  "int_of_pyval (PBool b) = Some (if b then 1 else 0)"
| "int_of_pyval (PInt i) = Some i"
| "int_of_pyval v = None"

fun num_of_pyval :: "pyval \<Rightarrow> rat option" where
  "num_of_pyval (PBool b) = Some (if b then 1 else 0)"
| "num_of_pyval (PInt i) = Some (of_int i)"
| "num_of_pyval (PFloat r txt) = Some r"
| "num_of_pyval v = None"

section \<open>float() and equality\<close>

text \<open>\<open>float(text)\<close> on decimal literals: sign, digits with an optional fraction, optional exponent.
  \<open>inf\<close> and \<open>nan\<close> are not values of the model and are refused.\<close>

definition digits_or_zero :: "string \<Rightarrow> nat option" where
  "digits_or_zero s = (if s = [] then Some 0 else nat_of_text s)"

definition mantissa_of_text :: "string \<Rightarrow> rat option" where
  "mantissa_of_text s =
     (let ip = takeWhile (\<lambda>c. c \<noteq> CHR ''.'') s; fp = drop (Suc (length ip)) s
      in if ip = [] \<and> fp = [] then None
         else case (digits_or_zero ip, digits_or_zero fp) of
                (Some i, Some f) \<Rightarrow> Some (of_nat i + of_nat f / 10 ^ length (filter is_digit fp))
              | _ \<Rightarrow> None)"

definition unsigned_float_of_text :: "string \<Rightarrow> rat option" where
  "unsigned_float_of_text s =
     (let m = takeWhile (\<lambda>c. c \<noteq> CHR ''e'' \<and> c \<noteq> CHR ''E'') s; e = drop (length m) s
      in case mantissa_of_text m of
           None \<Rightarrow> None
         | Some x \<Rightarrow>
             (case e of
                [] \<Rightarrow> Some x
              | _ # CHR ''-'' # ds \<Rightarrow> map_option (\<lambda>n. x / 10 ^ n) (nat_of_text ds)
              | _ # CHR ''+'' # ds \<Rightarrow> map_option (\<lambda>n. x * 10 ^ n) (nat_of_text ds)
              | _ # ds \<Rightarrow> map_option (\<lambda>n. x * 10 ^ n) (nat_of_text ds)))"

definition float_of_text :: "string \<Rightarrow> rat option" where
  "float_of_text s =
     (case py_strip s of
        [] \<Rightarrow> None
      | c # cs \<Rightarrow>
          if c = CHR ''-'' then map_option uminus (unsigned_float_of_text cs)
          else if c = CHR ''+'' then unsigned_float_of_text cs
          else unsigned_float_of_text (c # cs))"

fun py_float :: "pyval \<Rightarrow> rat result" where
  "py_float (PBool b) = Inr (if b then 1 else 0)"
| "py_float (PInt i) = Inr (of_int i)"
| "py_float (PFloat r txt) = Inr r"
| "py_float (PStr s) =
     (case float_of_text s of
        None \<Rightarrow> Inl (ValueError ''could not convert string to float'') | Some r \<Rightarrow> Inr r)"
| "py_float v = Inl TypeError"

text \<open>\<open>==\<close>: numbers by value, dicts whatever their order.\<close>

fun py_eq :: "pyval \<Rightarrow> pyval \<Rightarrow> bool" where
  "py_eq PNone w = (w = PNone)"
| "py_eq (PBool b) w = (num_of_pyval w = Some (if b then 1 else 0))"
| "py_eq (PInt i) w = (num_of_pyval w = Some (of_int i))"
| "py_eq (PFloat r txt) w = (num_of_pyval w = Some r)"
| "py_eq (PStr s) w = (w = PStr s)"
| "py_eq (PList xs) w =
     (case w of
        PList ys \<Rightarrow> list_all2 py_eq xs ys
      | _ \<Rightarrow> False)"
| "py_eq (PDict d) w =
     (case w of
        PDict e \<Rightarrow> length d = length e \<and>
          list_all (\<lambda>(k, v). case map_of e k of None \<Rightarrow> False | Some u \<Rightarrow> py_eq v u) d
      | _ \<Rightarrow> False)"

section \<open>json.dumps\<close>

definition json_char :: "bool \<Rightarrow> char \<Rightarrow> string" where
  "json_char ensure_ascii c =
     (let n = (of_char c :: nat)
      in if n = 34 \<or> n = 92 then [char_of (92::nat), c]
         else if n = 10 then [char_of (92::nat), CHR ''n'']
         else if n = 13 then [char_of (92::nat), CHR ''r'']
         else if n = 9 then [char_of (92::nat), CHR ''t'']
         else if n = 12 then [char_of (92::nat), CHR ''f'']
         else if n = 8 then [char_of (92::nat), CHR ''b'']
         else if n < 32 \<or> (ensure_ascii \<and> 126 < n)
           then [char_of (92::nat), CHR ''u'', CHR ''0'', CHR ''0'', hex_digit (n div 16), hex_digit (n mod 16)]
         else [c])"

definition json_string :: "bool \<Rightarrow> string \<Rightarrow> string" where
  "json_string ensure_ascii s =
     [char_of (34::nat)] @ concat (map (json_char ensure_ascii) s) @ [char_of (34::nat)]"

record json_style =
  item_sep :: string
  key_sep :: string
  sort_keys :: bool
  ensure_ascii :: bool

fun json_dumps :: "json_style \<Rightarrow> pyval \<Rightarrow> string" where
  "json_dumps st PNone = ''null''"
| "json_dumps st (PBool b) = (if b then ''true'' else ''false'')"
| "json_dumps st (PInt i) = int_text i"
| "json_dumps st (PFloat r txt) = txt"
| "json_dumps st (PStr s) = json_string (ensure_ascii st) s"
| "json_dumps st (PList xs) = ''['' @ py_join (item_sep st) (map (json_dumps st) xs) @ '']''"
| "json_dumps st (PDict kvs) =
     ''{'' @ py_join (item_sep st)
       (map (\<lambda>e. json_string (ensure_ascii st) (fst e) @ key_sep st @ snd e)
         (let es = map (\<lambda>kv. (fst kv, json_dumps st (snd kv))) kvs
          in if sort_keys st then sort_key fst es else es)) @ ''}''"

section \<open>Instants\<close>

text \<open>
  An instant is a number of microseconds. Which texts \<open>datetime.fromisoformat\<close> reads and what
  \<open>isoformat\<close> prints depends on the interpreter's version and on the local time zone, so both
  are a parameter: a \<open>time_env\<close>. A text without an offset gives a naive datetime, which
  Python refuses to compare with one that has an offset (\<open>TypeError\<close>).
\<close>

datatype datetime = Aware int | Naive int

record time_env =
  fromisoformat :: "string \<Rightarrow> datetime option"
  isoformat :: "int \<Rightarrow> string"

fun datetime_utc :: "datetime \<Rightarrow> int" where
  "datetime_utc (Aware t) = t"
| "datetime_utc (Naive t) = t"

definition seconds :: "int \<Rightarrow> int" where
  "seconds n = n * 1000000"

section \<open>Exceptions\<close>

lemma ebind_simps [simp]:
  "ebind (Inl e) f = Inl e"
  "ebind (Inr x) f = f x"
  by (simp_all add: ebind_def)

lemma ebind_Inr_conv: "ebind m f = Inr y \<longleftrightarrow> (\<exists>x. m = Inr x \<and> f x = Inr y)"
  by (cases m) auto

lemma ebind_Inl_conv: "ebind m f = Inl e \<longleftrightarrow> m = Inl e \<or> (\<exists>x. m = Inr x \<and> f x = Inl e)"
  by (cases m) auto

section \<open>Lemmas on strings\<close>

lemma of_char_lt_256: "(of_char c :: nat) < 256"
  using nat_of_char_less_256 [of c] by simp

lemma of_char_char_of: "n < 256 \<Longrightarrow> (of_char (char_of n :: char) :: nat) = n"
  by simp

text \<open>Executable forms over binary integers, for the evaluation of closed terms.\<close>

lemma of_char_int: "(of_char c :: int) = int (of_char c)"
  by (rule of_nat_of_char [symmetric])

lemma py_isspace_int [code]:
  "py_isspace c = (let n = (of_char c :: int) in (9 \<le> n \<and> n \<le> 13) \<or> (28 \<le> n \<and> n \<le> 32) \<or> n = 133 \<or> n = 160)"
  unfolding py_isspace_def Let_def of_char_int by linarith

lemma is_digit_int [code]: "is_digit c = (let n = (of_char c :: int) in 48 \<le> n \<and> n \<le> 57)"
  unfolding is_digit_def Let_def of_char_int by linarith

lemma py_lower_char_int [code]:
  "py_lower_char c =
     (let n = (of_char c :: int)
      in if (65 \<le> n \<and> n \<le> 90) \<or> (192 \<le> n \<and> n \<le> 222 \<and> n \<noteq> 215) then char_of (n + 32) else c)"
proof -
  have "(char_of (of_char c + 32 :: int) :: char) = char_of (of_char c + 32 :: nat)"
    using char_of_nat [of "of_char c + 32", where 'a = int] by (simp add: of_char_int)
  moreover have "(65 \<le> (of_char c :: int)) = (65 \<le> (of_char c :: nat))" "((of_char c :: int) \<le> 90) = ((of_char c :: nat) \<le> 90)"
    "(192 \<le> (of_char c :: int)) = (192 \<le> (of_char c :: nat))" "((of_char c :: int) \<le> 222) = ((of_char c :: nat) \<le> 222)"
    "((of_char c :: int) \<noteq> 215) = ((of_char c :: nat) \<noteq> 215)"
    unfolding of_char_int by linarith+
  ultimately show ?thesis unfolding py_lower_char_def Let_def by simp
qed

lemma py_lower_char_code:
  "(of_char (py_lower_char c) :: nat) =
     (let n = of_char c in if (65 \<le> n \<and> n \<le> 90) \<or> (192 \<le> n \<and> n \<le> 222 \<and> n \<noteq> 215) then n + 32 else n)"
  using of_char_lt_256 [of c] by (auto simp: py_lower_char_def Let_def)

lemma py_lower_char_idem [simp]: "py_lower_char (py_lower_char c) = py_lower_char c"
proof -
  have "(of_char (py_lower_char (py_lower_char c)) :: nat) = of_char (py_lower_char c)"
    unfolding py_lower_char_code [of "py_lower_char c"] py_lower_char_code [of c]
    by (auto simp: Let_def split: if_splits)
  then show ?thesis by simp
qed

lemma py_isspace_lower [simp]: "py_isspace (py_lower_char c) = py_isspace c"
  unfolding py_isspace_def py_lower_char_code by (auto simp: Let_def split: if_splits)

lemma py_lower_idem [simp]: "py_lower (py_lower s) = py_lower s"
  by (simp add: py_lower_def)

lemma py_lower_Nil [simp]: "py_lower s = [] \<longleftrightarrow> s = []" "py_lower [] = []"
  by (simp_all add: py_lower_def)

lemma py_lower_append [simp]: "py_lower (s @ t) = py_lower s @ py_lower t"
  by (simp add: py_lower_def)

lemma py_lower_lstrip: "py_lower (py_lstrip s) = py_lstrip (py_lower s)"
  by (induction s) (simp_all add: py_lower_def py_lstrip_def)

lemma py_lower_rev: "py_lower (rev s) = rev (py_lower s)"
  by (simp add: py_lower_def rev_map)

lemma py_lower_strip: "py_lower (py_strip s) = py_strip (py_lower s)"
  by (simp add: py_strip_def py_lower_rev py_lower_lstrip)

lemma py_lstrip_idem [simp]: "py_lstrip (py_lstrip s) = py_lstrip s"
  by (simp add: py_lstrip_def)

lemma py_lstrip_Cons: "py_lstrip s = c # cs \<Longrightarrow> \<not> py_isspace c"
  unfolding py_lstrip_def by (metis hd_dropWhile list.distinct(1) list.sel(1))

lemma py_lstrip_fixed: "(s \<noteq> [] \<Longrightarrow> \<not> py_isspace (hd s)) \<Longrightarrow> py_lstrip s = s"
  by (cases s) (auto simp: py_lstrip_def)

lemma py_lstrip_suffix: "\<exists>p. s = p @ py_lstrip s \<and> (\<forall>c\<in>set p. py_isspace c)"
  unfolding py_lstrip_def by (metis set_takeWhileD takeWhile_dropWhile_id)

lemma py_strip_Nil [simp]: "py_strip [] = []"
  by (simp add: py_strip_def py_lstrip_def)

lemma py_strip_no_lead: "py_strip s \<noteq> [] \<Longrightarrow> \<not> py_isspace (hd (py_strip s))"
proof -
  assume ne: "py_strip s \<noteq> []"
  obtain p where p: "rev (py_lstrip s) = p @ py_lstrip (rev (py_lstrip s))"
    using py_lstrip_suffix by blast
  then have "py_lstrip s = py_strip s @ rev p"
    by (metis py_strip_def rev_append rev_rev_ident)
  with ne obtain c cs where "py_lstrip s = c # cs" and "hd (py_strip s) = c"
    by (cases "py_strip s") auto
  then show ?thesis using py_lstrip_Cons by blast
qed

lemma py_strip_no_trail: "py_strip s \<noteq> [] \<Longrightarrow> \<not> py_isspace (last (py_strip s))"
  by (metis hd_dropWhile last_rev py_lstrip_def py_strip_def rev_is_Nil_conv)

lemma py_strip_fixed:
  assumes "s \<noteq> [] \<Longrightarrow> \<not> py_isspace (hd s)" and "s \<noteq> [] \<Longrightarrow> \<not> py_isspace (last s)"
  shows "py_strip s = s"
proof -
  have "py_lstrip s = s" using assms(1) by (rule py_lstrip_fixed)
  moreover have "py_lstrip (rev s) = rev s"
    using assms(2) by (intro py_lstrip_fixed) (simp add: hd_rev)
  ultimately show ?thesis by (simp add: py_strip_def)
qed

lemma py_strip_idem [simp]: "py_strip (py_strip s) = py_strip s"
  by (rule py_strip_fixed) (auto dest: py_strip_no_lead py_strip_no_trail)

lemma norm_string_PStr [simp]: "norm_string (PStr s) = py_strip s"
  by (simp add: norm_string_def str_or_def)

lemma norm_string_PNone [simp]: "norm_string PNone = []"
  by (simp add: norm_string_def str_or_def)

lemma norm_string_stripped [norm_facts]: "py_strip (norm_string v) = norm_string v"
  by (simp add: norm_string_def)

lemma none_if_empty_simps [simp]:
  "none_if_empty [] = None"
  "s \<noteq> [] \<Longrightarrow> none_if_empty s = Some s"
  "none_if_empty s = None \<longleftrightarrow> s = []"
  "none_if_empty s = Some t \<longleftrightarrow> s \<noteq> [] \<and> t = s"
  by (auto simp: none_if_empty_def)

section \<open>Lemmas on lists without repetition\<close>

lemma set_dedup_onto [simp]: "set (dedup_onto acc xs) = set acc \<union> set xs"
  by (induction xs arbitrary: acc) auto

lemma distinct_dedup_onto: "distinct acc \<Longrightarrow> distinct (dedup_onto acc xs)"
  by (induction xs arbitrary: acc) auto

lemma dedup_onto_prefix: "\<exists>ys. dedup_onto acc xs = acc @ ys"
proof (induction xs arbitrary: acc)
  case (Cons x xs)
  show ?case
    using Cons.IH [of acc] Cons.IH [of "acc @ [x]"] by auto
qed simp

lemma dedup_onto_distinct: "distinct (acc @ xs) \<Longrightarrow> dedup_onto acc xs = acc @ xs"
  by (induction xs arbitrary: acc) auto

lemma set_dedup [simp]: "set (dedup xs) = set xs"
  by (simp add: dedup_def)

lemma distinct_dedup [simp]: "distinct (dedup xs)"
  by (simp add: dedup_def distinct_dedup_onto)

lemma dedup_idem [simp]: "dedup (dedup xs) = dedup xs"
  using dedup_onto_distinct [of "[]" "dedup xs"] by (simp add: dedup_def [of "dedup xs"])

lemma dedup_Nil_conv [simp]: "dedup xs = [] \<longleftrightarrow> xs = []"
  by (metis set_dedup set_empty)

lemma norm_string_list_distinct [norm_facts, simp]: "distinct (norm_string_list v)"
  by (cases v) (simp_all add: norm_string_list_def)

lemma norm_string_list_nonempty [norm_facts]: "s \<in> set (norm_string_list v) \<Longrightarrow> s \<noteq> []"
  by (cases v) (auto simp: norm_string_list_def)

lemma set_norm_string_list:
  "set (norm_string_list v) = (case v of PList xs \<Rightarrow> norm_string ` set xs - {[]} | _ \<Rightarrow> {})"
  by (cases v) (auto simp: norm_string_list_def)

lemma list_all2_map_self: "(\<And>x. x \<in> set xs \<Longrightarrow> P x (f x)) \<Longrightarrow> list_all2 P xs (map f xs)"
  by (induction xs) auto

section \<open>Dicts: a keyed store\<close>

text \<open>
  What the code relies on of a dict: reading after a write and after a removal. The lemmas of
  the locale are what the components use; the association lists of this theory interpret it.
\<close>

locale keyed_store =
  fixes get :: "'s \<Rightarrow> 'k \<Rightarrow> 'v option"
    and put :: "'k \<Rightarrow> 'v \<Rightarrow> 's \<Rightarrow> 's"
    and del :: "'k \<Rightarrow> 's \<Rightarrow> 's"
  assumes get_put: "get (put k v s) k' = (if k' = k then Some v else get s k')"
    and get_del: "get (del k s) k' = (if k' = k then None else get s k')"
begin

lemma get_put_same: "get (put k v s) k = Some v"
  by (simp add: get_put)

lemma get_put_other: "k' \<noteq> k \<Longrightarrow> get (put k v s) k' = get s k'"
  by (simp add: get_put)

lemma get_del_put: "get s k = None \<Longrightarrow> get (del k (put k v s)) k' = get s k'"
  by (simp add: get_put get_del)

lemma get_put_put: "get (put k w (put k v s)) k' = get (put k w s) k'"
  by (simp add: get_put)

end

interpretation dict: keyed_store map_of AList.update AList.delete
  by unfold_locales (simp_all add: update_conv' delete_conv')

lemma set_AList_update: "p \<in> set (AList.update k v al) \<Longrightarrow> p = (k, v) \<or> p \<in> set al"
  by (induction al) (auto split: if_splits)

lemma set_AList_delete: "p \<in> set (AList.delete k al) \<Longrightarrow> p \<in> set al \<and> fst p \<noteq> k"
  by (induction al) (auto split: if_splits)

lemma distinct_delete_keys: "distinct (map fst al) \<Longrightarrow> distinct (map fst (AList.delete k al))"
  by (rule distinct_delete)

lemma delete_absent: "map_of al k = None \<Longrightarrow> AList.delete k al = al"
  by (metis delete_id map_of_eq_None_iff)

lemma delete_update_fresh: "map_of al k = None \<Longrightarrow> AList.delete k (AList.update k v al) = al"
  by (induction al) (auto split: if_splits)

lemma dget_update [simp]: "dget (AList.update k v d) k' = (if k' = k then v else dget d k')"
  by (simp add: dget_def dict.get_put)

lemma dget_delete [simp]: "dget (AList.delete k d) k' = (if k' = k then PNone else dget d k')"
  by (simp add: dget_def dict.get_del)

lemma dget_Nil [simp]: "dget [] k = PNone"
  by (simp add: dget_def)

lemma dget_Cons: "dget ((k, v) # d) k' = (if k = k' then v else dget d k')"
  by (simp add: dget_def)

lemma as_dict_simps [simp]:
  "as_dict (PDict d) = d"
  "as_dict PNone = []"
  by (simp_all add: as_dict_def)

lemma as_list_simps [simp]:
  "as_list (PList xs) = xs"
  "as_list PNone = []"
  by (simp_all add: as_list_def)

lemmas norm_simps = norm_string_def str_or_def none_if_empty_def

lemma map_of_filter_values:
  assumes "distinct (map fst al)"
  shows "map_of (filter (\<lambda>(k, v). P v) al) x = (case map_of al x of Some v \<Rightarrow> if P v then Some v else None | None \<Rightarrow> None)"
  using assms by (induction al) (auto split: option.splits dest: map_of_SomeD intro: rev_image_eqI)

end
