(* ===== verification/Queue_Contract.thy ===== *)
theory Queue_Contract
  imports Prelude
begin

text \<open>
  \<open>execution/queue_contract.py\<close>: the runtime lanes, their capacities, and how a queue name,
  a provider name or a task family is turned into a lane.
\<close>

section \<open>The tables\<close>

definition RUNTIME_LANES :: "string list" where
  "RUNTIME_LANES =
     [''cloud'', ''text_llm'', ''vision_llm'', ''visual_gpu'', ''visual_cpu'', ''training_runtime'']"

definition LOCAL_RUNTIME_LANES :: "string list" where
  "LOCAL_RUNTIME_LANES =
     [''text_llm'', ''vision_llm'', ''visual_gpu'', ''visual_cpu'', ''training_runtime'']"

record lane_cap =
  max_active :: int
  max_staged :: int
  local_residency_required :: bool

definition LANE_CAPACITY :: "(string \<times> lane_cap) list" where
  "LANE_CAPACITY =
     [(''cloud'', \<lparr>max_active = 1, max_staged = 1, local_residency_required = False\<rparr>),
      (''text_llm'', \<lparr>max_active = 1, max_staged = 1, local_residency_required = True\<rparr>),
      (''vision_llm'', \<lparr>max_active = 1, max_staged = 1, local_residency_required = True\<rparr>),
      (''visual_gpu'', \<lparr>max_active = 1, max_staged = 1, local_residency_required = True\<rparr>),
      (''visual_cpu'', \<lparr>max_active = 1, max_staged = 1, local_residency_required = True\<rparr>),
      (''training_runtime'', \<lparr>max_active = 1, max_staged = 1, local_residency_required = True\<rparr>)]"

definition RESIDENCY_COMPONENT_BY_LANE :: "(string \<times> string option) list" where
  "RESIDENCY_COMPONENT_BY_LANE =
     [(''cloud'', None),
      (''text_llm'', Some ''text_llm''),
      (''vision_llm'', Some ''vision_llm''),
      (''visual_gpu'', Some ''visual_gpu''),
      (''visual_cpu'', Some ''visual_cpu''),
      (''training_runtime'', Some ''training_runtime'')]"

definition QUEUE_LANE_ALIASES :: "(string \<times> string) list" where
  "QUEUE_LANE_ALIASES =
     [(''cloud'', ''cloud''), (''cloud_queue'', ''cloud''),
      (''local'', ''text_llm''), (''text'', ''text_llm''), (''text_llm'', ''text_llm''),
      (''llamacpp'', ''text_llm''), (''llama_cpp'', ''text_llm''),
      (''vision'', ''vision_llm''), (''vision_llm'', ''vision_llm''),
      (''local_vision'', ''vision_llm''),
      (''visual'', ''visual_gpu''), (''visual_runtime'', ''visual_gpu''),
      (''visual_gpu'', ''visual_gpu''), (''comfyui'', ''visual_gpu''),
      (''comfyui_gpu'', ''visual_gpu''), (''gpu_comfyui'', ''visual_gpu''),
      (''visual_cpu'', ''visual_cpu''), (''comfyui_cpu'', ''visual_cpu''),
      (''cpu_comfyui'', ''visual_cpu''),
      (''training'', ''training_runtime''), (''training_runtime'', ''training_runtime''),
      (''sd_scripts'', ''training_runtime''), (''sd_scripts_training'', ''training_runtime'')]"

definition TASK_FAMILY_DEFAULT_LANES :: "(string \<times> string) list" where
  "TASK_FAMILY_DEFAULT_LANES =
     [(''task.chat'', ''text_llm''), (''task.classification'', ''text_llm''),
      (''task.information_extraction'', ''text_llm''), (''task.reasoning'', ''text_llm''),
      (''task.sentiment_analysis'', ''text_llm''), (''task.streaming_response'', ''text_llm''),
      (''task.vision_analysis'', ''vision_llm''), (''task.image_generation'', ''visual_gpu''),
      (''task.generation.image'', ''visual_gpu''), (''task.avatar_generation'', ''visual_gpu''),
      (''task.lora_training'', ''training_runtime'')]"

section \<open>The functions\<close>

definition lane_key :: "pyval \<Rightarrow> string" where
  "lane_key v = py_replace_char CHR ''-'' CHR ''_'' (py_lower (norm_string v))"

definition normalize_runtime_lane :: "string \<Rightarrow> pyval \<Rightarrow> string" where
  "normalize_runtime_lane dflt v =
     (let normalized = lane_key v
      in if normalized = [] then dflt
         else (case map_of QUEUE_LANE_ALIASES normalized of
                 Some lane \<Rightarrow> lane
               | None \<Rightarrow> if normalized \<in> set RUNTIME_LANES then normalized else dflt))"

definition infer_runtime_lane :: "pyval \<Rightarrow> pyval \<Rightarrow> pyval \<Rightarrow> string" where
  "infer_runtime_lane queue task_family requested_provider =
     (let queue_lane = normalize_runtime_lane '''' queue
      in if queue_lane \<noteq> []
         then (if queue_lane = ''text_llm'' \<and> py_lower (norm_string task_family) = ''task.vision_analysis''
               then ''vision_llm'' else queue_lane)
         else
           let provider_lane = normalize_runtime_lane '''' requested_provider
           in if provider_lane \<noteq> [] then provider_lane
              else (case map_of TASK_FAMILY_DEFAULT_LANES (py_lower (norm_string task_family)) of
                      Some lane \<Rightarrow> lane | None \<Rightarrow> ''text_llm''))"

definition lane_capacity :: "pyval \<Rightarrow> lane_cap" where
  "lane_capacity runtime_lane =
     (case map_of LANE_CAPACITY (normalize_runtime_lane ''text_llm'' runtime_lane) of
        Some c \<Rightarrow> c
      | None \<Rightarrow> the (map_of LANE_CAPACITY ''text_llm''))"

definition residency_component_for_lane :: "pyval \<Rightarrow> string option" where
  "residency_component_for_lane runtime_lane =
     (case map_of RESIDENCY_COMPONENT_BY_LANE (normalize_runtime_lane ''text_llm'' runtime_lane) of
        Some c \<Rightarrow> c | None \<Rightarrow> None)"

record lane_contract =
  lc_lane :: string
  lc_residency_component_id :: "string option"
  lc_capacity :: lane_cap

definition lane_contract_snapshot :: "(string \<times> lane_contract) list" where
  "lane_contract_snapshot =
     map (\<lambda>lane. (lane,
            \<lparr>lc_lane = lane,
             lc_residency_component_id = residency_component_for_lane (PStr lane),
             lc_capacity = lane_capacity (PStr lane)\<rparr>)) RUNTIME_LANES"

section \<open>Every lane is a runtime lane\<close>

lemma aliases_are_lanes: "map_of QUEUE_LANE_ALIASES k = Some l \<Longrightarrow> l \<in> set RUNTIME_LANES"
proof -
  have all: "list_all (\<lambda>p. snd p \<in> set RUNTIME_LANES) QUEUE_LANE_ALIASES"
    by code_simp
  assume "map_of QUEUE_LANE_ALIASES k = Some l"
  then have "(k, l) \<in> set QUEUE_LANE_ALIASES" by (rule map_of_SomeD)
  with all show ?thesis by (auto simp: list_all_iff)
qed

lemma family_lanes_are_lanes:
  "map_of TASK_FAMILY_DEFAULT_LANES k = Some l \<Longrightarrow> l \<in> set RUNTIME_LANES"
proof -
  have all: "list_all (\<lambda>p. snd p \<in> set RUNTIME_LANES) TASK_FAMILY_DEFAULT_LANES"
    by code_simp
  assume "map_of TASK_FAMILY_DEFAULT_LANES k = Some l"
  then have "(k, l) \<in> set TASK_FAMILY_DEFAULT_LANES" by (rule map_of_SomeD)
  with all show ?thesis by (auto simp: list_all_iff)
qed

lemma lanes_alias_themselves:
  assumes "l \<in> set RUNTIME_LANES"
  shows "normalize_runtime_lane d (PStr l) = l"
proof -
  have "\<forall>l\<in>set RUNTIME_LANES. lane_key (PStr l) = l \<and> l \<noteq> [] \<and> map_of QUEUE_LANE_ALIASES l = Some l"
    by code_simp
  with assms show ?thesis by (simp add: normalize_runtime_lane_def)
qed

lemma normalize_runtime_lane_cases:
  "normalize_runtime_lane d v \<in> set RUNTIME_LANES \<or> normalize_runtime_lane d v = d"
  by (auto simp: normalize_runtime_lane_def Let_def dest: aliases_are_lanes split: option.splits)

lemma text_llm_is_lane: "''text_llm'' \<in> set RUNTIME_LANES" "''vision_llm'' \<in> set RUNTIME_LANES"
  by code_simp+

lemma normalize_default_lane [simp]: "normalize_runtime_lane ''text_llm'' v \<in> set RUNTIME_LANES"
  using normalize_runtime_lane_cases [of "''text_llm''" v] text_llm_is_lane by metis

lemma infer_runtime_lane_in_lanes: "infer_runtime_lane q f p \<in> set RUNTIME_LANES"
  using normalize_runtime_lane_cases [of "[]" q] normalize_runtime_lane_cases [of "[]" p]
    text_llm_is_lane
  by (auto simp: infer_runtime_lane_def Let_def dest: family_lanes_are_lanes split: option.splits)

lemma lanes_have_capacity:
  assumes "l \<in> set RUNTIME_LANES"
  shows "map_of LANE_CAPACITY l =
           Some \<lparr>max_active = 1, max_staged = 1, local_residency_required = (l \<noteq> ''cloud'')\<rparr>"
    and "map_of RESIDENCY_COMPONENT_BY_LANE l = Some (if l = ''cloud'' then None else Some l)"
proof -
  have "\<forall>l\<in>set RUNTIME_LANES. map_of LANE_CAPACITY l =
           Some \<lparr>max_active = 1, max_staged = 1, local_residency_required = (l \<noteq> ''cloud'')\<rparr>"
    by code_simp
  then show "map_of LANE_CAPACITY l =
           Some \<lparr>max_active = 1, max_staged = 1, local_residency_required = (l \<noteq> ''cloud'')\<rparr>"
    using assms by blast
  have "\<forall>l\<in>set RUNTIME_LANES.
          map_of RESIDENCY_COMPONENT_BY_LANE l = Some (if l = ''cloud'' then None else Some l)"
    by code_simp
  then show "map_of RESIDENCY_COMPONENT_BY_LANE l = Some (if l = ''cloud'' then None else Some l)"
    using assms by blast
qed

lemma lane_capacity_one: "max_active (lane_capacity v) = 1" "max_staged (lane_capacity v) = 1"
  using lanes_have_capacity [OF normalize_default_lane [of v]]
  by (simp_all add: lane_capacity_def)

lemma residency_iff_required:
  "local_residency_required (lane_capacity v) \<longleftrightarrow> residency_component_for_lane v \<noteq> None"
  using lanes_have_capacity [OF normalize_default_lane [of v]]
  by (simp add: lane_capacity_def residency_component_for_lane_def)

section \<open>Properties\<close>

text \<open>
  Whatever queue, task family and provider a request names, the lane inferred for it is one
  of the runtime lanes, normalizing it again changes nothing, it runs one job and stages one, and
  it needs a resident component, which has its name, exactly when it is not the cloud lane.
\<close>

theorem inferred_lane_contract:
  "\<exists>lane\<in>set RUNTIME_LANES. infer_runtime_lane q f p = lane \<and> normalize_runtime_lane d (PStr lane) = lane \<and>
     lane_capacity (PStr lane) = \<lparr>max_active = 1, max_staged = 1, local_residency_required = (lane \<noteq> ''cloud'')\<rparr> \<and>
     residency_component_for_lane (PStr lane) = (if lane = ''cloud'' then None else Some lane)"
proof -
  let ?l = "infer_runtime_lane q f p"
  have l: "?l \<in> set RUNTIME_LANES" by (rule infer_runtime_lane_in_lanes)
  then have "lane_capacity (PStr ?l) = \<lparr>max_active = 1, max_staged = 1, local_residency_required = (?l \<noteq> ''cloud'')\<rparr>"
    by (simp add: lane_capacity_def lanes_alias_themselves lanes_have_capacity)
  moreover have "residency_component_for_lane (PStr ?l) = (if ?l = ''cloud'' then None else Some ?l)"
    using l by (simp add: residency_component_for_lane_def lanes_alias_themselves lanes_have_capacity)
  ultimately show ?thesis using l lanes_alias_themselves [OF l] by blast
qed


end
