(* ===== verification/Failure_Codes.thy ===== *)
theory Failure_Codes
  imports Prelude
begin

text \<open>
  \<open>execution/failure_codes.py\<close>: the failure taxonomy, the classification of an error code and
  the recovery policy the client is told.
\<close>

section \<open>The tables\<close>

record failure_category =
  canonical_code :: string
  aliases :: "string list"

definition FAILURE_CODE_TAXONOMY :: "(string \<times> failure_category) list" where
  "FAILURE_CODE_TAXONOMY =
     [(''unsupported_task_family'',
        \<lparr>canonical_code = ''unsupported_task_family'',
         aliases = [''unsupported_task_family'', ''task_family_not_declared'', ''task_family_not_accepted'']\<rparr>),
      (''provider_unavailable'',
        \<lparr>canonical_code = ''provider_unavailable'',
         aliases = [''no_enabled_providers'', ''no_governance_approved_providers'',
           ''no_eligible_provider_available'', ''no_provider_configured'',
           ''local_only_provider_unavailable'', ''cloud_only_provider_unavailable'',
           ''provider_execution_failed'']\<rparr>),
      (''model_unavailable'',
        \<lparr>canonical_code = ''model_unavailable'',
         aliases = [''no_eligible_model_available'', ''local_only_no_eligible_model'']\<rparr>),
      (''governance_violation'',
        \<lparr>canonical_code = ''governance_violation'',
         aliases = [''prompt_not_registered'', ''prompt_in_probation'', ''task_family_mismatch'',
           ''prompt_task_family_mismatch'', ''prompt_state_invalid'', ''prompt_access_denied'',
           ''invalid_prompt_version'', ''duplicate_prompt_id'', ''duplicate_prompt_version'',
           ''prompt_provider_not_allowed'', ''prompt_model_override_not_allowed'',
           ''prompt_structured_output_required'', ''prompt_routing_policy_conflict'',
           ''governance_stale'', ''governance_violation_task_family'',
           ''governance_violation_timeout'', ''governance_violation_input_size'',
           ''governance_violation_provider'', ''governance_violation_model'']\<rparr>),
      (''budget_violation'',
        \<lparr>canonical_code = ''budget_violation'',
         aliases = [''missing_budget_grant'', ''budget_exhausted'', ''reservation_conflict'',
           ''budget_state_invalid'']\<rparr>),
      (''invalid_input'',
        \<lparr>canonical_code = ''invalid_input'',
         aliases = [''invalid_input'', ''prompt_input_validation_failed'',
           ''prompt_input_schema_untrusted'', ''prompt_input_schema_reference_mismatch'',
           ''prompt_input_schema_unavailable'', ''prompt_input_schema_invalid'',
           ''prompt_input_schema_not_found'', ''idempotency_key_conflict'']\<rparr>),
      (''execution_timeout'',
        \<lparr>canonical_code = ''execution_timeout'', aliases = [''execution_timeout'']\<rparr>),
      (''lease_expired'',
        \<lparr>canonical_code = ''lease_expired'', aliases = [''lease_expired'', ''lease_lost'']\<rparr>),
      (''internal_execution_error'',
        \<lparr>canonical_code = ''internal_execution_error'',
         aliases = [''internal_execution_error'', ''execution_queue_recovery_runner_unavailable'',
           ''execution_queue_restart_while_running'']\<rparr>)]"

record recovery_entry =
  re_retryable :: bool
  re_fallback_allowed :: bool
  re_action :: string

definition FAILURE_RECOVERY_POLICY :: "(string \<times> recovery_entry) list" where
  "FAILURE_RECOVERY_POLICY =
     [(''unsupported_task_family'',
        \<lparr>re_retryable = False, re_fallback_allowed = False, re_action = ''do_not_retry''\<rparr>),
      (''provider_unavailable'',
        \<lparr>re_retryable = True, re_fallback_allowed = True, re_action = ''retry_or_fallback''\<rparr>),
      (''model_unavailable'',
        \<lparr>re_retryable = False, re_fallback_allowed = True, re_action = ''fallback_if_allowed''\<rparr>),
      (''governance_violation'',
        \<lparr>re_retryable = False, re_fallback_allowed = False, re_action = ''fix_request_or_policy''\<rparr>),
      (''budget_violation'',
        \<lparr>re_retryable = False, re_fallback_allowed = False, re_action = ''refresh_or_increase_budget''\<rparr>),
      (''invalid_input'',
        \<lparr>re_retryable = False, re_fallback_allowed = False, re_action = ''fix_request''\<rparr>),
      (''execution_timeout'',
        \<lparr>re_retryable = True, re_fallback_allowed = True, re_action = ''retry_or_fallback''\<rparr>),
      (''lease_expired'',
        \<lparr>re_retryable = True, re_fallback_allowed = False, re_action = ''renew_lease_then_retry''\<rparr>),
      (''internal_execution_error'',
        \<lparr>re_retryable = False, re_fallback_allowed = False, re_action = ''inspect_error''\<rparr>)]"

section \<open>The functions\<close>

fun category_of_alias :: "string \<Rightarrow> (string \<times> failure_category) list \<Rightarrow> string option" where
  "category_of_alias code [] = None"
| "category_of_alias code ((category, payload) # rest) =
     (if code \<in> set (aliases payload) then Some category else category_of_alias code rest)"

definition classify_failure_code :: "pyval \<Rightarrow> string option" where
  "classify_failure_code code =
     (let normalized = norm_string code
      in if normalized = [] then None
         else (case category_of_alias normalized FAILURE_CODE_TAXONOMY of
                 Some category \<Rightarrow> Some category
               | None \<Rightarrow>
                   if py_startswith normalized ''governance_violation'' then Some ''governance_violation''
                   else if py_startswith normalized ''budget_''
                     \<or> normalized \<in> {''missing_budget_grant'', ''reservation_conflict''}
                     then Some ''budget_violation''
                   else if py_startswith normalized ''invalid_input'' then Some ''invalid_input''
                   else None))"

record recovery_policy =
  rp_failure_category :: string
  rp_retryable :: bool
  rp_fallback_allowed :: bool
  rp_action :: string

definition recovery_policy_for_failure_code :: "pyval \<Rightarrow> recovery_policy" where
  "recovery_policy_for_failure_code code =
     (let category = (case classify_failure_code code of
                        Some c \<Rightarrow> c | None \<Rightarrow> ''internal_execution_error'');
          policy = (case map_of FAILURE_RECOVERY_POLICY category of
                      Some p \<Rightarrow> p
                    | None \<Rightarrow> the (map_of FAILURE_RECOVERY_POLICY ''internal_execution_error''))
      in \<lparr>rp_failure_category = category,
          rp_retryable = re_retryable policy,
          rp_fallback_allowed = re_fallback_allowed policy,
          rp_action = (if re_action policy \<noteq> [] then re_action policy else ''inspect_error'')\<rparr>)"

section \<open>Classification\<close>

lemma category_of_alias_mem:
  "category_of_alias c t = Some k \<Longrightarrow> \<exists>p. (k, p) \<in> set t \<and> c \<in> set (aliases p)"
  by (induction c t rule: category_of_alias.induct) (auto split: if_splits)

lemma taxonomy_categories_have_policies:
  "fst ` set FAILURE_CODE_TAXONOMY = dom (map_of FAILURE_RECOVERY_POLICY)"
proof -
  have "map fst FAILURE_CODE_TAXONOMY = map fst FAILURE_RECOVERY_POLICY"
    by code_simp
  then show ?thesis by (metis dom_map_of_conv_image_fst set_map)
qed

lemma fallback_categories:
  "{''governance_violation'', ''budget_violation'', ''invalid_input'', ''internal_execution_error''}
     \<subseteq> dom (map_of FAILURE_RECOVERY_POLICY)"
  by (simp add: FAILURE_RECOVERY_POLICY_def)

lemma classify_in_policy:
  assumes "classify_failure_code c = Some k"
  shows "k \<in> dom (map_of FAILURE_RECOVERY_POLICY)"
proof (cases "category_of_alias (norm_string c) FAILURE_CODE_TAXONOMY")
  case None
  with assms show ?thesis
    using fallback_categories by (auto simp: classify_failure_code_def Let_def split: if_splits)
next
  case (Some k')
  with assms have "k' = k" by (auto simp: classify_failure_code_def Let_def split: if_splits)
  with category_of_alias_mem [OF Some] show ?thesis
    by (metis fst_conv image_eqI taxonomy_categories_have_policies)
qed

lemma recovery_of_category:
  assumes "classify_failure_code c = Some k"
  shows "\<exists>p. map_of FAILURE_RECOVERY_POLICY k = Some p \<and>
             recovery_policy_for_failure_code c =
               \<lparr>rp_failure_category = k, rp_retryable = re_retryable p,
                rp_fallback_allowed = re_fallback_allowed p, rp_action = re_action p\<rparr>"
proof -
  from classify_in_policy [OF assms] obtain p where p: "map_of FAILURE_RECOVERY_POLICY k = Some p"
    by blast
  have "list_all (\<lambda>e. re_action (snd e) \<noteq> []) FAILURE_RECOVERY_POLICY"
    by code_simp
  with map_of_SomeD [OF p] have "re_action p \<noteq> []" by (auto simp: list_all_iff)
  with p assms show ?thesis by (simp add: recovery_policy_for_failure_code_def)
qed

section \<open>Properties\<close>

lemma aliases_classified: "\<forall>kp\<in>set FAILURE_CODE_TAXONOMY. \<forall>a\<in>set (aliases (snd kp)). classify_failure_code (PStr a) = Some (fst kp)"
  by code_simp

text \<open>
  Every alias of the taxonomy is classified as its own category, and the recovery a client is
  told for it is the one the policy table has for that category. No category shadows another.
\<close>

theorem alias_recovery:
  assumes "(category, payload) \<in> set FAILURE_CODE_TAXONOMY" and "a \<in> set (aliases payload)"
  shows "classify_failure_code (PStr a) = Some category \<and>
    (\<exists>p. map_of FAILURE_RECOVERY_POLICY category = Some p \<and>
       recovery_policy_for_failure_code (PStr a) =
         \<lparr>rp_failure_category = category, rp_retryable = re_retryable p,
          rp_fallback_allowed = re_fallback_allowed p, rp_action = re_action p\<rparr>)"
proof -
  have "classify_failure_code (PStr a) = Some category"
    using bspec [OF aliases_classified assms(1)] assms(2) by simp
  with recovery_of_category [OF this] show ?thesis by simp
qed

theorem alias_recovery_witness:
  "rp_action (recovery_policy_for_failure_code (PStr ''lease_lost'')) = ''renew_lease_then_retry''"
proof -
  let ?p = "\<lparr>canonical_code = ''lease_expired'', aliases = [''lease_expired'', ''lease_lost'']\<rparr>"
  have "(''lease_expired'', ?p) \<in> set FAILURE_CODE_TAXONOMY" by code_simp
  moreover have "map_of FAILURE_RECOVERY_POLICY ''lease_expired''
      = Some \<lparr>re_retryable = True, re_fallback_allowed = False, re_action = ''renew_lease_then_retry''\<rparr>" by code_simp
  ultimately show ?thesis using alias_recovery [of "''lease_expired''" ?p "''lease_lost''"] by auto
qed


end
