(* ===== verification/Node_Lifecycle.thy ===== *)
theory Node_Lifecycle
  imports Prelude
begin

text \<open>
  \<open>lifecycle/node_lifecycle.py\<close>, the node's lifecycle state machine, and
  \<open>runtime/bootstrap_timeout.py\<close>, the monitor thread that sends a node stuck in
  \<open>bootstrap_connecting\<close> back to \<open>unconfigured\<close>. The calls of \<open>_on_transition\<close> are
  recorded in the state, newest last; the log lines are left out.
\<close>

section \<open>States and transitions\<close>

datatype NodeLifecycleState =
    UNCONFIGURED
  | BOOTSTRAP_CONNECTING
  | BOOTSTRAP_CONNECTED
  | CORE_DISCOVERED
  | REGISTRATION_PENDING
  | PENDING_APPROVAL
  | TRUSTED
  | CAPABILITY_SETUP_PENDING
  | CAPABILITY_DECLARATION_IN_PROGRESS
  | CAPABILITY_DECLARATION_ACCEPTED
  | CAPABILITY_DECLARATION_FAILED_RETRY_PENDING
  | OPERATIONAL
  | DEGRADED

fun state_value :: "NodeLifecycleState \<Rightarrow> string" where
  "state_value UNCONFIGURED = ''unconfigured''"
| "state_value BOOTSTRAP_CONNECTING = ''bootstrap_connecting''"
| "state_value BOOTSTRAP_CONNECTED = ''bootstrap_connected''"
| "state_value CORE_DISCOVERED = ''core_discovered''"
| "state_value REGISTRATION_PENDING = ''registration_pending''"
| "state_value PENDING_APPROVAL = ''pending_approval''"
| "state_value TRUSTED = ''trusted''"
| "state_value CAPABILITY_SETUP_PENDING = ''capability_setup_pending''"
| "state_value CAPABILITY_DECLARATION_IN_PROGRESS = ''capability_declaration_in_progress''"
| "state_value CAPABILITY_DECLARATION_ACCEPTED = ''capability_declaration_accepted''"
| "state_value CAPABILITY_DECLARATION_FAILED_RETRY_PENDING =
     ''capability_declaration_failed_retry_pending''"
| "state_value OPERATIONAL = ''operational''"
| "state_value DEGRADED = ''degraded''"

fun ALLOWED_TRANSITIONS :: "NodeLifecycleState \<Rightarrow> NodeLifecycleState set" where
  "ALLOWED_TRANSITIONS UNCONFIGURED = {BOOTSTRAP_CONNECTING, TRUSTED}"
| "ALLOWED_TRANSITIONS BOOTSTRAP_CONNECTING = {BOOTSTRAP_CONNECTED, UNCONFIGURED}"
| "ALLOWED_TRANSITIONS BOOTSTRAP_CONNECTED = {CORE_DISCOVERED}"
| "ALLOWED_TRANSITIONS CORE_DISCOVERED = {REGISTRATION_PENDING}"
| "ALLOWED_TRANSITIONS REGISTRATION_PENDING = {PENDING_APPROVAL}"
| "ALLOWED_TRANSITIONS PENDING_APPROVAL = {TRUSTED}"
| "ALLOWED_TRANSITIONS TRUSTED = {CAPABILITY_SETUP_PENDING}"
| "ALLOWED_TRANSITIONS CAPABILITY_SETUP_PENDING = {CAPABILITY_DECLARATION_IN_PROGRESS}"
| "ALLOWED_TRANSITIONS CAPABILITY_DECLARATION_IN_PROGRESS =
     {CAPABILITY_DECLARATION_ACCEPTED, CAPABILITY_DECLARATION_FAILED_RETRY_PENDING}"
| "ALLOWED_TRANSITIONS CAPABILITY_DECLARATION_ACCEPTED = {OPERATIONAL}"
| "ALLOWED_TRANSITIONS CAPABILITY_DECLARATION_FAILED_RETRY_PENDING =
     {CAPABILITY_DECLARATION_IN_PROGRESS}"
| "ALLOWED_TRANSITIONS OPERATIONAL = {}"
| "ALLOWED_TRANSITIONS DEGRADED =
     {OPERATIONAL, CAPABILITY_SETUP_PENDING, CAPABILITY_DECLARATION_FAILED_RETRY_PENDING}"

definition DEGRADABLE_STATES :: "NodeLifecycleState set" where
  "DEGRADABLE_STATES =
     {BOOTSTRAP_CONNECTING, BOOTSTRAP_CONNECTED, CORE_DISCOVERED, REGISTRATION_PENDING,
      PENDING_APPROVAL, TRUSTED, CAPABILITY_SETUP_PENDING, CAPABILITY_DECLARATION_IN_PROGRESS,
      CAPABILITY_DECLARATION_ACCEPTED, CAPABILITY_DECLARATION_FAILED_RETRY_PENDING, OPERATIONAL}"

definition can_transition :: "NodeLifecycleState \<Rightarrow> NodeLifecycleState \<Rightarrow> bool" where
  "can_transition from_state to_state =
     (if to_state = DEGRADED \<and> from_state \<in> DEGRADABLE_STATES then True
      else to_state \<in> ALLOWED_TRANSITIONS from_state)"

record transition =
  tr_from :: NodeLifecycleState
  tr_to :: NodeLifecycleState
  tr_meta :: pydict

record node_lifecycle =
  nl_state :: NodeLifecycleState
  nl_calls :: "transition list"

definition new_lifecycle :: node_lifecycle where
  "new_lifecycle = \<lparr>nl_state = UNCONFIGURED, nl_calls = []\<rparr>"

text \<open>The argument of \<open>transition_to\<close> is checked to be a lifecycle state: anything else is
  given by its text.\<close>

datatype state_arg = IsState NodeLifecycleState | NotAState string

fun transition_to :: "node_lifecycle \<Rightarrow> state_arg \<Rightarrow> pydict \<Rightarrow> node_lifecycle result" where
  "transition_to lc (NotAState txt) meta = Inl (ValueError (''unknown lifecycle state: '' @ txt))"
| "transition_to lc (IsState next_state) meta =
     (if \<not> can_transition (nl_state lc) next_state
      then Inl (ValueError (''invalid state transition: '' @ state_value (nl_state lc)
                              @ '' -> '' @ state_value next_state))
      else Inr (lc\<lparr>nl_state := next_state,
                  nl_calls := nl_calls lc @
                    [\<lparr>tr_from = nl_state lc, tr_to = next_state, tr_meta = meta\<rparr>]\<rparr>))"

definition reset_to_unconfigured :: "node_lifecycle \<Rightarrow> pydict \<Rightarrow> node_lifecycle" where
  "reset_to_unconfigured lc meta =
     lc\<lparr>nl_state := UNCONFIGURED,
        nl_calls := nl_calls lc @
          [\<lparr>tr_from = nl_state lc, tr_to = UNCONFIGURED, tr_meta = meta\<rparr>]\<rparr>"

section \<open>Runs\<close>

text \<open>A run of the lifecycle by \<open>transition_to\<close> alone, from one state to another, with the
  states it passes through after the first.\<close>

inductive path :: "NodeLifecycleState \<Rightarrow> NodeLifecycleState list \<Rightarrow> NodeLifecycleState \<Rightarrow> bool" where
  path_nil: "path s [] s"
| path_step: "path s p t \<Longrightarrow> can_transition t u \<Longrightarrow> path s (p @ [u]) u"

inductive_cases path_NilE: "path s [] t"

text \<open>The recorded calls form a chain that starts at \<open>unconfigured\<close> and ends in the current
  state; every link is a transition of the table or a reset.\<close>

fun chained :: "NodeLifecycleState \<Rightarrow> transition list \<Rightarrow> NodeLifecycleState \<Rightarrow> bool" where
  "chained s [] t = (s = t)"
| "chained s (c # cs) t =
     (tr_from c = s \<and> (can_transition s (tr_to c) \<or> tr_to c = UNCONFIGURED) \<and> chained (tr_to c) cs t)"

definition lifecycle_inv :: "node_lifecycle \<Rightarrow> bool" where
  "lifecycle_inv lc = chained UNCONFIGURED (nl_calls lc) (nl_state lc)"

datatype lifecycle_op = Transition state_arg pydict | Reset pydict

fun lifecycle_step :: "node_lifecycle \<Rightarrow> lifecycle_op \<Rightarrow> node_lifecycle" where
  "lifecycle_step lc (Transition arg meta) =
     (case transition_to lc arg meta of Inl _ \<Rightarrow> lc | Inr lc' \<Rightarrow> lc')"
| "lifecycle_step lc (Reset meta) = reset_to_unconfigured lc meta"

section \<open>The bootstrap timeout monitor\<close>

text \<open>
  The monitor thread's loop body has three places where it gives up the processor: it reads the
  deadline, then (if it has passed) asks the lifecycle for the transition, then clears the
  deadline. \<open>mon_pc\<close> says which part is next; other threads may act between the parts.
\<close>

datatype mon_pc = AtRead | AtFire | AtClear

record monitored =
  mo_lifecycle :: node_lifecycle
  mo_deadline :: "rat option"
  mo_pc :: mon_pc

definition on_transition :: "rat \<Rightarrow> rat \<Rightarrow> NodeLifecycleState \<Rightarrow> rat option" where
  "on_transition now timeout_seconds to_state =
     (if to_state = BOOTSTRAP_CONNECTING then Some (now + timeout_seconds) else None)"

definition monitored_transition ::
    "rat \<Rightarrow> rat \<Rightarrow> monitored \<Rightarrow> NodeLifecycleState \<Rightarrow> pydict \<Rightarrow> monitored result" where
  "monitored_transition now timeout_seconds m s meta =
     (case transition_to (mo_lifecycle m) (IsState s) meta of
        Inl e \<Rightarrow> Inl e
      | Inr lc \<Rightarrow> Inr (m\<lparr>mo_lifecycle := lc, mo_deadline := on_transition now timeout_seconds s\<rparr>))"

definition timeout_meta :: "rat \<Rightarrow> string \<Rightarrow> pydict" where
  "timeout_meta timeout_seconds txt =
     [(''reason'', PStr ''bootstrap_connect_timeout''), (''timeout_seconds'', PFloat timeout_seconds txt)]"

text \<open>One part of the loop body of \<open>_run\<close>: reading the deadline and comparing it with the
  clock; the guarded transition, whose exception is only logged; clearing the deadline.\<close>

definition run_part :: "rat \<Rightarrow> rat \<Rightarrow> string \<Rightarrow> monitored \<Rightarrow> monitored" where
  "run_part now timeout_seconds txt m =
     (case mo_pc m of
        AtRead \<Rightarrow>
          (case mo_deadline m of
             Some d \<Rightarrow> if d \<le> now then m\<lparr>mo_pc := AtFire\<rparr> else m
           | None \<Rightarrow> m)
      | AtFire \<Rightarrow>
          if nl_state (mo_lifecycle m) = BOOTSTRAP_CONNECTING
          then (case monitored_transition now timeout_seconds m UNCONFIGURED
                       (timeout_meta timeout_seconds txt) of
                  Inl _ \<Rightarrow> m\<lparr>mo_pc := AtClear\<rparr>
                | Inr m' \<Rightarrow> m'\<lparr>mo_pc := AtClear\<rparr>)
          else m\<lparr>mo_pc := AtClear\<rparr>
      | AtClear \<Rightarrow> m\<lparr>mo_deadline := None, mo_pc := AtRead\<rparr>)"

text \<open>The whole loop body with no other thread in between.\<close>

definition run_body :: "rat \<Rightarrow> rat \<Rightarrow> string \<Rightarrow> monitored \<Rightarrow> monitored" where
  "run_body now timeout_seconds txt m =
     (let m1 = run_part now timeout_seconds txt m
      in if mo_pc m1 = AtRead then m1
         else run_part now timeout_seconds txt (run_part now timeout_seconds txt m1))"

section \<open>Lemmas\<close>

lemma path_append: "path s p t \<Longrightarrow> path t q u \<Longrightarrow> path s (p @ q) u"
proof (induction q arbitrary: u rule: rev_induct)
  case Nil
  then show ?case by (auto elim: path_NilE)
next
  case (snoc x q)
  from snoc.prems(2) obtain t' where "path t q t'" "can_transition t' x" "u = x"
    by (auto elim: path.cases)
  with snoc show ?case by (metis append_assoc path_step)
qed

lemma path_Cons: "can_transition s t \<Longrightarrow> path t p u \<Longrightarrow> path s (t # p) u"
  using path_append [of s "[t]" t p u] path_step [OF path_nil] by fastforce

lemma chained_snoc:
  "chained s cs t \<Longrightarrow> tr_from c = t \<Longrightarrow> can_transition t (tr_to c) \<or> tr_to c = UNCONFIGURED \<Longrightarrow>
     chained s (cs @ [c]) (tr_to c)"
  by (induction cs arbitrary: s) auto

lemma lifecycle_inv_init: "lifecycle_inv new_lifecycle"
  by (simp add: lifecycle_inv_def new_lifecycle_def)

lemma lifecycle_inv_transition:
  assumes "lifecycle_inv lc" and "transition_to lc arg meta = Inr lc'"
  shows "lifecycle_inv lc'"
proof (cases arg)
  case (IsState s)
  let ?c = "\<lparr>tr_from = nl_state lc, tr_to = s, tr_meta = meta\<rparr>"
  from assms(2) IsState have ok: "can_transition (nl_state lc) s"
    and lc': "lc' = lc\<lparr>nl_state := s, nl_calls := nl_calls lc @ [?c]\<rparr>"
    by (auto split: if_splits)
  from assms(1) ok have "chained UNCONFIGURED (nl_calls lc @ [?c]) s"
    using chained_snoc [of UNCONFIGURED "nl_calls lc" "nl_state lc" ?c]
    by (simp add: lifecycle_inv_def)
  with lc' show ?thesis by (simp add: lifecycle_inv_def)
qed (use assms in simp)

lemma lifecycle_inv_reset: "lifecycle_inv lc \<Longrightarrow> lifecycle_inv (reset_to_unconfigured lc meta)"
  unfolding lifecycle_inv_def reset_to_unconfigured_def
  using chained_snoc [of UNCONFIGURED "nl_calls lc" "nl_state lc"
      "\<lparr>tr_from = nl_state lc, tr_to = UNCONFIGURED, tr_meta = meta\<rparr>"]
  by simp

lemma lifecycle_inv_step: "lifecycle_inv lc \<Longrightarrow> lifecycle_inv (lifecycle_step lc op)"
  by (cases op) (auto intro: lifecycle_inv_reset lifecycle_inv_transition split: sum.split)

lemma lifecycle_inv_run: "lifecycle_inv lc \<Longrightarrow> lifecycle_inv (fold (\<lambda>op l. lifecycle_step l op) ops lc)"
  by (induction ops arbitrary: lc) (auto intro: lifecycle_inv_step)

text \<open>The states a node can be in before it has been trusted, if it is never degraded.\<close>

definition pre_trust :: "NodeLifecycleState set" where
  "pre_trust = {UNCONFIGURED, BOOTSTRAP_CONNECTING, BOOTSTRAP_CONNECTED, CORE_DISCOVERED,
                REGISTRATION_PENDING, PENDING_APPROVAL}"

lemma pre_trust_step:
  "s \<in> pre_trust \<Longrightarrow> can_transition s t \<Longrightarrow> t \<in> pre_trust \<or> t = TRUSTED \<or> t = DEGRADED"
  by (auto simp: pre_trust_def can_transition_def DEGRADABLE_STATES_def split: if_splits)

lemma path_before_trust:
  "path s p t \<Longrightarrow> s \<in> pre_trust \<Longrightarrow> TRUSTED \<notin> set p \<Longrightarrow> DEGRADED \<notin> set p \<Longrightarrow> t \<in> pre_trust"
  by (induction rule: path.induct) (auto dest: pre_trust_step)

lemma operational_predecessors:
  "can_transition s OPERATIONAL \<longleftrightarrow> s = CAPABILITY_DECLARATION_ACCEPTED \<or> s = DEGRADED"
  by (cases s) (simp_all add: can_transition_def)

lemma accepted_predecessors:
  "can_transition s CAPABILITY_DECLARATION_ACCEPTED \<longleftrightarrow> s = CAPABILITY_DECLARATION_IN_PROGRESS"
  by (cases s) (simp_all add: can_transition_def)

text \<open>Once trusted, no transition leads back before trust: only a reset does.\<close>

lemma post_trust_step: "s \<notin> pre_trust \<Longrightarrow> can_transition s t \<Longrightarrow> t \<notin> pre_trust"
  by (cases s; cases t) (auto simp: pre_trust_def can_transition_def)

lemma post_trust_path: "path s p t \<Longrightarrow> s \<notin> pre_trust \<Longrightarrow> t \<notin> pre_trust"
  by (induction rule: path.induct) (auto dest: post_trust_step)

lemma run_part_simps:
  "mo_pc m = AtRead \<Longrightarrow> mo_deadline m = None \<Longrightarrow> run_part now t x m = m"
  "mo_pc m = AtRead \<Longrightarrow> mo_deadline m = Some d \<Longrightarrow> now < d \<Longrightarrow> run_part now t x m = m"
  by (simp_all add: run_part_def)

lemma connecting_times_out:
  "nl_state lc = BOOTSTRAP_CONNECTING \<Longrightarrow>
     transition_to lc (IsState UNCONFIGURED) meta =
       Inr (lc\<lparr>nl_state := UNCONFIGURED,
              nl_calls := nl_calls lc @
                [\<lparr>tr_from = BOOTSTRAP_CONNECTING, tr_to = UNCONFIGURED, tr_meta = meta\<rparr>]\<rparr>)"
  by (simp add: can_transition_def)

section \<open>Properties\<close>

text \<open>
  Operational needs approval: on every run of transitions from \<open>unconfigured\<close> to
  \<open>operational\<close> that never passes through \<open>degraded\<close>, the node was \<open>trusted\<close> and its
  capability declaration was accepted before.
\<close>

theorem operational_needs_trust:
  assumes "path UNCONFIGURED p OPERATIONAL" and "DEGRADED \<notin> set p"
  shows "TRUSTED \<in> set p \<and> CAPABILITY_DECLARATION_ACCEPTED \<in> set p"
proof
  from assms(1) obtain q t where p: "p = q @ [OPERATIONAL]" and q: "path UNCONFIGURED q t"
    and t: "can_transition t OPERATIONAL"
    by (auto elim: path.cases)
  show "TRUSTED \<in> set p"
    using path_before_trust [OF assms(1) _ _ assms(2)] by (auto simp: pre_trust_def)
  have "t \<noteq> DEGRADED" using q assms(2) p by (auto elim: path.cases)
  with t have "t = CAPABILITY_DECLARATION_ACCEPTED"
    by (simp add: operational_predecessors)
  with q p show "CAPABILITY_DECLARATION_ACCEPTED \<in> set p"
    by (auto elim: path.cases)
qed

lemma onboarding_path:
  "path UNCONFIGURED
     [BOOTSTRAP_CONNECTING, BOOTSTRAP_CONNECTED, CORE_DISCOVERED, REGISTRATION_PENDING,
      PENDING_APPROVAL, TRUSTED, CAPABILITY_SETUP_PENDING, CAPABILITY_DECLARATION_IN_PROGRESS,
      CAPABILITY_DECLARATION_ACCEPTED, OPERATIONAL] OPERATIONAL"
  by (intro path_Cons path_nil) (simp_all add: can_transition_def)

theorem operational_needs_trust_witness:
  "TRUSTED \<in> set [BOOTSTRAP_CONNECTING, BOOTSTRAP_CONNECTED, CORE_DISCOVERED, REGISTRATION_PENDING,
      PENDING_APPROVAL, TRUSTED, CAPABILITY_SETUP_PENDING, CAPABILITY_DECLARATION_IN_PROGRESS,
      CAPABILITY_DECLARATION_ACCEPTED, OPERATIONAL]"
  using operational_needs_trust [OF onboarding_path] by simp

text \<open>
  The path through \<open>degraded\<close> needs no trust: the transition table admits a run from
  \<open>unconfigured\<close> to \<open>operational\<close> on which the node is never \<open>trusted\<close>.
\<close>

theorem operational_without_trust:
  "\<exists>p. path UNCONFIGURED p OPERATIONAL \<and> TRUSTED \<notin> set p"
proof -
  have "path UNCONFIGURED [BOOTSTRAP_CONNECTING, DEGRADED, OPERATIONAL] OPERATIONAL"
    by (intro path_Cons path_nil) (simp_all add: can_transition_def DEGRADABLE_STATES_def)
  then show ?thesis
    by (intro exI [of _ "[BOOTSTRAP_CONNECTING, DEGRADED, OPERATIONAL]"]) simp
qed

text \<open>
  The lifecycle's history is consistent: after any sequence of transition requests, refused
  ones and resets included, the reported transitions form one chain from \<open>unconfigured\<close> to
  the current state, each link allowed by the table or a reset.
\<close>

theorem lifecycle_history_consistent:
  "lifecycle_inv (fold (\<lambda>op l. lifecycle_step l op) ops new_lifecycle)"
  by (rule lifecycle_inv_run [OF lifecycle_inv_init])

text \<open>
  The bootstrap timeout works when the loop body runs undisturbed: a node that is still
  connecting at its deadline is sent back to \<open>unconfigured\<close>, the transition is reported,
  and the deadline is cleared.
\<close>

theorem timeout_fires:
  assumes "mo_pc m = AtRead" and "mo_deadline m = Some d" and "d \<le> now"
    and "nl_state (mo_lifecycle m) = BOOTSTRAP_CONNECTING"
  shows "nl_state (mo_lifecycle (run_body now t x m)) = UNCONFIGURED \<and>
         mo_deadline (run_body now t x m) = None \<and> mo_pc (run_body now t x m) = AtRead \<and>
         map tr_to (nl_calls (mo_lifecycle (run_body now t x m))) =
           map tr_to (nl_calls (mo_lifecycle m)) @ [UNCONFIGURED]"
  using assms
  by (simp add: run_body_def run_part_def monitored_transition_def connecting_times_out
      on_transition_def del: transition_to.simps)

theorem timeout_fires_witness:
  "nl_state (mo_lifecycle (run_body 30 30 ''30.0''
     \<lparr>mo_lifecycle = \<lparr>nl_state = BOOTSTRAP_CONNECTING, nl_calls = []\<rparr>,
      mo_deadline = Some 30, mo_pc = AtRead\<rparr>)) = UNCONFIGURED"
  using timeout_fires [of "\<lparr>mo_lifecycle = \<lparr>nl_state = BOOTSTRAP_CONNECTING, nl_calls = []\<rparr>,
      mo_deadline = Some 30, mo_pc = AtRead\<rparr>" 30 30 30 "''30.0''"]
  by simp

text \<open>
  A new attempt that starts between the monitor's transition and its final write loses its
  deadline: the node is then in \<open>bootstrap_connecting\<close> with no deadline armed, and every
  further loop body leaves it there.
\<close>

theorem rearmed_deadline_lost:
  "\<exists>m0 m1 m2.
     run_part 30 30 x m0 = m1 \<and> mo_pc m0 = AtFire \<and>
     monitored_transition 31 30 m1 BOOTSTRAP_CONNECTING [] = Inr m2 \<and>
     mo_deadline m2 = Some 61 \<and>
     nl_state (mo_lifecycle (run_part 31 30 x m2)) = BOOTSTRAP_CONNECTING \<and>
     (\<forall>now. run_body now 30 x (run_part 31 30 x m2) = run_part 31 30 x m2)"
proof -
  let ?m0 = "\<lparr>mo_lifecycle = \<lparr>nl_state = BOOTSTRAP_CONNECTING, nl_calls = []\<rparr>,
              mo_deadline = Some 30, mo_pc = AtFire\<rparr>"
  let ?m1 = "run_part 30 30 x ?m0"
  obtain m2 where m2: "monitored_transition 31 30 ?m1 BOOTSTRAP_CONNECTING [] = Inr m2"
    by (simp add: run_part_def monitored_transition_def can_transition_def)
  then have "mo_deadline m2 = Some 61" and "mo_pc m2 = AtClear"
    and "nl_state (mo_lifecycle m2) = BOOTSTRAP_CONNECTING"
    by (auto simp: run_part_def monitored_transition_def can_transition_def on_transition_def)
  moreover from this have "run_part 31 30 x m2 = m2\<lparr>mo_deadline := None, mo_pc := AtRead\<rparr>"
    by (simp add: run_part_def)
  moreover have "run_body now 30 x (m2\<lparr>mo_deadline := None, mo_pc := AtRead\<rparr>) =
                 m2\<lparr>mo_deadline := None, mo_pc := AtRead\<rparr>" for now
    by (simp add: run_body_def run_part_simps)
  ultimately show ?thesis
    using m2 by (intro exI [of _ ?m0] exI [of _ ?m1] exI [of _ m2]) simp
qed

end
