(* ===== verification/Task_Lifecycle.thy ===== *)
theory Task_Lifecycle
  imports Prelude
begin

text \<open>
  \<open>execution/lifecycle.py\<close>: the tracker of task executions. It keeps the current record of
  every active task and a bounded history of finished ones.
\<close>

section \<open>Data and operations\<close>

definition EXECUTION_LIFECYCLE_STATES :: "string list" where
  "EXECUTION_LIFECYCLE_STATES =
     [''idle'', ''receiving_task'', ''validating_task'', ''queued_local'', ''executing'',
      ''reporting_progress'', ''completed'', ''failed'', ''degraded'', ''rejected'']"

definition TERMINAL_EXECUTION_LIFECYCLE_STATES :: "string list" where
  "TERMINAL_EXECUTION_LIFECYCLE_STATES = [''completed'', ''failed'', ''degraded'', ''rejected'']"

record ExecutionLifecycleRecord =
  elr_task_id :: string
  elr_state :: string
  elr_updated_at :: string
  elr_lease_id :: "string option"
  elr_provider_id :: "string option"
  elr_model_id :: "string option"
  elr_details :: pydict

record ExecutionLifecycleTracker =
  history_limit :: int
  active_tasks :: "(string \<times> ExecutionLifecycleRecord) list"
  history :: "ExecutionLifecycleRecord list"

definition new_tracker :: "int \<Rightarrow> ExecutionLifecycleTracker" where
  "new_tracker limit = \<lparr>history_limit = max limit 1, active_tasks = [], history = []\<rparr>"

definition normalize_optional :: "pyval \<Rightarrow> string option" where
  "normalize_optional v = none_if_empty (norm_string v)"

text \<open>\<open>xs[-n:]\<close> for a positive \<open>n\<close>.\<close>

definition last_n :: "int \<Rightarrow> 'a list \<Rightarrow> 'a list" where
  "last_n n xs = drop (length xs - nat n) xs"

definition tracker_update ::
    "ExecutionLifecycleTracker \<Rightarrow> string \<Rightarrow> pyval \<Rightarrow> pyval \<Rightarrow> pyval \<Rightarrow> pyval \<Rightarrow> pyval \<Rightarrow> pyval
     \<Rightarrow> (ExecutionLifecycleTracker \<times> ExecutionLifecycleRecord) result" where
  "tracker_update tr now task_id state lease_id provider_id model_id details =
     (case normalize_optional task_id of
        None \<Rightarrow> Inl (ValueError ''task_id_required'')
      | Some tid \<Rightarrow>
          (case normalize_optional state of
             None \<Rightarrow> Inl (ValueError ''invalid_execution_lifecycle_state'')
           | Some st \<Rightarrow>
               if st \<notin> set EXECUTION_LIFECYCLE_STATES
               then Inl (ValueError ''invalid_execution_lifecycle_state'')
               else
                 let rcd = \<lparr>elr_task_id = tid, elr_state = st, elr_updated_at = now,
                            elr_lease_id = normalize_optional lease_id,
                            elr_provider_id = normalize_optional provider_id,
                            elr_model_id = normalize_optional model_id,
                            elr_details = as_dict details\<rparr>
                 in if st \<in> set TERMINAL_EXECUTION_LIFECYCLE_STATES
                    then Inr (tr\<lparr>active_tasks := AList.delete tid (active_tasks tr),
                                history := last_n (history_limit tr) (history tr @ [rcd])\<rparr>, rcd)
                    else Inr (tr\<lparr>active_tasks := AList.update tid rcd (active_tasks tr)\<rparr>, rcd)))"

definition get_active :: "ExecutionLifecycleTracker \<Rightarrow> pyval \<Rightarrow> ExecutionLifecycleRecord option" where
  "get_active tr task_id =
     (case normalize_optional task_id of
        None \<Rightarrow> None
      | Some tid \<Rightarrow> map_of (active_tasks tr) tid)"

definition serialize_record :: "ExecutionLifecycleRecord \<Rightarrow> pydict" where
  "serialize_record r =
     [(''task_id'', PStr (elr_task_id r)), (''state'', PStr (elr_state r)),
      (''updated_at'', PStr (elr_updated_at r)), (''lease_id'', opt_str (elr_lease_id r)),
      (''provider_id'', opt_str (elr_provider_id r)), (''model_id'', opt_str (elr_model_id r)),
      (''details'', PDict (elr_details r))]"

definition active_payload :: "ExecutionLifecycleTracker \<Rightarrow> pydict" where
  "active_payload tr =
     [(''active_tasks'', PList (map (\<lambda>e. PDict (serialize_record (snd e))) (active_tasks tr))),
      (''active_count'', PInt (int (length (active_tasks tr))))]"

definition history_payload :: "ExecutionLifecycleTracker \<Rightarrow> pydict" where
  "history_payload tr =
     [(''history'', PList (map (\<lambda>r. PDict (serialize_record r)) (history tr))),
      (''history_count'', PInt (int (length (history tr))))]"

section \<open>The invariant\<close>

text \<open>The active records are keyed by their own task id, one per task, none of them terminal;
  the history holds terminal records only and stays within its limit.\<close>

definition tracker_inv :: "ExecutionLifecycleTracker \<Rightarrow> bool" where
  "tracker_inv tr =
     (1 \<le> history_limit tr \<and>
      distinct (map fst (active_tasks tr)) \<and>
      list_all (\<lambda>(k, r). elr_task_id r = k \<and> k \<noteq> [] \<and>
         elr_state r \<in> set EXECUTION_LIFECYCLE_STATES - set TERMINAL_EXECUTION_LIFECYCLE_STATES)
        (active_tasks tr) \<and>
      list_all (\<lambda>r. elr_state r \<in> set TERMINAL_EXECUTION_LIFECYCLE_STATES) (history tr) \<and>
      int (length (history tr)) \<le> history_limit tr)"

text \<open>A request to the tracker, as the execution service issues it.\<close>

record tracker_req =
  tq_now :: string
  tq_task_id :: pyval
  tq_state :: pyval
  tq_lease_id :: pyval
  tq_provider_id :: pyval
  tq_model_id :: pyval
  tq_details :: pyval

definition tracker_step :: "ExecutionLifecycleTracker \<Rightarrow> tracker_req \<Rightarrow> ExecutionLifecycleTracker" where
  "tracker_step tr q =
     (case tracker_update tr (tq_now q) (tq_task_id q) (tq_state q) (tq_lease_id q)
             (tq_provider_id q) (tq_model_id q) (tq_details q) of
        Inl _ \<Rightarrow> tr | Inr (tr', _) \<Rightarrow> tr')"

section \<open>Lemmas\<close>

lemma length_last_n: "1 \<le> n \<Longrightarrow> int (length (last_n n xs)) \<le> n"
  by (simp add: last_n_def)

lemma set_last_n: "set (last_n n xs) \<subseteq> set xs"
  by (simp add: last_n_def set_drop_subset)

lemma last_last_n: "1 \<le> n \<Longrightarrow> xs \<noteq> [] \<Longrightarrow> last (last_n n xs) = last xs"
  by (cases xs) (auto simp: last_n_def last_drop)

lemmas tracker_update_cases = tracker_update_def normalize_optional_def Let_def

lemma tracker_update_inv:
  assumes "tracker_inv tr" and "tracker_update tr now t s l p m d = Inr (tr', r)"
  shows "tracker_inv tr'"
proof -
  from assms(2) have st: "elr_state r \<in> set EXECUTION_LIFECYCLE_STATES" and ne: "elr_task_id r \<noteq> []"
    and tr': "tr' = (if elr_state r \<in> set TERMINAL_EXECUTION_LIFECYCLE_STATES
         then tr\<lparr>active_tasks := AList.delete (elr_task_id r) (active_tasks tr),
                 history := last_n (history_limit tr) (history tr @ [r])\<rparr>
         else tr\<lparr>active_tasks := AList.update (elr_task_id r) r (active_tasks tr)\<rparr>)"
    by (auto simp: tracker_update_cases split: option.splits if_splits)
  show ?thesis
  proof (cases "elr_state r \<in> set TERMINAL_EXECUTION_LIFECYCLE_STATES")
    case True
    with assms(1) tr' show ?thesis
      using set_last_n [of "history_limit tr" "history tr @ [r]"]
        length_last_n [of "history_limit tr" "history tr @ [r]"]
      by (auto simp: tracker_inv_def list_all_iff distinct_delete_keys dest!: set_AList_delete)
  next
    case False
    with assms(1) tr' st ne show ?thesis
      by (auto simp: tracker_inv_def list_all_iff distinct_update dest!: set_AList_update)
  qed
qed

lemma tracker_step_inv: "tracker_inv tr \<Longrightarrow> tracker_inv (tracker_step tr q)"
  by (auto simp: tracker_step_def intro: tracker_update_inv split: sum.split prod.split)

section \<open>Properties\<close>

text \<open>
  The tracker stays well formed: after any sequence of update requests to a fresh tracker,
  there is one record per active task under its own id, no active record is terminal, the history
  holds terminal records only, and it never exceeds its limit.
\<close>

theorem tracker_well_formed: "tracker_inv (fold (\<lambda>q t. tracker_step t q) qs (new_tracker limit))"
proof -
  have "tracker_inv (new_tracker limit)"
    by (simp add: tracker_inv_def new_tracker_def)
  moreover have "tracker_inv tr \<Longrightarrow> tracker_inv (fold (\<lambda>q t. tracker_step t q) qs tr)" for tr
    by (induction qs arbitrary: tr) (auto intro: tracker_step_inv)
  ultimately show ?thesis by blast
qed

text \<open>
  What an accepted update does: the task's active record is the new one, or there is none
  when the state is terminal, in which case the record ends the history; every other task's
  record is left alone.
\<close>

theorem tracker_update_effect:
  assumes "tracker_inv tr" and "tracker_update tr now t s l p m d = Inr (tr', r)"
  shows "get_active tr' (PStr (elr_task_id r)) =
           (if elr_state r \<in> set TERMINAL_EXECUTION_LIFECYCLE_STATES then None else Some r) \<and>
         (elr_state r \<in> set TERMINAL_EXECUTION_LIFECYCLE_STATES \<longrightarrow> last (history tr') = r) \<and>
         (\<forall>k. k \<noteq> elr_task_id r \<longrightarrow> map_of (active_tasks tr') k = map_of (active_tasks tr) k)"
proof -
  from assms(2) have "py_strip (elr_task_id r) = elr_task_id r" and "elr_task_id r \<noteq> []"
    by (auto simp: tracker_update_cases norm_facts split: option.splits if_splits)
  then have key: "get_active x (PStr (elr_task_id r)) = map_of (active_tasks x) (elr_task_id r)" for x
    by (simp add: get_active_def normalize_optional_def)
  from assms(1) have "1 \<le> history_limit tr" by (simp add: tracker_inv_def)
  with assms(2) show ?thesis
    unfolding key
    by (auto simp: tracker_update_cases dict.get_put dict.get_del last_last_n
        split: option.splits if_splits)
qed

theorem tracker_update_effect_witness:
  "get_active (fst (projr (tracker_update (new_tracker 5) ''t0'' (PStr '' job-1 '') (PStr ''executing'')
       PNone (PStr ''local'') PNone PNone))) (PStr ''job-1'') \<noteq> None"
proof -
  let ?r = "\<lparr>elr_task_id = ''job-1'', elr_state = ''executing'', elr_updated_at = ''t0'',
             elr_lease_id = None, elr_provider_id = Some ''local'', elr_model_id = None,
             elr_details = []\<rparr>"
  let ?tr = "(new_tracker 5)\<lparr>active_tasks := [(''job-1'', ?r)]\<rparr>"
  have inv: "tracker_inv (new_tracker 5)"
    by (simp add: tracker_inv_def new_tracker_def)
  have upd: "tracker_update (new_tracker 5) ''t0'' (PStr '' job-1 '') (PStr ''executing'')
       PNone (PStr ''local'') PNone PNone = Inr (?tr, ?r)"
    by code_simp
  have nt: "''executing'' \<notin> set TERMINAL_EXECUTION_LIFECYCLE_STATES" by code_simp
  show ?thesis
    using tracker_update_effect [OF inv upd] nt unfolding upd by simp
qed

end
