(* ===== verification/Governance.thy ===== *)
theory Governance
  imports Prelude
begin

text \<open>
  \<open>execution/governance.py\<close>, the governance check of an execution request, and
  \<open>governance/freshness.py\<close>, the age of the governance bundle it is checked against.
\<close>

section \<open>Task families\<close>

fun family_matches :: "string \<Rightarrow> string list \<Rightarrow> bool" where
  "family_matches task_family [] = False"
| "family_matches task_family (item # items) =
     (let normalized = py_lower (norm_string (PStr item))
      in if normalized = [] then family_matches task_family items
         else if py_startswith normalized ''task.''
           then (if task_family = normalized then True else family_matches task_family items)
         else if task_family = normalized
           \<or> task_family = ''task.'' @ normalized
           \<or> py_startswith task_family (''task.'' @ normalized @ ''.'')
           then True
         else family_matches task_family items)"

definition task_family_allowed :: "pyval \<Rightarrow> string list \<Rightarrow> bool" where
  "task_family_allowed task_family allowed_families =
     (let normalized_task_family = py_lower (norm_string task_family)
      in if normalized_task_family = [] then False
         else if allowed_families = [] then True
         else family_matches normalized_task_family allowed_families)"

section \<open>The decision\<close>

record ExecutionGovernanceDecision =
  gd_allowed :: bool
  gd_reason :: string
  gd_mode :: string

definition gov_reject :: "string \<Rightarrow> ExecutionGovernanceDecision" where
  "gov_reject reason = \<lparr>gd_allowed = False, gd_reason = reason, gd_mode = ''reject''\<rparr>"

definition json_sorted :: json_style where
  "json_sorted = \<lparr>item_sep = '', '', key_sep = '': '', sort_keys = True, ensure_ascii = True\<rparr>"

text \<open>The request as the execution service passes it; \<open>None\<close> arguments are \<open>PNone\<close>.\<close>

record governance_query =
  gq_task_family :: pyval
  gq_timeout_s :: pyval
  gq_inputs :: pyval
  gq_governance_bundle :: pyval
  gq_request_constraints :: pyval
  gq_provider_id :: pyval
  gq_model_id :: pyval

definition gov_routing_policy :: "governance_query \<Rightarrow> pydict" where
  "gov_routing_policy q =
     (case dget (as_dict (gq_request_constraints q)) ''routing_policy_constraints'' of
        PDict d \<Rightarrow> d
      | _ \<Rightarrow> as_dict (dget (as_dict (gq_governance_bundle q)) ''routing_policy_constraints''))"

definition gov_allowed_families :: "governance_query \<Rightarrow> string list" where
  "gov_allowed_families q =
     norm_string_list
       (dget (as_dict (dget (as_dict (gq_governance_bundle q)) ''generic_node_class_rules''))
         ''allow_task_families'')"

definition gov_approved_providers :: "governance_query \<Rightarrow> string list" where
  "gov_approved_providers q =
     norm_string_list
       (py_or (dget (as_dict (gq_request_constraints q)) ''approved_providers'')
              (dget (as_dict (gq_governance_bundle q)) ''approved_providers''))"

definition gov_allowed_models :: "governance_query \<Rightarrow> string list" where
  "gov_allowed_models q =
     (let raw = (case dget (as_dict (gq_request_constraints q)) ''approved_models'' of
                   PNone \<Rightarrow> dget (as_dict (gq_governance_bundle q)) ''approved_models''
                 | v \<Rightarrow> v);
          approved_models = as_dict raw;
          by_key = norm_string_list (dget approved_models (py_lower (norm_string (gq_provider_id q))))
      in if by_key = [] then norm_string_list (dget approved_models (norm_string (gq_provider_id q)))
         else by_key)"

definition gov_timeout_exceeded :: "governance_query \<Rightarrow> bool result" where
  "gov_timeout_exceeded q =
     (let m = dget (gov_routing_policy q) ''max_timeout_s''
      in if m = PNone then Inr False
         else ebind (py_int (gq_timeout_s q)) (\<lambda>t. ebind (py_int m) (\<lambda>mx. Inr (max mx 1 < t))))"

definition gov_input_bytes :: "governance_query \<Rightarrow> int" where
  "gov_input_bytes q = int (length (json_dumps json_sorted (PDict (as_dict (gq_inputs q)))))"

definition gov_input_exceeded :: "governance_query \<Rightarrow> bool result" where
  "gov_input_exceeded q =
     (let m = dget (gov_routing_policy q) ''max_input_bytes''
      in if m = PNone then Inr False
         else ebind (py_int m) (\<lambda>mx. Inr (max mx 0 < gov_input_bytes q)))"

definition evaluate_execution_governance ::
    "governance_query \<Rightarrow> ExecutionGovernanceDecision result" where
  "evaluate_execution_governance q =
     (if dget (gov_routing_policy q) ''routing_policy_conflict'' = PBool True
      then Inr (gov_reject ''prompt_routing_policy_conflict'')
      else if \<not> task_family_allowed (gq_task_family q) (gov_allowed_families q)
      then Inr (gov_reject ''governance_violation_task_family'')
      else ebind (gov_timeout_exceeded q) (\<lambda>late.
        if late then Inr (gov_reject ''governance_violation_timeout'')
        else ebind (gov_input_exceeded q) (\<lambda>big.
          if big then Inr (gov_reject ''governance_violation_input_size'')
          else if gq_provider_id q \<noteq> PNone \<and> gov_approved_providers q \<noteq> []
               \<and> py_lower (norm_string (gq_provider_id q)) \<notin> set (map py_lower (gov_approved_providers q))
          then Inr (gov_reject ''governance_violation_provider'')
          else if gq_provider_id q \<noteq> PNone \<and> gq_model_id q \<noteq> PNone
               \<and> gov_allowed_models q \<noteq> []
               \<and> py_lower (norm_string (gq_model_id q)) \<notin> set (map py_lower (gov_allowed_models q))
          then Inr (gov_reject ''governance_violation_model'')
          else Inr \<lparr>gd_allowed = True, gd_reason = ''governance_allowed'', gd_mode = ''reject''\<rparr>)))"

section \<open>Freshness\<close>

definition parse_iso_timestamp :: "time_env \<Rightarrow> string option \<Rightarrow> int option" where
  "parse_iso_timestamp T value =
     (case value of
        None \<Rightarrow> None
      | Some v \<Rightarrow>
          let stripped = py_strip v
          in if stripped = [] then None
             else
               let txt = (if py_endswith stripped ''Z'' then butlast stripped @ ''+00:00'' else stripped)
               in map_option datetime_utc (fromisoformat T txt))"

record freshness =
  fr_state :: string
  fr_active_governance_version :: "string option"
  fr_issued_timestamp :: "string option"
  fr_last_sync_time :: "string option"
  fr_next_refresh_due_at :: "string option"
  fr_max_stale_at :: "string option"
  fr_reason :: "string option"

definition recommended_interval :: "pydict \<Rightarrow> int result" where
  "recommended_interval expectations =
     py_int (py_or (dget expectations ''recommended_interval_seconds'') (PInt 900))"

definition max_stale_interval :: "pydict \<Rightarrow> int \<Rightarrow> int result" where
  "max_stale_interval expectations recommended =
     py_int (py_or (dget expectations ''max_stale_seconds'') (PInt (max (recommended * 4) 3600)))"

definition evaluate_governance_freshness :: "time_env \<Rightarrow> int \<Rightarrow> pyval \<Rightarrow> freshness result" where
  "evaluate_governance_freshness T now bundle =
     (case bundle of
        PDict b \<Rightarrow>
          let policy_version = none_if_empty (norm_string (dget b ''policy_version''));
              issued = none_if_empty (norm_string (dget b ''issued_timestamp''));
              last_sync = none_if_empty (norm_string (dget b ''synced_at''));
              expectations = as_dict (dget b ''refresh_expectations'')
          in ebind (recommended_interval expectations) (\<lambda>recommended.
             ebind (max_stale_interval expectations recommended) (\<lambda>max_stale.
               (case parse_iso_timestamp T last_sync of
                  None \<Rightarrow>
                    Inr \<lparr>fr_state = ''unknown'', fr_active_governance_version = policy_version,
                         fr_issued_timestamp = issued, fr_last_sync_time = last_sync,
                         fr_next_refresh_due_at = None, fr_max_stale_at = None,
                         fr_reason = Some ''invalid_synced_at''\<rparr>
                | Some sync \<Rightarrow>
                    let due = sync + seconds (max recommended 1);
                        stale_at = sync + seconds (max max_stale 1)
                    in Inr \<lparr>fr_state = (if now \<le> stale_at then ''fresh'' else ''stale''),
                            fr_active_governance_version = policy_version,
                            fr_issued_timestamp = issued,
                            fr_last_sync_time = Some (isoformat T sync),
                            fr_next_refresh_due_at = Some (isoformat T due),
                            fr_max_stale_at = Some (isoformat T stale_at),
                            fr_reason = None\<rparr>)))
      | _ \<Rightarrow> Inr \<lparr>fr_state = ''unknown'', fr_active_governance_version = None,
                 fr_issued_timestamp = None, fr_last_sync_time = None,
                 fr_next_refresh_due_at = None, fr_max_stale_at = None,
                 fr_reason = Some ''missing_governance_bundle''\<rparr>)"

section \<open>Lemmas\<close>

text \<open>What one entry of the allow list admits, stated without the loop.\<close>

definition entry_admits :: "string \<Rightarrow> string \<Rightarrow> bool" where
  "entry_admits task_family item =
     (let e = py_lower (py_strip item)
      in e \<noteq> [] \<and>
         (task_family = e \<or>
          (\<not> py_startswith e ''task.'' \<and>
           (task_family = ''task.'' @ e \<or> py_startswith task_family (''task.'' @ e @ ''.'')))))"

lemma family_matches_iff: "family_matches t items \<longleftrightarrow> (\<exists>item\<in>set items. entry_admits t item)"
  by (induction t items rule: family_matches.induct) (auto simp: entry_admits_def Let_def)

lemma gov_reject_simps [simp]: "gd_allowed (gov_reject r) = False" "gd_reason (gov_reject r) = r"
  by (simp_all add: gov_reject_def)

lemma guard_chain:
  assumes "(if c then Inr (gov_reject r1) else if \<not> f then Inr (gov_reject r2)
            else ebind t (\<lambda>late. if late then Inr (gov_reject r3)
              else ebind i (\<lambda>big. if big then Inr (gov_reject r4)
                else if p then Inr (gov_reject r5) else if m then Inr (gov_reject r6)
                else Inr ok))) = Inr d"
    and "gd_allowed d"
  shows "\<not> c \<and> f \<and> t = Inr False \<and> i = Inr False \<and> \<not> p \<and> \<not> m"
  using assms by (cases t; cases i) (auto split: if_splits)

lemma governance_allowed_conv:
  "evaluate_execution_governance q = Inr d \<Longrightarrow> gd_allowed d \<Longrightarrow>
     dget (gov_routing_policy q) ''routing_policy_conflict'' \<noteq> PBool True \<and>
     task_family_allowed (gq_task_family q) (gov_allowed_families q) \<and>
     gov_timeout_exceeded q = Inr False \<and> gov_input_exceeded q = Inr False \<and>
     (gq_provider_id q = PNone \<or> gov_approved_providers q = [] \<or>
        py_lower (norm_string (gq_provider_id q)) \<in> set (map py_lower (gov_approved_providers q))) \<and>
     (gq_provider_id q = PNone \<or> gq_model_id q = PNone \<or> gov_allowed_models q = [] \<or>
        py_lower (norm_string (gq_model_id q)) \<in> set (map py_lower (gov_allowed_models q)))"
  unfolding evaluate_execution_governance_def by (drule (1) guard_chain) blast

lemma timeout_not_exceeded:
  "gov_timeout_exceeded q = Inr False \<Longrightarrow>
     dget (gov_routing_policy q) ''max_timeout_s'' \<noteq> PNone \<Longrightarrow>
     \<exists>t m. py_int (gq_timeout_s q) = Inr t \<and>
           py_int (dget (gov_routing_policy q) ''max_timeout_s'') = Inr m \<and> t \<le> max m 1"
  by (auto simp: gov_timeout_exceeded_def Let_def ebind_Inr_conv not_less simp del: max_less_iff_conj)

lemma input_not_exceeded:
  "gov_input_exceeded q = Inr False \<Longrightarrow>
     dget (gov_routing_policy q) ''max_input_bytes'' \<noteq> PNone \<Longrightarrow>
     \<exists>m. py_int (dget (gov_routing_policy q) ''max_input_bytes'') = Inr m \<and> gov_input_bytes q \<le> max m 0"
  by (auto simp: gov_input_exceeded_def Let_def ebind_Inr_conv not_less simp del: max_less_iff_conj)

section \<open>Properties\<close>


definition sample_query :: governance_query where
  "sample_query =
     \<lparr>gq_task_family = PStr ''task.summarization.email'', gq_timeout_s = PInt 30,
      gq_inputs = PDict [(''text'', PStr ''hi'')],
      gq_governance_bundle = PDict
        [(''generic_node_class_rules'', PDict [(''allow_task_families'', PList [PStr ''Summarization''])]),
         (''routing_policy_constraints'', PDict [(''max_timeout_s'', PInt 60), (''max_input_bytes'', PInt 64)]),
         (''approved_providers'', PList [PStr ''OpenAI'']),
         (''approved_models'', PDict [(''openai'', PList [PStr ''gpt-5-mini''])])],
      gq_request_constraints = PNone, gq_provider_id = PStr ''openai'', gq_model_id = PStr ''GPT-5-mini''\<rparr>"


text \<open>
  Staleness is decided by the age of the last sync alone and is permanent: a bundle whose
  sync time can be read is stale exactly when more than its maximal age has passed, and stays
  stale at every later time until it is synced again.
\<close>

theorem freshness_by_age:
  assumes "parse_iso_timestamp T (none_if_empty (norm_string (dget b ''synced_at''))) = Some sync"
    and "recommended_interval (as_dict (dget b ''refresh_expectations'')) = Inr r"
    and "max_stale_interval (as_dict (dget b ''refresh_expectations'')) r = Inr m"
  shows "\<exists>f. evaluate_governance_freshness T now (PDict b) = Inr f \<and>
             fr_state f = (if now - sync \<le> seconds (max m 1) then ''fresh'' else ''stale'') \<and>
             (fr_state f = ''stale'' \<longrightarrow>
               (\<forall>later\<ge>now. \<exists>f'. evaluate_governance_freshness T later (PDict b) = Inr f' \<and>
                                 fr_state f' = ''stale''))"
  using assms by (auto simp: evaluate_governance_freshness_def Let_def)

theorem freshness_by_age_witness:
  "\<exists>f. evaluate_governance_freshness
          \<lparr>fromisoformat = (\<lambda>s. if s = ''2026-01-01T00:00:00+00:00'' then Some (Aware 0) else None),
           isoformat = int_text\<rparr> (seconds 3601)
          (PDict [(''synced_at'', PStr ''2026-01-01T00:00:00Z'')]) = Inr f \<and> fr_state f = ''stale''"
proof -
  let ?T = "\<lparr>fromisoformat = (\<lambda>s. if s = ''2026-01-01T00:00:00+00:00'' then Some (Aware 0) else None),
             isoformat = int_text\<rparr>"
  let ?b = "[(''synced_at'', PStr ''2026-01-01T00:00:00Z'')]"
  have "parse_iso_timestamp ?T (none_if_empty (norm_string (dget ?b ''synced_at''))) = Some 0"
    by code_simp
  moreover have "recommended_interval (as_dict (dget ?b ''refresh_expectations'')) = Inr 900"
    by code_simp
  moreover have "max_stale_interval (as_dict (dget ?b ''refresh_expectations'')) 900 = Inr 3600"
    by code_simp
  ultimately show ?thesis
    using freshness_by_age [of ?T ?b 0 900 3600 "seconds 3601"] by (auto simp: seconds_def)
qed

end
