(* ===== verification/Provider_Policy.thy ===== *)
theory Provider_Policy
  imports Prelude
begin

text \<open>
  \<open>execution/provider_selection_policy.py\<close>: which providers may serve a request, in which
  order, with which models, timeout and retry counts.
\<close>

section \<open>Normalisation of the inputs\<close>

definition lower_string_list :: "pyval \<Rightarrow> string list" where
  "lower_string_list v = map py_lower (norm_string_list v)"

definition provider_key :: "string \<Rightarrow> string" where
  "provider_key provider_id = py_lower (norm_string (PStr provider_id))"

fun provider_models_onto :: "(string \<times> string list) list \<Rightarrow> pydict \<Rightarrow> (string \<times> string list) list" where
  "provider_models_onto normalized [] = normalized"
| "provider_models_onto normalized ((provider_id, models) # items) =
     provider_models_onto
       (if provider_key provider_id = [] then normalized
        else AList.update (provider_key provider_id) (lower_string_list models) normalized) items"

definition normalize_provider_models :: "pyval \<Rightarrow> (string \<times> string list) list" where
  "normalize_provider_models v = provider_models_onto [] (as_dict v)"

fun budget_limits_onto :: "(string \<times> int) list \<Rightarrow> pydict \<Rightarrow> (string \<times> int) list result" where
  "budget_limits_onto normalized [] = Inr normalized"
| "budget_limits_onto normalized ((provider_id, payload) # items) =
     (if provider_key provider_id = [] \<or> \<not> is_dict payload
         \<or> dget (as_dict payload) ''max_cost_cents'' = PNone
      then budget_limits_onto normalized items
      else ebind (py_int (dget (as_dict payload) ''max_cost_cents'')) (\<lambda>c.
             budget_limits_onto (AList.update (provider_key provider_id) (max c 0) normalized) items))"

definition normalize_provider_budget_limits :: "pyval \<Rightarrow> (string \<times> int) list result" where
  "normalize_provider_budget_limits v = budget_limits_onto [] (as_dict v)"

type_synonym feature_map = "(string \<times> (string \<times> bool) list) list"

fun features_onto :: "(string \<times> bool) list \<Rightarrow> pydict \<Rightarrow> (string \<times> bool) list" where
  "features_onto acc [] = acc"
| "features_onto acc ((feature_key, enabled) # items) =
     features_onto
       (if norm_string (PStr feature_key) = [] then acc
        else AList.update (py_lower (norm_string (PStr feature_key))) (truthy enabled) acc) items"

fun model_features_onto :: "feature_map \<Rightarrow> pydict \<Rightarrow> feature_map" where
  "model_features_onto acc [] = acc"
| "model_features_onto acc ((model_id, features) # items) =
     model_features_onto
       (if provider_key model_id = [] \<or> \<not> is_dict features then acc
        else AList.update (provider_key model_id) (features_onto [] (as_dict features)) acc) items"

fun provider_features_onto :: "(string \<times> feature_map) list \<Rightarrow> pydict \<Rightarrow> (string \<times> feature_map) list" where
  "provider_features_onto acc [] = acc"
| "provider_features_onto acc ((provider_id, models) # items) =
     provider_features_onto
       (if provider_key provider_id = [] \<or> \<not> is_dict models then acc
        else AList.update (provider_key provider_id) (model_features_onto [] (as_dict models)) acc) items"

definition normalize_provider_model_features :: "pyval \<Rightarrow> (string \<times> feature_map) list" where
  "normalize_provider_model_features v = provider_features_onto [] (as_dict v)"

definition required_capability_features :: "pydict \<Rightarrow> string list" where
  "required_capability_features governance =
     (let requirements =
            (case dget governance ''model_capability_requirements'' of
               PDict d \<Rightarrow> PDict d
             | _ \<Rightarrow> dget governance ''capability_requirements'')
      in case requirements of
           PDict d \<Rightarrow> lower_string_list (dget d ''required_features'')
         | _ \<Rightarrow> [])"

definition normalize_routing_mode :: "pyval \<Rightarrow> string option" where
  "normalize_routing_mode v =
     (let mode = py_lower (norm_string v)
      in if mode \<in> {''local_only'', ''local_preferred'', ''cloud_only'', ''cloud_fallback''}
         then Some mode else None)"

definition is_local_provider :: "string \<Rightarrow> bool" where
  "is_local_provider provider_id = (provider_key provider_id = ''local'')"

fun provider_health_onto :: "(string \<times> pydict) list \<Rightarrow> pydict \<Rightarrow> (string \<times> pydict) list" where
  "provider_health_onto acc [] = acc"
| "provider_health_onto acc ((provider_id, payload) # items) =
     provider_health_onto (AList.update (provider_key provider_id) (as_dict payload) acc) items"

section \<open>Input and decision\<close>

record ProviderSelectionPolicyInput =
  psi_enabled_providers :: pyval
  psi_default_provider :: pyval
  psi_requested_provider :: pyval
  psi_requested_model :: pyval
  psi_provider_health :: pydict
  psi_usable_models_by_provider :: pyval
  psi_model_features_by_provider :: pyval
  psi_provider_retry_count :: "(string \<times> int) list"
  psi_provider_budget_limits :: pyval
  psi_request_timeout_s :: int
  psi_request_max_cost_cents :: "int option"
  psi_governance_constraints :: pyval

record ProviderSelectionPolicyDecision =
  provider_order :: "string list"
  model_allowlist_by_provider :: "(string \<times> string list) list"
  timeout_s :: int
  retry_count_by_provider :: "(string \<times> int) list"
  fallback_allowed :: bool
  rejection_reason :: "string option"

definition policy_rejection :: "ProviderSelectionPolicyInput \<Rightarrow> string \<Rightarrow> ProviderSelectionPolicyDecision" where
  "policy_rejection p reason =
     \<lparr>provider_order = [], model_allowlist_by_provider = [],
      timeout_s = max (psi_request_timeout_s p) 1, retry_count_by_provider = [],
      fallback_allowed = False, rejection_reason = Some reason\<rparr>"

section \<open>The steps of the policy\<close>

definition policy_governance :: "ProviderSelectionPolicyInput \<Rightarrow> pydict" where
  "policy_governance p = as_dict (psi_governance_constraints p)"

definition policy_enabled :: "ProviderSelectionPolicyInput \<Rightarrow> string list" where
  "policy_enabled p = lower_string_list (psi_enabled_providers p)"

definition policy_approved :: "ProviderSelectionPolicyInput \<Rightarrow> string list" where
  "policy_approved p = lower_string_list (dget (policy_governance p) ''approved_providers'')"

definition policy_routing :: "ProviderSelectionPolicyInput \<Rightarrow> pydict" where
  "policy_routing p = as_dict (dget (policy_governance p) ''routing_policy_constraints'')"

definition policy_mode :: "ProviderSelectionPolicyInput \<Rightarrow> string option" where
  "policy_mode p = normalize_routing_mode (dget (policy_routing p) ''mode'')"

definition governance_eligible :: "ProviderSelectionPolicyInput \<Rightarrow> string list" where
  "governance_eligible p =
     (let approved = policy_approved p; enabled = policy_enabled p
      in filter (\<lambda>x. x \<in> set (if approved \<noteq> [] then approved else enabled)) enabled)"

definition routed_eligible :: "string option \<Rightarrow> string list \<Rightarrow> string list" where
  "routed_eligible mode eligible =
     (if mode = Some ''local_only'' then filter is_local_provider eligible
      else if mode = Some ''cloud_only'' then filter (\<lambda>x. \<not> is_local_provider x) eligible
      else eligible)"

definition routing_candidates :: "string option \<Rightarrow> string list \<Rightarrow> string list" where
  "routing_candidates mode eligible =
     (if mode = Some ''local_preferred'' then ''local'' # eligible
      else if mode = Some ''cloud_fallback''
        then filter (\<lambda>x. \<not> is_local_provider x) eligible @ filter is_local_provider eligible
      else eligible)"

definition candidate_order :: "string option \<Rightarrow> string \<Rightarrow> string \<Rightarrow> string list \<Rightarrow> string list" where
  "candidate_order mode requested dflt eligible =
     (if mode = Some ''local_preferred'' \<or> mode = Some ''cloud_fallback''
      then requested # routing_candidates mode eligible @ [dflt]
      else requested # dflt # routing_candidates mode eligible)"

definition provider_availability :: "ProviderSelectionPolicyInput \<Rightarrow> string \<Rightarrow> string" where
  "provider_availability p candidate =
     (let health = provider_health_onto [] (psi_provider_health p);
          entry = (case map_of health candidate of None \<Rightarrow> [] | Some h \<Rightarrow> h)
      in py_lower (py_strip (str_or (dget entry ''availability'') ''unavailable'')))"

definition within_budget_limit :: "ProviderSelectionPolicyInput \<Rightarrow> (string \<times> int) list \<Rightarrow> string \<Rightarrow> bool" where
  "within_budget_limit p limits candidate =
     (case (psi_request_max_cost_cents p, map_of limits candidate) of
        (Some cost, Some limit) \<Rightarrow> cost \<le> limit
      | _ \<Rightarrow> True)"

definition selectable :: "ProviderSelectionPolicyInput \<Rightarrow> (string \<times> int) list \<Rightarrow> string \<Rightarrow> bool" where
  "selectable p limits candidate =
     (provider_availability p candidate \<in> {''available'', ''degraded'', ''''} \<and>
      within_budget_limit p limits candidate)"

fun admit_candidates :: "(string \<Rightarrow> bool) \<Rightarrow> string list \<Rightarrow> string list \<Rightarrow> string list \<Rightarrow> string list" where
  "admit_candidates ok eligible order [] = order"
| "admit_candidates ok eligible order (c # cs) =
     (if c = [] \<or> c \<in> set order then admit_candidates ok eligible order cs
      else if c \<notin> set eligible then admit_candidates ok eligible order cs
      else if \<not> ok c then admit_candidates ok eligible order cs
      else admit_candidates ok eligible (order @ [c]) cs)"

definition alist_get :: "(string \<times> 'a list) list \<Rightarrow> string \<Rightarrow> 'a list" where
  "alist_get m k = (case map_of m k of None \<Rightarrow> [] | Some v \<Rightarrow> v)"

definition has_features :: "string list \<Rightarrow> (string \<times> bool) list \<Rightarrow> bool" where
  "has_features required features = list_all (\<lambda>f. map_of features f = Some True) required"

definition base_models :: "string list \<Rightarrow> string list \<Rightarrow> string list" where
  "base_models usable approved =
     (if usable \<noteq> [] \<and> approved \<noteq> [] then filter (\<lambda>m. m \<in> set approved) usable
      else if usable \<noteq> [] then usable
      else approved)"

definition featured_models :: "string list \<Rightarrow> feature_map \<Rightarrow> string list \<Rightarrow> string list" where
  "featured_models required features models =
     (if required = [] then models
      else if models \<noteq> [] then filter (\<lambda>m. has_features required (alist_get features m)) models
      else map fst (filter (\<lambda>e. has_features required (snd e)) features))"

definition requested_models :: "string list \<Rightarrow> string \<Rightarrow> string list \<Rightarrow> string list" where
  "requested_models required requested models =
     (if requested = [] then models
      else if models \<noteq> [] \<and> requested \<in> set models then [requested]
      else if models = [] \<and> required = [] then [requested]
      else models)"

definition allowed_models :: "ProviderSelectionPolicyInput \<Rightarrow> string \<Rightarrow> string list" where
  "allowed_models p provider_id =
     (let required = required_capability_features (policy_governance p);
          usable = alist_get (normalize_provider_models (psi_usable_models_by_provider p)) provider_id;
          approved = alist_get (normalize_provider_models (dget (policy_governance p) ''approved_models'')) provider_id;
          features = alist_get (normalize_provider_model_features (psi_model_features_by_provider p)) provider_id
      in requested_models required (py_lower (norm_string (psi_requested_model p)))
           (featured_models required features (base_models usable approved)))"

fun allowlist_onto :: "ProviderSelectionPolicyInput \<Rightarrow> (string \<times> string list) list \<Rightarrow> string list
    \<Rightarrow> (string \<times> string list) list" where
  "allowlist_onto p acc [] = acc"
| "allowlist_onto p acc (x # xs) = allowlist_onto p (AList.update x (allowed_models p x) acc) xs"

definition policy_timeout :: "ProviderSelectionPolicyInput \<Rightarrow> int result" where
  "policy_timeout p =
     (let t = max (psi_request_timeout_s p) 1; m = dget (policy_routing p) ''max_timeout_s''
      in if m = PNone then Inr t else ebind (py_int m) (\<lambda>mx. Inr (min t (max mx 1))))"

fun retries_onto :: "(string \<times> int) list \<Rightarrow> pyval \<Rightarrow> (string \<times> int) list \<Rightarrow> string list
    \<Rightarrow> (string \<times> int) list result" where
  "retries_onto configured m acc [] = Inr acc"
| "retries_onto configured m acc (x # xs) =
     (let c = max (case map_of configured x of None \<Rightarrow> 0 | Some n \<Rightarrow> n) 0
      in if m = PNone then retries_onto configured m (AList.update x c acc) xs
         else ebind (py_int m) (\<lambda>mx. retries_onto configured m (AList.update x (min c (max mx 0)) acc) xs))"

definition build_provider_selection_policy ::
    "ProviderSelectionPolicyInput \<Rightarrow> ProviderSelectionPolicyDecision result" where
  "build_provider_selection_policy p =
     (let enabled = policy_enabled p; mode = policy_mode p; governed = governance_eligible p
      in if enabled = [] then Inr (policy_rejection p ''no_enabled_providers'')
         else if governed = [] then Inr (policy_rejection p ''no_governance_approved_providers'')
         else ebind (normalize_provider_budget_limits (psi_provider_budget_limits p)) (\<lambda>limits.
           let eligible = routed_eligible mode governed
           in if mode = Some ''local_only'' \<and> (''local'' \<notin> set enabled \<or> eligible = [])
              then Inr (policy_rejection p ''local_only_provider_unavailable'')
              else if mode = Some ''cloud_only'' \<and> eligible = []
              then Inr (policy_rejection p ''cloud_only_provider_unavailable'')
              else
                let order = admit_candidates (selectable p limits) eligible []
                      (candidate_order mode (py_lower (norm_string (psi_requested_provider p)))
                        (py_lower (norm_string (psi_default_provider p))) eligible)
                in if order = []
                   then Inr (policy_rejection p
                     (if mode = Some ''local_only'' then ''local_only_provider_unavailable''
                      else ''no_eligible_provider_available''))
                   else ebind (policy_timeout p) (\<lambda>t.
                     ebind (retries_onto (psi_provider_retry_count p)
                        (dget (policy_routing p) ''max_retry_count'') [] order) (\<lambda>retries.
                       Inr \<lparr>provider_order = order,
                            model_allowlist_by_provider = allowlist_onto p [] order,
                            timeout_s = t, retry_count_by_provider = retries,
                            fallback_allowed = 1 < length order, rejection_reason = None\<rparr>))))"

section \<open>The resolver\<close>

text \<open>
  \<open>runtime/provider_resolver.py\<close>. The context is what
  \<open>ProviderRuntimeManager.provider_selection_context_payload\<close> returns, with its types; the
  node always has a runtime manager.
\<close>

record ProviderResolutionRequest =
  prq_task_family :: pyval
  prq_requested_provider :: pyval
  prq_requested_model :: pyval
  prq_timeout_s :: int
  prq_max_cost_cents :: "int option"

record selection_context =
  ctx_enabled_providers :: "pyval list"
  ctx_default_provider :: pyval
  ctx_default_model_by_provider :: pydict
  ctx_task_default_model_by_provider :: pydict
  ctx_provider_retry_count :: "(string \<times> int) list"
  ctx_provider_budget_limits :: pydict
  ctx_provider_health :: pydict
  ctx_available_models_by_provider :: "(string \<times> string list) list"
  ctx_usable_models_by_provider :: pydict
  ctx_model_features_by_provider :: pydict

record ProviderResolutionResult =
  prr_allowed :: bool
  prr_provider_id :: "string option"
  prr_model_id :: "string option"
  prr_provider_order :: "string list"
  prr_fallback_provider_ids :: "string list"
  prr_model_allowlist_by_provider :: "(string \<times> string list) list"
  prr_timeout_s :: int
  prr_retry_count :: int
  prr_rejection_reason :: "string option"

definition stripped_nonempty :: "string list \<Rightarrow> string list" where
  "stripped_nonempty xs = filter (\<lambda>s. s \<noteq> []) (map py_strip xs)"

definition select_model_for_provider ::
    "string list \<Rightarrow> pyval \<Rightarrow> pyval \<Rightarrow> string list \<Rightarrow> string option" where
  "select_model_for_provider allowlist requested_model default_model_id available_models =
     (let allowed = stripped_nonempty allowlist;
          available = stripped_nonempty available_models;
          requested = norm_string requested_model;
          default_model = norm_string default_model_id
      in if requested \<noteq> []
         then (if allowed \<noteq> [] \<and> requested \<in> set allowed then Some requested
               else if allowed = [] \<and> requested \<in> set available then Some requested
               else None)
         else if default_model \<noteq> [] \<and> allowed \<noteq> [] \<and> default_model \<in> set allowed then Some default_model
         else if default_model \<noteq> [] \<and> allowed = [] \<and> default_model \<in> set available then Some default_model
         else if allowed \<noteq> [] then Some (hd allowed)
         else if available \<noteq> [] then Some (hd available)
         else None)"

definition resolution_input ::
    "selection_context \<Rightarrow> ProviderResolutionRequest \<Rightarrow> pyval \<Rightarrow> ProviderSelectionPolicyInput" where
  "resolution_input ctx r governance =
     \<lparr>psi_enabled_providers = PList (ctx_enabled_providers ctx),
      psi_default_provider = ctx_default_provider ctx,
      psi_requested_provider = prq_requested_provider r,
      psi_requested_model = prq_requested_model r,
      psi_provider_health = ctx_provider_health ctx,
      psi_usable_models_by_provider = PDict (ctx_usable_models_by_provider ctx),
      psi_model_features_by_provider = PDict (ctx_model_features_by_provider ctx),
      psi_provider_retry_count = ctx_provider_retry_count ctx,
      psi_provider_budget_limits = PDict (ctx_provider_budget_limits ctx),
      psi_request_timeout_s = prq_timeout_s r,
      psi_request_max_cost_cents = prq_max_cost_cents r,
      psi_governance_constraints = governance\<rparr>"

definition candidate_model ::
    "selection_context \<Rightarrow> ProviderResolutionRequest \<Rightarrow> ProviderSelectionPolicyDecision \<Rightarrow> string \<Rightarrow> string option"
  where
  "candidate_model ctx r d candidate =
     (let c = py_strip candidate;
          family = py_lower (norm_string (prq_task_family r));
          task_default =
            (case dget (ctx_task_default_model_by_provider ctx) c of
               PDict m \<Rightarrow> if family \<noteq> [] then dget m family else PNone
             | _ \<Rightarrow> PNone)
      in select_model_for_provider
           (alist_get (model_allowlist_by_provider d) c)
           (if c = norm_string (prq_requested_provider r) then prq_requested_model r else PNone)
           (py_or task_default (dget (ctx_default_model_by_provider ctx) c))
           (alist_get (ctx_available_models_by_provider ctx) c))"

fun first_candidate ::
    "selection_context \<Rightarrow> ProviderResolutionRequest \<Rightarrow> ProviderSelectionPolicyDecision \<Rightarrow> string list
      \<Rightarrow> (string \<times> string) option" where
  "first_candidate ctx r d [] = None"
| "first_candidate ctx r d (c # cs) =
     (case candidate_model ctx r d c of
        None \<Rightarrow> first_candidate ctx r d cs
      | Some m \<Rightarrow> Some (py_strip c, m))"

definition retry_count_of :: "ProviderSelectionPolicyDecision \<Rightarrow> string \<Rightarrow> int" where
  "retry_count_of d provider_id =
     (case map_of (retry_count_by_provider d) provider_id of None \<Rightarrow> 0 | Some n \<Rightarrow> n)"

definition resolve ::
    "selection_context \<Rightarrow> ProviderResolutionRequest \<Rightarrow> pyval \<Rightarrow> ProviderResolutionResult result" where
  "resolve ctx r governance =
     ebind (build_provider_selection_policy (resolution_input ctx r governance)) (\<lambda>d.
       if rejection_reason d \<noteq> None \<or> provider_order d = []
       then Inr \<lparr>prr_allowed = False, prr_provider_id = None, prr_model_id = None,
                 prr_provider_order = provider_order d,
                 prr_fallback_provider_ids = tl (provider_order d),
                 prr_model_allowlist_by_provider = model_allowlist_by_provider d,
                 prr_timeout_s = timeout_s d, prr_retry_count = 0,
                 prr_rejection_reason =
                   Some (case rejection_reason d of
                           Some (c # cs) \<Rightarrow> c # cs | _ \<Rightarrow> ''provider_resolution_failed'')\<rparr>
       else
         case first_candidate ctx r d (provider_order d) of
           None \<Rightarrow>
             Inr \<lparr>prr_allowed = False,
                  prr_provider_id = Some (py_strip (hd (provider_order d))), prr_model_id = None,
                  prr_provider_order = provider_order d,
                  prr_fallback_provider_ids = tl (provider_order d),
                  prr_model_allowlist_by_provider = model_allowlist_by_provider d,
                  prr_timeout_s = timeout_s d,
                  prr_retry_count = retry_count_of d (py_strip (hd (provider_order d))),
                  prr_rejection_reason =
                    Some (let policy = as_dict (dget (as_dict governance) ''routing_policy_constraints'')
                          in if py_lower (py_strip (str_or (dget policy ''mode'') '''')) = ''local_only''
                             then ''local_only_no_eligible_model'' else ''no_eligible_model_available'')\<rparr>
         | Some (provider_id, model_id) \<Rightarrow>
             Inr \<lparr>prr_allowed = True, prr_provider_id = Some provider_id, prr_model_id = Some model_id,
                  prr_provider_order = provider_order d,
                  prr_fallback_provider_ids = filter (\<lambda>x. x \<noteq> provider_id) (provider_order d),
                  prr_model_allowlist_by_provider = model_allowlist_by_provider d,
                  prr_timeout_s = timeout_s d,
                  prr_retry_count = retry_count_of d provider_id,
                  prr_rejection_reason = None\<rparr>)"

section \<open>Lemmas\<close>

lemma lower_list_stripped: "x \<in> set (lower_string_list v) \<Longrightarrow> py_strip x = x \<and> py_lower x = x \<and> x \<noteq> []"
  by (cases v)
    (auto simp: lower_string_list_def norm_string_list_def py_lower_strip [symmetric] norm_string_stripped)

lemma provider_key_fixed: "x \<in> set (lower_string_list v) \<Longrightarrow> provider_key x = x"
  by (drule lower_list_stripped) (simp add: provider_key_def)

text \<open>The loop over the candidates keeps what it has and appends the candidates that pass.\<close>

lemma admit_candidates_set:
  "set (admit_candidates ok eligible order cs) =
     set order \<union> {c \<in> set cs. c \<noteq> [] \<and> c \<in> set eligible \<and> ok c}"
  by (induction ok eligible order cs rule: admit_candidates.induct) auto

lemma admit_candidates_distinct:
  "distinct order \<Longrightarrow> distinct (admit_candidates ok eligible order cs)"
  by (induction ok eligible order cs rule: admit_candidates.induct) auto

lemma admit_candidates_prefix: "\<exists>zs. admit_candidates ok eligible order cs = order @ zs"
proof (induction ok eligible order cs rule: admit_candidates.induct)
  case (2 ok eligible order c cs)
  then show ?case
    by (cases "c = [] \<or> c \<in> set order"; cases "c \<in> set eligible"; cases "ok c") auto
qed simp

lemma admit_candidates_hd:
  assumes "c \<noteq> []" and "c \<in> set eligible" and "ok c"
  shows "hd (admit_candidates ok eligible [] (c # cs)) = c"
  using assms admit_candidates_prefix [of ok eligible "[c]" cs] by auto

lemma routed_candidates_cover:
  "set eligible \<subseteq> set (candidate_order mode requested dflt eligible)"
  by (auto simp: candidate_order_def routing_candidates_def)

lemma allowlist_onto_get:
  "alist_get (allowlist_onto p acc xs) x = (if x \<in> set xs then allowed_models p x else alist_get acc x)"
  by (induction p acc xs rule: allowlist_onto.induct)
    (auto simp: alist_get_def update_conv')

lemma retries_onto_get:
  "retries_onto configured m acc xs = Inr retries \<Longrightarrow>
     (\<forall>x\<in>set xs. \<exists>n. map_of retries x = Some n \<and> 0 \<le> n \<and>
        n \<le> max (case map_of configured x of None \<Rightarrow> 0 | Some k \<Rightarrow> k) 0 \<and>
        (m \<noteq> PNone \<longrightarrow> (\<exists>mx. py_int m = Inr mx \<and> n \<le> max mx 0))) \<and>
     (\<forall>x. x \<notin> set xs \<longrightarrow> map_of retries x = map_of acc x)"
proof (induction configured m acc xs rule: retries_onto.induct)
  case (2 configured m acc x xs)
  let ?c = "max (case map_of configured x of None \<Rightarrow> 0 | Some k \<Rightarrow> k) 0"
  show ?case
  proof (cases "m = PNone")
    case True
    with 2 show ?thesis
      by (cases "x \<in> set xs") (auto simp: Let_def update_conv')
  next
    case False
    with 2(3) obtain mx where mx: "py_int m = Inr mx"
      and rest: "retries_onto configured m (AList.update x (min ?c (max mx 0)) acc) xs = Inr retries"
      by (auto simp: Let_def ebind_Inr_conv)
    from 2(2) [OF refl False rest] mx show ?thesis
      by (cases "x \<in> set xs") (auto simp: update_conv')
  qed
qed simp

text \<open>The shape of an accepted policy; the guards before it only return rejections.\<close>

lemma accept_chain:
  assumes "(if a then Inr (policy_rejection p r1) else if b then Inr (policy_rejection p r2)
            else ebind l (\<lambda>limits.
              if e1 then Inr (policy_rejection p r3) else if e2 then Inr (policy_rejection p r4)
              else if ord limits = [] then Inr (policy_rejection p r5)
              else ebind t (\<lambda>u. ebind (ret limits) (\<lambda>retries. Inr (mk limits u retries))))) = Inr d"
    and "rejection_reason d = None"
  shows "\<exists>limits u retries. l = Inr limits \<and> ord limits \<noteq> [] \<and> t = Inr u \<and> ret limits = Inr retries \<and>
           d = mk limits u retries"
  using assms by (auto simp: ebind_Inr_conv policy_rejection_def split: if_splits)

definition policy_eligible :: "ProviderSelectionPolicyInput \<Rightarrow> string list" where
  "policy_eligible p = routed_eligible (policy_mode p) (governance_eligible p)"

definition policy_candidates :: "ProviderSelectionPolicyInput \<Rightarrow> string list" where
  "policy_candidates p =
     candidate_order (policy_mode p) (py_lower (norm_string (psi_requested_provider p)))
       (py_lower (norm_string (psi_default_provider p))) (policy_eligible p)"

lemma policy_accepted:
  assumes "build_provider_selection_policy p = Inr d" and "rejection_reason d = None"
  obtains limits retries where
    "normalize_provider_budget_limits (psi_provider_budget_limits p) = Inr limits"
    and "provider_order d = admit_candidates (selectable p limits) (policy_eligible p) [] (policy_candidates p)"
    and "provider_order d \<noteq> []"
    and "policy_timeout p = Inr (timeout_s d)"
    and "retries_onto (psi_provider_retry_count p) (dget (policy_routing p) ''max_retry_count'') []
           (provider_order d) = Inr (retry_count_by_provider d)"
    and "model_allowlist_by_provider d = allowlist_onto p [] (provider_order d)"
    and "fallback_allowed d = (1 < length (provider_order d))"
proof -
  from accept_chain [OF assms(1) [unfolded build_provider_selection_policy_def Let_def] assms(2)]
  show ?thesis
    using that by (auto simp: policy_eligible_def policy_candidates_def)
qed

lemma policy_rejected:
  "build_provider_selection_policy p = Inr d \<Longrightarrow> rejection_reason d \<noteq> None \<Longrightarrow>
     provider_order d = [] \<and> model_allowlist_by_provider d = [] \<and> \<not> fallback_allowed d"
  unfolding build_provider_selection_policy_def Let_def
  by (auto simp: ebind_Inr_conv policy_rejection_def simp del: not_None_eq split: if_split_asm)

lemma policy_eligible_facts:
  assumes "x \<in> set (policy_eligible p)"
  shows "x \<in> set (policy_enabled p)"
    and "policy_approved p \<noteq> [] \<Longrightarrow> x \<in> set (policy_approved p)"
    and "policy_mode p = Some ''local_only'' \<Longrightarrow> x = ''local''"
    and "policy_mode p = Some ''cloud_only'' \<Longrightarrow> x \<noteq> ''local''"
    and "x \<noteq> []" and "py_strip x = x"
proof -
  show mem: "x \<in> set (policy_enabled p)"
    using assms by (auto simp: policy_eligible_def routed_eligible_def governance_eligible_def Let_def
        split: if_splits)
  then have key: "provider_key x = x" and "x \<noteq> []" and "py_strip x = x"
    using provider_key_fixed lower_list_stripped by (auto simp: policy_enabled_def)
  then show "x \<noteq> []" "py_strip x = x" by auto
  show "policy_approved p \<noteq> [] \<Longrightarrow> x \<in> set (policy_approved p)"
    using assms by (auto simp: policy_eligible_def routed_eligible_def governance_eligible_def Let_def
        split: if_splits)
  show "policy_mode p = Some ''local_only'' \<Longrightarrow> x = ''local''"
    using assms key by (simp add: policy_eligible_def routed_eligible_def is_local_provider_def)
  show "policy_mode p = Some ''cloud_only'' \<Longrightarrow> x \<noteq> ''local''"
    using assms key by (auto simp: policy_eligible_def routed_eligible_def is_local_provider_def)
qed

lemma policy_order_set:
  "set (admit_candidates ok (policy_eligible p) [] (policy_candidates p)) =
     {x \<in> set (policy_eligible p). ok x}"
  using routed_candidates_cover [of "policy_eligible p"] policy_eligible_facts(5) [of "[]" p]
  by (auto simp: admit_candidates_set policy_candidates_def)

lemma policy_timeout_bounds:
  "policy_timeout p = Inr t \<Longrightarrow>
     1 \<le> t \<and> t \<le> max (psi_request_timeout_s p) 1 \<and>
     (dget (policy_routing p) ''max_timeout_s'' \<noteq> PNone \<longrightarrow>
       (\<exists>m. py_int (dget (policy_routing p) ''max_timeout_s'') = Inr m \<and> t \<le> max m 1))"
  by (auto simp: policy_timeout_def Let_def ebind_Inr_conv split: if_splits)

text \<open>Every model name of an allow list is lower case and without surrounding blanks.\<close>

lemma provider_models_onto_lower:
  "(\<forall>k. \<forall>m\<in>set (alist_get acc k). py_lower m = m) \<Longrightarrow>
     m \<in> set (alist_get (provider_models_onto acc items) k) \<Longrightarrow> py_lower m = m"
proof (induction acc items arbitrary: m k rule: provider_models_onto.induct)
  case (2 acc provider_id models items)
  have "\<forall>k. \<forall>m\<in>set (alist_get (if provider_key provider_id = [] then acc
          else AList.update (provider_key provider_id) (lower_string_list models) acc) k). py_lower m = m"
    using 2(2) by (auto simp: alist_get_def update_conv' dest: lower_list_stripped split: if_splits)
  from 2(1) [OF this] 2(3) show ?case by auto
qed simp

lemma normalized_models_lower:
  "m \<in> set (alist_get (normalize_provider_models v) k) \<Longrightarrow> py_lower m = m"
  using provider_models_onto_lower [of "[]"] by (simp add: normalize_provider_models_def alist_get_def)

lemma provider_key_lower [simp]: "py_lower (provider_key k) = provider_key k"
  by (simp add: provider_key_def)

lemma model_features_onto_lower:
  "\<forall>e\<in>set acc. py_lower (fst e) = fst e \<Longrightarrow> e \<in> set (model_features_onto acc items) \<Longrightarrow>
     py_lower (fst e) = fst e"
proof (induction acc items arbitrary: e rule: model_features_onto.induct)
  case (2 acc model_id features items)
  have upd: "e \<in> set (AList.update k v d) \<Longrightarrow> e = (k, v) \<or> e \<in> set d" for e k v and d :: feature_map
    by (induction d) (auto split: if_splits)
  have "\<forall>e\<in>set (if provider_key model_id = [] \<or> \<not> is_dict features then acc
          else AList.update (provider_key model_id) (features_onto [] (as_dict features)) acc).
          py_lower (fst e) = fst e"
    using 2(2) by (auto dest!: upd)
  from 2(1) [OF this] 2(3) show ?case by auto
qed simp

lemma provider_features_onto_lower:
  "\<forall>k. \<forall>e\<in>set (alist_get acc k). py_lower (fst e) = fst e \<Longrightarrow>
     e \<in> set (alist_get (provider_features_onto acc items) k) \<Longrightarrow> py_lower (fst e) = fst e"
proof (induction acc items arbitrary: e k rule: provider_features_onto.induct)
  case (2 acc provider_id models items)
  have "\<forall>k. \<forall>e\<in>set (alist_get (if provider_key provider_id = [] \<or> \<not> is_dict models then acc
          else AList.update (provider_key provider_id) (model_features_onto [] (as_dict models)) acc) k).
          py_lower (fst e) = fst e"
    using 2(2) by (auto simp: alist_get_def update_conv' dest: model_features_onto_lower [rotated]
        split: if_splits)
  from 2(1) [OF this] 2(3) show ?case by auto
qed simp

lemma base_models_mem: "m \<in> set (base_models usable approved) \<Longrightarrow> m \<in> set usable \<or> m \<in> set approved"
  by (auto simp: base_models_def split: if_splits)

lemma featured_models_mem:
  "m \<in> set (featured_models required features models) \<Longrightarrow> m \<in> set models \<or> (\<exists>v. (m, v) \<in> set features)"
  by (auto simp: featured_models_def split: if_splits)

lemma requested_models_mem:
  "m \<in> set (requested_models required requested models) \<Longrightarrow> m \<in> set models \<or> m = requested"
  by (auto simp: requested_models_def split: if_splits)

lemma normalized_features_lower:
  "(m, v) \<in> set (alist_get (normalize_provider_model_features f) k) \<Longrightarrow> py_lower m = m"
  using provider_features_onto_lower [of "[]" "(m, v)" "as_dict f" k]
  by (simp add: normalize_provider_model_features_def alist_get_def)

lemma allowed_models_lower: "m \<in> set (allowed_models p x) \<Longrightarrow> py_lower m = m"
  unfolding allowed_models_def Let_def
  by (drule requested_models_mem, elim disjE, drule featured_models_mem)
    (auto dest: base_models_mem normalized_models_lower normalized_features_lower)

section \<open>Properties\<close>

text \<open>
  An accepted policy orders, without repetition, exactly the enabled providers that are
  approved by governance, allowed by the routing mode, available and affordable; it never leaves
  the enabled or the approved providers, is local only or cloud only when routing says so, and
  puts the requested provider first when that one qualifies. A rejected policy names no provider.
\<close>

theorem provider_order_exact:
  assumes "build_provider_selection_policy p = Inr d"
  shows "if rejection_reason d = None
         then \<exists>limits. normalize_provider_budget_limits (psi_provider_budget_limits p) = Inr limits
           \<and> provider_order d \<noteq> [] \<and> distinct (provider_order d)
           \<and> set (provider_order d) = {x \<in> set (policy_eligible p). selectable p limits x}
           \<and> set (provider_order d) \<subseteq> set (policy_enabled p)
           \<and> (policy_approved p = [] \<or> set (provider_order d) \<subseteq> set (policy_approved p))
           \<and> (policy_mode p \<noteq> Some ''local_only'' \<or> provider_order d = [''local''])
           \<and> (policy_mode p \<noteq> Some ''cloud_only'' \<or> ''local'' \<notin> set (provider_order d))
           \<and> (let q = py_lower (norm_string (psi_requested_provider p))
              in q \<notin> set (provider_order d) \<or> hd (provider_order d) = q)
         else provider_order d = [] \<and> model_allowlist_by_provider d = [] \<and> \<not> fallback_allowed d"
proof (cases "rejection_reason d = None")
  case True
  obtain limits where l: "normalize_provider_budget_limits (psi_provider_budget_limits p) = Inr limits"
    and o: "provider_order d = admit_candidates (selectable p limits) (policy_eligible p) [] (policy_candidates p)"
    and ne: "provider_order d \<noteq> []"
    using policy_accepted [OF assms True] by metis
  have st: "set (provider_order d) = {x \<in> set (policy_eligible p). selectable p limits x}"
    by (simp add: o policy_order_set)
  have di: "distinct (provider_order d)" by (simp add: o admit_candidates_distinct)
  have lo: "provider_order d = [''local'']" if "policy_mode p = Some ''local_only''"
    using st ne di policy_eligible_facts(3) [OF _ that]
    by (cases "provider_order d"; cases "tl (provider_order d)") (auto simp: set_eq_iff)
  have hd: "hd (provider_order d) = q"
    if "q \<in> set (provider_order d)" and q: "q = py_lower (norm_string (psi_requested_provider p))" for q
  proof -
    from that(1) st have "q \<in> set (policy_eligible p)" and "selectable p limits q" by auto
    moreover have "\<exists>cs. policy_candidates p = q # cs"
      by (simp add: q policy_candidates_def candidate_order_def)
    ultimately show ?thesis
      unfolding o using policy_eligible_facts(5) admit_candidates_hd by metis
  qed
  have sub: "set (provider_order d) \<subseteq> set (policy_enabled p)"
    and app: "policy_approved p = [] \<or> set (provider_order d) \<subseteq> set (policy_approved p)"
    and cl: "policy_mode p \<noteq> Some ''cloud_only'' \<or> ''local'' \<notin> set (provider_order d)"
    unfolding st using policy_eligible_facts(1,2,4) [of _ p] by blast+
  from True show ?thesis
    using hd [OF _ refl] lo
    by (simp only: refl if_True Let_def) (intro exI [of _ limits] conjI l ne di st sub app cl; argo)
qed (use policy_rejected [OF assms] in simp)

definition sample_context :: selection_context where
  "sample_context =
     \<lparr>ctx_enabled_providers = [PStr ''openai'', PStr ''local''], ctx_default_provider = PStr ''openai'',
      ctx_default_model_by_provider = [(''openai'', PStr ''gpt-4o'')],
      ctx_task_default_model_by_provider = [],
      ctx_provider_retry_count = [(''openai'', 5)],
      ctx_provider_budget_limits = [(''openai'', PDict [(''max_cost_cents'', PInt 10)])],
      ctx_provider_health = [(''openai'', PDict [(''availability'', PStr ''available'')]),
                             (''local'', PDict [(''availability'', PStr ''degraded'')])],
      ctx_available_models_by_provider = [(''openai'', [''gpt-4o'']), (''local'', [''qwen3''])],
      ctx_usable_models_by_provider = [(''openai'', PList [PStr ''gpt-4o'']), (''local'', PList [PStr ''qwen3''])],
      ctx_model_features_by_provider = [(''openai'', PDict [(''gpt-4o'', PDict [(''vision'', PBool False)])])]\<rparr>"

definition sample_request :: ProviderResolutionRequest where
  "sample_request =
     \<lparr>prq_task_family = PStr ''task.chat'', prq_requested_provider = PStr ''local'',
      prq_requested_model = PNone, prq_timeout_s = 90, prq_max_cost_cents = Some 5\<rparr>"

definition sample_governance :: pyval where
  "sample_governance =
     PDict [(''routing_policy_constraints'', PDict [(''max_timeout_s'', PInt 20), (''max_retry_count'', PInt 2)])]"

theorem provider_order_exact_witness:
  "\<exists>d. build_provider_selection_policy (resolution_input sample_context sample_request sample_governance) = Inr d
     \<and> rejection_reason d = None \<and> hd (provider_order d) = ''local''"
proof -
  let ?p = "resolution_input sample_context sample_request sample_governance"
  have "case build_provider_selection_policy ?p of Inr d \<Rightarrow> rejection_reason d = None \<and>
          ''local'' \<in> set (provider_order d) \<and> py_lower (norm_string (psi_requested_provider ?p)) = ''local''
        | Inl _ \<Rightarrow> False"
    by code_simp
  then obtain d where d: "build_provider_selection_policy ?p = Inr d" and r: "rejection_reason d = None"
    and m: "''local'' \<in> set (provider_order d)" and q: "py_lower (norm_string (psi_requested_provider ?p)) = ''local''"
    by (auto split: sum.splits)
  from provider_order_exact [OF d] r m q have "hd (provider_order d) = ''local''"
    by (auto simp: Let_def)
  with d r show ?thesis by blast
qed

text \<open>
  The limits of an accepted policy: the timeout is at least one second, at most the
  requested one and at most the governance bound; every ordered provider has a retry count
  between zero and its configured count, capped by governance; and wherever the usable and the
  approved models leave some model, the allow list stays inside both and every listed model has
  the required features.
\<close>

theorem provider_policy_limits:
  assumes "build_provider_selection_policy p = Inr d" and "rejection_reason d = None"
    and "x \<in> set (provider_order d)"
    and "usable = alist_get (normalize_provider_models (psi_usable_models_by_provider p)) x"
    and "approved = alist_get (normalize_provider_models (dget (policy_governance p) ''approved_models'')) x"
    and "base_models usable approved \<noteq> []"
  shows "1 \<le> timeout_s d \<and> timeout_s d \<le> max (psi_request_timeout_s p) 1
    \<and> (dget (policy_routing p) ''max_timeout_s'' = PNone \<or>
        (\<exists>m. py_int (dget (policy_routing p) ''max_timeout_s'') = Inr m \<and> timeout_s d \<le> max m 1))
    \<and> (\<exists>n. map_of (retry_count_by_provider d) x = Some n \<and> 0 \<le> n \<and>
          n \<le> max (case map_of (psi_provider_retry_count p) x of None \<Rightarrow> 0 | Some k \<Rightarrow> k) 0 \<and>
          (dget (policy_routing p) ''max_retry_count'' = PNone \<or>
            (\<exists>m. py_int (dget (policy_routing p) ''max_retry_count'') = Inr m \<and> n \<le> max m 0)))
    \<and> (\<forall>m \<in> set (alist_get (model_allowlist_by_provider d) x).
          (usable = [] \<or> m \<in> set usable) \<and> (approved = [] \<or> m \<in> set approved) \<and>
          has_features (required_capability_features (policy_governance p))
            (alist_get (alist_get (normalize_provider_model_features (psi_model_features_by_provider p)) x) m))"
proof -
  let ?req = "required_capability_features (policy_governance p)"
  let ?f = "alist_get (normalize_provider_model_features (psi_model_features_by_provider p)) x"
  have al: "alist_get (model_allowlist_by_provider d) x =
      requested_models ?req (py_lower (norm_string (psi_requested_model p)))
        (featured_models ?req ?f (base_models usable approved))"
    using policy_accepted [OF assms(1,2)] assms(3,4,5)
    by (metis (no_types, lifting) allowed_models_def allowlist_onto_get)
  have base: "m \<in> set (base_models usable approved) \<Longrightarrow>
      (usable = [] \<or> m \<in> set usable) \<and> (approved = [] \<or> m \<in> set approved)" for m
    by (auto simp: base_models_def split: if_splits)
  have feat: "m \<in> set (featured_models ?req ?f (base_models usable approved)) \<Longrightarrow>
      m \<in> set (base_models usable approved) \<and> has_features ?req (alist_get ?f m)" for m
    using assms(6) by (auto simp: featured_models_def has_features_def split: if_splits)
  have allow: "m \<in> set (alist_get (model_allowlist_by_provider d) x) \<Longrightarrow>
      m \<in> set (featured_models ?req ?f (base_models usable approved))" for m
    unfolding al using assms(6) by (auto simp: requested_models_def featured_models_def split: if_splits)
  have "policy_timeout p = Inr (timeout_s d)"
    and "retries_onto (psi_provider_retry_count p) (dget (policy_routing p) ''max_retry_count'') []
           (provider_order d) = Inr (retry_count_by_provider d)"
    using policy_accepted [OF assms(1,2)] by metis+
  with policy_timeout_bounds [of p] retries_onto_get assms(3)
  have "1 \<le> timeout_s d \<and> timeout_s d \<le> max (psi_request_timeout_s p) 1 \<and>
     (dget (policy_routing p) ''max_timeout_s'' \<noteq> PNone \<longrightarrow>
       (\<exists>m. py_int (dget (policy_routing p) ''max_timeout_s'') = Inr m \<and> timeout_s d \<le> max m 1))"
    and "\<exists>n. map_of (retry_count_by_provider d) x = Some n \<and> 0 \<le> n \<and>
        n \<le> max (case map_of (psi_provider_retry_count p) x of None \<Rightarrow> 0 | Some k \<Rightarrow> k) 0 \<and>
        (dget (policy_routing p) ''max_retry_count'' \<noteq> PNone \<longrightarrow>
          (\<exists>mx. py_int (dget (policy_routing p) ''max_retry_count'') = Inr mx \<and> n \<le> max mx 0))"
    by blast+
  then show ?thesis
    using allow feat base by (intro conjI ballI; blast)
qed

theorem provider_policy_limits_witness:
  "\<exists>d. build_provider_selection_policy (resolution_input sample_context sample_request sample_governance) = Inr d
     \<and> timeout_s d \<le> 90 \<and> (\<exists>n. map_of (retry_count_by_provider d) ''openai'' = Some n \<and> n \<le> 5)"
proof -
  let ?p = "resolution_input sample_context sample_request sample_governance"
  have "case build_provider_selection_policy ?p of
          Inr d \<Rightarrow> rejection_reason d = None \<and> ''openai'' \<in> set (provider_order d) | Inl _ \<Rightarrow> False"
    by code_simp
  then obtain d where d: "build_provider_selection_policy ?p = Inr d" "rejection_reason d = None"
      "''openai'' \<in> set (provider_order d)"
    by (auto split: sum.splits)
  have "base_models (alist_get (normalize_provider_models (psi_usable_models_by_provider ?p)) ''openai'')
          (alist_get (normalize_provider_models (dget (policy_governance ?p) ''approved_models'')) ''openai'') \<noteq> []"
    by code_simp
  from provider_policy_limits [OF d refl refl this]
  have "timeout_s d \<le> max (psi_request_timeout_s ?p) 1"
    and "\<exists>n. map_of (retry_count_by_provider d) ''openai'' = Some n \<and>
          n \<le> max (case map_of (psi_provider_retry_count ?p) ''openai'' of None \<Rightarrow> 0 | Some k \<Rightarrow> k) 0"
    by blast+
  moreover have "psi_request_timeout_s ?p = 90" "map_of (psi_provider_retry_count ?p) ''openai'' = Some 5"
    by code_simp+
  ultimately show ?thesis using d(1) by auto
qed

lemma first_candidate_Some:
  "first_candidate ctx r d cs = Some (x, m) \<Longrightarrow>
     \<exists>pre c post. cs = pre @ c # post \<and> x = py_strip c \<and> candidate_model ctx r d c = Some m \<and>
       (\<forall>c'\<in>set pre. candidate_model ctx r d c' = None)"
proof (induction ctx r d cs rule: first_candidate.induct)
  case (2 ctx r d c cs)
  show ?case
  proof (cases "candidate_model ctx r d c")
    case None
    with 2 obtain pre c' post where "cs = pre @ c' # post" "x = py_strip c'"
      "candidate_model ctx r d c' = Some m" "\<forall>c'\<in>set pre. candidate_model ctx r d c' = None"
      by auto
    with None show ?thesis
      by (intro exI [of _ "c # pre"] exI [of _ c'] exI [of _ post]) auto
  next
    case (Some a)
    with 2(2) show ?thesis by (intro exI [of _ "[]"] exI [of _ c] exI [of _ cs]) auto
  qed
qed simp

lemma select_model_source:
  "select_model_for_provider allow rm dm avail = Some m \<Longrightarrow>
     m \<in> set (stripped_nonempty (if stripped_nonempty allow \<noteq> [] then allow else avail))"
  by (auto simp: select_model_for_provider_def Let_def split: if_splits)

text \<open>
  C37. What an allowed resolution promises: the provider is one of the ordered ones, the others
  are its fallbacks in order, and the model is on that provider's allow list whenever the list is
  not empty and is one of the provider's available models otherwise. A resolution that is not
  allowed names no model and gives a reason.
\<close>

theorem resolve_sound:
  assumes "resolve ctx r governance = Inr res"
  shows "if prr_allowed res
         then \<exists>x m pre post. prr_provider_id res = Some x \<and> prr_model_id res = Some m
           \<and> prr_provider_order res = pre @ x # post
           \<and> prr_fallback_provider_ids res = pre @ post
           \<and> m \<in> set (stripped_nonempty
                (if stripped_nonempty (alist_get (prr_model_allowlist_by_provider res) x) \<noteq> []
                 then alist_get (prr_model_allowlist_by_provider res) x
                 else alist_get (ctx_available_models_by_provider ctx) x))
         else prr_model_id res = None \<and> prr_rejection_reason res \<noteq> None"
proof -
  obtain d where d: "build_provider_selection_policy (resolution_input ctx r governance) = Inr d"
    using assms by (auto simp: resolve_def ebind_Inr_conv)
  show ?thesis
  proof (cases "prr_allowed res")
    case True
    with assms d obtain x m where rr: "rejection_reason d = None"
      and fc: "first_candidate ctx r d (provider_order d) = Some (x, m)"
      and res: "prr_provider_id res = Some x" "prr_model_id res = Some m"
        "prr_provider_order res = provider_order d"
        "prr_fallback_provider_ids res = filter (\<lambda>y. y \<noteq> x) (provider_order d)"
        "prr_model_allowlist_by_provider res = model_allowlist_by_provider d"
      by (auto simp: resolve_def split: if_splits option.splits)
    from first_candidate_Some [OF fc] obtain pre c post where o: "provider_order d = pre @ c # post"
      and x: "x = py_strip c" and cm: "candidate_model ctx r d c = Some m" by blast
    obtain limits where ad: "provider_order d = admit_candidates (selectable (resolution_input ctx r governance) limits)
        (policy_eligible (resolution_input ctx r governance)) [] (policy_candidates (resolution_input ctx r governance))"
      using policy_accepted [OF d rr] by metis
    have "c \<in> set (provider_order d)" by (simp add: o)
    then have xc: "x = c"
      unfolding x ad policy_order_set using policy_eligible_facts(6) by blast
    have "distinct (provider_order d)" unfolding ad by (simp add: admit_candidates_distinct)
    then have "filter (\<lambda>y. y \<noteq> x) (provider_order d) = pre @ post"
      by (auto simp: o xc intro!: arg_cong2 [of _ _ _ _ append] filter_True)
    moreover have "m \<in> set (stripped_nonempty
        (if stripped_nonempty (alist_get (model_allowlist_by_provider d) x) \<noteq> []
         then alist_get (model_allowlist_by_provider d) x
         else alist_get (ctx_available_models_by_provider ctx) x))"
      unfolding x by (rule select_model_source [OF cm [unfolded candidate_model_def Let_def]])
    ultimately have "prr_provider_order res = pre @ x # post \<and> prr_fallback_provider_ids res = pre @ post
        \<and> m \<in> set (stripped_nonempty
            (if stripped_nonempty (alist_get (prr_model_allowlist_by_provider res) x) \<noteq> []
             then alist_get (prr_model_allowlist_by_provider res) x
             else alist_get (ctx_available_models_by_provider ctx) x))"
      unfolding res using o xc by simp
    with True res(1,2) show ?thesis by (simp only: if_True) blast
  qed (use assms d in \<open>auto simp: resolve_def simp del: not_None_eq split: if_splits option.splits\<close>)
qed

theorem resolve_sound_witness:
  "\<exists>res x. resolve sample_context sample_request sample_governance = Inr res \<and> prr_provider_id res = Some x"
proof -
  have "case resolve sample_context sample_request sample_governance of
          Inr res \<Rightarrow> prr_allowed res | Inl _ \<Rightarrow> False"
    by code_simp
  then obtain res where r: "resolve sample_context sample_request sample_governance = Inr res"
    and a: "prr_allowed res" by (auto split: sum.splits)
  from resolve_sound [OF r] a show ?thesis using r by auto
qed

text \<open>
  An empty allow list is read as no restriction: a request that governance confines to
  models with a feature is resolved to a model known not to have it. (The resolver falls back to
  the provider's default or first available model when no model satisfies the policy.)
\<close>

theorem empty_allowlist_unrestricted:
  "\<exists>ctx r governance res x m.
     resolve ctx r governance = Inr res \<and> prr_allowed res \<and>
     prr_provider_id res = Some x \<and> prr_model_id res = Some m \<and>
     required_capability_features (as_dict governance) \<noteq> [] \<and>
     \<not> has_features (required_capability_features (as_dict governance))
         (alist_get (alist_get (normalize_provider_model_features
            (PDict (ctx_model_features_by_provider ctx))) x) m)"
proof -
  let ?g = "PDict [(''model_capability_requirements'', PDict [(''required_features'', PList [PStr ''vision''])])]"
  let ?r = "sample_request\<lparr>prq_requested_provider := PStr ''openai''\<rparr>"
  have "case resolve sample_context ?r ?g of
          Inr res \<Rightarrow> prr_allowed res \<and> prr_provider_id res = Some ''openai'' \<and> prr_model_id res = Some ''gpt-4o''
        | Inl _ \<Rightarrow> False"
    by code_simp
  then obtain res where "resolve sample_context ?r ?g = Inr res" "prr_allowed res"
    "prr_provider_id res = Some ''openai''" "prr_model_id res = Some ''gpt-4o''"
    by (auto split: sum.splits)
  moreover have "required_capability_features (as_dict ?g) \<noteq> []" by code_simp
  moreover have "\<not> has_features (required_capability_features (as_dict ?g))
      (alist_get (alist_get (normalize_provider_model_features
        (PDict (ctx_model_features_by_provider sample_context))) ''openai'') ''gpt-4o'')"
    by code_simp
  ultimately show ?thesis by blast
qed

text \<open>
  The policy lower-cases model names and the resolver does not lower-case the requested one:
  on the requested provider, a requested model whose name has an upper-case letter is never
  selected, although the policy's allow list was built for it.
\<close>

theorem requested_model_case:
  assumes "build_provider_selection_policy (resolution_input ctx r governance) = Inr d"
    and "rejection_reason d = None" and "c \<in> set (provider_order d)"
    and "c = norm_string (prq_requested_provider r)"
    and "stripped_nonempty (alist_get (model_allowlist_by_provider d) c) \<noteq> []"
    and "py_lower (norm_string (prq_requested_model r)) \<noteq> norm_string (prq_requested_model r)"
  shows "candidate_model ctx r d c = None"
proof -
  let ?p = "resolution_input ctx r governance"
  let ?al = "alist_get (model_allowlist_by_provider d) c"
  have al: "?al = allowed_models ?p c"
    using policy_accepted [OF assms(1,2)] assms(3) by (metis allowlist_onto_get)
  then have low: "m \<in> set ?al \<Longrightarrow> py_lower m = m" for m
    using allowed_models_lower by simp
  then have stripped: "m \<in> set (stripped_nonempty ?al) \<Longrightarrow> py_lower m = m" for m
    by (auto simp: stripped_nonempty_def py_lower_strip)
  have "py_strip c = c" using assms(4) norm_string_stripped by simp
  moreover have "norm_string (prq_requested_model r) \<notin> set (stripped_nonempty ?al)"
    using stripped assms(6) by blast
  moreover have "norm_string (prq_requested_model r) \<noteq> []" using assms(6) by auto
  ultimately show ?thesis
    using assms(4,5) by (simp add: candidate_model_def select_model_for_provider_def Let_def)
qed

theorem requested_model_case_witness:
  "\<exists>d. build_provider_selection_policy (resolution_input sample_context
          (sample_request\<lparr>prq_requested_model := PStr ''Qwen3''\<rparr>) PNone) = Inr d \<and>
       alist_get (model_allowlist_by_provider d) ''local'' = [''qwen3''] \<and>
       candidate_model sample_context (sample_request\<lparr>prq_requested_model := PStr ''Qwen3''\<rparr>) d ''local'' = None"
proof -
  let ?r = "sample_request\<lparr>prq_requested_model := PStr ''Qwen3''\<rparr>"
  let ?p = "resolution_input sample_context ?r PNone"
  have "case build_provider_selection_policy ?p of
          Inr d \<Rightarrow> rejection_reason d = None \<and> ''local'' \<in> set (provider_order d) \<and>
                   alist_get (model_allowlist_by_provider d) ''local'' = [''qwen3'']
        | Inl _ \<Rightarrow> False"
    by code_simp
  then obtain d where d: "build_provider_selection_policy ?p = Inr d" "rejection_reason d = None"
      "''local'' \<in> set (provider_order d)" and al: "alist_get (model_allowlist_by_provider d) ''local'' = [''qwen3'']"
    by (auto split: sum.splits)
  have "''local'' = norm_string (prq_requested_provider ?r)" by code_simp
  moreover have "stripped_nonempty (alist_get (model_allowlist_by_provider d) ''local'') \<noteq> []"
    unfolding al by code_simp
  moreover have "py_lower (norm_string (prq_requested_model ?r)) \<noteq> norm_string (prq_requested_model ?r)"
    by code_simp
  ultimately have "candidate_model sample_context ?r d ''local'' = None"
    by (rule requested_model_case [OF d])
  with d(1) al show ?thesis by blast
qed

end
