(* ===== verification/Local_Scheduler.thy ===== *)
theory Local_Scheduler
  imports Prelude
begin

text \<open>
  \<open>runtime/local_scheduler_policy.py\<close>: whether a local runtime component (the text and vision
  models, the visual runtimes, the training runtime) may start now, and what has to be unloaded
  or waited for first. Quantities of video memory are exact numbers of MiB.
\<close>

section \<open>Constants\<close>

definition LOCAL_SCHEDULER_PRIORITY_ORDER :: "string list" where
  "LOCAL_SCHEDULER_PRIORITY_ORDER =
     [''text_llm'', ''vision_llm'', ''visual_gpu'', ''visual_cpu'', ''training_runtime'']"

definition LOCAL_SCHEDULER_PRIORITY :: "(string \<times> nat) list" where
  "LOCAL_SCHEDULER_PRIORITY = zip LOCAL_SCHEDULER_PRIORITY_ORDER [0..<length LOCAL_SCHEDULER_PRIORITY_ORDER]"

definition LOCAL_SCHEDULER_RESERVED_VRAM_MIB :: "(string \<times> int) list" where
  "LOCAL_SCHEDULER_RESERVED_VRAM_MIB = [(''visual_gpu'', 5 * 1024), (''training_runtime'', 9 * 1024)]"

definition normalize_scheduler_importance :: "pyval \<Rightarrow> string" where
  "normalize_scheduler_importance v =
     (let normalized = py_lower (norm_string v)
      in if normalized \<in> {''low'', ''normal'', ''high'', ''critical''} then normalized else ''normal'')"

section \<open>Reading the status\<close>

type_synonym components = "(string \<times> pydict) list"

fun components_onto :: "components \<Rightarrow> pyval list \<Rightarrow> components" where
  "components_onto out [] = out"
| "components_onto out (component # rest) =
     components_onto
       (case component of
          PDict d \<Rightarrow>
            let component_id = norm_string (dget d ''component_id'')
            in if component_id = [] then out else AList.update component_id d out
        | _ \<Rightarrow> out) rest"

definition components_by_id :: "pyval \<Rightarrow> components" where
  "components_by_id scheduler_status = components_onto [] (as_list (dget (as_dict scheduler_status) ''components''))"

text \<open>A component that is not listed is \<open>None\<close>, read as an empty dict.\<close>

definition component_of :: "components \<Rightarrow> string \<Rightarrow> pydict" where
  "component_of comps k = (case map_of comps k of None \<Rightarrow> [] | Some d \<Rightarrow> d)"

definition observed_state :: "pydict \<Rightarrow> string" where
  "observed_state component = py_lower (py_strip (str_or (dget component ''observed_state'') ''unknown''))"

definition model_state :: "pydict \<Rightarrow> string" where
  "model_state component = py_lower (norm_string (dget component ''model_state''))"

definition is_resident :: "pydict \<Rightarrow> bool" where
  "is_resident component =
     (if model_state component \<noteq> []
      then model_state component \<in> {''loaded'', ''loading'', ''unloading''}
      else observed_state component \<in> {''running'', ''starting'', ''idle'', ''paused'', ''pausing''})"

definition int_or_zero :: "pyval \<Rightarrow> int" where
  "int_or_zero v = (case py_int (py_or v (PInt 0)) of Inl _ \<Rightarrow> 0 | Inr i \<Rightarrow> i)"

definition is_busy :: "pydict \<Rightarrow> bool" where
  "is_busy component =
     (let idle = as_dict (dget component ''idle'')
      in 0 < int_or_zero (dget idle ''in_flight'') \<or> 0 < int_or_zero (dget idle ''queued'')
         \<or> observed_state component \<in> {''starting'', ''pausing'', ''unloading''}
         \<or> model_state component \<in> {''loading'', ''unloading''})"

definition component_vram_mib :: "pydict \<Rightarrow> rat" where
  "component_vram_mib component =
     (let current = as_dict (dget (as_dict (dget component ''usage_statistics'')) ''current'')
      in case num_of_pyval (dget current ''vram_mib'') of
           Some x \<Rightarrow> if 0 < x then x else 0
         | None \<Rightarrow> 0)"

definition gpu_free_mib :: "pyval \<Rightarrow> rat option" where
  "gpu_free_mib scheduler_status =
     (case num_of_pyval (dget (as_dict (dget (as_dict scheduler_status) ''gpu_resources'')) ''memory_free_mib'') of
        Some x \<Rightarrow> if 0 \<le> x then Some x else None
      | None \<Rightarrow> None)"

section \<open>Planning\<close>

datatype sched_verb = Wait_for_idle | Unload | Wait_for_resources | Queue_background

record sched_action =
  act_action :: sched_verb
  act_component_id :: string
  act_reason :: string
  act_vram_mib :: "(int \<times> int) option"

record plan =
  pl_affected :: "string list"
  pl_actions :: "sched_action list"
  pl_reasons :: "string list"

definition empty_plan :: plan where
  "empty_plan = \<lparr>pl_affected = [], pl_actions = [], pl_reasons = []\<rparr>"

definition add_step :: "sched_verb \<Rightarrow> string \<Rightarrow> string \<Rightarrow> string \<Rightarrow> plan \<Rightarrow> plan" where
  "add_step verb other_id action_reason reason pl =
     \<lparr>pl_affected = pl_affected pl @ [other_id],
      pl_actions = pl_actions pl @
        [\<lparr>act_action = verb, act_component_id = other_id, act_reason = action_reason, act_vram_mib = None\<rparr>],
      pl_reasons = pl_reasons pl @ [reason]\<rparr>"

definition add_reason :: "string \<Rightarrow> plan \<Rightarrow> plan" where
  "add_reason reason pl = pl\<lparr>pl_reasons := pl_reasons pl @ [reason]\<rparr>"

definition require_unload :: "components \<Rightarrow> string \<Rightarrow> string \<Rightarrow> plan \<Rightarrow> plan" where
  "require_unload comps other_id reason pl =
     (if \<not> is_resident (component_of comps other_id) \<or> other_id \<in> set (pl_affected pl) then pl
      else if is_busy (component_of comps other_id)
      then add_step Wait_for_idle other_id reason (other_id @ ''_busy'') pl
      else add_step Unload other_id reason reason pl)"

fun free_vram :: "components \<Rightarrow> string \<Rightarrow> rat \<Rightarrow> string list \<Rightarrow> rat \<times> plan \<Rightarrow> rat \<times> plan" where
  "free_vram comps runtime_id required [] (planned_free, pl) = (planned_free, pl)"
| "free_vram comps runtime_id required (other_id # rest) (planned_free, pl) =
     (if required \<le> planned_free then (planned_free, pl)
      else if \<not> is_resident (component_of comps other_id)
      then free_vram comps runtime_id required rest (planned_free, pl)
      else if other_id \<in> set (pl_affected pl)
      then free_vram comps runtime_id required rest
             (planned_free + component_vram_mib (component_of comps other_id), pl)
      else
        let pl' = require_unload comps other_id (runtime_id @ ''_requires_'' @ other_id @ ''_vram'') pl
        in free_vram comps runtime_id required rest
             (if length (pl_actions pl) < length (pl_actions pl')
              then planned_free + component_vram_mib (component_of comps other_id)
              else planned_free, pl'))"

definition ensure_vram_for_runtime ::
    "components \<Rightarrow> rat option \<Rightarrow> string \<Rightarrow> string list \<Rightarrow> plan \<Rightarrow> plan" where
  "ensure_vram_for_runtime comps gpu_free runtime_id unload_order pl =
     (case map_of LOCAL_SCHEDULER_RESERVED_VRAM_MIB runtime_id of
        None \<Rightarrow> pl
      | Some required \<Rightarrow>
          (case gpu_free of
             None \<Rightarrow> add_reason ''gpu_free_vram_unknown'' pl
           | Some free \<Rightarrow>
               if of_int required \<le> free then add_reason (runtime_id @ ''_vram_budget_available'') pl
               else
                 let (planned_free, pl') = free_vram comps runtime_id (of_int required) unload_order (free, pl)
                 in if planned_free < of_int required
                    then \<lparr>pl_affected = pl_affected pl',
                          pl_actions = pl_actions pl' @
                            [\<lparr>act_action = Wait_for_resources, act_component_id = runtime_id,
                              act_reason = runtime_id @ ''_vram_budget_unavailable'',
                              act_vram_mib = Some (required, rat_trunc planned_free)\<rparr>],
                          pl_reasons = pl_reasons pl' @ [runtime_id @ ''_vram_budget_unavailable'']\<rparr>
                    else pl'))"

definition wait_for_visual :: "components \<Rightarrow> string \<Rightarrow> plan \<Rightarrow> plan" where
  "wait_for_visual comps visual_id pl =
     (if is_resident (component_of comps visual_id)
      then add_step Wait_for_idle visual_id (''text_llm_waits_for_'' @ visual_id) (visual_id @ ''_resident'') pl
      else pl)"

definition component_plan :: "components \<Rightarrow> rat option \<Rightarrow> string \<Rightarrow> plan" where
  "component_plan comps gpu_free requested =
     (let training = component_of comps ''training_runtime'' in
      if requested = ''text_llm'' then
        let pl = wait_for_visual comps ''visual_cpu'' (wait_for_visual comps ''visual_gpu'' empty_plan)
        in if is_resident training \<and> is_busy training
           then add_step Wait_for_idle ''training_runtime'' ''text_llm_priority'' ''training_runtime_busy'' pl
           else pl
      else if requested = ''vision_llm'' then
        require_unload comps ''training_runtime'' ''vision_requires_training_runtime_unloaded''
          (require_unload comps ''visual_cpu'' ''vision_requires_visual_cpu_unloaded''
            (require_unload comps ''visual_gpu'' ''vision_requires_visual_gpu_unloaded'' empty_plan))
      else if requested = ''visual_gpu'' then
        ensure_vram_for_runtime comps gpu_free ''visual_gpu'' [''vision_llm'', ''text_llm'']
          (if is_resident training
           then require_unload comps ''training_runtime'' ''visual_gpu_requires_training_runtime_unloaded'' empty_plan
           else empty_plan)
      else if requested = ''visual_cpu'' then
        (if is_resident training
         then require_unload comps ''training_runtime'' ''visual_cpu_requires_training_runtime_unloaded'' empty_plan
         else empty_plan)
      else if requested = ''training_runtime'' then
        ensure_vram_for_runtime comps gpu_free ''training_runtime'' [''vision_llm'', ''visual_gpu'', ''text_llm'']
          (require_unload comps ''text_llm'' ''training_runtime_requires_text_llm_unloaded''
            (require_unload comps ''vision_llm'' ''training_runtime_requires_vision_llm_unloaded''
              (require_unload comps ''visual_cpu'' ''training_runtime_requires_visual_cpu_unloaded''
                (require_unload comps ''visual_gpu'' ''training_runtime_requires_visual_gpu_unloaded'' empty_plan))))
      else empty_plan)"

record sched_decision =
  sd_decision :: string
  sd_component_id :: string
  sd_importance :: string
  sd_reason :: string
  sd_reasons :: "string list option"
  sd_affected_components :: "string list"
  sd_actions :: "sched_action list"

definition has_verb :: "sched_verb \<Rightarrow> sched_action list \<Rightarrow> bool" where
  "has_verb verb actions = list_ex (\<lambda>a. act_action a = verb) actions"

definition plan_decision :: "sched_action list \<Rightarrow> string" where
  "plan_decision actions =
     (if has_verb Wait_for_idle actions then ''waiting_for_idle''
      else if has_verb Wait_for_resources actions then ''insufficient_resources''
      else if has_verb Queue_background actions then ''blocked''
      else if has_verb Unload actions then ''needs_unload''
      else ''allowed'')"

definition scheduler_priority :: "string \<Rightarrow> nat" where
  "scheduler_priority item = (case map_of LOCAL_SCHEDULER_PRIORITY item of Some n \<Rightarrow> n | None \<Rightarrow> 999)"

definition plan_local_scheduler_request :: "pyval \<Rightarrow> pyval \<Rightarrow> pyval \<Rightarrow> sched_decision" where
  "plan_local_scheduler_request scheduler_status component_id importance =
     (let requested = norm_string component_id; comps = components_by_id scheduler_status
      in case map_of LOCAL_SCHEDULER_PRIORITY requested of
           None \<Rightarrow>
             \<lparr>sd_decision = ''blocked'', sd_component_id = requested,
              sd_importance = normalize_scheduler_importance importance,
              sd_reason = ''unknown_component'', sd_reasons = None,
              sd_affected_components = [], sd_actions = []\<rparr>
         | Some _ \<Rightarrow>
             let pl = component_plan comps (gpu_free_mib scheduler_status) requested;
                 decision = plan_decision (pl_actions pl);
                 reasons = (if decision = ''allowed'' then pl_reasons pl @ [''compatible''] else pl_reasons pl)
             in \<lparr>sd_decision = decision, sd_component_id = requested,
                 sd_importance = normalize_scheduler_importance importance,
                 sd_reason = (if reasons \<noteq> [] then hd reasons else ''compatible''),
                 sd_reasons = Some reasons,
                 sd_affected_components = sort_key scheduler_priority (remdups (pl_affected pl)),
                 sd_actions = pl_actions pl\<rparr>)"

section \<open>What every plan satisfies\<close>

text \<open>
  A plan touches resident components only, unloads none that is busy, and names as affected
  exactly the components it unloads or waits for; the bulk of the policy is built from steps that
  keep this.
\<close>

definition plan_ok :: "components \<Rightarrow> plan \<Rightarrow> bool" where
  "plan_ok comps pl =
     ((\<forall>c\<in>set (pl_affected pl). is_resident (component_of comps c)) \<and>
      set (pl_affected pl) =
        set (map act_component_id (filter (\<lambda>a. act_action a \<in> {Wait_for_idle, Unload}) (pl_actions pl))) \<and>
      (\<forall>a\<in>set (pl_actions pl). act_action a \<noteq> Queue_background \<and>
         (act_action a = Unload \<longrightarrow> \<not> is_busy (component_of comps (act_component_id a)))))"

lemma plan_ok_empty [simp]: "plan_ok comps empty_plan"
  by (simp add: plan_ok_def empty_plan_def)

lemma plan_ok_add_reason [simp]: "plan_ok comps (add_reason r pl) = plan_ok comps pl"
  by (simp add: plan_ok_def add_reason_def)

lemma plan_ok_wait:
  "plan_ok comps pl \<Longrightarrow> is_resident (component_of comps c) \<Longrightarrow> plan_ok comps (add_step Wait_for_idle c r s pl)"
  by (auto simp: plan_ok_def add_step_def)

lemma plan_ok_unload:
  "plan_ok comps pl \<Longrightarrow> is_resident (component_of comps c) \<Longrightarrow> \<not> is_busy (component_of comps c) \<Longrightarrow>
     plan_ok comps (add_step Unload c r s pl)"
  by (auto simp: plan_ok_def add_step_def)

lemma plan_ok_require_unload: "plan_ok comps pl \<Longrightarrow> plan_ok comps (require_unload comps c r pl)"
  by (auto simp: require_unload_def intro: plan_ok_wait plan_ok_unload)

lemma plan_ok_free_vram:
  "free_vram comps rt req cs (f, pl) = (f', pl') \<Longrightarrow> plan_ok comps pl \<Longrightarrow> plan_ok comps pl'"
proof (induction cs arbitrary: f pl)
  case (Cons c cs)
  then show ?case
    using plan_ok_require_unload [OF Cons.prems(2)] by (auto simp: Let_def split: if_splits)
qed simp

lemma plan_ok_resources:
  "plan_ok comps pl \<Longrightarrow> act_action a = Wait_for_resources \<Longrightarrow>
     plan_ok comps \<lparr>pl_affected = pl_affected pl, pl_actions = pl_actions pl @ [a], pl_reasons = rs\<rparr>"
  by (auto simp: plan_ok_def)

lemma plan_ok_ensure_vram:
  "plan_ok comps pl \<Longrightarrow> plan_ok comps (ensure_vram_for_runtime comps free rt cs pl)"
  by (auto simp: ensure_vram_for_runtime_def Let_def intro!: plan_ok_resources
      dest: plan_ok_free_vram split: option.splits prod.splits)

lemma plan_ok_wait_for_visual: "plan_ok comps pl \<Longrightarrow> plan_ok comps (wait_for_visual comps c pl)"
  by (auto simp: wait_for_visual_def intro: plan_ok_wait)

lemmas plan_ok_steps = plan_ok_require_unload plan_ok_ensure_vram plan_ok_wait_for_visual plan_ok_wait

lemma plan_ok_component_plan: "plan_ok comps (component_plan comps free requested)"
  by (simp add: component_plan_def Let_def plan_ok_steps)

section \<open>When a plan is empty\<close>

definition no_actions :: "plan \<Rightarrow> bool" where
  "no_actions pl = (pl_actions pl = [] \<and> pl_affected pl = [])"

lemma no_actions_empty [simp]: "no_actions empty_plan"
  by (simp add: no_actions_def empty_plan_def)

lemma no_actions_add_step [simp]: "\<not> no_actions (add_step v c r s pl)"
  by (simp add: no_actions_def add_step_def)

lemma no_actions_require_unload [simp]:
  "no_actions (require_unload comps c r pl) \<longleftrightarrow> no_actions pl \<and> \<not> is_resident (component_of comps c)"
  by (auto simp: require_unload_def) (auto simp: no_actions_def)

lemma no_actions_wait_for_visual [simp]:
  "no_actions (wait_for_visual comps c pl) \<longleftrightarrow> no_actions pl \<and> \<not> is_resident (component_of comps c)"
  by (auto simp: wait_for_visual_def)

lemma free_vram_no_actions:
  "free_vram comps rt req cs (f, pl) = (f', pl') \<Longrightarrow> no_actions pl' \<Longrightarrow> no_actions pl \<and> f' = f"
proof (induction cs arbitrary: f pl)
  case (Cons c cs)
  then show ?case
    by (fastforce simp: Let_def no_actions_def require_unload_def add_step_def split: if_splits)
qed simp

lemma no_actions_ensure_vram:
  assumes "map_of LOCAL_SCHEDULER_RESERVED_VRAM_MIB rt = Some req"
  shows "no_actions (ensure_vram_for_runtime comps free rt cs pl) \<longleftrightarrow>
           no_actions pl \<and> (free = None \<or> (\<exists>f. free = Some f \<and> of_int req \<le> f))"
proof (cases free)
  case None
  then show ?thesis using assms by (simp add: ensure_vram_for_runtime_def add_reason_def no_actions_def)
next
  case (Some f)
  show ?thesis
  proof (cases "of_int req \<le> f")
    case True
    then show ?thesis
      using assms Some by (simp add: ensure_vram_for_runtime_def add_reason_def no_actions_def)
  next
    case False
    obtain f' pl' where fv: "free_vram comps rt (of_int req) cs (f, pl) = (f', pl')" by fastforce
    have "\<not> no_actions pl'" if "\<not> f' < of_int req"
      using free_vram_no_actions [OF fv] that False by auto
    then show ?thesis
      using assms Some False fv by (auto simp: ensure_vram_for_runtime_def no_actions_def)
  qed
qed

lemma plan_decision_allowed:
  assumes "plan_ok comps pl"
  shows "plan_decision (pl_actions pl) = ''allowed'' \<longleftrightarrow> no_actions pl"
proof -
  have "act_action a = Wait_for_idle \<or> act_action a = Unload \<or> act_action a = Wait_for_resources"
    if "a \<in> set (pl_actions pl)" for a
    using assms that by (cases "act_action a") (auto simp: plan_ok_def)
  then have "plan_decision (pl_actions pl) = ''allowed'' \<longleftrightarrow> pl_actions pl = []"
    by (cases "pl_actions pl") (auto simp: plan_decision_def has_verb_def list_ex_iff)
  moreover have "pl_actions pl = [] \<Longrightarrow> pl_affected pl = []"
    using assms by (auto simp: plan_ok_def)
  ultimately show ?thesis by (auto simp: no_actions_def)
qed

definition known_plan :: "plan \<Rightarrow> bool" where
  "known_plan pl = (set (pl_affected pl) \<subseteq> set LOCAL_SCHEDULER_PRIORITY_ORDER)"

lemma known_plan_empty: "known_plan empty_plan"
  by (simp add: known_plan_def empty_plan_def)

lemma known_plan_add_step:
  "known_plan pl \<Longrightarrow> c \<in> set LOCAL_SCHEDULER_PRIORITY_ORDER \<Longrightarrow> known_plan (add_step v c r s pl)"
  by (simp add: known_plan_def add_step_def)

lemma known_plan_require_unload:
  "known_plan pl \<Longrightarrow> c \<in> set LOCAL_SCHEDULER_PRIORITY_ORDER \<Longrightarrow> known_plan (require_unload comps c r pl)"
  by (simp add: require_unload_def known_plan_add_step)

lemma known_plan_wait_for_visual:
  "known_plan pl \<Longrightarrow> c \<in> set LOCAL_SCHEDULER_PRIORITY_ORDER \<Longrightarrow> known_plan (wait_for_visual comps c pl)"
  by (simp add: wait_for_visual_def known_plan_add_step)

lemma known_plan_free_vram:
  "free_vram comps rt req cs (f, pl) = (f', pl') \<Longrightarrow> set cs \<subseteq> set LOCAL_SCHEDULER_PRIORITY_ORDER \<Longrightarrow>
     known_plan pl \<Longrightarrow> known_plan pl'"
proof (induction cs arbitrary: f pl)
  case (Cons c cs)
  then show ?case
    using known_plan_require_unload [OF Cons.prems(3), of c] by (auto simp: Let_def split: if_splits)
qed simp

lemma known_plan_ensure_vram:
  assumes "known_plan pl" and "set cs \<subseteq> set LOCAL_SCHEDULER_PRIORITY_ORDER"
  shows "known_plan (ensure_vram_for_runtime comps free rt cs pl)"
proof -
  have "known_plan (snd (free_vram comps rt req cs (f, pl)))" for req f
    using known_plan_free_vram [OF _ assms(2,1)] by (metis prod.collapse)
  then show ?thesis
    using assms(1) by (simp add: ensure_vram_for_runtime_def add_reason_def known_plan_def Let_def split_beta
        split: option.splits)
qed

lemmas known_plan_steps = known_plan_empty known_plan_add_step known_plan_require_unload
  known_plan_wait_for_visual known_plan_ensure_vram

lemma plan_affected_known: "known_plan (component_plan comps free requested)"
proof -
  have "{''text_llm'', ''vision_llm'', ''visual_gpu'', ''visual_cpu'', ''training_runtime''}
      \<subseteq> set LOCAL_SCHEDULER_PRIORITY_ORDER"
    by (simp add: LOCAL_SCHEDULER_PRIORITY_ORDER_def)
  then show ?thesis
    by (simp add: component_plan_def Let_def known_plan_steps)
qed

lemma reserved_vram:
  "map_of LOCAL_SCHEDULER_RESERVED_VRAM_MIB ''visual_gpu'' = Some 5120"
  "map_of LOCAL_SCHEDULER_RESERVED_VRAM_MIB ''training_runtime'' = Some 9216"
  by (simp_all add: LOCAL_SCHEDULER_RESERVED_VRAM_MIB_def)

definition fits :: "pyval \<Rightarrow> rat \<Rightarrow> bool" where
  "fits status required = (case gpu_free_mib status of None \<Rightarrow> True | Some free \<Rightarrow> required \<le> free)"

lemma fits_iff: "fits status r \<longleftrightarrow> gpu_free_mib status = None \<or> (\<exists>f. gpu_free_mib status = Some f \<and> r \<le> f)"
  by (auto simp: fits_def split: option.splits)

lemma known_iff: "map_of LOCAL_SCHEDULER_PRIORITY c = None \<longleftrightarrow> c \<notin> set LOCAL_SCHEDULER_PRIORITY_ORDER"
proof -
  have "map fst LOCAL_SCHEDULER_PRIORITY = LOCAL_SCHEDULER_PRIORITY_ORDER" by code_simp
  then show ?thesis by (metis map_of_eq_None_iff set_map)
qed

lemma component_cases:
  assumes "map_of LOCAL_SCHEDULER_PRIORITY c \<noteq> None"
  shows "c = ''text_llm'' \<or> c = ''vision_llm'' \<or> c = ''visual_gpu'' \<or> c = ''visual_cpu'' \<or> c = ''training_runtime''"
  using assms unfolding known_iff LOCAL_SCHEDULER_PRIORITY_ORDER_def
  by (simp only: list.set insert_iff empty_iff not_not simp_thms)

lemma component_cases_conv:
  "c = ''text_llm'' \<or> c = ''vision_llm'' \<or> c = ''visual_gpu'' \<or> c = ''visual_cpu'' \<or> c = ''training_runtime'' \<Longrightarrow>
     map_of LOCAL_SCHEDULER_PRIORITY c \<noteq> None"
  unfolding known_iff LOCAL_SCHEDULER_PRIORITY_ORDER_def
  by (simp only: list.set insert_iff empty_iff not_not simp_thms)

lemma decision_allowed_iff:
  "sd_decision (plan_local_scheduler_request status cid imp) = ''allowed'' \<longleftrightarrow>
     map_of LOCAL_SCHEDULER_PRIORITY (norm_string cid) \<noteq> None \<and>
     no_actions (component_plan (components_by_id status) (gpu_free_mib status) (norm_string cid))"
  by (auto simp: plan_local_scheduler_request_def Let_def
      plan_decision_allowed [OF plan_ok_component_plan] split: option.splits)

section \<open>Properties\<close>

text \<open>
  The exact admission rule: a component is allowed to start if and only if it is a known
  one, no runtime it conflicts with is resident, and, for the two runtimes that reserve video
  memory, the free memory is unknown or covers the reservation.
\<close>

theorem scheduler_allowed_exact:
  "let resident = (\<lambda>c. is_resident (component_of (components_by_id status) c));
       busy = (\<lambda>c. is_busy (component_of (components_by_id status) c))
   in sd_decision (plan_local_scheduler_request status cid imp) = ''allowed'' \<longleftrightarrow>
    norm_string cid = ''text_llm'' \<and> \<not> resident ''visual_gpu'' \<and> \<not> resident ''visual_cpu''
      \<and> \<not> (resident ''training_runtime'' \<and> busy ''training_runtime'')
    \<or> norm_string cid = ''vision_llm'' \<and> \<not> resident ''visual_gpu'' \<and> \<not> resident ''visual_cpu''
      \<and> \<not> resident ''training_runtime''
    \<or> norm_string cid = ''visual_gpu'' \<and> \<not> resident ''training_runtime'' \<and> fits status 5120
    \<or> norm_string cid = ''visual_cpu'' \<and> \<not> resident ''training_runtime''
    \<or> norm_string cid = ''training_runtime'' \<and> \<not> resident ''visual_gpu'' \<and> \<not> resident ''visual_cpu''
      \<and> \<not> resident ''vision_llm'' \<and> \<not> resident ''text_llm'' \<and> fits status 9216"
proof -
  let ?c = "norm_string cid"
  have known: "map_of LOCAL_SCHEDULER_PRIORITY ?c \<noteq> None \<longleftrightarrow>
      ?c = ''text_llm'' \<or> ?c = ''vision_llm'' \<or> ?c = ''visual_gpu'' \<or> ?c = ''visual_cpu'' \<or> ?c = ''training_runtime''"
    using component_cases component_cases_conv by (rule iffI)
  show ?thesis
    unfolding decision_allowed_iff known Let_def
    by (simp add: component_plan_def Let_def
        no_actions_ensure_vram [OF reserved_vram(1)] no_actions_ensure_vram [OF reserved_vram(2)] fits_iff)
qed

text \<open>
  What a decision asks for is safe to do: the affected components are known, listed once and
  in priority order, and all of them are resident; only components that are not busy are
  unloaded; the affected ones are exactly those unloaded or waited for; and the decision is the
  most restrictive of the actions.
\<close>

theorem scheduler_actions_sound:
  assumes "r = plan_local_scheduler_request status cid imp"
  shows "distinct (sd_affected_components r)
    \<and> sorted (map scheduler_priority (sd_affected_components r))
    \<and> set (sd_affected_components r) \<subseteq> set LOCAL_SCHEDULER_PRIORITY_ORDER
    \<and> (\<forall>c\<in>set (sd_affected_components r). is_resident (component_of (components_by_id status) c))
    \<and> set (sd_affected_components r) =
        set (map act_component_id (filter (\<lambda>a. act_action a \<in> {Wait_for_idle, Unload}) (sd_actions r)))
    \<and> (\<forall>a\<in>set (sd_actions r). act_action a = Unload \<longrightarrow>
          \<not> is_busy (component_of (components_by_id status) (act_component_id a)))
    \<and> (map_of LOCAL_SCHEDULER_PRIORITY (norm_string cid) \<noteq> None \<longrightarrow>
         sd_decision r = plan_decision (sd_actions r) \<and> sd_decision r \<noteq> ''blocked'')"
proof (cases "map_of LOCAL_SCHEDULER_PRIORITY (norm_string cid)")
  case None
  then show ?thesis by (simp add: assms plan_local_scheduler_request_def)
next
  case (Some n)
  let ?comps = "components_by_id status"
  let ?pl = "component_plan ?comps (gpu_free_mib status) (norm_string cid)"
  have ok: "plan_ok ?comps ?pl" by (rule plan_ok_component_plan)
  have aff: "sd_affected_components r = sort_key scheduler_priority (remdups (pl_affected ?pl))"
    and act: "sd_actions r = pl_actions ?pl"
    and dec: "sd_decision r = plan_decision (pl_actions ?pl)"
    using Some by (simp_all add: assms plan_local_scheduler_request_def Let_def)
  have "\<not> has_verb Queue_background (pl_actions ?pl)"
    using ok by (auto simp: plan_ok_def has_verb_def list_ex_iff)
  then have "plan_decision (pl_actions ?pl) \<noteq> ''blocked''"
    by (simp add: plan_decision_def)
  with ok plan_affected_known [of ?comps "gpu_free_mib status" "norm_string cid"] show ?thesis
    unfolding aff act dec plan_ok_def known_plan_def by simp
qed

definition training_status :: pyval where
  "training_status =
     PDict [(''gpu_resources'', PDict [(''memory_free_mib'', PInt 12000)]),
            (''components'', PList
              [PDict [(''component_id'', PStr ''vision_llm''), (''model_state'', PStr ''unloaded'')],
               PDict [(''component_id'', PStr ''text_llm''), (''model_state'', PStr ''loaded'')]])]"

theorem scheduler_actions_sound_witness:
  "list_all (\<lambda>c. is_resident (component_of (components_by_id training_status) c))
     (sd_affected_components (plan_local_scheduler_request training_status (PStr ''training_runtime'') PNone)) \<and>
   sd_affected_components (plan_local_scheduler_request training_status (PStr ''training_runtime'') PNone) = [''text_llm'']"
proof (intro conjI)
  show "list_all (\<lambda>c. is_resident (component_of (components_by_id training_status) c))
     (sd_affected_components (plan_local_scheduler_request training_status (PStr ''training_runtime'') PNone))"
    using scheduler_actions_sound [OF refl, of training_status "PStr ''training_runtime''" PNone]
    unfolding list_all_iff by blast
qed code_simp

text \<open>
  Training unloads the text model even when its whole reservation is free, although the
  policy payload states that the text model unloads only as a last resort, when the requested
  runtime still cannot fit.
\<close>

theorem training_unloads_text_with_free_vram:
  "\<exists>status free. gpu_free_mib status = Some free \<and>
     map_of LOCAL_SCHEDULER_RESERVED_VRAM_MIB ''training_runtime'' = Some 9216 \<and> 9216 \<le> free \<and>
     sd_decision (plan_local_scheduler_request status (PStr ''training_runtime'') PNone) = ''needs_unload'' \<and>
     sd_affected_components (plan_local_scheduler_request status (PStr ''training_runtime'') PNone) = [''text_llm'']"
proof (intro exI conjI)
  show "gpu_free_mib training_status = Some 12000" by code_simp
  show "sd_decision (plan_local_scheduler_request training_status (PStr ''training_runtime'') PNone) = ''needs_unload''"
    by code_simp
  show "sd_affected_components (plan_local_scheduler_request training_status (PStr ''training_runtime'') PNone) =
      [''text_llm'']"
    by code_simp
qed (simp_all add: reserved_vram)

end
