(* ===== verification/Budget.thy ===== *)
theory Budget
  imports Prelude
begin

text \<open>
  \<open>runtime/budget_manager.py\<close> and \<open>persistence/budget_state_store.py\<close>: the budget
  reservations an execution takes before it runs and settles afterwards.

  The persisted state is a record: what the store's validation demands of a usage entry (integer
  counters, a dict of reservations) is in the types, the rest in \<open>validate_budget_state\<close>.
  A policy stays a \<open>pyval\<close>, as it comes from the core. Amounts in US dollars are exact
  rationals: the rounding of binary floating point is not modelled, the decimal rounding the code
  asks for is. An operation reads the clock once. What the manager reads of its surroundings (the
  clock, the bounds of the current budget period, the configured provider limits, the model
  registry's prices) is a \<open>budget_env\<close>, and a call of the notification service is an
  element of a list of notices.
\<close>

section \<open>The state\<close>

record reservation =
  rv_reservation_id :: string
  rv_task_id :: string
  rv_reserved_cost_cents :: int
  rv_provider_id :: string
  rv_model_id :: string
  rv_created_at :: string

record grant_usage =
  gu_grant_id :: string
  gu_period_start :: pyval
  gu_period_end :: pyval
  gu_used_cost_cents :: int
  gu_used_requests :: int
  gu_used_tokens :: int
  gu_reserved_cost_cents :: int
  gu_reservations :: "(string \<times> reservation) list"
  gu_updated_at :: string

record provider_usage =
  pu_provider_id :: string
  pu_period :: string
  pu_period_start :: string
  pu_period_end :: string
  pu_budget_limit_cents :: int
  pu_used_cost_cents :: int
  pu_used_cost_usd_exact :: rat
  pu_reserved_cost_cents :: int
  pu_reservations :: "(string \<times> reservation) list"
  pu_updated_at :: string

record denial =
  dn_task_id :: string
  dn_reason :: string
  dn_provider_id :: "string option"
  dn_requested_by :: "string option"
  dn_customer_id :: "string option"
  dn_recorded_at :: string

record usage_summary =
  us_grant_id :: string
  us_service :: string
  us_period_start :: pyval
  us_period_end :: pyval
  us_used_requests :: int
  us_used_tokens :: int
  us_used_cost_cents :: int
  us_queued_at :: string

record notification_flags =
  nf_period_started_notified :: bool
  nf_threshold_90_notified :: bool

record budget_state =
  bs_schema_version :: string
  bs_budget_policy :: pyval
  bs_grant_usage :: "(string \<times> grant_usage) list"
  bs_provider_budget_usage :: "(string \<times> provider_usage) list"
  bs_recent_denials :: "denial list"
  bs_pending_usage_summaries :: "usage_summary list"
  bs_provider_budget_notifications :: "(string \<times> notification_flags) list"
  bs_updated_at :: string

datatype notice =
    Period_started string string
  | Threshold_90 string string
  | Budget_denied string string

record pricing =
  pr_pricing_input :: "rat option"
  pr_cached_pricing_input :: "rat option"
  pr_pricing_output :: "rat option"

record budget_env =
  be_now :: int
  be_now_iso :: string
  be_time :: time_env
  be_period_window :: "string \<Rightarrow> string \<times> string"
  be_budget_limits :: pydict
  be_get_model :: "string \<Rightarrow> string \<Rightarrow> pricing option"

record budget_request =
  br_service_id :: pyval
  br_requested_by :: pyval
  br_customer_id :: pyval
  br_requested_model :: pyval
  br_constraints :: pyval
  br_inputs :: pyval

record exec_metrics =
  em_estimated_cost :: "rat option"
  em_total_tokens :: int

section \<open>Validation\<close>

definition is_non_empty_string :: "pyval \<Rightarrow> bool" where
  "is_non_empty_string v = (case v of PStr s \<Rightarrow> py_strip s \<noteq> [] | _ \<Rightarrow> False)"

definition nonblank :: "string \<Rightarrow> bool" where
  "nonblank s = (py_strip s \<noteq> [])"

text \<open>The message of the first check that fails.\<close>

fun first_error :: "(bool \<times> string) list \<Rightarrow> string option" where
  "first_error [] = None"
| "first_error ((ok, msg) # rest) = (if ok then first_error rest else Some msg)"

fun first_of :: "string option list \<Rightarrow> string option" where
  "first_of [] = None"
| "first_of (None # rest) = first_of rest"
| "first_of (Some msg # rest) = Some msg"

definition create_budget_state :: "string \<Rightarrow> budget_state" where
  "create_budget_state now_iso =
     \<lparr>bs_schema_version = ''1.0'', bs_budget_policy = PNone, bs_grant_usage = [],
      bs_provider_budget_usage = [], bs_recent_denials = [], bs_pending_usage_summaries = [],
      bs_provider_budget_notifications = [], bs_updated_at = now_iso\<rparr>"

definition validate_grant :: "nat \<Rightarrow> pyval \<Rightarrow> string option" where
  "validate_grant index grant =
     (case grant of
        PDict g \<Rightarrow>
          first_error
            (map (\<lambda>f. (is_non_empty_string (dget g f), ''invalid_budget_policy_grant_'' @ f @ '':'' @ nat_text index))
               [''grant_id'', ''consumer_node_id'', ''service'', ''period_start'', ''period_end'', ''status'',
                ''scope_kind'', ''subject_id'', ''governance_version'', ''budget_policy_version'', ''issued_at'']
             @ [(dget g ''status'' \<in> {PStr ''active'', PStr ''expired''},
                 ''invalid_budget_policy_grant_status:'' @ nat_text index),
                (dget g ''scope_kind'' \<in> {PStr ''node'', PStr ''customer'', PStr ''service'', PStr ''provider''},
                 ''invalid_budget_policy_grant_scope_kind:'' @ nat_text index),
                (dget g ''limits'' = PNone \<or> is_dict (dget g ''limits''),
                 ''invalid_budget_policy_grant_limits:'' @ nat_text index),
                (dget g ''metadata'' = PNone \<or> is_dict (dget g ''metadata''),
                 ''invalid_budget_policy_grant_metadata:'' @ nat_text index)])
      | _ \<Rightarrow> Some (''invalid_budget_policy_grant:'' @ nat_text index))"

fun validate_grants :: "nat \<Rightarrow> pyval list \<Rightarrow> string option" where
  "validate_grants index [] = None"
| "validate_grants index (grant # rest) =
     (case validate_grant index grant of Some e \<Rightarrow> Some e | None \<Rightarrow> validate_grants (Suc index) rest)"

definition validate_budget_policy :: "pyval \<Rightarrow> string option" where
  "validate_budget_policy policy =
     (case policy of
        PNone \<Rightarrow> None
      | PDict p \<Rightarrow>
          let fields = [''node_id'', ''service'', ''status'', ''governance_version''] @
                (if norm_string (dget p ''status'') \<noteq> ''not_configured''
                 then [''budget_policy_version'', ''period_start'', ''period_end'', ''issued_at''] else [])
          in (case first_error (map (\<lambda>f. (is_non_empty_string (dget p f), ''invalid_budget_policy_'' @ f)) fields) of
                Some e \<Rightarrow> Some e
              | None \<Rightarrow>
                  (case dget p ''grants'' of
                     PList grants \<Rightarrow> validate_grants 0 grants
                   | _ \<Rightarrow> Some ''invalid_budget_policy_grants''))
      | _ \<Rightarrow> Some ''invalid_budget_policy'')"

definition validate_reservation :: "string \<Rightarrow> string \<times> reservation \<Rightarrow> string option" where
  "validate_reservation prefix kr =
     first_error
       [(nonblank (fst kr), prefix @ ''_reservation_entry''),
        (nonblank (rv_reservation_id (snd kr)), prefix @ ''_reservation_reservation_id''),
        (nonblank (rv_task_id (snd kr)), prefix @ ''_reservation_task_id''),
        (nonblank (rv_created_at (snd kr)), prefix @ ''_reservation_created_at''),
        (0 \<le> rv_reserved_cost_cents (snd kr), prefix @ ''_reservation_reserved_cost_cents'')]"

definition validate_grant_usage :: "string \<times> grant_usage \<Rightarrow> string option" where
  "validate_grant_usage ku =
     (let u = snd ku
      in first_of
        (first_error
           [(nonblank (fst ku), ''invalid_grant_usage_entry''),
            (nonblank (gu_grant_id u), ''invalid_grant_usage_grant_id''),
            (is_non_empty_string (gu_period_start u), ''invalid_grant_usage_period_start''),
            (is_non_empty_string (gu_period_end u), ''invalid_grant_usage_period_end''),
            (nonblank (gu_updated_at u), ''invalid_grant_usage_updated_at''),
            (0 \<le> gu_used_cost_cents u, ''invalid_grant_usage_used_cost_cents''),
            (0 \<le> gu_used_requests u, ''invalid_grant_usage_used_requests''),
            (0 \<le> gu_used_tokens u, ''invalid_grant_usage_used_tokens''),
            (0 \<le> gu_reserved_cost_cents u, ''invalid_grant_usage_reserved_cost_cents'')]
         # map (validate_reservation ''invalid_grant_usage'') (gu_reservations u)))"

definition validate_provider_usage :: "string \<times> provider_usage \<Rightarrow> string option" where
  "validate_provider_usage ku =
     (let u = snd ku
      in first_of
        (first_error
           [(nonblank (fst ku), ''invalid_provider_budget_usage_entry''),
            (nonblank (pu_provider_id u), ''invalid_provider_budget_usage_provider_id''),
            (nonblank (pu_period u), ''invalid_provider_budget_usage_period''),
            (nonblank (pu_period_start u), ''invalid_provider_budget_usage_period_start''),
            (nonblank (pu_period_end u), ''invalid_provider_budget_usage_period_end''),
            (nonblank (pu_updated_at u), ''invalid_provider_budget_usage_updated_at''),
            (0 \<le> pu_used_cost_cents u, ''invalid_provider_budget_usage_used_cost_cents''),
            (0 \<le> pu_reserved_cost_cents u, ''invalid_provider_budget_usage_reserved_cost_cents''),
            (0 \<le> pu_used_cost_usd_exact u, ''invalid_provider_budget_usage_used_cost_usd_exact'')]
         # map (validate_reservation ''invalid_provider_budget_usage'') (pu_reservations u)))"

definition validate_denial :: "denial \<Rightarrow> string option" where
  "validate_denial d =
     first_error
       [(nonblank (dn_task_id d), ''invalid_recent_denial_task_id''),
        (nonblank (dn_reason d), ''invalid_recent_denial_reason''),
        (nonblank (dn_recorded_at d), ''invalid_recent_denial_recorded_at'')]"

definition validate_summary :: "usage_summary \<Rightarrow> string option" where
  "validate_summary s =
     first_error
       [(nonblank (us_grant_id s), ''invalid_pending_usage_summary_grant_id''),
        (is_non_empty_string (us_period_start s), ''invalid_pending_usage_summary_period_start''),
        (is_non_empty_string (us_period_end s), ''invalid_pending_usage_summary_period_end''),
        (nonblank (us_service s), ''invalid_pending_usage_summary_service''),
        (nonblank (us_queued_at s), ''invalid_pending_usage_summary_queued_at'')]"

definition validate_budget_state :: "budget_state \<Rightarrow> string option" where
  "validate_budget_state st =
     first_of
       ([first_error [(py_strip (bs_schema_version st) = ''1.0'', ''invalid_schema_version'')],
         validate_budget_policy (bs_budget_policy st)]
        @ map validate_grant_usage (bs_grant_usage st)
        @ map validate_provider_usage (bs_provider_budget_usage st)
        @ map validate_denial (bs_recent_denials st)
        @ map validate_summary (bs_pending_usage_summaries st)
        @ [first_error [(nonblank (bs_updated_at st), ''invalid_updated_at'')]])"

text \<open>\<open>_save_state\<close> followed by \<open>BudgetStateStore.save\<close>: the stored state is replaced,
  or the call raises and it stays.\<close>

definition save_state :: "budget_env \<Rightarrow> budget_state \<Rightarrow> budget_state result" where
  "save_state E st =
     (let st' = st\<lparr>bs_updated_at := be_now_iso E\<rparr>
      in case validate_budget_state st' of
           None \<Rightarrow> Inr st'
         | Some e \<Rightarrow> Inl (ValueError (''cannot save invalid budget state: '' @ e)))"

section \<open>Costs\<close>

definition normalize_int :: "int \<Rightarrow> pyval \<Rightarrow> int" where
  "normalize_int d v = (case py_int v of Inr i \<Rightarrow> i | Inl _ \<Rightarrow> d)"

definition text_length :: "pyval \<Rightarrow> int" where
  "text_length v = (case v of PStr s \<Rightarrow> int (length s) | _ \<Rightarrow> 0)"

definition message_length :: "pyval \<Rightarrow> int" where
  "message_length item =
     (case item of PDict d \<Rightarrow> int (length (str_or (dget d ''content'') '''')) | _ \<Rightarrow> 0)"

definition estimate_input_tokens :: "pydict \<Rightarrow> int" where
  "estimate_input_tokens inputs =
     (let total_chars =
            sum_list (map (\<lambda>k. text_length (dget inputs k))
              [''prompt'', ''text'', ''content'', ''body'', ''subject'', ''system_prompt'']) +
            sum_list (map message_length (as_list (dget inputs ''messages'')))
      in max \<lceil>(of_int total_chars :: rat) / 4\<rceil> 0)"

definition price_or :: "rat option \<Rightarrow> rat \<Rightarrow> rat" where
  "price_or p d = (case p of Some x \<Rightarrow> if x \<noteq> 0 then x else d | None \<Rightarrow> d)"

definition estimate_model_cost_cents :: "budget_env \<Rightarrow> budget_request \<Rightarrow> string \<Rightarrow> string \<Rightarrow> int" where
  "estimate_model_cost_cents E req provider_id model_id =
     (case be_get_model E provider_id model_id of
        None \<Rightarrow> 0
      | Some model \<Rightarrow>
          let inputs = as_dict (br_inputs req);
              input_tokens = estimate_input_tokens inputs;
              output_tokens = normalize_int 512 (dget inputs ''max_tokens'');
              input_price = price_or (pr_pricing_input model) (price_or (pr_cached_pricing_input model) 0);
              output_price = price_or (pr_pricing_output model) 0;
              estimated_usd = (of_int input_tokens * input_price + of_int output_tokens * output_price) / 1000000
          in max \<lceil>estimated_usd * 100\<rceil> 0)"

definition parse_iso :: "time_env \<Rightarrow> pyval \<Rightarrow> datetime option" where
  "parse_iso T v =
     (let txt = norm_string v
      in if txt = [] then None
         else fromisoformat T (concat (map (\<lambda>c. if c = CHR ''Z'' then ''+00:00'' else [c]) txt)))"

text \<open>\<open>now < start\<close> and \<open>now > end\<close>: \<open>now\<close> has an offset, so a datetime without one cannot
  be compared with it.\<close>

definition instant_test :: "(int \<Rightarrow> bool) \<Rightarrow> datetime option \<Rightarrow> bool result" where
  "instant_test test d =
     (case d of None \<Rightarrow> Inr False | Some (Aware t) \<Rightarrow> Inr (test t) | Some (Naive _) \<Rightarrow> Inl TypeError)"

definition outside_period :: "budget_env \<Rightarrow> pydict \<Rightarrow> bool result" where
  "outside_period E grant =
     ebind (instant_test (\<lambda>t. be_now E < t) (parse_iso (be_time E) (dget grant ''period_start''))) (\<lambda>early.
       if early then Inr True
       else instant_test (\<lambda>t. t < be_now E) (parse_iso (be_time E) (dget grant ''period_end'')))"

definition grant_matches :: "budget_request \<Rightarrow> string \<Rightarrow> pydict \<Rightarrow> bool" where
  "grant_matches req provider_id grant =
     (let service_id = norm_string (py_or (br_service_id req) (br_requested_by req));
          customer_id = norm_string (br_customer_id req);
          provider_key = py_strip provider_id;
          model_key = norm_string (br_requested_model req);
          service = norm_string (dget grant ''service'');
          metadata = as_dict (dget grant ''metadata'');
          grant_provider = norm_string (dget metadata ''provider_id'');
          grant_model = norm_string (dget metadata ''model_id'');
          scope_kind = py_lower (norm_string (dget grant ''scope_kind''));
          subject_id = norm_string (dget grant ''subject_id'')
      in \<not> (service_id \<noteq> [] \<and> service \<noteq> [] \<and> service \<noteq> service_id)
         \<and> \<not> (grant_provider \<noteq> [] \<and> provider_key \<noteq> [] \<and> grant_provider \<noteq> provider_key)
         \<and> \<not> (grant_model \<noteq> [] \<and> model_key \<noteq> [] \<and> grant_model \<noteq> model_key)
         \<and> (scope_kind = ''node''
            \<or> scope_kind = ''customer'' \<and> customer_id \<noteq> [] \<and> subject_id = customer_id
            \<or> scope_kind = ''provider'' \<and> provider_key \<noteq> [] \<and> subject_id = provider_key))"

fun applicable_grants_in :: "budget_env \<Rightarrow> budget_request \<Rightarrow> string \<Rightarrow> pyval list \<Rightarrow> pydict list result" where
  "applicable_grants_in E req provider_id [] = Inr []"
| "applicable_grants_in E req provider_id (PDict grant # rest) =
     (if py_lower (norm_string (dget grant ''status'')) \<noteq> ''active''
      then applicable_grants_in E req provider_id rest
      else ebind (outside_period E grant) (\<lambda>out.
        if out \<or> \<not> grant_matches req provider_id grant then applicable_grants_in E req provider_id rest
        else ebind (applicable_grants_in E req provider_id rest) (\<lambda>gs. Inr (grant # gs))))"
| "applicable_grants_in E req provider_id (_ # rest) = applicable_grants_in E req provider_id rest"

definition applicable_grants :: "budget_env \<Rightarrow> pydict \<Rightarrow> budget_request \<Rightarrow> string \<Rightarrow> pydict list result" where
  "applicable_grants E policy req provider_id =
     applicable_grants_in E req provider_id (as_list (dget policy ''grants''))"

definition grant_limit :: "pydict \<Rightarrow> int" where
  "grant_limit grant = normalize_int 0 (dget (as_dict (dget grant ''limits'')) ''max_cost_cents'')"

text \<open>The configured limit of a provider, if it has one; a provider listed twice under names
  that differ in blanks keeps the last.\<close>

fun settings_onto :: "(string \<times> pydict) list \<Rightarrow> pydict \<Rightarrow> (string \<times> pydict) list" where
  "settings_onto acc [] = acc"
| "settings_onto acc ((provider_id, settings) # rest) =
     settings_onto
       (if py_strip provider_id = [] \<or> \<not> is_dict settings \<or> dget (as_dict settings) ''max_cost_cents'' = PNone
        then acc else AList.update (py_strip provider_id) (as_dict settings) acc) rest"

definition provider_budget_settings :: "budget_env \<Rightarrow> string \<Rightarrow> pydict option" where
  "provider_budget_settings E provider_id =
     (case map_of (settings_onto [] (be_budget_limits E)) (py_strip provider_id) of
        Some s \<Rightarrow> if dget s ''max_cost_cents'' \<noteq> PNone then Some s else None
      | None \<Rightarrow> None)"

definition has_any_money_limits :: "budget_env \<Rightarrow> budget_state \<Rightarrow> budget_request \<Rightarrow> string \<Rightarrow> bool result" where
  "has_any_money_limits E st req provider_id =
     (case bs_budget_policy st of
        PDict policy \<Rightarrow>
          ebind (applicable_grants E policy req provider_id) (\<lambda>applicable.
            Inr (list_ex (\<lambda>g. 0 < grant_limit g) applicable \<or> provider_budget_settings E provider_id \<noteq> None))
      | _ \<Rightarrow> Inr (provider_budget_settings E provider_id \<noteq> None))"

definition reservation_cost_cents ::
    "budget_env \<Rightarrow> budget_state \<Rightarrow> budget_request \<Rightarrow> string \<Rightarrow> string \<Rightarrow> int result" where
  "reservation_cost_cents E st req provider_id model_id =
     (let constraints = as_dict (br_constraints req);
          budgeted = dget (as_dict (dget constraints ''budget'')) ''max_cost_cents''
      in if budgeted \<noteq> PNone then Inr (max (normalize_int 0 budgeted) 0)
         else if dget constraints ''max_cost_cents'' \<noteq> PNone
         then Inr (max (normalize_int 0 (dget constraints ''max_cost_cents'')) 0)
         else if dget constraints ''max_cost_usd'' \<noteq> PNone
         then ebind (py_float (dget constraints ''max_cost_usd'')) (\<lambda>usd. Inr (max \<lceil>usd * 100\<rceil> 0))
         else ebind (has_any_money_limits E st req provider_id) (\<lambda>limited.
                Inr (max (estimate_model_cost_cents E req provider_id model_id) (if limited then 1 else 0))))"

section \<open>Usage entries\<close>

definition fresh_grant_usage :: "budget_env \<Rightarrow> pydict \<Rightarrow> grant_usage" where
  "fresh_grant_usage E grant =
     \<lparr>gu_grant_id = norm_string (dget grant ''grant_id''),
      gu_period_start = dget grant ''period_start'', gu_period_end = dget grant ''period_end'',
      gu_used_cost_cents = 0, gu_used_requests = 0, gu_used_tokens = 0, gu_reserved_cost_cents = 0,
      gu_reservations = [], gu_updated_at = be_now_iso E\<rparr>"

text \<open>\<open>_ensure_usage_entry\<close>: the entry of a grant, created when there is none and reset when the
  grant's period has changed; the id of an existing entry stays.\<close>

definition ensured_usage :: "budget_env \<Rightarrow> pydict \<Rightarrow> grant_usage option \<Rightarrow> grant_usage" where
  "ensured_usage E grant existing =
     (case existing of
        None \<Rightarrow> fresh_grant_usage E grant
      | Some u \<Rightarrow>
          if \<not> py_eq (gu_period_start u) (dget grant ''period_start'')
             \<or> \<not> py_eq (gu_period_end u) (dget grant ''period_end'')
          then (fresh_grant_usage E grant)\<lparr>gu_grant_id := gu_grant_id u\<rparr> else u)"

definition make_reservation :: "budget_env \<Rightarrow> string \<Rightarrow> string \<Rightarrow> int \<Rightarrow> string \<Rightarrow> string \<Rightarrow> reservation" where
  "make_reservation E rid task_id cents provider_id model_id =
     \<lparr>rv_reservation_id = rid, rv_task_id = task_id, rv_reserved_cost_cents = cents,
      rv_provider_id = provider_id, rv_model_id = model_id, rv_created_at = be_now_iso E\<rparr>"

definition grant_hold :: "string \<Rightarrow> string \<Rightarrow> reservation \<Rightarrow> grant_usage \<Rightarrow> grant_usage" where
  "grant_hold now_iso rid rv u =
     u\<lparr>gu_reservations := AList.update rid rv (gu_reservations u),
       gu_reserved_cost_cents := gu_reserved_cost_cents u + rv_reserved_cost_cents rv,
       gu_updated_at := now_iso\<rparr>"

definition grant_drop :: "string \<Rightarrow> string \<Rightarrow> grant_usage \<Rightarrow> grant_usage" where
  "grant_drop now_iso rid u =
     (case map_of (gu_reservations u) rid of
        None \<Rightarrow> u
      | Some rv \<Rightarrow>
          u\<lparr>gu_reservations := AList.delete rid (gu_reservations u),
            gu_reserved_cost_cents := max (gu_reserved_cost_cents u - rv_reserved_cost_cents rv) 0,
            gu_updated_at := now_iso\<rparr>)"

definition provider_hold :: "string \<Rightarrow> string \<Rightarrow> reservation \<Rightarrow> provider_usage \<Rightarrow> provider_usage" where
  "provider_hold now_iso rid rv u =
     u\<lparr>pu_reservations := AList.update rid rv (pu_reservations u),
       pu_reserved_cost_cents := pu_reserved_cost_cents u + rv_reserved_cost_cents rv,
       pu_updated_at := now_iso\<rparr>"

definition provider_drop :: "string \<Rightarrow> string \<Rightarrow> provider_usage \<Rightarrow> provider_usage" where
  "provider_drop now_iso rid u =
     (case map_of (pu_reservations u) rid of
        None \<Rightarrow> u
      | Some rv \<Rightarrow>
          u\<lparr>pu_reservations := AList.delete rid (pu_reservations u),
            pu_reserved_cost_cents := max (pu_reserved_cost_cents u - rv_reserved_cost_cents rv) 0,
            pu_updated_at := now_iso\<rparr>)"

section \<open>Reserving\<close>

record BudgetReservationResult =
  brr_allowed :: bool
  brr_reason :: "string option"
  brr_reservation_id :: "string option"
  brr_reserved_cost_cents :: int
  brr_applied_grant_ids :: "string list"
  brr_policy_status :: "string option"

definition reservation_key :: "string \<Rightarrow> string" where
  "reservation_key task_id = ''budget-reservation:'' @ py_strip task_id"

text \<open>\<open>_rollback_reservations\<close> over the entries reserved so far, named by their grants.\<close>

fun rollback_reservations ::
    "budget_env \<Rightarrow> string \<Rightarrow> int \<Rightarrow> string list \<Rightarrow> (string \<times> grant_usage) list \<Rightarrow> (string \<times> grant_usage) list" where
  "rollback_reservations E rid cents [] usage = usage"
| "rollback_reservations E rid cents (gid # gids) usage =
     rollback_reservations E rid cents gids
       (case map_of usage gid of
          None \<Rightarrow> usage
        | Some u \<Rightarrow>
            AList.update gid
              (u\<lparr>gu_reservations := AList.delete rid (gu_reservations u),
                 gu_reserved_cost_cents := max (gu_reserved_cost_cents u - cents) 0,
                 gu_updated_at := be_now_iso E\<rparr>) usage)"

text \<open>The loop over the applicable grants: either all of them hold the reservation, or the reason
  of the first failure with the entries rolled back.\<close>

fun reserve_grants ::
    "budget_env \<Rightarrow> reservation \<Rightarrow> pydict list \<Rightarrow> string list \<Rightarrow> (string \<times> grant_usage) list
      \<Rightarrow> string \<times> (string \<times> grant_usage) list + string list \<times> (string \<times> grant_usage) list" where
  "reserve_grants E rv [] applied usage = Inr (applied, usage)"
| "reserve_grants E rv (grant # rest) applied usage =
     (let grant_id = norm_string (dget grant ''grant_id'');
          rid = rv_reservation_id rv; cents = rv_reserved_cost_cents rv;
          u = ensured_usage E grant (map_of usage grant_id);
          usage' = AList.update grant_id u usage
      in if map_of (gu_reservations u) rid \<noteq> None
         then Inl (''reservation_conflict'', rollback_reservations E rid cents applied usage')
         else if 0 < grant_limit grant \<and>
                 grant_limit grant - gu_used_cost_cents u - gu_reserved_cost_cents u < cents
         then Inl (''budget_exhausted'', rollback_reservations E rid cents applied usage')
         else reserve_grants E rv rest (applied @ [grant_id])
                (AList.update grant_id (grant_hold (be_now_iso E) rid rv u) usage'))"

subsection \<open>Provider budgets\<close>

definition round_half_even :: "rat \<Rightarrow> int" where
  "round_half_even x =
     (let f = \<lfloor>x\<rfloor>; d = x - of_int f
      in if d < 1 / 2 then f else if 1 / 2 < d then f + 1 else if even f then f else f + 1)"

definition round10 :: "rat \<Rightarrow> rat" where
  "round10 x = of_int (round_half_even (x * 10000000000)) / 10000000000"

definition used_cost_usd_exact :: "provider_usage \<Rightarrow> rat" where
  "used_cost_usd_exact u =
     (if 0 < pu_used_cost_usd_exact u then round10 (pu_used_cost_usd_exact u)
      else round10 (of_int (pu_used_cost_cents u) / 100))"

definition settings_period :: "pydict \<Rightarrow> string" where
  "settings_period settings =
     (let p = py_lower (norm_string (dget settings ''period'')) in if p = [] then ''monthly'' else p)"

definition provider_usage_key :: "string \<Rightarrow> string \<Rightarrow> string \<Rightarrow> string" where
  "provider_usage_key provider_id period period_start = provider_id @ '':'' @ period @ '':'' @ period_start"

definition flags_of :: "budget_state \<Rightarrow> string \<Rightarrow> notification_flags" where
  "flags_of st key =
     (case map_of (bs_provider_budget_notifications st) key of
        Some f \<Rightarrow> f
      | None \<Rightarrow> \<lparr>nf_period_started_notified = False, nf_threshold_90_notified = False\<rparr>)"

definition set_flags :: "string \<Rightarrow> notification_flags \<Rightarrow> budget_state \<Rightarrow> budget_state" where
  "set_flags key f st =
     st\<lparr>bs_provider_budget_notifications := AList.update key f (bs_provider_budget_notifications st)\<rparr>"

definition notify_period_started :: "string \<Rightarrow> string \<Rightarrow> budget_state \<Rightarrow> budget_state \<times> notice list" where
  "notify_period_started provider_id key st =
     (let f = flags_of st key
      in if nf_period_started_notified f then (set_flags key f st, [])
         else (set_flags key (f\<lparr>nf_period_started_notified := True\<rparr>) st, [Period_started provider_id key]))"

definition has_previous_usage :: "budget_state \<Rightarrow> string \<Rightarrow> string \<Rightarrow> bool" where
  "has_previous_usage st provider_id period =
     list_ex (\<lambda>(k, u). py_strip (pu_provider_id u) = provider_id \<and> py_lower (py_strip (pu_period u)) = period)
       (bs_provider_budget_usage st)"

definition fresh_provider_usage :: "budget_env \<Rightarrow> string \<Rightarrow> pydict \<Rightarrow> provider_usage" where
  "fresh_provider_usage E provider_id settings =
     (let period = settings_period settings; w = be_period_window E period
      in \<lparr>pu_provider_id = provider_id, pu_period = period, pu_period_start = fst w, pu_period_end = snd w,
          pu_budget_limit_cents = normalize_int 0 (dget settings ''max_cost_cents''),
          pu_used_cost_cents = 0, pu_used_cost_usd_exact = 0, pu_reserved_cost_cents = 0,
          pu_reservations = [], pu_updated_at = be_now_iso E\<rparr>)"

definition current_usage_key :: "budget_env \<Rightarrow> string \<Rightarrow> pydict \<Rightarrow> string" where
  "current_usage_key E provider_id settings =
     provider_usage_key provider_id (settings_period settings) (fst (be_period_window E (settings_period settings)))"

definition set_provider_usage :: "string \<Rightarrow> provider_usage \<Rightarrow> budget_state \<Rightarrow> budget_state" where
  "set_provider_usage key u st =
     st\<lparr>bs_provider_budget_usage := AList.update key u (bs_provider_budget_usage st)\<rparr>"

definition ensure_provider_budget_usage_entry ::
    "budget_env \<Rightarrow> string \<Rightarrow> pydict \<Rightarrow> budget_state \<Rightarrow> provider_usage \<times> budget_state \<times> notice list" where
  "ensure_provider_budget_usage_entry E provider_id settings st =
     (let key = current_usage_key E provider_id settings
      in case map_of (bs_provider_budget_usage st) key of
           Some u \<Rightarrow> (u, st, [])
         | None \<Rightarrow>
             let u = fresh_provider_usage E provider_id settings; st' = set_provider_usage key u st
             in if has_previous_usage st provider_id (settings_period settings)
                then (u, notify_period_started provider_id key st')
                else (u, st', []))"

text \<open>\<open>_reserve_provider_budget\<close>: no budget configured, refused (with the reason), or reserved.\<close>

datatype provider_outcome = Unbudgeted | Refused string | Reserved

definition reserve_provider_budget ::
    "budget_env \<Rightarrow> reservation \<Rightarrow> string \<Rightarrow> budget_state \<Rightarrow> provider_outcome \<times> budget_state \<times> notice list" where
  "reserve_provider_budget E rv provider_id st =
     (case provider_budget_settings E provider_id of
        None \<Rightarrow> (Unbudgeted, st, [])
      | Some settings \<Rightarrow>
          let (u, st', ns) = ensure_provider_budget_usage_entry E provider_id settings st;
              rid = rv_reservation_id rv;
              remaining = of_int (pu_budget_limit_cents u) - used_cost_usd_exact u * 100
                          - of_int (pu_reserved_cost_cents u)
          in if map_of (pu_reservations u) rid \<noteq> None then (Refused ''reservation_conflict'', st', ns)
             else if remaining < of_int (rv_reserved_cost_cents rv)
             then (Refused ''provider_budget_exhausted'', st', ns)
             else (Reserved,
                   set_provider_usage (current_usage_key E provider_id settings)
                     (provider_hold (be_now_iso E) rid rv u) st', ns))"

subsection \<open>Denials and the cached policy\<close>

definition last_of :: "nat \<Rightarrow> 'a list \<Rightarrow> 'a list" where
  "last_of n xs = drop (length xs - n) xs"

definition record_denial ::
    "budget_env \<Rightarrow> string \<Rightarrow> budget_request \<Rightarrow> string \<Rightarrow> string \<Rightarrow> budget_state
      \<Rightarrow> budget_state \<times> notice list \<times> unit result" where
  "record_denial E task_id req reason provider_id st =
     (let d = \<lparr>dn_task_id = py_strip task_id, dn_reason = py_strip reason,
               dn_provider_id = none_if_empty (py_strip provider_id),
               dn_requested_by = none_if_empty (norm_string (br_requested_by req)),
               dn_customer_id = none_if_empty (norm_string (br_customer_id req)),
               dn_recorded_at = be_now_iso E\<rparr>;
          label = (if py_strip provider_id = [] then ''provider'' else py_strip provider_id);
          ns = (if reason \<in> {''provider_budget_exhausted'', ''budget_exhausted'', ''missing_budget_grant''}
                then [Budget_denied label reason] else [])
      in case save_state E (st\<lparr>bs_recent_denials := last_of 50 (bs_recent_denials st @ [d])\<rparr>) of
           Inl e \<Rightarrow> (st, ns, Inl e)
         | Inr st' \<Rightarrow> (st', ns, Inr ()))"

definition cache_policy_from_governance ::
    "budget_env \<Rightarrow> pyval \<Rightarrow> budget_state \<Rightarrow> budget_state \<times> pyval result" where
  "cache_policy_from_governance E governance_bundle st =
     (case dget (as_dict governance_bundle) ''budget_policy'' of
        PDict p \<Rightarrow>
          if py_eq (bs_budget_policy st) (PDict p) then (st, Inr (PDict p))
          else (case save_state E (st\<lparr>bs_budget_policy := PDict p\<rparr>) of
                  Inl e \<Rightarrow> (st, Inl e)
                | Inr st' \<Rightarrow> (st', Inr (PDict p)))
      | _ \<Rightarrow> (st, Inr PNone))"

subsection \<open>\<open>reserve_execution\<close>\<close>

type_synonym 'a budget_op = "budget_state \<times> notice list \<times> 'a result"

definition denied ::
    "budget_env \<Rightarrow> string \<Rightarrow> budget_request \<Rightarrow> string \<Rightarrow> string \<Rightarrow> string \<Rightarrow> notice list \<Rightarrow> budget_state
      \<Rightarrow> BudgetReservationResult budget_op" where
  "denied E task_id req reason provider_id status ns st =
     (case record_denial E task_id req reason provider_id st of
        (st', ns', Inl e) \<Rightarrow> (st', ns @ ns', Inl e)
      | (st', ns', Inr _) \<Rightarrow>
          (st', ns @ ns',
           Inr \<lparr>brr_allowed = False, brr_reason = Some reason, brr_reservation_id = None,
                brr_reserved_cost_cents = 0, brr_applied_grant_ids = [], brr_policy_status = Some status\<rparr>))"

definition accepted ::
    "budget_env \<Rightarrow> reservation \<Rightarrow> string list \<Rightarrow> string \<Rightarrow> notice list \<Rightarrow> budget_state \<Rightarrow> budget_state
      \<Rightarrow> BudgetReservationResult budget_op" where
  "accepted E rv applied status ns store st =
     (case save_state E st of
        Inl e \<Rightarrow> (store, ns, Inl e)
      | Inr st' \<Rightarrow>
          (st', ns,
           Inr \<lparr>brr_allowed = True, brr_reason = None, brr_reservation_id = Some (rv_reservation_id rv),
                brr_reserved_cost_cents = max (rv_reserved_cost_cents rv) 0,
                brr_applied_grant_ids = applied, brr_policy_status = Some status\<rparr>))"

text \<open>Without an active policy only the provider's own budget is charged.\<close>

definition reserve_without_policy ::
    "budget_env \<Rightarrow> reservation \<Rightarrow> budget_request \<Rightarrow> string \<Rightarrow> string \<Rightarrow> budget_state \<Rightarrow> budget_state
      \<Rightarrow> BudgetReservationResult budget_op" where
  "reserve_without_policy E rv req provider_id status store st =
     (case reserve_provider_budget E rv provider_id st of
        (Refused _, _, ns) \<Rightarrow>
          denied E (rv_task_id rv) req ''provider_budget_exhausted'' provider_id status ns store
      | (Unbudgeted, _, ns) \<Rightarrow>
          (store, ns,
           Inr \<lparr>brr_allowed = True, brr_reason = None, brr_reservation_id = None, brr_reserved_cost_cents = 0,
                brr_applied_grant_ids = [], brr_policy_status = Some status\<rparr>)
      | (Reserved, st', ns) \<Rightarrow> accepted E rv [] status ns store st')"

definition reserve_with_policy ::
    "budget_env \<Rightarrow> reservation \<Rightarrow> budget_request \<Rightarrow> string \<Rightarrow> string \<Rightarrow> pydict \<Rightarrow> budget_state \<Rightarrow> budget_state
      \<Rightarrow> BudgetReservationResult budget_op" where
  "reserve_with_policy E rv req provider_id status policy store st =
     (case applicable_grants E policy req provider_id of
        Inl e \<Rightarrow> (store, [], Inl e)
      | Inr grants \<Rightarrow>
          if grants = [] then denied E (rv_task_id rv) req ''missing_budget_grant'' provider_id status [] store
          else (case reserve_grants E rv grants [] (bs_grant_usage st) of
                  Inl (reason, _) \<Rightarrow> denied E (rv_task_id rv) req reason provider_id status [] store
                | Inr (applied, usage) \<Rightarrow>
                    (case reserve_provider_budget E rv provider_id (st\<lparr>bs_grant_usage := usage\<rparr>) of
                       (Refused _, _, ns) \<Rightarrow>
                         denied E (rv_task_id rv) req ''provider_budget_exhausted'' provider_id status ns store
                     | (_, st', ns) \<Rightarrow> accepted E rv applied status ns store st')))"

definition budget_policy_status :: "pydict \<Rightarrow> string" where
  "budget_policy_status p =
     (let s = py_lower (norm_string (dget p ''status'')) in if s = [] then ''unconfigured'' else s)"

definition reserve_under ::
    "budget_env \<Rightarrow> reservation \<Rightarrow> budget_request \<Rightarrow> string \<Rightarrow> pyval \<Rightarrow> budget_state \<Rightarrow> budget_state
      \<Rightarrow> BudgetReservationResult budget_op" where
  "reserve_under E rv req provider_id policy store st =
     (case policy of
        PDict p \<Rightarrow>
          if budget_policy_status p \<noteq> ''active''
          then reserve_without_policy E rv req provider_id (budget_policy_status p) store st
          else reserve_with_policy E rv req provider_id (budget_policy_status p) p store st
      | _ \<Rightarrow> reserve_without_policy E rv req provider_id ''unconfigured'' store st)"

definition reserve_execution ::
    "budget_env \<Rightarrow> string \<Rightarrow> budget_request \<Rightarrow> string \<Rightarrow> string \<Rightarrow> pyval \<Rightarrow> budget_state
      \<Rightarrow> BudgetReservationResult budget_op" where
  "reserve_execution E task_id req provider_id model_id governance_bundle st =
     (case cache_policy_from_governance E governance_bundle st of
        (store, Inl e) \<Rightarrow> (store, [], Inl e)
      | (store, Inr cached) \<Rightarrow>
          let policy = py_or cached (bs_budget_policy st);
              st0 = (if is_dict policy then st\<lparr>bs_budget_policy := policy\<rparr> else st)
          in case reservation_cost_cents E store req provider_id model_id of
               Inl e \<Rightarrow> (store, [], Inl e)
             | Inr cents \<Rightarrow>
                 reserve_under E (make_reservation E (reservation_key task_id) task_id cents provider_id model_id)
                   req provider_id policy store st0)"

section \<open>Settling\<close>

definition final_cost_cents :: "exec_metrics option \<Rightarrow> int option" where
  "final_cost_cents metrics =
     (case metrics of
        None \<Rightarrow> None
      | Some m \<Rightarrow> map_option (\<lambda>c. max \<lceil>c * 100\<rceil> 0) (em_estimated_cost m))"

definition final_cost_usd_exact :: "exec_metrics option \<Rightarrow> int \<Rightarrow> rat" where
  "final_cost_usd_exact metrics fallback_cost_cents =
     (case Option.bind metrics em_estimated_cost of
        Some c \<Rightarrow> if 0 \<le> c then c else of_int (max fallback_cost_cents 0) / 100
      | None \<Rightarrow> of_int (max fallback_cost_cents 0) / 100)"

definition queue_usage_summary :: "budget_env \<Rightarrow> grant_usage \<Rightarrow> usage_summary" where
  "queue_usage_summary E u =
     \<lparr>us_grant_id = py_strip (gu_grant_id u), us_service = ''ai.inference'',
      us_period_start = gu_period_start u, us_period_end = gu_period_end u,
      us_used_requests = gu_used_requests u, us_used_tokens = gu_used_tokens u,
      us_used_cost_cents = gu_used_cost_cents u, us_queued_at = be_now_iso E\<rparr>"

definition charge_grant :: "exec_metrics option \<Rightarrow> int \<Rightarrow> grant_usage \<Rightarrow> grant_usage" where
  "charge_grant metrics applied_cost u =
     u\<lparr>gu_used_cost_cents := gu_used_cost_cents u + max applied_cost 0,
       gu_used_requests := gu_used_requests u + 1,
       gu_used_tokens := gu_used_tokens u + (case metrics of None \<Rightarrow> 0 | Some m \<Rightarrow> em_total_tokens m)\<rparr>"

fun finalize_grants ::
    "budget_env \<Rightarrow> string \<Rightarrow> exec_metrics option \<Rightarrow> string \<Rightarrow> (string \<times> grant_usage) list
      \<Rightarrow> (string \<times> grant_usage) list \<times> usage_summary list \<times> (string \<times> int) list" where
  "finalize_grants E rid metrics status [] = ([], [], [])"
| "finalize_grants E rid metrics status ((k, u) # rest) =
     (let (rest', pending, finalized) = finalize_grants E rid metrics status rest
      in case map_of (gu_reservations u) rid of
           None \<Rightarrow> ((k, u) # rest', pending, finalized)
         | Some rv \<Rightarrow>
             let applied_cost = (case final_cost_cents metrics of Some c \<Rightarrow> c | None \<Rightarrow> rv_reserved_cost_cents rv);
                 dropped = grant_drop (be_now_iso E) rid u
             in if status = ''completed''
                then ((k, charge_grant metrics applied_cost dropped) # rest',
                      queue_usage_summary E (charge_grant metrics applied_cost dropped) # pending,
                      (gu_grant_id u, applied_cost) # finalized)
                else ((k, dropped) # rest', pending, (gu_grant_id u, applied_cost) # finalized))"

definition charge_provider :: "exec_metrics option \<Rightarrow> provider_usage \<Rightarrow> provider_usage" where
  "charge_provider metrics u =
     (let usd = round10 (max (pu_used_cost_usd_exact u) 0 + final_cost_usd_exact metrics 0)
      in u\<lparr>pu_used_cost_usd_exact := usd, pu_used_cost_cents := max \<lceil>max usd 0 * 100\<rceil> 0\<rparr>)"

definition notify_threshold ::
    "provider_usage \<Rightarrow> budget_state \<Rightarrow> budget_state \<times> notice list" where
  "notify_threshold u st =
     (if pu_budget_limit_cents u \<le> 0 then (st, [])
      else
        let provider_id = (if py_strip (pu_provider_id u) = [] then ''provider'' else py_strip (pu_provider_id u));
            p = py_lower (py_strip (pu_period u));
            key = provider_usage_key provider_id (if p = [] then ''monthly'' else p) (py_strip (pu_period_start u));
            f = flags_of st key;
            used_ratio = used_cost_usd_exact u / (of_int (pu_budget_limit_cents u) / 100)
        in if used_ratio < 9 / 10 \<or> nf_threshold_90_notified f then (set_flags key f st, [])
           else (set_flags key (f\<lparr>nf_threshold_90_notified := True\<rparr>) st, [Threshold_90 provider_id key]))"

text \<open>The provider entries are settled in place; the notification flags live in the same state.\<close>

fun finalize_providers ::
    "budget_env \<Rightarrow> string \<Rightarrow> exec_metrics option \<Rightarrow> string \<Rightarrow> (string \<times> provider_usage) list \<Rightarrow> budget_state
      \<Rightarrow> (string \<times> provider_usage) list \<times> budget_state \<times> notice list \<times> (string \<times> int) list" where
  "finalize_providers E rid metrics status [] st = ([], st, [], [])"
| "finalize_providers E rid metrics status ((k, u) # rest) st =
     (case map_of (pu_reservations u) rid of
        None \<Rightarrow>
          let (rest', st', ns, finalized) = finalize_providers E rid metrics status rest st
          in ((k, u) # rest', st', ns, finalized)
      | Some rv \<Rightarrow>
          let dropped = provider_drop (be_now_iso E) rid u;
              applied_cost = (case final_cost_cents metrics of Some c \<Rightarrow> c | None \<Rightarrow> 0);
              u' = (if status = ''completed'' then charge_provider metrics dropped else dropped);
              (st1, ns1) = (if status = ''completed'' then notify_threshold u' st else (st, []));
              (rest', st', ns, finalized) = finalize_providers E rid metrics status rest st1
          in ((k, u') # rest', st', ns1 @ ns, (pu_provider_id u, applied_cost) # finalized))"

record finalize_result =
  fz_finalized :: "(string \<times> int) list"
  fz_provider_finalized :: "(string \<times> int) list"

definition finalize_execution ::
    "budget_env \<Rightarrow> string \<Rightarrow> exec_metrics option \<Rightarrow> string \<Rightarrow> budget_state \<Rightarrow> finalize_result budget_op" where
  "finalize_execution E task_id metrics status st =
     (let rid = reservation_key task_id;
          (usage, pending, finalized) = finalize_grants E rid metrics status (bs_grant_usage st);
          st1 = st\<lparr>bs_grant_usage := usage,
                   bs_pending_usage_summaries := bs_pending_usage_summaries st @ pending\<rparr>;
          (pusage, st2, ns, pfinalized) =
            finalize_providers E rid metrics status (bs_provider_budget_usage st1) st1;
          st3 = st2\<lparr>bs_provider_budget_usage := pusage\<rparr>;
          res = \<lparr>fz_finalized = finalized, fz_provider_finalized = pfinalized\<rparr>
      in if finalized \<noteq> [] \<or> pfinalized \<noteq> []
         then (case save_state E st3 of Inl e \<Rightarrow> (st, ns, Inl e) | Inr st' \<Rightarrow> (st', ns, Inr res))
         else (st, ns, Inr res))"

definition released_of :: "string \<Rightarrow> (string \<times> reservation) list \<Rightarrow> int option" where
  "released_of rid reservations = map_option rv_reserved_cost_cents (map_of reservations rid)"

record release_result =
  rl_released :: "(string \<times> int) list"
  rl_provider_released :: "(string \<times> int) list"

definition release_execution :: "budget_env \<Rightarrow> string \<Rightarrow> budget_state \<Rightarrow> release_result budget_op" where
  "release_execution E task_id st =
     (let rid = reservation_key task_id;
          usage = map (\<lambda>(k, u). (k, grant_drop (be_now_iso E) rid u)) (bs_grant_usage st);
          released = List.map_filter (\<lambda>(k, u). map_option (Pair (gu_grant_id u)) (released_of rid (gu_reservations u)))
            (bs_grant_usage st);
          pusage = map (\<lambda>(k, u). (k, provider_drop (be_now_iso E) rid u)) (bs_provider_budget_usage st);
          preleased = List.map_filter (\<lambda>(k, u). map_option (Pair (pu_provider_id u)) (released_of rid (pu_reservations u)))
            (bs_provider_budget_usage st);
          res = \<lparr>rl_released = released, rl_provider_released = preleased\<rparr>
      in if released \<noteq> [] \<or> preleased \<noteq> []
         then (case save_state E (st\<lparr>bs_grant_usage := usage, bs_provider_budget_usage := pusage\<rparr>) of
                 Inl e \<Rightarrow> (st, [], Inl e) | Inr st' \<Rightarrow> (st', [], Inr res))
         else (st, [], Inr res))"

section \<open>Usage summaries\<close>

text \<open>
  \<open>flush_pending_usage_summaries\<close> submits summaries to the core between two reads of the state:
  \<open>submit\<close> is the core's answer, \<open>latest\<close> the state when the submissions are done.
\<close>

record flush_result =
  fl_status :: string
  fl_submitted :: nat
  fl_remaining :: nat
  fl_error :: "string option"

fun submit_all ::
    "(usage_summary \<Rightarrow> bool \<times> string option) \<Rightarrow> usage_summary list \<Rightarrow> nat \<times> string option" where
  "submit_all submit [] = (0, None)"
| "submit_all submit (s # rest) =
     (case submit s of
        (True, _) \<Rightarrow> (let (n, e) = submit_all submit rest in (Suc n, e))
      | (False, err) \<Rightarrow> (0, Some (case err of Some (c # cs) \<Rightarrow> c # cs | _ \<Rightarrow> ''usage_summary_rejected'')))"

definition summary_key :: "usage_summary \<Rightarrow> string \<times> string" where
  "summary_key s = (us_grant_id s, us_queued_at s)"

definition core_reachable :: "pydict \<Rightarrow> bool" where
  "core_reachable trust =
     (norm_string (dget trust ''core_api_endpoint'') \<noteq> [] \<and> norm_string (dget trust ''node_trust_token'') \<noteq> []
      \<and> norm_string (dget trust ''node_id'') \<noteq> [])"

definition flush_pending_usage_summaries ::
    "budget_env \<Rightarrow> (usage_summary \<Rightarrow> bool \<times> string option) option \<Rightarrow> pydict \<Rightarrow> int \<Rightarrow> budget_state \<Rightarrow> budget_state
      \<Rightarrow> budget_state \<times> flush_result result" where
  "flush_pending_usage_summaries E client trust limit st latest =
     (let pending = bs_pending_usage_summaries st
      in if pending = [] then (latest, Inr \<lparr>fl_status = ''idle'', fl_submitted = 0, fl_remaining = 0, fl_error = None\<rparr>)
         else case client of
           None \<Rightarrow> (latest, Inr \<lparr>fl_status = ''unavailable'', fl_submitted = 0, fl_remaining = length pending, fl_error = None\<rparr>)
         | Some submit \<Rightarrow>
             if \<not> core_reachable trust
             then (latest, Inr \<lparr>fl_status = ''unavailable'', fl_submitted = 0, fl_remaining = length pending, fl_error = None\<rparr>)
             else
               let (submitted, err) = submit_all submit (take (nat (max limit 1)) pending);
                   status = (if err = None then ''submitted'' else ''partial_failure'')
               in if submitted = 0
                  then (latest, Inr \<lparr>fl_status = status, fl_submitted = 0, fl_remaining = length pending, fl_error = err\<rparr>)
                  else
                    let delivered = map summary_key (take submitted pending);
                        kept = filter (\<lambda>s. summary_key s \<notin> set delivered) (bs_pending_usage_summaries latest)
                    in case save_state E (latest\<lparr>bs_pending_usage_summaries := kept\<rparr>) of
                         Inl e \<Rightarrow> (latest, Inl e)
                       | Inr latest' \<Rightarrow>
                           (latest', Inr \<lparr>fl_status = status, fl_submitted = submitted,
                                          fl_remaining = length kept, fl_error = err\<rparr>))"

section \<open>The ledger interface\<close>

text \<open>
  A grant's usage entry and a provider's usage entry are ledgers: a reserved total and the
  reservations it stands for. The laws say what holding and dropping a reservation do; that the
  total is the sum of the reservations follows once for both.
\<close>

definition held_total :: "(string \<times> reservation) list \<Rightarrow> int" where
  "held_total rs = sum_list (map (\<lambda>kr. rv_reserved_cost_cents (snd kr)) rs)"

lemma held_total_update_fresh:
  "map_of rs k = None \<Longrightarrow> held_total (AList.update k r rs) = held_total rs + rv_reserved_cost_cents r"
  by (induction rs) (auto simp: held_total_def split: if_splits)

lemma held_total_delete:
  "distinct (map fst rs) \<Longrightarrow> map_of rs k = Some r \<Longrightarrow>
     held_total (AList.delete k rs) = held_total rs - rv_reserved_cost_cents r"
proof (induction rs)
  case (Cons kr rs)
  obtain k' r' where [simp]: "kr = (k', r')" by (cases kr)
  show ?case
  proof (cases "k' = k")
    case True
    then have "k \<notin> fst ` set rs" using Cons.prems by auto
    then have "AList.delete k rs = rs" by (rule delete_id)
    with True Cons.prems show ?thesis by (simp add: held_total_def)
  next
    case False
    with Cons show ?thesis by (simp add: held_total_def)
  qed
qed simp

definition balanced :: "int \<Rightarrow> (string \<times> reservation) list \<Rightarrow> bool" where
  "balanced amount rs = (distinct (map fst rs) \<and> (\<forall>kr\<in>set rs. 0 \<le> rv_reserved_cost_cents (snd kr)) \<and>
     amount = held_total rs)"

locale ledger =
  fixes reserved :: "'u \<Rightarrow> int"
    and held :: "'u \<Rightarrow> (string \<times> reservation) list"
    and hold :: "string \<Rightarrow> reservation \<Rightarrow> 'u \<Rightarrow> 'u"
    and drop :: "string \<Rightarrow> 'u \<Rightarrow> 'u"
  assumes held_hold: "held (hold k r u) = AList.update k r (held u)"
    and reserved_hold: "reserved (hold k r u) = reserved u + rv_reserved_cost_cents r"
    and held_drop: "held (drop k u) = AList.delete k (held u)"
    and reserved_drop: "reserved (drop k u) =
      (case map_of (held u) k of None \<Rightarrow> reserved u | Some r \<Rightarrow> max (reserved u - rv_reserved_cost_cents r) 0)"
begin

lemma balanced_nonneg: "balanced (reserved u) (held u) \<Longrightarrow> 0 \<le> reserved u"
  by (auto simp: balanced_def held_total_def intro!: sum_list_nonneg)

lemma hold_balanced:
  assumes "balanced (reserved u) (held u)" and "map_of (held u) k = None" and "0 \<le> rv_reserved_cost_cents r"
  shows "balanced (reserved (hold k r u)) (held (hold k r u))"
  using assms
  by (auto simp: balanced_def held_hold reserved_hold held_total_update_fresh distinct_update
      dest!: set_AList_update)

lemma drop_reserved_exact:
  assumes "balanced (reserved u) (held u)" and "map_of (held u) k = Some r"
  shows "reserved (drop k u) = reserved u - rv_reserved_cost_cents r"
proof -
  have "held_total (held u) - rv_reserved_cost_cents r = held_total (AList.delete k (held u))"
    using assms held_total_delete by (simp add: balanced_def)
  also have "\<dots> \<ge> 0"
    using assms(1) by (auto simp: balanced_def held_total_def dest!: set_AList_delete intro!: sum_list_nonneg)
  finally show ?thesis using assms by (simp add: reserved_drop balanced_def)
qed

lemma drop_balanced:
  assumes "balanced (reserved u) (held u)"
  shows "balanced (reserved (drop k u)) (held (drop k u))"
proof (cases "map_of (held u) k")
  case None
  with assms show ?thesis by (simp add: balanced_def held_drop reserved_drop delete_absent)
next
  case (Some r)
  with assms drop_reserved_exact [OF assms Some] held_total_delete [of "held u" k r] show ?thesis
    by (auto simp: balanced_def held_drop distinct_delete_keys dest!: set_AList_delete)
qed

lemma drop_hold:
  assumes "balanced (reserved u) (held u)" and "map_of (held u) k = None" and "0 \<le> rv_reserved_cost_cents r"
  shows "held (drop k (hold k r u)) = held u" and "reserved (drop k (hold k r u)) = reserved u"
  using drop_reserved_exact [OF hold_balanced [OF assms], of k r] assms(2)
  by (simp_all add: held_drop held_hold reserved_hold delete_update_fresh dict.get_put)

lemma drop_gone: "map_of (held (drop k u)) k = None"
  by (simp add: held_drop dict.get_del)

end

interpretation grant_ledger: ledger gu_reserved_cost_cents gu_reservations "grant_hold now" "grant_drop now"
  for now
  by unfold_locales
    (auto simp: grant_hold_def grant_drop_def delete_absent split: option.splits)

interpretation provider_ledger: ledger pu_reserved_cost_cents pu_reservations "provider_hold now" "provider_drop now"
  for now
  by unfold_locales
    (auto simp: provider_hold_def provider_drop_def delete_absent split: option.splits)

section \<open>Every ledger stays balanced\<close>

definition grants_balanced :: "(string \<times> grant_usage) list \<Rightarrow> bool" where
  "grants_balanced usage = list_all (\<lambda>(k, u). balanced (gu_reserved_cost_cents u) (gu_reservations u)) usage"

definition providers_balanced :: "(string \<times> provider_usage) list \<Rightarrow> bool" where
  "providers_balanced usage = list_all (\<lambda>(k, u). balanced (pu_reserved_cost_cents u) (pu_reservations u)) usage"

definition budget_inv :: "budget_state \<Rightarrow> bool" where
  "budget_inv st = (grants_balanced (bs_grant_usage st) \<and> providers_balanced (bs_provider_budget_usage st))"

lemma grants_balanced_get:
  "grants_balanced usage \<Longrightarrow> map_of usage k = Some u \<Longrightarrow> balanced (gu_reserved_cost_cents u) (gu_reservations u)"
  by (auto simp: grants_balanced_def list_all_iff dest: map_of_SomeD)

lemma providers_balanced_get:
  "providers_balanced usage \<Longrightarrow> map_of usage k = Some u \<Longrightarrow> balanced (pu_reserved_cost_cents u) (pu_reservations u)"
  by (auto simp: providers_balanced_def list_all_iff dest: map_of_SomeD)

lemma grants_balanced_update:
  "grants_balanced usage \<Longrightarrow> balanced (gu_reserved_cost_cents u) (gu_reservations u) \<Longrightarrow>
     grants_balanced (AList.update k u usage)"
  by (auto simp: grants_balanced_def list_all_iff dest!: set_AList_update)

lemma providers_balanced_update:
  "providers_balanced usage \<Longrightarrow> balanced (pu_reserved_cost_cents u) (pu_reservations u) \<Longrightarrow>
     providers_balanced (AList.update k u usage)"
  by (auto simp: providers_balanced_def list_all_iff dest!: set_AList_update)

lemma balanced_Nil [simp]: "balanced 0 []"
  by (simp add: balanced_def held_total_def)

lemma ensured_usage_balanced:
  assumes "grants_balanced usage"
  shows "balanced (gu_reserved_cost_cents (ensured_usage E grant (map_of usage k)))
           (gu_reservations (ensured_usage E grant (map_of usage k)))"
  using grants_balanced_get [OF assms, of k]
  by (auto simp: ensured_usage_def fresh_grant_usage_def split: option.splits)

lemma reserve_grants_balanced:
  "reserve_grants E rv grants applied usage = Inr (applied', usage') \<Longrightarrow> 0 \<le> rv_reserved_cost_cents rv \<Longrightarrow>
     grants_balanced usage \<Longrightarrow> grants_balanced usage'"
proof (induction E rv grants applied usage rule: reserve_grants.induct)
  case (2 E rv grant rest applied usage)
  let ?gid = "norm_string (dget grant ''grant_id'')"
  let ?u = "ensured_usage E grant (map_of usage ?gid)"
  from 2(2) have fresh: "map_of (gu_reservations ?u) (rv_reservation_id rv) = None"
    and limit: "\<not> (0 < grant_limit grant \<and>
      grant_limit grant - gu_used_cost_cents ?u - gu_reserved_cost_cents ?u < rv_reserved_cost_cents rv)"
    and rest: "reserve_grants E rv rest (applied @ [?gid])
      (AList.update ?gid (grant_hold (be_now_iso E) (rv_reservation_id rv) rv ?u) (AList.update ?gid ?u usage)) =
      Inr (applied', usage')"
    by (auto simp: Let_def split: if_splits)
  have u: "balanced (gu_reserved_cost_cents ?u) (gu_reservations ?u)"
    using 2(4) by (rule ensured_usage_balanced)
  note h = grant_ledger.hold_balanced [OF u fresh 2(3), of "be_now_iso E"]
  show ?case
    by (rule 2(1) [OF refl refl refl refl refl _ limit rest 2(3)])
      (use fresh in simp, intro grants_balanced_update 2(4) u h)
qed simp

lemma notify_period_started_usage [simp]:
  "bs_grant_usage (fst (notify_period_started p k st)) = bs_grant_usage st"
  "bs_provider_budget_usage (fst (notify_period_started p k st)) = bs_provider_budget_usage st"
  by (simp_all add: notify_period_started_def set_flags_def Let_def)

lemma ensure_provider_balanced:
  assumes "ensure_provider_budget_usage_entry E p s st = (u, st', ns)"
    and "providers_balanced (bs_provider_budget_usage st)"
  shows "balanced (pu_reserved_cost_cents u) (pu_reservations u)"
    and "providers_balanced (bs_provider_budget_usage st')"
    and "bs_grant_usage st' = bs_grant_usage st"
    and "map_of (bs_provider_budget_usage st') (current_usage_key E p s) = Some u"
proof -
  let ?k = "current_usage_key E p s"
  have "balanced (pu_reserved_cost_cents u) (pu_reservations u) \<and>
      (bs_provider_budget_usage st' = bs_provider_budget_usage st \<and> map_of (bs_provider_budget_usage st) ?k = Some u
       \<or> bs_provider_budget_usage st' = AList.update ?k u (bs_provider_budget_usage st)) \<and>
      bs_grant_usage st' = bs_grant_usage st"
  proof (cases "map_of (bs_provider_budget_usage st) ?k")
    case None
    have [simp]: "balanced (pu_reserved_cost_cents (fresh_provider_usage E p s))
        (pu_reservations (fresh_provider_usage E p s))"
      by (simp add: fresh_provider_usage_def Let_def)
    have "st' = fst (notify_period_started p ?k (set_provider_usage ?k (fresh_provider_usage E p s) st))
        \<or> st' = set_provider_usage ?k (fresh_provider_usage E p s) st"
      and "u = fresh_provider_usage E p s"
      using assms(1) None
      by (auto simp: ensure_provider_budget_usage_entry_def Let_def prod_eq_iff split: if_splits)
    then show ?thesis
      by (auto simp: set_provider_usage_def)
  next
    case (Some v)
    with assms show ?thesis
      using providers_balanced_get [OF assms(2) Some]
      by (simp add: ensure_provider_budget_usage_entry_def)
  qed
  then show "balanced (pu_reserved_cost_cents u) (pu_reservations u)"
    "providers_balanced (bs_provider_budget_usage st')" "bs_grant_usage st' = bs_grant_usage st"
    "map_of (bs_provider_budget_usage st') ?k = Some u"
    using assms(2) by (auto simp: dict.get_put intro: providers_balanced_update)
qed

lemma reserve_provider_balanced:
  assumes "reserve_provider_budget E rv p st = (res, st', ns)"
    and "providers_balanced (bs_provider_budget_usage st)" and "0 \<le> rv_reserved_cost_cents rv"
  shows "providers_balanced (bs_provider_budget_usage st') \<and> bs_grant_usage st' = bs_grant_usage st"
proof (cases "provider_budget_settings E p")
  case (Some s)
  obtain u st1 ns1 where en: "ensure_provider_budget_usage_entry E p s st = (u, st1, ns1)"
    using prod_cases3 by blast
  note facts = ensure_provider_balanced [OF en assms(2)]
  have "balanced (pu_reserved_cost_cents (provider_hold now k rv u)) (pu_reservations (provider_hold now k rv u))"
    if "map_of (pu_reservations u) k = None" for k now
    by (rule provider_ledger.hold_balanced [OF facts(1) that assms(3)])
  then show ?thesis
    using assms(1) Some en facts
    by (auto simp: reserve_provider_budget_def Let_def set_provider_usage_def intro!: providers_balanced_update
        split: if_splits)
qed (use assms in \<open>auto simp: reserve_provider_budget_def\<close>)

lemma save_state_usage:
  "save_state E st = Inr st' \<Longrightarrow> st' = st\<lparr>bs_updated_at := be_now_iso E\<rparr>"
  by (auto simp: save_state_def Let_def split: option.splits)

definition same_ledgers :: "budget_state \<Rightarrow> budget_state \<Rightarrow> bool" where
  "same_ledgers st st' =
     (bs_grant_usage st' = bs_grant_usage st \<and> bs_provider_budget_usage st' = bs_provider_budget_usage st \<and>
      bs_pending_usage_summaries st' = bs_pending_usage_summaries st)"

lemma record_denial_ledgers: "record_denial E t req r p st = (st', ns, res) \<Longrightarrow> same_ledgers st st'"
  by (auto simp: same_ledgers_def record_denial_def Let_def dest: save_state_usage split: sum.splits)

lemma denied_ledgers:
  "denied E t req r p s ns0 st = (st', ns, res) \<Longrightarrow>
     same_ledgers st st' \<and> (\<forall>b. res = Inr b \<longrightarrow> \<not> brr_allowed b)"
  by (auto simp: denied_def dest: record_denial_ledgers split: prod.splits sum.splits)

lemma cache_policy_ledgers: "cache_policy_from_governance E g st = (st', res) \<Longrightarrow> same_ledgers st st'"
  by (auto simp: same_ledgers_def cache_policy_from_governance_def Let_def dest: save_state_usage
      split: pyval.splits if_splits sum.splits)

lemma reservation_cost_nonneg: "reservation_cost_cents E st req p m = Inr c \<Longrightarrow> 0 \<le> c"
  by (auto simp: reservation_cost_cents_def Let_def ebind_Inr_conv split: if_splits)

lemma accepted_conv:
  "accepted E rv applied s ns0 store st = (st', ns, res) \<Longrightarrow>
     (\<exists>e. res = Inl e \<and> st' = store) \<or>
     (\<exists>b. res = Inr b \<and> st' = st\<lparr>bs_updated_at := be_now_iso E\<rparr> \<and> brr_allowed b \<and>
        brr_reserved_cost_cents b = max (rv_reserved_cost_cents rv) 0 \<and> brr_applied_grant_ids b = applied \<and>
        brr_policy_status b = Some s)"
  by (auto simp: accepted_def dest: save_state_usage split: sum.splits)

text \<open>A reservation starts from the stored ledgers and reserves a non-negative amount, or it
  ends before it reaches them.\<close>

lemma reserve_execution_start:
  assumes "reserve_execution E t req p m g st = (st', ns, res)"
  shows "(\<exists>e. res = Inl e \<and> same_ledgers st st') \<or>
    (\<exists>store st0 policy cents. same_ledgers st store \<and> same_ledgers st st0 \<and> 0 \<le> cents \<and>
       (is_dict policy \<longrightarrow> bs_budget_policy st0 = policy) \<and>
       reserve_under E (make_reservation E (reservation_key t) t cents p m) req p policy store st0 = (st', ns, res))"
proof -
  obtain store c where cp: "cache_policy_from_governance E g st = (store, c)" by fastforce
  show ?thesis
  proof (cases "\<exists>cached cents. c = Inr cached \<and> reservation_cost_cents E store req p m = Inr cents")
    case False
    with assms cp cache_policy_ledgers [OF cp] show ?thesis
      by (auto simp: reserve_execution_def Let_def split: sum.splits)
  next
    case True
    then obtain cached cents where c: "c = Inr cached" and rc: "reservation_cost_cents E store req p m = Inr cents"
      by blast
    define policy where "policy = py_or cached (bs_budget_policy st)"
    define st0 where "st0 = (if is_dict policy then st\<lparr>bs_budget_policy := policy\<rparr> else st)"
    have "reserve_under E (make_reservation E (reservation_key t) t cents p m) req p policy store st0 = (st', ns, res)"
      using assms cp c rc unfolding policy_def st0_def by (simp only: reserve_execution_def Let_def prod.case sum.case)
    moreover have "same_ledgers st st0" "is_dict policy \<longrightarrow> bs_budget_policy st0 = policy"
      by (simp_all add: same_ledgers_def st0_def)
    ultimately show ?thesis
      using cache_policy_ledgers [OF cp] reservation_cost_nonneg [OF rc] by blast
  qed
qed

lemma reserve_provider_none:
  "reserve_provider_budget E rv p st = (Unbudgeted, st', ns) \<Longrightarrow> provider_budget_settings E p = None \<and> st' = st"
  by (auto simp: reserve_provider_budget_def Let_def split: option.splits if_splits prod.splits)

lemma reserve_without_cases:
  assumes "reserve_without_policy E rv req p s store st = (st', ns, res)"
  shows "same_ledgers store st' \<and> (\<forall>b. res = Inr b \<longrightarrow> brr_allowed b \<longrightarrow>
           provider_budget_settings E p = None \<and> brr_policy_status b = Some s) \<or>
    (\<exists>st1 ns1. reserve_provider_budget E rv p st = (Reserved, st1, ns1) \<and>
       accepted E rv [] s ns1 store st1 = (st', ns, res))"
proof -
  obtain out st1 ns1 where pr: "reserve_provider_budget E rv p st = (out, st1, ns1)" using prod_cases3 by blast
  then show ?thesis
    using assms denied_ledgers reserve_provider_none [of E rv p st st1 ns1]
    by (cases out) (fastforce simp: reserve_without_policy_def same_ledgers_def)+
qed

lemma reserve_with_cases:
  assumes "reserve_with_policy E rv req p s pol store st = (st', ns, res)"
  shows "same_ledgers store st' \<and> (\<forall>b. res = Inr b \<longrightarrow> \<not> brr_allowed b) \<or>
    (\<exists>gs applied usage out st1 ns1. applicable_grants E pol req p = Inr gs \<and> gs \<noteq> [] \<and>
       reserve_grants E rv gs [] (bs_grant_usage st) = Inr (applied, usage) \<and>
       reserve_provider_budget E rv p (st\<lparr>bs_grant_usage := usage\<rparr>) = (out, st1, ns1) \<and>
       (\<forall>r. out \<noteq> Refused r) \<and> accepted E rv applied s ns1 store st1 = (st', ns, res))"
proof (cases "applicable_grants E pol req p")
  case (Inl e)
  with assms show ?thesis by (auto simp: reserve_with_policy_def same_ledgers_def)
next
  case gs: (Inr gs)
  show ?thesis
  proof (cases "reserve_grants E rv gs [] (bs_grant_usage st)")
    case (Inl a)
    with assms gs show ?thesis
      by (cases a) (auto simp: reserve_with_policy_def dest!: denied_ledgers split: if_splits)
  next
    case (Inr b)
    obtain applied usage where b: "b = (applied, usage)" by (cases b)
    obtain out st1 ns1 where pr: "reserve_provider_budget E rv p (st\<lparr>bs_grant_usage := usage\<rparr>) = (out, st1, ns1)"
      using prod_cases3 by blast
    with assms gs Inr b show ?thesis
      by (cases out) (auto simp: reserve_with_policy_def dest!: denied_ledgers split: if_splits)
  qed
qed

lemma reserve_under_cases:
  assumes "reserve_under E rv req p policy store st = (st', ns, res)"
  shows "(\<exists>s. s \<noteq> ''active'' \<and> reserve_without_policy E rv req p s store st = (st', ns, res)) \<or>
    (\<exists>pol. policy = PDict pol \<and> reserve_with_policy E rv req p ''active'' pol store st = (st', ns, res))"
proof (cases "\<exists>pol. policy = PDict pol")
  case True
  then obtain pol where "policy = PDict pol" by blast
  with assms show ?thesis
    by (cases "budget_policy_status pol = ''active''") (auto simp: reserve_under_def)
next
  case False
  with assms have "reserve_without_policy E rv req p ''unconfigured'' store st = (st', ns, res)"
    by (cases policy) (simp_all add: reserve_under_def)
  then show ?thesis by (intro disjI1 exI [of _ "''unconfigured''"]) simp
qed

lemma same_ledgers_inv: "same_ledgers st st' \<Longrightarrow> budget_inv st \<Longrightarrow> budget_inv st'"
  by (simp add: same_ledgers_def budget_inv_def)

lemma same_ledgers_trans: "same_ledgers a b \<Longrightarrow> same_ledgers b c \<Longrightarrow> same_ledgers a c"
  by (simp add: same_ledgers_def)

lemma accepted_inv:
  "accepted E rv applied s ns0 store st = (st', ns, res) \<Longrightarrow> budget_inv store \<Longrightarrow> budget_inv st \<Longrightarrow> budget_inv st'"
  by (auto dest!: accepted_conv simp: budget_inv_def)

lemma reserve_under_inv:
  assumes "reserve_under E rv req p policy store st = (st', ns, res)"
    and "budget_inv store" and "budget_inv st" and "0 \<le> rv_reserved_cost_cents rv"
  shows "budget_inv st'"
  using reserve_under_cases [OF assms(1)]
proof (elim disjE exE conjE)
  fix s assume "reserve_without_policy E rv req p s store st = (st', ns, res)"
  from reserve_without_cases [OF this] show ?thesis
  proof (elim disjE exE conjE)
    fix st1 ns1 assume "reserve_provider_budget E rv p st = (Reserved, st1, ns1)"
      and a: "accepted E rv [] s ns1 store st1 = (st', ns, res)"
    then have "budget_inv st1"
      using assms(3,4) reserve_provider_balanced by (fastforce simp: budget_inv_def)
    with a assms(2) show ?thesis by (blast intro: accepted_inv)
  qed (use assms(2) same_ledgers_inv in blast)
next
  fix pol assume "reserve_with_policy E rv req p ''active'' pol store st = (st', ns, res)"
  from reserve_with_cases [OF this] show ?thesis
  proof (elim disjE exE conjE)
    fix gs applied usage out st1 ns1
    assume rg: "reserve_grants E rv gs [] (bs_grant_usage st) = Inr (applied, usage)"
      and rp: "reserve_provider_budget E rv p (st\<lparr>bs_grant_usage := usage\<rparr>) = (out, st1, ns1)"
      and a: "accepted E rv applied ''active'' ns1 store st1 = (st', ns, res)"
    have "grants_balanced usage"
      using reserve_grants_balanced [OF rg assms(4)] assms(3) by (simp add: budget_inv_def)
    then have "budget_inv st1"
      using reserve_provider_balanced [OF rp _ assms(4)] assms(3) by (simp add: budget_inv_def)
    with a assms(2) show ?thesis by (blast intro: accepted_inv)
  qed (use assms(2) same_ledgers_inv in blast)
qed

lemma reserve_execution_inv:
  assumes "reserve_execution E t req p m g st = (st', ns, res)" and "budget_inv st"
  shows "budget_inv st'"
  using reserve_execution_start [OF assms(1)]
proof (elim disjE exE conjE)
  fix store st0 policy cents
  assume "same_ledgers st store" "same_ledgers st st0" "0 \<le> cents"
    "reserve_under E (make_reservation E (reservation_key t) t cents p m) req p policy store st0 = (st', ns, res)"
  with assms(2) show ?thesis
    using reserve_under_inv same_ledgers_inv by (fastforce simp: make_reservation_def)
qed (use assms(2) same_ledgers_inv in blast)

lemma charge_grant_ledger [simp]:
  "gu_reserved_cost_cents (charge_grant m c u) = gu_reserved_cost_cents u"
  "gu_reservations (charge_grant m c u) = gu_reservations u"
  by (simp_all add: charge_grant_def)

lemma charge_provider_ledger [simp]:
  "pu_reserved_cost_cents (charge_provider m u) = pu_reserved_cost_cents u"
  "pu_reservations (charge_provider m u) = pu_reservations u"
  by (simp_all add: charge_provider_def Let_def)

lemma notify_threshold_usage:
  "notify_threshold u st = (st', ns) \<Longrightarrow>
     bs_grant_usage st' = bs_grant_usage st \<and> bs_provider_budget_usage st' = bs_provider_budget_usage st \<and>
     bs_pending_usage_summaries st' = bs_pending_usage_summaries st"
  by (auto simp: notify_threshold_def set_flags_def Let_def split: if_splits)

lemma finalize_grants_balanced:
  "finalize_grants E rid m s usage = (usage', ps, fs) \<Longrightarrow> grants_balanced usage \<Longrightarrow> grants_balanced usage'"
proof (induction E rid m s usage arbitrary: usage' ps fs rule: finalize_grants.induct)
  case (2 E rid m s k u rest)
  obtain r p f where r: "finalize_grants E rid m s rest = (r, p, f)" using prod_cases3 by blast
  have "balanced (gu_reserved_cost_cents u) (gu_reservations u)" "grants_balanced rest"
    using 2(3) by (simp_all add: grants_balanced_def)
  with 2(1) [OF r] grant_ledger.drop_balanced [of u "be_now_iso E" rid] 2(2) r show ?case
    by (auto simp: grants_balanced_def Let_def split: option.splits if_splits)
qed (simp add: grants_balanced_def)

lemma finalize_providers_balanced:
  "finalize_providers E rid m s usage st = (usage', st', ns, fs) \<Longrightarrow> providers_balanced usage \<Longrightarrow>
     providers_balanced usage' \<and> bs_grant_usage st' = bs_grant_usage st \<and>
     bs_pending_usage_summaries st' = bs_pending_usage_summaries st"
proof (induction E rid m s usage st arbitrary: usage' st' ns fs rule: finalize_providers.induct)
  case (2 E rid m s k u rest st)
  have u: "balanced (pu_reserved_cost_cents u) (pu_reservations u)" and rest: "providers_balanced rest"
    using 2(4) by (simp_all add: providers_balanced_def)
  show ?case
  proof (cases "map_of (pu_reservations u) rid")
    case None
    obtain r st1 n f where r: "finalize_providers E rid m s rest st = (r, st1, n, f)" by (metis prod_cases4)
    from 2(1) [OF None r rest] 2(3) None r u show ?thesis
      by (auto simp: providers_balanced_def)
  next
    case (Some rv)
    let ?u = "if s = ''completed'' then charge_provider m (provider_drop (be_now_iso E) rid u)
              else provider_drop (be_now_iso E) rid u"
    obtain st1 ns1 where n1: "(if s = ''completed'' then notify_threshold ?u st else (st, [])) = (st1, ns1)" by fastforce
    obtain r st2 n f where r: "finalize_providers E rid m s rest st1 = (r, st2, n, f)" by (metis prod_cases4)
    have st1: "bs_grant_usage st1 = bs_grant_usage st" "bs_pending_usage_summaries st1 = bs_pending_usage_summaries st"
      using n1 by (auto dest: notify_threshold_usage split: if_splits)
    have out: "usage' = (k, ?u) # r" "st' = st2"
      using 2(3) Some n1 r by (auto simp: Let_def)
    have "balanced (pu_reserved_cost_cents ?u) (pu_reservations ?u)"
      using provider_ledger.drop_balanced [OF u, of "be_now_iso E" rid] by simp
    with 2(2) [OF Some refl refl refl n1 [symmetric] refl r rest] out st1 show ?thesis
      by (simp add: providers_balanced_def)
  qed
qed (simp add: providers_balanced_def)

lemma finalize_execution_conv:
  assumes "finalize_execution E t m s st = (st', ns, res)"
  obtains usage ps fs pu st2 pf where
    "finalize_grants E (reservation_key t) m s (bs_grant_usage st) = (usage, ps, fs)"
    and "finalize_providers E (reservation_key t) m s (bs_provider_budget_usage st)
      (st\<lparr>bs_grant_usage := usage, bs_pending_usage_summaries := bs_pending_usage_summaries st @ ps\<rparr>) =
      (pu, st2, ns, pf)"
    and "\<And>r. res = Inr r \<Longrightarrow> r = \<lparr>fz_finalized = fs, fz_provider_finalized = pf\<rparr> \<and>
      (if fs = [] \<and> pf = [] then st' = st
       else st' = st2\<lparr>bs_provider_budget_usage := pu, bs_updated_at := be_now_iso E\<rparr>)"
    and "\<And>e. res = Inl e \<Longrightarrow> st' = st"
proof -
  obtain usage ps fs where fg: "finalize_grants E (reservation_key t) m s (bs_grant_usage st) = (usage, ps, fs)"
    using prod_cases3 by blast
  obtain pu st2 n pf where fp: "finalize_providers E (reservation_key t) m s (bs_provider_budget_usage st)
      (st\<lparr>bs_grant_usage := usage, bs_pending_usage_summaries := bs_pending_usage_summaries st @ ps\<rparr>) = (pu, st2, n, pf)"
    by (metis prod_cases4)
  show ?thesis
    using assms fg fp
    by (intro that [of usage ps fs pu st2 pf])
      (auto simp: finalize_execution_def Let_def dest!: save_state_usage split: if_splits sum.splits)
qed

lemma finalize_execution_inv:
  assumes "finalize_execution E t m s st = (st', ns, res)" and "budget_inv st"
  shows "budget_inv st'"
proof -
  from assms(1) obtain usage ps fs pu st2 pf where
    fg: "finalize_grants E (reservation_key t) m s (bs_grant_usage st) = (usage, ps, fs)"
    and fp: "finalize_providers E (reservation_key t) m s (bs_provider_budget_usage st)
      (st\<lparr>bs_grant_usage := usage, bs_pending_usage_summaries := bs_pending_usage_summaries st @ ps\<rparr>) =
      (pu, st2, ns, pf)"
    and out: "st' = st \<or> st' = st2\<lparr>bs_provider_budget_usage := pu, bs_updated_at := be_now_iso E\<rparr>"
    by (elim finalize_execution_conv) (metis sum.exhaust)
  have "grants_balanced usage" "providers_balanced pu" "bs_grant_usage st2 = usage"
    using finalize_grants_balanced [OF fg] finalize_providers_balanced [OF fp] assms(2)
    by (simp_all add: budget_inv_def)
  then show ?thesis using assms(2) out by (auto simp: budget_inv_def)
qed

lemma release_execution_inv:
  assumes "release_execution E t st = (st', ns, res)" and "budget_inv st"
  shows "budget_inv st'"
proof -
  have "grants_balanced (map (\<lambda>(k, u). (k, grant_drop (be_now_iso E) rid u)) (bs_grant_usage st))"
    and "providers_balanced (map (\<lambda>(k, u). (k, provider_drop (be_now_iso E) rid u)) (bs_provider_budget_usage st))" for rid
    using assms(2) by (auto simp: budget_inv_def grants_balanced_def providers_balanced_def list_all_iff
        intro!: grant_ledger.drop_balanced provider_ledger.drop_balanced)
  then show ?thesis
    using assms
    by (auto simp: release_execution_def budget_inv_def Let_def dest!: save_state_usage split: if_splits sum.splits)
qed

lemma flush_ledgers:
  "flush_pending_usage_summaries E c trust n st latest = (st', res) \<Longrightarrow>
     bs_grant_usage st' = bs_grant_usage latest \<and> bs_provider_budget_usage st' = bs_provider_budget_usage latest"
  by (auto simp: flush_pending_usage_summaries_def Let_def dest!: save_state_usage
      split: if_splits option.splits prod.splits sum.splits)

section \<open>Reachable states\<close>

text \<open>
  The stored states a node can reach: the fresh state and what any sequence of operations makes
  of it, at any times and in any surroundings. A flush works on the state stored when its
  submissions are done, whatever it read before.
\<close>

inductive budget_reachable :: "budget_state \<Rightarrow> bool" where
  init: "budget_reachable (create_budget_state now_iso)"
| cache: "budget_reachable st \<Longrightarrow> cache_policy_from_governance E g st = (st', r) \<Longrightarrow> budget_reachable st'"
| reserve: "budget_reachable st \<Longrightarrow> reserve_execution E t req p m g st = (st', ns, res) \<Longrightarrow> budget_reachable st'"
| finalise: "budget_reachable st \<Longrightarrow> finalize_execution E t met s st = (st', ns, fin) \<Longrightarrow> budget_reachable st'"
| release: "budget_reachable st \<Longrightarrow> release_execution E t st = (st', ns, rel) \<Longrightarrow> budget_reachable st'"
| flush: "budget_reachable latest \<Longrightarrow> flush_pending_usage_summaries E c trust n before latest = (st', fl) \<Longrightarrow>
    budget_reachable st'"

lemma budget_reachable_inv: "budget_reachable st \<Longrightarrow> budget_inv st"
proof (induction rule: budget_reachable.induct)
  case (init now_iso)
  then show ?case
    by (simp add: budget_inv_def create_budget_state_def grants_balanced_def providers_balanced_def)
next
  case (cache st E g st' r)
  then show ?case using cache_policy_ledgers same_ledgers_inv by blast
next
  case (flush latest E c trust n before st' fl)
  then show ?case using flush_ledgers [OF flush(2)] by (simp add: budget_inv_def)
qed (blast intro: reserve_execution_inv finalize_execution_inv release_execution_inv)+

section \<open>Holding within the limits\<close>

lemma reserve_grants_untouched:
  "reserve_grants E rv grants applied usage = Inr (applied', usage') \<Longrightarrow>
     k \<notin> (\<lambda>g. norm_string (dget g ''grant_id'')) ` set grants \<Longrightarrow> map_of usage' k = map_of usage k"
  by (induction E rv grants applied usage rule: reserve_grants.induct)
    (auto simp: Let_def dict.get_put split: if_splits)

lemma reserve_grants_holds:
  "reserve_grants E rv grants applied usage = Inr (applied', usage') \<Longrightarrow>
     distinct (map (\<lambda>g. norm_string (dget g ''grant_id'')) grants) \<Longrightarrow> g \<in> set grants \<Longrightarrow>
     \<exists>u. map_of usage' (norm_string (dget g ''grant_id'')) = Some u \<and>
         map_of (gu_reservations u) (rv_reservation_id rv) = Some rv \<and>
         (0 < grant_limit g \<longrightarrow> gu_used_cost_cents u + gu_reserved_cost_cents u \<le> grant_limit g)"
proof (induction E rv grants applied usage rule: reserve_grants.induct)
  case (2 E rv grant rest applied usage)
  let ?gid = "norm_string (dget grant ''grant_id'')"
  let ?u = "ensured_usage E grant (map_of usage ?gid)"
  let ?h = "grant_hold (be_now_iso E) (rv_reservation_id rv) rv ?u"
  from 2(2) have fresh: "\<not> map_of (gu_reservations ?u) (rv_reservation_id rv) \<noteq> None"
    and limit: "\<not> (0 < grant_limit grant \<and>
      grant_limit grant - gu_used_cost_cents ?u - gu_reserved_cost_cents ?u < rv_reserved_cost_cents rv)"
    and rest: "reserve_grants E rv rest (applied @ [?gid]) (AList.update ?gid ?h (AList.update ?gid ?u usage)) =
      Inr (applied', usage')"
    by (auto simp: Let_def split: if_splits)
  show ?case
  proof (cases "g \<in> set rest")
    case True
    with 2(1) [OF refl refl refl refl refl fresh limit rest] 2(3) show ?thesis by simp
  next
    case False
    with 2(3,4) have "g = grant" and "?gid \<notin> (\<lambda>g. norm_string (dget g ''grant_id'')) ` set rest"
      by (auto simp: image_iff)
    with reserve_grants_untouched [OF rest this(2)] limit show ?thesis
      by (auto simp: dict.get_put grant_hold_def)
  qed
qed simp

lemma ensure_provider_frame:
  "ensure_provider_budget_usage_entry E p s st = (u, st', ns) \<Longrightarrow>
     bs_grant_usage st' = bs_grant_usage st \<and> bs_budget_policy st' = bs_budget_policy st"
  by (auto simp: ensure_provider_budget_usage_entry_def notify_period_started_def set_provider_usage_def
      set_flags_def Let_def split: option.splits if_splits)

lemma reserve_provider_frame:
  "reserve_provider_budget E rv p st = (out, st', ns) \<Longrightarrow>
     bs_grant_usage st' = bs_grant_usage st \<and> bs_budget_policy st' = bs_budget_policy st"
  by (auto simp: reserve_provider_budget_def set_provider_usage_def Let_def dest: ensure_provider_frame
      split: option.splits if_splits prod.splits)

lemma reserve_provider_holds:
  assumes "reserve_provider_budget E rv p st = (Reserved, st', ns)"
    and "providers_balanced (bs_provider_budget_usage st)"
  shows "\<exists>s u. provider_budget_settings E p = Some s \<and>
    map_of (bs_provider_budget_usage st') (current_usage_key E p s) = Some u \<and>
    map_of (pu_reservations u) (rv_reservation_id rv) = Some rv \<and>
    used_cost_usd_exact u * 100 + of_int (pu_reserved_cost_cents u) \<le> of_int (pu_budget_limit_cents u)"
proof -
  from assms obtain s where s: "provider_budget_settings E p = Some s"
    by (auto simp: reserve_provider_budget_def split: option.splits)
  obtain u st1 ns1 where en: "ensure_provider_budget_usage_entry E p s st = (u, st1, ns1)" using prod_cases3 by blast
  let ?h = "provider_hold (be_now_iso E) (rv_reservation_id rv) rv u"
  from assms(1) s en have st': "st' = set_provider_usage (current_usage_key E p s) ?h st1"
    and rem: "\<not> of_int (pu_budget_limit_cents u) - used_cost_usd_exact u * 100 - of_int (pu_reserved_cost_cents u)
      < (of_int (rv_reserved_cost_cents rv) :: rat)"
    by (auto simp: reserve_provider_budget_def Let_def split: if_splits)
  have "used_cost_usd_exact ?h = used_cost_usd_exact u"
    by (simp add: used_cost_usd_exact_def provider_hold_def)
  moreover have "map_of (pu_reservations ?h) (rv_reservation_id rv) = Some rv"
    by (simp add: provider_hold_def dict.get_put)
  moreover have "pu_reserved_cost_cents ?h = pu_reserved_cost_cents u + rv_reserved_cost_cents rv"
    "pu_budget_limit_cents ?h = pu_budget_limit_cents u"
    by (simp_all add: provider_hold_def)
  ultimately show ?thesis
    using s rem by (intro exI [of _ s] exI [of _ ?h]) (simp add: st' set_provider_usage_def dict.get_put)
qed

section \<open>Properties\<close>

text \<open>
  C5. In every reachable state every ledger is balanced: the reserved total of a grant or of a
  provider is the sum of the reservations it holds, each of a non-negative amount and held once.
\<close>

theorem budget_ledgers_balanced:
  assumes "budget_reachable st"
  shows "(\<forall>(k, u) \<in> set (bs_grant_usage st). balanced (gu_reserved_cost_cents u) (gu_reservations u)) \<and>
         (\<forall>(k, u) \<in> set (bs_provider_budget_usage st). balanced (pu_reserved_cost_cents u) (pu_reservations u))"
  using budget_reachable_inv [OF assms]
  by (auto simp: budget_inv_def grants_balanced_def providers_balanced_def list_all_iff)

definition sample_grant :: pydict where
  "sample_grant =
     [(''grant_id'', PStr ''g1''), (''consumer_node_id'', PStr ''n''), (''service'', PStr ''ai''),
      (''period_start'', PStr ''s''), (''period_end'', PStr ''e''), (''status'', PStr ''active''),
      (''scope_kind'', PStr ''node''), (''subject_id'', PStr ''n''), (''governance_version'', PStr ''1''),
      (''budget_policy_version'', PStr ''1''), (''issued_at'', PStr ''i''),
      (''limits'', PDict [(''max_cost_cents'', PInt 50)])]"

definition sample_policy :: pydict where
  "sample_policy =
     [(''node_id'', PStr ''n''), (''service'', PStr ''ai''), (''status'', PStr ''active''),
      (''governance_version'', PStr ''1''), (''budget_policy_version'', PStr ''1''), (''period_start'', PStr ''s''),
      (''period_end'', PStr ''e''), (''issued_at'', PStr ''i''), (''grants'', PList [PDict sample_grant])]"

definition sample_env :: budget_env where
  "sample_env =
     \<lparr>be_now = 0, be_now_iso = ''now'', be_time = \<lparr>fromisoformat = (\<lambda>s. None), isoformat = (\<lambda>t. '''')\<rparr>,
      be_period_window = (\<lambda>p. (''w0'', ''w1'')),
      be_budget_limits = [(''openai'', PDict [(''max_cost_cents'', PInt 100)])],
      be_get_model = (\<lambda>p m. None)\<rparr>"

definition sample_budget_request :: budget_request where
  "sample_budget_request =
     \<lparr>br_service_id = PNone, br_requested_by = PNone, br_customer_id = PNone, br_requested_model = PNone,
      br_constraints = PDict [(''max_cost_cents'', PInt 30)], br_inputs = PNone\<rparr>"

definition sample_reserve :: "budget_state \<Rightarrow> BudgetReservationResult budget_op" where
  "sample_reserve st = reserve_execution sample_env ''t1'' sample_budget_request ''openai'' ''m''
     (PDict [(''budget_policy'', PDict sample_policy)]) st"

definition sample_state :: budget_state where
  "sample_state = fst (sample_reserve (create_budget_state ''now''))"

theorem budget_ledgers_balanced_witness:
  "bs_grant_usage sample_state \<noteq> [] \<and>
   list_all (\<lambda>(k, u). balanced (gu_reserved_cost_cents u) (gu_reservations u)) (bs_grant_usage sample_state)"
proof -
  have "budget_reachable sample_state"
    unfolding sample_state_def sample_reserve_def
    using budget_reachable.reserve [OF budget_reachable.init] by (metis prod.collapse)
  from budget_ledgers_balanced [OF this] show ?thesis
    unfolding list_all_iff by (intro conjI) (code_simp, blast)
qed

lemma refused_same_ledgers:
  assumes "reserve_execution E t req p m g st = (st', ns, res)"
    and "\<nexists>b. res = Inr b \<and> brr_allowed b"
  shows "same_ledgers st st'"
  using reserve_execution_start [OF assms(1)]
proof (elim disjE exE conjE)
  fix store st0 policy cents
  assume store: "same_ledgers st store"
    and under: "reserve_under E (make_reservation E (reservation_key t) t cents p m) req p policy store st0 = (st', ns, res)"
  have "same_ledgers store st'" if "accepted E rv a s ns0 store st1 = (st', ns, res)" for rv a s ns0 st1
    using accepted_conv [OF that] assms(2) by (auto simp: same_ledgers_def)
  then have "same_ledgers store st'"
    using reserve_under_cases [OF under] by (blast dest: reserve_without_cases reserve_with_cases)
  with store show ?thesis by (rule same_ledgers_trans)
qed

text \<open>
  C3. A reservation is all or nothing: whenever it is not allowed, because it is denied or
  because it raises, no ledger has changed, of the grants, of the providers, nor the queue of
  usage summaries.
\<close>

theorem reserve_all_or_nothing:
  assumes "reserve_execution E t req p m g st = (st', ns, res)"
    and "\<nexists>b. res = Inr b \<and> brr_allowed b"
  shows "same_ledgers st st'"
  using assms by (rule refused_same_ledgers)

theorem reserve_all_or_nothing_witness:
  "\<exists>st' ns b. sample_reserve sample_state = (st', ns, Inr b) \<and> brr_reason b = Some ''reservation_conflict'' \<and>
     same_ledgers sample_state st'"
proof -
  obtain st' ns res where r: "sample_reserve sample_state = (st', ns, res)" using prod_cases3 by blast
  have "case sample_reserve sample_state of
      (_, _, Inr b) \<Rightarrow> \<not> brr_allowed b \<and> brr_reason b = Some ''reservation_conflict'' | _ \<Rightarrow> False"
    by code_simp
  with r obtain b where b: "res = Inr b" "\<not> brr_allowed b" "brr_reason b = Some ''reservation_conflict''"
    by (auto split: sum.splits)
  with reserve_all_or_nothing [OF r [unfolded sample_reserve_def]] have "same_ledgers sample_state st'" by simp
  with r b show ?thesis by blast
qed

text \<open>
  C28. An allowed reservation under an active policy is held by every applicable grant, there is
  at least one, and no grant with a limit is over it: what it has used and what it has reserved,
  this reservation included, stay within the limit. (The grants of a policy have distinct ids.)
\<close>

theorem reserve_within_grant_limits:
  assumes "reserve_execution E t req p m g st = (st', ns, Inr b)" and "brr_allowed b"
    and "brr_policy_status b = Some ''active''"
    and "\<forall>pol gs. bs_budget_policy st' = PDict pol \<and> applicable_grants E pol req p = Inr gs \<longrightarrow>
           distinct (map (\<lambda>g. norm_string (dget g ''grant_id'')) gs)"
  shows "\<exists>pol gs. bs_budget_policy st' = PDict pol \<and> applicable_grants E pol req p = Inr gs \<and> gs \<noteq> [] \<and>
    (\<forall>g\<in>set gs. \<exists>u rv. map_of (bs_grant_usage st') (norm_string (dget g ''grant_id'')) = Some u \<and>
       map_of (gu_reservations u) (reservation_key t) = Some rv \<and>
       rv_reserved_cost_cents rv = brr_reserved_cost_cents b \<and>
       (0 < grant_limit g \<longrightarrow> gu_used_cost_cents u + gu_reserved_cost_cents u \<le> grant_limit g))"
proof -
  from reserve_execution_start [OF assms(1)] obtain store st0 policy cents where
    c0: "0 \<le> cents" and pol: "is_dict policy \<longrightarrow> bs_budget_policy st0 = policy" and
    under: "reserve_under E (make_reservation E (reservation_key t) t cents p m) req p policy store st0 = (st', ns, Inr b)"
    by auto
  let ?rv = "make_reservation E (reservation_key t) t cents p m"
  have "brr_policy_status b \<noteq> Some s" if "s \<noteq> ''active''" for s using assms(3) that by simp
  with reserve_under_cases [OF under] obtain pd where pd: "policy = PDict pd"
    and with_p: "reserve_with_policy E ?rv req p ''active'' pd store st0 = (st', ns, Inr b)"
    using assms(2) by (auto dest!: reserve_without_cases accepted_conv)
  from reserve_with_cases [OF with_p] assms(2) obtain gs applied usage out st1 ns1 where
    gs: "applicable_grants E pd req p = Inr gs" "gs \<noteq> []"
    and rg: "reserve_grants E ?rv gs [] (bs_grant_usage st0) = Inr (applied, usage)"
    and rp: "reserve_provider_budget E ?rv p (st0\<lparr>bs_grant_usage := usage\<rparr>) = (out, st1, ns1)"
    and acc: "accepted E ?rv applied ''active'' ns1 store st1 = (st', ns, Inr b)"
    by blast
  have st1: "bs_grant_usage st1 = usage" "bs_budget_policy st1 = PDict pd"
    using reserve_provider_frame [OF rp] pol pd by (simp_all add: is_dict_def)
  from accepted_conv [OF acc] have st': "bs_grant_usage st' = usage" "bs_budget_policy st' = PDict pd"
    and cost: "brr_reserved_cost_cents b = cents"
    using st1 c0 by (auto simp: make_reservation_def)
  have dist: "distinct (map (\<lambda>g. norm_string (dget g ''grant_id'')) gs)"
    using assms(4) st'(2) gs(1) by blast
  have "\<exists>u rv. map_of (bs_grant_usage st') (norm_string (dget g ''grant_id'')) = Some u \<and>
       map_of (gu_reservations u) (reservation_key t) = Some rv \<and>
       rv_reserved_cost_cents rv = brr_reserved_cost_cents b \<and>
       (0 < grant_limit g \<longrightarrow> gu_used_cost_cents u + gu_reserved_cost_cents u \<le> grant_limit g)"
    if "g \<in> set gs" for g
    using reserve_grants_holds [OF rg dist that] unfolding st' cost
    by (auto simp: make_reservation_def)
  with st'(2) gs show ?thesis by blast
qed

theorem reserve_within_grant_limits_witness:
  "\<exists>u. map_of (bs_grant_usage sample_state) ''g1'' = Some u \<and>
       gu_used_cost_cents u + gu_reserved_cost_cents u \<le> 50"
proof -
  obtain st' ns res where r: "sample_reserve (create_budget_state ''now'') = (st', ns, res)" using prod_cases3 by blast
  have st': "st' = sample_state" using r by (simp add: sample_state_def)
  have "case sample_reserve (create_budget_state ''now'') of
      (st', _, Inr b) \<Rightarrow> brr_allowed b \<and> brr_policy_status b = Some ''active'' \<and>
        bs_budget_policy st' = PDict sample_policy
    | _ \<Rightarrow> False"
    by code_simp
  with r obtain b where b: "res = Inr b" "brr_allowed b" "brr_policy_status b = Some ''active''"
    and pol: "bs_budget_policy st' = PDict sample_policy"
    by (auto split: sum.splits)
  have ap: "applicable_grants sample_env sample_policy sample_budget_request ''openai'' = Inr [sample_grant]"
    by code_simp
  have gl: "grant_limit sample_grant = 50" "norm_string (dget sample_grant ''grant_id'') = ''g1''" by code_simp+
  have "\<forall>q gs. bs_budget_policy st' = PDict q \<and>
      applicable_grants sample_env q sample_budget_request ''openai'' = Inr gs \<longrightarrow>
      distinct (map (\<lambda>g. norm_string (dget g ''grant_id'')) gs)"
    using pol ap by auto
  from reserve_within_grant_limits [OF r [unfolded sample_reserve_def b(1)] b(2,3) this] pol ap
  have "\<exists>u. map_of (bs_grant_usage st') (norm_string (dget sample_grant ''grant_id'')) = Some u \<and>
      (0 < grant_limit sample_grant \<longrightarrow>
        gu_used_cost_cents u + gu_reserved_cost_cents u \<le> grant_limit sample_grant)"
    by auto
  then show ?thesis unfolding gl st' by auto
qed

text \<open>
  An allowed reservation for a provider with a configured budget is held by the entry of the
  provider's current period, and that entry stays within its limit: the exact cost used so far
  plus everything reserved, this reservation included.
\<close>

theorem reserve_within_provider_budget:
  assumes "reserve_execution E t req p m g st = (st', ns, Inr b)" and "brr_allowed b"
    and "provider_budget_settings E p = Some s" and "budget_reachable st"
  shows "\<exists>u rv. map_of (bs_provider_budget_usage st') (current_usage_key E p s) = Some u \<and>
    map_of (pu_reservations u) (reservation_key t) = Some rv \<and>
    rv_reserved_cost_cents rv = brr_reserved_cost_cents b \<and>
    used_cost_usd_exact u * 100 + of_int (pu_reserved_cost_cents u) \<le> of_int (pu_budget_limit_cents u)"
proof -
  from reserve_execution_start [OF assms(1)] obtain store st0 policy cents where
    c0: "0 \<le> cents" and same: "same_ledgers st st0" and
    under: "reserve_under E (make_reservation E (reservation_key t) t cents p m) req p policy store st0 = (st', ns, Inr b)"
    by auto
  let ?rv = "make_reservation E (reservation_key t) t cents p m"
  have bal: "providers_balanced (bs_provider_budget_usage st0)"
    using budget_reachable_inv [OF assms(4)] same_ledgers_inv [OF same] by (simp add: budget_inv_def)
  have "\<exists>a x ns1 st1 st2. reserve_provider_budget E ?rv p st2 = (Reserved, st1, ns1) \<and>
      providers_balanced (bs_provider_budget_usage st2) \<and> accepted E ?rv a x ns1 store st1 = (st', ns, Inr b)"
    using reserve_under_cases [OF under]
  proof (elim disjE exE conjE)
    fix x assume "reserve_without_policy E ?rv req p x store st0 = (st', ns, Inr b)"
    from reserve_without_cases [OF this] assms(2,3) obtain st1 ns1 where
      "reserve_provider_budget E ?rv p st0 = (Reserved, st1, ns1)" "accepted E ?rv [] x ns1 store st1 = (st', ns, Inr b)"
      by auto
    then show ?thesis using bal by blast
  next
    fix pol assume "reserve_with_policy E ?rv req p ''active'' pol store st0 = (st', ns, Inr b)"
    from reserve_with_cases [OF this] assms(2) obtain applied usage out st1 ns1 where
      rp: "reserve_provider_budget E ?rv p (st0\<lparr>bs_grant_usage := usage\<rparr>) = (out, st1, ns1)"
      and nr: "\<forall>r. out \<noteq> Refused r" and acc: "accepted E ?rv applied ''active'' ns1 store st1 = (st', ns, Inr b)"
      by blast
    have "out = Reserved" using rp nr assms(3) reserve_provider_none by (cases out) fastforce+
    moreover have "providers_balanced (bs_provider_budget_usage (st0\<lparr>bs_grant_usage := usage\<rparr>))" using bal by simp
    ultimately show ?thesis using rp acc by blast
  qed
  then obtain a x ns1 st1 st2 where rp: "reserve_provider_budget E ?rv p st2 = (Reserved, st1, ns1)"
    and b2: "providers_balanced (bs_provider_budget_usage st2)"
    and acc: "accepted E ?rv a x ns1 store st1 = (st', ns, Inr b)" by blast
  from reserve_provider_holds [OF rp b2] assms(3) accepted_conv [OF acc] c0 show ?thesis
    by (auto simp: make_reservation_def)
qed

theorem reserve_within_provider_budget_witness:
  "\<exists>u. map_of (bs_provider_budget_usage sample_state) ''openai:monthly:w0'' = Some u \<and>
       used_cost_usd_exact u * 100 + of_int (pu_reserved_cost_cents u) \<le> of_int (pu_budget_limit_cents u)"
proof -
  obtain st' ns res where r: "sample_reserve (create_budget_state ''now'') = (st', ns, res)" using prod_cases3 by blast
  have st': "st' = sample_state" using r by (simp add: sample_state_def)
  have "case sample_reserve (create_budget_state ''now'') of (_, _, Inr b) \<Rightarrow> brr_allowed b | _ \<Rightarrow> False"
    by code_simp
  with r obtain b where b: "res = Inr b" "brr_allowed b" by (auto split: sum.splits)
  have s: "provider_budget_settings sample_env ''openai'' = Some [(''max_cost_cents'', PInt 100)]"
    and k: "current_usage_key sample_env ''openai'' [(''max_cost_cents'', PInt 100)] = ''openai:monthly:w0''"
    by code_simp+
  from reserve_within_provider_budget [OF r [unfolded sample_reserve_def b(1)] b(2) s budget_reachable.init]
  show ?thesis unfolding k st' by blast
qed

section \<open>Settling once\<close>

definition settled_grant :: "budget_env \<Rightarrow> string \<Rightarrow> exec_metrics option \<Rightarrow> string \<Rightarrow> grant_usage \<Rightarrow> grant_usage" where
  "settled_grant E rid m s u =
     (case map_of (gu_reservations u) rid of
        None \<Rightarrow> u
      | Some rv \<Rightarrow>
          (if s = ''completed''
           then charge_grant m (case final_cost_cents m of Some c \<Rightarrow> c | None \<Rightarrow> rv_reserved_cost_cents rv)
             (grant_drop (be_now_iso E) rid u)
           else grant_drop (be_now_iso E) rid u))"

lemma finalize_grants_settles:
  "finalize_grants E rid m s usage = (usage', ps, fs) \<Longrightarrow>
     usage' = map (\<lambda>(k, u). (k, settled_grant E rid m s u)) usage \<and>
     (fs = [] \<longleftrightarrow> (\<forall>(k, u)\<in>set usage. map_of (gu_reservations u) rid = None)) \<and> (fs = [] \<longrightarrow> ps = [])"
proof (induction E rid m s usage arbitrary: usage' ps fs rule: finalize_grants.induct)
  case (2 E rid m s k u rest)
  obtain r p f where r: "finalize_grants E rid m s rest = (r, p, f)" using prod_cases3 by blast
  from 2(1) [OF r] 2(2) r show ?case
    by (auto simp: settled_grant_def Let_def split: option.splits if_splits)
qed simp

lemma settled_grant_gone: "map_of (gu_reservations (settled_grant E rid m s u)) rid = None"
  using grant_ledger.drop_gone [of "be_now_iso E" rid u]
  by (auto simp: settled_grant_def split: option.splits)

lemma finalize_providers_settles:
  "finalize_providers E rid m s usage st = (usage', st', ns, fs) \<Longrightarrow>
     (\<forall>(k, u)\<in>set usage'. map_of (pu_reservations u) rid = None) \<and>
     (fs = [] \<longleftrightarrow> (\<forall>(k, u)\<in>set usage. map_of (pu_reservations u) rid = None)) \<and>
     (fs = [] \<longrightarrow> usage' = usage \<and> st' = st \<and> ns = []) \<and> bs_grant_usage st' = bs_grant_usage st"
proof (induction E rid m s usage st arbitrary: usage' st' ns fs rule: finalize_providers.induct)
  case (2 E rid m s k u rest st)
  show ?case
  proof (cases "map_of (pu_reservations u) rid")
    case None
    obtain r st1 n f where r: "finalize_providers E rid m s rest st = (r, st1, n, f)" by (metis prod_cases4)
    from 2(1) [OF None r] 2(3) None r show ?thesis by auto
  next
    case (Some rv)
    let ?u = "if s = ''completed'' then charge_provider m (provider_drop (be_now_iso E) rid u)
              else provider_drop (be_now_iso E) rid u"
    obtain st1 ns1 where n1: "(if s = ''completed'' then notify_threshold ?u st else (st, [])) = (st1, ns1)" by fastforce
    obtain r st2 n f where r: "finalize_providers E rid m s rest st1 = (r, st2, n, f)" by (metis prod_cases4)
    have "bs_grant_usage st1 = bs_grant_usage st" using n1 by (auto dest: notify_threshold_usage split: if_splits)
    moreover have "usage' = (k, ?u) # r" "st' = st2" "fs \<noteq> []"
      using 2(3) Some n1 r by (auto simp: Let_def)
    moreover have "map_of (pu_reservations ?u) rid = None"
      using provider_ledger.drop_gone [of "be_now_iso E" rid u] by simp
    ultimately show ?thesis
      using 2(2) [OF Some refl refl refl n1 [symmetric] refl r] Some by auto
  qed
qed simp

lemma finalize_execution_gone:
  assumes "finalize_execution E t m s st = (st', ns, Inr r)"
  shows "(\<forall>(k, u)\<in>set (bs_grant_usage st'). map_of (gu_reservations u) (reservation_key t) = None) \<and>
    (\<forall>(k, u)\<in>set (bs_provider_budget_usage st'). map_of (pu_reservations u) (reservation_key t) = None) \<and>
    bs_grant_usage st' = map (\<lambda>(k, u). (k, settled_grant E (reservation_key t) m s u)) (bs_grant_usage st)"
proof -
  from assms obtain usage ps fs pu st2 pf where
    fg: "finalize_grants E (reservation_key t) m s (bs_grant_usage st) = (usage, ps, fs)"
    and fp: "finalize_providers E (reservation_key t) m s (bs_provider_budget_usage st)
      (st\<lparr>bs_grant_usage := usage, bs_pending_usage_summaries := bs_pending_usage_summaries st @ ps\<rparr>) = (pu, st2, ns, pf)"
    and out: "if fs = [] \<and> pf = [] then st' = st
       else st' = st2\<lparr>bs_provider_budget_usage := pu, bs_updated_at := be_now_iso E\<rparr>"
    by (elim finalize_execution_conv) blast
  note g = finalize_grants_settles [OF fg] and q = finalize_providers_settles [OF fp]
  have gone: "\<forall>(k, u)\<in>set usage. map_of (gu_reservations u) (reservation_key t) = None"
    using g settled_grant_gone by auto
  have "usage = bs_grant_usage st" if "fs = []"
    using g that by (auto simp: settled_grant_def intro!: map_idI split: option.splits)
  with g q gone out show ?thesis by (cases "fs = [] \<and> pf = []") auto
qed

lemma settled_nothing_held:
  assumes "\<forall>(k, u)\<in>set (bs_grant_usage st). map_of (gu_reservations u) (reservation_key t) = None"
    and "\<forall>(k, u)\<in>set (bs_provider_budget_usage st). map_of (pu_reservations u) (reservation_key t) = None"
  shows "finalize_execution E t m s st = (st, [], Inr \<lparr>fz_finalized = [], fz_provider_finalized = []\<rparr>)"
    and "release_execution E t st = (st, [], Inr \<lparr>rl_released = [], rl_provider_released = []\<rparr>)"
proof -
  obtain usage ps fs where fg: "finalize_grants E (reservation_key t) m s (bs_grant_usage st) = (usage, ps, fs)"
    using prod_cases3 by blast
  obtain pu st2 n pf where fp: "finalize_providers E (reservation_key t) m s (bs_provider_budget_usage st)
      (st\<lparr>bs_grant_usage := usage, bs_pending_usage_summaries := bs_pending_usage_summaries st @ ps\<rparr>) = (pu, st2, n, pf)"
    by (metis prod_cases4)
  show "finalize_execution E t m s st = (st, [], Inr \<lparr>fz_finalized = [], fz_provider_finalized = []\<rparr>)"
    using finalize_grants_settles [OF fg] finalize_providers_settles [OF fp] assms fg fp
    by (simp add: finalize_execution_def Let_def)
  have none: "List.map_filter f xs = []" if "\<forall>x\<in>set xs. f x = None" for f :: "'a \<Rightarrow> 'b option" and xs
    using that by (induction xs) (simp_all add: List.map_filter_simps)
  show "release_execution E t st = (st, [], Inr \<lparr>rl_released = [], rl_provider_released = []\<rparr>)"
  proof -
    have "List.map_filter (\<lambda>(k, u). map_option (Pair (gu_grant_id u)) (released_of (reservation_key t) (gu_reservations u)))
        (bs_grant_usage st) = []"
      and "List.map_filter (\<lambda>(k, u). map_option (Pair (pu_provider_id u)) (released_of (reservation_key t) (pu_reservations u)))
        (bs_provider_budget_usage st) = []"
      using assms by (auto simp: released_of_def intro!: none)
    then show ?thesis by (simp add: release_execution_def Let_def)
  qed
qed

text \<open>What one grant's entry becomes when an execution is completed.\<close>

definition grant_charged :: "string \<Rightarrow> exec_metrics option \<Rightarrow> grant_usage \<Rightarrow> grant_usage \<Rightarrow> bool" where
  "grant_charged rid m u u' =
     (case map_of (gu_reservations u) rid of
        None \<Rightarrow> u' = u
      | Some rv \<Rightarrow>
          gu_used_cost_cents u' = gu_used_cost_cents u +
            max (case final_cost_cents m of Some c \<Rightarrow> c | None \<Rightarrow> rv_reserved_cost_cents rv) 0 \<and>
          gu_used_requests u' = gu_used_requests u + 1 \<and>
          gu_reserved_cost_cents u' = gu_reserved_cost_cents u - rv_reserved_cost_cents rv \<and>
          gu_reservations u' = AList.delete rid (gu_reservations u))"

lemma settled_grant_charged:
  assumes "balanced (gu_reserved_cost_cents u) (gu_reservations u)"
  shows "grant_charged rid m u (settled_grant E rid m ''completed'' u)"
  using grant_ledger.drop_reserved_exact [OF assms]
  by (auto simp: grant_charged_def settled_grant_def grant_ledger.held_drop charge_grant_def grant_drop_def
      split: option.splits)

text \<open>
  C4. Settling is exact and happens once. After a successful finalisation of a completed
  execution every grant that held its reservation has been charged the final cost (the reserved
  one when the execution reports none) and one request, and has let go of exactly what it had
  reserved; the grants that did not hold it are untouched; and finalising or releasing the same
  execution again changes nothing.
\<close>

theorem finalize_exact_and_once:
  assumes "finalize_execution E t m ''completed'' st = (st', ns, Inr r)" and "budget_reachable st"
  shows "list_all2 (\<lambda>ku ku'. fst ku' = fst ku \<and> grant_charged (reservation_key t) m (snd ku) (snd ku'))
      (bs_grant_usage st) (bs_grant_usage st') \<and>
    finalize_execution E' t m' s' st' = (st', [], Inr \<lparr>fz_finalized = [], fz_provider_finalized = []\<rparr>) \<and>
    release_execution E' t st' = (st', [], Inr \<lparr>rl_released = [], rl_provider_released = []\<rparr>)"
proof -
  note gone = finalize_execution_gone [OF assms(1)]
  have "balanced (gu_reserved_cost_cents (snd ku)) (gu_reservations (snd ku))" if "ku \<in> set (bs_grant_usage st)" for ku
    using budget_reachable_inv [OF assms(2)] that by (auto simp: budget_inv_def grants_balanced_def list_all_iff)
  then have "list_all2 (\<lambda>ku ku'. fst ku' = fst ku \<and> grant_charged (reservation_key t) m (snd ku) (snd ku'))
      (bs_grant_usage st) (map (\<lambda>(k, u). (k, settled_grant E (reservation_key t) m ''completed'' u)) (bs_grant_usage st))"
    by (intro list_all2_map_self) (simp add: split_beta settled_grant_charged)
  with gone settled_nothing_held [of st' t] show ?thesis by simp
qed

theorem finalize_exact_and_once_witness:
  "\<exists>st'. fst (finalize_execution sample_env ''t1'' None ''completed'' sample_state) = st' \<and>
     map_of (bs_grant_usage st') ''g1'' \<noteq> None \<and>
     release_execution sample_env ''t1'' st' = (st', [], Inr \<lparr>rl_released = [], rl_provider_released = []\<rparr>)"
proof -
  obtain st' ns res where f: "finalize_execution sample_env ''t1'' None ''completed'' sample_state = (st', ns, res)"
    using prod_cases3 by blast
  have "case finalize_execution sample_env ''t1'' None ''completed'' sample_state of
      (st', _, Inr b) \<Rightarrow> map_of (bs_grant_usage st') ''g1'' \<noteq> None | _ \<Rightarrow> False"
    by code_simp
  with f obtain b where b: "res = Inr b" "map_of (bs_grant_usage st') ''g1'' \<noteq> None" by (auto split: sum.splits)
  have "budget_reachable sample_state"
    unfolding sample_state_def sample_reserve_def
    using budget_reachable.reserve [OF budget_reachable.init] by (metis prod.collapse)
  from finalize_exact_and_once [OF f [unfolded b(1)] this] f b show ?thesis by auto
qed

text \<open>
  A grant whose scope is a service is accepted by the validation of the stored policy and
  applies to no request: a policy that only has such grants denies every execution.
\<close>

theorem service_grant_never_applies:
  "\<exists>grant. validate_grant 0 (PDict grant) = None \<and> dget grant ''scope_kind'' = PStr ''service'' \<and>
     (\<forall>req provider_id. \<not> grant_matches req provider_id grant)"
proof -
  let ?g = "AList.update ''scope_kind'' (PStr ''service'') sample_grant"
  have "validate_grant 0 (PDict ?g) = None" "dget ?g ''scope_kind'' = PStr ''service''"
    and s: "py_lower (norm_string (dget ?g ''scope_kind'')) = ''service''"
    by code_simp+
  moreover have "\<not> grant_matches req provider_id ?g" for req provider_id
    unfolding grant_matches_def Let_def s by simp
  ultimately show ?thesis by blast
qed

text \<open>
  Reserving the same execution twice against a provider budget alone is refused as an
  exhausted budget, not as a conflict, although the budget would cover the second reservation.
\<close>

theorem provider_conflict_reported_exhausted:
  "\<exists>E t req p m g st st' ns b s u. budget_reachable st \<and>
     reserve_execution E t req p m g st = (st', ns, Inr b) \<and> \<not> brr_allowed b \<and>
     brr_reason b = Some ''provider_budget_exhausted'' \<and>
     provider_budget_settings E p = Some s \<and>
     map_of (bs_provider_budget_usage st) (current_usage_key E p s) = Some u \<and>
     map_of (pu_reservations u) (reservation_key t) \<noteq> None \<and>
     used_cost_usd_exact u * 100 + of_int (pu_reserved_cost_cents u) + 30 \<le> of_int (pu_budget_limit_cents u) \<and>
     reservation_cost_cents E st req p m = Inr 30"
proof -
  let ?res = "reserve_execution sample_env ''t1'' sample_budget_request ''openai'' ''m'' PNone"
  define st where "st = fst (?res (create_budget_state ''now''))"
  obtain st' ns r where two: "?res st = (st', ns, r)" using prod_cases3 by blast
  have "budget_reachable st"
    unfolding st_def using budget_reachable.reserve [OF budget_reachable.init] by (metis prod.collapse)
  moreover have "case ?res (fst (?res (create_budget_state ''now''))) of
      (_, _, Inr b) \<Rightarrow> \<not> brr_allowed b \<and> brr_reason b = Some ''provider_budget_exhausted'' | _ \<Rightarrow> False"
    by code_simp
  moreover have "case map_of (bs_provider_budget_usage (fst (?res (create_budget_state ''now'')))) ''openai:monthly:w0'' of
      Some u \<Rightarrow> map_of (pu_reservations u) (reservation_key ''t1'') \<noteq> None \<and>
        used_cost_usd_exact u * 100 + of_int (pu_reserved_cost_cents u) + 30 \<le> of_int (pu_budget_limit_cents u)
    | None \<Rightarrow> False"
    by code_simp
  moreover have "provider_budget_settings sample_env ''openai'' = Some [(''max_cost_cents'', PInt 100)]"
    "current_usage_key sample_env ''openai'' [(''max_cost_cents'', PInt 100)] = ''openai:monthly:w0''"
    by code_simp+
  moreover have "reservation_cost_cents sample_env (fst (?res (create_budget_state ''now''))) sample_budget_request ''openai'' ''m''
      = Inr 30" by code_simp
  ultimately obtain b u where "budget_reachable st" "?res st = (st', ns, Inr b)" "\<not> brr_allowed b"
    "brr_reason b = Some ''provider_budget_exhausted''"
    "provider_budget_settings sample_env ''openai'' = Some [(''max_cost_cents'', PInt 100)]"
    "map_of (bs_provider_budget_usage st) (current_usage_key sample_env ''openai'' [(''max_cost_cents'', PInt 100)]) = Some u"
    "map_of (pu_reservations u) (reservation_key ''t1'') \<noteq> None"
    "used_cost_usd_exact u * 100 + of_int (pu_reserved_cost_cents u) + 30 \<le> of_int (pu_budget_limit_cents u)"
    "reservation_cost_cents sample_env st sample_budget_request ''openai'' ''m'' = Inr 30"
    using two unfolding st_def [symmetric] by (auto split: sum.splits option.splits)
  then show ?thesis by metis
qed

text \<open>
  A provider entry that records its spending in whole cents only (an entry written before
  the exact amount was kept) forgets it at the first completed execution: the amount counted
  against the budget goes down.
\<close>

theorem legacy_spending_forgotten:
  "\<exists>u m. 0 \<le> pu_used_cost_usd_exact u \<and> 0 \<le> final_cost_usd_exact m 0 \<and>
     used_cost_usd_exact (charge_provider m u) < used_cost_usd_exact u"
proof -
  let ?u = "\<lparr>pu_provider_id = ''openai'', pu_period = ''monthly'', pu_period_start = ''a'', pu_period_end = ''b'',
      pu_budget_limit_cents = 1000, pu_used_cost_cents = 500, pu_used_cost_usd_exact = 0,
      pu_reserved_cost_cents = 0, pu_reservations = [], pu_updated_at = ''t''\<rparr>"
  let ?m = "Some \<lparr>em_estimated_cost = Some (1 / 100), em_total_tokens = 10\<rparr>"
  have "0 \<le> final_cost_usd_exact ?m 0 \<and> used_cost_usd_exact (charge_provider ?m ?u) < used_cost_usd_exact ?u"
    by code_simp
  then show ?thesis by (intro exI [of _ ?u] exI [of _ ?m]) simp
qed

end
