(* ===== verification/Execution_Queue.thy ===== *)
theory Execution_Queue
  imports Queue_Contract "HOL-Library.Multiset"
begin

text \<open>
  \<open>runtime/execution_queue.py\<close>: the queues of execution jobs, their dispatchers and the tasks
  that run the jobs.

  The service is one asyncio event loop, and every access to its state is inside
  \<open>async with self._lock\<close>. Each such section is one atomic step here, and what a coroutine
  remembers between two sections (a dispatcher waiting for the admission answer, a job task that
  has started or not) is part of the state. Instants are integers (microseconds): the texts the
  code stores for its own instants are written by \<open>isoformat\<close> and read back by
  \<open>fromisoformat\<close>. A heap is the sorted list of its entries: the code reads its least entry,
  removes it, and sorts, and never looks at the layout.
\<close>

section \<open>Priorities\<close>

definition IMPORTANCE_RANK :: "(string \<times> int) list" where
  "IMPORTANCE_RANK = [(''critical'', 0), (''high'', 1), (''normal'', 2), (''low'', 3), (''background'', 4)]"

definition importance_rank :: "string \<Rightarrow> int" where
  "importance_rank k = (case map_of IMPORTANCE_RANK k of Some r \<Rightarrow> r | None \<Rightarrow> 2)"

text \<open>\<open>float\<close> deadlines, \<open>float("inf")\<close> when there is none.\<close>

datatype deadline = At int | Never

instantiation deadline :: linorder
begin

fun less_eq_deadline :: "deadline \<Rightarrow> deadline \<Rightarrow> bool" where
  "less_eq_deadline (At a) (At b) = (a \<le> b)"
| "less_eq_deadline x Never = True"
| "less_eq_deadline Never (At b) = False"

definition less_deadline :: "deadline \<Rightarrow> deadline \<Rightarrow> bool" where
  "less_deadline x y = (x \<le> y \<and> \<not> y \<le> x)"

instance
proof
  fix x y z :: deadline
  show "x < y \<longleftrightarrow> x \<le> y \<and> \<not> y \<le> x" by (simp add: less_deadline_def)
  show "x \<le> x" by (cases x) auto
  show "x \<le> y \<Longrightarrow> y \<le> z \<Longrightarrow> x \<le> z" by (cases x; cases y; cases z) auto
  show "x \<le> y \<Longrightarrow> y \<le> x \<Longrightarrow> x = y" by (cases x; cases y) auto
  show "x \<le> y \<or> y \<le> x" by (cases x; cases y) auto
qed

end

type_synonym entry = "int \<times> deadline \<times> int \<times> string"

definition entry_id :: "entry \<Rightarrow> string" where
  "entry_id e = snd (snd (snd e))"

section \<open>Jobs and the service\<close>

datatype job_status = Queued | Running | Completed | Failed | Cancelled | Expired_wait_budget

record job =
  jb_job_name :: string
  jb_client_id :: "string option"
  jb_queue :: string
  jb_runtime_lane :: string
  jb_importance :: string
  jb_priority :: pyval
  jb_queue_intent :: pydict
  jb_routing_decision :: pyval
  jb_status :: job_status
  jb_request :: pydict
  jb_result :: pyval
  jb_error :: "(string \<times> string) option"
  jb_running_cancellation_supported :: bool
  jb_created_at :: int
  jb_queued_at :: int
  jb_started_at :: "int option"
  jb_completed_at :: "int option"
  jb_expires_at :: int
  jb_sequence :: int
  jb_has_runner :: bool
  jb_blocked :: "(string \<times> pyval) option"
  jb_artifact_acknowledgement :: pyval
  jb_cancellation :: "(int \<times> string) option"
  jb_recovery :: "(string \<times> int \<times> string) option"

text \<open>A dispatcher that has ended, is about to look at its queue, waits for the admission of a job,
  or is about to register the task of the job it started.\<close>

datatype dispatcher = Ended | Looking | Admitting string | Registering string

text \<open>A job task that has been created, whose body has begun, or that has written the outcome and
  still has to leave through its \<open>finally\<close> block.\<close>

datatype task_phase = Created | Begun | Settled

record job_task =
  tk_queue :: string
  tk_phase :: task_phase
  tk_cancels :: nat

record queue_config =
  qc_check_after_seconds :: int
  qc_job_ttl_seconds :: int
  qc_max_pending_per_client :: int
  qc_cloud_concurrency :: int
  qc_queue_concurrency :: "(string \<times> int) list"
  qc_blocked_retry_seconds :: int
  qc_time :: time_env
  qc_naive_local :: "int \<Rightarrow> int"

record queue_service =
  qs_jobs :: "(string \<times> job) list"
  qs_queues :: "string \<Rightarrow> entry list"
  qs_active :: "string \<Rightarrow> int"
  qs_dispatchers :: "string \<Rightarrow> dispatcher"
  qs_tasks :: "(string \<times> job_task) list"
  qs_registered :: "string list"
  qs_retries :: "string list"
  qs_sequence :: int
  qs_expired_record_count :: nat
  qs_started :: "string list"

text \<open>\<open>qs_started\<close> records the jobs that were dispatched, in order; the code keeps no such list.\<close>

definition new_service :: queue_service where
  "new_service =
     \<lparr>qs_jobs = [], qs_queues = (\<lambda>k. []), qs_active = (\<lambda>k. 0), qs_dispatchers = (\<lambda>k. Ended),
      qs_tasks = [], qs_registered = [], qs_retries = [], qs_sequence = 1,
      qs_expired_record_count = 0, qs_started = []\<rparr>"

definition normalize_queue_key_in :: "(string \<times> int) list \<Rightarrow> pyval \<Rightarrow> string" where
  "normalize_queue_key_in queue_concurrency v =
     (let normalized = lane_key v
      in if normalized = ''local'' then ''local''
         else if normalized \<in> set RUNTIME_LANES then normalized
         else if normalized \<in> {''visual_runtime'', ''comfyui'', ''comfyui_gpu'', ''gpu_comfyui''} then ''visual_gpu''
         else if normalized \<in> {''visual_cpu'', ''comfyui_cpu'', ''cpu_comfyui''} then ''visual_cpu''
         else if normalized \<in> {''training'', ''sd_scripts'', ''sd_scripts_training''} then ''training_runtime''
         else if normalized \<in> {''vision'', ''local_vision''} then ''vision_llm''
         else if map_of queue_concurrency normalized \<noteq> None then normalized
         else ''cloud'')"

text \<open>The constructor: the limits are made positive, and an extra concurrency applies to the queue its
  name stands for, unless that is the local or the cloud queue.\<close>

fun extra_concurrency :: "(string \<times> int) list \<Rightarrow> (string \<times> int) list \<Rightarrow> (string \<times> int) list" where
  "extra_concurrency m [] = m"
| "extra_concurrency m ((queue_name, n) # rest) =
     (let k = normalize_queue_key_in m (PStr queue_name)
      in extra_concurrency (if k \<in> {''local'', ''cloud''} then m else AList.update k (max n 1) m) rest)"

definition make_queue_config ::
    "int \<Rightarrow> int \<Rightarrow> int \<Rightarrow> int \<Rightarrow> int \<Rightarrow> int \<Rightarrow> (string \<times> int) list \<Rightarrow> time_env \<Rightarrow> (int \<Rightarrow> int) \<Rightarrow> queue_config" where
  "make_queue_config local_concurrency cloud_concurrency check_after ttl max_pending retry extra T naive_local =
     \<lparr>qc_check_after_seconds = max check_after 1, qc_job_ttl_seconds = max ttl 60,
      qc_max_pending_per_client = max max_pending 0, qc_cloud_concurrency = max cloud_concurrency 1,
      qc_queue_concurrency =
        extra_concurrency
          [(''local'', max local_concurrency 1), (''cloud'', max cloud_concurrency 1), (''text_llm'', 1),
           (''vision_llm'', 1), (''visual_gpu'', 1), (''visual_cpu'', 1), (''training_runtime'', 1)] extra,
      qc_blocked_retry_seconds = max retry 1, qc_time = T, qc_naive_local = naive_local\<rparr>"

definition concurrency :: "queue_config \<Rightarrow> string \<Rightarrow> int" where
  "concurrency C queue_key =
     max (case map_of (qc_queue_concurrency C) queue_key of
            Some n \<Rightarrow> if n \<noteq> 0 then n else qc_cloud_concurrency C
          | None \<Rightarrow> qc_cloud_concurrency C) 1"

definition normalize_queue_key :: "queue_config \<Rightarrow> pyval \<Rightarrow> string" where
  "normalize_queue_key C v = normalize_queue_key_in (qc_queue_concurrency C) v"

section \<open>Waiting budgets\<close>

definition queue_intent_max_wait_seconds :: "pydict \<Rightarrow> int option" where
  "queue_intent_max_wait_seconds queue_intent =
     (case py_int (dget queue_intent ''max_wait_seconds'') of
        Inr n \<Rightarrow> if 0 \<le> n then Some n else None
      | Inl _ \<Rightarrow> None)"

definition instant_of :: "queue_config \<Rightarrow> datetime \<Rightarrow> int" where
  "instant_of C d = (case d of Aware t \<Rightarrow> t | Naive t \<Rightarrow> qc_naive_local C t)"

definition queue_intent_deadline_at :: "queue_config \<Rightarrow> pydict \<Rightarrow> int option" where
  "queue_intent_deadline_at C queue_intent =
     (let v = dget queue_intent ''deadline_at''
      in if \<not> truthy v then None else map_option (instant_of C) (fromisoformat (qc_time C) (py_str v)))"

definition deadline_sort_value :: "queue_config \<Rightarrow> int \<Rightarrow> pydict \<Rightarrow> deadline" where
  "deadline_sort_value C now queue_intent =
     (case queue_intent_deadline_at C queue_intent of
        Some t \<Rightarrow> At t
      | None \<Rightarrow>
          (case queue_intent_max_wait_seconds queue_intent of
             Some n \<Rightarrow> At (now + seconds n)
           | None \<Rightarrow> Never))"

definition effective_deadline :: "queue_config \<Rightarrow> job \<Rightarrow> int option" where
  "effective_deadline C j =
     (case (queue_intent_deadline_at C (jb_queue_intent j),
            map_option (\<lambda>n. jb_queued_at j + seconds n) (queue_intent_max_wait_seconds (jb_queue_intent j))) of
        (Some a, Some b) \<Rightarrow> Some (min a b)
      | (Some a, None) \<Rightarrow> Some a
      | (None, b) \<Rightarrow> b)"

definition runtime_lane_for_job :: "string \<Rightarrow> pydict \<Rightarrow> pydict \<Rightarrow> string" where
  "runtime_lane_for_job queue_key request_payload queue_intent =
     (if truthy (dget queue_intent ''runtime_lane'')
      then normalize_runtime_lane ''text_llm'' (dget queue_intent ''runtime_lane'')
      else infer_runtime_lane (PStr queue_key) (dget request_payload ''task_family'')
             (dget request_payload ''requested_provider''))"

definition queue_entry :: "queue_config \<Rightarrow> int \<Rightarrow> string \<Rightarrow> job \<Rightarrow> entry" where
  "queue_entry C now job_id j =
     (importance_rank (jb_importance j), deadline_sort_value C now (jb_queue_intent j), jb_sequence j, job_id)"

definition estimated_start_seconds :: "queue_config \<Rightarrow> queue_service \<Rightarrow> string \<Rightarrow> int \<Rightarrow> int" where
  "estimated_start_seconds C st queue_key position =
     (let c = max (concurrency C queue_key) 1;
          active_count = max (qs_active st queue_key) 0;
          jobs_ahead = max (active_count + max position 1 - 1) 0;
          waves_ahead = (if jobs_ahead \<noteq> 0 then (jobs_ahead + c - 1) div c else 0)
      in waves_ahead * qc_check_after_seconds C)"

definition client_pending_count :: "queue_service \<Rightarrow> string \<Rightarrow> nat" where
  "client_pending_count st client_id =
     (if client_id = [] then 0
      else length (filter (\<lambda>(k, j). jb_client_id j = Some client_id \<and> jb_status j \<in> {Queued, Running}) (qs_jobs st)))"

section \<open>Steps inside the lock\<close>

definition put_job :: "string \<Rightarrow> job \<Rightarrow> queue_service \<Rightarrow> queue_service" where
  "put_job job_id j st = st\<lparr>qs_jobs := AList.update job_id j (qs_jobs st)\<rparr>"

definition push_entry :: "string \<Rightarrow> entry \<Rightarrow> queue_service \<Rightarrow> queue_service" where
  "push_entry queue_key e st =
     st\<lparr>qs_queues := (qs_queues st)(queue_key := insort e (qs_queues st queue_key))\<rparr>"

definition remove_from_queue :: "string \<Rightarrow> string \<Rightarrow> queue_service \<Rightarrow> queue_service" where
  "remove_from_queue queue_key job_id st =
     st\<lparr>qs_queues := (qs_queues st)(queue_key := filter (\<lambda>e. entry_id e \<noteq> job_id) (qs_queues st queue_key))\<rparr>"

definition pop_entry :: "string \<Rightarrow> queue_service \<Rightarrow> queue_service" where
  "pop_entry queue_key st = st\<lparr>qs_queues := (qs_queues st)(queue_key := tl (qs_queues st queue_key))\<rparr>"

definition set_dispatcher :: "string \<Rightarrow> dispatcher \<Rightarrow> queue_service \<Rightarrow> queue_service" where
  "set_dispatcher queue_key d st = st\<lparr>qs_dispatchers := (qs_dispatchers st)(queue_key := d)\<rparr>"

definition ensure_dispatcher :: "string \<Rightarrow> queue_service \<Rightarrow> queue_service" where
  "ensure_dispatcher queue_key st =
     (if qs_dispatchers st queue_key \<noteq> Ended then st else set_dispatcher queue_key Looking st)"

definition is_terminal :: "job_status \<Rightarrow> bool" where
  "is_terminal s = (s \<in> {Completed, Failed, Cancelled, Expired_wait_budget})"

definition record_due :: "int \<Rightarrow> job \<Rightarrow> bool" where
  "record_due now j = (is_terminal (jb_status j) \<and> jb_expires_at j \<le> now)"

definition prune_expired_terminal_jobs :: "int \<Rightarrow> queue_service \<Rightarrow> queue_service" where
  "prune_expired_terminal_jobs now st =
     (let deleted = map fst (filter (\<lambda>(k, j). record_due now j) (qs_jobs st))
      in st\<lparr>qs_jobs := filter (\<lambda>(k, j). \<not> record_due now j) (qs_jobs st),
            qs_registered := filter (\<lambda>k. k \<notin> set deleted) (qs_registered st),
            qs_expired_record_count := qs_expired_record_count st + length deleted\<rparr>)"

definition dict_update :: "pydict \<Rightarrow> pydict \<Rightarrow> pydict" where
  "dict_update d items = fold (\<lambda>kv m. AList.update (fst kv) (snd kv) m) items d"

definition spilled_routing :: "pyval \<Rightarrow> pyval" where
  "spilled_routing routing_decision =
     (let r = as_dict routing_decision
      in PDict (dict_update r
           [(''original_queue'', py_or (dget r ''original_queue'') (PStr ''local'')),
            (''selected_queue'', PStr ''cloud''), (''spillover'', PBool True),
            (''reason'', PStr ''rerouted_to_cloud''), (''local_unavailable_reason'', PStr ''expired_wait_budget'')]))"

definition monitor_job :: "queue_config \<Rightarrow> int \<Rightarrow> string \<Rightarrow> queue_service \<Rightarrow> queue_service" where
  "monitor_job C now job_id st =
     (case map_of (qs_jobs st) job_id of
        None \<Rightarrow> st
      | Some j \<Rightarrow>
          if jb_status j \<noteq> Queued then st
          else (case effective_deadline C j of
             None \<Rightarrow> st
           | Some d \<Rightarrow>
               if now \<le> d then st
               else if jb_queue j = ''local'' \<and> truthy (dget (jb_queue_intent j) ''allow_cloud_spillover'')
               then
                 let j' = j\<lparr>jb_queue := ''cloud'', jb_routing_decision := spilled_routing (jb_routing_decision j)\<rparr>
                 in ensure_dispatcher ''cloud''
                      (push_entry ''cloud'' (queue_entry C now job_id j')
                        (put_job job_id j' (remove_from_queue (jb_queue j) job_id st)))
               else
                 put_job job_id
                   (j\<lparr>jb_status := Expired_wait_budget, jb_completed_at := Some now,
                      jb_expires_at := now + seconds (qc_job_ttl_seconds C),
                      jb_error := Some (''expired_wait_budget'', ''queue wait budget expired before execution''),
                      jb_has_runner := False\<rparr>)
                   (remove_from_queue (jb_queue j) job_id st)))"

definition monitor_deadlines :: "queue_config \<Rightarrow> int \<Rightarrow> queue_service \<Rightarrow> queue_service" where
  "monitor_deadlines C now st =
     (let st' = prune_expired_terminal_jobs now st
      in fold (monitor_job C now) (map fst (qs_jobs st')) st')"

section \<open>The operations\<close>

record enqueue_args =
  eq_queue :: pyval
  eq_importance :: pyval
  eq_job_name :: pyval
  eq_request_payload :: pyval
  eq_routing_decision :: pyval
  eq_queue_intent :: pyval
  eq_client_id :: pyval
  eq_running_cancellation_supported :: bool

definition set_default :: "string \<Rightarrow> pyval \<Rightarrow> pydict \<Rightarrow> pydict" where
  "set_default k v d = (if map_of d k = None then AList.update k v d else d)"

definition importance_key :: "pyval \<Rightarrow> string" where
  "importance_key v = py_lower (py_strip (str_or v ''normal''))"

definition known_importance :: "string \<Rightarrow> string" where
  "known_importance k = (if map_of IMPORTANCE_RANK k \<noteq> None then k else ''normal'')"

definition new_job :: "queue_config \<Rightarrow> int \<Rightarrow> string \<Rightarrow> int \<Rightarrow> enqueue_args \<Rightarrow> job" where
  "new_job C now job_id sequence a =
     (let queue_key = normalize_queue_key C (eq_queue a);
          importance = known_importance (importance_key (eq_importance a));
          request = as_dict (eq_request_payload a);
          lane = runtime_lane_for_job queue_key request (as_dict (eq_queue_intent a));
          intent = set_default ''priority'' (PStr importance)
                     (set_default ''runtime_lane'' (PStr lane) (as_dict (eq_queue_intent a)));
          name = py_strip (str_or (eq_job_name a) job_id)
      in \<lparr>jb_job_name = (if name = [] then job_id else name),
          jb_client_id = none_if_empty (norm_string (eq_client_id a)),
          jb_queue = queue_key, jb_runtime_lane = lane, jb_importance = importance,
          jb_priority = dget intent ''priority'', jb_queue_intent = intent,
          jb_routing_decision = (if is_dict (eq_routing_decision a) then eq_routing_decision a else PNone),
          jb_status = Queued, jb_request = request, jb_result = PNone, jb_error = None,
          jb_running_cancellation_supported = eq_running_cancellation_supported a,
          jb_created_at = now, jb_queued_at = now, jb_started_at = None, jb_completed_at = None,
          jb_expires_at = now + seconds (qc_job_ttl_seconds C), jb_sequence = sequence, jb_has_runner = True,
          jb_blocked = None, jb_artifact_acknowledgement = PNone, jb_cancellation = None, jb_recovery = None\<rparr>)"

datatype enqueue_result =
    Client_limit_exceeded nat
  | Deadline_unreachable int int
  | Enqueued string

definition client_limited :: "queue_config \<Rightarrow> queue_service \<Rightarrow> job \<Rightarrow> nat option" where
  "client_limited C st j =
     (case jb_client_id j of
        None \<Rightarrow> None
      | Some c \<Rightarrow>
          if qc_max_pending_per_client C \<noteq> 0 \<and> qc_max_pending_per_client C \<le> int (client_pending_count st c)
          then Some (client_pending_count st c) else None)"

definition enqueue ::
    "queue_config \<Rightarrow> int \<Rightarrow> string \<Rightarrow> enqueue_args \<Rightarrow> queue_service \<Rightarrow> queue_service \<times> enqueue_result" where
  "enqueue C now job_id a st0 =
     (let j = new_job C now job_id (qs_sequence st0) a;
          st = monitor_deadlines C now (st0\<lparr>qs_sequence := qs_sequence st0 + 1\<rparr>);
          k = jb_queue j;
          est = estimated_start_seconds C st k (int (length (qs_queues st k)) + 1)
      in case client_limited C st j of
           Some n \<Rightarrow> (st, Client_limit_exceeded n)
         | None \<Rightarrow>
             (case queue_intent_max_wait_seconds (jb_queue_intent j) of
                Some mw \<Rightarrow>
                  if mw < est then (st, Deadline_unreachable est mw)
                  else (ensure_dispatcher k (push_entry k (queue_entry C now job_id j) (put_job job_id j st)),
                        Enqueued job_id)
              | None \<Rightarrow>
                  (ensure_dispatcher k (push_entry k (queue_entry C now job_id j) (put_job job_id j st)),
                   Enqueued job_id)))"

datatype ack_result = Ack_not_found | Ack_not_ready | Acknowledged pyval

definition acknowledge_artifacts :: "string \<Rightarrow> string \<Rightarrow> pyval \<Rightarrow> queue_service \<Rightarrow> queue_service \<times> ack_result" where
  "acknowledge_artifacts now_iso job_id acknowledgement st =
     (let k = py_strip job_id
      in case map_of (qs_jobs st) k of
           None \<Rightarrow> (st, Ack_not_found)
         | Some j \<Rightarrow>
             if jb_status j \<noteq> Completed then (st, Ack_not_ready)
             else if is_dict (jb_artifact_acknowledgement j) then (st, Acknowledged (jb_artifact_acknowledgement j))
             else
               let recorded = PDict (set_default ''acknowledged_at'' (PStr now_iso)
                     (AList.update ''job_id'' (PStr k)
                       (AList.update ''status'' (PStr ''acknowledged'') (as_dict acknowledgement))))
               in (put_job k (j\<lparr>jb_artifact_acknowledgement := recorded\<rparr>) st, Acknowledged recorded))"

datatype cancel_result =
    Cancel_not_found
  | Job_cancelled
  | Cancel_unsupported
  | Cancel_unavailable
  | Cancel_already job_status
  | Cancel_requested

definition cancel_reason :: "pyval \<Rightarrow> string" where
  "cancel_reason reason =
     (let r = py_strip (str_or reason ''cancelled_by_client'') in if r = [] then ''cancelled_by_client'' else r)"

definition cancelled_job :: "queue_config \<Rightarrow> int \<Rightarrow> pyval \<Rightarrow> job \<Rightarrow> job" where
  "cancelled_job C now reason j =
     j\<lparr>jb_status := Cancelled, jb_completed_at := Some now,
       jb_expires_at := now + seconds (qc_job_ttl_seconds C),
       jb_error := Some (''cancelled'', cancel_reason reason), jb_has_runner := False\<rparr>"

text \<open>\<open>cancel_job\<close> up to \<open>running_task.cancel()\<close>, which counts one more cancellation of the task;
  \<open>done()\<close> of a registered task says that it is no longer among the live ones.\<close>

definition cancel_job ::
    "queue_config \<Rightarrow> int \<Rightarrow> string \<Rightarrow> pyval \<Rightarrow> queue_service \<Rightarrow> queue_service \<times> cancel_result" where
  "cancel_job C now job_id reason st0 =
     (let st = monitor_deadlines C now st0; k = py_strip job_id
      in case map_of (qs_jobs st) k of
           None \<Rightarrow> (st, Cancel_not_found)
         | Some j \<Rightarrow>
             if jb_status j = Queued
             then (put_job k (cancelled_job C now reason j) (remove_from_queue (jb_queue j) k st), Job_cancelled)
             else if jb_status j = Running
             then (if \<not> jb_running_cancellation_supported j then (st, Cancel_unsupported)
                   else (case map_of (qs_tasks st) k of
                      None \<Rightarrow> (st, Cancel_unavailable)
                    | Some t \<Rightarrow>
                        if k \<notin> set (qs_registered st) then (st, Cancel_unavailable)
                        else ((put_job k (j\<lparr>jb_cancellation := Some (now, cancel_reason reason)\<rparr>) st)
                                \<lparr>qs_tasks := AList.update k (t\<lparr>tk_cancels := Suc (tk_cancels t)\<rparr>) (qs_tasks st)\<rparr>,
                              Cancel_requested)))
             else (st, Cancel_already (jb_status j)))"

subsection \<open>Dispatching\<close>

text \<open>The first locked section of \<open>_dispatch_loop\<close>.\<close>

definition dispatch_look :: "queue_config \<Rightarrow> string \<Rightarrow> queue_service \<Rightarrow> queue_service" where
  "dispatch_look C k st =
     (if concurrency C k \<le> qs_active st k then set_dispatcher k Ended st
      else case qs_queues st k of
             [] \<Rightarrow> set_dispatcher k Ended st
           | e # _ \<Rightarrow>
               (case map_of (qs_jobs st) (entry_id e) of
                  Some j \<Rightarrow> if jb_status j = Queued then set_dispatcher k (Admitting (entry_id e)) st
                           else pop_entry k st
                | None \<Rightarrow> pop_entry k st))"

record admission =
  ad_allowed :: bool
  ad_reason :: pyval
  ad_detail :: pyval

definition schedule_blocked_retry :: "string \<Rightarrow> queue_service \<Rightarrow> queue_service" where
  "schedule_blocked_retry k st =
     (if k \<in> set (qs_retries st) then st else st\<lparr>qs_retries := k # qs_retries st\<rparr>)"

definition start_job :: "int \<Rightarrow> string \<Rightarrow> string \<Rightarrow> job \<Rightarrow> queue_service \<Rightarrow> queue_service" where
  "start_job now k job_id j st =
     (let st' = put_job job_id (j\<lparr>jb_blocked := None, jb_status := Running, jb_started_at := Some now\<rparr>) (pop_entry k st)
      in st'\<lparr>qs_active := (qs_active st)(k := qs_active st k + 1),
             qs_tasks := AList.update job_id \<lparr>tk_queue = k, tk_phase = Created, tk_cancels = 0\<rparr> (qs_tasks st),
             qs_dispatchers := (qs_dispatchers st)(k := Registering job_id),
             qs_started := qs_started st @ [job_id]\<rparr>)"

text \<open>The second locked section: the answer of the lane admission for \<open>job_id\<close> has arrived.\<close>

definition dispatch_admitted :: "int \<Rightarrow> string \<Rightarrow> string \<Rightarrow> admission \<Rightarrow> queue_service \<Rightarrow> queue_service" where
  "dispatch_admitted now k job_id ad st =
     (case qs_queues st k of
        [] \<Rightarrow> set_dispatcher k Looking st
      | e # _ \<Rightarrow>
          if entry_id e \<noteq> job_id then set_dispatcher k Looking st
          else (case map_of (qs_jobs st) job_id of
             None \<Rightarrow> set_dispatcher k Looking (pop_entry k st)
           | Some j \<Rightarrow>
               if jb_status j \<noteq> Queued then set_dispatcher k Looking (pop_entry k st)
               else if \<not> ad_allowed ad
               then set_dispatcher k Ended
                      (schedule_blocked_retry k
                        (put_job job_id
                          (j\<lparr>jb_blocked := Some (str_or (ad_reason ad) ''runtime_lane_not_ready'', ad_detail ad)\<rparr>) st))
               else start_job now k job_id j st))"

definition register_task :: "string \<Rightarrow> string \<Rightarrow> queue_service \<Rightarrow> queue_service" where
  "register_task k job_id st =
     set_dispatcher k Looking (st\<lparr>qs_registered := List.insert job_id (qs_registered st)\<rparr>)"

definition retry_blocked_queue :: "queue_config \<Rightarrow> int \<Rightarrow> string \<Rightarrow> queue_service \<Rightarrow> queue_service" where
  "retry_blocked_queue C now k st0 =
     (let st = monitor_deadlines C now (st0\<lparr>qs_retries := removeAll k (qs_retries st0)\<rparr>)
      in if qs_queues st k \<noteq> [] then ensure_dispatcher k st else st)"

subsection \<open>Running\<close>

datatype run_outcome = Returned pyval | Raised string string | Cancel_delivered

text \<open>The outcome a job task writes: \<open>Raised\<close> carries the text of the exception and the name of its
  type.\<close>

definition settled_job :: "queue_config \<Rightarrow> int \<Rightarrow> run_outcome \<Rightarrow> job \<Rightarrow> job" where
  "settled_job C now oc j =
     (let j' = j\<lparr>jb_completed_at := Some now, jb_expires_at := now + seconds (qc_job_ttl_seconds C),
                 jb_has_runner := False\<rparr>
      in case oc of
           Returned r \<Rightarrow> j'\<lparr>jb_status := Completed, jb_result := (if is_dict r then r else PDict [])\<rparr>
         | Raised msg type_name \<Rightarrow>
             j'\<lparr>jb_status := Failed,
                jb_error := Some (let m = (if py_strip msg = [] then type_name else py_strip msg) in (m, m))\<rparr>
         | Cancel_delivered \<Rightarrow>
             j'\<lparr>jb_status := Cancelled, jb_result := PNone, jb_artifact_acknowledgement := PNone,
                jb_error := Some (''cancelled'',
                  case jb_cancellation j of Some (_, r) \<Rightarrow> if r = [] then ''cancelled_by_client'' else r
                  | None \<Rightarrow> ''cancelled_by_client'')\<rparr>)"

definition set_phase :: "string \<Rightarrow> task_phase \<Rightarrow> queue_service \<Rightarrow> queue_service" where
  "set_phase job_id ph st =
     (case map_of (qs_tasks st) job_id of
        None \<Rightarrow> st
      | Some t \<Rightarrow> st\<lparr>qs_tasks := AList.update job_id (t\<lparr>tk_phase := ph\<rparr>) (qs_tasks st)\<rparr>)"

definition settle_task :: "queue_config \<Rightarrow> int \<Rightarrow> string \<Rightarrow> run_outcome \<Rightarrow> queue_service \<Rightarrow> queue_service" where
  "settle_task C now job_id oc st =
     set_phase job_id Settled
       (case map_of (qs_jobs st) job_id of None \<Rightarrow> st | Some j \<Rightarrow> put_job job_id (settled_job C now oc j) st)"

text \<open>The \<open>finally\<close> block.\<close>

definition leave_task :: "queue_config \<Rightarrow> string \<Rightarrow> job_task \<Rightarrow> queue_service \<Rightarrow> queue_service" where
  "leave_task C job_id t st =
     fold ensure_dispatcher (map fst (qc_queue_concurrency C))
       (st\<lparr>qs_tasks := AList.delete job_id (qs_tasks st),
           qs_registered := removeAll job_id (qs_registered st),
           qs_active := (qs_active st)(tk_queue t := max (qs_active st (tk_queue t) - 1) 0)\<rparr>)"

definition start_recovered_jobs :: "queue_config \<Rightarrow> int \<Rightarrow> queue_service \<Rightarrow> queue_service" where
  "start_recovered_jobs C now st0 =
     (let st = monitor_deadlines C now st0
      in fold (\<lambda>k s. if qs_queues st k \<noteq> [] then ensure_dispatcher k s else s) (map fst (qc_queue_concurrency C)) st)"

section \<open>Restart\<close>

text \<open>
  \<open>_load_persisted_jobs\<close> on the jobs of the state file, given with their ids; \<open>recover\<close> says
  whether the recovery factory returns a runner for a job.
\<close>

definition recovered_fields :: "queue_config \<Rightarrow> job \<Rightarrow> job" where
  "recovered_fields C j =
     (let queue_key = normalize_queue_key C (PStr (jb_queue j));
          importance = known_importance (importance_key (PStr (jb_importance j)))
      in j\<lparr>jb_queue := queue_key,
           jb_runtime_lane := (if jb_runtime_lane j \<noteq> [] then jb_runtime_lane j
                               else runtime_lane_for_job queue_key (jb_request j) (jb_queue_intent j)),
           jb_importance := importance,
           jb_priority := py_or (jb_priority j) (py_or (dget (jb_queue_intent j) ''priority'') (PStr importance)),
           jb_has_runner := False, jb_sequence := max (jb_sequence j) 0\<rparr>)"

definition recovery_failed :: "int \<Rightarrow> string \<Rightarrow> string \<Rightarrow> string \<Rightarrow> string \<Rightarrow> job \<Rightarrow> job" where
  "recovery_failed now code message status original j =
     j\<lparr>jb_status := Failed,
       jb_completed_at := Some (case jb_completed_at j of Some t \<Rightarrow> t | None \<Rightarrow> now),
       jb_error := Some (code, message), jb_recovery := Some (status, now, original)\<rparr>"

definition load_job ::
    "queue_config \<Rightarrow> int \<Rightarrow> (job \<Rightarrow> bool) \<Rightarrow> string \<times> job \<Rightarrow> queue_service \<Rightarrow> queue_service" where
  "load_job C now recover item st =
     (let job_id = py_strip (fst item); j = recovered_fields C (snd item)
      in if job_id = [] then st
         else
           let st' = st\<lparr>qs_sequence := max (qs_sequence st) (jb_sequence j + 1)\<rparr>
           in case jb_status j of
                Queued \<Rightarrow>
                  if recover j
                  then
                    let j' = j\<lparr>jb_has_runner := True, jb_recovery := Some (''queued_for_resume'', now, ''queued'')\<rparr>
                    in push_entry (jb_queue j') (queue_entry C now job_id j') (put_job job_id j' st')
                  else put_job job_id
                         (recovery_failed now ''execution_queue_recovery_runner_unavailable''
                           ''queued job could not be reconstructed safely after restart'' ''failed'' ''queued'' j) st'
              | Running \<Rightarrow>
                  put_job job_id
                    (recovery_failed now ''execution_queue_restart_while_running''
                      ''job was already dispatched before restart and was not replayed to avoid duplicate provider work''
                      ''not_replayed'' ''running'' j) st'
              | _ \<Rightarrow> put_job job_id j st')"

definition load_persisted_jobs ::
    "queue_config \<Rightarrow> int \<Rightarrow> (job \<Rightarrow> bool) \<Rightarrow> (string \<times> job) list \<Rightarrow> queue_service" where
  "load_persisted_jobs C now recover items =
     prune_expired_terminal_jobs now (fold (load_job C now recover) items new_service)"

section \<open>The event loop\<close>

text \<open>
  One turn of the event loop. Job ids are fresh (\<open>uuid4\<close>). A task that is cancelled before its
  body has begun never enters its \<open>try\<close>: Python raises \<open>CancelledError\<close> at the first line of a
  coroutine that has not started, so the task is gone and nothing else happens. A
  cancellation that arrives while a handler waits for the lock skips the writing of the outcome,
  and one more that arrives while the \<open>finally\<close> block waits for the lock skips that block.
\<close>

inductive queue_step :: "queue_config \<Rightarrow> queue_service \<Rightarrow> queue_service \<Rightarrow> bool" for C where
  s_enqueue: "map_of (qs_jobs st) i = None \<Longrightarrow> i \<notin> set (qs_started st) \<Longrightarrow> i \<notin> fst ` set (qs_tasks st) \<Longrightarrow>
    enqueue C now i a st = (st', r) \<Longrightarrow> queue_step C st st'"
| s_monitor: "queue_step C st (monitor_deadlines C now st)"
| s_recovered: "queue_step C st (start_recovered_jobs C now st)"
| s_ack: "acknowledge_artifacts now_iso i ack st = (st', r) \<Longrightarrow> queue_step C st st'"
| s_cancel: "cancel_job C now i reason st = (st', r) \<Longrightarrow> queue_step C st st'"
| s_look: "qs_dispatchers st k = Looking \<Longrightarrow> queue_step C st (dispatch_look C k st)"
| s_admitted: "qs_dispatchers st k = Admitting i \<Longrightarrow> queue_step C st (dispatch_admitted now k i ad st)"
| s_register: "qs_dispatchers st k = Registering i \<Longrightarrow> queue_step C st (register_task k i st)"
| s_retry: "k \<in> set (qs_retries st) \<Longrightarrow> queue_step C st (retry_blocked_queue C now k st)"
| s_begin: "map_of (qs_tasks st) i = Some t \<Longrightarrow> tk_phase t = Created \<Longrightarrow> tk_cancels t = 0 \<Longrightarrow>
    queue_step C st (set_phase i Begun st)"
| s_killed: "map_of (qs_tasks st) i = Some t \<Longrightarrow> tk_phase t = Created \<Longrightarrow> 0 < tk_cancels t \<Longrightarrow>
    queue_step C st (st\<lparr>qs_tasks := AList.delete i (qs_tasks st)\<rparr>)"
| s_settle: "map_of (qs_tasks st) i = Some t \<Longrightarrow> tk_phase t = Begun \<Longrightarrow>
    oc = Cancel_delivered \<longrightarrow> 0 < tk_cancels t \<Longrightarrow> queue_step C st (settle_task C now i oc st)"
| s_interrupted: "map_of (qs_tasks st) i = Some t \<Longrightarrow> tk_phase t = Begun \<Longrightarrow> 0 < tk_cancels t \<Longrightarrow>
    queue_step C st (set_phase i Settled st)"
| s_leave: "map_of (qs_tasks st) i = Some t \<Longrightarrow> tk_phase t = Settled \<Longrightarrow> queue_step C st (leave_task C i t st)"
| s_lost: "map_of (qs_tasks st) i = Some t \<Longrightarrow> tk_phase t = Settled \<Longrightarrow> 2 \<le> tk_cancels t \<Longrightarrow>
    queue_step C st (st\<lparr>qs_tasks := AList.delete i (qs_tasks st)\<rparr>)"

section \<open>Priority queues\<close>

text \<open>
  What the service needs of a queue: the head is a least entry, pushing, taking the head and
  removing a job's entry do to the entries what they say. The sorted lists of the model are such
  queues.
\<close>

locale priority_queue =
  fixes entries :: "'q \<Rightarrow> entry list"
    and push :: "entry \<Rightarrow> 'q \<Rightarrow> 'q"
    and pop :: "'q \<Rightarrow> 'q"
    and discard :: "string \<Rightarrow> 'q \<Rightarrow> 'q"
    and wf :: "'q \<Rightarrow> bool"
  assumes wf_push: "wf q \<Longrightarrow> wf (push e q)"
    and wf_pop: "wf q \<Longrightarrow> wf (pop q)"
    and wf_discard: "wf q \<Longrightarrow> wf (discard i q)"
    and mset_push: "mset (entries (push e q)) = add_mset e (mset (entries q))"
    and entries_pop: "entries (pop q) = tl (entries q)"
    and entries_discard: "mset (entries (discard i q)) = filter_mset (\<lambda>e. entry_id e \<noteq> i) (mset (entries q))"
    and head_least: "wf q \<Longrightarrow> entries q = e # es \<Longrightarrow> x \<in> set (entries q) \<Longrightarrow> e \<le> x"
begin

lemma set_push: "set (entries (push e q)) = insert e (set (entries q))"
  using arg_cong [OF mset_push [of e q], of set_mset] by simp

lemma set_discard: "set (entries (discard i q)) = {e \<in> set (entries q). entry_id e \<noteq> i}"
  using arg_cong [OF entries_discard [of i q], of set_mset] by simp

definition ids :: "'q \<Rightarrow> string set" where
  "ids q = entry_id ` set (entries q)"

definition unique :: "'q \<Rightarrow> bool" where
  "unique q = distinct (map entry_id (entries q))"

lemma unique_mset: "mset (entries q) = mset (entries q') \<Longrightarrow> unique q = unique q'"
  unfolding unique_def by (metis mset_eq_imp_distinct_iff mset_map)

lemma ids_push: "ids (push e q) = insert (entry_id e) (ids q)"
  by (simp add: ids_def set_push)

lemma unique_push: "unique q \<Longrightarrow> entry_id e \<notin> ids q \<Longrightarrow> unique (push e q)"
proof -
  assume "unique q" and "entry_id e \<notin> ids q"
  then have "distinct (map entry_id (e # entries q))" by (simp add: unique_def ids_def)
  moreover have "mset (map entry_id (entries (push e q))) = mset (map entry_id (e # entries q))"
    by (simp add: mset_push)
  ultimately show ?thesis unfolding unique_def by (metis mset_eq_imp_distinct_iff)
qed

lemma ids_discard: "ids (discard i q) = ids q - {i}"
  by (auto simp: ids_def set_discard)

lemma unique_discard: "unique q \<Longrightarrow> unique (discard i q)"
proof -
  assume u: "unique q"
  have "mset (entries (discard i q)) = mset (filter (\<lambda>e. entry_id e \<noteq> i) (entries q))"
    by (simp add: entries_discard)
  then have "mset (map entry_id (entries (discard i q))) = mset (map entry_id (filter (\<lambda>e. entry_id e \<noteq> i) (entries q)))"
    by simp
  moreover have "distinct (map entry_id (filter (\<lambda>e. entry_id e \<noteq> i) (entries q)))"
    using u by (simp add: unique_def distinct_map_filter)
  ultimately show ?thesis unfolding unique_def by (metis mset_eq_imp_distinct_iff)
qed

lemma pop_head:
  assumes "unique q" and "entries q = e # es"
  shows "unique (pop q)" and "ids (pop q) = ids q - {entry_id e}"
  using assms by (auto simp: unique_def ids_def entries_pop)

end

interpretation sorted_queue: priority_queue "\<lambda>q. q" insort tl "\<lambda>i. filter (\<lambda>e. entry_id e \<noteq> i)" sorted
  by unfold_locales (auto simp: sorted_insort sorted_tl sorted_wrt_filter)

section \<open>Queues and jobs agree\<close>

definition queued_ids :: "(string \<Rightarrow> job option) \<Rightarrow> string \<Rightarrow> string set" where
  "queued_ids jm k = {i. \<exists>j. jm i = Some j \<and> jb_status j = Queued \<and> jb_queue j = k}"

lemma queued_ids_update:
  "queued_ids (jm(i \<mapsto> j)) k =
     (if jb_status j = Queued \<and> jb_queue j = k then insert i (queued_ids jm k) else queued_ids jm k - {i})"
  by (auto simp: queued_ids_def)

lemma queued_ids_iff: "jm i = Some j \<Longrightarrow> i \<in> queued_ids jm k \<longleftrightarrow> jb_status j = Queued \<and> jb_queue j = k"
  by (simp add: queued_ids_def)

lemma not_queued_ids: "(\<And>j. jm i = Some j \<Longrightarrow> jb_status j \<noteq> Queued) \<Longrightarrow> i \<notin> queued_ids jm k"
  by (auto simp: queued_ids_def)

definition queue_matches :: "(string \<Rightarrow> job option) \<Rightarrow> string \<Rightarrow> entry list \<Rightarrow> bool" where
  "queue_matches jm k q = (sorted q \<and> sorted_queue.unique q \<and> sorted_queue.ids q = queued_ids jm k)"

definition queues_match :: "(string \<Rightarrow> job option) \<Rightarrow> (string \<Rightarrow> entry list) \<Rightarrow> bool" where
  "queues_match jm qs = (\<forall>k. queue_matches jm k (qs k))"

lemma queues_match_entry:
  "queues_match jm qs \<Longrightarrow> e \<in> set (qs k) \<Longrightarrow> \<exists>j. jm (entry_id e) = Some j \<and> jb_status j = Queued \<and> jb_queue j = k"
  by (fastforce simp: queues_match_def queue_matches_def sorted_queue.ids_def queued_ids_def)

lemma queues_match_keep:
  "queues_match jm qs \<Longrightarrow> jm i = Some j \<Longrightarrow> jb_status j' = Queued \<longleftrightarrow> jb_status j = Queued \<Longrightarrow>
     jb_queue j' = jb_queue j \<Longrightarrow> queues_match (jm(i \<mapsto> j')) qs"
  by (auto simp: queues_match_def queue_matches_def queued_ids_update queued_ids_iff insert_absorb)

lemma queues_match_other:
  "queues_match jm qs \<Longrightarrow> (\<And>j. jm i = Some j \<Longrightarrow> jb_status j \<noteq> Queued) \<Longrightarrow> jb_status j' \<noteq> Queued \<Longrightarrow>
     queues_match (jm(i \<mapsto> j')) qs"
  by (simp add: queues_match_def queue_matches_def queued_ids_update not_queued_ids)

lemma queues_match_discard:
  assumes "queues_match jm qs" and "jm i = Some j" and "jb_status j' \<noteq> Queued"
  shows "queues_match (jm(i \<mapsto> j')) (qs(jb_queue j := filter (\<lambda>e. entry_id e \<noteq> i) (qs (jb_queue j))))"
  using assms
  by (simp add: queues_match_def queue_matches_def queued_ids_update queued_ids_iff sorted_wrt_filter
      sorted_queue.unique_discard sorted_queue.ids_discard)

lemma queues_match_push:
  assumes "queues_match jm qs" and "\<And>j. jm (entry_id e) = Some j \<Longrightarrow> jb_status j \<noteq> Queued"
    and "jb_status j' = Queued" and "jb_queue j' = k"
  shows "queues_match (jm(entry_id e \<mapsto> j')) (qs(k := insort e (qs k)))"
  using assms(1,3,4) not_queued_ids [of jm "entry_id e", OF assms(2)]
  by (simp add: queues_match_def queue_matches_def queued_ids_update sorted_insort
      sorted_queue.unique_push sorted_queue.ids_push)

lemma queues_match_pop:
  assumes "queues_match jm qs" and "qs k = e # es" and "jb_status j' \<noteq> Queued"
  shows "queues_match (jm(entry_id e \<mapsto> j')) (qs(k := es))"
proof -
  obtain j where j: "jm (entry_id e) = Some j" "jb_queue j = k"
    using queues_match_entry [OF assms(1), of e k] assms(2) by auto
  have "queue_matches jm k (e # es)" using assms(1,2) by (metis queues_match_def)
  then have "queue_matches (jm(entry_id e \<mapsto> j')) k es"
    using assms(3) sorted_queue.pop_head [of "e # es" e es]
    by (simp add: queue_matches_def queued_ids_update)
  with assms j show ?thesis
    by (simp add: queues_match_def queue_matches_def queued_ids_update queued_ids_iff)
qed

section \<open>The invariant\<close>

definition live_tasks :: "queue_service \<Rightarrow> string \<Rightarrow> nat" where
  "live_tasks st k = length (filter (\<lambda>it. tk_queue (snd it) = k) (qs_tasks st))"

definition jobs_ok :: "queue_service \<Rightarrow> bool" where
  "jobs_ok st = (distinct (map fst (qs_jobs st)) \<and> queues_match (map_of (qs_jobs st)) (qs_queues st))"

definition slots_ok :: "queue_config \<Rightarrow> queue_service \<Rightarrow> bool" where
  "slots_ok C st =
     (distinct (map fst (qs_tasks st)) \<and> fst ` set (qs_tasks st) \<subseteq> set (qs_started st) \<and>
      (\<forall>k. int (live_tasks st k) \<le> qs_active st k \<and> qs_active st k \<le> concurrency C k \<and>
           (\<forall>i. qs_dispatchers st k = Admitting i \<longrightarrow> qs_active st k < concurrency C k)))"

definition once_ok :: "queue_service \<Rightarrow> bool" where
  "once_ok st =
     (distinct (qs_started st) \<and>
      (\<forall>i\<in>set (qs_started st). \<forall>j. map_of (qs_jobs st) i = Some j \<longrightarrow> jb_status j \<noteq> Queued))"

definition clients_ok :: "queue_config \<Rightarrow> queue_service \<Rightarrow> bool" where
  "clients_ok C st =
     (qc_max_pending_per_client C \<noteq> 0 \<longrightarrow>
      (\<forall>c. c \<noteq> [] \<longrightarrow> int (client_pending_count st c) \<le> qc_max_pending_per_client C))"

definition queue_inv :: "queue_config \<Rightarrow> queue_service \<Rightarrow> bool" where
  "queue_inv C st = (jobs_ok st \<and> slots_ok C st \<and> once_ok st \<and> clients_ok C st)"

text \<open>What most sections leave alone: they start no job, queue none that was not queued, and add
  none that is pending.\<close>

definition pending_for :: "string \<Rightarrow> job \<Rightarrow> bool" where
  "pending_for c j = (jb_client_id j = Some c \<and> jb_status j \<in> {Queued, Running})"

definition pending_in :: "string \<Rightarrow> (string \<times> job) list \<Rightarrow> nat" where
  "pending_in c jobs = length (filter (\<lambda>kj. pending_for c (snd kj)) jobs)"

lemma client_pending_count_in: "c \<noteq> [] \<Longrightarrow> client_pending_count st c = pending_in c (qs_jobs st)"
  by (simp add: client_pending_count_def pending_in_def pending_for_def case_prod_unfold)

definition gentle :: "queue_service \<Rightarrow> queue_service \<Rightarrow> bool" where
  "gentle st st' =
     (qs_active st' = qs_active st \<and> qs_tasks st' = qs_tasks st \<and> qs_started st' = qs_started st \<and>
      (\<forall>k i. qs_dispatchers st' k = Admitting i \<longrightarrow> qs_dispatchers st k = Admitting i) \<and>
      (\<forall>i j'. map_of (qs_jobs st') i = Some j' \<longrightarrow> jb_status j' = Queued \<longrightarrow>
         (\<exists>j. map_of (qs_jobs st) i = Some j \<and> jb_status j = Queued)) \<and>
      (\<forall>c. pending_in c (qs_jobs st') \<le> pending_in c (qs_jobs st)))"

lemma gentle_refl [simp]: "gentle st st"
  by (auto simp: gentle_def)

lemma gentle_trans: "gentle a b \<Longrightarrow> gentle b c \<Longrightarrow> gentle a c"
  unfolding gentle_def by (intro conjI; (simp; fail | meson order_trans))

lemma clients_ok_le:
  assumes "clients_ok C st" and "\<And>c. pending_in c (qs_jobs st') \<le> pending_in c (qs_jobs st)"
  shows "clients_ok C st'"
  unfolding clients_ok_def
proof (intro impI allI)
  fix c :: string assume m: "qc_max_pending_per_client C \<noteq> 0" and c: "c \<noteq> []"
  from assms(1) m c have "int (pending_in c (qs_jobs st)) \<le> qc_max_pending_per_client C"
    by (simp add: clients_ok_def client_pending_count_in)
  with assms(2) [of c] show "int (client_pending_count st' c) \<le> qc_max_pending_per_client C"
    using c by (simp add: client_pending_count_in)
qed

lemma gentle_inv:
  assumes "gentle st st'" and "queue_inv C st" and "jobs_ok st'"
  shows "queue_inv C st'"
proof -
  have "slots_ok C st'"
    using assms(1,2) unfolding queue_inv_def slots_ok_def gentle_def live_tasks_def by simp
  moreover have "once_ok st'"
    using assms(1,2) unfolding queue_inv_def once_ok_def gentle_def by metis
  moreover have "clients_ok C st'"
    using assms(1,2) by (auto simp: queue_inv_def gentle_def intro: clients_ok_le [of C st])
  ultimately show ?thesis using assms(3) by (simp add: queue_inv_def)
qed

lemma pending_in_update:
  "map_of jobs i = Some j \<Longrightarrow> (pending_for c j' \<Longrightarrow> pending_for c j) \<Longrightarrow>
     pending_in c (AList.update i j' jobs) \<le> pending_in c jobs"
  by (induction jobs) (auto simp: pending_in_def split: if_splits)

lemma pending_in_new:
  "map_of jobs i = None \<Longrightarrow>
     pending_in c (AList.update i j jobs) = pending_in c jobs + (if pending_for c j then 1 else 0)"
  by (induction jobs) (auto simp: pending_in_def split: if_splits)

lemma pending_in_filter: "pending_in c (filter P jobs) \<le> pending_in c jobs"
  by (induction jobs) (auto simp: pending_in_def)

text \<open>Rewriting one known job, without touching queues, dispatchers, slots or tasks.\<close>

lemma gentle_put:
  assumes "map_of (qs_jobs st) i = Some j"
    and "jb_status j' = Queued \<Longrightarrow> jb_status j = Queued"
    and "\<And>c. pending_for c j' \<Longrightarrow> pending_for c j"
  shows "gentle st (put_job i j' st)"
  using assms pending_in_update [OF assms(1)]
  by (auto simp: gentle_def put_job_def update_conv' split: if_splits)

lemma gentle_queues: "gentle st st' \<Longrightarrow> gentle st (st'\<lparr>qs_queues := q\<rparr>)"
  by (simp add: gentle_def)

lemma gentle_put_removed:
  "gentle st (put_job i j st) \<Longrightarrow> gentle st (put_job i j (remove_from_queue k i st))"
  by (simp add: gentle_def put_job_def remove_from_queue_def)

lemma gentle_set_dispatcher:
  "gentle st st' \<Longrightarrow> (\<And>i. d \<noteq> Admitting i) \<Longrightarrow> gentle st (set_dispatcher k d st')"
  by (auto simp: gentle_def set_dispatcher_def)

lemma gentle_ensure: "gentle st st' \<Longrightarrow> gentle st (ensure_dispatcher k st')"
  by (simp add: ensure_dispatcher_def gentle_set_dispatcher)

lemma jobs_ok_dispatcher [simp]:
  "jobs_ok (set_dispatcher k d st) = jobs_ok st" "jobs_ok (ensure_dispatcher k st) = jobs_ok st"
  by (simp_all add: jobs_ok_def set_dispatcher_def ensure_dispatcher_def)

lemma jobs_ok_put:
  assumes "jobs_ok st" and "map_of (qs_jobs st) i = Some j"
    and "jb_status j' = Queued \<longleftrightarrow> jb_status j = Queued" and "jb_queue j' = jb_queue j"
  shows "jobs_ok (put_job i j' st)"
  using assms queues_match_keep [of "map_of (qs_jobs st)"]
  by (simp add: jobs_ok_def put_job_def update_conv' distinct_update)

lemma jobs_ok_discard:
  assumes "jobs_ok st" and "map_of (qs_jobs st) i = Some j" and "jb_status j' \<noteq> Queued"
  shows "jobs_ok (put_job i j' (remove_from_queue (jb_queue j) i st))"
  using assms queues_match_discard [of "map_of (qs_jobs st)"]
  by (simp add: jobs_ok_def put_job_def remove_from_queue_def update_conv' distinct_update)

lemma jobs_ok_push:
  assumes "jobs_ok st" and "\<And>j. map_of (qs_jobs st) i = Some j \<Longrightarrow> jb_status j \<noteq> Queued"
    and "jb_status j' = Queued" and "jb_queue j' = k" and "entry_id e = i"
  shows "jobs_ok (push_entry k e (put_job i j' st))"
  using assms queues_match_push [of "map_of (qs_jobs st)" _ e j' k]
  by (simp add: jobs_ok_def put_job_def push_entry_def update_conv' distinct_update)

lemma jobs_ok_pop:
  assumes "jobs_ok st" and "qs_queues st k = e # es" and "jb_status j' \<noteq> Queued"
  shows "jobs_ok (put_job (entry_id e) j' (pop_entry k st))"
  using assms queues_match_pop [of "map_of (qs_jobs st)"]
  by (simp add: jobs_ok_def put_job_def pop_entry_def update_conv' distinct_update)

lemma entry_id_queue_entry [simp]: "entry_id (queue_entry C now i j) = i"
  by (simp add: entry_id_def queue_entry_def)

text \<open>Moving a queued job to another queue.\<close>

lemma jobs_ok_move:
  assumes "jobs_ok st" and "map_of (qs_jobs st) i = Some j" and "jb_status j' = Queued" and "entry_id e = i"
  shows "jobs_ok (push_entry (jb_queue j') e (put_job i j' (remove_from_queue (jb_queue j) i st)))"
proof -
  let ?gone = "put_job i (j\<lparr>jb_status := Failed\<rparr>) (remove_from_queue (jb_queue j) i st)"
  have "jobs_ok ?gone" using assms(1,2) by (rule jobs_ok_discard) simp
  then have "jobs_ok (push_entry (jb_queue j') e (put_job i j' ?gone))"
    by (rule jobs_ok_push) (simp_all add: assms(3,4) put_job_def dict.get_put)
  then show ?thesis
    using assms(2)
    by (simp add: jobs_ok_def put_job_def push_entry_def remove_from_queue_def update_conv' distinct_update)
qed

section \<open>Every section keeps the invariant\<close>

lemma prune_gentle:
  assumes "jobs_ok st"
  shows "gentle st (prune_expired_terminal_jobs now st)" and "jobs_ok (prune_expired_terminal_jobs now st)"
proof -
  let ?jobs = "filter (\<lambda>(k, j). \<not> record_due now j) (qs_jobs st)"
  have d: "distinct (map fst (qs_jobs st))" using assms by (simp add: jobs_ok_def)
  note m = map_of_filter_values [OF d, of "\<lambda>j. \<not> record_due now j"]
  have nq: "record_due now j \<Longrightarrow> jb_status j \<noteq> Queued" for j by (auto simp: record_due_def is_terminal_def)
  have "queued_ids (map_of ?jobs) k = queued_ids (map_of (qs_jobs st)) k" for k
    by (auto simp: queued_ids_def m dest: nq split: option.splits if_splits)
  then show "jobs_ok (prune_expired_terminal_jobs now st)"
    using assms d
    by (simp add: jobs_ok_def prune_expired_terminal_jobs_def Let_def queues_match_def queue_matches_def
        distinct_map_filter)
  show "gentle st (prune_expired_terminal_jobs now st)"
    using pending_in_filter [of _ "\<lambda>(k, j). \<not> record_due now j" "qs_jobs st"]
    by (auto simp: gentle_def prune_expired_terminal_jobs_def Let_def m split: option.splits if_splits)
qed

lemma monitor_job_gentle:
  assumes "jobs_ok st"
  shows "gentle st (monitor_job C now i st)" and "jobs_ok (monitor_job C now i st)"
proof -
  have "gentle st (monitor_job C now i st) \<and> jobs_ok (monitor_job C now i st)"
  proof (cases "\<exists>j d. map_of (qs_jobs st) i = Some j \<and> jb_status j = Queued \<and> effective_deadline C j = Some d \<and> \<not> now \<le> d")
    case False
    then have "monitor_job C now i st = st"
      by (auto simp: monitor_job_def split: option.splits)
    with assms show ?thesis by simp
  next
    case True
    then obtain j d where j: "map_of (qs_jobs st) i = Some j" "jb_status j = Queued"
      "effective_deadline C j = Some d" "\<not> now \<le> d" by blast
    let ?q = "remove_from_queue (jb_queue j) i st"
    have put: "gentle st (put_job i j' ?q)" if "\<And>c. pending_for c j' \<Longrightarrow> pending_for c j" for j'
      using gentle_put [OF j(1), of j'] that j(2) by (intro gentle_put_removed) simp
    show ?thesis
    proof (cases "jb_queue j = ''local'' \<and> truthy (dget (jb_queue_intent j) ''allow_cloud_spillover'')")
      case True
      let ?j = "j\<lparr>jb_queue := ''cloud'', jb_routing_decision := spilled_routing (jb_routing_decision j)\<rparr>"
      have "monitor_job C now i st =
          ensure_dispatcher ''cloud'' (push_entry ''cloud'' (queue_entry C now i ?j) (put_job i ?j ?q))"
        using j True by (simp add: monitor_job_def Let_def)
      moreover have "jobs_ok (push_entry ''cloud'' (queue_entry C now i ?j) (put_job i ?j ?q))"
        using jobs_ok_move [OF assms j(1), of ?j "queue_entry C now i ?j"] j(2) by simp
      moreover have "gentle st (push_entry ''cloud'' (queue_entry C now i ?j) (put_job i ?j ?q))"
        unfolding push_entry_def by (intro gentle_queues put) (simp add: pending_for_def)
      ultimately show ?thesis by (simp add: gentle_ensure)
    next
      case False
      then obtain j' where "monitor_job C now i st = put_job i j' ?q" "jb_status j' = Expired_wait_budget"
        using j by (auto simp: monitor_job_def)
      then show ?thesis
        using jobs_ok_discard [OF assms j(1)] put [of j'] by (simp add: pending_for_def)
    qed
  qed
  then show "gentle st (monitor_job C now i st)" "jobs_ok (monitor_job C now i st)" by auto
qed

lemma fold_monitor_gentle:
  "jobs_ok st \<Longrightarrow> gentle st (fold (monitor_job C now) is st) \<and> jobs_ok (fold (monitor_job C now) is st)"
proof (induction "is" arbitrary: st)
  case (Cons i "is")
  then show ?case
    using monitor_job_gentle [OF Cons.prems, of C now i] gentle_trans by fastforce
qed simp

lemma monitor_gentle:
  assumes "jobs_ok st"
  shows "gentle st (monitor_deadlines C now st)" and "jobs_ok (monitor_deadlines C now st)"
  using prune_gentle [OF assms, of now] fold_monitor_gentle [of "prune_expired_terminal_jobs now st" C now] gentle_trans
  by (auto simp: monitor_deadlines_def Let_def)

lemma monitor_inv: "queue_inv C st \<Longrightarrow> queue_inv C (monitor_deadlines C now st)"
  using monitor_gentle [of st C now] gentle_inv queue_inv_def by blast

lemma gentle_fields:
  "gentle st (st\<lparr>qs_sequence := n\<rparr>)" "gentle st (st\<lparr>qs_retries := rs\<rparr>)" "gentle st (st\<lparr>qs_registered := rg\<rparr>)"
  by (auto simp: gentle_def)

lemma jobs_ok_fields [simp]:
  "jobs_ok (st\<lparr>qs_sequence := n\<rparr>) = jobs_ok st" "jobs_ok (st\<lparr>qs_retries := rs\<rparr>) = jobs_ok st"
  "jobs_ok (st\<lparr>qs_registered := rg\<rparr>) = jobs_ok st" "jobs_ok (st\<lparr>qs_tasks := ts\<rparr>) = jobs_ok st"
  by (simp_all add: jobs_ok_def)

lemma fold_gentle:
  assumes "\<And>k s. gentle s (f k s) \<and> jobs_ok (f k s) = jobs_ok s"
  shows "gentle st (fold f ks st) \<and> jobs_ok (fold f ks st) = jobs_ok st"
proof (induction ks arbitrary: st)
  case (Cons k ks)
  then show ?case using assms [of st k] by (simp add: gentle_trans [of st "f k st"])
qed simp

lemma fold_ensure_gentle:
  "gentle st (fold ensure_dispatcher ks st) \<and> jobs_ok (fold ensure_dispatcher ks st) = jobs_ok st"
  by (rule fold_gentle) (simp add: gentle_ensure)

lemma fold_ensure_some_gentle:
  "gentle st (fold (\<lambda>k s. if P k then ensure_dispatcher k s else s) ks st) \<and>
   jobs_ok (fold (\<lambda>k s. if P k then ensure_dispatcher k s else s) ks st) = jobs_ok st"
  by (rule fold_gentle) (simp add: gentle_ensure)

definition in_queue :: "string \<Rightarrow> (string \<times> job_task) list \<Rightarrow> nat" where
  "in_queue k ts = length (filter (\<lambda>it. tk_queue (snd it) = k) ts)"

lemma live_tasks_in_queue: "live_tasks st k = in_queue k (qs_tasks st)"
  by (simp add: live_tasks_def in_queue_def)

lemma in_queue_update_same:
  "map_of ts i = Some t \<Longrightarrow> tk_queue t' = tk_queue t \<Longrightarrow> in_queue k (AList.update i t' ts) = in_queue k ts"
  by (induction ts) (auto simp: in_queue_def split: if_splits)

lemma in_queue_update_new:
  "map_of ts i = None \<Longrightarrow>
     in_queue k (AList.update i t ts) = in_queue k ts + (if tk_queue t = k then 1 else 0)"
  by (induction ts) (auto simp: in_queue_def split: if_splits)

lemma in_queue_delete:
  "distinct (map fst ts) \<Longrightarrow> map_of ts i = Some t \<Longrightarrow>
     in_queue k ts = in_queue k (AList.delete i ts) + (if tk_queue t = k then 1 else 0)"
proof (induction ts)
  case (Cons it ts)
  show ?case
  proof (cases "fst it = i")
    case True
    with Cons.prems have "AList.delete i ts = ts" by (intro delete_id) auto
    with True Cons.prems show ?thesis by (cases it) (auto simp: in_queue_def)
  next
    case False
    with Cons show ?thesis by (cases it) (auto simp: in_queue_def split: if_splits)
  qed
qed simp

text \<open>A section that rewrites the tasks: what it has to respect for the slots.\<close>

lemma slots_ok_tasks:
  assumes "slots_ok C st" and "distinct (map fst ts)" and "fst ` set ts \<subseteq> set (qs_started st)"
    and "\<And>k. in_queue k ts \<le> in_queue k (qs_tasks st)"
  shows "slots_ok C (st\<lparr>qs_tasks := ts\<rparr>)"
  using assms
  by (simp add: slots_ok_def live_tasks_in_queue) (meson dual_order.trans of_nat_le_iff)

lemma tasks_inv:
  assumes "queue_inv C st" and "distinct (map fst ts)" and "fst ` set ts \<subseteq> set (qs_started st)"
    and "\<And>k. in_queue k ts \<le> in_queue k (qs_tasks st)"
  shows "queue_inv C (st\<lparr>qs_tasks := ts\<rparr>)"
  using assms slots_ok_tasks [of C st ts]
  by (simp add: queue_inv_def once_ok_def clients_ok_def client_pending_count_def)

lemma update_task_inv:
  assumes "queue_inv C st" and "map_of (qs_tasks st) i = Some t" and "tk_queue t' = tk_queue t"
  shows "queue_inv C (st\<lparr>qs_tasks := AList.update i t' (qs_tasks st)\<rparr>)"
proof (rule tasks_inv [OF assms(1)])
  have "slots_ok C st" using assms(1) by (simp add: queue_inv_def)
  then show "distinct (map fst (AList.update i t' (qs_tasks st)))"
    and "fst ` set (AList.update i t' (qs_tasks st)) \<subseteq> set (qs_started st)"
    using assms(2) by (auto simp: slots_ok_def distinct_update dom_update dest: map_of_SomeD)
qed (simp add: in_queue_update_same [OF assms(2,3)])

lemma delete_task_inv:
  assumes "queue_inv C st" and "map_of (qs_tasks st) i = Some t"
  shows "queue_inv C (st\<lparr>qs_tasks := AList.delete i (qs_tasks st)\<rparr>)"
proof (rule tasks_inv [OF assms(1)])
  have s: "slots_ok C st" using assms(1) by (simp add: queue_inv_def)
  then show "distinct (map fst (AList.delete i (qs_tasks st)))"
    and "fst ` set (AList.delete i (qs_tasks st)) \<subseteq> set (qs_started st)"
    using dom_delete_subset [of i "qs_tasks st"] by (auto simp: slots_ok_def distinct_delete_keys)
  show "in_queue k (AList.delete i (qs_tasks st)) \<le> in_queue k (qs_tasks st)" for k
    using in_queue_delete [of "qs_tasks st" i t k] s assms(2) by (simp add: slots_ok_def)
qed

lemma set_phase_inv: "queue_inv C st \<Longrightarrow> queue_inv C (set_phase i ph st)"
  by (auto simp: set_phase_def intro!: update_task_inv split: option.splits)

lemma enqueue_accept_inv:
  assumes "queue_inv C st" and "map_of (qs_jobs st) i = None" and "i \<notin> set (qs_started st)"
    and "jb_status j = Queued" and "jb_queue j = k" and "client_limited C st j = None"
    and "\<And>c. jb_client_id j = Some c \<Longrightarrow> c \<noteq> []"
  shows "queue_inv C (push_entry k (queue_entry C now i j) (put_job i j st))"
proof -
  let ?st = "push_entry k (queue_entry C now i j) (put_job i j st)"
  have f: "qs_jobs ?st = AList.update i j (qs_jobs st)" "qs_started ?st = qs_started st"
    "qs_tasks ?st = qs_tasks st" "qs_active ?st = qs_active st" "qs_dispatchers ?st = qs_dispatchers st"
    by (simp_all add: push_entry_def put_job_def)
  have "jobs_ok ?st"
    using assms by (intro jobs_ok_push) (simp_all add: queue_inv_def)
  moreover have "slots_ok C ?st" using assms(1) by (simp add: queue_inv_def slots_ok_def live_tasks_def f)
  moreover have "once_ok ?st"
    using assms(1,3) by (auto simp: queue_inv_def once_ok_def f dict.get_put)
  moreover have "clients_ok C ?st"
    unfolding clients_ok_def
  proof (intro impI allI)
    fix c :: string assume m: "qc_max_pending_per_client C \<noteq> 0" and c: "c \<noteq> []"
    have "int (pending_in c (qs_jobs st)) + (if pending_for c j then 1 else 0) \<le> qc_max_pending_per_client C"
    proof (cases "jb_client_id j = Some c")
      case True
      with assms(6) m have "\<not> qc_max_pending_per_client C \<le> int (client_pending_count st c)"
        by (auto simp: client_limited_def split: if_splits)
      then show ?thesis using c by (simp add: client_pending_count_in)
    next
      case False
      then show ?thesis
        using assms(1) m c by (simp add: queue_inv_def clients_ok_def client_pending_count_in pending_for_def)
    qed
    then show "int (client_pending_count ?st c) \<le> qc_max_pending_per_client C"
      using c pending_in_new [OF assms(2), of c j] by (simp add: client_pending_count_in f split: if_splits)
  qed
  ultimately show ?thesis by (simp add: queue_inv_def)
qed

lemma new_job_simps [simp]:
  "jb_status (new_job C now i n a) = Queued"
  "jb_client_id (new_job C now i n a) = none_if_empty (norm_string (eq_client_id a))"
  by (simp_all add: new_job_def Let_def)

lemma ensure_inv: "queue_inv C st \<Longrightarrow> queue_inv C (ensure_dispatcher k st)"
  by (rule gentle_inv [OF gentle_ensure [OF gentle_refl]]) (simp_all add: queue_inv_def)

lemma gentle_not_new:
  "gentle st st' \<Longrightarrow> qs_started st' = qs_started st"
  by (simp add: gentle_def)

lemma monitor_known: "map_of (qs_jobs st) i = None \<Longrightarrow> map_of (qs_jobs (monitor_deadlines C now st)) i = None"
proof -
  have one: "map_of (qs_jobs s) i = None \<Longrightarrow> map_of (qs_jobs (monitor_job C now i' s)) i = None" for s i'
    by (auto simp: monitor_job_def put_job_def push_entry_def remove_from_queue_def ensure_dispatcher_def
        set_dispatcher_def Let_def dict.get_put split: option.splits)
  have many: "map_of (qs_jobs s) i = None \<Longrightarrow> map_of (qs_jobs (fold (monitor_job C now) is s)) i = None" for s "is"
    by (induction "is" arbitrary: s) (simp_all add: one)
  assume "map_of (qs_jobs st) i = None"
  then have "map_of (qs_jobs (prune_expired_terminal_jobs now st)) i = None"
    by (auto simp: prune_expired_terminal_jobs_def Let_def map_of_eq_None_iff)
  then show ?thesis by (simp add: monitor_deadlines_def Let_def many)
qed

lemma enqueue_inv:
  assumes "queue_inv C st" and "map_of (qs_jobs st) i = None" and "i \<notin> set (qs_started st)"
    and "enqueue C now i a st = (st', r)"
  shows "queue_inv C st'"
proof -
  let ?j = "new_job C now i (qs_sequence st) a"
  let ?m = "monitor_deadlines C now (st\<lparr>qs_sequence := qs_sequence st + 1\<rparr>)"
  have s1: "queue_inv C (st\<lparr>qs_sequence := qs_sequence st + 1\<rparr>)"
    by (rule gentle_inv [OF gentle_fields(1) assms(1)]) (use assms(1) in \<open>simp add: queue_inv_def\<close>)
  then have m: "queue_inv C ?m" by (rule monitor_inv)
  have "map_of (qs_jobs ?m) i = None" using assms(2) by (intro monitor_known) simp
  moreover have "qs_started ?m = qs_started st"
    using gentle_not_new [OF monitor_gentle(1)] s1 by (simp add: queue_inv_def)
  ultimately have acc: "queue_inv C (ensure_dispatcher (jb_queue ?j)
      (push_entry (jb_queue ?j) (queue_entry C now i ?j) (put_job i ?j ?m)))" if "client_limited C ?m ?j = None"
    using m assms(3) that by (intro ensure_inv enqueue_accept_inv) auto
  show ?thesis
    using assms(4) m acc unfolding enqueue_def Let_def
    by (auto split: option.splits if_splits)
qed

lemma put_inv:
  assumes "queue_inv C st" and "map_of (qs_jobs st) i = Some j"
    and "jb_status j' = Queued \<longleftrightarrow> jb_status j = Queued" and "jb_queue j' = jb_queue j"
    and "\<And>c. pending_for c j' \<Longrightarrow> pending_for c j"
  shows "queue_inv C (put_job i j' st)"
  using assms
  by (intro gentle_inv [OF gentle_put [OF assms(2)] assms(1)] jobs_ok_put [OF _ assms(2)])
    (auto simp: queue_inv_def)

lemma ack_inv:
  assumes "queue_inv C st" and "acknowledge_artifacts now_iso i ack st = (st', r)"
  shows "queue_inv C st'"
proof -
  have "st' = st \<or> (\<exists>j v. map_of (qs_jobs st) (py_strip i) = Some j \<and>
      st' = put_job (py_strip i) (j\<lparr>jb_artifact_acknowledgement := v\<rparr>) st)"
    using assms(2) by (auto simp: acknowledge_artifacts_def Let_def split: option.splits if_splits)
  then show ?thesis
    using assms(1) by (auto simp: pending_for_def intro: put_inv)
qed

lemma cancel_inv:
  assumes "queue_inv C st0" and "cancel_job C now i reason st0 = (st', r)"
  shows "queue_inv C st'"
proof -
  let ?st = "monitor_deadlines C now st0" and ?k = "py_strip i"
  have m: "queue_inv C ?st" using assms(1) by (rule monitor_inv)
  consider (same) "st' = ?st"
    | (queued) j where "map_of (qs_jobs ?st) ?k = Some j"
        "st' = put_job ?k (cancelled_job C now reason j) (remove_from_queue (jb_queue j) ?k ?st)"
    | (running) j t x where "map_of (qs_jobs ?st) ?k = Some j" "map_of (qs_tasks ?st) ?k = Some t"
        "st' = (put_job ?k (j\<lparr>jb_cancellation := x\<rparr>) ?st)
           \<lparr>qs_tasks := AList.update ?k (t\<lparr>tk_cancels := Suc (tk_cancels t)\<rparr>) (qs_tasks ?st)\<rparr>"
    using assms(2) by (auto simp: cancel_job_def Let_def split: option.splits if_splits)
  then show ?thesis
  proof cases
    case queued
    have c: "jb_status (cancelled_job C now reason j) = Cancelled" by (simp add: cancelled_job_def)
    have "gentle ?st st'"
      unfolding queued(2) using c by (intro gentle_put_removed gentle_put [OF queued(1)]) (auto simp: pending_for_def)
    moreover have "jobs_ok st'"
      unfolding queued(2) using m c by (intro jobs_ok_discard [OF _ queued(1)]) (auto simp: queue_inv_def)
    ultimately show ?thesis using gentle_inv m by blast
  next
    case running
    let ?p = "put_job ?k (j\<lparr>jb_cancellation := x\<rparr>) ?st"
    have "queue_inv C ?p" using m running(1) by (rule put_inv) (auto simp: pending_for_def)
    moreover have "qs_tasks ?p = qs_tasks ?st" by (simp add: put_job_def)
    ultimately show ?thesis
      using running update_task_inv [of C ?p ?k t] by simp
  qed (use m in simp)
qed

lemma look_inv:
  assumes "queue_inv C st"
  shows "queue_inv C (dispatch_look C k st)"
proof -
  have ended: "queue_inv C (set_dispatcher k Ended st)"
    by (rule gentle_inv [OF gentle_set_dispatcher [OF gentle_refl] assms]) (use assms in \<open>auto simp: queue_inv_def\<close>)
  have adm: "queue_inv C (set_dispatcher k (Admitting i) st)" if "\<not> concurrency C k \<le> qs_active st k" for i
    using assms that
    by (simp add: queue_inv_def jobs_ok_def slots_ok_def once_ok_def clients_ok_def client_pending_count_def
        set_dispatcher_def live_tasks_def)
  show ?thesis
  proof (cases "qs_queues st k")
    case Nil
    with ended show ?thesis by (simp add: dispatch_look_def)
  next
    case (Cons e es)
    have "\<exists>j. map_of (qs_jobs st) (entry_id e) = Some j \<and> jb_status j = Queued"
      using assms queues_match_entry [of "map_of (qs_jobs st)" "qs_queues st" e k] Cons
      by (auto simp: queue_inv_def jobs_ok_def)
    with Cons ended adm show ?thesis by (auto simp: dispatch_look_def)
  qed
qed

lemma start_inv:
  assumes "queue_inv C st" and "qs_dispatchers st k = Admitting i" and "qs_queues st k = e # es"
    and "entry_id e = i" and "map_of (qs_jobs st) i = Some j" and "jb_status j = Queued"
  shows "queue_inv C (start_job now k i j st)"
proof -
  let ?st = "start_job now k i j st"
  let ?j = "j\<lparr>jb_blocked := None, jb_status := Running, jb_started_at := Some now\<rparr>"
  have f: "qs_jobs ?st = AList.update i ?j (qs_jobs st)" "qs_started ?st = qs_started st @ [i]"
    "qs_tasks ?st = AList.update i \<lparr>tk_queue = k, tk_phase = Created, tk_cancels = 0\<rparr> (qs_tasks st)"
    "qs_active ?st = (qs_active st)(k := qs_active st k + 1)"
    "qs_dispatchers ?st = (qs_dispatchers st)(k := Registering i)"
    by (simp_all add: start_job_def put_job_def pop_entry_def Let_def)
  have new: "i \<notin> set (qs_started st)"
    using assms(1,5,6) by (auto simp: queue_inv_def once_ok_def)
  have s: "slots_ok C st" using assms(1) by (simp add: queue_inv_def)
  then have no_task: "map_of (qs_tasks st) i = None"
    using new by (auto simp: slots_ok_def map_of_eq_None_iff)
  have "jobs_ok ?st"
    using jobs_ok_pop [of st k e es ?j] assms(1,3,4)
    by (simp add: queue_inv_def start_job_def Let_def jobs_ok_def)
  moreover have "once_ok ?st"
    using assms(1) new by (auto simp: queue_inv_def once_ok_def f dict.get_put)
  moreover have "clients_ok C ?st"
  proof (rule clients_ok_le)
    show "clients_ok C st" using assms(1) by (simp add: queue_inv_def)
    show "pending_in c (qs_jobs ?st) \<le> pending_in c (qs_jobs st)" for c
      unfolding f(1) by (rule pending_in_update [OF assms(5)]) (simp add: pending_for_def assms(6))
  qed
  moreover have "slots_ok C ?st"
    using s assms(2) no_task
    by (auto simp: slots_ok_def live_tasks_in_queue f in_queue_update_new distinct_update dom_update)
  ultimately show ?thesis by (simp add: queue_inv_def)
qed

lemma admitted_inv:
  assumes "queue_inv C st" and "qs_dispatchers st k = Admitting i"
  shows "queue_inv C (dispatch_admitted now k i ad st)"
proof -
  have looking: "queue_inv C (set_dispatcher k Looking st)"
    by (rule gentle_inv [OF gentle_set_dispatcher [OF gentle_refl] assms(1)]) (use assms in \<open>auto simp: queue_inv_def\<close>)
  show ?thesis
  proof (cases "\<exists>e es. qs_queues st k = e # es \<and> entry_id e = i")
    case False
    with looking show ?thesis by (auto simp: dispatch_admitted_def split: list.splits)
  next
    case True
    then obtain e es where q: "qs_queues st k = e # es" "entry_id e = i" by blast
    then obtain j where j: "map_of (qs_jobs st) i = Some j" "jb_status j = Queued"
      using assms(1) queues_match_entry [of "map_of (qs_jobs st)" "qs_queues st" e k]
      by (auto simp: queue_inv_def jobs_ok_def)
    let ?b = "put_job i (j\<lparr>jb_blocked := Some (str_or (ad_reason ad) ''runtime_lane_not_ready'', ad_detail ad)\<rparr>) st"
    have "queue_inv C ?b" using assms(1) j(1) by (rule put_inv) (auto simp: pending_for_def)
    then have "queue_inv C (schedule_blocked_retry k ?b)"
      using gentle_inv [OF gentle_fields(2)] by (auto simp: schedule_blocked_retry_def queue_inv_def)
    then have "queue_inv C (set_dispatcher k Ended (schedule_blocked_retry k ?b))"
      using gentle_inv [OF gentle_set_dispatcher [OF gentle_refl]] by (auto simp: queue_inv_def)
    with start_inv [OF assms q j] q j show ?thesis by (simp add: dispatch_admitted_def)
  qed
qed

lemma register_inv: "queue_inv C st \<Longrightarrow> queue_inv C (register_task k i st)"
  unfolding register_task_def
  by (rule gentle_inv [OF gentle_set_dispatcher [OF gentle_fields(3)]]) (auto simp: queue_inv_def)

lemma retry_inv:
  assumes "queue_inv C st"
  shows "queue_inv C (retry_blocked_queue C now k st)"
proof -
  have "queue_inv C (st\<lparr>qs_retries := removeAll k (qs_retries st)\<rparr>)"
    by (rule gentle_inv [OF gentle_fields(2) assms]) (use assms in \<open>simp add: queue_inv_def\<close>)
  then show ?thesis
    by (auto simp: retry_blocked_queue_def Let_def intro!: ensure_inv dest: monitor_inv)
qed

lemma recovered_inv:
  assumes "queue_inv C st"
  shows "queue_inv C (start_recovered_jobs C now st)"
proof -
  let ?m = "monitor_deadlines C now st"
  have m: "queue_inv C ?m" using assms by (rule monitor_inv)
  then show ?thesis
    unfolding start_recovered_jobs_def Let_def
    using fold_ensure_some_gentle [of ?m "\<lambda>k. qs_queues ?m k \<noteq> []" "map fst (qc_queue_concurrency C)"]
    by (intro gentle_inv [OF _ m]) (auto simp: queue_inv_def)
qed

text \<open>A job with a live task has been dispatched, so the outcome is never written to a queued job.\<close>

lemma settle_inv:
  assumes "queue_inv C st" and "map_of (qs_tasks st) i = Some t"
  shows "queue_inv C (settle_task C now i oc st)"
proof -
  have "i \<in> set (qs_started st)"
    using assms by (auto simp: queue_inv_def slots_ok_def dest: map_of_SomeD)
  then have nq: "map_of (qs_jobs st) i = Some j \<Longrightarrow> jb_status j \<noteq> Queued" for j
    using assms(1) by (auto simp: queue_inv_def once_ok_def)
  have "jb_status (settled_job C now oc j) \<notin> {Queued, Running} \<and> jb_queue (settled_job C now oc j) = jb_queue j" for j
    by (cases oc) (simp_all add: settled_job_def Let_def)
  then have "queue_inv C (case map_of (qs_jobs st) i of None \<Rightarrow> st | Some j \<Rightarrow> put_job i (settled_job C now oc j) st)"
    using assms(1) nq by (auto simp: pending_for_def intro!: put_inv split: option.splits)
  then show ?thesis by (simp add: settle_task_def set_phase_inv)
qed

lemma leave_inv:
  assumes "queue_inv C st" and "map_of (qs_tasks st) i = Some t"
  shows "queue_inv C (leave_task C i t st)"
proof -
  let ?q = "tk_queue t"
  let ?st = "st\<lparr>qs_tasks := AList.delete i (qs_tasks st), qs_registered := removeAll i (qs_registered st),
      qs_active := (qs_active st)(?q := max (qs_active st ?q - 1) 0)\<rparr>"
  have s: "slots_ok C st" using assms(1) by (simp add: queue_inv_def)
  have "int (live_tasks ?st k) \<le> qs_active ?st k \<and> qs_active ?st k \<le> concurrency C k \<and>
      (\<forall>i. qs_dispatchers ?st k = Admitting i \<longrightarrow> qs_active ?st k < concurrency C k)" for k
  proof -
    have "int (in_queue k (qs_tasks st)) \<le> qs_active st k" "qs_active st k \<le> concurrency C k"
      "\<forall>i. qs_dispatchers st k = Admitting i \<longrightarrow> qs_active st k < concurrency C k"
      using s by (simp_all add: slots_ok_def live_tasks_in_queue)
    moreover have "in_queue k (qs_tasks st) = in_queue k (AList.delete i (qs_tasks st)) + (if ?q = k then 1 else 0)"
      using in_queue_delete [of "qs_tasks st" i t k] assms(2) s by (simp add: slots_ok_def)
    moreover have "1 \<le> concurrency C k" by (simp add: concurrency_def)
    ultimately show ?thesis by (cases "?q = k") (auto simp: live_tasks_in_queue)
  qed
  then have "slots_ok C ?st"
    using s order_trans [OF dom_delete_subset [of i "qs_tasks st"]]
    by (simp add: slots_ok_def distinct_delete_keys)
  then have "queue_inv C ?st"
    using assms(1) by (simp add: queue_inv_def jobs_ok_def once_ok_def clients_ok_def client_pending_count_def)
  then show ?thesis
    unfolding leave_task_def using fold_ensure_gentle [of ?st "map fst (qc_queue_concurrency C)"]
    by (intro gentle_inv [OF _ \<open>queue_inv C ?st\<close>]) (auto simp: queue_inv_def)
qed

section \<open>Restarting\<close>

lemma new_service_inv: "0 \<le> qc_max_pending_per_client C \<Longrightarrow> queue_inv C new_service"
  by (auto simp: queue_inv_def jobs_ok_def slots_ok_def once_ok_def clients_ok_def new_service_def queues_match_def
      queue_matches_def queued_ids_def sorted_queue.unique_def sorted_queue.ids_def live_tasks_def
      client_pending_count_def concurrency_def)

lemma load_job_frame:
  "qs_active (load_job C now rc it st) = qs_active st \<and> qs_tasks (load_job C now rc it st) = qs_tasks st \<and>
   qs_started (load_job C now rc it st) = qs_started st \<and> qs_dispatchers (load_job C now rc it st) = qs_dispatchers st"
  by (auto simp: load_job_def put_job_def push_entry_def Let_def split: job_status.splits)

lemma recovered_status [simp]:
  "jb_status (recovered_fields C j) = jb_status j" "jb_client_id (recovered_fields C j) = jb_client_id j"
  by (simp_all add: recovered_fields_def Let_def)

text \<open>What one persisted job becomes: queued again with a runner, failed, or what it was.\<close>

definition recovered_as :: "queue_config \<Rightarrow> (job \<Rightarrow> bool) \<Rightarrow> job \<Rightarrow> job \<Rightarrow> bool" where
  "recovered_as C recover j j' =
     (jb_client_id j' = jb_client_id j \<and> jb_status j' =
        (case jb_status j of
           Queued \<Rightarrow> if recover (recovered_fields C j) then Queued else Failed
         | Running \<Rightarrow> Failed
         | s \<Rightarrow> s) \<and>
      (jb_status j' = Queued \<longrightarrow> jb_has_runner j'))"

lemma load_job_adds:
  assumes "jobs_ok st" and "map_of (qs_jobs st) (py_strip i) = None" and "py_strip i \<noteq> []"
  shows "jobs_ok (load_job C now rc (i, j) st)"
    and "\<exists>j'. qs_jobs (load_job C now rc (i, j) st) = AList.update (py_strip i) j' (qs_jobs st) \<and> recovered_as C rc j j'"
proof -
  let ?st = "st\<lparr>qs_sequence := max (qs_sequence st) (jb_sequence (recovered_fields C j) + 1)\<rparr>"
  have put: "jobs_ok (put_job (py_strip i) j' ?st)" if "jb_status j' \<noteq> Queued" for j'
    using assms(1,2) that queues_match_other [of "map_of (qs_jobs st)" "qs_queues st" "py_strip i" j']
    by (simp add: jobs_ok_def put_job_def update_conv' distinct_update)
  have push: "jobs_ok (push_entry k (queue_entry C now (py_strip i) j') (put_job (py_strip i) j' ?st))"
    if "jb_status j' = Queued" "jb_queue j' = k" for j' k
    using assms(1,2) that by (intro jobs_ok_push) simp_all
  have failed: "jb_status (recovery_failed n a b c d x) = Failed"
    "jb_client_id (recovery_failed n a b c d x) = jb_client_id x" for n a b c d x
    by (simp_all add: recovery_failed_def)
  show "jobs_ok (load_job C now rc (i, j) st)"
    using assms(3) put push failed
    by (simp add: load_job_def Let_def split: job_status.split)
  show "\<exists>j'. qs_jobs (load_job C now rc (i, j) st) = AList.update (py_strip i) j' (qs_jobs st) \<and> recovered_as C rc j j'"
    using assms(3) failed
    by (simp add: load_job_def recovered_as_def put_job_def push_entry_def Let_def split: job_status.split) (auto 4 4)
qed

lemma fold_load_frame:
  "qs_active (fold (load_job C now rc) its st) = qs_active st \<and> qs_tasks (fold (load_job C now rc) its st) = qs_tasks st \<and>
   qs_started (fold (load_job C now rc) its st) = qs_started st \<and>
   qs_dispatchers (fold (load_job C now rc) its st) = qs_dispatchers st"
  by (induction its arbitrary: st) (simp_all add: load_job_frame)

lemma fold_load_jobs:
  assumes "jobs_ok st" and "distinct (map (\<lambda>it. py_strip (fst it)) its)" and "\<forall>it\<in>set its. py_strip (fst it) \<noteq> []"
    and "\<forall>it\<in>set its. map_of (qs_jobs st) (py_strip (fst it)) = None"
  shows "jobs_ok (fold (load_job C now rc) its st) \<and>
    (\<forall>x j'. map_of (qs_jobs (fold (load_job C now rc) its st)) x = Some j' \<longrightarrow>
      map_of (qs_jobs st) x = Some j' \<or> (\<exists>i j. (i, j) \<in> set its \<and> py_strip i = x \<and> recovered_as C rc j j'))"
  using assms
proof (induction its arbitrary: st)
  case (Cons it its)
  obtain i j where it: "it = (i, j)" by (cases it)
  let ?st = "load_job C now rc it st"
  have new: "map_of (qs_jobs st) (py_strip i) = None" "py_strip i \<noteq> []" using Cons.prems it by auto
  note one = load_job_adds [OF Cons.prems(1) new, of C now rc j]
  then obtain j' where j': "qs_jobs ?st = AList.update (py_strip i) j' (qs_jobs st)" "recovered_as C rc j j'"
    by (auto simp: it)
  have "jobs_ok ?st" using one(1) by (simp add: it)
  moreover have "\<forall>it\<in>set its. map_of (qs_jobs ?st) (py_strip (fst it)) = None"
  proof
    fix x assume x: "x \<in> set its"
    then have "py_strip (fst x) \<noteq> py_strip i" using Cons.prems(2) it by force
    then show "map_of (qs_jobs ?st) (py_strip (fst x)) = None"
      unfolding j'(1) using Cons.prems(4) x by (simp add: dict.get_put)
  qed
  ultimately have "jobs_ok (fold (load_job C now rc) its ?st)"
    and "\<forall>x j'. map_of (qs_jobs (fold (load_job C now rc) its ?st)) x = Some j' \<longrightarrow>
      map_of (qs_jobs ?st) x = Some j' \<or> (\<exists>i j. (i, j) \<in> set its \<and> py_strip i = x \<and> recovered_as C rc j j')"
    using Cons.IH [of ?st] Cons.prems by auto
  then have ok: "jobs_ok (fold (load_job C now rc) its ?st)"
    and old: "map_of (qs_jobs (fold (load_job C now rc) its ?st)) x = Some j'' \<Longrightarrow>
      map_of (qs_jobs ?st) x = Some j'' \<or> (\<exists>i j. (i, j) \<in> set its \<and> py_strip i = x \<and> recovered_as C rc j j'')" for x j''
    by simp_all
  have "map_of (qs_jobs st) x = Some j'' \<or> (\<exists>i j. (i, j) \<in> set (it # its) \<and> py_strip i = x \<and> recovered_as C rc j j'')"
    if "map_of (qs_jobs (fold (load_job C now rc) its ?st)) x = Some j''" for x j''
    using old [OF that]
  proof
    assume at: "map_of (qs_jobs ?st) x = Some j''"
    show ?thesis
    proof (cases "x = py_strip i")
      case True
      then have "j'' = j'" using at unfolding j'(1) by (simp add: dict.get_put)
      then have "(i, j) \<in> set (it # its) \<and> py_strip i = x \<and> recovered_as C rc j j''"
        using True j'(2) by (simp add: it)
      then show ?thesis by blast
    next
      case False
      then show ?thesis using at unfolding j'(1) by (simp add: dict.get_put)
    qed
  next
    assume "\<exists>i j. (i, j) \<in> set its \<and> py_strip i = x \<and> recovered_as C rc j j''"
    then show ?thesis by (metis list.set_intros(2))
  qed
  with ok show ?case unfolding fold_simps by blast
qed simp_all

lemma fold_load_pending:
  assumes "jobs_ok st" and "distinct (map (\<lambda>it. py_strip (fst it)) its)" and "\<forall>it\<in>set its. py_strip (fst it) \<noteq> []"
    and "\<forall>it\<in>set its. map_of (qs_jobs st) (py_strip (fst it)) = None"
  shows "pending_in c (qs_jobs (fold (load_job C now rc) its st)) \<le> pending_in c (qs_jobs st) + pending_in c its"
  using assms
proof (induction its arbitrary: st)
  case (Cons it its)
  obtain i j where it: "it = (i, j)" by (cases it)
  let ?st = "load_job C now rc it st"
  have new: "map_of (qs_jobs st) (py_strip i) = None" "py_strip i \<noteq> []" using Cons.prems it by auto
  note one = load_job_adds [OF Cons.prems(1) new, of C now rc j]
  then obtain j' where j': "qs_jobs ?st = AList.update (py_strip i) j' (qs_jobs st)" "recovered_as C rc j j'"
    by (auto simp: it)
  have "pending_for c j' \<Longrightarrow> pending_for c j"
    using j'(2) by (cases "jb_status j") (simp_all add: recovered_as_def pending_for_def split: if_splits)
  then have "pending_in c (qs_jobs ?st) \<le> pending_in c (qs_jobs st) + pending_in c [it]"
    unfolding j'(1) pending_in_new [OF new(1)] by (simp add: pending_in_def it)
  moreover have "\<forall>x\<in>set its. map_of (qs_jobs ?st) (py_strip (fst x)) = None"
  proof
    fix x assume x: "x \<in> set its"
    then have "py_strip (fst x) \<noteq> py_strip i" using Cons.prems(2) it by force
    then show "map_of (qs_jobs ?st) (py_strip (fst x)) = None"
      unfolding j'(1) using Cons.prems(4) x by (simp add: dict.get_put)
  qed
  moreover have "jobs_ok ?st" using one(1) by (simp add: it)
  ultimately have "pending_in c (qs_jobs (fold (load_job C now rc) its ?st)) \<le> pending_in c (qs_jobs ?st) + pending_in c its"
    using Cons.IH [of ?st] Cons.prems by simp
  moreover have "pending_in c (it # its) = pending_in c [it] + pending_in c its" by (simp add: pending_in_def)
  ultimately show ?case
    using \<open>pending_in c (qs_jobs ?st) \<le> pending_in c (qs_jobs st) + pending_in c [it]\<close> by simp
qed (simp add: pending_in_def)

text \<open>A state file as a service with the same limit writes it: the ids are distinct and no client has
  more pending jobs than allowed.\<close>

definition state_file_ok :: "queue_config \<Rightarrow> (string \<times> job) list \<Rightarrow> bool" where
  "state_file_ok C its =
     (0 \<le> qc_max_pending_per_client C \<and>
      distinct (map (\<lambda>it. py_strip (fst it)) its) \<and> (\<forall>it\<in>set its. py_strip (fst it) \<noteq> []) \<and>
      (qc_max_pending_per_client C \<noteq> 0 \<longrightarrow>
         (\<forall>it\<in>set its. case jb_client_id (snd it) of
            None \<Rightarrow> True | Some c \<Rightarrow> int (pending_in c its) \<le> qc_max_pending_per_client C)))"

lemma pending_in_limited:
  assumes "\<forall>it\<in>set its. case jb_client_id (snd it) of None \<Rightarrow> True | Some c \<Rightarrow> int (pending_in c its) \<le> m" and "0 \<le> m"
  shows "int (pending_in c its) \<le> m"
proof (cases "\<exists>it\<in>set its. jb_client_id (snd it) = Some c")
  case True
  then obtain it where "it \<in> set its" "jb_client_id (snd it) = Some c" by blast
  with bspec [OF assms(1), of it] show ?thesis by simp
next
  case False
  then have "filter (\<lambda>kj. pending_for c (snd kj)) its = []" by (auto simp: filter_empty_conv pending_for_def)
  with assms(2) show ?thesis by (simp add: pending_in_def)
qed

lemma load_inv:
  assumes "state_file_ok C its"
  shows "queue_inv C (load_persisted_jobs C now rc its)"
proof -
  let ?f = "fold (load_job C now rc) its new_service"
  have m: "0 \<le> qc_max_pending_per_client C" and d: "distinct (map (\<lambda>it. py_strip (fst it)) its)"
    "\<forall>it\<in>set its. py_strip (fst it) \<noteq> []"
    and lm: "qc_max_pending_per_client C \<noteq> 0 \<Longrightarrow> \<forall>it\<in>set its. case jb_client_id (snd it) of
            None \<Rightarrow> True | Some c \<Rightarrow> int (pending_in c its) \<le> qc_max_pending_per_client C"
    using assms by (auto simp: state_file_ok_def)
  have inv: "queue_inv C new_service" using m by (rule new_service_inv)
  have new: "jobs_ok new_service" "\<forall>it\<in>set its. map_of (qs_jobs new_service) (py_strip (fst it)) = None"
    using inv by (simp_all add: queue_inv_def) (simp add: new_service_def)
  have "clients_ok C ?f"
    unfolding clients_ok_def
  proof (intro impI allI)
    fix c :: string assume "qc_max_pending_per_client C \<noteq> 0" "c \<noteq> []"
    then show "int (client_pending_count ?f c) \<le> qc_max_pending_per_client C"
      using fold_load_pending [OF new(1) d new(2), of c C now rc] pending_in_limited [OF lm m, of c]
      by (simp add: client_pending_count_in new_service_def pending_in_def)
  qed
  moreover have "jobs_ok ?f" using fold_load_jobs [OF new(1) d new(2), of C now rc] by blast
  moreover have "slots_ok C ?f" "once_ok ?f"
    using inv
    by (simp_all add: queue_inv_def slots_ok_def once_ok_def live_tasks_def fold_load_frame) (simp add: new_service_def)
  ultimately have "queue_inv C ?f" by (simp add: queue_inv_def)
  then show ?thesis
    unfolding load_persisted_jobs_def by (blast intro: gentle_inv prune_gentle dest: queue_inv_def [THEN iffD1])
qed


section \<open>Reachable states\<close>

text \<open>A service comes up from its state file, which may be empty, and then runs.\<close>

inductive queue_reachable :: "queue_config \<Rightarrow> queue_service \<Rightarrow> bool" for C where
  start: "state_file_ok C its \<Longrightarrow> queue_reachable C (load_persisted_jobs C now rc its)"
| step: "queue_reachable C st \<Longrightarrow> queue_step C st st' \<Longrightarrow> queue_reachable C st'"

lemma queue_step_inv: "queue_step C st st' \<Longrightarrow> queue_inv C st \<Longrightarrow> queue_inv C st'"
  by (induction rule: queue_step.induct)
    (blast intro: enqueue_inv monitor_inv recovered_inv ack_inv cancel_inv look_inv admitted_inv register_inv
      retry_inv set_phase_inv delete_task_inv settle_inv leave_inv)+

lemma queue_reachable_inv: "queue_reachable C st \<Longrightarrow> queue_inv C st"
  by (induction rule: queue_reachable.induct) (auto intro: load_inv queue_step_inv)

section \<open>A sample run\<close>

definition sample_config :: queue_config where
  "sample_config =
     make_queue_config 1 1 5 3600 2 30 [] \<lparr>fromisoformat = (\<lambda>s. None), isoformat = (\<lambda>t. [])\<rparr> (\<lambda>t. t)"

definition sample_args :: enqueue_args where
  "sample_args =
     \<lparr>eq_queue = PStr ''local'', eq_importance = PStr ''high'', eq_job_name = PNone, eq_request_payload = PNone,
      eq_routing_decision = PNone, eq_queue_intent = PDict [(''max_wait_seconds'', PInt 10)],
      eq_client_id = PStr ''c1'', eq_running_cancellation_supported = True\<rparr>"

definition sample_booted :: queue_service where
  "sample_booted = load_persisted_jobs sample_config 0 (\<lambda>j. False) []"

definition sample_queued :: queue_service where
  "sample_queued = fst (enqueue sample_config 0 ''j1'' sample_args sample_booted)"

definition sample_admitting :: queue_service where
  "sample_admitting = dispatch_look sample_config ''local'' sample_queued"

definition sample_admission :: admission where
  "sample_admission = \<lparr>ad_allowed = True, ad_reason = PNone, ad_detail = PNone\<rparr>"

definition sample_started :: queue_service where
  "sample_started = dispatch_admitted 0 ''local'' ''j1'' sample_admission sample_admitting"

lemma sample_booted_reachable: "queue_reachable sample_config sample_booted"
  unfolding sample_booted_def by (rule queue_reachable.start) code_simp

lemma sample_queued_step: "queue_step sample_config sample_booted sample_queued"
  by (rule queue_step.s_enqueue [of sample_booted "''j1''" sample_config 0 sample_args sample_queued
        "snd (enqueue sample_config 0 ''j1'' sample_args sample_booted)"])
    (code_simp, code_simp, code_simp, simp add: sample_queued_def)

lemma sample_queued_reachable: "queue_reachable sample_config sample_queued"
  using sample_booted_reachable sample_queued_step by (rule queue_reachable.step)

lemma sample_admitting_step: "queue_step sample_config sample_queued sample_admitting"
  unfolding sample_admitting_def by (rule queue_step.s_look) code_simp

lemma sample_admitting_reachable: "queue_reachable sample_config sample_admitting"
  using sample_queued_reachable sample_admitting_step by (rule queue_reachable.step)

lemma sample_admitting_dispatcher: "qs_dispatchers sample_admitting ''local'' = Admitting ''j1''"
  by code_simp

lemma sample_started_step: "queue_step sample_config sample_admitting sample_started"
  unfolding sample_started_def by (rule queue_step.s_admitted) (rule sample_admitting_dispatcher)

lemma sample_started_reachable: "queue_reachable sample_config sample_started"
  using sample_admitting_reachable sample_started_step by (rule queue_reachable.step)

section \<open>Properties\<close>

text \<open>
  C1. In every reachable state the queues and the jobs agree: each queue is sorted, holds no job
  twice, and holds exactly the jobs whose status is queued and that belong to it. No queued job
  is lost and no entry is stale.
\<close>

theorem queues_hold_queued_jobs:
  assumes "queue_reachable C st"
  shows "sorted (qs_queues st k) \<and> distinct (map entry_id (qs_queues st k)) \<and>
    entry_id ` set (qs_queues st k) =
      {i. \<exists>j. map_of (qs_jobs st) i = Some j \<and> jb_status j = Queued \<and> jb_queue j = k}"
  using queue_reachable_inv [OF assms(1)]
  by (simp add: queue_inv_def jobs_ok_def queues_match_def queue_matches_def queued_ids_def
      sorted_queue.unique_def sorted_queue.ids_def)

theorem queues_hold_queued_jobs_witness:
  "map entry_id (qs_queues sample_queued ''local'') = [''j1''] \<and> sorted (qs_queues sample_queued ''local'') \<and>
   {i. \<exists>j. map_of (qs_jobs sample_queued) i = Some j \<and> jb_status j = Queued \<and> jb_queue j = ''local''} = {''j1''}"
proof -
  have m: "map entry_id (qs_queues sample_queued ''local'') = [''j1'']" by code_simp
  from arg_cong [OF this, of set] have "entry_id ` set (qs_queues sample_queued ''local'') = {''j1''}"
    by (simp only: set_map list.set)
  with m queues_hold_queued_jobs [OF sample_queued_reachable, of "''local''"] show ?thesis by simp
qed

text \<open>
  C25. A queue never runs more jobs than its concurrency: the live job tasks of a queue are at
  most its active count, which is at most the configured concurrency.
\<close>

theorem concurrency_respected:
  assumes "queue_reachable C st"
  shows "int (live_tasks st k) \<le> qs_active st k \<and> qs_active st k \<le> concurrency C k"
  using queue_reachable_inv [OF assms(1)] by (simp add: queue_inv_def slots_ok_def)

theorem concurrency_respected_witness:
  "live_tasks sample_started ''local'' = 1 \<and> 1 \<le> qs_active sample_started ''local'' \<and>
   qs_active sample_started ''local'' \<le> concurrency sample_config ''local''"
proof -
  have "live_tasks sample_started ''local'' = 1" by code_simp
  with concurrency_respected [OF sample_started_reachable, of "''local''"] show ?thesis by simp
qed

text \<open>
  C2. A job is dispatched at most once, whatever is cancelled, expires, is rerouted or retried,
  and a job that was dispatched is never queued again.
\<close>

theorem dispatched_at_most_once:
  assumes "queue_reachable C st"
  shows "distinct (qs_started st) \<and>
    (\<forall>i\<in>set (qs_started st). \<forall>j. map_of (qs_jobs st) i = Some j \<longrightarrow> jb_status j \<noteq> Queued)"
  using queue_reachable_inv [OF assms(1)] by (simp add: queue_inv_def once_ok_def)

theorem dispatched_at_most_once_witness:
  "qs_started sample_started = [''j1''] \<and>
   (\<exists>j. map_of (qs_jobs sample_started) ''j1'' = Some j \<and> jb_status j \<noteq> Queued)"
proof -
  have s: "qs_started sample_started = [''j1'']" by code_simp
  have "map_of (qs_jobs sample_started) ''j1'' \<noteq> None" by code_simp
  then obtain j where "map_of (qs_jobs sample_started) ''j1'' = Some j" by blast
  with dispatched_at_most_once [OF sample_started_reachable] s show ?thesis by simp
qed

text \<open>
  A client never has more pending jobs than allowed: with a limit configured, the queued and
  running jobs of a client are at most that many.
\<close>

theorem client_limit_respected:
  assumes "queue_reachable C st" and "0 < qc_max_pending_per_client C" and "c \<noteq> []"
  shows "int (client_pending_count st c) \<le> qc_max_pending_per_client C"
  using queue_reachable_inv [OF assms(1)] assms(2,3) by (simp add: queue_inv_def clients_ok_def)

theorem client_limit_respected_witness:
  "client_pending_count sample_queued ''c1'' = 1 \<and> qc_max_pending_per_client sample_config = 2 \<and>
   int (client_pending_count sample_queued ''c1'') \<le> qc_max_pending_per_client sample_config"
proof -
  have m: "qc_max_pending_per_client sample_config = 2" and p: "client_pending_count sample_queued ''c1'' = 1"
    by code_simp+
  from client_limit_respected [OF sample_queued_reachable, of "''c1''"] m p show ?thesis by simp
qed

text \<open>
  The job a dispatcher starts is the first of its queue: no queued job of that queue has a
  smaller key, the key being importance, then deadline, then arrival.
\<close>

theorem dispatch_takes_first:
  assumes "queue_reachable C st" and "qs_dispatchers st k = Admitting i"
    and "qs_started (dispatch_admitted now k i ad st) \<noteq> qs_started st"
  shows "\<exists>e es. qs_queues st k = e # es \<and> entry_id e = i \<and> ad_allowed ad \<and>
    qs_started (dispatch_admitted now k i ad st) = qs_started st @ [i] \<and>
    (\<forall>x\<in>set (qs_queues st k). e \<le> x)"
proof -
  from assms(3) obtain e es where q: "qs_queues st k = e # es" and "entry_id e = i"
    and "ad_allowed ad" and "qs_started (dispatch_admitted now k i ad st) = qs_started st @ [i]"
    by (auto simp: dispatch_admitted_def set_dispatcher_def pop_entry_def schedule_blocked_retry_def put_job_def
        start_job_def Let_def split: list.splits if_splits option.splits)
  moreover have "sorted (qs_queues st k)"
    using queue_reachable_inv [OF assms(1)]
    by (simp add: queue_inv_def jobs_ok_def queues_match_def queue_matches_def)
  ultimately show ?thesis
    using sorted_queue.head_least [of "qs_queues st k" e es] by blast
qed

theorem dispatch_takes_first_witness:
  "\<exists>e es. qs_queues sample_admitting ''local'' = e # es \<and> entry_id e = ''j1'' \<and> qs_started sample_started = [''j1'']"
proof -
  have s: "qs_started sample_started = [''j1'']" "qs_started sample_admitting = []" by code_simp+
  then have "qs_started (dispatch_admitted 0 ''local'' ''j1'' sample_admission sample_admitting) \<noteq> qs_started sample_admitting"
    by (simp add: sample_started_def)
  from dispatch_takes_first [OF sample_admitting_reachable sample_admitting_dispatcher this] s
  show ?thesis by blast
qed

text \<open>
  C27. A restart replays nothing that had been dispatched. From a state file whose jobs have
  distinct ids the service comes up with queues that hold exactly the queued jobs, with no
  running job and no slot taken; every job it knows is one of the file, those that were running
  have failed, and a job is queued again only if it was queued and has a runner.
\<close>

theorem restart_replays_nothing_dispatched:
  assumes "distinct (map (\<lambda>it. py_strip (fst it)) its)" and "\<forall>it\<in>set its. py_strip (fst it) \<noteq> []"
    and "st = load_persisted_jobs C now recover its"
  shows "jobs_ok st \<and> qs_tasks st = [] \<and> (\<forall>k. qs_active st k = 0) \<and>
    (\<forall>x j'. map_of (qs_jobs st) x = Some j' \<longrightarrow> jb_status j' \<noteq> Running \<and>
       (\<exists>i j. (i, j) \<in> set its \<and> py_strip i = x \<and>
          (jb_status j = Running \<longrightarrow> jb_status j' = Failed) \<and>
          (jb_status j' = Queued \<longrightarrow> jb_status j = Queued \<and> jb_has_runner j')))"
proof -
  let ?f = "fold (load_job C now recover) its new_service"
  have new: "jobs_ok new_service" "\<forall>it\<in>set its. map_of (qs_jobs new_service) (py_strip (fst it)) = None"
    using new_service_inv [of "C\<lparr>qc_max_pending_per_client := 0\<rparr>"]
    by (simp_all add: queue_inv_def) (simp add: new_service_def)
  note loaded = fold_load_jobs [OF new(1) assms(1,2) new(2), of C now recover]
  have ok: "jobs_ok st" unfolding assms(3) load_persisted_jobs_def using loaded by (blast intro: prune_gentle(2))
  have sub: "map_of (qs_jobs st) x = Some j' \<Longrightarrow> map_of (qs_jobs ?f) x = Some j'" for x j'
    using loaded unfolding assms(3) load_persisted_jobs_def
    by (auto simp: prune_expired_terminal_jobs_def Let_def jobs_ok_def map_of_filter_values split: option.splits if_splits)
  have as: "jb_status j' \<noteq> Running \<and> (jb_status j = Running \<longrightarrow> jb_status j' = Failed) \<and>
      (jb_status j' = Queued \<longrightarrow> jb_status j = Queued \<and> jb_has_runner j')" if "recovered_as C recover j j'" for j j'
    using that by (cases "jb_status j") (auto simp: recovered_as_def split: if_splits)
  have "jb_status j' \<noteq> Running \<and>
       (\<exists>i j. (i, j) \<in> set its \<and> py_strip i = x \<and> (jb_status j = Running \<longrightarrow> jb_status j' = Failed) \<and>
          (jb_status j' = Queued \<longrightarrow> jb_status j = Queued \<and> jb_has_runner j'))"
    if "map_of (qs_jobs st) x = Some j'" for x j'
  proof -
    have "map_of (qs_jobs new_service) x = None" by (simp add: new_service_def)
    with loaded sub [OF that] obtain i j where "(i, j) \<in> set its" "py_strip i = x" "recovered_as C recover j j'"
      by (metis option.distinct(1))
    with as show ?thesis by blast
  qed
  moreover have "qs_tasks st = [] \<and> (\<forall>k. qs_active st k = 0)"
    unfolding assms(3) load_persisted_jobs_def
    by (simp add: prune_expired_terminal_jobs_def Let_def fold_load_frame) (simp add: new_service_def)
  ultimately show ?thesis using ok by blast
qed

definition sample_file :: "(string \<times> job) list" where
  "sample_file =
     [(''j1'', new_job sample_config 0 ''j1'' 1 sample_args),
      (''j2'', (new_job sample_config 0 ''j2'' 2 sample_args)\<lparr>jb_status := Running\<rparr>)]"

theorem restart_replays_nothing_dispatched_witness:
  "\<exists>st j. load_persisted_jobs sample_config 0 (\<lambda>j. True) sample_file = st \<and> qs_tasks st = [] \<and>
     map entry_id (qs_queues st ''local'') = [''j1''] \<and> map_of (qs_jobs st) ''j2'' = Some j \<and> jb_status j \<noteq> Running"
proof -
  let ?st = "load_persisted_jobs sample_config 0 (\<lambda>j. True) sample_file"
  have d: "distinct (map (\<lambda>it. py_strip (fst it)) sample_file)" "\<forall>it\<in>set sample_file. py_strip (fst it) \<noteq> []"
    by code_simp+
  have q: "map entry_id (qs_queues ?st ''local'') = [''j1'']" and "map_of (qs_jobs ?st) ''j2'' \<noteq> None" by code_simp+
  then obtain j where j: "map_of (qs_jobs ?st) ''j2'' = Some j" by blast
  from restart_replays_nothing_dispatched [OF d refl, of sample_config 0 "\<lambda>j. True"] j
  have "jb_status j \<noteq> Running" "qs_tasks ?st = []" by blast+
  with q j show ?thesis by (intro exI conjI) (rule refl | assumption)+
qed

end
