(* ===== verification/Queue_Liveness.thy ===== *)
theory Queue_Liveness
  imports Execution_Queue
begin

text \<open>
  What the execution queue guarantees about progress: a queue that has work and a free slot has a
  dispatcher or a retry pending, what the deadline monitor does to each job, and where a slot is
  lost.
\<close>

section \<open>Queues of the configuration\<close>

definition queue_keys :: "queue_config \<Rightarrow> string set" where
  "queue_keys C = fst ` set (qc_queue_concurrency C)"

definition service_config :: "queue_config \<Rightarrow> bool" where
  "service_config C = (''local'' \<in> queue_keys C \<and> set RUNTIME_LANES \<subseteq> queue_keys C)"

lemma extra_concurrency_keys: "fst ` set m \<subseteq> fst ` set (extra_concurrency m es)"
proof (induction m es rule: extra_concurrency.induct)
  case (2 m queue_name n rest)
  let ?k = "normalize_queue_key_in m (PStr queue_name)"
  have "fst ` set m \<subseteq> fst ` set (if ?k \<in> {''local'', ''cloud''} then m else AList.update ?k (max n 1) m)"
    by (simp only: dom_update split: if_split) blast
  from order_trans [OF this 2 [OF refl]] show ?case by (simp only: extra_concurrency.simps Let_def)
qed simp

lemma made_service_config: "service_config (make_queue_config l c ca ttl mp r extra T nl)"
proof -
  let ?m = "[(''local'', max l 1), (''cloud'', max c 1), (''text_llm'', 1), (''vision_llm'', 1), (''visual_gpu'', 1),
    (''visual_cpu'', 1), (''training_runtime'', 1)]"
  have "''local'' \<in> fst ` set ?m \<and> set RUNTIME_LANES \<subseteq> fst ` set ?m" by (simp add: RUNTIME_LANES_def)
  with extra_concurrency_keys [of ?m extra] show ?thesis
    unfolding service_config_def queue_keys_def make_queue_config_def by (simp del: extra_concurrency.simps) blast
qed

lemma normalized_key:
  assumes "service_config C"
  shows "normalize_queue_key C v \<in> queue_keys C"
proof -
  have "''cloud'' \<in> set RUNTIME_LANES" "''visual_gpu'' \<in> set RUNTIME_LANES" "''visual_cpu'' \<in> set RUNTIME_LANES"
    "''training_runtime'' \<in> set RUNTIME_LANES" "''vision_llm'' \<in> set RUNTIME_LANES"
    by (simp_all add: RUNTIME_LANES_def)
  moreover have "map_of (qc_queue_concurrency C) k \<noteq> None \<Longrightarrow> k \<in> queue_keys C" for k
    by (auto simp: queue_keys_def map_of_eq_None_iff)
  ultimately show ?thesis
    using assms unfolding service_config_def normalize_queue_key_def normalize_queue_key_in_def Let_def
    by (simp only: split: if_split) blast
qed

section \<open>No lost wake-up\<close>

text \<open>A queue that has work and a free slot has a dispatcher that has not ended, or a retry.\<close>

definition awake :: "queue_config \<Rightarrow> queue_service \<Rightarrow> bool" where
  "awake C st =
     (\<forall>k. qs_queues st k \<noteq> [] \<longrightarrow> k \<in> queue_keys C \<and>
        (qs_active st k < concurrency C k \<longrightarrow> qs_dispatchers st k \<noteq> Ended \<or> k \<in> set (qs_retries st)))"

text \<open>Sections that take no slot and end no dispatcher, and that wake one for what they queue.\<close>

definition calm :: "queue_config \<Rightarrow> queue_service \<Rightarrow> queue_service \<Rightarrow> bool" where
  "calm C st st' =
     (qs_active st' = qs_active st \<and> qs_retries st' = qs_retries st \<and>
      (\<forall>k. (qs_dispatchers st k \<noteq> Ended \<longrightarrow> qs_dispatchers st' k \<noteq> Ended) \<and>
           (qs_queues st' k \<noteq> [] \<longrightarrow> qs_queues st k \<noteq> [] \<or> k \<in> queue_keys C \<and> qs_dispatchers st' k \<noteq> Ended)))"

lemma calm_refl [simp]: "calm C st st"
  by (simp add: calm_def)

lemma calm_trans: "calm C a b \<Longrightarrow> calm C b c \<Longrightarrow> calm C a c"
  unfolding calm_def by metis

lemma calm_awake: "calm C st st' \<Longrightarrow> awake C st \<Longrightarrow> awake C st'"
  unfolding calm_def awake_def by metis

lemma calm_same:
  "qs_active st' = qs_active st \<Longrightarrow> qs_retries st' = qs_retries st \<Longrightarrow> qs_dispatchers st' = qs_dispatchers st \<Longrightarrow>
   qs_queues st' = qs_queues st \<Longrightarrow> calm C st st'"
  by (simp add: calm_def)

lemma calm_put: "calm C st (put_job i j st)"
  by (rule calm_same) (simp_all add: put_job_def)

lemma calm_put_tasks: "calm C st ((put_job i j st)\<lparr>qs_tasks := ts\<rparr>)"
  by (rule calm_same) (simp_all add: put_job_def)

lemma calm_put_removed: "calm C st (put_job i j (remove_from_queue k x st))"
  by (auto simp: calm_def put_job_def remove_from_queue_def)

lemma calm_ensure: "calm C st (ensure_dispatcher k st)"
  by (auto simp: calm_def ensure_dispatcher_def set_dispatcher_def)

lemma calm_push: "k \<in> queue_keys C \<Longrightarrow> calm C st (ensure_dispatcher k (push_entry k e st))"
  by (auto simp: calm_def ensure_dispatcher_def set_dispatcher_def push_entry_def)

lemma calm_prune: "calm C st (prune_expired_terminal_jobs now st)"
  by (rule calm_same) (simp_all add: prune_expired_terminal_jobs_def Let_def)

lemma calm_monitor_job:
  assumes "service_config C"
  shows "calm C st (monitor_job C now i st)"
proof -
  have "''cloud'' \<in> queue_keys C" using assms by (auto simp: service_config_def RUNTIME_LANES_def)
  then have "calm C st (ensure_dispatcher ''cloud'' (push_entry ''cloud'' e (put_job i j (remove_from_queue k x st))))" for e j k x
    by (blast intro: calm_trans calm_put_removed calm_push)
  then show ?thesis
    by (simp add: monitor_job_def Let_def calm_put_removed split: option.split)
qed

lemma fold_calm: "(\<And>x s. calm C s (f x s)) \<Longrightarrow> calm C st (fold f xs st)"
  by (induction xs arbitrary: st) (auto intro: calm_trans)

lemma calm_monitor: "service_config C \<Longrightarrow> calm C st (monitor_deadlines C now st)"
  unfolding monitor_deadlines_def Let_def by (blast intro: calm_trans calm_prune fold_calm calm_monitor_job)

lemma calm_enqueue:
  assumes "service_config C" and "enqueue C now i a st = (st', r)"
  shows "calm C st st'"
proof -
  let ?m = "monitor_deadlines C now (st\<lparr>qs_sequence := qs_sequence st + 1\<rparr>)"
  let ?j = "new_job C now i (qs_sequence st) a"
  have "calm C st (st\<lparr>qs_sequence := qs_sequence st + 1\<rparr>)" by (rule calm_same) simp_all
  then have m: "calm C st ?m" using calm_monitor [OF assms(1)] calm_trans by blast
  have "jb_queue ?j \<in> queue_keys C" using normalized_key [OF assms(1)] by (simp add: new_job_def Let_def)
  then have "calm C ?m (ensure_dispatcher (jb_queue ?j) (push_entry (jb_queue ?j) e (put_job i ?j ?m)))" for e
    by (blast intro: calm_trans calm_put calm_push)
  with m have "calm C st (ensure_dispatcher (jb_queue ?j) (push_entry (jb_queue ?j) e (put_job i ?j ?m)))" for e
    by (blast intro: calm_trans)
  moreover have "st' = ?m \<or>
      st' = ensure_dispatcher (jb_queue ?j) (push_entry (jb_queue ?j) (queue_entry C now i ?j) (put_job i ?j ?m))"
    using assms(2) unfolding enqueue_def Let_def by (auto split: option.splits if_splits)
  ultimately show ?thesis using m by blast
qed

lemma calm_cancel:
  assumes "service_config C" and "cancel_job C now i reason st = (st', r)"
  shows "calm C st st'"
proof -
  let ?m = "monitor_deadlines C now st"
  have "calm C ?m st'"
    using assms(2) unfolding cancel_job_def Let_def
    by (auto simp: calm_put_removed calm_put_tasks split: option.splits if_splits)
  with calm_monitor [OF assms(1)] show ?thesis by (blast intro: calm_trans)
qed

lemma calm_ack: "acknowledge_artifacts n i a st = (st', r) \<Longrightarrow> calm C st st'"
  unfolding acknowledge_artifacts_def Let_def by (auto simp: calm_put split: option.splits if_splits)

lemma calm_recovered: "service_config C \<Longrightarrow> calm C st (start_recovered_jobs C now st)"
  unfolding start_recovered_jobs_def Let_def
  by (rule calm_trans [OF calm_monitor]) (auto intro!: fold_calm simp: calm_ensure)

lemma calm_set_phase: "calm C st (set_phase i ph st)"
  by (rule calm_same) (simp_all add: set_phase_def split: option.split)

lemma calm_settle: "calm C st (settle_task C now i oc st)"
  unfolding settle_task_def
  by (rule calm_trans [OF _ calm_set_phase]) (simp add: calm_put split: option.split)

section \<open>The steps that end a dispatcher or free a slot\<close>

lemma tl_nonempty: "tl xs \<noteq> [] \<Longrightarrow> xs \<noteq> []"
  by auto

lemma look_awake: "awake C st \<Longrightarrow> awake C (dispatch_look C k st)"
  by (auto simp: awake_def dispatch_look_def set_dispatcher_def pop_entry_def dest: tl_nonempty split: list.split option.split)

lemma start_awake: "awake C st \<Longrightarrow> awake C (start_job now k i j st)"
  by (auto simp: awake_def start_job_def put_job_def pop_entry_def Let_def dest: tl_nonempty)

lemma admitted_awake:
  assumes "awake C st"
  shows "awake C (dispatch_admitted now k i ad st)"
proof -
  have l: "awake C (set_dispatcher k Looking st)" "awake C (set_dispatcher k Looking (pop_entry k st))"
    using assms by (auto simp: awake_def set_dispatcher_def pop_entry_def dest: tl_nonempty)
  have b: "awake C (set_dispatcher k Ended (schedule_blocked_retry k (put_job i j st)))" for j
    using assms by (auto simp: awake_def set_dispatcher_def schedule_blocked_retry_def put_job_def)
  show ?thesis
    by (simp add: dispatch_admitted_def l b start_awake [OF assms] split: list.split option.split)
qed

lemma register_awake: "awake C st \<Longrightarrow> awake C (register_task k i st)"
  by (auto simp: awake_def register_task_def set_dispatcher_def)

lemma retry_awake:
  assumes "service_config C" and "awake C st"
  shows "awake C (retry_blocked_queue C now k st)"
proof -
  let ?r = "st\<lparr>qs_retries := removeAll k (qs_retries st)\<rparr>"
  let ?m = "monitor_deadlines C now ?r"
  have m: "calm C ?r ?m" using assms(1) by (rule calm_monitor)
  then have "qs_queues ?m x \<noteq> [] \<Longrightarrow> x \<in> queue_keys C \<and>
      (x \<noteq> k \<longrightarrow> qs_active ?m x < concurrency C x \<longrightarrow> qs_dispatchers ?m x \<noteq> Ended \<or> x \<in> set (qs_retries ?m))" for x
    using assms(2) unfolding calm_def awake_def by (simp del: removeAll.simps) metis
  then show ?thesis
    by (auto simp: retry_blocked_queue_def Let_def awake_def ensure_dispatcher_def set_dispatcher_def)
qed

lemma fold_ensure_wakes:
  "k \<in> set ks \<Longrightarrow> qs_dispatchers (fold ensure_dispatcher ks st) k \<noteq> Ended"
proof (induction ks arbitrary: st)
  case (Cons x ks)
  have "calm C (ensure_dispatcher x st) (fold ensure_dispatcher ks (ensure_dispatcher x st))" for C
    by (rule fold_calm) (rule calm_ensure)
  moreover have "qs_dispatchers (ensure_dispatcher x st) x \<noteq> Ended"
    by (simp add: ensure_dispatcher_def set_dispatcher_def)
  ultimately show ?case using Cons by (auto simp: calm_def)
qed simp

lemma fold_ensure_queues: "qs_queues (fold ensure_dispatcher ks st) = qs_queues st"
  by (induction ks arbitrary: st) (simp_all add: ensure_dispatcher_def set_dispatcher_def)

lemma leave_awake:
  assumes "awake C st"
  shows "awake C (leave_task C i t st)"
  using assms fold_ensure_wakes unfolding awake_def leave_task_def fold_ensure_queues queue_keys_def by auto

lemma queue_step_awake: "queue_step C st st' \<Longrightarrow> service_config C \<Longrightarrow> awake C st \<Longrightarrow> awake C st'"
proof (induction rule: queue_step.induct)
  case (s_killed st i t)
  then show ?case by (simp add: awake_def)
next
  case (s_lost st i t)
  then show ?case by (simp add: awake_def)
qed (blast intro: calm_awake calm_enqueue calm_monitor calm_recovered calm_ack calm_cancel look_awake admitted_awake
      register_awake retry_awake calm_set_phase calm_settle leave_awake)+

text \<open>After a restart the dispatchers are woken by \<open>start_recovered_jobs\<close>.\<close>

lemma load_job_queues:
  "qs_queues (load_job C now rc it st) k \<noteq> [] \<Longrightarrow> qs_queues st k \<noteq> [] \<or> k = jb_queue (recovered_fields C (snd it))"
proof -
  have "k \<noteq> jb_queue (recovered_fields C (snd it)) \<Longrightarrow> qs_queues (load_job C now rc it st) k = qs_queues st k"
    by (simp add: load_job_def put_job_def push_entry_def Let_def split: job_status.split)
  then show "qs_queues (load_job C now rc it st) k \<noteq> [] \<Longrightarrow> qs_queues st k \<noteq> [] \<or> k = jb_queue (recovered_fields C (snd it))"
    by metis
qed

lemma fold_load_queues:
  assumes "service_config C" and "\<forall>k. qs_queues st k \<noteq> [] \<longrightarrow> k \<in> queue_keys C"
  shows "\<forall>k. qs_queues (fold (load_job C now rc) its st) k \<noteq> [] \<longrightarrow> k \<in> queue_keys C"
  using assms(2)
proof (induction its arbitrary: st)
  case (Cons it its)
  have q: "jb_queue (recovered_fields C j) \<in> queue_keys C" for j
    using normalized_key [OF assms(1)] by (simp add: recovered_fields_def Let_def)
  have "\<forall>k. qs_queues (load_job C now rc it st) k \<noteq> [] \<longrightarrow> k \<in> queue_keys C"
  proof (intro allI impI)
    fix k assume "qs_queues (load_job C now rc it st) k \<noteq> []"
    from load_job_queues [OF this] show "k \<in> queue_keys C" using Cons.prems q by (elim disjE) simp_all
  qed
  from Cons.IH [OF this] show ?case by (simp only: fold_simps)
qed (simp only: fold_simps)

lemma loaded_keys:
  assumes "service_config C" and "qs_queues (load_persisted_jobs C now rc its) k \<noteq> []"
  shows "k \<in> queue_keys C"
proof -
  have "\<forall>k. qs_queues new_service k \<noteq> [] \<longrightarrow> k \<in> queue_keys C" by (simp add: new_service_def)
  from fold_load_queues [OF assms(1) this, of now rc its] assms(2) show ?thesis
    by (simp add: load_persisted_jobs_def prune_expired_terminal_jobs_def Let_def)
qed

lemma fold_ensure_some_wakes:
  "k \<in> set ks \<Longrightarrow> P k \<Longrightarrow> qs_dispatchers (fold (\<lambda>k s. if P k then ensure_dispatcher k s else s) ks st) k \<noteq> Ended"
proof (induction ks arbitrary: st)
  case (Cons x ks)
  let ?f = "\<lambda>k s. if P k then ensure_dispatcher k s else s"
  have "calm C (?f x st) (fold ?f ks (?f x st))" for C
    by (rule fold_calm) (simp add: calm_ensure)
  moreover have "P x \<Longrightarrow> qs_dispatchers (?f x st) x \<noteq> Ended"
    by (simp add: ensure_dispatcher_def set_dispatcher_def)
  ultimately show ?case using Cons by (auto simp: calm_def)
qed simp

lemma fold_ensure_some_queues:
  "qs_queues (fold (\<lambda>k s. if P k then ensure_dispatcher k s else s) ks st) = qs_queues st"
  by (induction ks arbitrary: st) (simp_all add: ensure_dispatcher_def set_dispatcher_def)

lemma started_awake:
  assumes "service_config C" and "\<And>k. qs_queues st k \<noteq> [] \<Longrightarrow> k \<in> queue_keys C"
  shows "awake C (start_recovered_jobs C now st)"
proof -
  let ?m = "monitor_deadlines C now st"
  have "qs_queues ?m k \<noteq> [] \<Longrightarrow> k \<in> queue_keys C" for k
    using calm_monitor [OF assms(1), of st now] assms(2) by (auto simp: calm_def)
  then show ?thesis
    unfolding start_recovered_jobs_def Let_def awake_def fold_ensure_some_queues queue_keys_def
    using fold_ensure_some_wakes by auto
qed

section \<open>What the monitor does to a job\<close>

text \<open>A waiting job whose budget has run out moves to the cloud queue or expires; others stay.\<close>

definition monitored :: "queue_config \<Rightarrow> int \<Rightarrow> job \<Rightarrow> job" where
  "monitored C now j =
     (case effective_deadline C j of
        None \<Rightarrow> j
      | Some d \<Rightarrow>
          if jb_status j \<noteq> Queued \<or> now \<le> d then j
          else if jb_queue j = ''local'' \<and> truthy (dget (jb_queue_intent j) ''allow_cloud_spillover'')
          then j\<lparr>jb_queue := ''cloud'', jb_routing_decision := spilled_routing (jb_routing_decision j)\<rparr>
          else j\<lparr>jb_status := Expired_wait_budget, jb_completed_at := Some now,
                 jb_expires_at := now + seconds (qc_job_ttl_seconds C),
                 jb_error := Some (''expired_wait_budget'', ''queue wait budget expired before execution''),
                 jb_has_runner := False\<rparr>)"

lemma jobs_ensure [simp]: "qs_jobs (ensure_dispatcher k st) = qs_jobs st"
  by (simp add: ensure_dispatcher_def set_dispatcher_def)

lemma jobs_queue_ops [simp]:
  "qs_jobs (push_entry k e st) = qs_jobs st" "qs_jobs (remove_from_queue k i st) = qs_jobs st"
  "qs_jobs (put_job i j st) = AList.update i j (qs_jobs st)"
  by (simp_all add: push_entry_def remove_from_queue_def put_job_def)

lemma monitor_job_jobs:
  "map_of (qs_jobs (monitor_job C now i st)) x =
     (if x = i then map_option (monitored C now) (map_of (qs_jobs st) x) else map_of (qs_jobs st) x)"
  by (simp add: monitor_job_def monitored_def dict.get_put Let_def split: option.split) blast

lemma fold_monitor_jobs:
  assumes "distinct is"
  shows "map_of (qs_jobs (fold (monitor_job C now) is st)) x =
     (if x \<in> set is then map_option (monitored C now) (map_of (qs_jobs st) x) else map_of (qs_jobs st) x)"
  using assms by (induction "is" arbitrary: st) (simp_all add: monitor_job_jobs)

lemma monitor_jobs:
  assumes "distinct (map fst (qs_jobs st))"
  shows "map_of (qs_jobs (monitor_deadlines C now st)) x =
     (case map_of (qs_jobs st) x of
        None \<Rightarrow> None
      | Some j \<Rightarrow> if record_due now j then None else Some (monitored C now j))"
proof -
  let ?p = "prune_expired_terminal_jobs now st"
  have jobs: "qs_jobs ?p = filter (\<lambda>(k, j). \<not> record_due now j) (qs_jobs st)"
    by (simp add: prune_expired_terminal_jobs_def Let_def)
  have d: "distinct (map fst (qs_jobs ?p))" unfolding jobs using assms by (rule distinct_map_filter)
  note m = map_of_filter_values [OF assms, of "\<lambda>j. \<not> record_due now j", folded jobs]
  have "map_of (qs_jobs (monitor_deadlines C now st)) x =
      (if x \<in> set (map fst (qs_jobs ?p)) then map_option (monitored C now) (map_of (qs_jobs ?p) x)
       else map_of (qs_jobs ?p) x)"
    unfolding monitor_deadlines_def Let_def by (rule fold_monitor_jobs [OF d])
  also have "\<dots> = map_option (monitored C now) (map_of (qs_jobs ?p) x)"
    by (metis (mono_tags) list.set_map map_of_eq_None_iff option.simps(8))
  also have "\<dots> = (case map_of (qs_jobs st) x of
        None \<Rightarrow> None | Some j \<Rightarrow> if record_due now j then None else Some (monitored C now j))"
    unfolding m by (simp split: option.split)
  finally show ?thesis .
qed

section \<open>Lost slots\<close>

text \<open>All the slots of a queue are taken, and no task is left that would free one.\<close>

definition slots_lost :: "queue_config \<Rightarrow> string \<Rightarrow> queue_service \<Rightarrow> bool" where
  "slots_lost C k st =
     (concurrency C k \<le> qs_active st k \<and> in_queue k (qs_tasks st) = 0 \<and> (\<forall>i. qs_dispatchers st k \<noteq> Admitting i))"

text \<open>Sections that take and free no slot of a queue and admit nothing to it.\<close>

definition steady :: "string \<Rightarrow> queue_service \<Rightarrow> queue_service \<Rightarrow> bool" where
  "steady k st st' =
     (qs_active st' k = qs_active st k \<and> in_queue k (qs_tasks st') \<le> in_queue k (qs_tasks st) \<and>
      (\<forall>i. qs_dispatchers st' k = Admitting i \<longrightarrow> qs_dispatchers st k = Admitting i))"

lemma steady_lost: "steady k st st' \<Longrightarrow> slots_lost C k st \<Longrightarrow> slots_lost C k st'"
  by (auto simp: steady_def slots_lost_def)

lemma steady_trans: "steady k a b \<Longrightarrow> steady k b c \<Longrightarrow> steady k a c"
  unfolding steady_def by (metis order_trans)

lemma gentle_steady: "gentle st st' \<Longrightarrow> steady k st st'"
  by (simp add: gentle_def steady_def)

lemma steady_ops:
  "steady k st (put_job i j st)" "steady k st (push_entry x e st)" "steady k st (ensure_dispatcher x st)"
  "steady k st (remove_from_queue x i st)" "steady k st (st\<lparr>qs_retries := rs\<rparr>)" "steady k st (st\<lparr>qs_sequence := n\<rparr>)"
  by (simp_all add: steady_def put_job_def push_entry_def ensure_dispatcher_def set_dispatcher_def remove_from_queue_def)

lemma steady_monitor: "queue_inv C st \<Longrightarrow> steady k st (monitor_deadlines C now st)"
  using monitor_gentle [of st C now] gentle_steady by (auto simp: queue_inv_def)

lemma steady_update_task:
  "map_of (qs_tasks st) i = Some t \<Longrightarrow> tk_queue t' = tk_queue t \<Longrightarrow>
   steady k st (st\<lparr>qs_tasks := AList.update i t' (qs_tasks st)\<rparr>)"
  by (simp add: steady_def in_queue_update_same)

lemma steady_delete_task: "steady k st (st\<lparr>qs_tasks := AList.delete i (qs_tasks st)\<rparr>)"
proof -
  have "in_queue k (AList.delete i ts) \<le> in_queue k ts" for ts
    by (simp add: in_queue_def AList.delete_eq filter_filter length_filter_conv_card card_mono subset_iff)
  then show ?thesis by (simp add: steady_def)
qed

lemma steady_set_phase: "steady k st (set_phase i ph st)"
  by (simp add: set_phase_def steady_update_task split: option.split) (simp add: steady_def)

lemma steady_settle: "steady k st (settle_task C now i oc st)"
  unfolding settle_task_def
  by (rule steady_trans [OF _ steady_set_phase]) (simp add: steady_ops split: option.split, simp add: steady_def)

lemma steady_enqueue:
  assumes "queue_inv C st" and "enqueue C now i a st = (st', r)"
  shows "steady k st st'"
proof -
  let ?s = "st\<lparr>qs_sequence := qs_sequence st + 1\<rparr>"
  let ?m = "monitor_deadlines C now ?s"
  let ?j = "new_job C now i (qs_sequence st) a"
  have "jobs_ok ?s" using assms(1) by (simp add: queue_inv_def)
  then have "steady k ?s ?m" using monitor_gentle gentle_steady by blast
  then have m: "steady k st ?m" using steady_ops(6) steady_trans by blast
  have "st' = ?m \<or>
      st' = ensure_dispatcher (jb_queue ?j) (push_entry (jb_queue ?j) (queue_entry C now i ?j) (put_job i ?j ?m))"
    using assms(2) unfolding enqueue_def Let_def by (auto split: option.splits if_splits)
  then show ?thesis using m by (elim disjE) (metis steady_trans steady_ops(1,2,3))+
qed

lemma steady_cancel:
  assumes "queue_inv C st" and "cancel_job C now i reason st = (st', r)"
  shows "steady k st st'"
proof -
  let ?m = "monitor_deadlines C now st"
  have q: "steady k ?m (put_job x j (remove_from_queue y x ?m))" for x j y
    using steady_ops(1,4) steady_trans by blast
  have t: "steady k ?m ((put_job x j ?m)\<lparr>qs_tasks := AList.update x (t\<lparr>tk_cancels := n\<rparr>) (qs_tasks ?m)\<rparr>)"
    if "map_of (qs_tasks ?m) x = Some t" for x j t n
    using that by (simp add: steady_def put_job_def in_queue_update_same)
  have "steady k ?m ?m" by (simp add: steady_def)
  then have "steady k ?m st'"
    using assms(2) q t unfolding cancel_job_def Let_def by (auto split: option.splits if_splits)
  then show ?thesis using steady_monitor [OF assms(1)] steady_trans by blast
qed

lemma steady_ack: "acknowledge_artifacts n i a st = (st', r) \<Longrightarrow> steady k st st'"
  unfolding acknowledge_artifacts_def Let_def
  by (auto simp: steady_ops split: option.splits if_splits) (simp_all add: steady_def)

lemma steady_recovered:
  assumes "queue_inv C st"
  shows "steady k st (start_recovered_jobs C now st)"
  unfolding start_recovered_jobs_def Let_def
  by (rule steady_trans [OF steady_monitor [OF assms] gentle_steady [OF conjunct1 [OF fold_ensure_some_gentle]]])

lemma steady_register: "steady k st (register_task x i st)"
  by (simp add: steady_def register_task_def set_dispatcher_def)

lemma steady_retry:
  assumes "queue_inv C st"
  shows "steady k st (retry_blocked_queue C now x st)"
proof -
  let ?r = "st\<lparr>qs_retries := removeAll x (qs_retries st)\<rparr>"
  have "jobs_ok ?r" using assms by (simp add: queue_inv_def)
  then have "steady k ?r (monitor_deadlines C now ?r)" using monitor_gentle gentle_steady by blast
  then have m: "steady k st (monitor_deadlines C now ?r)" using steady_ops(5) steady_trans by blast
  then show ?thesis
    by (simp add: retry_blocked_queue_def Let_def steady_trans [OF _ steady_ops(3)])
qed

lemma look_lost: "slots_lost C k st \<Longrightarrow> slots_lost C k (dispatch_look C x st)"
  by (auto simp: slots_lost_def dispatch_look_def set_dispatcher_def pop_entry_def split: list.split option.split)

lemma admitted_lost:
  assumes "slots_lost C k st" and "queue_inv C st" and "qs_dispatchers st x = Admitting i"
  shows "slots_lost C k (dispatch_admitted now x i ad st)"
proof -
  have x: "x \<noteq> k" using assms(1,3) by (auto simp: slots_lost_def)
  have d: "slots_lost C k (set_dispatcher x d st)" "slots_lost C k (set_dispatcher x d (pop_entry x st))"
    "slots_lost C k (set_dispatcher x d (schedule_blocked_retry x (put_job i j st)))" for d j
    using assms(1) x
    by (simp_all add: slots_lost_def set_dispatcher_def pop_entry_def schedule_blocked_retry_def put_job_def)
  have "slots_lost C k (start_job now x i j st)" if "map_of (qs_jobs st) i = Some j" "jb_status j = Queued" for j
  proof -
    have "i \<notin> set (qs_started st)" using assms(2) that by (auto simp: queue_inv_def once_ok_def)
    then have "map_of (qs_tasks st) i = None"
      using assms(2) by (auto simp: queue_inv_def slots_ok_def map_of_eq_None_iff)
    with assms(1) x show ?thesis
      by (simp add: slots_lost_def start_job_def put_job_def pop_entry_def Let_def in_queue_update_new)
  qed
  with d show ?thesis
    by (simp add: dispatch_admitted_def split: list.split option.split)
qed

lemma in_queue_member: "map_of ts i = Some t \<Longrightarrow> 0 < in_queue (tk_queue t) ts"
  by (induction ts) (auto simp: in_queue_def split: if_splits)

lemma leave_lost:
  assumes "slots_lost C k st" and "map_of (qs_tasks st) i = Some t"
  shows "slots_lost C k (leave_task C i t st)"
proof -
  let ?st = "st\<lparr>qs_tasks := AList.delete i (qs_tasks st), qs_registered := removeAll i (qs_registered st),
      qs_active := (qs_active st)(tk_queue t := max (qs_active st (tk_queue t) - 1) 0)\<rparr>"
  have "tk_queue t \<noteq> k" using in_queue_member [OF assms(2)] assms(1) by (auto simp: slots_lost_def)
  then have "slots_lost C k ?st"
    using steady_lost [OF steady_delete_task assms(1), of i] by (simp add: slots_lost_def)
  then show ?thesis
    unfolding leave_task_def using fold_ensure_gentle gentle_steady steady_lost by blast
qed

lemma queue_step_lost: "queue_step C st st' \<Longrightarrow> queue_inv C st \<Longrightarrow> slots_lost C k st \<Longrightarrow> slots_lost C k st'"
  by (induction rule: queue_step.induct)
    (blast intro: steady_lost [OF steady_enqueue] steady_lost [OF steady_monitor] steady_lost [OF steady_recovered]
      steady_lost [OF steady_ack] steady_lost [OF steady_cancel] look_lost admitted_lost steady_lost [OF steady_register]
      steady_lost [OF steady_retry] steady_lost [OF steady_set_phase] steady_lost [OF steady_delete_task]
      steady_lost [OF steady_settle] leave_lost)+

lemma queue_steps_lost:
  assumes "(queue_step C)\<^sup>*\<^sup>* st st'" and "queue_inv C st" and "slots_lost C k st"
  shows "slots_lost C k st'"
  using assms
proof (induction rule: converse_rtranclp_induct)
  case (step a b)
  then show ?case using queue_step_lost queue_step_inv by blast
qed

section \<open>More of the sample run\<close>

definition sample_up :: queue_service where
  "sample_up = start_recovered_jobs sample_config 0 sample_booted"

definition sample_waiting :: queue_service where
  "sample_waiting = fst (enqueue sample_config 0 ''j1'' sample_args sample_up)"

definition sample_registered :: queue_service where
  "sample_registered = register_task ''local'' ''j1'' sample_started"

definition sample_cancelled :: queue_service where
  "sample_cancelled = fst (cancel_job sample_config 0 ''j1'' PNone sample_registered)"

definition sample_killed :: queue_service where
  "sample_killed = sample_cancelled\<lparr>qs_tasks := AList.delete ''j1'' (qs_tasks sample_cancelled)\<rparr>"

lemma sample_registered_reachable: "queue_reachable sample_config sample_registered"
proof (rule queue_reachable.step [OF sample_started_reachable])
  show "queue_step sample_config sample_started sample_registered"
    unfolding sample_registered_def by (rule queue_step.s_register) code_simp
qed

lemma sample_cancelled_reachable: "queue_reachable sample_config sample_cancelled"
proof (rule queue_reachable.step [OF sample_registered_reachable])
  show "queue_step sample_config sample_registered sample_cancelled"
    by (rule queue_step.s_cancel [of sample_config 0 "''j1''" PNone sample_registered sample_cancelled
          "snd (cancel_job sample_config 0 ''j1'' PNone sample_registered)"])
      (simp add: sample_cancelled_def)
qed

lemma sample_killed_reachable: "queue_reachable sample_config sample_killed"
proof (rule queue_reachable.step [OF sample_cancelled_reachable])
  have "map_of (qs_tasks sample_cancelled) ''j1'' = Some \<lparr>tk_queue = ''local'', tk_phase = Created, tk_cancels = 1\<rparr>"
    by code_simp
  from queue_step.s_killed [OF this]
  show "queue_step sample_config sample_cancelled sample_killed" by (simp add: sample_killed_def)
qed

lemma sample_killed_lost: "slots_lost sample_config ''local'' sample_killed"
proof -
  have "concurrency sample_config ''local'' \<le> qs_active sample_killed ''local''"
    "in_queue ''local'' (qs_tasks sample_killed) = 0" "qs_dispatchers sample_killed ''local'' = Looking"
    by code_simp+
  then show ?thesis by (simp add: slots_lost_def)
qed

section \<open>Properties\<close>

text \<open>
  C26. No wake-up is lost. From the start of a service whose configuration its constructor made,
  after any steps, a queue that has a job waiting and a free slot has a dispatcher that has not
  ended or a retry that will wake one.
\<close>

theorem no_lost_wakeup:
  assumes "C = make_queue_config l c ca ttl mp r extra T nl"
    and "(queue_step C)\<^sup>*\<^sup>* (start_recovered_jobs C now' (load_persisted_jobs C now rc its)) st"
    and "qs_queues st k \<noteq> []" and "qs_active st k < concurrency C k"
  shows "qs_dispatchers st k \<noteq> Ended \<or> k \<in> set (qs_retries st)"
proof -
  have C: "service_config C" unfolding assms(1) by (rule made_service_config)
  have "awake C (start_recovered_jobs C now' (load_persisted_jobs C now rc its))"
    using started_awake [OF C] loaded_keys [OF C] by blast
  with assms(2) have "awake C st"
    by (induction rule: rtranclp_induct) (auto intro: queue_step_awake [OF _ C])
  with assms(3,4) show ?thesis by (simp add: awake_def)
qed

theorem no_lost_wakeup_witness:
  "qs_queues sample_waiting ''local'' \<noteq> [] \<and> qs_active sample_waiting ''local'' < concurrency sample_config ''local'' \<and>
   qs_retries sample_waiting = [] \<and> qs_dispatchers sample_waiting ''local'' \<noteq> Ended"
proof -
  have "queue_step sample_config sample_up sample_waiting"
    by (rule queue_step.s_enqueue [of sample_up "''j1''" sample_config 0 sample_args sample_waiting
          "snd (enqueue sample_config 0 ''j1'' sample_args sample_up)"])
      (code_simp, code_simp, code_simp, simp add: sample_waiting_def)
  then have s: "(queue_step sample_config)\<^sup>*\<^sup>*
      (start_recovered_jobs sample_config 0 (load_persisted_jobs sample_config 0 (\<lambda>j. False) [])) sample_waiting"
    unfolding sample_up_def sample_booted_def by (rule r_into_rtranclp)
  have q: "qs_queues sample_waiting ''local'' \<noteq> []"
    "qs_active sample_waiting ''local'' < concurrency sample_config ''local''" by code_simp+
  have r: "qs_retries sample_waiting = []" by code_simp
  from no_lost_wakeup [OF sample_config_def s q] q r show ?thesis by simp
qed

text \<open>
  The deadline monitor treats every job on its own: a terminal record whose time has come is
  dropped, a waiting job past its budget is moved to the cloud queue if it is local and may spill
  over and expires otherwise, and every other job stays what it was.
\<close>

theorem monitor_exact:
  assumes "queue_reachable C st"
  shows "map_of (qs_jobs (monitor_deadlines C now st)) x =
     (case map_of (qs_jobs st) x of
        None \<Rightarrow> None
      | Some j \<Rightarrow> if record_due now j then None else Some (monitored C now j))"
  using queue_reachable_inv [OF assms] by (intro monitor_jobs) (simp add: queue_inv_def jobs_ok_def)

theorem monitor_exact_witness:
  "\<exists>j. map_of (qs_jobs (monitor_deadlines sample_config (seconds 11) sample_queued)) ''j1'' = Some j \<and>
     jb_status j = Expired_wait_budget"
proof -
  let ?j = "new_job sample_config 0 ''j1'' 1 sample_args"
  have "map_of (qs_jobs sample_queued) ''j1'' = Some ?j" "\<not> record_due (seconds 11) ?j"
    "jb_status (monitored sample_config (seconds 11) ?j) = Expired_wait_budget" by code_simp+
  with monitor_exact [OF sample_queued_reachable, of "seconds 11" "''j1''"] show ?thesis by simp
qed

text \<open>
  A job that spills over to the cloud queue because its waiting budget ran out keeps that
  budget: the next look of the monitor, at the same instant or later, expires it unless it was
  dispatched in between.
\<close>

theorem spilled_job_expires:
  assumes "queue_reachable C st" and "map_of (qs_jobs st) i = Some j" and "jb_status j = Queued"
    and "jb_queue j = ''local''" and "truthy (dget (jb_queue_intent j) ''allow_cloud_spillover'')"
    and "effective_deadline C j = Some d" and "d < now" and "now \<le> now'"
  shows "\<exists>j1 j2. map_of (qs_jobs (monitor_deadlines C now st)) i = Some j1 \<and> jb_queue j1 = ''cloud'' \<and> jb_status j1 = Queued \<and>
    map_of (qs_jobs (monitor_deadlines C now' (monitor_deadlines C now st))) i = Some j2 \<and>
    jb_status j2 = Expired_wait_budget"
proof -
  let ?m = "monitor_deadlines C now st" and ?j = "monitored C now j"
  have ok: "distinct (map fst (qs_jobs s))" if "queue_inv C s" for s
    using that by (simp add: queue_inv_def jobs_ok_def)
  have inv: "queue_inv C st" using assms(1) by (rule queue_reachable_inv)
  have nd: "\<not> record_due n x" if "jb_status x = Queued" for n x
    using that by (simp add: record_due_def is_terminal_def)
  have j: "?j = j\<lparr>jb_queue := ''cloud'', jb_routing_decision := spilled_routing (jb_routing_decision j)\<rparr>"
    using assms(3-7) by (simp add: monitored_def)
  have "effective_deadline C ?j = Some d"
    using assms(6) by (simp add: j effective_deadline_def)
  then have "jb_status (monitored C now' ?j) = Expired_wait_budget"
    using assms(3,7,8) by (simp add: monitored_def [of C now'] j)
  moreover have one: "map_of (qs_jobs ?m) i = Some ?j"
    using monitor_jobs [OF ok [OF inv], of C now i] assms(2) nd [OF assms(3)] by simp
  moreover have "map_of (qs_jobs (monitor_deadlines C now' ?m)) i = Some (monitored C now' ?j)"
    using monitor_jobs [OF ok [OF monitor_inv [OF inv, of now]], of C now' i] one nd [of ?j] assms(3) by (simp add: j)
  ultimately show ?thesis using assms(3) by (auto simp: j)
qed

definition sample_spill_args :: enqueue_args where
  "sample_spill_args =
     sample_args\<lparr>eq_queue_intent := PDict [(''max_wait_seconds'', PInt 10), (''allow_cloud_spillover'', PBool True)]\<rparr>"

theorem spilled_job_expires_witness:
  "\<exists>st j1 j2. queue_reachable sample_config st \<and>
    map_of (qs_jobs (monitor_deadlines sample_config (seconds 11) st)) ''j1'' = Some j1 \<and> jb_queue j1 = ''cloud'' \<and>
    jb_status j1 = Queued \<and>
    map_of (qs_jobs (monitor_deadlines sample_config (seconds 11) (monitor_deadlines sample_config (seconds 11) st))) ''j1''
      = Some j2 \<and> jb_status j2 = Expired_wait_budget"
proof -
  let ?st = "fst (enqueue sample_config 0 ''j1'' sample_spill_args sample_booted)"
  let ?j = "new_job sample_config 0 ''j1'' 1 sample_spill_args"
  have "queue_step sample_config sample_booted ?st"
    by (rule queue_step.s_enqueue [of sample_booted "''j1''" sample_config 0 sample_spill_args ?st
          "snd (enqueue sample_config 0 ''j1'' sample_spill_args sample_booted)"])
      (code_simp, code_simp, code_simp, simp)
  with sample_booted_reachable have r: "queue_reachable sample_config ?st" by (rule queue_reachable.step)
  have m: "map_of (qs_jobs ?st) ''j1'' = Some ?j" by code_simp
  have q: "jb_status ?j = Queued" "jb_queue ?j = ''local''"
    "truthy (dget (jb_queue_intent ?j) ''allow_cloud_spillover'')"
    "effective_deadline sample_config ?j = Some 10000000" "10000000 < seconds 11" by code_simp+
  from spilled_job_expires [OF r m q order_refl] r show ?thesis by blast
qed

text \<open>
  A running job that is cancelled before its task has begun never leaves its slot. In the
  reachable state after such a cancellation the job is still marked running, no task is left, and
  whatever happens later the only slot of the local queue stays taken, so that no local job is
  dispatched again.
\<close>

theorem cancelled_before_begun_loses_slot:
  assumes "(queue_step sample_config)\<^sup>*\<^sup>* sample_killed st"
  shows "queue_reachable sample_config sample_killed \<and>
    map_option jb_status (map_of (qs_jobs sample_killed) ''j1'') = Some Running \<and> qs_tasks sample_killed = [] \<and>
    concurrency sample_config ''local'' \<le> qs_active st ''local'' \<and> live_tasks st ''local'' = 0"
proof -
  have "slots_lost sample_config ''local'' st"
    using assms queue_reachable_inv [OF sample_killed_reachable] sample_killed_lost by (rule queue_steps_lost)
  moreover have "map_option jb_status (map_of (qs_jobs sample_killed) ''j1'') = Some Running" "qs_tasks sample_killed = []"
    by code_simp+
  ultimately show ?thesis
    using sample_killed_reachable by (simp add: slots_lost_def live_tasks_in_queue)
qed

theorem cancelled_before_begun_loses_slot_witness:
  "\<exists>st. queue_step sample_config sample_killed st \<and> map entry_id (qs_queues st ''local'') = [''j2''] \<and>
     1 \<le> qs_active st ''local'' \<and> live_tasks st ''local'' = 0"
proof -
  let ?a = "sample_args\<lparr>eq_queue_intent := PNone\<rparr>"
  let ?st = "fst (enqueue sample_config 0 ''j2'' ?a sample_killed)"
  have s: "queue_step sample_config sample_killed ?st"
    by (rule queue_step.s_enqueue [of sample_killed "''j2''" sample_config 0 ?a ?st
          "snd (enqueue sample_config 0 ''j2'' ?a sample_killed)"])
      (code_simp, code_simp, code_simp, simp)
  have "map entry_id (qs_queues ?st ''local'') = [''j2'']" "concurrency sample_config ''local'' = 1" by code_simp+
  with s cancelled_before_begun_loses_slot [OF r_into_rtranclp [where r = "queue_step sample_config", OF s]] show ?thesis
    by (intro exI [of _ ?st]) simp
qed

end
