(* ===== verification/Idempotency.thy ===== *)
theory Idempotency
  imports Prelude
begin

text \<open>
  \<open>execution/idempotency.py\<close>: \<open>ExecutionIdempotencyStore.execute\<close> and the calls that are inside
  it at the same time.

  A call passes through locked sections with awaits in between: it waits for its own operation,
  or for the future of the call that runs the operation. What a call is waiting for is part of
  the state. The calls themselves are numbered. Whether \<open>_persist\<close> could write the file is an
  argument of the sections that call it. \<open>hashlib.sha256\<close> is a parameter; nothing is assumed of
  it, and what is proved of equal requests is proved of equal hashes.
\<close>

section \<open>The store\<close>

record idem_record =
  ir_caller_id :: string
  ir_request_hash :: string
  ir_response :: pyval
  ir_created_at :: int
  ir_expires_at :: "int option"

text \<open>\<open>ir_expires_at\<close> is the instant \<open>_parse_time\<close> reads, \<open>None\<close> for a text it cannot read.\<close>

datatype exec_outcome = Response pyval | Raised string

datatype call_phase =
    Direct
  | Owner string string string nat
  | Waiting nat
  | Ended exec_outcome

record idem_env =
  ie_sha256 :: "string \<Rightarrow> string"
  ie_retention_seconds :: int

record idem_store =
  im_records :: "(string \<times> idem_record) list"
  im_pending :: "(string \<times> string \<times> nat) list"
  im_futures :: "(nat \<times> exec_outcome) list"
  im_next_future :: nat
  im_calls :: "(nat \<times> call_phase) list"

text \<open>The constructor: the retention is at least a minute, and the records are those of the file.\<close>

definition make_idem_env :: "(string \<Rightarrow> string) \<Rightarrow> int \<Rightarrow> idem_env" where
  "make_idem_env sha retention_seconds = \<lparr>ie_sha256 = sha, ie_retention_seconds = max retention_seconds 60\<rparr>"

definition open_store :: "(string \<times> idem_record) list \<Rightarrow> idem_store" where
  "open_store records =
     \<lparr>im_records = records, im_pending = [], im_futures = [], im_next_future = 0, im_calls = []\<rparr>"

definition json_compact :: json_style where
  "json_compact = \<lparr>item_sep = '','', key_sep = '':'', sort_keys = True, ensure_ascii = False\<rparr>"

definition request_hash :: "idem_env \<Rightarrow> pyval \<Rightarrow> string" where
  "request_hash E payload = ie_sha256 E (json_dumps json_compact payload)"

definition scope_key :: "idem_env \<Rightarrow> string \<Rightarrow> string \<Rightarrow> string" where
  "scope_key E caller_id idempotency_key = ie_sha256 E (caller_id @ [char_of (0::nat)] @ idempotency_key)"

definition record_expired :: "int \<Rightarrow> idem_record \<Rightarrow> bool" where
  "record_expired now r = ((case ir_expires_at r of Some t \<Rightarrow> t | None \<Rightarrow> now) \<le> now)"

definition prune :: "int \<Rightarrow> idem_store \<Rightarrow> idem_store" where
  "prune now st = st\<lparr>im_records := filter (\<lambda>(k, r). \<not> record_expired now r) (im_records st)\<rparr>"

definition any_expired :: "int \<Rightarrow> idem_store \<Rightarrow> bool" where
  "any_expired now st = list_ex (\<lambda>(k, r). record_expired now r) (im_records st)"

section \<open>The sections of \<open>execute\<close>\<close>

record exec_request =
  xr_caller_id :: pyval
  xr_idempotency_key :: pyval
  xr_payload :: pyval

definition set_call :: "nat \<Rightarrow> call_phase \<Rightarrow> idem_store \<Rightarrow> idem_store" where
  "set_call n ph st = st\<lparr>im_calls := AList.update n ph (im_calls st)\<rparr>"

definition set_future :: "nat \<Rightarrow> exec_outcome \<Rightarrow> idem_store \<Rightarrow> idem_store" where
  "set_future f oc st =
     (if map_of (im_futures st) f \<noteq> None then st else st\<lparr>im_futures := AList.update f oc (im_futures st)\<rparr>)"

text \<open>From the start of the call to its first await; \<open>written\<close> says whether pruning could save.\<close>

definition execute_begin :: "idem_env \<Rightarrow> int \<Rightarrow> bool \<Rightarrow> nat \<Rightarrow> exec_request \<Rightarrow> idem_store \<Rightarrow> idem_store" where
  "execute_begin E now written n q st0 =
     (let caller = norm_string (xr_caller_id q); key = norm_string (xr_idempotency_key q);
          sk = scope_key E caller key; fingerprint = request_hash E (xr_payload q); st = prune now st0
      in if caller = [] \<or> key = [] then set_call n Direct st0
         else if any_expired now st0 \<and> \<not> written then set_call n (Ended (Raised ''OSError'')) st
         else (case map_of (im_records st) sk of
             Some r \<Rightarrow>
               if ir_request_hash r \<noteq> fingerprint then set_call n (Ended (Raised ''idempotency_key_conflict'')) st
               else set_call n (Ended (Response (ir_response r))) st
           | None \<Rightarrow>
               (case map_of (im_pending st) sk of
                  Some (fp, f) \<Rightarrow>
                    if fp \<noteq> fingerprint then set_call n (Ended (Raised ''idempotency_key_conflict'')) st
                    else set_call n (Waiting f) st
                | None \<Rightarrow>
                    set_call n (Owner caller sk fingerprint (im_next_future st))
                      (st\<lparr>im_pending := AList.update sk (fingerprint, im_next_future st) (im_pending st),
                          im_next_future := Suc (im_next_future st)\<rparr>))))"

text \<open>The operation of the owner has raised.\<close>

definition execute_raised :: "nat \<Rightarrow> string \<Rightarrow> nat \<Rightarrow> string \<Rightarrow> idem_store \<Rightarrow> idem_store" where
  "execute_raised n sk f exc st =
     set_call n (Ended (Raised exc))
       (set_future f (Raised exc) (st\<lparr>im_pending := AList.delete sk (im_pending st)\<rparr>))"

text \<open>The operation of the owner has returned. When the file cannot be written, \<open>_persist\<close> raises
  after the record was made and before the future is resolved.\<close>

definition execute_returned ::
    "idem_env \<Rightarrow> int \<Rightarrow> bool \<Rightarrow> nat \<Rightarrow> string \<Rightarrow> string \<Rightarrow> string \<Rightarrow> nat \<Rightarrow> pyval \<Rightarrow> idem_store \<Rightarrow> idem_store" where
  "execute_returned E now written n caller sk fingerprint f response st =
     (let recorded = st\<lparr>im_records := AList.update sk
            \<lparr>ir_caller_id = caller, ir_request_hash = fingerprint, ir_response = response, ir_created_at = now,
             ir_expires_at = Some (now + seconds (ie_retention_seconds E))\<rparr> (im_records st)\<rparr>
      in if \<not> written then set_call n (Ended (Raised ''OSError'')) recorded
         else set_call n (Ended (Response response))
                (set_future f (Response response)
                  (recorded\<lparr>im_pending := AList.delete sk (im_pending recorded)\<rparr>)))"

text \<open>
  One step of some call, at an instant. \<open>await future\<close> is not shielded, so the cancellation of a
  waiting call cancels the future it waits for.
\<close>

inductive idem_step :: "idem_env \<Rightarrow> int \<Rightarrow> idem_store \<Rightarrow> idem_store \<Rightarrow> bool" for E now where
  i_begin: "map_of (im_calls st) n = None \<Longrightarrow> idem_step E now st (execute_begin E now w n q st)"
| i_direct: "map_of (im_calls st) n = Some Direct \<Longrightarrow> idem_step E now st (set_call n (Ended oc) st)"
| i_raised: "map_of (im_calls st) n = Some (Owner c sk fp f) \<Longrightarrow> idem_step E now st (execute_raised n sk f exc st)"
| i_returned: "map_of (im_calls st) n = Some (Owner c sk fp f) \<Longrightarrow>
    idem_step E now st (execute_returned E now w n c sk fp f r st)"
| i_wake: "map_of (im_calls st) n = Some (Waiting f) \<Longrightarrow> map_of (im_futures st) f = Some oc \<Longrightarrow>
    idem_step E now st (set_call n (Ended oc) st)"
| i_cancel: "map_of (im_calls st) n = Some (Waiting f) \<Longrightarrow>
    idem_step E now st (set_call n (Ended (Raised ''CancelledError'')) (set_future f (Raised ''CancelledError'') st))"

inductive idem_reachable :: "idem_env \<Rightarrow> idem_store \<Rightarrow> bool" for E where
  start: "distinct (map fst records) \<Longrightarrow> idem_reachable E (open_store records)"
| step: "idem_reachable E st \<Longrightarrow> idem_step E now st st' \<Longrightarrow> idem_reachable E st'"

definition idem_steps_until :: "idem_env \<Rightarrow> int \<Rightarrow> idem_store \<Rightarrow> idem_store \<Rightarrow> bool" where
  "idem_steps_until E b = (\<lambda>st st'. \<exists>now<b. idem_step E now st st')\<^sup>*\<^sup>*"

section \<open>One owner\<close>

definition owners_ok :: "idem_store \<Rightarrow> bool" where
  "owners_ok st =
     (\<forall>n c sk fp f. map_of (im_calls st) n = Some (Owner c sk fp f) \<longrightarrow>
        map_of (im_pending st) sk = Some (fp, f) \<and> map_of (im_records st) sk = None \<and> f < im_next_future st \<and>
        (\<forall>n' c' fp' f'. map_of (im_calls st) n' = Some (Owner c' sk fp' f') \<longrightarrow> n' = n))"

definition pending_ok :: "idem_store \<Rightarrow> bool" where
  "pending_ok st =
     (distinct (map fst (im_records st)) \<and> distinct (map fst (im_pending st)) \<and> 
      (\<forall>sk fp f. map_of (im_pending st) sk = Some (fp, f) \<longrightarrow> f < im_next_future st))"

definition idem_inv :: "idem_store \<Rightarrow> bool" where
  "idem_inv st = (owners_ok st \<and> pending_ok st)"

lemma set_call_fields [simp]:
  "im_records (set_call n ph st) = im_records st" "im_pending (set_call n ph st) = im_pending st"
  "im_futures (set_call n ph st) = im_futures st" "im_next_future (set_call n ph st) = im_next_future st"
  "map_of (im_calls (set_call n ph st)) x = (if x = n then Some ph else map_of (im_calls st) x)"
  by (simp_all add: set_call_def dict.get_put)

lemma set_future_fields [simp]:
  "im_records (set_future f oc st) = im_records st" "im_pending (set_future f oc st) = im_pending st"
  "im_calls (set_future f oc st) = im_calls st" "im_next_future (set_future f oc st) = im_next_future st"
  "map_of (im_futures (set_future f oc st)) x =
     (if x = f \<and> map_of (im_futures st) f = None then Some oc else map_of (im_futures st) x)"
  by (auto simp: set_future_def dict.get_put)

lemma prune_fields [simp]:
  "im_pending (prune now st) = im_pending st" "im_calls (prune now st) = im_calls st"
  "im_futures (prune now st) = im_futures st" "im_next_future (prune now st) = im_next_future st"
  by (simp_all add: prune_def)

lemma map_of_prune:
  "distinct (map fst (im_records st)) \<Longrightarrow>
   map_of (im_records (prune now st)) k =
     (case map_of (im_records st) k of Some r \<Rightarrow> if record_expired now r then None else Some r | None \<Rightarrow> None)"
  unfolding prune_def using map_of_filter_values [of "im_records st" "\<lambda>r. \<not> record_expired now r" k]
  by (simp split: option.split)

lemma prune_inv: "idem_inv st \<Longrightarrow> idem_inv (prune now st)"
proof -
  assume inv: "idem_inv st"
  then have d: "distinct (map fst (im_records st))" by (simp add: idem_inv_def pending_ok_def)
  then have "distinct (map fst (im_records (prune now st)))" by (simp add: prune_def distinct_map_filter)
  with inv show ?thesis by (auto simp: idem_inv_def owners_ok_def pending_ok_def map_of_prune [OF d])
qed

lemma set_call_inv: "idem_inv st \<Longrightarrow> (\<And>c sk fp f. ph \<noteq> Owner c sk fp f) \<Longrightarrow> idem_inv (set_call n ph st)"
  by (auto simp: idem_inv_def owners_ok_def pending_ok_def simp del: map_of_eq_Some_iff)

lemma set_future_inv: "idem_inv st \<Longrightarrow> idem_inv (set_future f oc st)"
  by (simp add: idem_inv_def owners_ok_def pending_ok_def)

lemma own_inv:
  assumes "idem_inv st" and "map_of (im_calls st) n = None" and "map_of (im_records st) sk = None"
    and "map_of (im_pending st) sk = None"
  shows "idem_inv (set_call n (Owner c sk fp (im_next_future st))
    (st\<lparr>im_pending := AList.update sk (fp, im_next_future st) (im_pending st), im_next_future := Suc (im_next_future st)\<rparr>))"
proof -
  have no: "map_of (im_calls st) m \<noteq> Some (Owner c' sk fp' f')" for m c' fp' f'
    using assms(1,4) by (auto simp: idem_inv_def owners_ok_def)
  with assms show ?thesis
    by (auto simp: idem_inv_def owners_ok_def pending_ok_def dict.get_put distinct_update less_SucI)
qed

lemma begin_cases:
  assumes "caller = norm_string (xr_caller_id q)" and "key = norm_string (xr_idempotency_key q)"
    and "sk = scope_key E caller key" and "fp = request_hash E (xr_payload q)"
  shows "(\<exists>ph s. execute_begin E now w n q st = set_call n ph s \<and> (s = st \<or> s = prune now st) \<and>
           (\<forall>c sk fp f. ph \<noteq> Owner c sk fp f)) \<or>
    (caller \<noteq> [] \<and> key \<noteq> [] \<and> map_of (im_records (prune now st)) sk = None \<and> map_of (im_pending st) sk = None \<and>
     execute_begin E now w n q st =
       set_call n (Owner caller sk fp (im_next_future st))
         ((prune now st)\<lparr>im_pending := AList.update sk (fp, im_next_future st) (im_pending st),
            im_next_future := Suc (im_next_future st)\<rparr>))"
proof -
  let ?p = "prune now st"
  define Q where "Q = (\<lambda>X. \<exists>ph s. X = set_call n ph s \<and> (s = st \<or> s = ?p) \<and> (\<forall>c sk fp f. ph \<noteq> Owner c sk fp f))"
  have q: "Q (set_call n Direct st)" "Q (set_call n (Ended oc) ?p)" "Q (set_call n (Waiting f) ?p)" for oc f
    unfolding Q_def by (blast intro: call_phase.distinct)+
  have e: "execute_begin E now w n q st =
     (if caller = [] \<or> key = [] then set_call n Direct st
      else if any_expired now st \<and> \<not> w then set_call n (Ended (Raised ''OSError'')) ?p
      else (case map_of (im_records ?p) sk of
          Some r \<Rightarrow>
            if ir_request_hash r \<noteq> fp then set_call n (Ended (Raised ''idempotency_key_conflict'')) ?p
            else set_call n (Ended (Response (ir_response r))) ?p
        | None \<Rightarrow>
            (case map_of (im_pending st) sk of
               Some (fp', f) \<Rightarrow>
                 if fp' \<noteq> fp then set_call n (Ended (Raised ''idempotency_key_conflict'')) ?p else set_call n (Waiting f) ?p
             | None \<Rightarrow>
                 set_call n (Owner caller sk fp (im_next_future st))
                   (?p\<lparr>im_pending := AList.update sk (fp, im_next_future st) (im_pending st),
                       im_next_future := Suc (im_next_future st)\<rparr>))))"
    unfolding execute_begin_def Let_def assms prune_fields by (rule refl)
  show ?thesis
  proof (cases "caller = [] \<or> key = [] \<or> any_expired now st \<and> \<not> w \<or> map_of (im_records ?p) sk \<noteq> None \<or>
      map_of (im_pending st) sk \<noteq> None")
    case True
    then have "Q (execute_begin E now w n q st)" unfolding e by (auto simp: q split: option.split)
    then show ?thesis unfolding Q_def by (rule disjI1)
  next
    case False
    then have "caller \<noteq> []" "key \<noteq> []" "\<not> (any_expired now st \<and> \<not> w)" "map_of (im_records ?p) sk = None"
      "map_of (im_pending st) sk = None" by blast+
    then show ?thesis unfolding e by (intro disjI2) (simp, blast)
  qed
qed

lemma begin_inv:
  assumes "idem_inv st" and "map_of (im_calls st) n = None"
  shows "idem_inv (execute_begin E now w n q st)"
  using begin_cases [OF refl refl refl refl, of E now w n q st]
proof (elim disjE exE conjE)
  fix ph s assume "execute_begin E now w n q st = set_call n ph s" "\<forall>c sk fp f. ph \<noteq> Owner c sk fp f"
    and "s = st"
  then show ?thesis using set_call_inv assms(1) by simp
next
  fix ph s assume "execute_begin E now w n q st = set_call n ph s" "\<forall>c sk fp f. ph \<noteq> Owner c sk fp f"
    and "s = prune now st"
  then show ?thesis using set_call_inv prune_inv [OF assms(1)] by simp
next
  let ?sk = "scope_key E (norm_string (xr_caller_id q)) (norm_string (xr_idempotency_key q))"
  assume "map_of (im_records (prune now st)) ?sk = None" "map_of (im_pending st) ?sk = None"
    and e: "execute_begin E now w n q st =
       set_call n (Owner (norm_string (xr_caller_id q)) ?sk (request_hash E (xr_payload q)) (im_next_future st))
         ((prune now st)\<lparr>im_pending := AList.update ?sk (request_hash E (xr_payload q), im_next_future st) (im_pending st),
            im_next_future := Suc (im_next_future st)\<rparr>)"
  then show ?thesis
    using own_inv [OF prune_inv [OF assms(1), of now], where n = n and sk = ?sk] assms(2) by (simp add: e)
qed

text \<open>An owner leaves: its entry of the pending calls goes, and it was the only owner of its scope.\<close>

lemma forget_pending_inv:
  assumes "idem_inv st" and "\<And>m c fp f. map_of (im_calls st) m \<noteq> Some (Owner c sk fp f)"
  shows "idem_inv (st\<lparr>im_pending := AList.delete sk (im_pending st)\<rparr>)"
proof -
  have "owners_ok (st\<lparr>im_pending := AList.delete sk (im_pending st)\<rparr>)"
    unfolding owners_ok_def
  proof (intro allI impI)
    fix n c k fp f
    assume "map_of (im_calls (st\<lparr>im_pending := AList.delete sk (im_pending st)\<rparr>)) n = Some (Owner c k fp f)"
    then have o: "map_of (im_calls st) n = Some (Owner c k fp f)" by simp
    then have "k \<noteq> sk" using assms(2) by auto
    with o assms(1) show "map_of (im_pending (st\<lparr>im_pending := AList.delete sk (im_pending st)\<rparr>)) k = Some (fp, f) \<and>
        map_of (im_records (st\<lparr>im_pending := AList.delete sk (im_pending st)\<rparr>)) k = None \<and>
        f < im_next_future (st\<lparr>im_pending := AList.delete sk (im_pending st)\<rparr>) \<and>
        (\<forall>n' c' fp' f'. map_of (im_calls (st\<lparr>im_pending := AList.delete sk (im_pending st)\<rparr>)) n' = Some (Owner c' k fp' f') \<longrightarrow> n' = n)"
      by (simp add: idem_inv_def owners_ok_def dict.get_del del: map_of_eq_Some_iff)
  qed
  moreover have "pending_ok (st\<lparr>im_pending := AList.delete sk (im_pending st)\<rparr>)"
    using assms(1) by (simp add: idem_inv_def pending_ok_def dict.get_del distinct_delete_keys del: map_of_eq_Some_iff)
  ultimately show ?thesis by (simp add: idem_inv_def)
qed

lemma owner_left:
  assumes "idem_inv st" and "map_of (im_calls st) n = Some (Owner c sk fp f)"
  shows "map_of (im_calls (set_call n (Ended oc) st)) m \<noteq> Some (Owner c' sk fp' f')"
  using assms by (auto simp: idem_inv_def owners_ok_def simp del: map_of_eq_Some_iff split: if_splits)

lemma raised_inv:
  assumes "idem_inv st" and "map_of (im_calls st) n = Some (Owner c sk fp f)"
  shows "idem_inv (execute_raised n sk f exc st)"
proof -
  let ?e = "set_call n (Ended (Raised exc)) st"
  have "execute_raised n sk f exc st =
      set_future f (Raised exc) (?e\<lparr>im_pending := AList.delete sk (im_pending ?e)\<rparr>)"
    by (simp add: execute_raised_def set_call_def set_future_def)
  moreover have "idem_inv (?e\<lparr>im_pending := AList.delete sk (im_pending ?e)\<rparr>)"
    using set_call_inv [OF assms(1)] owner_left [OF assms] by (intro forget_pending_inv) simp_all
  ultimately show ?thesis using set_future_inv by metis
qed

lemma record_inv:
  assumes "idem_inv st" and "map_of (im_calls st) n = Some (Owner c sk fp f)"
  shows "idem_inv (set_call n (Ended oc) (st\<lparr>im_records := AList.update sk r (im_records st)\<rparr>))"
  using assms by (auto simp: idem_inv_def owners_ok_def pending_ok_def dict.get_put distinct_update)

lemma returned_inv:
  assumes "idem_inv st" and "map_of (im_calls st) n = Some (Owner c sk fp f)"
  shows "idem_inv (execute_returned E now w n c sk fp f r st)"
proof -
  define rec where "rec = \<lparr>ir_caller_id = c, ir_request_hash = fp, ir_response = r, ir_created_at = now,
      ir_expires_at = Some (now + seconds (ie_retention_seconds E))\<rparr>"
  let ?e = "set_call n (Ended (Response r)) (st\<lparr>im_records := AList.update sk rec (im_records st)\<rparr>)"
  have e: "execute_returned E now w n c sk fp f r st =
      (if \<not> w then set_call n (Ended (Raised ''OSError'')) (st\<lparr>im_records := AList.update sk rec (im_records st)\<rparr>)
       else set_future f (Response r) (?e\<lparr>im_pending := AList.delete sk (im_pending ?e)\<rparr>))"
    by (simp add: execute_returned_def rec_def set_call_def set_future_def)
  have "map_of (im_calls ?e) m \<noteq> Some (Owner c' sk fp' f')" for m c' fp' f'
    using owner_left [OF assms, of "Response r" m c' fp' f'] by (simp add: set_call_def)
  then have "idem_inv (?e\<lparr>im_pending := AList.delete sk (im_pending ?e)\<rparr>)"
    by (intro forget_pending_inv record_inv [OF assms])
  then show ?thesis unfolding e using record_inv [OF assms] set_future_inv by simp
qed

lemma idem_step_inv: "idem_step E now st st' \<Longrightarrow> idem_inv st \<Longrightarrow> idem_inv st'"
  by (induction rule: idem_step.induct)
    (auto intro: begin_inv set_call_inv raised_inv returned_inv set_future_inv)

lemma idem_reachable_inv: "idem_reachable E st \<Longrightarrow> idem_inv st"
proof (induction rule: idem_reachable.induct)
  case (start records)
  then show ?case by (simp add: idem_inv_def owners_ok_def pending_ok_def open_store_def)
qed (rule idem_step_inv)

section \<open>Records are kept\<close>

lemma begin_records:
  "im_records (execute_begin E now w n q st) = im_records st \<or> im_records (execute_begin E now w n q st) = im_records (prune now st)"
  using begin_cases [OF refl refl refl refl, of E now w n q st] by auto

lemma idem_step_keeps_record:
  assumes "idem_step E now st st'" and "idem_inv st" and "map_of (im_records st) sk = Some r"
    and "ir_expires_at r = Some e" and "now < e"
  shows "map_of (im_records st') sk = Some r"
  using assms
proof (induction rule: idem_step.induct)
  case (i_begin st n w q)
  then have "map_of (im_records (prune now st)) sk = Some r"
    by (simp add: map_of_prune idem_inv_def pending_ok_def record_expired_def)
  with i_begin begin_records [of E now w n q st] show ?case by metis
next
  case (i_returned st n c sk' fp f w r')
  then have "sk' \<noteq> sk" by (auto simp: idem_inv_def owners_ok_def)
  with i_returned show ?case by (simp add: execute_returned_def Let_def dict.get_put)
qed (simp_all add: execute_raised_def)

lemma idem_steps_keep_record:
  assumes "idem_steps_until E e st st'" and "idem_inv st" and "map_of (im_records st) sk = Some r"
    and "ir_expires_at r = Some e"
  shows "idem_inv st' \<and> map_of (im_records st') sk = Some r"
  using assms(1) unfolding idem_steps_until_def
proof (induction rule: rtranclp_induct)
  case base
  with assms show ?case by simp
next
  case (step a b)
  then obtain now where now: "now < e" "idem_step E now a b" and a: "idem_inv a" "map_of (im_records a) sk = Some r"
    by blast
  from idem_step_keeps_record [OF now(2) a assms(4) now(1)] idem_step_inv [OF now(2) a(1)] show ?case by blast
qed

section \<open>Futures\<close>

lemma idem_step_future:
  assumes "idem_step E now st st'" and "map_of (im_futures st) f = Some oc"
  shows "map_of (im_futures st') f = Some oc"
  using assms
proof (induction rule: idem_step.induct)
  case (i_begin st n w q)
  then show ?case using begin_cases [OF refl refl refl refl, of E now w n q st] by auto
qed (auto simp: execute_raised_def execute_returned_def Let_def)

text \<open>A future that nobody will resolve: it is not resolved, and no owner is left for it.\<close>

definition orphaned :: "nat \<Rightarrow> idem_store \<Rightarrow> bool" where
  "orphaned f st =
     (f < im_next_future st \<and> (\<forall>n c sk fp. map_of (im_calls st) n \<noteq> Some (Owner c sk fp f)) \<and>
      (\<forall>oc. map_of (im_futures st) f = Some oc \<longrightarrow> oc = Raised ''CancelledError''))"

lemma idem_step_orphaned:
  assumes "idem_step E now st st'" and "orphaned f st"
  shows "orphaned f st'"
  using assms
proof (induction rule: idem_step.induct)
  case (i_begin st n w q)
  then show ?case
    using begin_cases [OF refl refl refl refl, of E now w n q st] by (auto simp: orphaned_def split: if_splits)
next
  case (i_raised st n c sk fp f' exc)
  then have "f' \<noteq> f" by (auto simp: orphaned_def)
  with i_raised show ?case by (auto simp: orphaned_def execute_raised_def)
next
  case (i_returned st n c sk fp f' w r)
  then have "f' \<noteq> f" by (auto simp: orphaned_def)
  with i_returned show ?case by (auto simp: orphaned_def execute_returned_def Let_def)
qed (auto simp: orphaned_def)

lemma idem_steps_orphaned:
  assumes "idem_steps_until E b st st'" and "orphaned f st"
  shows "orphaned f st'"
  using assms unfolding idem_steps_until_def
  by (induction rule: rtranclp_induct) (auto intro: idem_step_orphaned)

lemma idem_steps_future:
  assumes "idem_steps_until E b st st'" and "map_of (im_futures st) f = Some oc"
  shows "map_of (im_futures st') f = Some oc"
  using assms unfolding idem_steps_until_def
  by (induction rule: rtranclp_induct) (auto intro: idem_step_future)

lemma idem_step_waiting:
  assumes "idem_step E now st st'" and "map_of (im_calls st) n = Some (Waiting f)"
  shows "map_of (im_calls st') n = Some (Waiting f) \<or>
    (\<exists>oc. map_of (im_futures st) f = Some oc \<and> map_of (im_calls st') n = Some (Ended oc)) \<or>
    map_of (im_calls st') n = Some (Ended (Raised ''CancelledError''))"
  using assms
proof (induction rule: idem_step.induct)
  case (i_begin st m w q)
  then show ?case using begin_cases [OF refl refl refl refl, of E now w m q st] by (auto split: if_splits)
qed (auto simp: execute_raised_def execute_returned_def Let_def)

lemma idem_step_ended:
  assumes "idem_step E now st st'" and "map_of (im_calls st) n = Some (Ended oc)"
  shows "map_of (im_calls st') n = Some (Ended oc)"
  using assms
proof (induction rule: idem_step.induct)
  case (i_begin st m w q)
  then show ?case using begin_cases [OF refl refl refl refl, of E now w m q st] by (auto split: if_splits)
qed (auto simp: execute_raised_def execute_returned_def Let_def)

text \<open>A call that waits for a future whose only possible outcome is a cancellation.\<close>

lemma doomed_waiter:
  assumes "idem_steps_until E b st st'" and "orphaned f st" and "map_of (im_calls st) n = Some (Waiting f)"
  shows "map_of (im_calls st') n = Some (Waiting f) \<or> map_of (im_calls st') n = Some (Ended (Raised ''CancelledError''))"
  using assms(1) unfolding idem_steps_until_def
proof (induction rule: rtranclp_induct)
  case base
  with assms(3) show ?case by simp
next
  case (step a c)
  have "orphaned f a" using step.hyps(1) assms(2) idem_steps_orphaned unfolding idem_steps_until_def by blast
  then have only: "\<forall>oc. map_of (im_futures a) f = Some oc \<longrightarrow> oc = Raised ''CancelledError''" by (simp add: orphaned_def)
  from step obtain now where now: "idem_step E now a c" by blast
  from step.IH show ?case
  proof
    assume "map_of (im_calls a) n = Some (Waiting f)"
    from idem_step_waiting [OF now this] only show ?thesis by blast
  qed (use idem_step_ended [OF now] in blast)
qed

section \<open>Every owner has its own future\<close>

definition futures_ok :: "idem_store \<Rightarrow> bool" where
  "futures_ok st =
     (\<forall>n c sk fp f. map_of (im_calls st) n = Some (Owner c sk fp f) \<longrightarrow>
        f < im_next_future st \<and> (\<forall>n' c' sk' fp'. map_of (im_calls st) n' = Some (Owner c' sk' fp' f) \<longrightarrow> n' = n))"

lemma futures_ok_fewer:
  assumes "futures_ok st" and "im_next_future st' = im_next_future st"
    and "\<And>n c sk fp f. map_of (im_calls st') n = Some (Owner c sk fp f) \<Longrightarrow> map_of (im_calls st) n = Some (Owner c sk fp f)"
  shows "futures_ok st'"
  using assms unfolding futures_ok_def by metis

lemma futures_ok_new:
  assumes "futures_ok st" and "map_of (im_calls st) n = None" and "im_next_future st' = Suc (im_next_future st)"
    and "\<And>x. map_of (im_calls st') x = (if x = n then Some (Owner c sk fp (im_next_future st)) else map_of (im_calls st) x)"
  shows "futures_ok st'"
proof -
  have "map_of (im_calls st) m \<noteq> Some (Owner c' sk' fp' (im_next_future st))" for m c' sk' fp'
    using assms(1) unfolding futures_ok_def by (metis less_irrefl)
  with assms show ?thesis by (auto simp: futures_ok_def less_SucI)
qed

lemma begin_futures:
  assumes "futures_ok st" and "map_of (im_calls st) n = None"
  shows "futures_ok (execute_begin E now w n q st)"
  using begin_cases [OF refl refl refl refl, of E now w n q st]
proof (elim disjE exE)
  fix ph s assume "execute_begin E now w n q st = set_call n ph s \<and> (s = st \<or> s = prune now st) \<and>
    (\<forall>c sk fp f. ph \<noteq> Owner c sk fp f)"
  then show ?thesis by (intro futures_ok_fewer [OF assms(1)]) (auto split: if_splits)
qed (elim conjE, rule futures_ok_new [OF assms, where c = "norm_string (xr_caller_id q)" and fp = "request_hash E (xr_payload q)"
      and sk = "scope_key E (norm_string (xr_caller_id q)) (norm_string (xr_idempotency_key q))"], simp_all)

lemma idem_step_futures_ok: "idem_step E now st st' \<Longrightarrow> futures_ok st \<Longrightarrow> futures_ok st'"
proof (induction rule: idem_step.induct)
  case (i_begin st n w q)
  then show ?case using begin_futures by blast
qed (erule futures_ok_fewer; auto simp: execute_raised_def execute_returned_def Let_def split: if_splits)+

lemma idem_reachable_futures: "idem_reachable E st \<Longrightarrow> futures_ok st"
proof (induction rule: idem_reachable.induct)
  case (start records)
  then show ?case by (simp add: futures_ok_def open_store_def)
qed (rule idem_step_futures_ok)

section \<open>A sample run\<close>

definition sample_idem_env :: idem_env where
  "sample_idem_env = make_idem_env (\<lambda>s. s) 60"

definition sample_request :: exec_request where
  "sample_request = \<lparr>xr_caller_id = PStr ''c'', xr_idempotency_key = PStr ''k'', xr_payload = PDict [(''x'', PInt 1)]\<rparr>"

definition sample_owned :: idem_store where
  "sample_owned = execute_begin sample_idem_env 0 True 0 sample_request (open_store [])"

definition sample_joined :: idem_store where
  "sample_joined = execute_begin sample_idem_env 0 True 1 sample_request sample_owned"

definition sample_joined_twice :: idem_store where
  "sample_joined_twice = execute_begin sample_idem_env 0 True 2 sample_request sample_joined"

definition sample_scope :: string where
  "sample_scope = scope_key sample_idem_env ''c'' ''k''"

definition sample_fingerprint :: string where
  "sample_fingerprint = request_hash sample_idem_env (PDict [(''x'', PInt 1)])"

lemma sample_owned_reachable: "idem_reachable sample_idem_env sample_owned"
proof (rule idem_reachable.step [OF idem_reachable.start [of "[]"]])
  show "idem_step sample_idem_env 0 (open_store []) sample_owned"
    unfolding sample_owned_def by (rule idem_step.i_begin) code_simp
qed simp

lemma sample_joined_reachable: "idem_reachable sample_idem_env sample_joined"
proof (rule idem_reachable.step [OF sample_owned_reachable])
  show "idem_step sample_idem_env 0 sample_owned sample_joined"
    unfolding sample_joined_def by (rule idem_step.i_begin) code_simp
qed

lemma sample_joined_twice_reachable: "idem_reachable sample_idem_env sample_joined_twice"
proof (rule idem_reachable.step [OF sample_joined_reachable])
  show "idem_step sample_idem_env 0 sample_joined sample_joined_twice"
    unfolding sample_joined_twice_def by (rule idem_step.i_begin) code_simp
qed

lemma sample_owner: "map_of (im_calls sample_owned) 0 = Some (Owner ''c'' sample_scope sample_fingerprint 0)"
  by code_simp

section \<open>Properties\<close>

text \<open>
  C6. The operation of a caller's key runs at most once at a time: two calls that run it for the
  same scope are the same call, and while it runs there is no stored response for the scope and
  the scope is registered with the hash of the request.
\<close>

theorem one_execution_per_scope:
  assumes "idem_reachable E st" and "map_of (im_calls st) n = Some (Owner c sk fp f)"
    and "map_of (im_calls st) n' = Some (Owner c' sk fp' f')"
  shows "n' = n \<and> map_of (im_records st) sk = None \<and> map_of (im_pending st) sk = Some (fp, f)"
  using idem_reachable_inv [OF assms(1)] assms(2,3) unfolding idem_inv_def owners_ok_def by blast

theorem one_execution_per_scope_witness:
  "map_of (im_records sample_owned) sample_scope = None \<and>
   map_of (im_pending sample_owned) sample_scope = Some (sample_fingerprint, 0)"
  using one_execution_per_scope [OF sample_owned_reachable sample_owner sample_owner] by simp



text \<open>
  When the response cannot be written to the file, the calls that wait for it never get it:
  from then on they wait, or are cancelled. The record is made, but the future stays unresolved.
\<close>

theorem unwritten_response_strands_waiters:
  assumes "idem_reachable E st" and "map_of (im_calls st) n = Some (Owner c sk fp f)"
    and "map_of (im_calls st) m = Some (Waiting f)" and "map_of (im_futures st) f = None"
    and "idem_steps_until E b (execute_returned E now False n c sk fp f r st) st'"
  shows "map_of (im_calls st') m = Some (Waiting f) \<or> map_of (im_calls st') m = Some (Ended (Raised ''CancelledError''))"
proof -
  let ?st = "execute_returned E now False n c sk fp f r st"
  have "f < im_next_future st" "\<forall>x c' sk' fp'. map_of (im_calls st) x = Some (Owner c' sk' fp' f) \<longrightarrow> x = n"
    using idem_reachable_futures [OF assms(1)] assms(2) unfolding futures_ok_def by blast+
  then have "orphaned f ?st"
    using assms(4) by (auto simp: orphaned_def execute_returned_def Let_def split: if_splits)
  moreover have "map_of (im_calls ?st) m = Some (Waiting f)"
    using assms(2,3) by (auto simp: execute_returned_def Let_def)
  ultimately show ?thesis using doomed_waiter [OF assms(5)] by blast
qed

theorem unwritten_response_strands_waiters_witness:
  "map_of (im_records (execute_returned sample_idem_env 0 False 0 ''c'' sample_scope sample_fingerprint 0 (PInt 7) sample_joined))
     sample_scope \<noteq> None \<and>
   map_of (im_calls (execute_returned sample_idem_env 0 False 0 ''c'' sample_scope sample_fingerprint 0 (PInt 7) sample_joined)) 1
     \<in> {Some (Waiting 0), Some (Ended (Raised ''CancelledError''))}"
proof -
  let ?st = "execute_returned sample_idem_env 0 False 0 ''c'' sample_scope sample_fingerprint 0 (PInt 7) sample_joined"
  have c: "map_of (im_calls sample_joined) 0 = Some (Owner ''c'' sample_scope sample_fingerprint 0)"
    "map_of (im_calls sample_joined) 1 = Some (Waiting 0)" "map_of (im_futures sample_joined) 0 = None" by code_simp+
  have "idem_steps_until sample_idem_env 0 ?st ?st" by (simp add: idem_steps_until_def)
  from unwritten_response_strands_waiters [OF sample_joined_reachable c this]
  have "map_of (im_calls ?st) 1 \<in> {Some (Waiting 0), Some (Ended (Raised ''CancelledError''))}" by blast
  moreover have "map_of (im_records ?st) sample_scope \<noteq> None" by code_simp
  ultimately show ?thesis by (rule conjI [rotated])
qed

text \<open>
  A waiting call that is cancelled takes the others with it: the calls that wait for the same
  operation and were not cancelled end with the cancellation too, even when the operation
  returns a response afterwards.
\<close>

theorem cancelled_waiter_cancels_others:
  assumes "idem_reachable E st" and "map_of (im_calls st) n = Some (Waiting f)" and "map_of (im_futures st) f = None"
    and "map_of (im_calls st) m = Some (Waiting f)" and "m \<noteq> n"
    and "idem_steps_until E b
      (set_call n (Ended (Raised ''CancelledError'')) (set_future f (Raised ''CancelledError'') st)) st'"
  shows "map_of (im_calls st') m = Some (Waiting f) \<or> map_of (im_calls st') m = Some (Ended (Raised ''CancelledError''))"
  using assms(6) unfolding idem_steps_until_def
proof (induction rule: rtranclp_induct)
  case base
  with assms(4,5) show ?case by simp
next
  case (step a d)
  have "map_of (im_futures (set_call n (Ended (Raised ''CancelledError'')) (set_future f (Raised ''CancelledError'') st))) f
      = Some (Raised ''CancelledError'')"
    using assms(3) by simp
  from idem_steps_future [OF step.hyps(1) [folded idem_steps_until_def] this]
  have a: "map_of (im_futures a) f = Some (Raised ''CancelledError'')" .
  from step obtain now where now: "idem_step E now a d" by blast
  from step.IH show ?case
  proof
    assume "map_of (im_calls a) m = Some (Waiting f)"
    from idem_step_waiting [OF now this] a show ?thesis by auto
  qed (use idem_step_ended [OF now] in blast)
qed

theorem cancelled_waiter_cancels_others_witness:
  "\<exists>st st'. idem_step sample_idem_env 0 sample_joined_twice st \<and> idem_step sample_idem_env 0 st st' \<and>
     map_of (im_calls st') 0 = Some (Ended (Response (PInt 7))) \<and>
     map_of (im_calls st') 2 \<in> {Some (Waiting 0), Some (Ended (Raised ''CancelledError''))}"
proof -
  let ?c = "set_call 1 (Ended (Raised ''CancelledError'')) (set_future 0 (Raised ''CancelledError'') sample_joined_twice)"
  let ?r = "execute_returned sample_idem_env 0 True 0 ''c'' sample_scope sample_fingerprint 0 (PInt 7) ?c"
  have c: "map_of (im_calls sample_joined_twice) 1 = Some (Waiting 0)" "map_of (im_futures sample_joined_twice) 0 = None"
    "map_of (im_calls sample_joined_twice) 2 = Some (Waiting 0)" by code_simp+
  have two: "(2::nat) \<noteq> 1" by simp
  have s1: "idem_step sample_idem_env 0 sample_joined_twice ?c" using c(1) by (rule idem_step.i_cancel)
  have s2: "idem_step sample_idem_env 0 ?c ?r" by (rule idem_step.i_returned) code_simp
  then have "idem_steps_until sample_idem_env 1 ?c ?r"
    unfolding idem_steps_until_def by (intro r_into_rtranclp) (use zero_less_one in blast)
  from cancelled_waiter_cancels_others [OF sample_joined_twice_reachable c two this]
  have "map_of (im_calls ?r) 2 \<in> {Some (Waiting 0), Some (Ended (Raised ''CancelledError''))}" by blast
  moreover have "map_of (im_calls ?r) 0 = Some (Ended (Response (PInt 7)))" by code_simp
  ultimately show ?thesis using s1 s2 by (intro exI conjI) assumption+
qed

end
