(* ===== verification/Task_Families.thy ===== *)
theory Task_Families
  imports Prelude
begin

text \<open>
  The task families a node knows (\<open>capabilities/task_families.py\<close>), the families it may declare
  (\<open>config/task_capability_selection_config.py\<close>) and the check that a requested family is one
  the node has declared and the core has accepted (\<open>execution/task_families.py\<close>).

  A set of families is a list of which only emptiness and membership are used.
\<close>

section \<open>Families and aliases\<close>

definition LEGACY_TASK_FAMILY_ALIASES :: "(string \<times> string) list" where
  "LEGACY_TASK_FAMILY_ALIASES = [(''task.classification.text'', ''task.classification'')]"

definition CANONICAL_TASK_FAMILIES :: "string list" where
  "CANONICAL_TASK_FAMILIES =
     [''task.classification'', ''task.classification.email'', ''task.classification.image'',
      ''task.summarization.text'', ''task.summarization.email'', ''task.summarization.event'',
      ''task.generation.text'', ''task.generation.image'', ''task.chat'', ''task.summarization'',
      ''task.reasoning'', ''task.information_extraction'', ''task.structured_extraction'',
      ''task.translation'', ''task.sentiment_analysis'', ''task.task_planning'',
      ''task.workflow_reasoning'', ''task.tool_usage'', ''task.automation_command'',
      ''task.environment_control'', ''task.coding'', ''task.code_generation'',
      ''task.code_review'', ''task.code_debugging'', ''task.code_explanation'',
      ''task.vision_analysis'', ''task.object_detection'', ''task.image_description'',
      ''task.document_ocr'', ''task.image_generation'', ''task.image_editing'',
      ''task.image_variation'', ''task.speech_to_text'', ''task.text_to_speech'',
      ''task.voice_conversation'', ''task.audio_analysis'', ''task.realtime_voice'',
      ''task.streaming_response'', ''task.low_latency_interaction'',
      ''task.embedding_generation'', ''task.semantic_search'', ''task.document_indexing'',
      ''task.knowledge_retrieval'', ''task.moderation'', ''task.policy_check'']"

definition LEGACY_DECLARATION_TASK_FAMILY_ALIASES :: "(string \<times> string) list" where
  "LEGACY_DECLARATION_TASK_FAMILY_ALIASES =
     [(''task.classification.email'', ''task.classification''),
      (''task.classification.image'', ''task.classification''),
      (''task.summarization.text'', ''task.summarization''),
      (''task.summarization.email'', ''task.summarization''),
      (''task.summarization.event'', ''task.summarization''),
      (''task.generation.text'', ''task.chat''),
      (''task.generation.image'', ''task.image_generation'')]"

definition DECLARABLE_TASK_FAMILIES :: "string list" where
  "DECLARABLE_TASK_FAMILIES =
     filter (\<lambda>f. f \<notin> set (map fst LEGACY_DECLARATION_TASK_FAMILY_ALIASES)) CANONICAL_TASK_FAMILIES"

text \<open>\<open>d.get(k, k)\<close> on a dict of aliases.\<close>

definition alias_of :: "(string \<times> string) list \<Rightarrow> string \<Rightarrow> string" where
  "alias_of d k = (case map_of d k of None \<Rightarrow> k | Some v \<Rightarrow> v)"

definition canonicalize_task_family :: "pyval \<Rightarrow> string option" where
  "canonicalize_task_family v =
     (let normalized = py_lower (norm_string v)
      in if normalized = [] then None else Some (alias_of LEGACY_TASK_FAMILY_ALIASES normalized))"

definition is_legacy_task_family_alias :: "pyval \<Rightarrow> bool" where
  "is_legacy_task_family_alias v = (map_of LEGACY_TASK_FAMILY_ALIASES (py_lower (norm_string v)) \<noteq> None)"

definition family_list :: "pyval \<Rightarrow> string list" where
  "family_list v =
     sort (remdups (List.map_filter (\<lambda>i. canonicalize_task_family (PStr (str_or i []))) (as_list v)))"

section \<open>The shape of a family id\<close>

text \<open>The pattern \<open>^[a-z0-9][a-z0-9._/-]{1,127}$\<close>; the end of a Python pattern also matches before
  a final newline.\<close>

definition family_id_head :: "char \<Rightarrow> bool" where
  "family_id_head c = (let n = (of_char c :: nat) in is_digit c \<or> (97 \<le> n \<and> n \<le> 122))"

definition family_id_tail :: "char \<Rightarrow> bool" where
  "family_id_tail c = (family_id_head c \<or> c \<in> {CHR ''.'', CHR ''_'', CHR ''/'', CHR ''-''})"

definition family_id_text :: "string \<Rightarrow> bool" where
  "family_id_text s =
     (case s of
        [] \<Rightarrow> False
      | c # cs \<Rightarrow> family_id_head c \<and> list_all family_id_tail cs \<and> 1 \<le> length cs \<and> length cs \<le> 127)"

definition family_id_matches :: "string \<Rightarrow> bool" where
  "family_id_matches s =
     (family_id_text s \<or> (s \<noteq> [] \<and> last s = char_of (10::nat) \<and> family_id_text (butlast s)))"

text \<open>The first problem of a list of families, or none.\<close>

definition validate_task_family_capabilities :: "pyval \<Rightarrow> string option" where
  "validate_task_family_capabilities v =
     (case v of
        PList _ \<Rightarrow>
          let normalized = family_list v
          in (case filter (\<lambda>f. \<not> family_id_matches f) normalized of
                f # _ \<Rightarrow> Some (''invalid_task_family:'' @ f)
              | [] \<Rightarrow>
                  (case filter (\<lambda>f. f \<notin> set CANONICAL_TASK_FAMILIES) normalized of
                     f # _ \<Rightarrow> Some (''unsupported_task_family:'' @ f)
                   | [] \<Rightarrow> None))
      | _ \<Rightarrow> Some ''invalid_task_families'')"

definition create_declared_task_family_capabilities :: "pyval \<Rightarrow> string list result" where
  "create_declared_task_family_capabilities v =
     (let declared = (case v of PList _ \<Rightarrow> family_list v | _ \<Rightarrow> CANONICAL_TASK_FAMILIES)
      in case validate_task_family_capabilities (PList (map PStr declared)) of
           Some error \<Rightarrow> Inl (ValueError (''invalid task family declaration: '' @ error))
         | None \<Rightarrow> Inr declared)"

section \<open>The selection a node declares\<close>

text \<open>Strings that are not blank, canonical and mapped to the family they are declared as.\<close>

definition selected_family :: "pyval \<Rightarrow> string option" where
  "selected_family v =
     (case v of
        PStr s \<Rightarrow>
          if py_strip s = [] then None
          else map_option (alias_of LEGACY_DECLARATION_TASK_FAMILY_ALIASES)
                 (canonicalize_task_family (PStr (py_strip s)))
      | _ \<Rightarrow> None)"

definition selection_list :: "pyval \<Rightarrow> string list" where
  "selection_list v = sort (remdups (List.map_filter selected_family (as_list v)))"

definition default_task_capability_selection :: "string list" where
  "default_task_capability_selection =
     [''task.classification'', ''task.summarization'', ''task.chat'', ''task.image_generation'']"

definition validate_task_capability_selection_config :: "pyval \<Rightarrow> string option" where
  "validate_task_capability_selection_config v =
     (case v of
        PDict d \<Rightarrow>
          if norm_string (dget d ''schema_version'') \<noteq> ''1.0'' then Some ''invalid_schema_version''
          else
            let selected = selection_list (dget d ''selected_task_families'')
            in if selected = [] then Some ''missing_selected_task_families''
               else (case filter (\<lambda>f. f \<notin> set DECLARABLE_TASK_FAMILIES) selected of
                       f # _ \<Rightarrow> Some (''unsupported_task_family:'' @ f)
                     | [] \<Rightarrow> None)
      | _ \<Rightarrow> Some ''invalid_task_capability_selection_config_object'')"

definition create_task_capability_selection_config :: "pyval \<Rightarrow> pydict result" where
  "create_task_capability_selection_config input_data =
     (let chosen = selection_list (dget (as_dict input_data) ''selected_task_families'');
          selected = (if chosen = [] then default_task_capability_selection else chosen);
          config = [(''schema_version'', PStr ''1.0''), (''selected_task_families'', PList (map PStr selected))]
      in case validate_task_capability_selection_config (PDict config) of
           Some error \<Rightarrow> Inl (ValueError (''invalid task capability selection config: '' @ error))
         | None \<Rightarrow> Inr config)"

section \<open>The check of a requested family\<close>

record TaskFamilyValidationResult =
  tf_allowed :: bool
  tf_reason :: string
  tf_requested :: string
  tf_canonical :: "string option"

definition canonicalize_phase3_task_family :: "pyval \<Rightarrow> string option" where
  "canonicalize_phase3_task_family v =
     (case canonicalize_task_family v of
        None \<Rightarrow> None
      | Some normalized \<Rightarrow>
          if validate_task_family_capabilities (PList [PStr normalized]) \<noteq> None then None
          else if normalized \<notin> set CANONICAL_TASK_FAMILIES then None
          else Some normalized)"

definition capability_families :: "pyval \<Rightarrow> string list" where
  "capability_families v =
     List.map_filter (\<lambda>i. canonicalize_phase3_task_family (PStr (str_or i []))) (as_list v)"

definition accepted_profile_families :: "pyval \<Rightarrow> string list" where
  "accepted_profile_families profile =
     concat (map (\<lambda>key. capability_families (dget (as_dict profile) key))
       [''declared_task_families'', ''task_families'', ''resolved_tasks'', ''enabled_task_capabilities''])"

definition declaration_family :: "pyval \<Rightarrow> string option" where
  "declaration_family v =
     map_option (alias_of LEGACY_DECLARATION_TASK_FAMILY_ALIASES)
       (canonicalize_phase3_task_family (PStr (str_or v [])))"

definition validate_execution_task_family ::
    "pyval \<Rightarrow> pyval \<Rightarrow> pyval \<Rightarrow> TaskFamilyValidationResult" where
  "validate_execution_task_family task_family declared_task_families accepted_capability_profile =
     (let requested = norm_string task_family
      in case canonicalize_phase3_task_family (PStr requested) of
           None \<Rightarrow> \<lparr>tf_allowed = False, tf_reason = ''unsupported_task_family'',
                    tf_requested = requested, tf_canonical = None\<rparr>
         | Some canonical \<Rightarrow>
             let declared = capability_families (py_or declared_task_families (PList []));
                 accepted = accepted_profile_families accepted_capability_profile;
                 family = declaration_family (PStr canonical)
             in if declared \<noteq> [] \<and> family \<notin> Some ` set declared
                then \<lparr>tf_allowed = False, tf_reason = ''task_family_not_declared'',
                      tf_requested = requested, tf_canonical = Some canonical\<rparr>
                else if accepted \<noteq> [] \<and> family \<notin> Some ` set accepted
                then \<lparr>tf_allowed = False, tf_reason = ''task_family_not_accepted'',
                      tf_requested = requested, tf_canonical = Some canonical\<rparr>
                else \<lparr>tf_allowed = True, tf_reason = ''task_family_allowed'',
                      tf_requested = requested, tf_canonical = Some canonical\<rparr>)"

section \<open>Lemmas\<close>

text \<open>The characters of family ids are not changed by \<open>lower\<close> and not removed by \<open>strip\<close>.\<close>

lemma family_id_tail_code:
  "family_id_tail c \<longleftrightarrow> (of_char c :: nat) \<in> {45, 46, 47, 95} \<union> {48..57} \<union> {97..122}"
proof -
  have "c = CHR ''.'' \<longleftrightarrow> (of_char c :: nat) = 46" "c = CHR ''_'' \<longleftrightarrow> (of_char c :: nat) = 95"
    "c = CHR ''/'' \<longleftrightarrow> (of_char c :: nat) = 47" "c = CHR ''-'' \<longleftrightarrow> (of_char c :: nat) = 45"
    by (simp_all flip: of_char_eq_iff [where 'a = nat])
  then show ?thesis by (auto simp: family_id_tail_def family_id_head_def is_digit_def Let_def)
qed

lemma family_id_tail_plain:
  assumes "family_id_tail c" shows "py_lower_char c = c" and "\<not> py_isspace c"
  using assms by (auto simp: family_id_tail_code py_lower_char_def py_isspace_def Let_def)

lemma family_id_text_plain:
  assumes "family_id_text f" shows "py_lower f = f" and "py_strip f = f" and "f \<noteq> []"
proof -
  have all: "\<forall>c\<in>set f. family_id_tail c" and ne: "f \<noteq> []"
    using assms by (auto simp: family_id_text_def family_id_tail_def list_all_iff split: list.splits)
  show "py_lower f = f" using all by (simp add: py_lower_def map_idI family_id_tail_plain)
  show "py_strip f = f" using all ne by (intro py_strip_fixed) (simp_all add: family_id_tail_plain)
  show "f \<noteq> []" by (rule ne)
qed

lemma canonical_families_ids:
  "list_all (\<lambda>f. family_id_text f \<and> f \<noteq> ''task.classification.text'') CANONICAL_TASK_FAMILIES"
  by (simp add: CANONICAL_TASK_FAMILIES_def family_id_text_def family_id_tail_code family_id_head_def is_digit_def)

lemma canonicalize_id:
  assumes "family_id_text f" and "f \<noteq> ''task.classification.text''"
  shows "canonicalize_task_family (PStr f) = Some f"
  using assms(2) family_id_text_plain [OF assms(1)]
  by (simp add: canonicalize_task_family_def alias_of_def LEGACY_TASK_FAMILY_ALIASES_def)

lemma canonical_families_canonical:
  "list_all (\<lambda>f. canonicalize_task_family (PStr f) = Some f \<and> family_id_matches f) CANONICAL_TASK_FAMILIES"
  using canonical_families_ids by (auto simp: list_all_iff family_id_matches_def intro: canonicalize_id)

lemma declaration_targets_declarable:
  "list_all (\<lambda>kv. snd kv \<in> set DECLARABLE_TASK_FAMILIES) LEGACY_DECLARATION_TASK_FAMILY_ALIASES"
  by (simp add: DECLARABLE_TASK_FAMILIES_def LEGACY_DECLARATION_TASK_FAMILY_ALIASES_def CANONICAL_TASK_FAMILIES_def)

lemma declarable_fixed:
  assumes "f \<in> set DECLARABLE_TASK_FAMILIES"
  shows "alias_of LEGACY_DECLARATION_TASK_FAMILY_ALIASES f = f" and "canonicalize_task_family (PStr f) = Some f"
    and "selected_family (PStr f) = Some f"
proof -
  have f: "family_id_text f" "canonicalize_task_family (PStr f) = Some f"
    using assms canonical_families_ids canonical_families_canonical
    by (auto simp: DECLARABLE_TASK_FAMILIES_def list_all_iff)
  have "map_of LEGACY_DECLARATION_TASK_FAMILY_ALIASES f = None"
    using assms by (simp add: DECLARABLE_TASK_FAMILIES_def map_of_eq_None_iff)
  then show a: "alias_of LEGACY_DECLARATION_TASK_FAMILY_ALIASES f = f" by (simp add: alias_of_def)
  show "canonicalize_task_family (PStr f) = Some f" by (rule f(2))
  then show "selected_family (PStr f) = Some f"
    using a family_id_text_plain [OF f(1)] by (simp add: selected_family_def)
qed

lemma declarable_canonical: "set DECLARABLE_TASK_FAMILIES \<subseteq> set CANONICAL_TASK_FAMILIES"
  by (auto simp: DECLARABLE_TASK_FAMILIES_def)

lemma canonicalize_stripped: "canonicalize_task_family (PStr (norm_string v)) = canonicalize_task_family v"
  by (simp add: canonicalize_task_family_def norm_string_stripped)

lemma canonicalize_str_or: "canonicalize_task_family (PStr (str_or v [])) = canonicalize_task_family v"
  by (simp add: canonicalize_task_family_def norm_string_def [of v])

lemma canonicalize_idem:
  assumes "canonicalize_task_family v = Some c"
  shows "canonicalize_task_family (PStr c) = Some c"
proof -
  let ?n = "py_lower (norm_string v)"
  have c: "c = alias_of LEGACY_TASK_FAMILY_ALIASES ?n" and n: "?n \<noteq> []"
    using assms by (auto simp: canonicalize_task_family_def Let_def split: if_splits)
  show ?thesis
  proof (cases "?n = ''task.classification.text''")
    case True
    then have "c = ''task.classification''" unfolding c by (simp add: alias_of_def LEGACY_TASK_FAMILY_ALIASES_def)
    moreover have "canonicalize_task_family (PStr ''task.classification'') = Some ''task.classification''" by code_simp
    ultimately show ?thesis by simp
  next
    case False
    then have "c = ?n" unfolding c by (simp add: alias_of_def LEGACY_TASK_FAMILY_ALIASES_def)
    moreover have "py_lower (norm_string (PStr ?n)) = ?n"
      by (simp add: py_lower_strip [symmetric] norm_string_stripped)
    ultimately show ?thesis
      using n False by (simp add: canonicalize_task_family_def Let_def alias_of_def LEGACY_TASK_FAMILY_ALIASES_def)
  qed
qed

lemma map_filter_Some_iff: "x \<in> set (List.map_filter f xs) \<longleftrightarrow> (\<exists>y\<in>set xs. f y = Some x)"
  by (induction xs) (auto simp: List.map_filter_simps split: option.splits)

lemma map_filter_fixed: "(\<And>x. x \<in> set xs \<Longrightarrow> f (g x) = Some x) \<Longrightarrow> List.map_filter f (map g xs) = xs"
  by (induction xs) (auto simp: List.map_filter_simps)

text \<open>The two validations after the canonicalisation add nothing to the membership test.\<close>

lemma phase3_exact:
  "canonicalize_phase3_task_family v = Some c \<longleftrightarrow>
     canonicalize_task_family v = Some c \<and> c \<in> set CANONICAL_TASK_FAMILIES"
proof (cases "canonicalize_task_family v")
  case (Some n)
  have "canonicalize_task_family (PStr (str_or (PStr n) [])) = Some n"
    using canonicalize_idem [OF Some] by (simp add: canonicalize_str_or)
  then have "family_list (PList [PStr n]) = [n]"
    by (simp add: family_list_def List.map_filter_simps)
  moreover have "n \<in> set CANONICAL_TASK_FAMILIES \<Longrightarrow> family_id_matches n"
    using canonical_families_canonical by (auto simp: list_all_iff)
  ultimately show ?thesis
    using Some by (auto simp: canonicalize_phase3_task_family_def validate_task_family_capabilities_def)
qed (simp add: canonicalize_phase3_task_family_def)

lemma set_capability_families:
  "set (capability_families v) =
     {c. \<exists>i\<in>set (as_list v). canonicalize_task_family i = Some c} \<inter> set CANONICAL_TASK_FAMILIES"
  by (auto simp: capability_families_def map_filter_Some_iff phase3_exact canonicalize_str_or)

lemma declaration_of_canonical:
  assumes "canonicalize_task_family v = Some c" and "c \<in> set CANONICAL_TASK_FAMILIES"
  shows "declaration_family (PStr c) = Some (alias_of LEGACY_DECLARATION_TASK_FAMILY_ALIASES c)"
proof -
  have "canonicalize_phase3_task_family (PStr (str_or (PStr c) [])) = Some c"
    using assms(2) canonicalize_idem [OF assms(1)] by (simp add: phase3_exact canonicalize_str_or)
  then show ?thesis by (simp add: declaration_family_def)
qed

lemma selection_list_declarable:
  assumes "set xs \<subseteq> set DECLARABLE_TASK_FAMILIES"
  shows "selection_list (PList (map PStr xs)) = sort (remdups xs)"
proof -
  have "List.map_filter selected_family (map PStr xs) = xs"
    using assms by (intro map_filter_fixed declarable_fixed) auto
  then show ?thesis by (simp add: selection_list_def)
qed

lemma capability_families_declarable:
  assumes "set xs \<subseteq> set DECLARABLE_TASK_FAMILIES"
  shows "set (capability_families (PList (map PStr xs))) = set xs"
  using assms declarable_canonical declarable_fixed(2) by (fastforce simp: set_capability_families)

definition selection_config :: "string list \<Rightarrow> pydict" where
  "selection_config xs = [(''schema_version'', PStr ''1.0''), (''selected_task_families'', PList (map PStr xs))]"

lemma selection_config_get [simp]:
  "dget (selection_config xs) ''selected_task_families'' = PList (map PStr xs)"
  "dget (selection_config xs) ''schema_version'' = PStr ''1.0''"
  by (simp_all add: selection_config_def dget_def)

lemma validate_selection_config:
  "validate_task_capability_selection_config (PDict (selection_config xs)) = None \<longleftrightarrow>
     selection_list (PList (map PStr xs)) \<noteq> [] \<and>
     set (selection_list (PList (map PStr xs))) \<subseteq> set DECLARABLE_TASK_FAMILIES"
proof -
  have "norm_string (PStr ''1.0'') = ''1.0''" by code_simp
  then show ?thesis
    by (auto simp: validate_task_capability_selection_config_def Let_def filter_empty_conv
        dest!: filter_eq_ConsD split: list.splits)
qed

lemma create_selection_config:
  assumes "xs \<noteq> []" and "set xs \<subseteq> set DECLARABLE_TASK_FAMILIES"
  shows "create_task_capability_selection_config (PDict (selection_config xs)) =
           Inr (selection_config (sort (remdups xs)))"
proof -
  let ?ys = "sort (remdups xs)"
  have s: "set ?ys \<subseteq> set DECLARABLE_TASK_FAMILIES" and ne: "?ys \<noteq> []"
    using assms(2) by simp (metis assms(1) set_empty set_remdups set_sort)
  have "validate_task_capability_selection_config (PDict (selection_config ?ys)) = None"
    unfolding validate_selection_config selection_list_declarable [OF s] using s ne
    by (simp add: sorted_sort_id distinct_remdups_id)
  then show ?thesis
    using ne unfolding create_task_capability_selection_config_def
    by (simp add: selection_list_declarable [OF assms(2)] selection_config_def [symmetric] Let_def)
qed

lemma selected_family_idem:
  assumes "selected_family v = Some x"
  shows "selected_family (PStr x) = Some x"
proof -
  obtain s c where "v = PStr s" and c: "canonicalize_task_family (PStr (py_strip s)) = Some c"
    and x: "x = alias_of LEGACY_DECLARATION_TASK_FAMILY_ALIASES c"
    using assms by (auto simp: selected_family_def split: pyval.splits if_splits)
  show ?thesis
  proof (cases "map_of LEGACY_DECLARATION_TASK_FAMILY_ALIASES c")
    case (Some y)
    then have "y \<in> set DECLARABLE_TASK_FAMILIES"
      using declaration_targets_declarable by (force simp: list_all_iff dest: map_of_SomeD)
    then show ?thesis using Some by (simp add: x alias_of_def declarable_fixed(3))
  next
    case None
    have c': "canonicalize_task_family (PStr c) = Some c" by (rule canonicalize_idem [OF c])
    then have "py_strip c \<noteq> []" by (auto simp: canonicalize_task_family_def)
    moreover have "canonicalize_task_family (PStr (py_strip c)) = Some c"
      using canonicalize_stripped [of "PStr c"] c' by simp
    ultimately show ?thesis using None by (simp add: selected_family_def x alias_of_def)
  qed
qed

lemma created_selection:
  assumes "create_task_capability_selection_config inp = Inr cfg"
  obtains xs where "cfg = selection_config xs" and "xs \<noteq> []" and "set xs \<subseteq> set DECLARABLE_TASK_FAMILIES"
proof -
  let ?ch = "selection_list (dget (as_dict inp) ''selected_task_families'')"
  define xs where "xs = (if ?ch = [] then default_task_capability_selection else ?ch)"
  have cfg: "cfg = selection_config xs"
    and ok: "validate_task_capability_selection_config (PDict (selection_config xs)) = None"
    using assms unfolding create_task_capability_selection_config_def Let_def selection_config_def [symmetric] xs_def [symmetric]
    by (auto split: option.splits)
  have dflt: "list_all (\<lambda>f. f \<in> set DECLARABLE_TASK_FAMILIES) default_task_capability_selection"
    by (simp add: default_task_capability_selection_def DECLARABLE_TASK_FAMILIES_def
        LEGACY_DECLARATION_TASK_FAMILY_ALIASES_def CANONICAL_TASK_FAMILIES_def)
  have "xs \<noteq> []" by (simp add: xs_def default_task_capability_selection_def)
  moreover have "set xs \<subseteq> set DECLARABLE_TASK_FAMILIES"
  proof (cases "?ch = []")
    case True
    then show ?thesis using dflt by (auto simp: xs_def list_all_iff)
  next
    case False
    have "selected_family (PStr f) = Some f" if "f \<in> set ?ch" for f
      using that by (auto simp: selection_list_def map_filter_Some_iff intro: selected_family_idem)
    then have "List.map_filter selected_family (map PStr ?ch) = ?ch" by (intro map_filter_fixed) simp
    then have "selection_list (PList (map PStr ?ch)) = ?ch"
      by (simp add: selection_list_def sorted_sort_id distinct_remdups_id)
    then show ?thesis using ok False by (simp add: validate_selection_config xs_def)
  qed
  ultimately show ?thesis using that cfg by blast
qed

lemma family_check_exact':
  "tf_allowed (validate_execution_task_family task_family declared profile) \<longleftrightarrow>
     (\<exists>c f. canonicalize_task_family task_family = Some c \<and> c \<in> set CANONICAL_TASK_FAMILIES \<and>
        f = alias_of LEGACY_DECLARATION_TASK_FAMILY_ALIASES c \<and>
        (capability_families (py_or declared (PList [])) = [] \<or> f \<in> set (capability_families (py_or declared (PList [])))) \<and>
        (accepted_profile_families profile = [] \<or> f \<in> set (accepted_profile_families profile)))"
proof (cases "canonicalize_phase3_task_family (PStr (norm_string task_family))")
  case None
  then have "\<nexists>c. canonicalize_task_family task_family = Some c \<and> c \<in> set CANONICAL_TASK_FAMILIES"
    by (metis canonicalize_stripped option.distinct(1) phase3_exact)
  with None show ?thesis by (auto simp: validate_execution_task_family_def)
next
  case (Some c)
  then have c: "canonicalize_task_family task_family = Some c" and "c \<in> set CANONICAL_TASK_FAMILIES"
    by (simp_all add: phase3_exact canonicalize_stripped)
  with Some declaration_of_canonical [OF this] show ?thesis
    by (auto simp: validate_execution_task_family_def Let_def)
qed

section \<open>Properties\<close>

text \<open>
  The check of a requested family, exactly: it is allowed if and only if its canonical form is
  one of the known families and the family it is declared as is among the declared and among the
  accepted ones, where an empty set restricts nothing. A legacy family is therefore
  allowed when its modern counterpart is declared.
\<close>

theorem family_check_exact:
  "tf_allowed (validate_execution_task_family task_family declared profile) \<longleftrightarrow>
     (\<exists>c f. canonicalize_task_family task_family = Some c \<and> c \<in> set CANONICAL_TASK_FAMILIES \<and>
        f = alias_of LEGACY_DECLARATION_TASK_FAMILY_ALIASES c \<and>
        (capability_families (py_or declared (PList [])) = [] \<or> f \<in> set (capability_families (py_or declared (PList [])))) \<and>
        (accepted_profile_families profile = [] \<or> f \<in> set (accepted_profile_families profile)))"
  by (rule family_check_exact')

text \<open>
  The selection a node stores is stable and decides what it runs. What the constructor makes is
  valid, making it again only sorts it, and a further time changes nothing; and with it as the
  declared families a request is allowed if and only if its family is known and is declared as
  one of the selected ones.
\<close>

theorem selection_config_stable:
  assumes "create_task_capability_selection_config inp = Inr cfg"
  shows "\<exists>cfg' xs. validate_task_capability_selection_config (PDict cfg) = None \<and>
     create_task_capability_selection_config (PDict cfg) = Inr cfg' \<and>
     create_task_capability_selection_config (PDict cfg') = Inr cfg' \<and>
     dget cfg ''selected_task_families'' = PList (map PStr xs) \<and>
     dget cfg' ''selected_task_families'' = PList (map PStr (sort (remdups xs))) \<and>
     (\<forall>tf. tf_allowed (validate_execution_task_family tf (dget cfg ''selected_task_families'') PNone) \<longleftrightarrow>
        (\<exists>c\<in>set CANONICAL_TASK_FAMILIES. canonicalize_task_family tf = Some c \<and>
           alias_of LEGACY_DECLARATION_TASK_FAMILY_ALIASES c \<in> set xs))"
proof -
  obtain xs where cfg: "cfg = selection_config xs" and ne: "xs \<noteq> []" and sub: "set xs \<subseteq> set DECLARABLE_TASK_FAMILIES"
    using assms by (rule created_selection)
  let ?ys = "sort (remdups xs)"
  have ne': "?ys \<noteq> []" by (metis ne set_empty set_remdups set_sort)
  have sub': "set ?ys \<subseteq> set DECLARABLE_TASK_FAMILIES" using sub by simp
  have "create_task_capability_selection_config (PDict cfg) = Inr (selection_config ?ys)"
    unfolding cfg by (rule create_selection_config [OF ne sub])
  moreover have "create_task_capability_selection_config (PDict (selection_config ?ys)) = Inr (selection_config ?ys)"
    using create_selection_config [OF ne' sub'] by (simp add: sorted_sort_id distinct_remdups_id)
  moreover have "validate_task_capability_selection_config (PDict cfg) = None"
    unfolding cfg validate_selection_config selection_list_declarable [OF sub] using sub ne' by simp
  moreover have "py_or (PList (map PStr xs)) (PList []) = PList (map PStr xs)" using ne by (simp add: py_or_def)
  moreover have "set (capability_families (PList (map PStr xs))) = set xs"
    by (rule capability_families_declarable [OF sub])
  moreover from this have "capability_families (PList (map PStr xs)) \<noteq> []" using ne by fastforce
  moreover have "accepted_profile_families PNone = []" by code_simp
  ultimately show ?thesis
    unfolding family_check_exact' by (intro exI [of _ "selection_config ?ys"] exI [of _ xs]) (auto simp: cfg)
qed

theorem selection_config_stable_witness:
  "case create_task_capability_selection_config (PDict [(''selected_task_families'', PList [PStr ''task.chat''])]) of
     Inl _ \<Rightarrow> False
   | Inr cfg \<Rightarrow> (\<exists>cfg'. create_task_capability_selection_config (PDict cfg) = Inr cfg' \<and>
                     create_task_capability_selection_config (PDict cfg') = Inr cfg')"
proof -
  let ?i = "PDict [(''selected_task_families'', PList [PStr ''task.chat''])]"
  have c: "create_task_capability_selection_config ?i = Inr (selection_config [''task.chat''])" by code_simp
  then show ?thesis using selection_config_stable [OF c] by auto
qed

end
