(* ===== verification/Prompt_Versions.thy ===== *)
theory Prompt_Versions
  imports Prelude
begin

text \<open>
  Prompt versions (\<open>prompts/versioning.py\<close>) and the choice of the next one
  (\<open>next_prompt_version\<close> of \<open>prompts/registration.py\<close>).

  A canonical version is \<open>vMAJOR.MINOR\<close> or \<open>vMAJOR.MINOR.PATCH\<close> with decimal numbers without
  leading zeros and a positive major one. \<open>vMAJOR\<close> is read as \<open>vMAJOR.0\<close>, and a stored
  \<open>YYYY-MM-DD.vMAJOR\<close> is only accepted where the caller says so. The three patterns are matched
  against the whole text.
\<close>

section \<open>Patterns\<close>

text \<open>\<open>s.split(d)\<close> for a single character.\<close>

fun split_char :: "char \<Rightarrow> string \<Rightarrow> string list" where
  "split_char d [] = [[]]"
| "split_char d (c # cs) =
     (if c = d then [] # split_char d cs
      else case split_char d cs of [] \<Rightarrow> [[c]] | w # ws \<Rightarrow> (c # w) # ws)"

text \<open>\<open>[1-9][0-9]*\<close> and \<open>0|[1-9][0-9]*\<close>.\<close>

definition major_text :: "string \<Rightarrow> bool" where
  "major_text s = (s \<noteq> [] \<and> list_all is_digit s \<and> hd s \<noteq> CHR ''0'')"

definition minor_text :: "string \<Rightarrow> bool" where
  "minor_text s = (s = ''0'' \<or> major_text s)"

definition legacy_major_only :: "string \<Rightarrow> bool" where
  "legacy_major_only s = (case s of c # cs \<Rightarrow> c = CHR ''v'' \<and> major_text cs | [] \<Rightarrow> False)"

definition canonical_version :: "string \<Rightarrow> bool" where
  "canonical_version s =
     (case s of
        [] \<Rightarrow> False
      | c # cs \<Rightarrow>
          c = CHR ''v'' \<and>
          (case split_char (CHR ''.'') cs of
             [a, b] \<Rightarrow> major_text a \<and> minor_text b
           | [a, b, p] \<Rightarrow> major_text a \<and> minor_text b \<and> minor_text p
           | _ \<Rightarrow> False))"

definition date_text :: "string \<Rightarrow> bool" where
  "date_text s = list_all2 (\<lambda>m c. if m = CHR ''0'' then is_digit c else c = m) ''0000-00-00'' s"

definition legacy_stored :: "string \<Rightarrow> bool" where
  "legacy_stored s = (date_text (take 10 s) \<and> take 2 (drop 10 s) = ''.v'' \<and> major_text (drop 12 s))"

section \<open>Operations\<close>

definition normalize_prompt_version :: "bool \<Rightarrow> pyval \<Rightarrow> string result" where
  "normalize_prompt_version allow_legacy_stored v =
     (let version = norm_string v
      in if legacy_major_only version then Inr (version @ ''.0'')
         else if canonical_version version then Inr version
         else if allow_legacy_stored \<and> legacy_stored version then Inr version
         else Inl (ValueError ''invalid_prompt_version''))"

definition prompt_version_major :: "pyval \<Rightarrow> int option result" where
  "prompt_version_major v =
     (case normalize_prompt_version False v of
        Inl _ \<Rightarrow> Inr None
      | Inr normalized \<Rightarrow>
          ebind (py_int (PStr (takeWhile (\<lambda>c. c \<noteq> CHR ''.'') (drop 1 normalized)))) (\<lambda>i. Inr (Some i)))"

fun max_major :: "int \<Rightarrow> pyval list \<Rightarrow> int result" where
  "max_major m [] = Inr m"
| "max_major m (entry # rest) =
     (case entry of
        PDict d \<Rightarrow>
          ebind (prompt_version_major (dget d ''version''))
            (\<lambda>major. max_major (case major of None \<Rightarrow> m | Some i \<Rightarrow> max m i) rest)
      | _ \<Rightarrow> max_major m rest)"

definition next_prompt_version :: "pyval list \<Rightarrow> string result" where
  "next_prompt_version existing_versions =
     ebind (max_major 0 existing_versions) (\<lambda>m. Inr (''v'' @ int_text (m + 1) @ ''.0''))"

section \<open>Decimal numbers\<close>

lemma is_digit_char_of: "n < 10 \<Longrightarrow> is_digit (char_of (48 + n :: nat))"
  by (simp add: is_digit_def)

lemma digit_value_char_of: "n < 10 \<Longrightarrow> digit_value (char_of (48 + n :: nat)) = n"
  by (simp add: digit_value_def)

lemma digits_value_fold:
  "list_all is_digit s \<Longrightarrow> digits_value acc s = Some (foldl (\<lambda>a c. a * 10 + digit_value c) acc s)"
  by (induction acc s rule: digits_value.induct) auto

lemma nat_text_digits: "list_all is_digit (nat_text n)"
proof (induction n rule: nat_text.induct)
  case (1 n)
  then show ?case
    by (subst nat_text.simps) (auto intro: is_digit_char_of)
qed

lemma nat_text_not_Nil [simp]: "nat_text n \<noteq> []"
  by (subst nat_text.simps) simp

lemma nat_text_hd: "0 < n \<Longrightarrow> hd (nat_text n) \<noteq> CHR ''0''"
proof (induction n rule: nat_text.induct)
  case (1 n)
  show ?case
  proof (cases "n < 10")
    case True
    have "char_of (48 + n) \<noteq> CHR ''0''"
    proof
      assume "char_of (48 + n) = CHR ''0''"
      then have "(of_char (char_of (48 + n) :: char) :: nat) = of_char (CHR ''0'')" by (rule arg_cong)
      then show False using True 1(2) by simp
    qed
    then show ?thesis using True by (subst nat_text.simps) simp
  next
    case False
    then show ?thesis using 1 by (subst nat_text.simps) simp
  qed
qed

lemma nat_text_value: "foldl (\<lambda>a c. a * 10 + digit_value c) 0 (nat_text n) = n"
proof (induction n rule: nat_text.induct)
  case (1 n)
  show ?case
  proof (cases "n < 10")
    case True
    then show ?thesis by (subst nat_text.simps) (simp add: digit_value_char_of)
  next
    case False
    then show ?thesis using 1 by (subst nat_text.simps) (simp add: digit_value_char_of)
  qed
qed

lemma nat_of_text_nat_text: "nat_of_text (nat_text n) = Some n"
  using nat_text_digits [of n] nat_text_not_Nil [of n] digits_value_fold [OF nat_text_digits, of 0 n] nat_text_value [of n]
  by (cases "nat_text n") (auto simp: nat_of_text_def)

lemma major_nat_text: "0 < n \<Longrightarrow> major_text (nat_text n)"
  by (simp add: major_text_def nat_text_digits nat_text_hd)

section \<open>Versions\<close>

lemma is_digit_facts:
  assumes "is_digit c"
  shows "\<not> py_isspace c" and "c \<noteq> CHR ''.''" and "c \<noteq> CHR ''-''" and "c \<noteq> CHR ''+''" and "c \<noteq> CHR ''v''"
  using assms by (auto simp: is_digit_def py_isspace_def Let_def)

lemma major_text_facts:
  assumes "major_text s"
  shows "s \<noteq> []" and "list_all is_digit s" and "CHR ''.'' \<notin> set s" and "py_strip s = s"
    and "\<not> py_isspace (last s)"
proof -
  show ne: "s \<noteq> []" and d: "list_all is_digit s" using assms by (auto simp: major_text_def)
  show "CHR ''.'' \<notin> set s" using d is_digit_facts(2) by (auto simp: list_all_iff)
  show l: "\<not> py_isspace (last s)" using ne d is_digit_facts(1) by (auto simp: list_all_iff)
  show "py_strip s = s"
    using ne d is_digit_facts(1) l by (intro py_strip_fixed) (auto simp: list_all_iff)
qed

lemma minor_text_facts:
  assumes "minor_text s"
  shows "s \<noteq> []" and "CHR ''.'' \<notin> set s" and "\<not> py_isspace (last s)"
  using assms major_text_facts [of s] by (auto simp: minor_text_def py_isspace_def)

lemma py_int_digits:
  assumes "s \<noteq> []" and "list_all is_digit s"
  shows "py_int (PStr s) = Inr (int (foldl (\<lambda>a c. a * 10 + digit_value c) 0 s))"
proof -
  obtain c cs where s: "s = c # cs" using assms(1) by (cases s) auto
  have "py_strip s = s"
    using assms is_digit_facts(1) by (intro py_strip_fixed) (auto simp: list_all_iff)
  moreover have "is_digit c" using assms(2) s by simp
  ultimately show ?thesis
    using digits_value_fold [OF assms(2), of 0] is_digit_facts(3,4) [OF \<open>is_digit c\<close>]
    by (simp add: int_of_text_def s nat_of_text_def)
qed

lemma split_char_not_Nil [simp]: "split_char d s \<noteq> []"
  by (induction s) (auto split: list.splits)

lemma split_char_none: "d \<notin> set s \<Longrightarrow> split_char d s = [s]"
  by (induction s) auto

lemma split_char_append: "d \<notin> set a \<Longrightarrow> split_char d (a @ d # b) = a # split_char d b"
  by (induction a) auto

text \<open>Splitting is undone by joining.\<close>

lemma join_split_char: "py_join [d] (split_char d s) = s"
proof (induction s)
  case (Cons c s)
  obtain w ws where "split_char d s = w # ws" by (cases "split_char d s") auto
  then show ?case using Cons by (cases ws) (auto split: if_splits)
qed simp

lemma canonical_version_cases:
  assumes "canonical_version s"
  obtains a b where "s = ''v'' @ a @ ''.'' @ b" and "major_text a" and "minor_text b"
  | a b p where "s = ''v'' @ a @ ''.'' @ b @ ''.'' @ p" and "major_text a" and "minor_text b" and "minor_text p"
proof -
  obtain cs where s: "s = CHR ''v'' # cs" using assms by (auto simp: canonical_version_def split: list.splits)
  have j: "cs = py_join ''.'' (split_char (CHR ''.'') cs)" by (rule join_split_char [symmetric])
  from assms s show ?thesis
    using that j by (auto simp: canonical_version_def split: list.splits)
qed

lemma canonical_version_major:
  assumes "canonical_version s"
  obtains a r where "s = ''v'' @ a @ ''.'' @ r" and "major_text a" and "r \<noteq> []" and "\<not> py_isspace (last r)"
  using assms
proof (cases rule: canonical_version_cases)
  case (1 a b)
  then show ?thesis using that [of a b] minor_text_facts [of b] by simp
next
  case (2 a b p)
  then show ?thesis using that [of a "b @ ''.'' @ p"] minor_text_facts [of p] by simp
qed

lemma canonical_two: "major_text a \<Longrightarrow> minor_text b \<Longrightarrow> canonical_version (''v'' @ a @ ''.'' @ b)"
  using split_char_append [of "CHR ''.''" a b] split_char_none [of "CHR ''.''" b]
  by (simp add: canonical_version_def major_text_facts minor_text_facts)

lemma canonical_stripped:
  assumes "canonical_version s" shows "py_strip s = s"
  using assms
proof (cases rule: canonical_version_major)
  case (1 a r)
  then show ?thesis by (intro py_strip_fixed) (auto simp: py_isspace_def)
qed

lemma canonical_not_major_only:
  assumes "canonical_version s" shows "\<not> legacy_major_only s"
  using assms
proof (cases rule: canonical_version_major)
  case (1 a r)
  then show ?thesis using major_text_facts(3) [of "a @ ''.'' @ r"] by (auto simp: legacy_major_only_def)
qed

lemma major_only_canonical:
  assumes "legacy_major_only s" shows "canonical_version (s @ ''.0'')"
proof -
  obtain a where "s = ''v'' @ a" and "major_text a"
    using assms by (auto simp: legacy_major_only_def split: list.splits)
  then show ?thesis using canonical_two [of a "''0''"] by (simp add: minor_text_def)
qed

lemma legacy_stored_stripped:
  assumes "legacy_stored s" shows "\<not> legacy_major_only s" and "\<not> canonical_version s" and "py_strip s = s"
proof -
  obtain c cs where s: "s = c # cs" and c: "is_digit c"
    using assms by (cases s) (auto simp: legacy_stored_def date_text_def)
  have "drop 12 s \<noteq> []" "\<not> py_isspace (last (drop 12 s))"
    using assms by (auto simp only: legacy_stored_def dest: major_text_facts)
  then have "\<not> py_isspace (last s)" by (simp add: last_drop)
  then show "py_strip s = s" using s is_digit_facts(1) [OF c] by (intro py_strip_fixed) auto
  show "\<not> legacy_major_only s" "\<not> canonical_version s"
    using s is_digit_facts(5) [OF c] by (auto simp: legacy_major_only_def canonical_version_def)
qed

lemma normalized_cases:
  assumes "normalize_prompt_version allow v = Inr s"
  shows "canonical_version s \<or> allow \<and> legacy_stored s"
  using assms major_only_canonical by (auto simp: normalize_prompt_version_def Let_def split: if_splits)

text \<open>A normalised version is a fixed point of the normalisation.\<close>

lemma normalize_canonical: "canonical_version s \<Longrightarrow> normalize_prompt_version allow (PStr s) = Inr s"
  by (simp add: normalize_prompt_version_def canonical_stripped canonical_not_major_only)

lemma normalize_idem:
  assumes "normalize_prompt_version allow v = Inr s"
  shows "normalize_prompt_version allow (PStr s) = Inr s"
  using normalized_cases [OF assms] legacy_stored_stripped [of s]
  by (auto simp: normalize_canonical) (auto simp: normalize_prompt_version_def)

text \<open>The major number of a version, which is always there, positive and read back from its text.\<close>

lemma major_of_canonical:
  assumes "canonical_version s"
  obtains a r i where "s = ''v'' @ a @ ''.'' @ r" and "major_text a" and "py_int (PStr a) = Inr i"
    and "prompt_version_major (PStr s) = Inr (Some i)"
  using assms
proof (cases rule: canonical_version_major)
  case (1 a r)
  have "takeWhile (\<lambda>c. c \<noteq> CHR ''.'') (drop 1 s) = a"
    using 1 major_text_facts(3) [of a] by (subst 1(1)) (auto simp: takeWhile_append)
  then have "prompt_version_major (PStr s) = ebind (py_int (PStr a)) (\<lambda>i. Inr (Some i))"
    using normalize_canonical [OF assms] by (simp only: prompt_version_major_def sum.case)
  then show ?thesis using that 1 py_int_digits [of a] major_text_facts [OF 1(2)] by fastforce
qed

lemma prompt_version_major_total: "\<exists>m. prompt_version_major v = Inr m"
proof (cases "normalize_prompt_version False v")
  case (Inr s)
  then have c: "canonical_version s" using normalized_cases by blast
  have "normalize_prompt_version False (PStr s) = Inr s" using Inr by (rule normalize_idem)
  then have "prompt_version_major v = prompt_version_major (PStr s)" using Inr by (simp add: prompt_version_major_def)
  then show ?thesis using major_of_canonical [OF c] by metis
qed (simp add: prompt_version_major_def)

lemma max_major_bound:
  assumes "max_major m vs = Inr n"
  shows "m \<le> n" and "PDict d \<in> set vs \<Longrightarrow> prompt_version_major (dget d ''version'') = Inr (Some i) \<Longrightarrow> i \<le> n"
proof -
  have "m \<le> n \<and> (\<forall>d i. PDict d \<in> set vs \<longrightarrow> prompt_version_major (dget d ''version'') = Inr (Some i) \<longrightarrow> i \<le> n)"
    using assms
  proof (induction vs arbitrary: m)
    case (Cons v vs)
    show ?case
    proof (cases "\<exists>d. v = PDict d")
      case True
      then obtain d where v: "v = PDict d" by blast
      obtain x where x: "prompt_version_major (dget d ''version'') = Inr x"
        using prompt_version_major_total by blast
      with Cons.prems v have "max_major (case x of None \<Rightarrow> m | Some i \<Rightarrow> max m i) vs = Inr n" by simp
      from Cons.IH [OF this] show ?thesis using v x by (auto split: option.splits)
    next
      case False
      then have "max_major m vs = Inr n" using Cons.prems by (cases v) auto
      from Cons.IH [OF this] show ?thesis using False by auto
    qed
  qed simp
  then show "m \<le> n" "PDict d \<in> set vs \<Longrightarrow> prompt_version_major (dget d ''version'') = Inr (Some i) \<Longrightarrow> i \<le> n" by blast+
qed

lemma max_major_total: "\<exists>n. max_major m vs = Inr n"
proof (induction vs arbitrary: m)
  case (Cons v vs)
  show ?case
  proof (cases v)
    case (PDict d)
    then show ?thesis using Cons.IH prompt_version_major_total [of "dget d ''version''"] by auto
  qed (use Cons.IH in auto)
qed simp

lemma next_version_text:
  assumes "0 \<le> m"
  shows "canonical_version (''v'' @ int_text (m + 1) @ ''.0'')"
    and "prompt_version_major (PStr (''v'' @ int_text (m + 1) @ ''.0'')) = Inr (Some (m + 1))"
proof -
  have t: "int_text (m + 1) = nat_text (nat (m + 1))" using assms by (simp add: int_text_def)
  have maj: "major_text (int_text (m + 1))" unfolding t using assms by (intro major_nat_text) simp
  then show c: "canonical_version (''v'' @ int_text (m + 1) @ ''.0'')"
    using canonical_two [of "int_text (m + 1)" "''0''"] by (simp add: minor_text_def)
  have "py_int (PStr (int_text (m + 1))) = Inr (m + 1)"
    using assms py_int_digits [OF nat_text_not_Nil nat_text_digits, of "nat (m + 1)"]
    unfolding t by (simp add: nat_text_value)
  moreover have "takeWhile (\<lambda>c. c \<noteq> CHR ''.'') (drop 1 (''v'' @ int_text (m + 1) @ ''.0'')) = int_text (m + 1)"
    using major_text_facts(3) [OF maj] by (auto simp: takeWhile_append)
  ultimately show "prompt_version_major (PStr (''v'' @ int_text (m + 1) @ ''.0'')) = Inr (Some (m + 1))"
    using normalize_canonical [OF c] by (simp only: prompt_version_major_def sum.case ebind_simps)
qed

lemma next_prompt_version_fresh:
  assumes "next_prompt_version vs = Inr s"
  shows "canonical_version s" and "PDict d \<in> set vs \<Longrightarrow> normalize_prompt_version True (dget d ''version'') \<noteq> Inr s"
proof -
  obtain m where m: "max_major 0 vs = Inr m" and s: "s = ''v'' @ int_text (m + 1) @ ''.0''"
    using assms by (auto simp: next_prompt_version_def ebind_Inr_conv)
  have pos: "0 \<le> m" using max_major_bound(1) [OF m] .
  show c: "canonical_version s" unfolding s by (rule next_version_text(1) [OF pos])
  show "normalize_prompt_version True (dget d ''version'') \<noteq> Inr s" if d: "PDict d \<in> set vs"
  proof
    assume n: "normalize_prompt_version True (dget d ''version'') = Inr s"
    then have n': "normalize_prompt_version False (dget d ''version'') = Inr s"
      using c legacy_stored_stripped(2) by (auto simp: normalize_prompt_version_def Let_def split: if_splits)
    then have "prompt_version_major (dget d ''version'') = prompt_version_major (PStr s)"
      using normalize_canonical [OF c] by (simp add: prompt_version_major_def)
    also have "\<dots> = Inr (Some (m + 1))" unfolding s by (rule next_version_text(2) [OF pos])
    finally show False using max_major_bound(2) [OF m d] by fastforce
  qed
qed

lemma next_prompt_version_total: "\<exists>s. next_prompt_version vs = Inr s"
  using max_major_total [of 0 vs] by (auto simp: next_prompt_version_def)

section \<open>Properties\<close>

text \<open>
  A new prompt version can always be chosen and is new. Whatever versions an entry holds, well
  formed or not, the next version exists, is canonical and a fixed point of the normalisation,
  its text reads back as a major number above the major number of every held version, and no
  held version normalises to it.
\<close>

theorem next_version_fresh:
  "\<exists>s m. next_prompt_version vs = Inr s \<and> canonical_version s \<and> normalize_prompt_version allow (PStr s) = Inr s \<and>
     prompt_version_major (PStr s) = Inr (Some m) \<and>
     (\<forall>d i. PDict d \<in> set vs \<longrightarrow> normalize_prompt_version True (dget d ''version'') \<noteq> Inr s \<and>
        (prompt_version_major (dget d ''version'') = Inr (Some i) \<longrightarrow> i < m))"
proof -
  obtain m where m: "max_major 0 vs = Inr m" using max_major_total by blast
  let ?s = "''v'' @ int_text (m + 1) @ ''.0''"
  have s: "next_prompt_version vs = Inr ?s" using m by (simp add: next_prompt_version_def)
  have "prompt_version_major (PStr ?s) = Inr (Some (m + 1))"
    using max_major_bound(1) [OF m] by (rule next_version_text(2))
  moreover have "canonical_version ?s" using max_major_bound(1) [OF m] by (rule next_version_text(1))
  ultimately show ?thesis
    using s normalize_canonical next_prompt_version_fresh(2) [OF s] max_major_bound(2) [OF m]
    by (intro exI [of _ ?s] exI [of _ "m + 1"]) fastforce
qed

theorem next_version_fresh_witness:
  "\<exists>s m. next_prompt_version [PDict [(''version'', PStr ''v9'')], PDict [(''version'', PStr ''2024-01-01.v12'')]] = Inr s \<and>
     s = ''v10.0'' \<and> prompt_version_major (PStr s) = Inr (Some m) \<and> 9 < m"
proof -
  let ?vs = "[PDict [(''version'', PStr ''v9'')], PDict [(''version'', PStr ''2024-01-01.v12'')]]"
  have "next_prompt_version ?vs = Inr ''v10.0''" by code_simp
  moreover have "prompt_version_major (dget [(''version'', PStr ''v9'')] ''version'') = Inr (Some 9)" by code_simp
  ultimately show ?thesis using next_version_fresh [of ?vs False] by fastforce
qed

text \<open>
  Normalising a version is idempotent and total on canonical texts: what it returns is canonical,
  or a stored legacy version where these are allowed, and normalising it again returns it.
\<close>

theorem version_normalisation_idempotent:
  assumes "normalize_prompt_version allow v = Inr s"
  shows "normalize_prompt_version allow (PStr s) = Inr s \<and> (canonical_version s \<or> allow \<and> legacy_stored s) \<and>
    (if legacy_major_only (norm_string v) then s = norm_string v @ ''.0'' else s = norm_string v)"
  using normalize_idem [OF assms] normalized_cases [OF assms] assms
  by (auto simp: normalize_prompt_version_def Let_def split: if_splits)

theorem version_normalisation_idempotent_witness:
  "normalize_prompt_version False (PStr '' v3 '') = Inr ''v3.0'' \<and> normalize_prompt_version False (PStr ''v3.0'') = Inr ''v3.0''"
proof -
  have "normalize_prompt_version False (PStr '' v3 '') = Inr ''v3.0''" by code_simp
  then show ?thesis using version_normalisation_idempotent by blast
qed

end
