(* ===== verification/Prompts.thy ===== *)
theory Prompts
  imports Task_Families Prompt_Versions
begin

text \<open>
  Prompt entries (\<open>prompts/registration.py\<close>): how an entry is made, updated, reviewed and moved
  through its lifecycle, and how an entry and one of its versions are found.

  An entry is a dict. The operations that change an entry in place are steps: they return the
  entry as they leave it together with the exception they raise, if any, because a step that
  raises keeps what it had assigned before. One reading of the clock is used for each operation.
\<close>

section \<open>Constants\<close>

definition VALID_PROMPT_LIFECYCLE_STATES :: "string list" where
  "VALID_PROMPT_LIFECYCLE_STATES =
     [''draft'', ''probation'', ''active'', ''review_due'', ''restricted'', ''suspended'', ''retired'', ''expired'']"

definition LEGACY_PROMPT_STATES :: "(string \<times> string) list" where
  "LEGACY_PROMPT_STATES = [(''registered'', ''active''), (''probation'', ''probation'')]"

definition VALID_PROMPT_PRIVACY_CLASSES :: "string list" where
  "VALID_PROMPT_PRIVACY_CLASSES = [''public'', ''internal'', ''restricted'', ''sensitive'']"

definition VALID_PROMPT_ACCESS_SCOPES :: "string list" where
  "VALID_PROMPT_ACCESS_SCOPES = [''private'', ''service'', ''shared'', ''public'']"

definition VALID_PROMPT_ROUTING_POLICY_MODES :: "string list" where
  "VALID_PROMPT_ROUTING_POLICY_MODES = [''local_only'', ''local_preferred'', ''cloud_only'', ''cloud_fallback'']"

definition VALID_PROMPT_IMPORTANCE_LEVELS :: "string list" where
  "VALID_PROMPT_IMPORTANCE_LEVELS = [''background'', ''normal'', ''high'', ''critical'']"

definition VALID_IMAGE_TEMPLATE_RUNTIMES :: "string list" where
  "VALID_IMAGE_TEMPLATE_RUNTIMES = [''comfyui_gpu'', ''comfyui_cpu'']"

section \<open>Normalisers\<close>

definition non_empty :: "string \<Rightarrow> pyval \<Rightarrow> string result" where
  "non_empty name v =
     (let t = norm_string v in if t = [] then Inl (ValueError (name @ '' is required'')) else Inr t)"

definition optional_string :: "pyval \<Rightarrow> string option" where
  "optional_string v = none_if_empty (norm_string v)"

definition string_list :: "pyval \<Rightarrow> pyval" where
  "string_list v = PList (map PStr (norm_string_list v))"

definition normalize_mapping :: "pyval \<Rightarrow> pyval" where
  "normalize_mapping v = PDict (as_dict v)"

text \<open>\<open>bool(d.get(k, default))\<close>.\<close>

definition get_bool :: "pydict \<Rightarrow> string \<Rightarrow> bool \<Rightarrow> bool" where
  "get_bool d k dflt = (case map_of d k of None \<Rightarrow> dflt | Some v \<Rightarrow> truthy v)"

text \<open>A text that must be one of the given ones.\<close>

definition one_of :: "string list \<Rightarrow> string \<Rightarrow> string \<Rightarrow> string result" where
  "one_of valid error s = (if s \<in> set valid then Inr s else Inl (ValueError error))"

definition normalize_prompt_lifecycle_state :: "pyval \<Rightarrow> string result" where
  "normalize_prompt_lifecycle_state v =
     (let state = py_lower (norm_string v)
      in case map_of LEGACY_PROMPT_STATES state of
           Some s \<Rightarrow> Inr s
         | None \<Rightarrow> one_of VALID_PROMPT_LIFECYCLE_STATES ''invalid_prompt_state'' state)"

definition normalize_prompt_privacy_class :: "pyval \<Rightarrow> string result" where
  "normalize_prompt_privacy_class v =
     one_of VALID_PROMPT_PRIVACY_CLASSES ''invalid_privacy_class'' (py_lower (py_strip (str_or v ''internal'')))"

definition normalize_prompt_access_scope :: "pyval \<Rightarrow> string result" where
  "normalize_prompt_access_scope v =
     one_of VALID_PROMPT_ACCESS_SCOPES ''invalid_access_scope'' (py_lower (py_strip (str_or v ''service'')))"

definition normalize_execution_policy :: "pyval \<Rightarrow> pyval" where
  "normalize_execution_policy v =
     (let payload = as_dict v
      in PDict [(''allow_direct_execution'', PBool (get_bool payload ''allow_direct_execution'' True)),
                (''allow_version_pinning'', PBool (get_bool payload ''allow_version_pinning'' True))])"

definition normalize_prompt_routing_policy :: "pyval \<Rightarrow> pyval result" where
  "normalize_prompt_routing_policy v =
     (let mode = py_lower (norm_string (dget (as_dict v) ''mode''))
      in if v = PNone \<or> mode = [] then Inr PNone
         else ebind (one_of VALID_PROMPT_ROUTING_POLICY_MODES ''invalid_prompt_routing_policy_mode'' mode)
                (\<lambda>m. Inr (PDict [(''mode'', PStr m)])))"

definition normalize_prompt_importance_policy :: "pyval \<Rightarrow> pyval result" where
  "normalize_prompt_importance_policy v =
     ebind (one_of VALID_PROMPT_IMPORTANCE_LEVELS ''invalid_prompt_importance_level''
              (py_lower (py_strip (str_or (dget (as_dict v) ''level'') ''normal''))))
       (\<lambda>level. Inr (PDict [(''level'', PStr level)]))"

definition normalize_prompt_capability_requirements :: "pyval \<Rightarrow> pyval" where
  "normalize_prompt_capability_requirements v =
     (let required_features = norm_string_list (dget (as_dict v) ''required_features'')
      in if v = PNone \<or> required_features = [] then PNone
         else PDict [(''required_features'', PList (map PStr required_features))])"

definition normalize_prompt_image_template :: "pyval \<Rightarrow> pyval result" where
  "normalize_prompt_image_template v =
     (let payload = as_dict v
      in case optional_string (dget payload ''template_id'') of
           None \<Rightarrow> Inr PNone
         | Some template_id \<Rightarrow>
             let runtime = optional_string (dget payload ''template_runtime'')
             in if runtime \<noteq> None \<and> runtime \<notin> Some ` set VALID_IMAGE_TEMPLATE_RUNTIMES
                then Inl (ValueError ''invalid_image_template_runtime'')
                else Inr (PDict
                  [(''template_id'', PStr template_id),
                   (''template_version'', opt_str (optional_string (dget payload ''template_version''))),
                   (''template_runtime'', opt_str runtime),
                   (''allowed_parameter_overrides'', string_list (dget payload ''allowed_parameter_overrides''))]))"

definition normalize_max_timeout :: "pyval \<Rightarrow> pyval result" where
  "normalize_max_timeout v = (if v = PNone then Inr PNone else ebind (py_int v) (\<lambda>i. Inr (PInt (max i 1))))"

definition normalize_prompt_constraints :: "pyval \<Rightarrow> pyval result" where
  "normalize_prompt_constraints v =
     (let payload = as_dict v
      in ebind (normalize_max_timeout (dget payload ''max_timeout_s'')) (\<lambda>timeout.
         ebind (normalize_prompt_routing_policy (dget payload ''routing_policy'')) (\<lambda>routing.
         ebind (normalize_prompt_importance_policy (dget payload ''importance'')) (\<lambda>importance.
         ebind (normalize_prompt_image_template (dget payload ''image_template'')) (\<lambda>image.
         Inr (PDict
           [(''max_timeout_s'', timeout),
            (''structured_output_required'', PBool (get_bool payload ''structured_output_required'' False)),
            (''allowed_model_overrides'', string_list (dget payload ''allowed_model_overrides'')),
            (''routing_policy'', routing),
            (''importance'', importance),
            (''capability_requirements'', normalize_prompt_capability_requirements (dget payload ''capability_requirements'')),
            (''image_template'', image)]))))))"

definition normalize_provider_preferences :: "pyval \<Rightarrow> pyval" where
  "normalize_provider_preferences v =
     (let payload = as_dict v;
          lowered = (\<lambda>k. PList (map (\<lambda>s. PStr (py_lower s)) (norm_string_list (dget payload k))));
          default = (\<lambda>k. opt_str (map_option py_lower (optional_string (dget payload k))))
      in PDict
           [(''preferred_providers'', lowered ''preferred_providers''),
            (''preferred_models'', lowered ''preferred_models''),
            (''default_provider'', default ''default_provider''),
            (''default_model'', default ''default_model'')])"

record access_policy =
  ap_access_scope :: string
  ap_owner_client_id :: "string option"
  ap_allowed_services :: pyval
  ap_allowed_clients :: pyval
  ap_allowed_customers :: pyval

definition normalize_prompt_access_policy ::
    "pyval \<Rightarrow> pyval \<Rightarrow> pyval \<Rightarrow> pyval \<Rightarrow> pyval \<Rightarrow> access_policy result" where
  "normalize_prompt_access_policy access_scope owner_client_id services clients customers =
     ebind (normalize_prompt_access_scope access_scope) (\<lambda>scope.
     Inr \<lparr>ap_access_scope = scope, ap_owner_client_id = optional_string owner_client_id,
          ap_allowed_services = string_list services, ap_allowed_clients = string_list clients,
          ap_allowed_customers = string_list customers\<rparr>)"

definition normalize_prompt_definition :: "pyval \<Rightarrow> pyval" where
  "normalize_prompt_definition v =
     (let payload = as_dict v
      in PDict
           [(''system_prompt'', opt_str (optional_string (dget payload ''system_prompt''))),
            (''prompt_template'', opt_str (optional_string (dget payload ''prompt_template''))),
            (''template_variables'', string_list (dget payload ''template_variables'')),
            (''default_inputs'', normalize_mapping (dget payload ''default_inputs''))])"

definition build_prompt_version :: "string \<Rightarrow> string \<Rightarrow> pyval \<Rightarrow> pyval \<Rightarrow> pyval \<Rightarrow> pyval result" where
  "build_prompt_version now version definition metadata created_at =
     ebind (normalize_prompt_version False (PStr version)) (\<lambda>v.
     Inr (PDict
       [(''version'', PStr v),
        (''definition'', normalize_prompt_definition definition),
        (''metadata'', normalize_mapping metadata),
        (''created_at'', PStr (case optional_string created_at of None \<Rightarrow> now | Some t \<Rightarrow> t))]))"

section \<open>Making an entry\<close>

record prompt_args =
  pa_prompt_name :: pyval
  pa_owner_service :: pyval
  pa_owner_client_id :: pyval
  pa_task_family :: pyval
  pa_privacy_class :: pyval
  pa_access_scope :: pyval
  pa_allowed_services :: pyval
  pa_allowed_clients :: pyval
  pa_allowed_customers :: pyval
  pa_execution_policy :: pyval
  pa_provider_preferences :: pyval
  pa_constraints :: pyval
  pa_metadata :: pyval
  pa_definition :: pyval
  pa_version :: pyval

text \<open>The canonical form of a task family, which must be a known one.\<close>

definition registered_task_family :: "pyval \<Rightarrow> string result" where
  "registered_task_family v =
     ebind (non_empty ''task_family'' v) (\<lambda>given.
       let task = (case canonicalize_task_family (PStr given) of None \<Rightarrow> given | Some c \<Rightarrow> c)
       in if task \<in> set CANONICAL_TASK_FAMILIES then Inr task else Inl (ValueError ''unsupported task_family''))"

definition new_usage :: pyval where
  "new_usage = PDict
     [(''execution_count'', PInt 0), (''success_count'', PInt 0), (''failure_count'', PInt 0), (''denial_count'', PInt 0),
      (''last_used_at'', PNone), (''last_denial_reason'', PNone), (''last_denied_at'', PNone),
      (''last_failure_reason'', PNone), (''last_failure_at'', PNone), (''last_execution_status'', PNone)]"

definition history_item :: "string \<Rightarrow> string \<Rightarrow> string \<Rightarrow> pyval" where
  "history_item state reason changed_at =
     PDict [(''state'', PStr state), (''reason'', PStr reason), (''changed_at'', PStr changed_at)]"

definition create_prompt_service_registration ::
    "string \<Rightarrow> pyval \<Rightarrow> pyval \<Rightarrow> pyval \<Rightarrow> prompt_args \<Rightarrow> pydict result" where
  "create_prompt_service_registration now prompt_id service_id status a =
     ebind (non_empty ''prompt_id'' prompt_id) (\<lambda>prompt.
     ebind (non_empty ''service_id'' service_id) (\<lambda>service.
     ebind (registered_task_family (pa_task_family a)) (\<lambda>task.
     ebind (normalize_prompt_version False
              (PStr (case optional_string (pa_version a) of None \<Rightarrow> ''v1'' | Some v \<Rightarrow> v))) (\<lambda>version_value.
     ebind (normalize_prompt_lifecycle_state status) (\<lambda>lifecycle_state.
     ebind (normalize_prompt_access_policy (pa_access_scope a) (pa_owner_client_id a) (pa_allowed_services a)
              (pa_allowed_clients a) (pa_allowed_customers a)) (\<lambda>access.
     ebind (build_prompt_version now version_value (pa_definition a) (pa_metadata a) (PStr now)) (\<lambda>version_entry.
     ebind (normalize_prompt_privacy_class (pa_privacy_class a)) (\<lambda>privacy.
     ebind (normalize_prompt_constraints (pa_constraints a)) (\<lambda>constraints.
     Inr
       [(''prompt_id'', PStr prompt),
        (''prompt_name'', PStr (case optional_string (pa_prompt_name a) of None \<Rightarrow> prompt | Some n \<Rightarrow> n)),
        (''service_id'', PStr service),
        (''owner_service'', PStr (case optional_string (pa_owner_service a) of None \<Rightarrow> service | Some n \<Rightarrow> n)),
        (''owner_client_id'', opt_str (ap_owner_client_id access)),
        (''task_family'', PStr task),
        (''status'', PStr lifecycle_state),
        (''privacy_class'', PStr privacy),
        (''access_scope'', PStr (ap_access_scope access)),
        (''allowed_services'', ap_allowed_services access),
        (''allowed_clients'', ap_allowed_clients access),
        (''allowed_customers'', ap_allowed_customers access),
        (''execution_policy'', normalize_execution_policy (pa_execution_policy a)),
        (''provider_preferences'', normalize_provider_preferences (pa_provider_preferences a)),
        (''constraints'', constraints),
        (''metadata'', normalize_mapping (pa_metadata a)),
        (''current_version'', PStr version_value),
        (''versions'', PList [version_entry]),
        (''lifecycle_history'', PList [history_item lifecycle_state ''created'' now]),
        (''usage'', new_usage),
        (''registered_at'', PStr now),
        (''updated_at'', PStr now),
        (''last_reviewed_at'', if lifecycle_state = ''active'' then PStr now else PNone),
        (''reviewed_by'', opt_str (ap_owner_client_id access)),
        (''review_reason'', if lifecycle_state = ''active'' then PStr ''created'' else PNone),
        (''retired_at'', PNone)])))))))))"

section \<open>Changing an entry in place\<close>

type_synonym entry_step = "pydict \<Rightarrow> pydict \<times> exn option"

text \<open>Assigning fields, and running steps up to the first that raises.\<close>

definition dict_update :: "(string \<times> pyval) list \<Rightarrow> pydict \<Rightarrow> pydict" where
  "dict_update kvs d = fold (\<lambda>kv. AList.update (fst kv) (snd kv)) kvs d"

definition assign :: "(string \<times> pyval) list result \<Rightarrow> entry_step" where
  "assign r e = (case r of Inl x \<Rightarrow> (e, Some x) | Inr kvs \<Rightarrow> (dict_update kvs e, None))"

fun run_steps :: "entry_step list \<Rightarrow> entry_step" where
  "run_steps [] e = (e, None)"
| "run_steps (s # ss) e =
     (case s e of (e', Some x) \<Rightarrow> (e', Some x) | (e', None) \<Rightarrow> run_steps ss e')"

text \<open>\<open>if arg is not None: ...\<close>.\<close>

definition given :: "pyval \<Rightarrow> entry_step \<Rightarrow> entry_step" where
  "given v s e = (if v = PNone then (e, None) else s e)"

definition field :: "string \<Rightarrow> ('a \<Rightarrow> pyval) \<Rightarrow> 'a result \<Rightarrow> entry_step" where
  "field k f r = assign (ebind r (\<lambda>v. Inr [(k, f v)]))"

definition access_step :: "prompt_args \<Rightarrow> entry_step" where
  "access_step a e =
     (if pa_access_scope a = PNone \<and> pa_allowed_services a = PNone \<and> pa_allowed_clients a = PNone
         \<and> pa_allowed_customers a = PNone
      then (e, None)
      else
        let or_held = (\<lambda>v k. if v \<noteq> PNone then v else dget e k)
        in assign
             (ebind (normalize_prompt_access_policy
                (if pa_access_scope a \<noteq> PNone then pa_access_scope a
                 else py_or (dget e ''access_scope'') (PStr ''service''))
                (dget e ''owner_client_id'') (or_held (pa_allowed_services a) ''allowed_services'')
                (or_held (pa_allowed_clients a) ''allowed_clients'')
                (or_held (pa_allowed_customers a) ''allowed_customers''))
              (\<lambda>access. Inr
                [(''access_scope'', PStr (ap_access_scope access)),
                 (''allowed_services'', ap_allowed_services access),
                 (''allowed_clients'', ap_allowed_clients access),
                 (''allowed_customers'', ap_allowed_customers access)])) e)"

text \<open>Whether a held version normalises to the given one; the search raises at the first held
  version that is malformed.\<close>

fun version_taken :: "string \<Rightarrow> pyval list \<Rightarrow> bool result" where
  "version_taken v [] = Inr False"
| "version_taken v (item # items) =
     (case item of
        PDict d \<Rightarrow>
          ebind (normalize_prompt_version True (dget d ''version''))
            (\<lambda>w. if w = v then Inr True else version_taken v items)
      | _ \<Rightarrow> version_taken v items)"

text \<open>The version an update asks for, or the next one.\<close>

definition update_version :: "pyval \<Rightarrow> pyval list \<Rightarrow> string result" where
  "update_version version held =
     ebind (case optional_string version of Some v \<Rightarrow> Inr v | None \<Rightarrow> next_prompt_version held)
       (\<lambda>v. normalize_prompt_version False (PStr v))"

definition version_step :: "string \<Rightarrow> prompt_args \<Rightarrow> entry_step" where
  "version_step now a e =
     (if pa_definition a = PNone \<and> pa_version a = PNone then (e, None)
      else
        let held = as_list (dget e ''versions'');
            e' = (case dget e ''versions'' of PList _ \<Rightarrow> e | _ \<Rightarrow> AList.update ''versions'' (PList []) e)
        in assign
             (ebind (update_version (pa_version a) held) (\<lambda>v.
              ebind (version_taken v held) (\<lambda>taken.
              if taken then Inl (ValueError ''duplicate_prompt_version'')
              else ebind (build_prompt_version now v (pa_definition a)
                     (if pa_metadata a \<noteq> PNone then pa_metadata a else dget e' ''metadata'') PNone)
                   (\<lambda>item. Inr [(''versions'', PList (held @ [item])), (''current_version'', PStr v)])))) e')"

definition update_prompt_service_definition :: "string \<Rightarrow> prompt_args \<Rightarrow> entry_step" where
  "update_prompt_service_definition now a =
     run_steps
       [given (pa_task_family a) (field ''task_family'' PStr (registered_task_family (pa_task_family a))),
        given (pa_prompt_name a) (field ''prompt_name'' PStr (non_empty ''prompt_name'' (pa_prompt_name a))),
        given (pa_owner_service a) (field ''owner_service'' PStr (non_empty ''owner_service'' (pa_owner_service a))),
        given (pa_owner_client_id a) (field ''owner_client_id'' opt_str (Inr (optional_string (pa_owner_client_id a)))),
        given (pa_privacy_class a) (field ''privacy_class'' PStr (normalize_prompt_privacy_class (pa_privacy_class a))),
        access_step a,
        given (pa_execution_policy a)
          (field ''execution_policy'' id (Inr (normalize_execution_policy (pa_execution_policy a)))),
        given (pa_provider_preferences a)
          (field ''provider_preferences'' id (Inr (normalize_provider_preferences (pa_provider_preferences a)))),
        given (pa_constraints a) (field ''constraints'' id (normalize_prompt_constraints (pa_constraints a))),
        given (pa_metadata a) (field ''metadata'' id (Inr (normalize_mapping (pa_metadata a)))),
        version_step now a,
        field ''updated_at'' PStr (Inr now)]"

definition transition_prompt_lifecycle :: "string \<Rightarrow> pyval \<Rightarrow> pyval \<Rightarrow> entry_step" where
  "transition_prompt_lifecycle now state reason e =
     (case normalize_prompt_lifecycle_state (py_or (dget e ''status'') (PStr ''active'')) of
        Inl x \<Rightarrow> (e, Some x)
      | Inr current_state \<Rightarrow>
          (case normalize_prompt_lifecycle_state state of
             Inl x \<Rightarrow> (e, Some x)
           | Inr next_state \<Rightarrow>
               if current_state = next_state then (e, None)
               else
                 (dict_update
                    ([(''status'', PStr next_state), (''updated_at'', PStr now)] @
                     (if next_state = ''retired'' then [(''retired_at'', PStr now)] else []) @
                     [(''lifecycle_history'',
                       PList (as_list (dget e ''lifecycle_history'') @
                         [history_item next_state
                           (case optional_string reason of None \<Rightarrow> ''manual_transition'' | Some r \<Rightarrow> r) now]))]) e,
                  None)))"

definition record_prompt_review :: "string \<Rightarrow> pyval \<Rightarrow> pyval \<Rightarrow> pyval \<Rightarrow> entry_step" where
  "record_prompt_review now reviewed_by review_reason state =
     (let reason = (case optional_string review_reason of None \<Rightarrow> ''manual_review'' | Some r \<Rightarrow> r)
      in run_steps
           [assign (Inr [(''last_reviewed_at'', PStr now),
                         (''reviewed_by'', opt_str (optional_string reviewed_by)),
                         (''review_reason'', PStr reason)]),
            given state (transition_prompt_lifecycle now state (PStr reason)),
            given state (assign (Inr [(''updated_at'', PStr now)]))])"

definition apply_probation_transition :: "string \<Rightarrow> pyval \<Rightarrow> pyval \<Rightarrow> entry_step" where
  "apply_probation_transition now action reason e =
     (let action_value = py_lower (norm_string action)
      in if action_value = ''start''
         then transition_prompt_lifecycle now (PStr ''probation'') (py_or reason (PStr ''probation_started'')) e
         else if action_value = ''clear''
         then transition_prompt_lifecycle now (PStr ''active'') (py_or reason (PStr ''probation_cleared'')) e
         else (e, Some (ValueError ''unsupported probation action'')))"

section \<open>Finding an entry and a version\<close>

text \<open>The place and the value of the first entry with the id.\<close>

fun find_entry :: "string \<Rightarrow> pyval list \<Rightarrow> (nat \<times> pydict) option" where
  "find_entry pid [] = None"
| "find_entry pid (v # vs) =
     (case v of
        PDict e \<Rightarrow>
          if norm_string (dget e ''prompt_id'') = pid then Some (0, e)
          else map_option (\<lambda>(i, e). (Suc i, e)) (find_entry pid vs)
      | _ \<Rightarrow> map_option (\<lambda>(i, e). (Suc i, e)) (find_entry pid vs))"

definition find_prompt_entry :: "pyval \<Rightarrow> pyval \<Rightarrow> (nat \<times> pydict) option" where
  "find_prompt_entry prompt_services_state prompt_id =
     (let prompt_value = norm_string prompt_id
      in if prompt_value = [] then None
         else find_entry prompt_value (as_list (dget (as_dict prompt_services_state) ''prompt_services'')))"

fun stored_version :: "string \<Rightarrow> pyval list \<Rightarrow> pydict option" where
  "stored_version target [] = None"
| "stored_version target (item # items) =
     (case item of
        PDict d \<Rightarrow>
          (case normalize_prompt_version True (dget d ''version'') of
             Inr v \<Rightarrow> if v = target then Some (AList.update ''version'' (PStr v) d) else stored_version target items
           | Inl _ \<Rightarrow> stored_version target items)
      | _ \<Rightarrow> stored_version target items)"

definition find_prompt_version :: "string \<Rightarrow> pydict \<Rightarrow> pyval \<Rightarrow> pydict option result" where
  "find_prompt_version now entry version =
     (let held = as_list (dget entry ''versions''); requested = optional_string version
      in if held = []
         then ebind (normalize_prompt_version True
                (PStr (case requested of Some v \<Rightarrow> v
                       | None \<Rightarrow> (case optional_string (dget entry ''current_version'') of Some v \<Rightarrow> v | None \<Rightarrow> ''v1''))))
              (\<lambda>fallback_version. Inr (Some
                 [(''version'', PStr fallback_version), (''definition'', PDict []),
                  (''metadata'', normalize_mapping (dget entry ''metadata'')),
                  (''created_at'', PStr (case optional_string (dget entry ''registered_at'') of Some t \<Rightarrow> t | None \<Rightarrow> now))]))
         else
           let wanted = (case requested of Some v \<Rightarrow> PStr v | None \<Rightarrow> dget entry ''current_version'')
           in ebind (case normalize_prompt_version False wanted of
                       Inr v \<Rightarrow> Inr v
                     | Inl _ \<Rightarrow> normalize_prompt_version True wanted)
                (\<lambda>target. Inr (stored_version target held)))"

section \<open>Lemmas\<close>

lemma dict_update_Nil [simp]: "dict_update [] d = d"
  by (simp add: dict_update_def)

lemma dict_update_Cons [simp]: "dict_update (kv # kvs) d = dict_update kvs (AList.update (fst kv) (snd kv) d)"
  by (simp add: dict_update_def)

lemma map_of_dict_update:
  "map_of (dict_update kvs d) k = (case map_of (rev kvs) k of None \<Rightarrow> map_of d k | Some v \<Rightarrow> Some v)"
proof (induction kvs arbitrary: d)
  case (Cons kv kvs)
  then show ?case by (cases kv) (auto split: option.splits simp: map_add_def dict.get_put)
qed simp

lemma dget_dict_update:
  "dget (dict_update kvs d) k = (case map_of (rev kvs) k of None \<Rightarrow> dget d k | Some v \<Rightarrow> v)"
  by (simp add: dget_def map_of_dict_update split: option.splits)

lemma assign_simps [simp]:
  "assign (Inl x) e = (e, Some x)"
  "assign (Inr kvs) e = (dict_update kvs e, None)"
  by (simp_all add: assign_def)

text \<open>What every step keeps, a run of steps keeps, whether or not one of them raises.\<close>

definition keeps :: "(pydict \<Rightarrow> bool) \<Rightarrow> entry_step \<Rightarrow> bool" where
  "keeps P s = (\<forall>e. P e \<longrightarrow> P (fst (s e)))"

lemma keeps_run_steps: "list_all (keeps P) ss \<Longrightarrow> keeps P (run_steps ss)"
proof (induction ss)
  case (Cons s ss)
  then show ?case by (auto simp: keeps_def split: prod.splits option.splits)
qed (simp add: keeps_def)

lemma keeps_given: "keeps P s \<Longrightarrow> keeps P (given v s)"
  by (simp add: keeps_def given_def)

lemma keeps_assign: "(\<And>e kvs. r = Inr kvs \<Longrightarrow> P e \<Longrightarrow> P (dict_update kvs e)) \<Longrightarrow> keeps P (assign r)"
  by (auto simp: keeps_def assign_def split: sum.splits)

lemma keeps_field: "(\<And>e v. r = Inr v \<Longrightarrow> P e \<Longrightarrow> P (AList.update k (f v) e)) \<Longrightarrow> keeps P (field k f r)"
  unfolding field_def by (rule keeps_assign) (auto simp: ebind_Inr_conv)

lemma one_of_Inr [simp]: "one_of valid err s = Inr t \<longleftrightarrow> s \<in> set valid \<and> t = s"
  by (auto simp: one_of_def)

lemma lifecycle_state_valid:
  "normalize_prompt_lifecycle_state v = Inr s \<Longrightarrow> s \<in> set VALID_PROMPT_LIFECYCLE_STATES"
  by (auto simp: normalize_prompt_lifecycle_state_def Let_def LEGACY_PROMPT_STATES_def VALID_PROMPT_LIFECYCLE_STATES_def
      split: option.splits if_splits)

lemma valid_states_plain:
  "list_all (\<lambda>s. s \<noteq> [] \<and> py_strip s = s \<and> py_lower s = s \<and> normalize_prompt_lifecycle_state (PStr s) = Inr s)
     VALID_PROMPT_LIFECYCLE_STATES"
  by code_simp

lemma lifecycle_state_fixed:
  "s \<in> set VALID_PROMPT_LIFECYCLE_STATES \<Longrightarrow> normalize_prompt_lifecycle_state (PStr s) = Inr s"
  using valid_states_plain by (auto simp: list_all_iff)

lemma valid_scopes_plain:
  "list_all (\<lambda>s. s \<noteq> [] \<and> normalize_prompt_access_scope (PStr s) = Inr s) VALID_PROMPT_ACCESS_SCOPES"
  by code_simp

lemma valid_privacy_plain:
  "list_all (\<lambda>s. s \<noteq> [] \<and> normalize_prompt_privacy_class (PStr s) = Inr s) VALID_PROMPT_PRIVACY_CLASSES"
  by code_simp

lemma access_scope_valid: "normalize_prompt_access_scope v = Inr s \<Longrightarrow> s \<in> set VALID_PROMPT_ACCESS_SCOPES"
  by (simp add: normalize_prompt_access_scope_def)

lemma privacy_class_valid: "normalize_prompt_privacy_class v = Inr s \<Longrightarrow> s \<in> set VALID_PROMPT_PRIVACY_CLASSES"
  by (simp add: normalize_prompt_privacy_class_def)

lemma registered_family_valid: "registered_task_family v = Inr t \<Longrightarrow> t \<in> set CANONICAL_TASK_FAMILIES"
  by (auto simp: registered_task_family_def ebind_Inr_conv Let_def split: if_splits)

lemma canonical_family_plain:
  assumes "t \<in> set CANONICAL_TASK_FAMILIES" shows "t \<noteq> []" and "py_strip t = t"
  using assms canonical_families_ids family_id_text_plain by (auto simp: list_all_iff)

lemma non_empty_text: "non_empty n v = Inr t \<Longrightarrow> t \<noteq> [] \<and> py_strip t = t"
  by (auto simp: non_empty_def Let_def norm_string_stripped split: if_splits)

text \<open>Normalised constraints can be normalised again.\<close>

lemma constraints_again:
  assumes "normalize_prompt_constraints v = Inr c"
  shows "\<exists>c'. normalize_prompt_constraints c = Inr c'"
proof -
  let ?p = "as_dict v"
  obtain t r i m where
    t: "normalize_max_timeout (dget ?p ''max_timeout_s'') = Inr t"
    and r: "normalize_prompt_routing_policy (dget ?p ''routing_policy'') = Inr r"
    and i: "normalize_prompt_importance_policy (dget ?p ''importance'') = Inr i"
    and m: "normalize_prompt_image_template (dget ?p ''image_template'') = Inr m"
    and c: "dget (as_dict c) ''max_timeout_s'' = t" "dget (as_dict c) ''routing_policy'' = r"
      "dget (as_dict c) ''importance'' = i" "dget (as_dict c) ''image_template'' = m"
    using assms by (auto simp: normalize_prompt_constraints_def Let_def ebind_Inr_conv dget_Cons)
  have t': "\<exists>x. normalize_max_timeout t = Inr x"
    using t by (auto simp: normalize_max_timeout_def ebind_Inr_conv split: if_splits)
  have modes: "list_all (\<lambda>s. py_lower (py_strip s) = s) VALID_PROMPT_ROUTING_POLICY_MODES"
    and levels: "list_all (\<lambda>s. s \<noteq> [] \<and> py_lower (py_strip s) = s) VALID_PROMPT_IMPORTANCE_LEVELS" by code_simp+
  have r': "\<exists>x. normalize_prompt_routing_policy r = Inr x"
    using r modes by (auto simp: normalize_prompt_routing_policy_def Let_def ebind_Inr_conv dget_Cons list_all_iff one_of_def
        split: if_splits)
  obtain l where l: "l \<in> set VALID_PROMPT_IMPORTANCE_LEVELS" and i_eq: "i = PDict [(''level'', PStr l)]"
    using i by (auto simp: normalize_prompt_importance_policy_def ebind_Inr_conv)
  then have i': "\<exists>x. normalize_prompt_importance_policy i = Inr x"
    using levels by (simp add: normalize_prompt_importance_policy_def dget_Cons list_all_iff str_or_def one_of_def)
  have runtimes: "list_all (\<lambda>s. optional_string (PStr s) = Some s) VALID_IMAGE_TEMPLATE_RUNTIMES" by code_simp
  have m': "\<exists>x. normalize_prompt_image_template m = Inr x"
    using m runtimes
    by (auto simp: normalize_prompt_image_template_def Let_def dget_Cons list_all_iff optional_string_def
        split: option.splits if_splits)
  from t' r' i' m' show ?thesis
    by (auto simp: normalize_prompt_constraints_def Let_def c)
qed

end
