(* ===== verification/Prompt_Registry.thy ===== *)
theory Prompt_Registry
  imports Prompts
begin

text \<open>
  The prompt registry (\<open>prompts/registry.py\<close>) over its state store
  (\<open>persistence/prompt_service_state_store.py\<close>).

  The registry keeps a dict with the list of entries, changes an entry of it in place and then
  saves: the whole state is normalised, kept, normalised again by the store and written. The file
  is the value a reader gets back from it; that a write may fail and the order in which the
  writer sorts the keys are left out. A registry without a store has no file.
\<close>

section \<open>Normalising the stored state\<close>

definition is_non_empty_string :: "pyval \<Rightarrow> bool" where
  "is_non_empty_string v = (case v of PStr s \<Rightarrow> py_strip s \<noteq> [] | _ \<Rightarrow> False)"

text \<open>\<open>max(int(v or 0), 0)\<close>.\<close>

definition usage_count :: "pyval \<Rightarrow> int result" where
  "usage_count v = ebind (py_int (py_or v (PInt 0))) (\<lambda>i. Inr (max i 0))"

definition normalize_usage :: "pyval \<Rightarrow> pyval result" where
  "normalize_usage v =
     (let payload = as_dict v
      in ebind (usage_count (dget payload ''execution_count'')) (\<lambda>execution.
         ebind (usage_count (dget payload ''success_count'')) (\<lambda>success.
         ebind (usage_count (dget payload ''failure_count'')) (\<lambda>failure.
         ebind (usage_count (dget payload ''denial_count'')) (\<lambda>denial.
         Inr (PDict
           [(''execution_count'', PInt execution), (''success_count'', PInt success),
            (''failure_count'', PInt failure), (''denial_count'', PInt denial),
            (''last_used_at'', dget payload ''last_used_at''),
            (''last_denial_reason'', dget payload ''last_denial_reason''),
            (''last_denied_at'', dget payload ''last_denied_at''),
            (''last_failure_reason'', dget payload ''last_failure_reason''),
            (''last_failure_at'', dget payload ''last_failure_at''),
            (''last_execution_status'', dget payload ''last_execution_status'')]))))))"

text \<open>\<open>str(a or b or now)\<close>.\<close>

definition str_first :: "pyval list \<Rightarrow> string \<Rightarrow> string" where
  "str_first vs now = (case filter truthy vs of [] \<Rightarrow> now | v # _ \<Rightarrow> py_str v)"

definition fallback_version_entry :: "string \<Rightarrow> pydict \<Rightarrow> pyval \<Rightarrow> pyval result" where
  "fallback_version_entry now entry metadata =
     ebind (normalize_prompt_version True
              (py_or (dget entry ''current_version'') (py_or (dget entry ''version'') (PStr ''v1'')))) (\<lambda>v.
     Inr (PDict
       [(''version'', PStr v),
        (''definition'', PDict [(''system_prompt'', PNone), (''prompt_template'', PNone),
                               (''template_variables'', PList []), (''default_inputs'', PDict [])]),
        (''metadata'', metadata),
        (''created_at'', PStr (str_first [dget entry ''registered_at'', dget entry ''updated_at''] now))]))"

definition normalize_version_entry :: "string \<Rightarrow> pydict \<Rightarrow> string \<Rightarrow> pydict \<Rightarrow> pydict result" where
  "normalize_version_entry now entry v version_entry =
     (let definition = as_dict (dget version_entry ''definition'')
      in ebind (py_list (py_or (dget definition ''template_variables'') (PList []))) (\<lambda>variables.
         Inr
           [(''version'', PStr v),
            (''definition'', PDict
              [(''system_prompt'', dget definition ''system_prompt''),
               (''prompt_template'', dget definition ''prompt_template''),
               (''template_variables'', PList variables),
               (''default_inputs'', py_or (dget definition ''default_inputs'') (PDict []))]),
            (''metadata'', normalize_mapping (dget version_entry ''metadata'')),
            (''created_at'', PStr (str_first [dget version_entry ''created_at'', dget entry ''updated_at''] now))]))"

fun version_entries_onto :: "string \<Rightarrow> pydict \<Rightarrow> pydict list \<Rightarrow> pyval list \<Rightarrow> pydict list result" where
  "version_entries_onto now entry normalized [] = Inr normalized"
| "version_entries_onto now entry normalized (item # items) =
     (case item of
        PDict d \<Rightarrow>
          ebind (normalize_prompt_version True (dget d ''version'')) (\<lambda>v.
          if list_ex (\<lambda>n. dget n ''version'' = PStr v) normalized
          then Inl (ValueError ''prompt_version_alias_conflict'')
          else ebind (normalize_version_entry now entry v d) (\<lambda>n.
               version_entries_onto now entry (normalized @ [n]) items))
      | _ \<Rightarrow> version_entries_onto now entry normalized items)"

definition normalize_versions :: "string \<Rightarrow> pydict \<Rightarrow> pyval \<Rightarrow> pyval list result" where
  "normalize_versions now entry fallback_metadata =
     (let held = as_list (dget entry ''versions'')
      in if held = [] then ebind (fallback_version_entry now entry fallback_metadata) (\<lambda>v. Inr [v])
         else ebind (version_entries_onto now entry [] held) (\<lambda>vs. Inr (map PDict vs)))"

text \<open>An entry of the first schema is made anew from the few fields it has.\<close>

definition no_args :: prompt_args where
  "no_args = \<lparr>pa_prompt_name = PNone, pa_owner_service = PNone, pa_owner_client_id = PNone, pa_task_family = PNone,
     pa_privacy_class = PNone, pa_access_scope = PNone, pa_allowed_services = PNone, pa_allowed_clients = PNone,
     pa_allowed_customers = PNone, pa_execution_policy = PNone, pa_provider_preferences = PNone,
     pa_constraints = PNone, pa_metadata = PNone, pa_definition = PNone, pa_version = PNone\<rparr>"

definition upgrade_entry :: "string \<Rightarrow> pydict \<Rightarrow> pydict result" where
  "upgrade_entry now entry =
     (if norm_string (dget entry ''schema_version'') = ''1.0'' \<and> is_non_empty_string (dget entry ''prompt_id'')
      then create_prompt_service_registration now (PStr (py_str (dget entry ''prompt_id'')))
             (PStr (py_str (dget entry ''service_id''))) (PStr (py_str (py_or (dget entry ''status'') (PStr ''active''))))
             (no_args\<lparr>pa_task_family := PStr (py_str (dget entry ''task_family'')),
                      pa_privacy_class := PStr ''internal'', pa_access_scope := PStr ''service'',
                      pa_metadata := normalize_mapping (dget entry ''metadata'')\<rparr>)
      else Inr entry)"

text \<open>\<open>str(v or d).strip() or d\<close> for a text \<open>d\<close>.\<close>

definition text_or :: "pyval \<Rightarrow> string \<Rightarrow> string" where
  "text_or v d = (let t = py_strip (str_or v d) in if t = [] then d else t)"

definition current_version_of :: "pydict \<Rightarrow> pyval list \<Rightarrow> pyval result" where
  "current_version_of entry versions =
     (if norm_string (dget entry ''current_version'') \<noteq> []
      then ebind (normalize_prompt_version True (PStr (norm_string (dget entry ''current_version''))))
             (\<lambda>v. Inr (PStr v))
      else if versions = [] then Inl IndexError
      else Inr (PStr (py_str (dget (as_dict (last versions)) ''version''))))"

definition normalize_entry :: "string \<Rightarrow> pyval \<Rightarrow> pydict result" where
  "normalize_entry now v =
     (case v of
        PDict given_entry \<Rightarrow>
          ebind (upgrade_entry now given_entry) (\<lambda>entry.
          let prompt_id = norm_string (dget entry ''prompt_id'');
              service_id = norm_string (dget entry ''service_id'');
              task_family = norm_string (dget entry ''task_family'');
              metadata = normalize_mapping (dget entry ''metadata'');
              registered_at = str_first [dget entry ''registered_at'', dget entry ''updated_at''] now;
              updated_at = str_first [dget entry ''updated_at''] registered_at
          in if prompt_id = [] \<or> service_id = [] \<or> task_family = []
             then Inl (ValueError ''invalid_prompt_service_entry'')
             else
               ebind (normalize_prompt_access_policy (py_or (dget entry ''access_scope'') (PStr ''service''))
                  (dget entry ''owner_client_id'') (dget entry ''allowed_services'') (dget entry ''allowed_clients'')
                  (dget entry ''allowed_customers'')) (\<lambda>access.
               ebind (normalize_prompt_lifecycle_state (py_or (dget entry ''status'') (PStr ''active''))) (\<lambda>status.
               ebind (normalize_prompt_privacy_class (py_or (dget entry ''privacy_class'') (PStr ''internal''))) (\<lambda>privacy.
               ebind (normalize_prompt_constraints (dget entry ''constraints'')) (\<lambda>constraints.
               ebind (normalize_versions now entry metadata) (\<lambda>versions.
               ebind (current_version_of entry versions) (\<lambda>current_version.
               ebind (normalize_usage (dget entry ''usage'')) (\<lambda>usage.
               Inr (dict_update
                 [(''prompt_id'', PStr prompt_id),
                  (''prompt_name'', PStr (text_or (dget entry ''prompt_name'') prompt_id)),
                  (''service_id'', PStr service_id),
                  (''owner_service'', PStr (text_or (dget entry ''owner_service'') service_id)),
                  (''owner_client_id'', opt_str (ap_owner_client_id access)),
                  (''task_family'', PStr task_family),
                  (''status'', PStr status),
                  (''privacy_class'', PStr privacy),
                  (''access_scope'', PStr (ap_access_scope access)),
                  (''allowed_services'', ap_allowed_services access),
                  (''allowed_clients'', ap_allowed_clients access),
                  (''allowed_customers'', ap_allowed_customers access),
                  (''execution_policy'', normalize_execution_policy (dget entry ''execution_policy'')),
                  (''provider_preferences'', normalize_provider_preferences (dget entry ''provider_preferences'')),
                  (''constraints'', constraints),
                  (''metadata'', metadata),
                  (''versions'', PList versions),
                  (''current_version'', current_version),
                  (''registered_at'', PStr registered_at),
                  (''updated_at'', PStr updated_at),
                  (''last_reviewed_at'', opt_str (optional_string (dget entry ''last_reviewed_at''))),
                  (''reviewed_by'', opt_str (optional_string (dget entry ''reviewed_by''))),
                  (''review_reason'', opt_str (optional_string (dget entry ''review_reason''))),
                  (''retired_at'', dget entry ''retired_at''),
                  (''lifecycle_history'',
                    if as_list (dget entry ''lifecycle_history'') = []
                    then PList [history_item status ''migrated'' updated_at]
                    else dget entry ''lifecycle_history''),
                  (''usage'', usage)] entry)))))))))
      | _ \<Rightarrow> Inl (ValueError ''invalid_prompt_service_entry''))"

fun normalize_entries :: "string \<Rightarrow> pyval list \<Rightarrow> pydict list result" where
  "normalize_entries now [] = Inr []"
| "normalize_entries now (v # vs) =
     ebind (normalize_entry now v) (\<lambda>e. ebind (normalize_entries now vs) (\<lambda>es. Inr (e # es)))"

section \<open>The probation index\<close>

fun probation_index ::
    "string list \<Rightarrow> (string \<times> string) list \<Rightarrow> pydict list \<Rightarrow> (string list \<times> (string \<times> string) list) result" where
  "probation_index ids reasons [] = Inr (ids, reasons)"
| "probation_index ids reasons (e # es) =
     (let prompt_id = norm_string (dget e ''prompt_id''); history = as_list (dget e ''lifecycle_history'')
      in if py_lower (norm_string (dget e ''status'')) \<noteq> ''probation'' \<or> prompt_id = []
         then probation_index ids reasons es
         else if history = [] then probation_index (ids @ [prompt_id]) reasons es
         else ebind (vget (last history) ''reason'') (\<lambda>r.
              probation_index (ids @ [prompt_id])
                (if norm_string r = [] then reasons else AList.update prompt_id (norm_string r) reasons) es))"

definition create_prompt_service_state :: "string \<Rightarrow> pydict" where
  "create_prompt_service_state now =
     [(''schema_version'', PStr ''2.0''), (''prompt_services'', PList []),
      (''probation'', PDict [(''active_prompt_ids'', PList []), (''reasons'', PDict []), (''updated_at'', PStr now)]),
      (''updated_at'', PStr now)]"

definition normalize_prompt_service_state :: "string \<Rightarrow> pyval \<Rightarrow> pydict result" where
  "normalize_prompt_service_state now data =
     (case data of
        PDict payload \<Rightarrow>
          if norm_string (dget payload ''schema_version'') \<notin> {''1.0'', ''2.0''}
          then Inl (ValueError ''invalid_schema_version'')
          else (case dget payload ''prompt_services'' of
              PList entries \<Rightarrow>
                ebind (normalize_entries now entries) (\<lambda>es.
                ebind (probation_index [] [] es) (\<lambda>(ids, reasons).
                Inr
                  [(''schema_version'', PStr ''2.0''),
                   (''prompt_services'', PList (map PDict es)),
                   (''probation'', PDict
                     [(''active_prompt_ids'', PList (map PStr (sort (remdups ids)))),
                      (''reasons'', PDict (map (\<lambda>(k, r). (k, PStr r)) reasons)),
                      (''updated_at'', PStr now)]),
                   (''updated_at'', PStr (str_first [dget payload ''updated_at''] now))]))
            | _ \<Rightarrow> Inl (ValueError ''invalid_prompt_services''))
      | _ \<Rightarrow> Inl (ValueError ''invalid_prompt_service_state_object''))"

section \<open>The store\<close>

text \<open>\<open>validate_prompt_service_state\<close>: a \<open>ValueError\<close> is reported, other exceptions pass.\<close>

definition validate_prompt_service_state :: "string \<Rightarrow> pyval \<Rightarrow> string option result" where
  "validate_prompt_service_state now data =
     (case normalize_prompt_service_state now data of
        Inr _ \<Rightarrow> Inr None
      | Inl (ValueError m) \<Rightarrow> Inr (Some m)
      | Inl x \<Rightarrow> Inl x)"

definition store_save :: "string \<Rightarrow> pydict \<Rightarrow> pyval result" where
  "store_save now payload =
     (case normalize_prompt_service_state now (PDict payload) of
        Inr normalized \<Rightarrow> Inr (PDict normalized)
      | Inl (ValueError m) \<Rightarrow> Inl (ValueError (''cannot save invalid prompt service state: '' @ m))
      | Inl x \<Rightarrow> Inl x)"

text \<open>Reading a file: the value in it, if there is one that is JSON.\<close>

definition store_load :: "string \<Rightarrow> pyval option \<Rightarrow> pydict option result" where
  "store_load now file =
     (case file of
        None \<Rightarrow> Inr None
      | Some v \<Rightarrow>
          (case normalize_prompt_service_state now v of
             Inr normalized \<Rightarrow> Inr (Some normalized)
           | Inl (ValueError _) \<Rightarrow> Inr None
           | Inl x \<Rightarrow> Inl x))"

definition store_load_or_create :: "string \<Rightarrow> pyval option \<Rightarrow> (pyval option \<times> pydict) result" where
  "store_load_or_create now file =
     ebind (store_load now file) (\<lambda>loaded.
     case loaded of
       Some payload \<Rightarrow> Inr (file, payload)
     | None \<Rightarrow>
         let created = create_prompt_service_state now
         in ebind (store_save now created) (\<lambda>v. Inr (Some v, created)))"

section \<open>The registry\<close>

record prompt_registry =
  pr_state :: pydict
  pr_has_store :: bool
  pr_file :: "pyval option"

type_synonym 'a registry_op = "prompt_registry \<Rightarrow> prompt_registry \<times> 'a result"

definition load_registry :: "string \<Rightarrow> bool \<Rightarrow> pyval option \<Rightarrow> prompt_registry result" where
  "load_registry now has_store file =
     (if \<not> has_store
      then ebind (normalize_prompt_service_state now
              (PDict [(''schema_version'', PStr ''2.0''), (''prompt_services'', PList []), (''updated_at'', PNone)]))
            (\<lambda>s. Inr \<lparr>pr_state = s, pr_has_store = False, pr_file = None\<rparr>)
      else
        ebind (store_load_or_create now file) (\<lambda>(file', loaded).
        ebind (normalize_prompt_service_state now (PDict loaded)) (\<lambda>normalized.
        ebind (store_save now normalized) (\<lambda>written.
        Inr \<lparr>pr_state = normalized, pr_has_store = True, pr_file = Some written\<rparr>))))"

definition save :: "string \<Rightarrow> pydict registry_op" where
  "save now R =
     (case normalize_prompt_service_state now (PDict (pr_state R)) of
        Inl x \<Rightarrow> (R, Inl x)
      | Inr s \<Rightarrow>
          let R' = R\<lparr>pr_state := s\<rparr>
          in if \<not> pr_has_store R then (R', Inr s)
             else (case store_save now s of
                     Inl x \<Rightarrow> (R', Inl x)
                   | Inr v \<Rightarrow> (R'\<lparr>pr_file := Some v\<rparr>, Inr s)))"

definition entries :: "prompt_registry \<Rightarrow> pyval list" where
  "entries R = as_list (dget (pr_state R) ''prompt_services'')"

definition set_entries :: "pyval list \<Rightarrow> prompt_registry \<Rightarrow> prompt_registry" where
  "set_entries vs R = R\<lparr>pr_state := AList.update ''prompt_services'' (PList vs) (pr_state R)\<rparr>"

definition set_entry :: "nat \<Rightarrow> pydict \<Rightarrow> prompt_registry \<Rightarrow> prompt_registry" where
  "set_entry i e R = set_entries ((entries R)[i := PDict e]) R"

definition touch :: "pyval \<Rightarrow> prompt_registry \<Rightarrow> prompt_registry" where
  "touch t R = R\<lparr>pr_state := AList.update ''updated_at'' t (pr_state R)\<rparr>"

definition get_prompt :: "pyval \<Rightarrow> prompt_registry \<Rightarrow> pydict result" where
  "get_prompt prompt_id R =
     (case find_prompt_entry (PDict (pr_state R)) prompt_id of
        None \<Rightarrow> Inl (ValueError ''prompt_id is not registered'')
      | Some (_, e) \<Rightarrow> Inr e)"

definition list_prompts :: "prompt_registry \<Rightarrow> pyval list result" where
  "list_prompts R = py_list (py_or (dget (pr_state R) ''prompt_services'') (PList []))"

text \<open>The common shape of the operations on one entry: find it, run the step on it, take over its
  time and save. A step that raises leaves its changes in the state, unsaved.\<close>

definition on_entry :: "string \<Rightarrow> pyval \<Rightarrow> entry_step \<Rightarrow> pydict registry_op" where
  "on_entry now prompt_id step R =
     (case find_prompt_entry (PDict (pr_state R)) prompt_id of
        None \<Rightarrow> (R, Inl (ValueError ''prompt_id is not registered''))
      | Some (i, e) \<Rightarrow>
          (case step e of
             (e', Some x) \<Rightarrow> (set_entry i e' R, Inl x)
           | (e', None) \<Rightarrow>
               (case map_of e' ''updated_at'' of
                  None \<Rightarrow> (set_entry i e' R, Inl (KeyError ''updated_at''))
                | Some t \<Rightarrow> save now (touch t (set_entry i e' R)))))"

definition update_prompt :: "string \<Rightarrow> pyval \<Rightarrow> prompt_args \<Rightarrow> pydict registry_op" where
  "update_prompt now prompt_id a = on_entry now prompt_id (update_prompt_service_definition now a)"

definition review_prompt :: "string \<Rightarrow> pyval \<Rightarrow> pyval \<Rightarrow> pyval \<Rightarrow> pyval \<Rightarrow> pydict registry_op" where
  "review_prompt now prompt_id reviewed_by review_reason state =
     on_entry now prompt_id (record_prompt_review now reviewed_by review_reason state)"

definition transition_prompt :: "string \<Rightarrow> pyval \<Rightarrow> pyval \<Rightarrow> pyval \<Rightarrow> pydict registry_op" where
  "transition_prompt now prompt_id state reason =
     on_entry now prompt_id (transition_prompt_lifecycle now state reason)"

definition update_probation :: "string \<Rightarrow> pyval \<Rightarrow> pyval \<Rightarrow> pyval \<Rightarrow> pydict registry_op" where
  "update_probation now prompt_id action reason =
     on_entry now prompt_id (apply_probation_transition now action reason)"

definition create_prompt :: "string \<Rightarrow> pyval \<Rightarrow> pyval \<Rightarrow> pyval \<Rightarrow> prompt_args \<Rightarrow> pydict registry_op" where
  "create_prompt now prompt_id service_id status a R =
     (let found = find_prompt_entry (PDict (pr_state R)) prompt_id;
          free = (case found of
             None \<Rightarrow> Inr ()
           | Some (_, e) \<Rightarrow>
               ebind (normalize_prompt_lifecycle_state (py_or (dget e ''status'') (PStr ''active'')))
                 (\<lambda>s. if s \<noteq> ''retired'' then Inl (ValueError ''duplicate_prompt_id'') else Inr ()))
      in case ebind free (\<lambda>_. create_prompt_service_registration now prompt_id service_id status a) of
           Inl x \<Rightarrow> (R, Inl x)
         | Inr registration \<Rightarrow>
             (case found of
                Some (i, _) \<Rightarrow> save now (touch (dget registration ''updated_at'') (set_entry i registration R))
              | None \<Rightarrow>
                  (case map_of (pr_state R) ''prompt_services'' of
                     None \<Rightarrow> save now (touch (dget registration ''updated_at'') (set_entries [PDict registration] R))
                   | Some (PList vs) \<Rightarrow>
                       save now (touch (dget registration ''updated_at'') (set_entries (vs @ [PDict registration]) R))
                   | Some _ \<Rightarrow> (R, Inl AttributeError))))"

text \<open>The bulk migration: the entries as it leaves them, how many changed, the latest time, and the
  exception it raised.\<close>

fun migrate_entries ::
    "string \<Rightarrow> pyval \<Rightarrow> pyval \<Rightarrow> pyval list \<Rightarrow> pyval list \<times> nat \<times> pyval \<times> exn option" where
  "migrate_entries now reason latest [] = ([], 0, latest, None)"
| "migrate_entries now reason latest (v # vs) =
     (case v of
        PDict e \<Rightarrow>
          (case normalize_prompt_lifecycle_state (py_or (dget e ''status'') (PStr ''active'')) of
             Inl x \<Rightarrow> (v # vs, 0, latest, Some x)
           | Inr current_state \<Rightarrow>
               if current_state \<in> {''retired'', ''expired''}
               then (let (vs', n, l, x) = migrate_entries now reason latest vs in (v # vs', n, l, x))
               else if current_state \<noteq> ''review_due''
               then
                 (case transition_prompt_lifecycle now (PStr ''review_due'') reason e of
                    (e', Some x) \<Rightarrow> (PDict e' # vs, 0, latest, Some x)
                  | (e', None) \<Rightarrow>
                      (let (vs', n, l, x) = migrate_entries now reason (py_or (dget e' ''updated_at'') latest) vs
                       in (PDict e' # vs', Suc n, l, x)))
               else (let (vs', n, l, x) = migrate_entries now reason (py_or (dget e ''updated_at'') latest) vs
                     in (v # vs', n, l, x)))
      | _ \<Rightarrow> (let (vs', n, l, x) = migrate_entries now reason latest vs in (v # vs', n, l, x)))"

definition migrate_all_to_review_due :: "string \<Rightarrow> pyval \<Rightarrow> (nat \<times> pydict) registry_op" where
  "migrate_all_to_review_due now reason R =
     (case migrate_entries now reason PNone (entries R) of
        (vs, n, latest, x) \<Rightarrow>
          let R' = set_entries vs R
          in (case x of
                Some e \<Rightarrow> (R', Inl e)
              | None \<Rightarrow>
                  (case save now (if latest = PNone then R' else touch latest R') of
                     (R'', Inl e) \<Rightarrow> (R'', Inl e)
                   | (R'', Inr s) \<Rightarrow> (R'', Inr (n, s)))))"

section \<open>Usage\<close>

text \<open>\<open>usage[k] = max(int(usage.get(k) or 0), 0) + 1\<close>, for the keys in order, then plain fields.\<close>

definition counted :: "string \<Rightarrow> pydict \<Rightarrow> pydict \<times> exn option" where
  "counted k u =
     (case usage_count (dget u k) of Inl x \<Rightarrow> (u, Some x) | Inr n \<Rightarrow> (AList.update k (PInt (n + 1)) u, None))"

text \<open>A step on the usage of an entry, which is created if it is missing.\<close>

definition on_usage :: "entry_step \<Rightarrow> exn \<Rightarrow> entry_step" where
  "on_usage step not_dict e =
     (case (case map_of e ''usage'' of None \<Rightarrow> PDict [] | Some u \<Rightarrow> u) of
        PDict u \<Rightarrow> (case step u of (u', x) \<Rightarrow> (AList.update ''usage'' (PDict u') e, x))
      | _ \<Rightarrow> (e, Some not_dict))"

definition authorization_step :: "bool \<Rightarrow> pyval \<Rightarrow> pyval \<Rightarrow> entry_step" where
  "authorization_step allowed reason used_at =
     run_steps
       [on_usage
          (if allowed then assign (Inr [(''last_used_at'', used_at)])
           else run_steps [counted ''denial_count'',
                           assign (Inr [(''last_denial_reason'', reason), (''last_denied_at'', used_at)])])
          (if allowed then TypeError else AttributeError),
        assign (Inr [(''updated_at'', used_at)])]"

definition execution_step :: "pyval \<Rightarrow> pyval \<Rightarrow> pyval \<Rightarrow> entry_step" where
  "execution_step status recorded_at error_code =
     run_steps
       [on_usage
          (run_steps
            [counted ''execution_count'',
             assign (Inr [(''last_used_at'', recorded_at), (''last_execution_status'', status)]),
             if status = PStr ''completed'' then counted ''success_count''
             else run_steps [counted ''failure_count'',
                             assign (Inr [(''last_failure_reason'', error_code), (''last_failure_at'', recorded_at)])]])
          AttributeError,
        assign (Inr [(''updated_at'', recorded_at)])]"

text \<open>Recording is silent for an unknown prompt.\<close>

definition record_on_entry :: "string \<Rightarrow> pyval \<Rightarrow> pyval \<Rightarrow> entry_step \<Rightarrow> unit registry_op" where
  "record_on_entry now prompt_id t step R =
     (case find_prompt_entry (PDict (pr_state R)) prompt_id of
        None \<Rightarrow> (R, Inr ())
      | Some (i, e) \<Rightarrow>
          (case step e of
             (e', Some x) \<Rightarrow> (set_entry i e' R, Inl x)
           | (e', None) \<Rightarrow>
               (case save now (touch t (set_entry i e' R)) of
                  (R', Inl x) \<Rightarrow> (R', Inl x) | (R', Inr _) \<Rightarrow> (R', Inr ()))))"

definition record_authorization :: "string \<Rightarrow> pyval \<Rightarrow> bool \<Rightarrow> pyval \<Rightarrow> pyval \<Rightarrow> unit registry_op" where
  "record_authorization now prompt_id allowed reason used_at =
     record_on_entry now prompt_id used_at (authorization_step allowed reason used_at)"

definition record_execution :: "string \<Rightarrow> pyval \<Rightarrow> pyval \<Rightarrow> pyval \<Rightarrow> pyval \<Rightarrow> unit registry_op" where
  "record_execution now prompt_id status recorded_at error_code =
     record_on_entry now prompt_id recorded_at (execution_step status recorded_at error_code)"

section \<open>Well-formed entries\<close>

text \<open>What holds of every entry the registry makes itself: an id, a service and a known family, a
  valid state that is the last one of its history, canonical and distinct versions with the current
  one among them, and counters that add up.\<close>

definition id_ok :: "pyval \<Rightarrow> bool" where
  "id_ok v = (case v of PStr s \<Rightarrow> s \<noteq> [] \<and> py_strip s = s | _ \<Rightarrow> False)"

definition text_in :: "string list \<Rightarrow> pyval \<Rightarrow> bool" where
  "text_in valid v = (case v of PStr s \<Rightarrow> s \<in> set valid | _ \<Rightarrow> False)"

definition history_ok :: "pyval \<Rightarrow> pyval \<Rightarrow> bool" where
  "history_ok status history =
     (as_list history \<noteq> [] \<and> is_dict (last (as_list history)) \<and>
      dget (as_dict (last (as_list history))) ''state'' = status)"

definition version_name :: "pyval \<Rightarrow> pyval" where
  "version_name item = dget (as_dict item) ''version''"

definition version_item_ok :: "pyval \<Rightarrow> bool" where
  "version_item_ok item =
     (is_dict item \<and> (case version_name item of PStr s \<Rightarrow> canonical_version s | _ \<Rightarrow> False) \<and>
      (case dget (as_dict (dget (as_dict item) ''definition'')) ''template_variables'' of PList _ \<Rightarrow> True | _ \<Rightarrow> False))"

definition versions_ok :: "pyval \<Rightarrow> pyval \<Rightarrow> bool" where
  "versions_ok versions current =
     (list_all version_item_ok (as_list versions) \<and> distinct (map version_name (as_list versions)) \<and>
      current \<in> set (map version_name (as_list versions)))"

definition usage_ok :: "pyval \<Rightarrow> bool" where
  "usage_ok v =
     (is_dict v \<and>
      (case (dget (as_dict v) ''execution_count'', dget (as_dict v) ''success_count'',
             dget (as_dict v) ''failure_count'', dget (as_dict v) ''denial_count'') of
         (PInt e, PInt s, PInt f, PInt d) \<Rightarrow> 0 \<le> s \<and> 0 \<le> f \<and> 0 \<le> d \<and> e = s + f
       | _ \<Rightarrow> False))"

definition constraints_ok :: "pyval \<Rightarrow> bool" where
  "constraints_ok v = (case normalize_prompt_constraints v of Inr _ \<Rightarrow> True | Inl _ \<Rightarrow> False)"

definition entry_ok :: "pydict \<Rightarrow> bool" where
  "entry_ok e =
     (dget e ''schema_version'' = PNone \<and> map_of e ''updated_at'' \<noteq> None \<and>
      id_ok (dget e ''prompt_id'') \<and> id_ok (dget e ''service_id'') \<and>
      text_in CANONICAL_TASK_FAMILIES (dget e ''task_family'') \<and>
      text_in VALID_PROMPT_LIFECYCLE_STATES (dget e ''status'') \<and>
      history_ok (dget e ''status'') (dget e ''lifecycle_history'') \<and>
      text_in VALID_PROMPT_ACCESS_SCOPES (dget e ''access_scope'') \<and>
      text_in VALID_PROMPT_PRIVACY_CLASSES (dget e ''privacy_class'') \<and>
      constraints_ok (dget e ''constraints'') \<and>
      versions_ok (dget e ''versions'') (dget e ''current_version'') \<and>
      usage_ok (dget e ''usage''))"

text \<open>The abstract view of an entry: its state, its versions and its counters.\<close>

record prompt_view =
  pv_status :: string
  pv_versions :: "string list"
  pv_current :: string
  pv_executions :: int
  pv_successes :: int
  pv_failures :: int
  pv_denials :: int

definition text_of :: "pyval \<Rightarrow> string" where
  "text_of v = (case v of PStr s \<Rightarrow> s | _ \<Rightarrow> [])"

definition count_of :: "pyval \<Rightarrow> string \<Rightarrow> int" where
  "count_of usage k = (case dget (as_dict usage) k of PInt i \<Rightarrow> i | _ \<Rightarrow> 0)"

definition counters :: "pyval \<Rightarrow> int list" where
  "counters usage =
     map (count_of usage) [''execution_count'', ''success_count'', ''failure_count'', ''denial_count'']"

definition view :: "pydict \<Rightarrow> prompt_view" where
  "view e =
     \<lparr>pv_status = text_of (dget e ''status''),
      pv_versions = map (\<lambda>v. text_of (version_name v)) (as_list (dget e ''versions'')),
      pv_current = text_of (dget e ''current_version''),
      pv_executions = count_of (dget e ''usage'') ''execution_count'',
      pv_successes = count_of (dget e ''usage'') ''success_count'',
      pv_failures = count_of (dget e ''usage'') ''failure_count'',
      pv_denials = count_of (dget e ''usage'') ''denial_count''\<rparr>"

subsection \<open>Normalising keeps them\<close>

lemma usage_count_fixed: "0 \<le> i \<Longrightarrow> usage_count (PInt i) = Inr i"
  by (simp add: usage_count_def py_or_def)

lemma normalize_usage_ok:
  assumes "usage_ok v" obtains v' where "normalize_usage v = Inr v'" and "usage_ok v'"
    and "counters v' = counters v"
proof -
  obtain e s f d where "dget (as_dict v) ''execution_count'' = PInt e" "dget (as_dict v) ''success_count'' = PInt s"
    "dget (as_dict v) ''failure_count'' = PInt f" "dget (as_dict v) ''denial_count'' = PInt d"
    "0 \<le> s" "0 \<le> f" "0 \<le> d" "e = s + f"
    using assms by (auto simp: usage_ok_def split: pyval.splits)
  then show ?thesis
    using that by (simp add: normalize_usage_def Let_def usage_count_fixed usage_ok_def is_dict_def dget_Cons counters_def count_of_def)
qed

lemma version_item_ok_cases:
  assumes "version_item_ok item"
  obtains d s vars where "item = PDict d" and "dget d ''version'' = PStr s" and "canonical_version s"
    and "dget (as_dict (dget d ''definition'')) ''template_variables'' = PList vars"
  using assms by (auto simp: version_item_ok_def is_dict_def version_name_def split: pyval.splits)

lemma normalize_version_entry_ok:
  assumes "dget (as_dict (dget d ''definition'')) ''template_variables'' = PList vars" and "canonical_version s"
  obtains n where "normalize_version_entry now entry s d = Inr n" and "version_item_ok (PDict n)"
    and "version_name (PDict n) = PStr s"
proof -
  have "py_list (py_or (PList vars) (PList [])) = Inr vars" by (auto simp: py_or_def)
  then show ?thesis
    using that assms by (simp add: normalize_version_entry_def Let_def version_item_ok_def version_name_def dget_Cons is_dict_def)
qed

lemma version_entries_onto_ok:
  assumes "list_all version_item_ok items" and "distinct (map version_name (map PDict acc @ items))"
  shows "\<exists>ns. version_entries_onto now entry acc items = Inr (acc @ ns) \<and> list_all version_item_ok (map PDict ns) \<and>
           map version_name (map PDict ns) = map version_name items"
  using assms
proof (induction items arbitrary: acc)
  case (Cons item items)
  then have "version_item_ok item" by simp
  then obtain d s vars where item: "item = PDict d" "dget d ''version'' = PStr s" "canonical_version s"
    and vars: "dget (as_dict (dget d ''definition'')) ''template_variables'' = PList vars"
    by (rule version_item_ok_cases)
  obtain n where n: "normalize_version_entry now entry s d = Inr n" "version_item_ok (PDict n)"
    "version_name (PDict n) = PStr s"
    using normalize_version_entry_ok [OF vars item(3)] .
  have nm: "version_name item = PStr s" using item by (simp add: version_name_def)
  have fresh: "\<not> list_ex (\<lambda>m. dget m ''version'' = PStr s) acc"
    using Cons.prems(2) item by (force simp: list_ex_iff version_name_def)
  have "distinct (map version_name (map PDict (acc @ [n]) @ items))"
    using Cons.prems(2) by (simp add: nm n(3))
  then obtain ns where "version_entries_onto now entry (acc @ [n]) items = Inr (acc @ n # ns)"
    "list_all version_item_ok (map PDict ns)" "map version_name (map PDict ns) = map version_name items"
    using Cons.IH [of "acc @ [n]"] Cons.prems(1) by auto
  moreover have "version_entries_onto now entry acc (item # items) = version_entries_onto now entry (acc @ [n]) items"
    using fresh n(1) normalize_canonical [OF item(3)] item by simp
  ultimately show ?case using n nm by (intro exI [of _ "n # ns"]) simp
qed simp

lemma normalize_versions_ok:
  assumes "versions_ok (dget entry ''versions'') c"
  obtains vs where "normalize_versions now entry md = Inr vs" and "versions_ok (PList vs) c"
    and "map version_name vs = map version_name (as_list (dget entry ''versions''))" and "vs \<noteq> []"
proof -
  let ?held = "as_list (dget entry ''versions'')"
  have ne: "?held \<noteq> []" using assms by (auto simp: versions_ok_def)
  obtain ns where "version_entries_onto now entry [] ?held = Inr ns"
    "list_all version_item_ok (map PDict ns)" "map version_name (map PDict ns) = map version_name ?held"
    using version_entries_onto_ok [of ?held "[]"] assms by (auto simp: versions_ok_def)
  moreover from this have "map PDict ns \<noteq> []" using ne by (metis map_is_Nil_conv)
  ultimately show ?thesis
    using that [of "map PDict ns"] assms ne by (simp add: normalize_versions_def versions_ok_def Let_def)
qed

lemma current_version_ok:
  assumes "versions_ok (dget entry ''versions'') (dget entry ''current_version'')"
  shows "current_version_of entry vs = Inr (dget entry ''current_version'')"
proof -
  obtain item where "version_item_ok item" and c: "dget entry ''current_version'' = version_name item"
    using assms by (auto simp: versions_ok_def list_all_iff)
  from this(1) obtain d s where "item = PDict d" "dget d ''version'' = PStr s" "canonical_version s"
    by (rule version_item_ok_cases)
  then have s: "dget entry ''current_version'' = PStr s" "canonical_version s"
    using c by (simp_all add: version_name_def)
  then have "s \<noteq> []" by (auto simp: canonical_version_def)
  then show ?thesis using s by (simp add: current_version_of_def canonical_stripped normalize_canonical)
qed

lemma text_in_cases: "text_in valid v \<Longrightarrow> (\<And>s. v = PStr s \<Longrightarrow> s \<in> set valid \<Longrightarrow> thesis) \<Longrightarrow> thesis"
  by (auto simp: text_in_def split: pyval.splits)

lemma id_ok_cases: "id_ok v \<Longrightarrow> (\<And>s. v = PStr s \<Longrightarrow> s \<noteq> [] \<Longrightarrow> py_strip s = s \<Longrightarrow> thesis) \<Longrightarrow> thesis"
  by (auto simp: id_ok_def split: pyval.splits)

lemma normalize_entry_ok:
  assumes "entry_ok e"
  obtains e' where "normalize_entry now (PDict e) = Inr e'" and "entry_ok e'"
    and "dget e' ''prompt_id'' = dget e ''prompt_id''" and "view e' = view e"
proof -
  have ok: "dget e ''schema_version'' = PNone" "constraints_ok (dget e ''constraints'')" "usage_ok (dget e ''usage'')"
    "versions_ok (dget e ''versions'') (dget e ''current_version'')" "history_ok (dget e ''status'') (dget e ''lifecycle_history'')"
    using assms by (simp_all add: entry_ok_def)
  obtain pid where pid: "dget e ''prompt_id'' = PStr pid" "pid \<noteq> []" "py_strip pid = pid"
    using assms by (auto simp: entry_ok_def elim: id_ok_cases)
  obtain sid where sid: "dget e ''service_id'' = PStr sid" "sid \<noteq> []" "py_strip sid = sid"
    using assms by (auto simp: entry_ok_def elim: id_ok_cases)
  obtain fam where fam: "dget e ''task_family'' = PStr fam" "fam \<in> set CANONICAL_TASK_FAMILIES"
    using assms by (auto simp: entry_ok_def elim: text_in_cases)
  obtain st where st: "dget e ''status'' = PStr st" "st \<in> set VALID_PROMPT_LIFECYCLE_STATES"
    using assms by (auto simp: entry_ok_def elim: text_in_cases)
  obtain sc where sc: "dget e ''access_scope'' = PStr sc" "sc \<in> set VALID_PROMPT_ACCESS_SCOPES"
    using assms by (auto simp: entry_ok_def elim: text_in_cases)
  obtain pc where pc: "dget e ''privacy_class'' = PStr pc" "pc \<in> set VALID_PROMPT_PRIVACY_CLASSES"
    using assms by (auto simp: entry_ok_def elim: text_in_cases)
  obtain c where c: "normalize_prompt_constraints (dget e ''constraints'') = Inr c"
    using ok(2) by (auto simp: constraints_ok_def split: sum.splits)
  obtain u where u: "normalize_usage (dget e ''usage'') = Inr u" "usage_ok u"
    and counts: "counters u = counters (dget e ''usage'')"
    using ok(3) by (rule normalize_usage_ok)
  obtain vs where vs: "normalize_versions now e (normalize_mapping (dget e ''metadata'')) = Inr vs"
    "versions_ok (PList vs) (dget e ''current_version'')"
    "map version_name vs = map version_name (as_list (dget e ''versions''))"
    using normalize_versions_ok [OF ok(4)] by metis
  have access: "\<exists>a. normalize_prompt_access_policy (py_or (dget e ''access_scope'') (PStr ''service''))
      (dget e ''owner_client_id'') (dget e ''allowed_services'') (dget e ''allowed_clients'')
      (dget e ''allowed_customers'') = Inr a \<and> ap_access_scope a = sc"
    using sc valid_scopes_plain by (auto simp: py_or_def normalize_prompt_access_policy_def list_all_iff)
  have status: "normalize_prompt_lifecycle_state (py_or (dget e ''status'') (PStr ''active'')) = Inr st"
    using st valid_states_plain by (auto simp: py_or_def list_all_iff)
  have privacy: "normalize_prompt_privacy_class (py_or (dget e ''privacy_class'') (PStr ''internal'')) = Inr pc"
    using pc valid_privacy_plain by (auto simp: py_or_def list_all_iff)
  have up: "upgrade_entry now e = Inr e" by (simp add: upgrade_entry_def ok(1))
  have hist: "as_list (dget e ''lifecycle_history'') \<noteq> []" using ok(5) by (simp add: history_ok_def)
  obtain e' where N: "normalize_entry now (PDict e) = Inr e'" and
    f: "dget e' ''schema_version'' = PNone" "dget e' ''prompt_id'' = PStr pid" "dget e' ''service_id'' = PStr sid"
      "dget e' ''task_family'' = PStr fam" "dget e' ''status'' = PStr st" "dget e' ''privacy_class'' = PStr pc"
      "dget e' ''access_scope'' = PStr sc" "dget e' ''constraints'' = c" "dget e' ''versions'' = PList vs"
      "dget e' ''current_version'' = dget e ''current_version''" "dget e' ''usage'' = u"
      "dget e' ''lifecycle_history'' = dget e ''lifecycle_history''" "map_of e' ''updated_at'' \<noteq> None"
    using access
    by (auto simp: normalize_entry_def Let_def up pid sid fam(1) canonical_family_plain [OF fam(2)] status privacy c u(1) vs(1)
        current_version_ok [OF ok(4)] hist dict.get_put ok(1))
  have "entry_ok e'"
    using pid sid fam st sc pc ok(5) u(2) vs(2) constraints_again [OF c]
    by (auto simp: entry_ok_def f id_ok_def text_in_def constraints_ok_def)
  moreover have "view e' = view e"
    using arg_cong [OF vs(3), of "map text_of"] counts by (simp add: view_def counters_def f st(1) comp_def)
  ultimately show ?thesis using that [of e'] N f(2) pid(1) by simp
qed

subsection \<open>Well-formed registries\<close>

definition entries_ok :: "pyval list \<Rightarrow> bool" where
  "entries_ok vs =
     (list_all (\<lambda>v. is_dict v \<and> entry_ok (as_dict v)) vs \<and> distinct (map (\<lambda>v. dget (as_dict v) ''prompt_id'') vs))"

definition state_ok :: "pydict \<Rightarrow> bool" where
  "state_ok s =
     (dget s ''schema_version'' = PStr ''2.0'' \<and>
      (case dget s ''prompt_services'' of PList vs \<Rightarrow> entries_ok vs | _ \<Rightarrow> False))"

definition registry_ok :: "prompt_registry \<Rightarrow> bool" where
  "registry_ok R =
     (state_ok (pr_state R) \<and>
      (case pr_file R of None \<Rightarrow> True | Some v \<Rightarrow> is_dict v \<and> state_ok (as_dict v)))"

text \<open>The prompts of a registry by their ids.\<close>

definition prompts_of :: "pyval list \<Rightarrow> string \<Rightarrow> prompt_view option" where
  "prompts_of vs pid = map_option (\<lambda>x. view (snd x)) (find_entry pid vs)"

definition prompts :: "prompt_registry \<Rightarrow> string \<Rightarrow> prompt_view option" where
  "prompts R pid = prompts_of (entries R) pid"

lemma find_entry_Some:
  "find_entry pid vs = Some (i, e) \<Longrightarrow> i < length vs \<and> vs ! i = PDict e \<and> norm_string (dget e ''prompt_id'') = pid"
proof (induction vs arbitrary: i)
  case (Cons v vs)
  then show ?case by (cases v) (auto split: if_splits)
qed simp

lemma find_entry_update:
  assumes "find_entry pid vs = Some (i, e)" and "norm_string (dget e' ''prompt_id'') = pid"
  shows "find_entry p (vs[i := PDict e']) = (if p = pid then Some (i, e') else find_entry p vs)"
  using assms
proof (induction vs arbitrary: i)
  case (Cons v vs)
  show ?case
  proof (cases "\<exists>d. v = PDict d \<and> norm_string (dget d ''prompt_id'') = pid")
    case True
    then show ?thesis using Cons.prems by auto
  next
    case False
    then obtain j where "find_entry pid vs = Some (j, e)" and "i = Suc j"
      using Cons.prems(1) by (cases v) (auto split: if_splits)
    then show ?thesis using Cons.IH [of j] Cons.prems(2) False by (cases v) auto
  qed
qed simp

lemma find_entry_append:
  "find_entry p (vs @ [PDict e]) =
     (case find_entry p vs of
        Some x \<Rightarrow> Some x
      | None \<Rightarrow> if norm_string (dget e ''prompt_id'') = p then Some (length vs, e) else None)"
proof (induction vs)
  case (Cons v vs)
  then show ?case by (cases v) (auto split: option.splits)
qed simp

lemma normalize_entries_ok:
  assumes "entries_ok vs"
  obtains es where "normalize_entries now vs = Inr es" and "entries_ok (map PDict es)" and "list_all entry_ok es"
    and "map (\<lambda>e. dget e ''prompt_id'') es = map (\<lambda>v. dget (as_dict v) ''prompt_id'') vs"
    and "prompts_of (map PDict es) = prompts_of vs"
proof -
  have "\<exists>es. normalize_entries now vs = Inr es \<and> list_all entry_ok es \<and>
      map (\<lambda>e. dget e ''prompt_id'') es = map (\<lambda>v. dget (as_dict v) ''prompt_id'') vs \<and>
      (\<forall>p. prompts_of (map PDict es) p = prompts_of vs p)"
    using assms
  proof (induction vs)
    case (Cons v vs)
    then obtain e where v: "v = PDict e" and e: "entry_ok e" by (cases v) (auto simp: entries_ok_def is_dict_def)
    obtain e' where e': "normalize_entry now (PDict e) = Inr e'" "entry_ok e'"
      "dget e' ''prompt_id'' = dget e ''prompt_id''" "view e' = view e"
      using e by (rule normalize_entry_ok)
    obtain es where es: "normalize_entries now vs = Inr es" "list_all entry_ok es"
      "map (\<lambda>e. dget e ''prompt_id'') es = map (\<lambda>v. dget (as_dict v) ''prompt_id'') vs"
      "\<forall>p. prompts_of (map PDict es) p = prompts_of vs p"
      using Cons by (auto simp: entries_ok_def)
    have "prompts_of (map PDict (e' # es)) p = prompts_of (v # vs) p" for p
      using es(4) e'(3,4) v by (simp add: prompts_of_def option.map_comp comp_def case_prod_beta)
    then show ?case using e' es v by (intro exI [of _ "e' # es"]) simp
  qed (simp add: prompts_of_def)
  then obtain es where "normalize_entries now vs = Inr es" "list_all entry_ok es"
    "map (\<lambda>e. dget e ''prompt_id'') es = map (\<lambda>v. dget (as_dict v) ''prompt_id'') vs"
    "\<forall>p. prompts_of (map PDict es) p = prompts_of vs p" by blast
  moreover from this have "entries_ok (map PDict es)"
    using assms by (simp add: entries_ok_def list_all_iff is_dict_def comp_def)
  ultimately show ?thesis using that by blast
qed

lemma probation_index_total:
  "list_all entry_ok es \<Longrightarrow> \<exists>r. probation_index ids reasons es = Inr r"
proof (induction es arbitrary: ids reasons)
  case (Cons e es)
  have "history_ok (dget e ''status'') (dget e ''lifecycle_history'')" using Cons.prems by (simp add: entry_ok_def)
  then obtain h where "last (as_list (dget e ''lifecycle_history'')) = PDict h"
    by (auto simp: history_ok_def is_dict_def split: pyval.splits)
  then show ?case using Cons by (auto simp: Let_def vget_def)
qed simp

lemma normalize_state_ok:
  assumes "state_ok s"
  obtains s' where "normalize_prompt_service_state now (PDict s) = Inr s'" and "state_ok s'"
    and "prompts_of (as_list (dget s' ''prompt_services'')) = prompts_of (as_list (dget s ''prompt_services''))"
proof -
  obtain vs where vs: "dget s ''prompt_services'' = PList vs" "entries_ok vs"
    using assms by (auto simp: state_ok_def split: pyval.splits)
  obtain es where es: "normalize_entries now vs = Inr es" "entries_ok (map PDict es)" "list_all entry_ok es"
    "prompts_of (map PDict es) = prompts_of vs" using vs(2) by (rule normalize_entries_ok)
  obtain ids reasons where "probation_index [] [] es = Inr (ids, reasons)"
    using probation_index_total [OF es(3)] by (metis surj_pair)
  moreover have "norm_string (PStr ''2.0'') = ''2.0''" by code_simp
  ultimately show ?thesis
    using that assms vs(1) es by (simp add: normalize_prompt_service_state_def state_ok_def dget_Cons)
qed

lemma save_ok:
  assumes "registry_ok R"
  obtains R' s where "save now R = (R', Inr s)" and "registry_ok R'" and "prompts R' = prompts R"
    and "pr_has_store R' = pr_has_store R"
proof -
  have "state_ok (pr_state R)" using assms by (simp add: registry_ok_def)
  then obtain s where s: "normalize_prompt_service_state now (PDict (pr_state R)) = Inr s" "state_ok s"
    "prompts_of (as_list (dget s ''prompt_services'')) = prompts_of (as_list (dget (pr_state R) ''prompt_services''))"
    by (rule normalize_state_ok)
  from s(2) obtain s' where "normalize_prompt_service_state now (PDict s) = Inr s'" "state_ok s'"
    by (rule normalize_state_ok)
  then show ?thesis
    using that s assms
    by (cases "pr_has_store R")
      (auto simp: save_def store_save_def registry_ok_def prompts_def entries_def fun_eq_iff is_dict_def)
qed

lemma registry_ok_entries: "registry_ok R \<Longrightarrow> entries_ok (entries R)"
  by (auto simp: registry_ok_def state_ok_def entries_def split: pyval.splits)

lemma entries_set [simp]:
  "entries (set_entries vs R) = vs" "entries (touch t R) = entries R" "entries (set_entry i e R) = (entries R)[i := PDict e]"
  by (simp_all add: entries_def set_entries_def touch_def set_entry_def)

lemma registry_ok_set:
  assumes "registry_ok R" and "entries_ok vs" shows "registry_ok (set_entries vs R)"
  using assms by (simp add: registry_ok_def set_entries_def state_ok_def)

lemma registry_ok_touch [simp]: "registry_ok (touch t R) = registry_ok R"
  by (simp add: registry_ok_def touch_def state_ok_def)

lemma prompts_touch [simp]: "prompts (touch t R) = prompts R"
  by (simp add: prompts_def fun_eq_iff)

text \<open>Replacing an entry by a well-formed one with the same id.\<close>

lemma map_update_same: "i < length xs \<Longrightarrow> f y = f (xs ! i) \<Longrightarrow> map f (xs[i := y]) = map f xs"
  by (simp add: list_eq_iff_nth_eq nth_list_update)

lemma list_all_update: "list_all P xs \<Longrightarrow> P y \<Longrightarrow> list_all P (xs[i := y])"
  using set_update_subset_insert [of xs i y] by (auto simp: list_all_iff)

lemma entries_ok_update:
  assumes "entries_ok vs" and "i < length vs" and "vs ! i = PDict e" and "entry_ok e'"
    and "dget e' ''prompt_id'' = dget e ''prompt_id''"
  shows "entries_ok (vs[i := PDict e'])"
proof -
  let ?id = "\<lambda>v. dget (as_dict v) ''prompt_id''"
  have "map ?id (vs[i := PDict e']) = map ?id vs" using assms(2,3,5) by (intro map_update_same) simp_all
  moreover have "list_all (\<lambda>v. is_dict v \<and> entry_ok (as_dict v)) (vs[i := PDict e'])"
    using assms(1,4) by (intro list_all_update) (simp_all add: entries_ok_def is_dict_def)
  ultimately show ?thesis using assms(1) by (simp add: entries_ok_def)
qed

lemma find_prompt_entry_iff:
  "find_prompt_entry (PDict (pr_state R)) p = Some x \<longleftrightarrow> norm_string p \<noteq> [] \<and> find_entry (norm_string p) (entries R) = Some x"
  by (auto simp: find_prompt_entry_def Let_def entries_def)

lemma set_entry_ok:
  assumes "registry_ok R" and "find_entry pid (entries R) = Some (i, e)" and "entry_ok e'"
    and "dget e' ''prompt_id'' = dget e ''prompt_id''"
  shows "registry_ok (set_entry i e' R)" and "prompts (set_entry i e' R) = (prompts R)(pid \<mapsto> view e')"
proof -
  have i: "i < length (entries R)" "entries R ! i = PDict e" "norm_string (dget e ''prompt_id'') = pid"
    using find_entry_Some [OF assms(2)] by auto
  show "registry_ok (set_entry i e' R)"
    unfolding set_entry_def
    by (intro registry_ok_set entries_ok_update [OF registry_ok_entries [OF assms(1)] i(1,2) assms(3,4)] assms(1))
  show "prompts (set_entry i e' R) = (prompts R)(pid \<mapsto> view e')"
    using find_entry_update [OF assms(2), of e'] i(3) assms(4) by (auto simp: prompts_def prompts_of_def fun_eq_iff)
qed

lemma entry_found_ok:
  assumes "registry_ok R" and "find_entry pid (entries R) = Some (i, e)" shows "entry_ok e"
  using registry_ok_entries [OF assms(1)] find_entry_Some [OF assms(2)]
  by (auto simp: entries_ok_def list_all_length)

text \<open>A step that keeps entries well formed, run on an entry of a well-formed registry: the
  registry stays well formed, only that entry changes, and the operation raises only what the step
  raises.\<close>

abbreviation entry_kept :: "pyval \<Rightarrow> pydict \<Rightarrow> bool" where
  "entry_kept pid e \<equiv> entry_ok e \<and> dget e ''prompt_id'' = pid"

lemma on_entry_ok:
  assumes "registry_ok R" and "find_prompt_entry (PDict (pr_state R)) p = Some (i, e)"
    and "\<And>pid. keeps (entry_kept pid) step" and "step e = (e', x)"
  obtains R' r where "on_entry now p step R = (R', r)" and "registry_ok R'"
    and "prompts R' = (prompts R)(norm_string p \<mapsto> view e')" and "x = None \<longleftrightarrow> (\<exists>s. r = Inr s)" and "\<And>y. x = Some y \<Longrightarrow> r = Inl y"
proof -
  have f: "find_entry (norm_string p) (entries R) = Some (i, e)" using assms(2) by (simp add: find_prompt_entry_iff)
  have "entry_kept (dget e ''prompt_id'') (fst (step e))"
    using assms(3) [unfolded keeps_def] entry_found_ok [OF assms(1) f] by blast
  then have e': "entry_ok e'" "dget e' ''prompt_id'' = dget e ''prompt_id''" by (simp_all add: assms(4))
  note ok = set_entry_ok [OF assms(1) f e']
  show ?thesis
  proof (cases x)
    case None
    obtain t where "map_of e' ''updated_at'' = Some t" using e'(1) by (auto simp: entry_ok_def)
    moreover have "registry_ok (touch t (set_entry i e' R))" using ok(1) by simp
    then obtain R' s where "save now (touch t (set_entry i e' R)) = (R', Inr s)" "registry_ok R'"
      "prompts R' = prompts (touch t (set_entry i e' R))" by (rule save_ok)
    ultimately have "on_entry now p step R = (R', Inr s)" and "registry_ok R'"
      and "prompts R' = (prompts R)(norm_string p \<mapsto> view e')"
      using assms(2,4) None ok(2) by (simp_all add: on_entry_def)
    then show ?thesis using None by (intro that [of R' "Inr s"]) simp_all
  next
    case (Some y)
    then have "on_entry now p step R = (set_entry i e' R, Inl y)" using assms(2,4) by (simp add: on_entry_def)
    then show ?thesis using ok Some by (intro that [of "set_entry i e' R" "Inl y"]) simp_all
  qed
qed

end
