(* ===== verification/Prompt_Invariants.thy ===== *)
theory Prompt_Invariants
  imports Prompt_Registry
begin

text \<open>
  What the prompt registry guarantees. Every operation keeps the entries well formed, also when it
  raises; seen through the abstract view of \<open>Prompt_Registry\<close> (the state, the versions and the
  counters of each prompt) every operation is a step of a small abstract registry; and what the
  view shows is always in the file.
\<close>

subsection \<open>The steps keep entries well formed\<close>

text \<open>The fields the well-formedness reads; assigning another one changes nothing.\<close>

definition ok_fields :: "string list" where
  "ok_fields = [''schema_version'', ''prompt_id'', ''service_id'', ''task_family'', ''status'', ''lifecycle_history'',
     ''access_scope'', ''privacy_class'', ''constraints'', ''versions'', ''current_version'', ''usage'']"

lemma ok_fields_mem:
  "''schema_version'' \<in> set ok_fields" "''prompt_id'' \<in> set ok_fields" "''service_id'' \<in> set ok_fields"
  "''task_family'' \<in> set ok_fields" "''status'' \<in> set ok_fields" "''lifecycle_history'' \<in> set ok_fields"
  "''access_scope'' \<in> set ok_fields" "''privacy_class'' \<in> set ok_fields" "''constraints'' \<in> set ok_fields"
  "''versions'' \<in> set ok_fields" "''current_version'' \<in> set ok_fields" "''usage'' \<in> set ok_fields"
  by (simp_all add: ok_fields_def)

lemma dget_other: "f \<in> set ok_fields \<Longrightarrow> k \<notin> set ok_fields \<Longrightarrow> dget (AList.update k v e) f = dget e f"
  by auto

lemma entry_ok_other:
  assumes "k \<notin> set ok_fields" and "entry_ok e" shows "entry_ok (AList.update k v e)"
proof -
  have "map_of (AList.update k v e) ''updated_at'' \<noteq> None" using assms(2) by (simp add: entry_ok_def dict.get_put)
  then show ?thesis
    using assms by (simp add: entry_ok_def dget_other ok_fields_mem del: dget_update)
qed

lemma entry_kept_other:
  assumes "k \<notin> set ok_fields" and "entry_kept pid e" shows "entry_kept pid (AList.update k v e)"
  using assms by (simp add: entry_ok_other dget_other ok_fields_mem del: dget_update)

lemma view_other: "k \<notin> set ok_fields \<Longrightarrow> view (AList.update k v e) = view e"
  by (simp add: view_def dget_other ok_fields_mem del: dget_update)

lemma keeps_plain_field: "k \<notin> set ok_fields \<Longrightarrow> keeps (entry_kept pid) (field k f r)"
  by (rule keeps_field) (rule entry_kept_other)

text \<open>Assigning one of the read fields.\<close>

lemma entry_ok_assign:
  assumes "entry_ok e"
  shows "s \<in> set CANONICAL_TASK_FAMILIES \<Longrightarrow> entry_ok (AList.update ''task_family'' (PStr s) e)"
    and "s \<in> set VALID_PROMPT_PRIVACY_CLASSES \<Longrightarrow> entry_ok (AList.update ''privacy_class'' (PStr s) e)"
    and "s \<in> set VALID_PROMPT_ACCESS_SCOPES \<Longrightarrow> entry_ok (AList.update ''access_scope'' (PStr s) e)"
    and "constraints_ok c \<Longrightarrow> entry_ok (AList.update ''constraints'' c e)"
    and "usage_ok u \<Longrightarrow> entry_ok (AList.update ''usage'' u e)"
    and "versions_ok vs v \<Longrightarrow> entry_ok (AList.update ''current_version'' v (AList.update ''versions'' vs e))"
    and "s \<in> set VALID_PROMPT_LIFECYCLE_STATES \<Longrightarrow> history_ok (PStr s) h \<Longrightarrow>
      entry_ok (AList.update ''lifecycle_history'' h (AList.update ''status'' (PStr s) e))"
  using assms by (simp_all add: entry_ok_def dict.get_put text_in_def)

lemma keeps_family_field: "keeps (entry_kept pid) (field ''task_family'' PStr (registered_task_family v))"
  by (rule keeps_field) (simp add: entry_ok_assign registered_family_valid)

lemma keeps_privacy_field: "keeps (entry_kept pid) (field ''privacy_class'' PStr (normalize_prompt_privacy_class v))"
  by (rule keeps_field) (simp add: entry_ok_assign privacy_class_valid)

lemma constraints_ok_normal: "normalize_prompt_constraints v = Inr c \<Longrightarrow> constraints_ok c"
  using constraints_again by (fastforce simp: constraints_ok_def)

lemma keeps_constraints_field: "keeps (entry_kept pid) (field ''constraints'' id (normalize_prompt_constraints v))"
  by (rule keeps_field) (simp add: entry_ok_assign constraints_ok_normal)

lemma access_kept:
  assumes "entry_kept pid e" and "normalize_prompt_access_policy sc oc ss cs us = Inr access"
  shows "entry_kept pid (dict_update [(''access_scope'', PStr (ap_access_scope access)),
                 (''allowed_services'', ap_allowed_services access), (''allowed_clients'', ap_allowed_clients access),
                 (''allowed_customers'', ap_allowed_customers access)] e)"
proof -
  have "ap_access_scope access \<in> set VALID_PROMPT_ACCESS_SCOPES"
    using assms(2) by (auto simp: normalize_prompt_access_policy_def ebind_Inr_conv dest: access_scope_valid)
  then have "entry_kept pid (AList.update ''access_scope'' (PStr (ap_access_scope access)) e)"
    using assms(1) by (simp add: entry_ok_assign(3))
  then show ?thesis
    by (simp only: dict_update_Cons dict_update_Nil fst_conv snd_conv)
      (rule entry_kept_other [OF _ entry_kept_other [OF _ entry_kept_other]]; simp add: ok_fields_def)
qed

lemma keeps_access_step: "keeps (entry_kept pid) (access_step a)"
  unfolding keeps_def
proof (intro allI impI)
  fix e assume e: "entry_kept pid e"
  show "entry_kept pid (fst (access_step a e))"
    unfolding access_step_def Let_def assign_def
    using e access_kept [OF e] by (auto simp only: ebind_def fst_conv split: sum.splits if_splits)
qed

lemma version_taken_False:
  assumes "version_taken v items = Inr False" and "list_all version_item_ok items" and "canonical_version v"
  shows "PStr v \<notin> set (map version_name items)"
  using assms(1,2)
proof (induction items)
  case (Cons item items)
  then have "version_item_ok item" by simp
  then obtain d s where item: "item = PDict d" "dget d ''version'' = PStr s" "canonical_version s"
    by (rule version_item_ok_cases)
  then show ?case
    using Cons by (auto simp: normalize_canonical version_name_def split: if_splits)
qed simp

lemma built_version_ok:
  assumes "build_prompt_version now v definition md ct = Inr item" and "canonical_version v"
  shows "version_item_ok item" and "version_name item = PStr v"
  using assms normalize_canonical [OF assms(2)]
  by (auto simp: build_prompt_version_def version_item_ok_def version_name_def is_dict_def dget_Cons
      normalize_prompt_definition_def Let_def string_list_def)

lemma update_version_canonical: "update_version version held = Inr v \<Longrightarrow> canonical_version v"
  using normalized_cases by (auto simp: update_version_def ebind_Inr_conv)

lemma version_item_name: "version_item_ok w \<Longrightarrow> version_name w = PStr (text_of (version_name w))"
  by (cases "version_name w") (simp_all add: version_item_ok_def text_of_def)

lemma version_step_ok:
  assumes "entry_ok e" and "version_step now a e = (e', x)"
  shows "entry_ok e' \<and> dget e' ''prompt_id'' = dget e ''prompt_id'' \<and>
    view e' = (if x = None \<and> (pa_definition a \<noteq> PNone \<or> pa_version a \<noteq> PNone)
      then let v = text_of (dget e' ''current_version'')
           in (view e)\<lparr>pv_versions := pv_versions (view e) @ [v], pv_current := v\<rparr>
      else view e) \<and>
    (x = None \<and> (pa_definition a \<noteq> PNone \<or> pa_version a \<noteq> PNone) \<longrightarrow>
      canonical_version (text_of (dget e' ''current_version'')) \<and>
      text_of (dget e' ''current_version'') \<notin> set (pv_versions (view e)))"
proof (cases "(pa_definition a = PNone \<and> pa_version a = PNone) \<or> x \<noteq> None")
  case True
  have "\<exists>vs. dget e ''versions'' = PList vs"
    using assms(1) by (cases "dget e ''versions''") (auto simp: entry_ok_def versions_ok_def as_list_def)
  then have "e' = e" using True assms(2)
    by (auto simp: version_step_def Let_def assign_def split: if_splits sum.splits)
  then show ?thesis using True assms(1) by auto
next
  case False
  obtain vs where vs: "dget e ''versions'' = PList vs"
    using assms(1) by (cases "dget e ''versions''") (auto simp: entry_ok_def versions_ok_def as_list_def)
  then obtain v item md where v: "update_version (pa_version a) vs = Inr v" and t: "version_taken v vs = Inr False"
    and item: "build_prompt_version now v (pa_definition a) md PNone = Inr item"
    and e': "e' = AList.update ''current_version'' (PStr v) (AList.update ''versions'' (PList (vs @ [item])) e)"
    using False assms(2)
    by (auto simp: version_step_def Let_def assign_def ebind_Inr_conv split: if_splits sum.splits)
  have vsok: "list_all version_item_ok vs" "distinct (map version_name vs)"
    using assms(1) vs by (auto simp: entry_ok_def versions_ok_def)
  have c: "canonical_version v" using v by (rule update_version_canonical)
  note it = built_version_ok [OF item c]
  have new: "PStr v \<notin> set (map version_name vs)" using version_taken_False [OF t vsok(1) c] .
  moreover have "version_name w = PStr (text_of (version_name w))" if "w \<in> set vs" for w
    using that vsok(1) by (auto simp: list_all_iff intro: version_item_name)
  ultimately have fresh: "v \<notin> set (map (\<lambda>w. text_of (version_name w)) vs)" by fastforce
  from new have "versions_ok (PList (vs @ [item])) (PStr v)" using vsok it by (simp add: versions_ok_def)
  then have "entry_ok e'" using assms(1) by (simp add: entry_ok_def e' dict.get_put)
  then show ?thesis using False vs it c fresh by (auto simp: e' view_def text_of_def [of "PStr v"])
qed

lemma keepsI:
  assumes "\<And>e e' x. entry_ok e \<Longrightarrow> s e = (e', x) \<Longrightarrow> entry_ok e' \<and> dget e' ''prompt_id'' = dget e ''prompt_id''"
  shows "keeps (entry_kept pid) s"
  unfolding keeps_def
proof (intro allI impI)
  fix e assume e: "entry_kept pid e"
  obtain e' x where s: "s e = (e', x)" by (cases "s e") auto
  show "entry_kept pid (fst (s e))" using assms [OF _ s] e s by simp
qed

lemma keeps_version_step: "keeps (entry_kept pid) (version_step now a)"
  by (rule keepsI) (use version_step_ok in blast)

lemma keeps_update: "keeps (entry_kept pid) (update_prompt_service_definition now a)"
  unfolding update_prompt_service_definition_def
  by (intro keeps_run_steps)
    (simp add: keeps_given keeps_family_field keeps_privacy_field keeps_constraints_field keeps_access_step
      keeps_version_step keeps_plain_field ok_fields_def)

lemma transition_ok:
  assumes "entry_ok e" and "transition_prompt_lifecycle now state reason e = (e', x)"
  shows "entry_ok e' \<and> dget e' ''prompt_id'' = dget e ''prompt_id'' \<and>
    (case normalize_prompt_lifecycle_state state of
       Inl y \<Rightarrow> x = Some y \<and> e' = e
     | Inr s \<Rightarrow> x = None \<and> view e' = (view e)\<lparr>pv_status := s\<rparr>)"
proof -
  obtain st where st: "dget e ''status'' = PStr st" "st \<in> set VALID_PROMPT_LIFECYCLE_STATES"
    using assms(1) by (auto simp: entry_ok_def elim: text_in_cases)
  have cur: "normalize_prompt_lifecycle_state (py_or (dget e ''status'') (PStr ''active'')) = Inr st"
    using st valid_states_plain by (auto simp: py_or_def list_all_iff)
  show ?thesis
  proof (cases "normalize_prompt_lifecycle_state state")
    case (Inl y)
    then show ?thesis using assms cur by (simp add: transition_prompt_lifecycle_def)
  next
    case (Inr s)
    have s: "s \<in> set VALID_PROMPT_LIFECYCLE_STATES" using Inr by (rule lifecycle_state_valid)
    show ?thesis
    proof (cases "st = s")
      case True
      then have "view e = (view e)\<lparr>pv_status := s\<rparr>" using st by (simp add: view_def text_of_def)
      then show ?thesis using assms cur Inr True by (simp add: transition_prompt_lifecycle_def)
    next
      case False
      define h where "h = PList (as_list (dget e ''lifecycle_history'') @
        [history_item s (case optional_string reason of None \<Rightarrow> ''manual_transition'' | Some r \<Rightarrow> r) now])"
      define e1 where "e1 = AList.update ''lifecycle_history'' h (AList.update ''status'' (PStr s) e)"
      have "history_ok (PStr s) h" by (simp add: h_def history_ok_def history_item_def is_dict_def dget_Cons)
      then have e1: "entry_ok e1" unfolding e1_def using assms(1) s by (rule entry_ok_assign(7) [rotated 2])
      have e'_eq: "e' = AList.update ''lifecycle_history'' h
          ((if s = ''retired'' then AList.update ''retired_at'' (PStr now) else id)
            (AList.update ''updated_at'' (PStr now) (AList.update ''status'' (PStr s) e)))"
        using assms(2) cur Inr False by (simp add: transition_prompt_lifecycle_def h_def split: if_splits)
      have same: "dget e' f = dget e1 f" if "f \<in> set ok_fields" for f
      proof -
        have "f \<noteq> ''updated_at''" "f \<noteq> ''retired_at''" using that by (auto simp: ok_fields_def)
        then show ?thesis by (simp add: e'_eq e1_def)
      qed
      have "map_of e' ''updated_at'' \<noteq> None" by (simp add: e'_eq dict.get_put)
      then have "entry_ok e'" using e1 by (simp add: entry_ok_def same ok_fields_mem)
      moreover have "dget e' ''prompt_id'' = dget e ''prompt_id''" by (simp add: same ok_fields_mem e1_def)
      moreover have "view e' = (view e)\<lparr>pv_status := s\<rparr>"
        by (simp add: view_def same ok_fields_mem) (simp add: e1_def text_of_def)
      moreover have "x = None" using assms(2) cur Inr False by (simp add: transition_prompt_lifecycle_def)
      ultimately show ?thesis using Inr by simp
    qed
  qed
qed

lemma keeps_transition: "keeps (entry_kept pid) (transition_prompt_lifecycle now state reason)"
  by (rule keepsI) (use transition_ok in blast)

lemma keeps_plain_assign:
  "list_all (\<lambda>kv. fst kv \<notin> set ok_fields) kvs \<Longrightarrow> keeps (entry_kept pid) (assign (Inr kvs))"
proof (rule keeps_assign)
  fix e kvs' assume "(Inr kvs :: (string \<times> pyval) list result) = Inr kvs'" "entry_kept pid e" "list_all (\<lambda>kv. fst kv \<notin> set ok_fields) kvs"
  then show "entry_kept pid (dict_update kvs' e)"
  proof (induction kvs' arbitrary: e kvs)
    case (Cons kv kvs')
    then show ?case using entry_kept_other [of "fst kv" e pid "snd kv"] by simp
  qed simp
qed

lemma keeps_review: "keeps (entry_kept pid) (record_prompt_review now by reason state)"
  unfolding record_prompt_review_def Let_def
  by (intro keeps_run_steps) (simp add: keeps_given keeps_plain_assign keeps_transition ok_fields_def)

lemma keeps_probation: "keeps (entry_kept pid) (apply_probation_transition now action reason)"
  using keeps_transition [of pid now] by (simp add: keeps_def apply_probation_transition_def Let_def)

text \<open>The counters of a well-formed entry can always be raised.\<close>

lemma usage_ok_cases:
  assumes "usage_ok v"
  obtains u s f d where "v = PDict u" and "dget u ''execution_count'' = PInt (s + f)" and "dget u ''success_count'' = PInt s"
    and "dget u ''failure_count'' = PInt f" and "dget u ''denial_count'' = PInt d" and "0 \<le> s" and "0 \<le> f" and "0 \<le> d"
  using assms by (auto simp: usage_ok_def is_dict_def split: pyval.splits)

lemma counted_PInt: "dget u k = PInt n \<Longrightarrow> 0 \<le> n \<Longrightarrow> counted k u = (AList.update k (PInt (n + 1)) u, None)"
  by (simp add: counted_def usage_count_fixed)

lemma usage_PDict: "dget e ''usage'' = PDict u \<Longrightarrow> map_of e ''usage'' = Some (PDict u)"
  by (auto simp: dget_def split: option.splits)

lemma on_usage_PDict:
  "dget e ''usage'' = PDict u \<Longrightarrow> step u = (u', None) \<Longrightarrow>
     on_usage step nd e = (AList.update ''usage'' (PDict u') e, None)"
  by (simp add: on_usage_def usage_PDict)

definition counted_view :: "pyval \<Rightarrow> prompt_view \<Rightarrow> prompt_view" where
  "counted_view status pv =
     (if status = PStr ''completed''
      then pv\<lparr>pv_executions := pv_executions pv + 1, pv_successes := pv_successes pv + 1\<rparr>
      else pv\<lparr>pv_executions := pv_executions pv + 1, pv_failures := pv_failures pv + 1\<rparr>)"

lemma usage_update_ok:
  assumes "entry_ok e" and "usage_ok (PDict u')"
    and "e' = AList.update ''updated_at'' t (AList.update ''usage'' (PDict u') e)"
  shows "entry_ok e'" and "dget e' ''prompt_id'' = dget e ''prompt_id''"
    and "view e' = (view e)\<lparr>pv_executions := count_of (PDict u') ''execution_count'', pv_successes := count_of (PDict u') ''success_count'',
       pv_failures := count_of (PDict u') ''failure_count'', pv_denials := count_of (PDict u') ''denial_count''\<rparr>"
proof -
  have u: "''updated_at'' \<notin> set ok_fields" by (simp add: ok_fields_def)
  show "entry_ok e'" unfolding assms(3) by (intro entry_ok_other [OF u] entry_ok_assign(5) [OF assms(1,2)])
  show "dget e' ''prompt_id'' = dget e ''prompt_id''" by (simp add: assms(3))
  show "view e' = (view e)\<lparr>pv_executions := count_of (PDict u') ''execution_count'', pv_successes := count_of (PDict u') ''success_count'',
       pv_failures := count_of (PDict u') ''failure_count'', pv_denials := count_of (PDict u') ''denial_count''\<rparr>"
    unfolding assms(3) view_other [OF u] by (simp add: view_def)
qed

lemma execution_step_ok:
  assumes "entry_ok e"
  obtains e' where "execution_step status t err e = (e', None)" and "entry_ok e'"
    and "dget e' ''prompt_id'' = dget e ''prompt_id''" and "view e' = counted_view status (view e)"
proof -
  have "usage_ok (dget e ''usage'')" using assms by (simp add: entry_ok_def)
  then obtain u s f d where u: "dget e ''usage'' = PDict u" "dget u ''execution_count'' = PInt (s + f)"
    "dget u ''success_count'' = PInt s" "dget u ''failure_count'' = PInt f" "dget u ''denial_count'' = PInt d"
    "0 \<le> s" "0 \<le> f" "0 \<le> d"
    by (rule usage_ok_cases)
  have v: "pv_executions (view e) = s + f" "pv_successes (view e) = s" "pv_failures (view e) = f" "pv_denials (view e) = d"
    using u by (simp_all add: view_def count_of_def)
  define u' where "u' = fst (run_steps
            [counted ''execution_count'',
             assign (Inr [(''last_used_at'', t), (''last_execution_status'', status)]),
             if status = PStr ''completed'' then counted ''success_count''
             else run_steps [counted ''failure_count'',
                             assign (Inr [(''last_failure_reason'', err), (''last_failure_at'', t)])]] u)"
  have "run_steps
            [counted ''execution_count'',
             assign (Inr [(''last_used_at'', t), (''last_execution_status'', status)]),
             if status = PStr ''completed'' then counted ''success_count''
             else run_steps [counted ''failure_count'',
                             assign (Inr [(''last_failure_reason'', err), (''last_failure_at'', t)])]] u = (u', None)"
    and cnt: "dget u' ''execution_count'' = PInt (s + f + 1)"
      "dget u' ''success_count'' = PInt (if status = PStr ''completed'' then s + 1 else s)"
      "dget u' ''failure_count'' = PInt (if status = PStr ''completed'' then f else f + 1)" "dget u' ''denial_count'' = PInt d"
    unfolding u'_def using u by (simp_all add: counted_PInt)
  then have st: "execution_step status t err e = (AList.update ''updated_at'' t (AList.update ''usage'' (PDict u') e), None)"
    unfolding execution_step_def by (simp add: on_usage_PDict [OF u(1)])
  have "usage_ok (PDict u')" using u cnt by (simp add: usage_ok_def is_dict_def)
  note ok = usage_update_ok [OF assms this refl, of t]
  have "count_of (PDict u') ''execution_count'' = s + f + 1"
    "count_of (PDict u') ''success_count'' = (if status = PStr ''completed'' then s + 1 else s)"
    "count_of (PDict u') ''failure_count'' = (if status = PStr ''completed'' then f else f + 1)"
    "count_of (PDict u') ''denial_count'' = d"
    using cnt by (simp_all add: count_of_def)
  then have "view (AList.update ''updated_at'' t (AList.update ''usage'' (PDict u') e)) = counted_view status (view e)"
    using ok(3) v by (simp add: counted_view_def)
  then show ?thesis using that [OF st ok(1,2)] by blast
qed

lemma authorization_step_ok:
  assumes "entry_ok e"
  obtains e' where "authorization_step allowed reason t e = (e', None)" and "entry_ok e'"
    and "dget e' ''prompt_id'' = dget e ''prompt_id''"
    and "view e' = (if allowed then view e else (view e)\<lparr>pv_denials := pv_denials (view e) + 1\<rparr>)"
proof -
  have "usage_ok (dget e ''usage'')" using assms by (simp add: entry_ok_def)
  then obtain u s f d where u: "dget e ''usage'' = PDict u" "dget u ''execution_count'' = PInt (s + f)"
    "dget u ''success_count'' = PInt s" "dget u ''failure_count'' = PInt f" "dget u ''denial_count'' = PInt d"
    "0 \<le> s" "0 \<le> f" "0 \<le> d"
    by (rule usage_ok_cases)
  have v: "pv_executions (view e) = s + f" "pv_successes (view e) = s" "pv_failures (view e) = f" "pv_denials (view e) = d"
    using u by (simp_all add: view_def count_of_def)
  define step where "step = (if allowed then assign (Inr [(''last_used_at'', t)])
           else run_steps [counted ''denial_count'',
                           assign (Inr [(''last_denial_reason'', reason), (''last_denied_at'', t)])])"
  define u' where "u' = fst (step u)"
  have s: "step u = (u', None)"
    and cnt: "dget u' ''execution_count'' = PInt (s + f)" "dget u' ''success_count'' = PInt s"
      "dget u' ''failure_count'' = PInt f" "dget u' ''denial_count'' = PInt (if allowed then d else d + 1)"
    unfolding u'_def step_def using u by (simp_all add: counted_PInt)
  then have st: "authorization_step allowed reason t e = (AList.update ''updated_at'' t (AList.update ''usage'' (PDict u') e), None)"
    unfolding authorization_step_def step_def [symmetric] by (simp add: on_usage_PDict [OF u(1)])
  have "usage_ok (PDict u')" using u cnt by (simp add: usage_ok_def is_dict_def)
  note ok = usage_update_ok [OF assms this refl, of t]
  have "view (AList.update ''updated_at'' t (AList.update ''usage'' (PDict u') e)) =
      (if allowed then view e else (view e)\<lparr>pv_denials := pv_denials (view e) + 1\<rparr>)"
    using ok(3) v cnt by (simp add: count_of_def)
  then show ?thesis using that [OF st ok(1,2)] by blast
qed

subsection \<open>The operations keep registries well formed\<close>

lemma on_entry_None:
  "find_prompt_entry (PDict (pr_state R)) p = None \<Longrightarrow>
     on_entry now p step R = (R, Inl (ValueError ''prompt_id is not registered''))"
  by (simp add: on_entry_def)

lemma record_on_entry_ok:
  assumes "registry_ok R" and "find_prompt_entry (PDict (pr_state R)) p = Some (i, e)"
    and "step e = (e', None)" and "entry_ok e'" and "dget e' ''prompt_id'' = dget e ''prompt_id''"
  obtains R' where "record_on_entry now p t step R = (R', Inr ())" and "registry_ok R'"
    and "prompts R' = (prompts R)(norm_string p \<mapsto> view e')"
proof -
  have f: "find_entry (norm_string p) (entries R) = Some (i, e)" using assms(2) by (simp add: find_prompt_entry_iff)
  note ok = set_entry_ok [OF assms(1) f assms(4,5)]
  have "registry_ok (touch t (set_entry i e' R))" using ok(1) by simp
  then obtain R' s where "save now (touch t (set_entry i e' R)) = (R', Inr s)" "registry_ok R'"
    "prompts R' = prompts (touch t (set_entry i e' R))" by (rule save_ok)
  then have "record_on_entry now p t step R = (R', Inr ())" and "registry_ok R'"
    and "prompts R' = (prompts R)(norm_string p \<mapsto> view e')"
    using assms(2,3) ok(2) by (simp_all add: record_on_entry_def)
  then show ?thesis by (rule that)
qed

definition new_view :: "string \<Rightarrow> string \<Rightarrow> prompt_view" where
  "new_view status version =
     \<lparr>pv_status = status, pv_versions = [version], pv_current = version,
      pv_executions = 0, pv_successes = 0, pv_failures = 0, pv_denials = 0\<rparr>"

lemma new_usage_ok: "usage_ok new_usage" "counters new_usage = [0, 0, 0, 0]"
  by code_simp+

lemma registration_ok:
  assumes "create_prompt_service_registration now prompt_id service_id status a = Inr e"
  obtains s v where "entry_ok e" and "dget e ''prompt_id'' = PStr (norm_string prompt_id)" and "norm_string prompt_id \<noteq> []"
    and "normalize_prompt_lifecycle_state status = Inr s"
    and "normalize_prompt_version False (PStr (case optional_string (pa_version a) of None \<Rightarrow> ''v1'' | Some v \<Rightarrow> v)) = Inr v"
    and "view e = new_view s v"
proof -
  obtain prompt service task v s access item privacy cs where
    p: "non_empty ''prompt_id'' prompt_id = Inr prompt" and sv: "non_empty ''service_id'' service_id = Inr service"
    and t: "registered_task_family (pa_task_family a) = Inr task"
    and v: "normalize_prompt_version False (PStr (case optional_string (pa_version a) of None \<Rightarrow> ''v1'' | Some v \<Rightarrow> v)) = Inr v"
    and s: "normalize_prompt_lifecycle_state status = Inr s"
    and ac: "normalize_prompt_access_policy (pa_access_scope a) (pa_owner_client_id a) (pa_allowed_services a)
              (pa_allowed_clients a) (pa_allowed_customers a) = Inr access"
    and it: "build_prompt_version now v (pa_definition a) (pa_metadata a) (PStr now) = Inr item"
    and pr: "normalize_prompt_privacy_class (pa_privacy_class a) = Inr privacy"
    and cs: "normalize_prompt_constraints (pa_constraints a) = Inr cs"
    and f: "dget e ''schema_version'' = PNone" "map_of e ''updated_at'' \<noteq> None" "dget e ''prompt_id'' = PStr prompt"
      "dget e ''service_id'' = PStr service" "dget e ''task_family'' = PStr task" "dget e ''status'' = PStr s"
      "dget e ''lifecycle_history'' = PList [history_item s ''created'' now]"
      "dget e ''access_scope'' = PStr (ap_access_scope access)" "dget e ''privacy_class'' = PStr privacy"
      "dget e ''constraints'' = cs" "dget e ''versions'' = PList [item]" "dget e ''current_version'' = PStr v"
      "dget e ''usage'' = new_usage"
    using assms unfolding create_prompt_service_registration_def
    by (elim ebind_Inr_conv [THEN iffD1, elim_format] exE conjE) (auto simp: dget_Cons)
  have c: "canonical_version v" using normalized_cases [OF v] by simp
  note item = built_version_ok [OF it c]
  have sc: "ap_access_scope access \<in> set VALID_PROMPT_ACCESS_SCOPES"
    using ac by (auto simp: normalize_prompt_access_policy_def ebind_Inr_conv dest: access_scope_valid)
  have "history_ok (PStr s) (PList [history_item s ''created'' now])"
    by (simp add: history_ok_def history_item_def is_dict_def dget_Cons)
  moreover have "versions_ok (PList [item]) (PStr v)" using item by (simp add: versions_ok_def)
  ultimately have "entry_ok e"
    using f non_empty_text [OF p] non_empty_text [OF sv] registered_family_valid [OF t] lifecycle_state_valid [OF s]
      privacy_class_valid [OF pr] constraints_ok_normal [OF cs] new_usage_ok(1) sc
    by (simp add: entry_ok_def id_ok_def text_in_def)
  moreover have "view e = new_view s v"
    using new_usage_ok(2) item by (simp add: view_def f new_view_def text_of_def counters_def)
  moreover have "prompt = norm_string prompt_id" "norm_string prompt_id \<noteq> []"
    using p by (auto simp: non_empty_def Let_def split: if_splits)
  ultimately show ?thesis using that [OF _ _ _ s v] f(3) by simp
qed

lemma entries_ok_append:
  assumes "entries_ok vs" and "entry_ok e" and "find_entry pid vs = None" and "dget e ''prompt_id'' = PStr pid" and "py_strip pid = pid"
  shows "entries_ok (vs @ [PDict e])"
proof -
  have "PStr pid \<notin> set (map (\<lambda>v. dget (as_dict v) ''prompt_id'') vs)"
    using assms(1,3)
  proof (induction vs)
    case (Cons v vs)
    then obtain d where "v = PDict d" by (cases v) (auto simp: entries_ok_def is_dict_def)
    moreover from this have "dget d ''prompt_id'' \<noteq> PStr pid" using Cons.prems(2) assms(5) by auto
    ultimately show ?case using Cons by (auto simp: entries_ok_def split: if_splits)
  qed simp
  then show ?thesis using assms(1,2,4) by (auto simp: entries_ok_def is_dict_def)
qed

lemma registry_state_list:
  assumes "registry_ok R" shows "map_of (pr_state R) ''prompt_services'' = Some (PList (entries R))"
  using assms
  by (cases "map_of (pr_state R) ''prompt_services''")
    (auto simp: registry_ok_def state_ok_def entries_def dget_def split: pyval.splits)

lemma entry_status:
  assumes "entry_ok e"
  obtains st where "dget e ''status'' = PStr st" and "st \<in> set VALID_PROMPT_LIFECYCLE_STATES"
    and "normalize_prompt_lifecycle_state (py_or (dget e ''status'') (PStr ''active'')) = Inr st" and "pv_status (view e) = st"
proof -
  obtain st where st: "dget e ''status'' = PStr st" "st \<in> set VALID_PROMPT_LIFECYCLE_STATES"
    using assms by (auto simp: entry_ok_def elim: text_in_cases)
  moreover have "normalize_prompt_lifecycle_state (py_or (dget e ''status'') (PStr ''active'')) = Inr st"
    using st valid_states_plain by (auto simp: py_or_def list_all_iff)
  ultimately show ?thesis using that by (simp add: view_def text_of_def)
qed

text \<open>A prompt id is free when no entry has it or its entry is retired.\<close>

definition free_id :: "prompt_registry \<Rightarrow> string \<Rightarrow> bool" where
  "free_id R pid = (case prompts R pid of None \<Rightarrow> True | Some pv \<Rightarrow> pv_status pv = ''retired'')"

lemma create_at_end:
  assumes "registry_ok R" and "find_prompt_entry (PDict (pr_state R)) p = None" and "norm_string p \<noteq> []"
    and "create_prompt_service_registration now p service_id status a = Inr e" and "entry_ok e"
    and "dget e ''prompt_id'' = PStr (norm_string p)"
  obtains R1 where "registry_ok R1" and "create_prompt now p service_id status a R = save now R1"
    and "free_id R (norm_string p)" and "prompts R1 = (prompts R)(norm_string p \<mapsto> view e)"
proof -
  let ?R1 = "touch (dget e ''updated_at'') (set_entries (entries R @ [PDict e]) R)"
  have nf: "find_entry (norm_string p) (entries R) = None"
    using assms(2,3) by (simp add: find_prompt_entry_def Let_def entries_def)
  have "registry_ok ?R1"
    using entries_ok_append [OF registry_ok_entries [OF assms(1)] assms(5) nf assms(6) norm_string_stripped]
    by (simp add: registry_ok_set assms(1))
  moreover have "create_prompt now p service_id status a R = save now ?R1"
    using assms(2,4) registry_state_list [OF assms(1)] by (simp add: create_prompt_def)
  moreover have "free_id R (norm_string p)" using nf by (simp add: free_id_def prompts_def prompts_of_def)
  moreover have "prompts ?R1 = (prompts R)(norm_string p \<mapsto> view e)"
    using nf assms(6)
    by (auto simp: prompts_def prompts_of_def fun_eq_iff find_entry_append norm_string_stripped split: option.splits)
  ultimately show ?thesis by (rule that)
qed

lemma create_in_place:
  assumes "registry_ok R" and ie: "find_prompt_entry (PDict (pr_state R)) p = Some (i, e0)"
    and retired: "normalize_prompt_lifecycle_state (py_or (dget e0 ''status'') (PStr ''active'')) = Inr ''retired''"
    and "create_prompt_service_registration now p service_id status a = Inr e" and "entry_ok e"
    and "dget e ''prompt_id'' = PStr (norm_string p)"
  obtains R1 where "registry_ok R1" and "create_prompt now p service_id status a R = save now R1"
    and "free_id R (norm_string p)" and "prompts R1 = (prompts R)(norm_string p \<mapsto> view e)"
proof -
  let ?R1 = "touch (dget e ''updated_at'') (set_entry i e R)"
  have f: "find_entry (norm_string p) (entries R) = Some (i, e0)" using ie by (simp add: find_prompt_entry_iff)
  have e0: "entry_ok e0" by (rule entry_found_ok [OF assms(1) f])
  then obtain st where "normalize_prompt_lifecycle_state (py_or (dget e0 ''status'') (PStr ''active'')) = Inr st"
    "pv_status (view e0) = st" by (rule entry_status)
  then have "free_id R (norm_string p)"
    using f retired by (simp add: free_id_def prompts_def prompts_of_def)
  moreover have "dget e ''prompt_id'' = dget e0 ''prompt_id''"
    using assms(6) e0 find_entry_Some [OF f] by (auto simp: entry_ok_def elim: id_ok_cases)
  note ok = set_entry_ok [OF assms(1) f assms(5) this]
  have "registry_ok ?R1" using ok(1) by simp
  moreover have "create_prompt now p service_id status a R = save now ?R1"
    using ie assms(4) retired by (simp add: create_prompt_def)
  moreover have "prompts ?R1 = (prompts R)(norm_string p \<mapsto> view e)" using ok(2) by simp
  ultimately show ?thesis using that by blast
qed

lemma create_prompt_cases:
  assumes "registry_ok R"
  obtains x where "create_prompt now p service_id status a R = (R, Inl x)"
  | R' st s v where "create_prompt now p service_id status a R = (R', Inr st)" and "registry_ok R'"
      and "normalize_prompt_lifecycle_state status = Inr s"
      and "normalize_prompt_version False (PStr (case optional_string (pa_version a) of None \<Rightarrow> ''v1'' | Some v \<Rightarrow> v)) = Inr v"
      and "free_id R (norm_string p)" and "prompts R' = (prompts R)(norm_string p \<mapsto> new_view s v)"
      and "\<exists>R1. registry_ok R1 \<and> save now R1 = (R', Inr st)"
proof -
  let ?find = "find_prompt_entry (PDict (pr_state R)) p"
  let ?free = "case ?find of None \<Rightarrow> Inr ()
           | Some (_, e) \<Rightarrow>
               ebind (normalize_prompt_lifecycle_state (py_or (dget e ''status'') (PStr ''active'')))
                 (\<lambda>s. if s \<noteq> ''retired'' then Inl (ValueError ''duplicate_prompt_id'') else Inr ())"
  show ?thesis
  proof (cases "ebind ?free (\<lambda>_. create_prompt_service_registration now p service_id status a)")
    case (Inl x)
    then have "create_prompt now p service_id status a R = (R, Inl x)" by (simp add: create_prompt_def Let_def)
    then show ?thesis by (rule that(1))
  next
    case (Inr e)
    then have reg: "create_prompt_service_registration now p service_id status a = Inr e" and free: "?free = Inr ()"
      by (auto simp: ebind_Inr_conv)
    from reg obtain s v where e: "entry_ok e" "dget e ''prompt_id'' = PStr (norm_string p)" "norm_string p \<noteq> []"
      "normalize_prompt_lifecycle_state status = Inr s"
      "normalize_prompt_version False (PStr (case optional_string (pa_version a) of None \<Rightarrow> ''v1'' | Some v \<Rightarrow> v)) = Inr v"
      "view e = new_view s v"
      by (rule registration_ok)
    obtain R1 where R1: "registry_ok R1" "create_prompt now p service_id status a R = save now R1"
      "free_id R (norm_string p)" "prompts R1 = (prompts R)(norm_string p \<mapsto> view e)"
    proof (cases ?find)
      case None
      show ?thesis using create_at_end [OF assms None e(3) reg e(1,2)] that by blast
    next
      case (Some ie)
      then obtain i e0 where ie: "?find = Some (i, e0)" by (cases ie) auto
      then have "normalize_prompt_lifecycle_state (py_or (dget e0 ''status'') (PStr ''active'')) = Inr ''retired''"
        using free by (auto simp: ebind_Inr_conv split: if_splits)
      from create_in_place [OF assms ie this reg e(1,2)] that show ?thesis by blast
    qed
    from R1(1) obtain R2 y where "save now R1 = (R2, Inr y)" "registry_ok R2" "prompts R2 = prompts R1" by (rule save_ok)
    then show ?thesis using that(2) [OF _ _ e(4,5) R1(3)] R1(1,2,4) e(6) by auto
  qed
qed

text \<open>The bulk migration moves every prompt that is neither retired nor expired.\<close>

definition migrated :: "prompt_view \<Rightarrow> prompt_view" where
  "migrated pv = (if pv_status pv \<in> {''retired'', ''expired''} then pv else pv\<lparr>pv_status := ''review_due''\<rparr>)"

lemma migrate_one:
  assumes "entry_ok e"
  obtains e' l' k where "\<And>vs. migrate_entries now reason latest (PDict e # vs) =
      (case migrate_entries now reason l' vs of (vs', n, l, x) \<Rightarrow> (PDict e' # vs', k + n, l, x))"
    and "entry_ok e'" and "dget e' ''prompt_id'' = dget e ''prompt_id''" and "view e' = migrated (view e)"
proof -
  obtain st where st: "normalize_prompt_lifecycle_state (py_or (dget e ''status'') (PStr ''active'')) = Inr st"
    "pv_status (view e) = st" using assms by (rule entry_status)
  obtain e1 x where t: "transition_prompt_lifecycle now (PStr ''review_due'') reason e = (e1, x)"
    by (cases "transition_prompt_lifecycle now (PStr ''review_due'') reason e") auto
  have "normalize_prompt_lifecycle_state (PStr ''review_due'') = Inr ''review_due''"
    by (rule lifecycle_state_fixed) (simp add: VALID_PROMPT_LIFECYCLE_STATES_def)
  then have e1: "entry_ok e1" "dget e1 ''prompt_id'' = dget e ''prompt_id''" "x = None"
    "view e1 = (view e)\<lparr>pv_status := ''review_due''\<rparr>"
    using transition_ok [OF assms t] by simp_all
  consider "st \<in> {''retired'', ''expired''}" | "st = ''review_due''" | "st \<notin> {''retired'', ''expired''}" "st \<noteq> ''review_due''" by blast
  then show ?thesis
  proof cases
    case 1
    then show ?thesis using that [where e' = e and l' = latest and k = 0] st assms by (auto simp: migrated_def split: prod.splits)
  next
    case 2
    then have "view e = migrated (view e)" using st by (simp add: migrated_def)
    then show ?thesis using that [where e' = e and l' = "py_or (dget e ''updated_at'') latest" and k = 0] st 2 assms by (auto split: prod.splits)
  next
    case 3
    then show ?thesis
      using that [where e' = e1 and l' = "py_or (dget e1 ''updated_at'') latest" and k = 1] st t e1 by (auto simp: migrated_def split: prod.splits)
  qed
qed

lemma migrate_entries_ok:
  assumes "entries_ok vs"
  shows "\<exists>vs' n l. migrate_entries now reason latest vs = (vs', n, l, None) \<and> entries_ok vs' \<and>
    map (\<lambda>v. dget (as_dict v) ''prompt_id'') vs' = map (\<lambda>v. dget (as_dict v) ''prompt_id'') vs \<and>
    (\<forall>pid. prompts_of vs' pid = map_option migrated (prompts_of vs pid))"
  using assms
proof (induction vs arbitrary: latest)
  case (Cons v vs)
  then obtain e where v: "v = PDict e" and e: "entry_ok e" by (cases v) (auto simp: entries_ok_def is_dict_def)
  obtain e' l' k where m: "migrate_entries now reason latest (PDict e # vs) =
      (case migrate_entries now reason l' vs of (vs', n, l, x) \<Rightarrow> (PDict e' # vs', k + n, l, x))"
    and e': "entry_ok e'" "dget e' ''prompt_id'' = dget e ''prompt_id''" "view e' = migrated (view e)"
    using e by (rule migrate_one [of e now reason latest]) blast
  obtain vs' n l where IH: "migrate_entries now reason l' vs = (vs', n, l, None)" "entries_ok vs'"
    "map (\<lambda>v. dget (as_dict v) ''prompt_id'') vs' = map (\<lambda>v. dget (as_dict v) ''prompt_id'') vs"
    "\<forall>pid. prompts_of vs' pid = map_option migrated (prompts_of vs pid)"
    using Cons.IH [of l'] Cons.prems by (auto simp: entries_ok_def)
  have "entries_ok (PDict e' # vs')"
    using IH(2) e' Cons.prems v arg_cong [OF IH(3), of set] by (simp add: entries_ok_def is_dict_def)
  moreover have "prompts_of (PDict e' # vs') pid = map_option migrated (prompts_of (v # vs) pid)" for pid
    using IH(4) e' v by (simp add: prompts_of_def option.map_comp comp_def case_prod_beta)
  ultimately show ?case using m IH(1,3) e'(2) v by (intro exI [of _ "PDict e' # vs'"]) simp
qed (simp add: prompts_of_def entries_ok_def)

lemma created_state_ok: "state_ok (create_prompt_service_state now)"
  by (simp add: state_ok_def create_prompt_service_state_def dget_Cons entries_ok_def)

lemma load_registry_ok:
  assumes "case stored of None \<Rightarrow> True | Some v \<Rightarrow> is_dict v \<and> state_ok (as_dict v)"
  obtains R where "load_registry now has_store stored = Inr R" and "registry_ok R"
    and "has_store \<Longrightarrow> stored = Some (PDict s) \<Longrightarrow> prompts R = prompts_of (as_list (dget s ''prompt_services''))"
proof (cases has_store)
  case False
  let ?s = "[(''schema_version'', PStr ''2.0''), (''prompt_services'', PList []), (''updated_at'', PNone)]"
  have "state_ok ?s" by (simp add: state_ok_def dget_Cons entries_ok_def)
  then obtain s' where "normalize_prompt_service_state now (PDict ?s) = Inr s'" "state_ok s'"
    by (rule normalize_state_ok)
  then show ?thesis
    using that [of "\<lparr>pr_state = s', pr_has_store = False, pr_file = None\<rparr>"] False
    by (simp add: load_registry_def registry_ok_def)
next
  case True
  obtain stored' l where l: "store_load_or_create now stored = Inr (stored', l)" "state_ok l"
    "\<And>s. stored = Some (PDict s) \<Longrightarrow>
       prompts_of (as_list (dget l ''prompt_services'')) = prompts_of (as_list (dget s ''prompt_services''))"
  proof (cases stored)
    case None
    obtain c where "normalize_prompt_service_state now (PDict (create_prompt_service_state now)) = Inr c"
      using created_state_ok by (rule normalize_state_ok)
    then show ?thesis
      using that [of "Some (PDict c)" "create_prompt_service_state now"] None created_state_ok
      by (simp add: store_load_or_create_def store_load_def store_save_def Let_def)
  next
    case (Some v)
    then obtain s where v: "v = PDict s" "state_ok s" using assms by (cases v) (auto simp: is_dict_def)
    from v(2) obtain l where "normalize_prompt_service_state now (PDict s) = Inr l" "state_ok l"
      "prompts_of (as_list (dget l ''prompt_services'')) = prompts_of (as_list (dget s ''prompt_services''))"
      by (rule normalize_state_ok)
    then show ?thesis
      using that [of stored l] Some v by (simp add: store_load_or_create_def store_load_def)
  qed
  from l(2) obtain n where n: "normalize_prompt_service_state now (PDict l) = Inr n" "state_ok n"
    "prompts_of (as_list (dget n ''prompt_services'')) = prompts_of (as_list (dget l ''prompt_services''))"
    by (rule normalize_state_ok)
  from n(2) obtain w where w: "normalize_prompt_service_state now (PDict n) = Inr w" "state_ok w"
    by (rule normalize_state_ok)
  let ?R = "\<lparr>pr_state = n, pr_has_store = True, pr_file = Some (PDict w)\<rparr>"
  have "load_registry now has_store stored = Inr ?R" using True l(1) n(1) w(1) by (simp add: load_registry_def store_save_def)
  moreover have "registry_ok ?R" using n(2) w(2) by (simp add: registry_ok_def is_dict_def)
  moreover have "prompts ?R = prompts_of (as_list (dget s ''prompt_services''))" if "stored = Some (PDict s)" for s
    using l(3) [OF that] n(3) by (simp add: prompts_def entries_def fun_eq_iff)
  ultimately show ?thesis using that by blast
qed

lemma find_entry_prompts:
  assumes "registry_ok R"
  shows "(find_prompt_entry (PDict (pr_state R)) p = None \<longleftrightarrow> prompts R (norm_string p) = None)"
    and "find_prompt_entry (PDict (pr_state R)) p = Some (i, e) \<Longrightarrow> prompts R (norm_string p) = Some (view e)"
proof -
  have "find_entry [] vs = None" if "entries_ok vs" for vs
    using that
  proof (induction vs)
    case (Cons v vs)
    then obtain e where v: "v = PDict e" and e: "entry_ok e" by (cases v) (auto simp: entries_ok_def is_dict_def)
    then have "norm_string (dget e ''prompt_id'') \<noteq> []" by (auto simp: entry_ok_def elim: id_ok_cases)
    then show ?case using Cons v by (simp add: entries_ok_def)
  qed simp
  then have "find_entry [] (entries R) = None" using registry_ok_entries [OF assms] by blast
  then show "(find_prompt_entry (PDict (pr_state R)) p = None \<longleftrightarrow> prompts R (norm_string p) = None)"
    and "find_prompt_entry (PDict (pr_state R)) p = Some (i, e) \<Longrightarrow> prompts R (norm_string p) = Some (view e)"
    by (auto simp: find_prompt_entry_def Let_def prompts_def prompts_of_def entries_def split: if_splits)
qed

text \<open>Counting an execution and a decision, as functions of the abstract prompts.\<close>

lemma record_cases:
  assumes "registry_ok R"
    and step: "\<And>e. entry_ok e \<Longrightarrow> \<exists>e'. step e = (e', None) \<and> entry_ok e' \<and> dget e' ''prompt_id'' = dget e ''prompt_id'' \<and> view e' = g (view e)"
  shows "\<exists>R'. record_on_entry now p t step R = (R', Inr ()) \<and> registry_ok R' \<and>
    prompts R' = (case prompts R (norm_string p) of None \<Rightarrow> prompts R | Some pv \<Rightarrow> (prompts R)(norm_string p \<mapsto> g pv))"
proof (cases "find_prompt_entry (PDict (pr_state R)) p")
  case None
  then show ?thesis using find_entry_prompts(1) [OF assms(1), of p] assms(1) by (simp add: record_on_entry_def)
next
  case (Some ie)
  then obtain i e where ie: "find_prompt_entry (PDict (pr_state R)) p = Some (i, e)" by (cases ie) auto
  then have f: "find_entry (norm_string p) (entries R) = Some (i, e)" by (simp add: find_prompt_entry_iff)
  obtain e' where e': "step e = (e', None)" "entry_ok e'" "dget e' ''prompt_id'' = dget e ''prompt_id''" "view e' = g (view e)"
    using step [OF entry_found_ok [OF assms(1) f]] by blast
  obtain R' where "record_on_entry now p t step R = (R', Inr ())" "registry_ok R'"
    "prompts R' = (prompts R)(norm_string p \<mapsto> view e')"
    by (rule record_on_entry_ok [where step = step, OF assms(1) ie e'(1-3)])
  then show ?thesis using find_entry_prompts(2) [OF assms(1) ie] e'(4) by simp
qed

lemma record_execution_ok:
  assumes "registry_ok R"
  shows "\<exists>R'. record_execution now p status t err R = (R', Inr ()) \<and> registry_ok R' \<and>
    prompts R' = (case prompts R (norm_string p) of None \<Rightarrow> prompts R
      | Some pv \<Rightarrow> (prompts R)(norm_string p \<mapsto> counted_view status pv))"
  unfolding record_execution_def
proof (rule record_cases [OF assms])
  fix e assume "entry_ok e"
  from execution_step_ok [OF this, of status t err] show "\<exists>e'. execution_step status t err e = (e', None) \<and> entry_ok e' \<and>
      dget e' ''prompt_id'' = dget e ''prompt_id'' \<and> view e' = counted_view status (view e)" by blast
qed

lemma record_authorization_ok:
  assumes "registry_ok R"
  shows "\<exists>R'. record_authorization now p allowed reason t R = (R', Inr ()) \<and> registry_ok R' \<and>
    prompts R' = (case prompts R (norm_string p) of None \<Rightarrow> prompts R
      | Some pv \<Rightarrow> (prompts R)(norm_string p \<mapsto> (if allowed then pv else pv\<lparr>pv_denials := pv_denials pv + 1\<rparr>)))"
  unfolding record_authorization_def
proof (rule record_cases [OF assms])
  fix e assume "entry_ok e"
  from authorization_step_ok [OF this, of allowed reason t] show "\<exists>e'. authorization_step allowed reason t e = (e', None) \<and> entry_ok e' \<and>
      dget e' ''prompt_id'' = dget e ''prompt_id'' \<and>
      view e' = (if allowed then view e else (view e)\<lparr>pv_denials := pv_denials (view e) + 1\<rparr>)" by blast
qed

subsection \<open>What the steps do to the view\<close>

definition view_fields :: "string list" where
  "view_fields = [''status'', ''versions'', ''current_version'', ''usage'']"

lemma view_field:
  assumes "k \<notin> set view_fields" shows "view (AList.update k v e) = view e"
proof -
  have "k \<noteq> ''status''" "k \<noteq> ''versions''" "k \<noteq> ''current_version''" "k \<noteq> ''usage''"
    using assms by (simp_all add: view_fields_def)
  then show ?thesis by (simp add: view_def)
qed

lemma keeps_view_field: "k \<notin> set view_fields \<Longrightarrow> keeps (\<lambda>e. view e = pv) (field k f r)"
  by (rule keeps_field) (simp add: view_field)

lemma keeps_view_assign:
  assumes "\<And>kvs. r = Inr kvs \<Longrightarrow> list_all (\<lambda>kv. fst kv \<notin> set view_fields) kvs" shows "keeps (\<lambda>e. view e = pv) (assign r)"
proof (rule keeps_assign)
  fix e kvs assume "r = Inr kvs" and e: "view e = pv"
  then have "list_all (\<lambda>kv. fst kv \<notin> set view_fields) kvs" using assms by blast
  then show "view (dict_update kvs e) = pv" using e by (induction kvs arbitrary: e) (simp_all add: view_field)
qed

lemma keeps_view_access: "keeps (\<lambda>e. view e = pv) (access_step a)"
  unfolding keeps_def
proof (intro allI impI)
  fix e assume e: "view e = pv"
  have k: "view (dict_update [(''access_scope'', u), (''allowed_services'', v), (''allowed_clients'', w),
      (''allowed_customers'', z)] e) = pv" for u v w z
    using e by (simp add: view_field view_fields_def)
  show "view (fst (access_step a e)) = pv"
    unfolding access_step_def Let_def assign_def
    using e k by (auto simp only: ebind_def fst_conv split: sum.splits if_splits)
qed

lemma run_steps_append:
  "run_steps (ss @ ts) e = (case run_steps ss e of (e', Some x) \<Rightarrow> (e', Some x) | (e', None) \<Rightarrow> run_steps ts e')"
  by (induction ss arbitrary: e) (auto split: prod.splits option.splits)

text \<open>What may happen to one prompt.\<close>

inductive entry_change :: "prompt_view \<Rightarrow> prompt_view \<Rightarrow> bool" where
  unchanged: "entry_change pv pv"
| status_set: "s \<in> set VALID_PROMPT_LIFECYCLE_STATES \<Longrightarrow> entry_change pv (pv\<lparr>pv_status := s\<rparr>)"
| version_added: "canonical_version v \<Longrightarrow> v \<notin> set (pv_versions pv) \<Longrightarrow>
    entry_change pv (pv\<lparr>pv_versions := pv_versions pv @ [v], pv_current := v\<rparr>)"
| execution_counted: "entry_change pv (counted_view status pv)"
| denial_counted: "entry_change pv (pv\<lparr>pv_denials := pv_denials pv + 1\<rparr>)"

lemma update_change:
  assumes "entry_ok e" and "update_prompt_service_definition now a e = (e', x)"
  shows "entry_change (view e) (view e')" and "x \<noteq> None \<Longrightarrow> view e' = view e"
proof -
  let ?pid = "dget e ''prompt_id''"
  define ss where "ss =
       [given (pa_task_family a) (field ''task_family'' PStr (registered_task_family (pa_task_family a))),
        given (pa_prompt_name a) (field ''prompt_name'' PStr (non_empty ''prompt_name'' (pa_prompt_name a))),
        given (pa_owner_service a) (field ''owner_service'' PStr (non_empty ''owner_service'' (pa_owner_service a))),
        given (pa_owner_client_id a) (field ''owner_client_id'' opt_str (Inr (optional_string (pa_owner_client_id a)))),
        given (pa_privacy_class a) (field ''privacy_class'' PStr (normalize_prompt_privacy_class (pa_privacy_class a))),
        access_step a,
        given (pa_execution_policy a)
          (field ''execution_policy'' id (Inr (normalize_execution_policy (pa_execution_policy a)))),
        given (pa_provider_preferences a)
          (field ''provider_preferences'' id (Inr (normalize_provider_preferences (pa_provider_preferences a)))),
        given (pa_constraints a) (field ''constraints'' id (normalize_prompt_constraints (pa_constraints a))),
        given (pa_metadata a) (field ''metadata'' id (Inr (normalize_mapping (pa_metadata a))))]"
  have "list_all (keeps (entry_kept ?pid)) ss"
    unfolding ss_def by (simp add: keeps_given keeps_family_field keeps_privacy_field keeps_constraints_field keeps_access_step
      keeps_plain_field ok_fields_def)
  moreover have "list_all (keeps (\<lambda>d. view d = view e)) ss"
    unfolding ss_def by (simp add: keeps_given keeps_view_field keeps_view_access view_fields_def)
  ultimately have k: "entry_kept ?pid (fst (run_steps ss e))" "view (fst (run_steps ss e)) = view e"
    using keeps_run_steps [of "entry_kept ?pid" ss] keeps_run_steps [of "\<lambda>d. view d = view e" ss] assms(1)
    by (simp_all add: keeps_def)
  obtain e1 x1 where r: "run_steps ss e = (e1, x1)" by (cases "run_steps ss e") auto
  obtain e2 x2 where v: "version_step now a e1 = (e2, x2)" by (cases "version_step now a e1") auto
  have u: "''updated_at'' \<notin> set view_fields" by (simp add: view_fields_def)
  have "update_prompt_service_definition now a e = run_steps (ss @ [version_step now a, field ''updated_at'' PStr (Inr now)]) e"
    by (simp only: update_prompt_service_definition_def ss_def append.simps)
  then have e': "view e' = (case x1 of Some y \<Rightarrow> view e1 | None \<Rightarrow> view e2) \<and> (x = None \<longleftrightarrow> x1 = None \<and> x2 = None)"
    using assms(2) r v by (auto simp: run_steps_append field_def view_field [OF u] split: option.splits)
  have e1: "entry_ok e1" "view e1 = view e" using k r by simp_all
  note vs = version_step_ok [OF e1(1) v]
  show "entry_change (view e) (view e')"
    using e' vs e1(2) by (auto simp: Let_def intro: entry_change.intros split: option.splits if_splits)
  show "x \<noteq> None \<Longrightarrow> view e' = view e" using e' vs e1(2) by (auto split: option.splits if_splits)
qed

lemma transition_change:
  assumes "entry_ok e" and "transition_prompt_lifecycle now state reason e = (e', x)"
  shows "entry_change (view e) (view e')" and "x \<noteq> None \<Longrightarrow> view e' = view e"
  using transition_ok [OF assms] lifecycle_state_valid
  by (auto split: sum.splits intro: entry_change.intros)

lemma probation_change:
  assumes "entry_ok e" and "apply_probation_transition now action reason e = (e', x)"
  shows "entry_change (view e) (view e')" and "x \<noteq> None \<Longrightarrow> view e' = view e"
  using assms transition_change [OF assms(1)]
  by (auto simp: apply_probation_transition_def Let_def intro: entry_change.unchanged split: if_splits)

lemma review_change:
  assumes "entry_ok e" and "record_prompt_review now rb reason state e = (e', x)"
  shows "entry_change (view e) (view e')" and "x \<noteq> None \<Longrightarrow> view e' = view e"
proof -
  let ?pid = "dget e ''prompt_id''"
  define rs where "rs = (case optional_string reason of None \<Rightarrow> ''manual_review'' | Some r \<Rightarrow> r)"
  define e1 where "e1 = dict_update [(''last_reviewed_at'', PStr now), (''reviewed_by'', opt_str (optional_string rb)),
      (''review_reason'', PStr rs)] e"
  have k: "entry_kept ?pid e1"
    unfolding e1_def dict_update_Cons dict_update_Nil fst_conv snd_conv
    by (rule entry_kept_other [OF _ entry_kept_other [OF _ entry_kept_other]]) (simp_all add: ok_fields_def assms(1))
  have v: "view e1 = view e" by (simp add: e1_def view_field view_fields_def)
  obtain e2 x2 where t: "transition_prompt_lifecycle now state (PStr rs) e1 = (e2, x2)"
    by (cases "transition_prompt_lifecycle now state (PStr rs) e1") auto
  have u: "''updated_at'' \<notin> set view_fields" by (simp add: view_fields_def)
  have "view e' = (if state = PNone then view e1 else view e2) \<and> (x \<noteq> None \<longrightarrow> state \<noteq> PNone \<and> x2 = x)"
    using assms(2) t
    by (auto simp: record_prompt_review_def Let_def rs_def [symmetric] e1_def [symmetric] given_def view_field [OF u]
        simp del: dict_update_Cons split: option.splits if_splits)
      (auto simp: view_field [OF u])
  then show "entry_change (view e) (view e')" and "x \<noteq> None \<Longrightarrow> view e' = view e"
    using transition_change [OF conjunct1 [OF k] t] v by (auto intro: entry_change.unchanged split: if_splits)
qed

subsection \<open>What is in the file\<close>

definition file_prompts :: "prompt_registry \<Rightarrow> (string \<Rightarrow> prompt_view option) option" where
  "file_prompts R = map_option (\<lambda>v. prompts_of (as_list (dget (as_dict v) ''prompt_services''))) (pr_file R)"

text \<open>The file of a registry with a store has the prompts the registry has.\<close>

definition durable :: "prompt_registry \<Rightarrow> bool" where
  "durable R = (\<not> pr_has_store R \<or> file_prompts R = Some (prompts R))"

lemma save_durable:
  assumes "registry_ok R" and "save now R = (R', r)" shows "durable R'"
proof -
  have "state_ok (pr_state R)" using assms by (simp add: registry_ok_def)
  then obtain s where s: "normalize_prompt_service_state now (PDict (pr_state R)) = Inr s" "state_ok s"
    by (rule normalize_state_ok)
  from s(2) obtain s' where s': "normalize_prompt_service_state now (PDict s) = Inr s'"
    "prompts_of (as_list (dget s' ''prompt_services'')) = prompts_of (as_list (dget s ''prompt_services''))"
    by (rule normalize_state_ok)
  have "R' = (if pr_has_store R then R\<lparr>pr_state := s, pr_file := Some (PDict s')\<rparr> else R\<lparr>pr_state := s\<rparr>)"
    using assms(2) s(1) s'(1) by (simp add: save_def store_save_def Let_def split: if_splits)
  then show ?thesis using s'(2) by (simp add: durable_def file_prompts_def prompts_def entries_def fun_eq_iff)
qed

lemma durable_same:
  "durable R \<Longrightarrow> pr_has_store R' = pr_has_store R \<Longrightarrow> pr_file R' = pr_file R \<Longrightarrow> prompts R' = prompts R \<Longrightarrow> durable R'"
  by (simp add: durable_def file_prompts_def)

lemma set_entry_store [simp]: "pr_has_store (set_entry i e R) = pr_has_store R" "pr_file (set_entry i e R) = pr_file R"
  by (simp_all add: set_entry_def set_entries_def)

lemma on_entry_change:
  assumes R: "registry_ok R" "durable R" and k: "\<And>pid. keeps (entry_kept pid) step"
    and c: "\<And>e e' x. entry_ok e \<Longrightarrow> step e = (e', x) \<Longrightarrow> entry_change (view e) (view e') \<and> (x \<noteq> None \<longrightarrow> view e' = view e)"
    and o: "on_entry now p step R = (R', r)"
  shows "registry_ok R' \<and> durable R' \<and>
    (prompts R' = prompts R \<or> (\<exists>pid pv pv'. prompts R pid = Some pv \<and> entry_change pv pv' \<and> prompts R' = (prompts R)(pid \<mapsto> pv')))"
proof (cases "find_prompt_entry (PDict (pr_state R)) p")
  case None
  then show ?thesis using assms by (simp add: on_entry_None)
next
  case (Some ie)
  then obtain i e where ie: "find_prompt_entry (PDict (pr_state R)) p = Some (i, e)" by (cases ie) auto
  have f: "find_entry (norm_string p) (entries R) = Some (i, e)" using ie by (simp add: find_prompt_entry_iff)
  have e: "entry_ok e" by (rule entry_found_ok [OF R(1) f])
  obtain e' x where st: "step e = (e', x)" by (cases "step e") auto
  have pv: "prompts R (norm_string p) = Some (view e)" by (rule find_entry_prompts(2) [OF R(1) ie])
  have "entry_kept (dget e ''prompt_id'') (fst (step e))" using k [unfolded keeps_def] e by blast
  then have e': "entry_ok e'" "dget e' ''prompt_id'' = dget e ''prompt_id''" by (simp_all add: st)
  note ok = set_entry_ok [OF R(1) f e']
  obtain R1 r1 where R1: "on_entry now p step R = (R1, r1)" "registry_ok R1" "prompts R1 = (prompts R)(norm_string p \<mapsto> view e')"
    by (rule on_entry_ok [where step = step and now = now, OF R(1) ie k st])
  then have R': "registry_ok R'" "prompts R' = (prompts R)(norm_string p \<mapsto> view e')" using o by simp_all
  have "durable R'"
  proof (cases x)
    case None
    obtain t where "map_of e' ''updated_at'' = Some t" using e'(1) by (auto simp: entry_ok_def)
    then have "save now (touch t (set_entry i e' R)) = (R', r)" using o ie st None by (simp add: on_entry_def)
    then show ?thesis using ok(1) by (intro save_durable [of "touch t (set_entry i e' R)"]) simp_all
  next
    case (Some y)
    then have "R' = set_entry i e' R" using o ie st by (simp add: on_entry_def)
    moreover have "view e' = view e" using c [OF e st] Some by simp
    ultimately show ?thesis using R(2) ok(2) pv by (intro durable_same [of R R']) (simp_all add: fun_upd_idem)
  qed
  then show ?thesis using R' pv c [OF e st] by blast
qed

lemma load_registry_durable:
  assumes "load_registry now has_store stored = Inr R" and "state_ok (pr_state R)" shows "durable R"
proof (cases has_store)
  case True
  with assms(1) obtain w where r: "pr_file R = Some w" "store_save now (pr_state R) = Inr w"
    by (auto simp: load_registry_def ebind_Inr_conv split: prod.splits)
  from assms(2) obtain s' where "normalize_prompt_service_state now (PDict (pr_state R)) = Inr s'"
    "prompts_of (as_list (dget s' ''prompt_services'')) = prompts_of (as_list (dget (pr_state R) ''prompt_services''))"
    by (rule normalize_state_ok)
  then show ?thesis
    using r by (auto simp: durable_def file_prompts_def store_save_def prompts_def entries_def fun_eq_iff)
next
  case False
  then show ?thesis using assms(1) by (auto simp: load_registry_def ebind_Inr_conv durable_def)
qed

lemma migrate_ok:
  assumes "registry_ok R"
  obtains R' n st where "migrate_all_to_review_due now reason R = (R', Inr (n, st))" and "registry_ok R'" and "durable R'"
    and "prompts R' = (\<lambda>pid. map_option migrated (prompts R pid))"
proof -
  obtain vs n l where m: "migrate_entries now reason PNone (entries R) = (vs, n, l, None)" and vs: "entries_ok vs"
    and p: "\<forall>pid. prompts_of vs pid = map_option migrated (prompts_of (entries R) pid)"
    using migrate_entries_ok [OF registry_ok_entries [OF assms]] by blast
  let ?R1 = "if l = PNone then set_entries vs R else touch l (set_entries vs R)"
  have ok: "registry_ok ?R1" using registry_ok_set [OF assms vs] by simp
  then obtain R' st where s: "save now ?R1 = (R', Inr st)" "registry_ok R'" "prompts R' = prompts ?R1" by (rule save_ok)
  have "prompts ?R1 = (\<lambda>pid. map_option migrated (prompts R pid))"
    using p by (auto simp: prompts_def fun_eq_iff)
  moreover have "durable R'" using ok s(1) by (rule save_durable)
  ultimately show ?thesis using that [of R' n st] m s by (simp add: migrate_all_to_review_due_def Let_def)
qed

section \<open>Reachable registries\<close>

text \<open>Any operation with any arguments, whether it returns or raises, and a restart on the file.\<close>

inductive registry_step :: "prompt_registry \<Rightarrow> prompt_registry \<Rightarrow> bool" where
  restart: "pr_has_store R \<Longrightarrow> load_registry now True (pr_file R) = Inr R' \<Longrightarrow> registry_step R R'"
| create: "create_prompt now p service_id status a R = (R', r) \<Longrightarrow> registry_step R R'"
| update: "update_prompt now p a R = (R', r) \<Longrightarrow> registry_step R R'"
| review: "review_prompt now p reviewer reason state R = (R', r) \<Longrightarrow> registry_step R R'"
| transition: "transition_prompt now p state reason R = (R', r) \<Longrightarrow> registry_step R R'"
| probation: "update_probation now p action reason R = (R', r) \<Longrightarrow> registry_step R R'"
| migrate: "migrate_all_to_review_due now reason R = (R', r') \<Longrightarrow> registry_step R R'"
| authorization: "record_authorization now p allowed reason t R = (R', r'') \<Longrightarrow> registry_step R R'"
| execution: "record_execution now p status t err R = (R', r'') \<Longrightarrow> registry_step R R'"

inductive registry_reachable :: "prompt_registry \<Rightarrow> bool" where
  started: "load_registry now has_store None = Inr R \<Longrightarrow> registry_reachable R"
| stepped: "registry_reachable R \<Longrightarrow> registry_step R R' \<Longrightarrow> registry_reachable R'"

text \<open>The abstract registry: a map from ids to views.\<close>

inductive spec_step :: "(string \<Rightarrow> prompt_view option) \<Rightarrow> (string \<Rightarrow> prompt_view option) \<Rightarrow> bool" where
  spec_idle: "spec_step M M"
| spec_create: "(case M pid of None \<Rightarrow> True | Some pv \<Rightarrow> pv_status pv = ''retired'') \<Longrightarrow>
    s \<in> set VALID_PROMPT_LIFECYCLE_STATES \<Longrightarrow> canonical_version v \<Longrightarrow> spec_step M (M(pid \<mapsto> new_view s v))"
| spec_change: "M pid = Some pv \<Longrightarrow> entry_change pv pv' \<Longrightarrow> spec_step M (M(pid \<mapsto> pv'))"
| spec_migrate: "spec_step M (\<lambda>pid. map_option migrated (M pid))"

definition refines :: "prompt_registry \<Rightarrow> prompt_registry \<Rightarrow> bool" where
  "refines R R' = (registry_ok R' \<and> durable R' \<and> spec_step (prompts R) (prompts R'))"

lemma on_entry_refines:
  assumes "registry_ok R" "durable R" and "\<And>pid. keeps (entry_kept pid) step"
    and "\<And>e e' x. entry_ok e \<Longrightarrow> step e = (e', x) \<Longrightarrow> entry_change (view e) (view e') \<and> (x \<noteq> None \<longrightarrow> view e' = view e)"
    and "on_entry now p step R = (R', r)"
  shows "refines R R'"
  using on_entry_change [OF assms] unfolding refines_def by (metis spec_step.spec_idle spec_step.spec_change)

lemma record_saves:
  assumes "registry_ok R" "durable R"
    and s: "\<And>e. entry_ok e \<Longrightarrow> \<exists>e'. step e = (e', None) \<and> entry_ok e' \<and> dget e' ''prompt_id'' = dget e ''prompt_id'' \<and> view e' = g (view e)"
    and "record_on_entry now p t step R = (R', r)"
  shows "durable R'"
proof (cases "find_prompt_entry (PDict (pr_state R)) p")
  case None
  then show ?thesis using assms by (simp add: record_on_entry_def)
next
  case (Some ie)
  then obtain i e where ie: "find_prompt_entry (PDict (pr_state R)) p = Some (i, e)" by (cases ie) auto
  then have f: "find_entry (norm_string p) (entries R) = Some (i, e)" by (simp add: find_prompt_entry_iff)
  obtain e' where e': "step e = (e', None)" "entry_ok e'" "dget e' ''prompt_id'' = dget e ''prompt_id''"
    using s [OF entry_found_ok [OF assms(1) f]] by blast
  have ok: "registry_ok (touch t (set_entry i e' R))" using set_entry_ok(1) [OF assms(1) f e'(2,3)] by simp
  obtain R1 y where R1: "save now (touch t (set_entry i e' R)) = (R1, y)" by (cases "save now (touch t (set_entry i e' R))") auto
  then have "R' = R1" using assms(4) ie e'(1) by (auto simp: record_on_entry_def split: sum.splits)
  then show ?thesis using save_durable [OF ok R1] by simp
qed

lemma create_refines:
  assumes "registry_ok R" "durable R" and c: "create_prompt now p service_id status a R = (R', r)"
  shows "refines R R'"
  using assms(1)
proof (rule create_prompt_cases [of R now p service_id status a])
  fix x assume "create_prompt now p service_id status a R = (R, Inl x)"
  then show ?thesis using assms by (simp add: refines_def spec_step.spec_idle)
next
  fix R1 st s v
  assume R1: "create_prompt now p service_id status a R = (R1, Inr st)" "registry_ok R1"
    "normalize_prompt_lifecycle_state status = Inr s"
    "normalize_prompt_version False (PStr (case optional_string (pa_version a) of None \<Rightarrow> ''v1'' | Some v \<Rightarrow> v)) = Inr v"
    "free_id R (norm_string p)" "prompts R1 = (prompts R)(norm_string p \<mapsto> new_view s v)"
    "\<exists>R0. registry_ok R0 \<and> save now R0 = (R1, Inr st)"
  have "canonical_version v" using normalized_cases [OF R1(4)] by simp
  then have "spec_step (prompts R) (prompts R1)"
    unfolding R1(6) using R1(5) lifecycle_state_valid [OF R1(3)] by (intro spec_step.spec_create) (simp_all add: free_id_def)
  moreover have "durable R1" using R1(7) save_durable by blast
  ultimately show ?thesis using R1(1,2) c by (simp add: refines_def)
qed

lemma record_refines:
  assumes "registry_ok R" "durable R"
    and s: "\<And>e. entry_ok e \<Longrightarrow> \<exists>e'. step e = (e', None) \<and> entry_ok e' \<and> dget e' ''prompt_id'' = dget e ''prompt_id'' \<and> view e' = g (view e)"
    and g: "\<And>pv. entry_change pv (g pv)" and r: "record_on_entry now p t step R = (R', r)"
  shows "refines R R'"
proof -
  obtain R1 where R1: "record_on_entry now p t step R = (R1, Inr ())" "registry_ok R1"
    "prompts R1 = (case prompts R (norm_string p) of None \<Rightarrow> prompts R | Some pv \<Rightarrow> (prompts R)(norm_string p \<mapsto> g pv))"
    using record_cases [OF assms(1) s, of now p t] by blast
  have "spec_step (prompts R) (prompts R1)"
    unfolding R1(3) by (cases "prompts R (norm_string p)") (auto intro: spec_step.intros g)
  moreover have "durable R1" using record_saves [OF assms(1,2) s R1(1)] .
  ultimately show ?thesis using R1 r by (simp add: refines_def)
qed

lemma restart_same:
  assumes "registry_ok R" "durable R" "pr_has_store R"
  obtains R' where "load_registry now True (pr_file R) = Inr R'" and "registry_ok R'" and "durable R'" and "prompts R' = prompts R"
proof -
  have c: "case pr_file R of None \<Rightarrow> True | Some v \<Rightarrow> is_dict v \<and> state_ok (as_dict v)" using assms(1) by (simp add: registry_ok_def)
  have "file_prompts R = Some (prompts R)" using assms(2,3) by (simp add: durable_def)
  then obtain v where v: "pr_file R = Some v" "prompts_of (as_list (dget (as_dict v) ''prompt_services'')) = prompts R"
    by (auto simp: file_prompts_def)
  have "is_dict v" using c v(1) by simp
  then obtain s where s: "v = PDict s" by (cases v) (auto simp: is_dict_def)
  obtain R' where "load_registry now True (pr_file R) = Inr R'" "registry_ok R'"
    "prompts R' = prompts_of (as_list (dget s ''prompt_services''))"
    using load_registry_ok [OF c, of now True s] v(1) s by blast
  moreover from this have "durable R'" by (intro load_registry_durable) (auto simp: registry_ok_def)
  ultimately show ?thesis using that v(2) s by simp
qed

lemma step_refines:
  assumes "registry_ok R" "durable R" and "registry_step R R'" shows "refines R R'"
  using assms(3)
proof cases
  case (restart now)
  then show ?thesis using restart_same [OF assms(1,2), of now] by (metis Inr_inject refines_def spec_step.spec_idle)
next
  case (create now p service_id status a r)
  then show ?thesis using create_refines [OF assms(1,2)] by blast
next
  case (update now p a r)
  then show ?thesis unfolding update_prompt_def
    by (intro on_entry_refines [OF assms(1,2) keeps_update]) (auto dest: update_change)
next
  case (review now p reviewer reason state r)
  then show ?thesis unfolding review_prompt_def
    by (intro on_entry_refines [OF assms(1,2) keeps_review]) (auto dest: review_change)
next
  case (transition now p state reason r)
  then show ?thesis unfolding transition_prompt_def
    by (intro on_entry_refines [OF assms(1,2) keeps_transition]) (auto dest: transition_change)
next
  case (probation now p action reason r)
  then show ?thesis unfolding update_probation_def
    by (intro on_entry_refines [OF assms(1,2) keeps_probation]) (auto dest: probation_change)
next
  case (migrate now reason r)
  obtain R1 n st where R1: "migrate_all_to_review_due now reason R = (R1, Inr (n, st))" "registry_ok R1" "durable R1"
    "prompts R1 = (\<lambda>pid. map_option migrated (prompts R pid))"
    using assms(1) by (rule migrate_ok)
  then show ?thesis using migrate by (simp add: refines_def spec_step.spec_migrate)
next
  case (authorization now p allowed reason t r)
  show ?thesis
  proof (rule record_refines [OF assms(1,2), where g = "\<lambda>pv. if allowed then pv else pv\<lparr>pv_denials := pv_denials pv + 1\<rparr>"])
    fix e assume "entry_ok e"
    from authorization_step_ok [OF this, of allowed reason t]
    show "\<exists>e'. authorization_step allowed reason t e = (e', None) \<and> entry_ok e' \<and> dget e' ''prompt_id'' = dget e ''prompt_id'' \<and>
      view e' = (if allowed then view e else (view e)\<lparr>pv_denials := pv_denials (view e) + 1\<rparr>)" by blast
  next
    show "record_on_entry now p t (authorization_step allowed reason t) R = (R', r)"
      using authorization by (simp add: record_authorization_def)
  qed (simp add: entry_change.intros)
next
  case (execution now p status t err r)
  show ?thesis
  proof (rule record_refines [OF assms(1,2), where g = "counted_view status"])
    fix e assume "entry_ok e"
    from execution_step_ok [OF this, of status t err]
    show "\<exists>e'. execution_step status t err e = (e', None) \<and> entry_ok e' \<and> dget e' ''prompt_id'' = dget e ''prompt_id'' \<and>
      view e' = counted_view status (view e)" by blast
  next
    show "record_on_entry now p t (execution_step status t err) R = (R', r)"
      using execution by (simp add: record_execution_def)
  qed (simp add: entry_change.intros)
qed

lemma reachable_ok: "registry_reachable R \<Longrightarrow> registry_ok R \<and> durable R"
proof (induction rule: registry_reachable.induct)
  case (started now has_store R)
  obtain R1 where "load_registry now has_store None = Inr R1" "registry_ok R1"
    by (rule load_registry_ok [of None now has_store]) simp_all
  then show ?case using started load_registry_durable by (auto simp: registry_ok_def)
next
  case (stepped R R')
  then show ?case using step_refines [of R R'] by (simp add: refines_def)
qed

section \<open>Operations that succeed and that fail\<close>

lemma version_taken_True:
  assumes "v \<in> set (map (\<lambda>w. text_of (version_name w)) items)" and "list_all version_item_ok items"
  shows "version_taken v items = Inr True"
  using assms
proof (induction items)
  case (Cons item items)
  then have "version_item_ok item" by simp
  then obtain d s where "item = PDict d" "dget d ''version'' = PStr s" "canonical_version s" by (rule version_item_ok_cases)
  then show ?case using Cons by (auto simp: normalize_canonical version_name_def text_of_def)
qed simp

lemma version_step_taken:
  assumes "entry_ok e" and "normalize_prompt_version False (pa_version a) = Inr v"
    and "v \<in> set (map (\<lambda>w. text_of (version_name w)) (as_list (dget e ''versions'')))"
  shows "version_step now a e = (e, Some (ValueError ''duplicate_prompt_version''))"
proof -
  obtain vs where vs: "dget e ''versions'' = PList vs" "list_all version_item_ok vs"
    using assms(1) by (cases "dget e ''versions''") (auto simp: entry_ok_def versions_ok_def as_list_def)
  have ne: "norm_string (pa_version a) \<noteq> []"
    using assms(2) by (auto simp: normalize_prompt_version_def legacy_major_only_def canonical_version_def)
  then have "update_version (pa_version a) vs = Inr v"
    using assms(2) by (simp add: update_version_def optional_string_def normalize_prompt_version_def norm_string_stripped)
  moreover have "version_taken v vs = Inr True" using version_taken_True [OF _ vs(2)] assms(3) vs(1) by simp
  moreover have "pa_version a \<noteq> PNone" using ne by auto
  ultimately show ?thesis using vs(1) by (simp add: version_step_def Let_def)
qed

lemma save_has_store: "pr_has_store (fst (save now R)) = pr_has_store R"
  by (auto simp: save_def Let_def split: sum.splits)

lemma create_has_store: "pr_has_store (fst (create_prompt now p service_id status a R)) = pr_has_store R"
  by (auto simp: create_prompt_def Let_def save_has_store touch_def set_entry_def set_entries_def split: sum.splits option.splits pyval.splits)

lemma create_succeeds:
  assumes "registry_ok R" and "prompts R (norm_string p) = None"
    and "create_prompt_service_registration now p service_id status a = Inr e"
  obtains R' st where "create_prompt now p service_id status a R = (R', Inr st)" and "prompts R' = (prompts R)(norm_string p \<mapsto> view e)"
proof -
  have n: "find_prompt_entry (PDict (pr_state R)) p = None" using find_entry_prompts(1) [OF assms(1)] assms(2) by blast
  from assms(3) have e: "entry_ok e" "dget e ''prompt_id'' = PStr (norm_string p)" "norm_string p \<noteq> []"
    by (auto elim: registration_ok)
  obtain R1 where R1: "registry_ok R1" "create_prompt now p service_id status a R = save now R1"
    "prompts R1 = (prompts R)(norm_string p \<mapsto> view e)"
    using create_at_end [OF assms(1) n e(3) assms(3) e(1,2)] by blast
  from R1(1) obtain R' st where s: "save now R1 = (R', Inr st)" "prompts R' = prompts R1" by (rule save_ok)
  then show ?thesis using that R1 s by simp
qed

lemma transition_succeeds:
  assumes "registry_ok R" and "prompts R (norm_string p) = Some pv" and "normalize_prompt_lifecycle_state state = Inr s"
  obtains R' st where "transition_prompt now p state reason R = (R', Inr st)"
    and "prompts R' = (prompts R)(norm_string p \<mapsto> pv\<lparr>pv_status := s\<rparr>)"
proof -
  obtain i e where ie: "find_prompt_entry (PDict (pr_state R)) p = Some (i, e)"
    using find_entry_prompts(1) [OF assms(1), of p] assms(2) by (cases "find_prompt_entry (PDict (pr_state R)) p") auto
  have pv: "pv = view e" using find_entry_prompts(2) [OF assms(1) ie] assms(2) by simp
  have f: "find_entry (norm_string p) (entries R) = Some (i, e)" using ie by (simp add: find_prompt_entry_iff)
  obtain e' x where t: "transition_prompt_lifecycle now state reason e = (e', x)"
    by (cases "transition_prompt_lifecycle now state reason e") auto
  have x: "x = None" "view e' = pv\<lparr>pv_status := s\<rparr>"
    using transition_ok [OF entry_found_ok [OF assms(1) f] t] assms(3) pv by simp_all
  obtain R' r where "on_entry now p (transition_prompt_lifecycle now state reason) R = (R', r)"
    "prompts R' = (prompts R)(norm_string p \<mapsto> view e')" "x = None \<longleftrightarrow> (\<exists>st. r = Inr st)"
    by (rule on_entry_ok [where step = "transition_prompt_lifecycle now state reason" and now = now,
          OF assms(1) ie keeps_transition t])
  then show ?thesis using that x by (auto simp: transition_prompt_def)
qed

section \<open>A sample registry\<close>

definition sample_args :: prompt_args where
  "sample_args = no_args\<lparr>pa_task_family := PStr ''task.chat'', pa_definition := PDict [(''system_prompt'', PStr ''x'')]\<rparr>"

definition sample_empty :: prompt_registry where
  "sample_empty = (case load_registry ''t0'' True None of Inr R \<Rightarrow> R | Inl _ \<Rightarrow> undefined)"

definition sample_registry :: prompt_registry where
  "sample_registry = fst (create_prompt ''t1'' (PStr ''p1'') (PStr ''svc'') (PStr ''active'') sample_args sample_empty)"

definition sample_suspended :: prompt_registry where
  "sample_suspended = fst (transition_prompt ''t2'' (PStr ''p1'') (PStr ''suspended'') PNone sample_registry)"

lemma sample_empty_reachable: "registry_reachable sample_empty"
proof -
  obtain R where "load_registry ''t0'' True None = Inr R"
    using load_registry_ok [of None "''t0''" True] by auto
  then have "load_registry ''t0'' True None = Inr sample_empty" by (simp add: sample_empty_def)
  then show ?thesis by (rule registry_reachable.started)
qed

lemma sample_registry_reachable: "registry_reachable sample_registry"
proof -
  obtain r where "create_prompt ''t1'' (PStr ''p1'') (PStr ''svc'') (PStr ''active'') sample_args sample_empty = (sample_registry, r)"
    unfolding sample_registry_def by (metis prod.collapse)
  then show ?thesis by (intro registry_reachable.stepped [OF sample_empty_reachable] registry_step.create)
qed

lemma sample_suspended_step: "registry_step sample_registry sample_suspended"
proof -
  obtain r where "transition_prompt ''t2'' (PStr ''p1'') (PStr ''suspended'') PNone sample_registry = (sample_suspended, r)"
    unfolding sample_suspended_def by (metis prod.collapse)
  then show ?thesis by (rule registry_step.transition)
qed

lemma norm_p1: "norm_string (PStr ''p1'') = ''p1''"
  by code_simp

lemma sample_prompt: "prompts sample_registry ''p1'' = Some (new_view ''active'' ''v1.0'')"
proof -
  have ok: "registry_ok sample_empty" using reachable_ok [OF sample_empty_reachable] by simp
  have "entries sample_empty = []" by code_simp
  then have n: "prompts sample_empty (norm_string (PStr ''p1'')) = None" by (simp add: prompts_def prompts_of_def)
  have "case create_prompt_service_registration ''t1'' (PStr ''p1'') (PStr ''svc'') (PStr ''active'') sample_args of
      Inr e \<Rightarrow> view e = new_view ''active'' ''v1.0'' | Inl _ \<Rightarrow> False" by code_simp
  then obtain e where e: "create_prompt_service_registration ''t1'' (PStr ''p1'') (PStr ''svc'') (PStr ''active'') sample_args = Inr e"
    "view e = new_view ''active'' ''v1.0''" by (auto split: sum.splits)
  obtain R' st where "create_prompt ''t1'' (PStr ''p1'') (PStr ''svc'') (PStr ''active'') sample_args sample_empty = (R', Inr st)"
    "prompts R' = (prompts sample_empty)(norm_string (PStr ''p1'') \<mapsto> view e)"
    using ok n e(1) by (rule create_succeeds)
  then show ?thesis using e(2) by (simp only: sample_registry_def fst_conv norm_p1 fun_upd_same)
qed

lemma sample_suspended_prompt: "prompts sample_suspended ''p1'' = Some (new_view ''suspended'' ''v1.0'')"
proof -
  have ok: "registry_ok sample_registry" using reachable_ok [OF sample_registry_reachable] by simp
  have p: "prompts sample_registry (norm_string (PStr ''p1'')) = Some (new_view ''active'' ''v1.0'')"
    unfolding norm_p1 by (rule sample_prompt)
  have s: "normalize_prompt_lifecycle_state (PStr ''suspended'') = Inr ''suspended''"
    by (rule lifecycle_state_fixed) (simp add: VALID_PROMPT_LIFECYCLE_STATES_def)
  obtain R' st where "transition_prompt ''t2'' (PStr ''p1'') (PStr ''suspended'') PNone sample_registry = (R', Inr st)"
    "prompts R' = (prompts sample_registry)(norm_string (PStr ''p1'') \<mapsto> (new_view ''active'' ''v1.0'')\<lparr>pv_status := ''suspended''\<rparr>)"
    using ok p s by (rule transition_succeeds)
  then show ?thesis by (simp add: sample_suspended_def norm_p1 new_view_def del: norm_string_PStr)
qed

section \<open>Properties\<close>

text \<open>
  C33. The registry stays well formed. After any operations from an empty file, whether they return or
  raise, and any restarts, the ids of the entries are distinct and every entry has a known family,
  a valid state that is the last one of its history, canonical and distinct versions with the
  current one among them, and counters with executions equal to successes and failures; and the
  state can be saved, which changes none of this.
\<close>

theorem registry_well_formed:
  assumes "registry_reachable R"
  shows "distinct (map (\<lambda>v. dget (as_dict v) ''prompt_id'') (entries R)) \<and>
    list_all (\<lambda>v. is_dict v \<and> entry_ok (as_dict v)) (entries R) \<and>
    (\<exists>R' s. save now R = (R', Inr s) \<and> entries_ok (entries R') \<and> prompts R' = prompts R)"
proof -
  have ok: "registry_ok R" using reachable_ok [OF assms] by simp
  obtain R' s where "save now R = (R', Inr s)" "registry_ok R'" "prompts R' = prompts R" using ok by (rule save_ok)
  then show ?thesis using registry_ok_entries [OF ok] registry_ok_entries [of R'] by (auto simp: entries_ok_def)
qed

theorem registry_well_formed_witness:
  "list_all (\<lambda>v. is_dict v \<and> entry_ok (as_dict v)) (entries sample_registry) \<and>
   prompts sample_registry ''p1'' = Some (new_view ''active'' ''v1.0'')"
  using registry_well_formed [OF sample_registry_reachable] sample_prompt by blast

text \<open>
  C32. The registry refines a map from prompt ids to states, versions and counters. Every operation,
  with any arguments and whether it returns or raises, is one step of the abstract registry: it
  registers a free id (one nobody has, or whose prompt is retired) with a single version and
  counters at zero, or changes one prompt by a valid state, by a version it did not have, or by
  one counted execution or denial, or migrates all prompts, or changes nothing.
\<close>

theorem registry_refines_map:
  assumes "registry_reachable R" and "registry_step R R'"
  shows "spec_step (prompts R) (prompts R')"
  using step_refines [OF _ _ assms(2)] reachable_ok [OF assms(1)] by (simp add: refines_def)

theorem registry_refines_map_witness:
  "spec_step (prompts sample_registry) (prompts sample_suspended) \<and>
   prompts sample_registry ''p1'' = Some (new_view ''active'' ''v1.0'') \<and>
   prompts sample_suspended ''p1'' = Some (new_view ''suspended'' ''v1.0'')"
  using registry_refines_map [OF sample_registry_reachable sample_suspended_step] sample_prompt sample_suspended_prompt by blast



text \<open>
  An update that is refused is half applied. Changing the family of a registered prompt together
  with a version it already has raises \<open>duplicate_prompt_version\<close>, and yet the registry has the
  new family from then on, although the file does not.
\<close>

theorem refused_update_half_applied:
  assumes "registry_reachable R" and "prompts R (norm_string p) = Some pv"
    and "registered_task_family family = Inr t"
    and "normalize_prompt_version False version = Inr v" and "v \<in> set (pv_versions pv)"
  shows "\<exists>R' e. update_prompt now p (no_args\<lparr>pa_task_family := family, pa_version := version\<rparr>) R =
      (R', Inl (ValueError ''duplicate_prompt_version'')) \<and>
    get_prompt p R' = Inr e \<and> dget e ''task_family'' = PStr t \<and> pr_file R' = pr_file R"
proof -
  let ?a = "no_args\<lparr>pa_task_family := family, pa_version := version\<rparr>"
  have ok: "registry_ok R" using reachable_ok [OF assms(1)] by simp
  obtain i e where ie: "find_prompt_entry (PDict (pr_state R)) p = Some (i, e)"
    using find_entry_prompts(1) [OF ok, of p] assms(2) by (cases "find_prompt_entry (PDict (pr_state R)) p") auto
  have f: "norm_string p \<noteq> []" "find_entry (norm_string p) (entries R) = Some (i, e)" using ie by (simp_all add: find_prompt_entry_iff)
  have e: "entry_ok e" by (rule entry_found_ok [OF ok f(2)])
  have pv: "pv = view e" using find_entry_prompts(2) [OF ok ie] assms(2) by simp
  let ?e' = "AList.update ''task_family'' (PStr t) e"
  have e': "entry_ok ?e'" "dget ?e' ''prompt_id'' = dget e ''prompt_id''"
    using entry_ok_assign(1) [OF e registered_family_valid [OF assms(3)]] by simp_all
  have "dget ?e' ''versions'' = dget e ''versions''" by simp
  then have "version_step now ?a ?e' = (?e', Some (ValueError ''duplicate_prompt_version''))"
    using assms(4,5) e'(1) unfolding pv by (intro version_step_taken) (simp_all add: view_def no_args_def)
  moreover have "family \<noteq> PNone" using assms(3) by (auto simp: registered_task_family_def non_empty_def)
  ultimately have "update_prompt_service_definition now ?a e = (?e', Some (ValueError ''duplicate_prompt_version''))"
    using assms(3) by (simp add: update_prompt_service_definition_def given_def no_args_def field_def access_step_def)
  then have "update_prompt now p ?a R = (set_entry i ?e' R, Inl (ValueError ''duplicate_prompt_version''))"
    using ie by (simp add: update_prompt_def on_entry_def)
  moreover have "get_prompt p (set_entry i ?e' R) = Inr ?e'"
    using f find_entry_update [OF f(2), of ?e' "norm_string p"] find_entry_Some [OF f(2)]
    by (simp add: get_prompt_def find_prompt_entry_def entries_def set_entry_def set_entries_def)
  ultimately show ?thesis by (intro exI [of _ "set_entry i ?e' R"] exI [of _ ?e']) simp
qed

theorem refused_update_half_applied_witness:
  "\<exists>R' e. update_prompt ''t2'' (PStr ''p1'') (no_args\<lparr>pa_task_family := PStr ''task.translation'', pa_version := PStr ''v1''\<rparr>)
      sample_registry = (R', Inl (ValueError ''duplicate_prompt_version'')) \<and>
    get_prompt (PStr ''p1'') R' = Inr e \<and> dget e ''task_family'' = PStr ''task.translation'' \<and> pr_file R' = pr_file sample_registry"
proof (rule refused_update_half_applied [OF sample_registry_reachable, where pv = "new_view ''active'' ''v1.0''" and v = "''v1.0''"])
  show "prompts sample_registry (norm_string (PStr ''p1'')) = Some (new_view ''active'' ''v1.0'')"
    unfolding norm_p1 by (rule sample_prompt)
  show "registered_task_family (PStr ''task.translation'') = Inr ''task.translation''" by code_simp
  show "normalize_prompt_version False (PStr ''v1'') = Inr ''v1.0''" by code_simp
qed (simp add: new_view_def)

end
