(* ===== verification/Gateway.thy ===== *)
theory Gateway
  imports Prompt_Invariants
begin

text \<open>
  The execution gateway (\<open>execution/gateway.py\<close>): whether a caller may run a registered prompt, on
  which version and under which constraints. The gateway reads a snapshot of the state of the
  prompt registry; the properties at the end say what its answers mean for a registry.
\<close>

section \<open>Routing and callers\<close>

definition gateway_routing_mode :: "pyval \<Rightarrow> string option" where
  "gateway_routing_mode v =
     (let mode = py_lower (norm_string v) in if mode \<in> set VALID_PROMPT_ROUTING_POLICY_MODES then Some mode else None)"

definition provider_scope :: "pyval \<Rightarrow> string option" where
  "provider_scope v =
     (let provider = py_lower (norm_string v)
      in if provider = [] then None else Some (if provider = ''local'' then ''local'' else ''cloud''))"

definition routing_mode_allows_provider :: "string option \<Rightarrow> pyval \<Rightarrow> bool" where
  "routing_mode_allows_provider mode provider_id =
     (case (provider_scope provider_id, mode) of
        (Some scope, Some m) \<Rightarrow>
          if m = ''local_only'' then scope = ''local''
          else if m = ''cloud_only'' then scope = ''cloud''
          else True
      | _ \<Rightarrow> True)"

definition privacy_routing_mode :: "pyval \<Rightarrow> string option" where
  "privacy_routing_mode v =
     (if py_lower (norm_string v) \<in> {''restricted'', ''sensitive''} then Some ''local_only'' else None)"

record auth_request =
  aq_prompt_id :: pyval
  aq_task_family :: pyval
  aq_prompt_version :: pyval
  aq_requested_by :: pyval
  aq_service_id :: pyval
  aq_customer_id :: pyval
  aq_requested_provider :: pyval
  aq_requested_model :: pyval
  aq_inputs :: pyval

record ExecutionAuthorizationResult =
  ea_allowed :: bool
  ea_reason :: string
  ea_prompt_id :: string
  ea_task_family :: string
  ea_prompt_version :: "string option"
  ea_prompt_state :: "string option"
  ea_privacy_class :: "string option"
  ea_provider_preferences :: "pydict option"
  ea_prompt_constraints :: "pydict option"
  ea_execution_policy :: "pydict option"
  ea_prompt_definition :: "pydict option"

text \<open>The scope a prompt is shared in, its owners, and whether the caller is one of them.\<close>

definition prompt_scope :: "pydict \<Rightarrow> string" where
  "prompt_scope matched =
     (let s = py_lower (norm_string (py_or (dget matched ''access_scope'') (PStr ''service'')))
      in if s = [] then ''service'' else s)"

definition prompt_owner_service :: "pydict \<Rightarrow> string" where
  "prompt_owner_service matched = norm_string (py_or (dget matched ''owner_service'') (dget matched ''service_id''))"

definition caller_service :: "auth_request \<Rightarrow> string" where
  "caller_service q =
     (if norm_string (aq_service_id q) \<noteq> [] then norm_string (aq_service_id q) else norm_string (aq_requested_by q))"

definition owner_allowed :: "pydict \<Rightarrow> auth_request \<Rightarrow> bool" where
  "owner_allowed matched q =
     (let owner_client_id = norm_string (dget matched ''owner_client_id''); owner_service = prompt_owner_service matched
      in (owner_client_id \<noteq> [] \<and> norm_string (aq_requested_by q) = owner_client_id)
         \<or> (owner_service \<noteq> [] \<and> caller_service q = owner_service))"

definition listed :: "string \<Rightarrow> pyval \<Rightarrow> bool" where
  "listed s v = (s \<noteq> [] \<and> s \<in> set (norm_string_list v))"

definition is_caller_allowed :: "pydict \<Rightarrow> auth_request \<Rightarrow> bool" where
  "is_caller_allowed matched q =
     (let scope = prompt_scope matched; owner_service = prompt_owner_service matched
      in if scope = ''public'' then True
         else if scope = ''private'' then owner_allowed matched q
         else if scope = ''service'' then owner_service = [] \<or> caller_service q = owner_service
         else if scope = ''shared''
         then owner_allowed matched q \<or> listed (caller_service q) (dget matched ''allowed_services'')
           \<or> listed (norm_string (aq_requested_by q)) (dget matched ''allowed_clients'')
           \<or> listed (norm_string (aq_customer_id q)) (dget matched ''allowed_customers'')
         else owner_allowed matched q)"

section \<open>Authorisation\<close>

text \<open>\<open>[str(i).strip().lower() for i in list(v or []) if str(i).strip()]\<close>.\<close>

definition lower_items :: "pyval \<Rightarrow> string list result" where
  "lower_items v =
     ebind (py_list (py_or v (PList []))) (\<lambda>items.
     Inr (map py_lower (filter (\<lambda>s. s \<noteq> []) (map (\<lambda>i. py_strip (py_str i)) items))))"

definition refusal :: "string \<Rightarrow> string \<Rightarrow> string \<Rightarrow> string option \<Rightarrow> ExecutionAuthorizationResult" where
  "refusal reason prompt task state =
     \<lparr>ea_allowed = False, ea_reason = reason, ea_prompt_id = prompt, ea_task_family = task, ea_prompt_version = None,
      ea_prompt_state = state, ea_privacy_class = None, ea_provider_preferences = None, ea_prompt_constraints = None,
      ea_execution_policy = None, ea_prompt_definition = None\<rparr>"

definition prompt_privacy :: "pydict \<Rightarrow> string" where
  "prompt_privacy matched =
     (let p = py_lower (norm_string (py_or (dget matched ''privacy_class'') (PStr ''internal'')))
      in if p = [] then ''internal'' else p)"

text \<open>The mode that binds the provider: the one of the privacy class before the one of the prompt.\<close>

definition effective_routing_mode :: "pydict \<Rightarrow> string option" where
  "effective_routing_mode matched =
     (case privacy_routing_mode (PStr (prompt_privacy matched)) of
        Some m \<Rightarrow> Some m
      | None \<Rightarrow> gateway_routing_mode
          (dget (as_dict (dget (as_dict (dget matched ''constraints'')) ''routing_policy'')) ''mode''))"

definition has_schema :: "pyval \<Rightarrow> bool" where
  "has_schema inputs =
     (is_dict (dget (as_dict inputs) ''structured_output_schema'') \<or> is_dict (dget (as_dict inputs) ''json_schema''))"

text \<open>The checks on a registered prompt of the right family, in the order of the code: the version,
  the state, the caller, the execution policy, the provider, the model, the routing and the inputs.\<close>

definition authorize_prompt ::
    "string \<Rightarrow> auth_request \<Rightarrow> string \<Rightarrow> string \<Rightarrow> pydict \<Rightarrow> ExecutionAuthorizationResult result" where
  "authorize_prompt now q prompt task matched =
     ebind (find_prompt_version now matched (aq_prompt_version q)) (\<lambda>found.
     case found of
       None \<Rightarrow> Inr (refusal ''invalid_prompt_version'' prompt task None)
     | Some version_entry \<Rightarrow>
         ebind (normalize_prompt_lifecycle_state (py_or (dget matched ''status'') (PStr ''active''))) (\<lambda>state.
         let deny = (\<lambda>reason. Inr (refusal reason prompt task (Some state)));
             execution_policy = as_dict (dget matched ''execution_policy'');
             provider_preferences = as_dict (dget matched ''provider_preferences'');
             prompt_constraints = as_dict (dget matched ''constraints'');
             provider = py_lower (norm_string (aq_requested_provider q));
             model = py_lower (norm_string (aq_requested_model q))
         in if state = ''probation'' then deny ''prompt_in_probation''
            else if state \<notin> {''active'', ''review_due''} then deny ''prompt_state_invalid''
            else if \<not> is_caller_allowed matched q then deny ''prompt_access_denied''
            else if dget execution_policy ''allow_direct_execution'' = PBool False then deny ''prompt_state_invalid''
            else
              ebind (lower_items (dget provider_preferences ''preferred_providers'')) (\<lambda>preferred_providers.
              ebind (lower_items (dget provider_preferences ''preferred_models'')) (\<lambda>preferred_models.
              if provider \<noteq> [] \<and> preferred_providers \<noteq> [] \<and> provider \<notin> set preferred_providers
              then deny ''prompt_provider_not_allowed''
              else
                ebind (lower_items (dget prompt_constraints ''allowed_model_overrides'')) (\<lambda>overrides.
                if model \<noteq> [] \<and> overrides \<noteq> [] \<and> model \<notin> set (overrides @ preferred_models)
                then deny ''prompt_model_override_not_allowed''
                else if provider \<noteq> [] \<and>
                    \<not> routing_mode_allows_provider (effective_routing_mode matched) (PStr provider)
                then deny ''prompt_routing_policy_conflict''
                else if truthy (dget prompt_constraints ''structured_output_required'') \<and> \<not> has_schema (aq_inputs q)
                then deny ''prompt_structured_output_required''
                else Inr
                  \<lparr>ea_allowed = True, ea_reason = ''authorized'', ea_prompt_id = prompt, ea_task_family = task,
                   ea_prompt_version = none_if_empty (norm_string (dget version_entry ''version'')),
                   ea_prompt_state = Some state, ea_privacy_class = Some (prompt_privacy matched),
                   ea_provider_preferences = Some provider_preferences,
                   ea_prompt_constraints = Some prompt_constraints,
                   ea_execution_policy = Some execution_policy,
                   ea_prompt_definition = Some (as_dict (dget version_entry ''definition''))\<rparr>)))))"

definition authorize :: "string \<Rightarrow> pyval \<Rightarrow> auth_request \<Rightarrow> ExecutionAuthorizationResult result" where
  "authorize now prompt_services_state q =
     (let prompt = norm_string (aq_prompt_id q); task = norm_string (aq_task_family q)
      in if prompt = [] then Inr (refusal ''missing_prompt_id'' prompt task None)
         else if task = [] then Inr (refusal ''missing_task_family'' prompt task None)
         else (case find_prompt_entry prompt_services_state (PStr prompt) of
                 None \<Rightarrow> Inr (refusal ''prompt_not_registered'' prompt task None)
               | Some (_, matched) \<Rightarrow>
                   if norm_string (dget matched ''task_family'') \<noteq> task
                   then Inr (refusal ''prompt_task_family_mismatch'' prompt task None)
                   else authorize_prompt now q prompt task matched))"

section \<open>Lemmas\<close>

lemma refusal_fields [simp]:
  "ea_allowed (refusal r p t s) = False" "ea_reason (refusal r p t s) = r"
  by (simp_all add: refusal_def)

text \<open>What an allowed answer says of the prompt.\<close>

lemma authorize_prompt_allowed:
  assumes "authorize_prompt now q prompt task m = Inr res" and "ea_allowed res"
  obtains ve state pps pms ovs where
    "find_prompt_version now m (aq_prompt_version q) = Inr (Some ve)"
    and "normalize_prompt_lifecycle_state (py_or (dget m ''status'') (PStr ''active'')) = Inr state"
    and "state \<in> {''active'', ''review_due''}" and "is_caller_allowed m q"
    and "dget (as_dict (dget m ''execution_policy'')) ''allow_direct_execution'' \<noteq> PBool False"
    and "lower_items (dget (as_dict (dget m ''provider_preferences'')) ''preferred_providers'') = Inr pps"
    and "lower_items (dget (as_dict (dget m ''provider_preferences'')) ''preferred_models'') = Inr pms"
    and "lower_items (dget (as_dict (dget m ''constraints'')) ''allowed_model_overrides'') = Inr ovs"
    and "py_lower (norm_string (aq_requested_provider q)) = [] \<or> pps = [] \<or>
      py_lower (norm_string (aq_requested_provider q)) \<in> set pps"
    and "py_lower (norm_string (aq_requested_model q)) = [] \<or> ovs = [] \<or>
      py_lower (norm_string (aq_requested_model q)) \<in> set (ovs @ pms)"
    and "py_lower (norm_string (aq_requested_provider q)) = [] \<or>
      routing_mode_allows_provider (effective_routing_mode m) (PStr (py_lower (norm_string (aq_requested_provider q))))"
    and "truthy (dget (as_dict (dget m ''constraints'')) ''structured_output_required'') \<longrightarrow> has_schema (aq_inputs q)"
    and "ea_prompt_version res = none_if_empty (norm_string (dget ve ''version''))" and "ea_prompt_state res = Some state"
    and "ea_privacy_class res = Some (prompt_privacy m)"
proof -
  obtain found where f: "find_prompt_version now m (aq_prompt_version q) = Inr found"
    using assms(1) by (auto simp: authorize_prompt_def ebind_Inr_conv)
  with assms obtain ve where ve: "found = Some ve" by (cases found) (auto simp: authorize_prompt_def)
  obtain state where st: "normalize_prompt_lifecycle_state (py_or (dget m ''status'') (PStr ''active'')) = Inr state"
    using assms(1) f ve by (auto simp: authorize_prompt_def ebind_Inr_conv)
  have ok: "state \<in> {''active'', ''review_due''}" "is_caller_allowed m q"
    "dget (as_dict (dget m ''execution_policy'')) ''allow_direct_execution'' \<noteq> PBool False"
    using assms f ve st by (auto simp: authorize_prompt_def Let_def split: if_splits)
  let ?pps = "lower_items (dget (as_dict (dget m ''provider_preferences'')) ''preferred_providers'')"
  let ?pms = "lower_items (dget (as_dict (dget m ''provider_preferences'')) ''preferred_models'')"
  let ?ovs = "lower_items (dget (as_dict (dget m ''constraints'')) ''allowed_model_overrides'')"
  have np: "state \<noteq> ''probation''" and ns: "(state \<noteq> ''active'' \<and> state \<noteq> ''review_due'') = False"
    using ok(1) by auto
  note D = authorize_prompt_def Let_def ns f ve st np ok(2,3)
  have A: "ebind ?pps (\<lambda>x. ebind ?pms (\<lambda>y. k x y)) = Inr res \<Longrightarrow> \<exists>pps pms. ?pps = Inr pps \<and> ?pms = Inr pms"
    for k :: "_ \<Rightarrow> _ \<Rightarrow> ExecutionAuthorizationResult result"
    by (cases ?pps; cases ?pms; simp)
  have "\<exists>pps pms. ?pps = Inr pps \<and> ?pms = Inr pms"
    by (rule A) (use assms(1) in \<open>simp add: D\<close>)
  then obtain pps pms where l: "?pps = Inr pps" "?pms = Inr pms" by blast
  have pr: "py_lower (norm_string (aq_requested_provider q)) = [] \<or> pps = [] \<or>
      py_lower (norm_string (aq_requested_provider q)) \<in> set pps"
    using assms by (auto simp: D l split: if_splits)
  have np': "(norm_string (aq_requested_provider q) \<noteq> [] \<and> pps \<noteq> [] \<and>
      py_lower (norm_string (aq_requested_provider q)) \<notin> set pps) = False"
    using pr by auto
  obtain ovs where o: "?ovs = Inr ovs"
    using assms by (cases ?ovs) (simp_all add: D l np')
  show ?thesis
    by (rule that [OF f [unfolded ve] st ok l o pr]) (use assms in \<open>auto simp: D l o np' split: if_splits\<close>)
qed

text \<open>The entry behind an allowed answer.\<close>

lemma authorize_allowed:
  assumes "authorize now state q = Inr res" and "ea_allowed res"
  obtains i e where "find_prompt_entry state (aq_prompt_id q) = Some (i, e)"
    and "norm_string (dget e ''task_family'') = norm_string (aq_task_family q)" and "norm_string (aq_task_family q) \<noteq> []"
    and "authorize_prompt now q (norm_string (aq_prompt_id q)) (norm_string (aq_task_family q)) e = Inr res"
proof -
  let ?f = "find_prompt_entry state (PStr (norm_string (aq_prompt_id q)))"
  have ne: "norm_string (aq_prompt_id q) \<noteq> []" "norm_string (aq_task_family q) \<noteq> []"
    using assms by (auto simp: authorize_def Let_def split: if_splits)
  obtain i e where ie: "?f = Some (i, e)"
    using assms ne by (cases ?f) (auto simp: authorize_def Let_def)
  have t: "norm_string (dget e ''task_family'') = norm_string (aq_task_family q)"
    using assms ne ie by (auto simp: authorize_def Let_def simp del: norm_string_PStr split: if_splits)
  show ?thesis
    by (rule that [of i e]) (use assms ne ie t in \<open>simp_all add: authorize_def Let_def find_prompt_entry_def norm_string_stripped split: if_splits\<close>)
qed

lemma stored_version_name:
  assumes "stored_version target vs = Some ve" and "list_all version_item_ok vs"
  shows "dget ve ''version'' = PStr target \<and> target \<in> (\<lambda>v. text_of (version_name v)) ` set vs"
  using assms
proof (induction vs)
  case (Cons v vs)
  then obtain d s where d: "v = PDict d" "dget d ''version'' = PStr s" "canonical_version s"
    by (auto simp: version_name_def elim!: version_item_ok_cases)
  then have n: "normalize_prompt_version True (dget d ''version'') = Inr s" by (simp add: normalize_canonical)
  show ?case
  proof (cases "s = target")
    case True
    then show ?thesis using Cons.prems(1) d n by (auto simp: version_name_def text_of_def)
  next
    case False
    then show ?thesis using Cons d n by auto
  qed
qed simp

lemma found_version_held:
  assumes "entry_ok e" and "find_prompt_version now e requested = Inr (Some ve)"
  obtains v where "dget ve ''version'' = PStr v" and "canonical_version v" and "v \<in> set (pv_versions (view e))"
    and "optional_string requested = None \<longrightarrow> v = pv_current (view e)"
proof -
  let ?vs = "as_list (dget e ''versions'')"
  have vs: "list_all version_item_ok ?vs" "dget e ''current_version'' \<in> set (map version_name ?vs)"
    using assms(1) by (simp_all add: entry_ok_def versions_ok_def)
  then have ne: "?vs \<noteq> []" by auto
  obtain c where c: "dget e ''current_version'' = PStr c" "canonical_version c"
    using vs by (auto simp: list_all_iff version_name_def elim!: version_item_ok_cases dest!: bspec)
  let ?w = "case optional_string requested of Some v \<Rightarrow> PStr v | None \<Rightarrow> dget e ''current_version''"
  obtain target where t: "stored_version target ?vs = Some ve"
    and w: "normalize_prompt_version False ?w = Inr target \<or> normalize_prompt_version True ?w = Inr target"
    using assms(2) ne by (auto simp: find_prompt_version_def Let_def ebind_Inr_conv split: sum.splits)
  have v: "dget ve ''version'' = PStr target" "target \<in> set (pv_versions (view e))"
    using stored_version_name [OF t vs(1)] by (simp_all add: view_def)
  obtain x where x: "x \<in> set ?vs" "target = text_of (version_name x)"
    using stored_version_name [OF t vs(1)] by blast
  then have "version_item_ok x" using vs(1) by (simp add: list_all_iff)
  then have can: "canonical_version target" using x(2) by (auto simp: text_of_def version_name_def elim: version_item_ok_cases)
  have "target = pv_current (view e)" if "optional_string requested = None"
  proof -
    have "?w = PStr c" using that c(1) by simp
    from w [unfolded this normalize_canonical [OF c(2)]] have "target = c" by blast
    then show ?thesis using c(1) by (simp add: view_def text_of_def)
  qed
  then have cur: "optional_string requested = None \<longrightarrow> target = pv_current (view e)" ..
  show ?thesis by (rule that [OF v(1) can v(2) cur])
qed

lemma caller_allowed_owner:
  assumes "is_caller_allowed e q" and "prompt_scope e \<noteq> ''public''" and "prompt_owner_service e \<noteq> []"
  shows "owner_allowed e q \<or> prompt_scope e = ''shared'' \<and>
    (listed (caller_service q) (dget e ''allowed_services'') \<or>
     listed (norm_string (aq_requested_by q)) (dget e ''allowed_clients'') \<or>
     listed (norm_string (aq_customer_id q)) (dget e ''allowed_customers''))"
  using assms unfolding is_caller_allowed_def Let_def
  by (simp split: if_splits add: owner_allowed_def Let_def)

lemma private_is_local:
  assumes "prompt_privacy e \<in> {''restricted'', ''sensitive''}"
    and "py_lower p = [] \<or> routing_mode_allows_provider (effective_routing_mode e) (PStr (py_lower p))" and "p \<noteq> []"
    and "py_strip p = p"
  shows "py_lower p = ''local''"
proof -
  have "privacy_routing_mode (PStr ''restricted'') = Some ''local_only''" "privacy_routing_mode (PStr ''sensitive'') = Some ''local_only''"
    by code_simp+
  then have "effective_routing_mode e = Some ''local_only''" using assms(1) by (auto simp: effective_routing_mode_def)
  moreover have "py_lower (norm_string (PStr (py_lower p))) = py_lower p"
    using assms(4) by (simp add: py_lower_strip [symmetric])
  ultimately show ?thesis
    using assms(2,3) by (auto simp: routing_mode_allows_provider_def provider_scope_def Let_def simp del: norm_string_PStr split: if_splits)
qed

text \<open>On a registry, an allowed answer is about the abstract prompt.\<close>

lemma agreed_version:
  assumes "registry_reachable R" and "authorize now (PDict (pr_state R)) q = Inr res" and "ea_allowed res"
  shows "\<exists>pv v. prompts R (norm_string (aq_prompt_id q)) = Some pv \<and> pv_status pv \<in> {''active'', ''review_due''} \<and>
    ea_prompt_state res = Some (pv_status pv) \<and> ea_prompt_version res = Some v \<and> v \<in> set (pv_versions pv) \<and>
    (optional_string (aq_prompt_version q) = None \<longrightarrow> v = pv_current pv)"
proof -
  have ok: "registry_ok R" using reachable_ok [OF assms(1)] by simp
  obtain i e where ie: "find_prompt_entry (PDict (pr_state R)) (aq_prompt_id q) = Some (i, e)"
    and a: "authorize_prompt now q (norm_string (aq_prompt_id q)) (norm_string (aq_task_family q)) e = Inr res"
    using assms(2,3) by (rule authorize_allowed)
  have e: "entry_ok e" using ie by (intro entry_found_ok [OF ok, of "norm_string (aq_prompt_id q)" i]) (simp add: find_prompt_entry_iff)
  from a assms(3) show ?thesis
  proof (cases rule: authorize_prompt_allowed)
    case (1 ve s pps pms ovs)
    obtain v where v: "dget ve ''version'' = PStr v" "canonical_version v" "v \<in> set (pv_versions (view e))"
      "optional_string (aq_prompt_version q) = None \<longrightarrow> v = pv_current (view e)"
      by (rule found_version_held [OF e 1(1)])
    have "ea_prompt_version res = Some v"
    proof -
      have "v \<noteq> []" using v(2) by (auto simp: canonical_version_def)
      then show ?thesis unfolding 1(13) v(1) norm_string_PStr canonical_stripped [OF v(2)] by (simp add: none_if_empty_def)
    qed
    moreover obtain st where "normalize_prompt_lifecycle_state (py_or (dget e ''status'') (PStr ''active'')) = Inr st" "pv_status (view e) = st"
      using e by (rule entry_status)
    ultimately show ?thesis
      using find_entry_prompts(2) [OF ok ie] v 1(2,3,14) by (intro exI [of _ "view e"] exI [of _ v]) simp
  qed
qed

section \<open>Properties\<close>


definition sample_auth_request :: auth_request where
  "sample_auth_request =
     \<lparr>aq_prompt_id = PStr ''p1'', aq_task_family = PStr ''task.chat'', aq_prompt_version = PNone,
      aq_requested_by = PStr ''alice'', aq_service_id = PStr ''svc'', aq_customer_id = PNone,
      aq_requested_provider = PStr ''local'', aq_requested_model = PNone, aq_inputs = PNone\<rparr>"

definition sample_prompt_state :: pyval where
  "sample_prompt_state = PDict [(''prompt_services'', PList [PDict
     [(''prompt_id'', PStr ''p1''), (''task_family'', PStr ''task.chat''), (''status'', PStr ''active''),
      (''owner_service'', PStr ''other''), (''access_scope'', PStr ''shared''), (''allowed_services'', PList [PStr ''svc'']),
      (''privacy_class'', PStr ''sensitive'')]])]"

lemma sample_auth_allowed: "\<exists>res. authorize ''t0'' sample_prompt_state sample_auth_request = Inr res \<and> ea_allowed res"
proof -
  have "case authorize ''t0'' sample_prompt_state sample_auth_request of Inr res \<Rightarrow> ea_allowed res | Inl _ \<Rightarrow> False" by code_simp
  then show ?thesis by (auto split: sum.splits)
qed


text \<open>
  C36. The gateway and the registry agree. On the state of a reachable registry, an allowed execution is
  of a prompt that the abstract registry has as active or due for review; the version it runs is
  one of the prompt's versions, and is its current one when the request asks for none.
\<close>

theorem gateway_agrees_with_registry:
  assumes "registry_reachable R" and "authorize now (PDict (pr_state R)) q = Inr res" and "ea_allowed res"
  shows "\<exists>pv v. prompts R (norm_string (aq_prompt_id q)) = Some pv \<and> pv_status pv \<in> {''active'', ''review_due''} \<and>
    ea_prompt_state res = Some (pv_status pv) \<and> ea_prompt_version res = Some v \<and> v \<in> set (pv_versions pv) \<and>
    (optional_string (aq_prompt_version q) = None \<longrightarrow> v = pv_current pv)"
  using agreed_version [OF assms] by blast

theorem gateway_agrees_with_registry_witness:
  "\<exists>res. authorize ''t2'' (PDict (pr_state sample_registry)) sample_auth_request = Inr res \<and> ea_prompt_version res = Some ''v1.0''"
proof -
  have "case authorize ''t2'' (PDict (pr_state sample_registry)) sample_auth_request of Inr res \<Rightarrow> ea_allowed res | Inl _ \<Rightarrow> False"
    by code_simp
  then obtain res where r: "authorize ''t2'' (PDict (pr_state sample_registry)) sample_auth_request = Inr res" "ea_allowed res"
    by (auto split: sum.splits)
  have q: "norm_string (aq_prompt_id sample_auth_request) = ''p1''" "optional_string (aq_prompt_version sample_auth_request) = None"
    by code_simp+
  obtain pv where "prompts sample_registry ''p1'' = Some pv" "ea_prompt_version res = Some (pv_current pv)"
    using gateway_agrees_with_registry [OF sample_registry_reachable r] unfolding q by blast
  then show ?thesis using r(1) sample_prompt by (intro exI [of _ res]) (auto simp: new_view_def)
qed

text \<open>
  The bulk migration makes suspended prompts executable again. No request is allowed on a prompt
  that the registry has as suspended; after \<open>migrate_all_to_review_due\<close>, which always succeeds, the
  prompt is due for review, a state the gateway accepts.
\<close>

theorem migration_revives_suspended:
  assumes "registry_reachable R" and "prompts R (norm_string p) = Some pv" and "pv_status pv = ''suspended''"
  shows "(norm_string (aq_prompt_id q) = norm_string p \<and> authorize now (PDict (pr_state R)) q = Inr res \<longrightarrow> \<not> ea_allowed res) \<and>
    (\<exists>R' n s. migrate_all_to_review_due now reason R = (R', Inr (n, s)) \<and>
       prompts R' (norm_string p) = Some (pv\<lparr>pv_status := ''review_due''\<rparr>))"
proof -
  have ok: "registry_ok R" using reachable_ok [OF assms(1)] by simp
  obtain R' n s where m: "migrate_all_to_review_due now reason R = (R', Inr (n, s))"
    "prompts R' = (\<lambda>pid. map_option migrated (prompts R pid))" using ok by (rule migrate_ok)
  have "prompts R' (norm_string p) = Some (pv\<lparr>pv_status := ''review_due''\<rparr>)" using m(2) assms(2,3) by (simp add: migrated_def)
  moreover have "\<not> ea_allowed res" if "norm_string (aq_prompt_id q) = norm_string p" "authorize now (PDict (pr_state R)) q = Inr res"
    using agreed_version [OF assms(1) that(2)] assms(2,3) that(1) by auto
  ultimately show ?thesis using m(1) by blast
qed

definition sample_migrated :: prompt_registry where
  "sample_migrated = fst (migrate_all_to_review_due ''t3'' PNone sample_suspended)"

theorem migration_revives_suspended_witness:
  "prompts sample_suspended ''p1'' = Some (new_view ''suspended'' ''v1.0'') \<and>
   prompts sample_migrated ''p1'' = Some (new_view ''review_due'' ''v1.0'')"
proof -
  have R: "registry_reachable sample_suspended" by (rule registry_reachable.stepped [OF sample_registry_reachable sample_suspended_step])
  have p: "prompts sample_suspended (norm_string (PStr ''p1'')) = Some (new_view ''suspended'' ''v1.0'')"
    unfolding norm_p1 by (rule sample_suspended_prompt)
  have st: "pv_status (new_view ''suspended'' ''v1.0'') = ''suspended''" by (simp add: new_view_def)
  obtain R' n s where "migrate_all_to_review_due ''t3'' PNone sample_suspended = (R', Inr (n, s))"
    "prompts R' (norm_string (PStr ''p1'')) = Some ((new_view ''suspended'' ''v1.0'')\<lparr>pv_status := ''review_due''\<rparr>)"
    using migration_revives_suspended [OF R p st] by blast
  then have "prompts sample_migrated ''p1'' = Some (new_view ''review_due'' ''v1.0'')"
    by (simp add: sample_migrated_def norm_p1 new_view_def del: norm_string_PStr)
  then show ?thesis using sample_suspended_prompt by simp
qed

end
