(* ===== verification/Task_Models.thy ===== *)
theory Task_Models
  imports Task_Families Prompt_Versions Queue_Contract
begin

text \<open>
  The request and the result of a task execution (\<open>execution/task_models.py\<close>): the validators of
  every field, the defaults that the request fills in, and the consistency of a result.

  Pydantic checks the declared types before the validators run, so a raw request is a record of
  those types; a \<open>Literal\<close> is a text from a list. It runs all field validators and raises one
  \<open>ValidationError\<close> with all messages, and runs the validators of the whole model only when there
  are none. A validation is therefore the list of messages or the validated record.
\<close>

section \<open>Fields\<close>

definition TaskExecutionPriority :: "string list" where
  "TaskExecutionPriority = [''background'', ''low'', ''normal'', ''high'', ''critical'']"

definition TaskExecutionResponseMode :: "string list" where
  "TaskExecutionResponseMode = [''sync'', ''async_if_queued'']"

definition TaskExecutionStatus :: "string list" where
  "TaskExecutionStatus = [''accepted'', ''completed'', ''failed'', ''rejected'', ''degraded'', ''unsupported'']"

definition TaskExecutionQueueClass :: "string list" where
  "TaskExecutionQueueClass = [''interactive'', ''background'', ''scheduled'']"

definition QueueRoutingPolicy :: "string list" where
  "QueueRoutingPolicy = [''local_only'', ''local_preferred'', ''cloud_fallback'', ''cloud_only'']"

definition normalized_non_empty_string :: "string \<Rightarrow> nat \<Rightarrow> string \<Rightarrow> string result" where
  "normalized_non_empty_string field_name max_length value =
     (let normalized = py_strip value
      in if normalized = [] then Inl (ValueError (field_name @ ''_required''))
         else if max_length < length normalized then Inl (ValueError (field_name @ ''_too_long''))
         else Inr normalized)"

definition optional_field :: "('a \<Rightarrow> 'b result) \<Rightarrow> 'a option \<Rightarrow> 'b option result" where
  "optional_field f v = (case v of None \<Rightarrow> Inr None | Some x \<Rightarrow> ebind (f x) (\<lambda>y. Inr (Some y)))"

definition literal_field :: "string list \<Rightarrow> string \<Rightarrow> string result" where
  "literal_field values v = (if v \<in> set values then Inr v else Inl (ValueError ''literal_error''))"

text \<open>The messages of a field, and its value once there are none.\<close>

fun messages :: "'a result \<Rightarrow> string list" where
  "messages (Inr x) = []"
| "messages (Inl (ValueError m)) = [m]"
| "messages (Inl _) = [''type_error'']"

definition valid :: "'a result \<Rightarrow> 'a" where
  "valid r = (case r of Inr x \<Rightarrow> x | Inl _ \<Rightarrow> undefined)"

section \<open>The queue intent\<close>

record TaskExecutionQueueIntent =
  qi_importance :: string
  qi_priority :: "string option"
  qi_queue_class :: "string option"
  qi_runtime_lane :: "string option"
  qi_max_wait_seconds :: "int option"
  qi_deadline_at :: "datetime option"
  qi_allow_cloud_spillover :: "bool option"
  qi_local_preferred :: "bool option"
  qi_routing_policy :: "string option"
  qi_estimated_vram_mib :: "int option"
  qi_estimated_runtime_seconds :: "int option"
  qi_reason :: "string option"

definition validate_non_negative_int :: "string \<Rightarrow> int \<Rightarrow> int result" where
  "validate_non_negative_int field_name value =
     (if value < 0 then Inl (ValueError (field_name @ ''_must_be_non_negative'')) else Inr value)"

definition validate_queue_reason :: "string option \<Rightarrow> string option result" where
  "validate_queue_reason v =
     (case v of
        None \<Rightarrow> Inr None
      | Some value \<Rightarrow>
          let normalized = py_strip value
          in if 512 < length normalized then Inl (ValueError ''queue_reason_too_long'')
             else Inr (none_if_empty normalized))"

text \<open>A deadline is compared with the time in its own zone, or with the local time when it has none.\<close>

definition validate_deadline_at :: "int \<Rightarrow> int \<Rightarrow> datetime \<Rightarrow> datetime result" where
  "validate_deadline_at now local_now value =
     (if (case value of Aware t \<Rightarrow> t \<le> now | Naive t \<Rightarrow> t \<le> local_now)
      then Inl (ValueError ''queue_deadline_at_must_be_in_future'') else Inr value)"

definition queue_messages :: "int \<Rightarrow> int \<Rightarrow> TaskExecutionQueueIntent \<Rightarrow> string list" where
  "queue_messages now local_now q =
     messages (literal_field TaskExecutionPriority (qi_importance q)) @
     messages (optional_field (literal_field TaskExecutionPriority) (qi_priority q)) @
     messages (optional_field (literal_field TaskExecutionQueueClass) (qi_queue_class q)) @
     messages (optional_field (literal_field RUNTIME_LANES) (qi_runtime_lane q)) @
     messages (optional_field (validate_non_negative_int ''max_wait_seconds'') (qi_max_wait_seconds q)) @
     messages (optional_field (validate_deadline_at now local_now) (qi_deadline_at q)) @
     messages (optional_field (literal_field QueueRoutingPolicy) (qi_routing_policy q)) @
     messages (optional_field (validate_non_negative_int ''estimated_vram_mib'') (qi_estimated_vram_mib q)) @
     messages (optional_field (validate_non_negative_int ''estimated_runtime_seconds'') (qi_estimated_runtime_seconds q)) @
     messages (validate_queue_reason (qi_reason q))"

definition normalized_queue :: "TaskExecutionQueueIntent \<Rightarrow> TaskExecutionQueueIntent" where
  "normalized_queue q = q\<lparr>qi_reason := valid (validate_queue_reason (qi_reason q))\<rparr>"

section \<open>The request\<close>

record TaskExecutionRequest =
  tr_task_id :: string
  tr_idempotency_key :: "string option"
  tr_prompt_id :: "string option"
  tr_prompt_version :: "string option"
  tr_task_family :: string
  tr_requested_by :: string
  tr_service_id :: "string option"
  tr_customer_id :: "string option"
  tr_requested_provider :: "string option"
  tr_requested_model :: "string option"
  tr_inputs :: pydict
  tr_constraints :: pydict
  tr_priority :: string
  tr_queue :: TaskExecutionQueueIntent
  tr_response_mode :: string
  tr_job_name :: "string option"
  tr_timeout_s :: int
  tr_trace_id :: string
  tr_lease_id :: "string option"

definition validate_prompt_version :: "string \<Rightarrow> string result" where
  "validate_prompt_version value =
     ebind (normalized_non_empty_string ''prompt_version'' 128 value)
       (\<lambda>normalized. normalize_prompt_version True (PStr normalized))"

definition validate_task_family :: "string \<Rightarrow> string result" where
  "validate_task_family value =
     ebind (normalized_non_empty_string ''task_family'' 128 value) (\<lambda>normalized.
     case validate_task_family_capabilities (PList [PStr normalized]) of
       Some error \<Rightarrow> Inl (ValueError error)
     | None \<Rightarrow> Inr (case canonicalize_task_family (PStr normalized) of Some f \<Rightarrow> f | None \<Rightarrow> normalized))"

definition validate_timeout_s :: "int \<Rightarrow> int result" where
  "validate_timeout_s timeout =
     (if timeout \<le> 0 then Inl (ValueError ''timeout_s_must_be_positive'')
      else if 3600 < timeout then Inl (ValueError ''timeout_s_exceeds_phase3_limit'')
      else Inr timeout)"

definition text_field :: "string \<Rightarrow> string option \<Rightarrow> string option result" where
  "text_field field_name = optional_field (normalized_non_empty_string field_name 128)"

definition request_messages :: "int \<Rightarrow> int \<Rightarrow> TaskExecutionRequest \<Rightarrow> string list" where
  "request_messages now local_now r =
     messages (normalized_non_empty_string ''task_id'' 128 (tr_task_id r)) @
     messages (text_field ''idempotency_key'' (tr_idempotency_key r)) @
     messages (text_field ''prompt_id'' (tr_prompt_id r)) @
     messages (optional_field validate_prompt_version (tr_prompt_version r)) @
     messages (validate_task_family (tr_task_family r)) @
     messages (normalized_non_empty_string ''requested_by'' 255 (tr_requested_by r)) @
     messages (text_field ''service_id'' (tr_service_id r)) @
     messages (text_field ''customer_id'' (tr_customer_id r)) @
     messages (text_field ''requested_provider'' (tr_requested_provider r)) @
     messages (text_field ''requested_model'' (tr_requested_model r)) @
     messages (literal_field TaskExecutionPriority (tr_priority r)) @
     queue_messages now local_now (tr_queue r) @
     messages (literal_field TaskExecutionResponseMode (tr_response_mode r)) @
     messages (optional_field (normalized_non_empty_string ''job_name'' 255) (tr_job_name r)) @
     messages (validate_timeout_s (tr_timeout_s r)) @
     messages (normalized_non_empty_string ''trace_id'' 128 (tr_trace_id r)) @
     messages (text_field ''lease_id'' (tr_lease_id r))"

definition normalized_request :: "TaskExecutionRequest \<Rightarrow> TaskExecutionRequest" where
  "normalized_request r =
     r\<lparr>tr_task_id := valid (normalized_non_empty_string ''task_id'' 128 (tr_task_id r)),
       tr_idempotency_key := valid (text_field ''idempotency_key'' (tr_idempotency_key r)),
       tr_prompt_id := valid (text_field ''prompt_id'' (tr_prompt_id r)),
       tr_prompt_version := valid (optional_field validate_prompt_version (tr_prompt_version r)),
       tr_task_family := valid (validate_task_family (tr_task_family r)),
       tr_requested_by := valid (normalized_non_empty_string ''requested_by'' 255 (tr_requested_by r)),
       tr_service_id := valid (text_field ''service_id'' (tr_service_id r)),
       tr_customer_id := valid (text_field ''customer_id'' (tr_customer_id r)),
       tr_requested_provider := valid (text_field ''requested_provider'' (tr_requested_provider r)),
       tr_requested_model := valid (text_field ''requested_model'' (tr_requested_model r)),
       tr_queue := normalized_queue (tr_queue r),
       tr_job_name := valid (optional_field (normalized_non_empty_string ''job_name'' 255) (tr_job_name r)),
       tr_trace_id := valid (normalized_non_empty_string ''trace_id'' 128 (tr_trace_id r)),
       tr_lease_id := valid (text_field ''lease_id'' (tr_lease_id r))\<rparr>"

text \<open>The defaults of the queue intent, each from the ones before it.\<close>

definition default_queue_class :: "TaskExecutionRequest \<Rightarrow> string \<Rightarrow> string" where
  "default_queue_class r importance =
     (let task_key = py_lower (norm_string (PStr (tr_task_family r)));
          image_background = task_key \<in> {''task.image_generation'', ''task.generation.image''}
            \<and> tr_priority r \<in> {''background'', ''low''}
      in if importance = ''background'' \<or> image_background then ''background'' else ''interactive'')"

definition default_routing_policy :: "TaskExecutionRequest \<Rightarrow> string" where
  "default_routing_policy r =
     (let routing_policy = as_dict (dget (tr_constraints r) ''routing_policy'');
          mode = py_lower (norm_string (dget routing_policy ''mode''))
      in if mode \<in> {''local_only'', ''local_preferred'', ''cloud_fallback'', ''cloud_only''} then mode
         else (case tr_requested_provider r of
                 Some (c # cs) \<Rightarrow>
                   if py_lower (py_strip (c # cs)) \<notin> {''local'', ''local_vision''} then ''cloud_only''
                   else ''local_preferred''
               | _ \<Rightarrow> ''local_preferred''))"

definition or_default :: "'a option \<Rightarrow> 'a \<Rightarrow> 'a option" where
  "or_default v d = (case v of None \<Rightarrow> Some d | Some x \<Rightarrow> Some x)"

definition with_queue_defaults :: "TaskExecutionRequest \<Rightarrow> TaskExecutionQueueIntent \<Rightarrow> TaskExecutionQueueIntent" where
  "with_queue_defaults r q =
     (let importance = (if qi_importance q = ''normal'' \<and> tr_priority r \<noteq> ''normal'' then tr_priority r
                        else qi_importance q);
          queue_class = or_default (qi_queue_class q) (default_queue_class r importance);
          routing_policy = or_default (qi_routing_policy q) (default_routing_policy r)
      in q\<lparr>qi_importance := importance,
           qi_priority := or_default (qi_priority q) importance,
           qi_queue_class := queue_class,
           qi_max_wait_seconds := or_default (qi_max_wait_seconds q)
             (if queue_class = Some ''background'' then 6 * 60 * 60 else 5 * 60),
           qi_routing_policy := routing_policy,
           qi_local_preferred := or_default (qi_local_preferred q)
             (routing_policy = Some ''local_preferred'' \<or> routing_policy = Some ''cloud_fallback''),
           qi_runtime_lane := or_default (qi_runtime_lane q)
             (infer_runtime_lane PNone (PStr (tr_task_family r)) (opt_str (tr_requested_provider r)))\<rparr>)"

definition normalize_identity_fields :: "TaskExecutionRequest \<Rightarrow> TaskExecutionRequest" where
  "normalize_identity_fields r =
     r\<lparr>tr_service_id := or_default (tr_service_id r) (tr_requested_by r),
       tr_queue := with_queue_defaults r (tr_queue r)\<rparr>"

definition validate_request :: "int \<Rightarrow> int \<Rightarrow> TaskExecutionRequest \<Rightarrow> string list + TaskExecutionRequest" where
  "validate_request now local_now r =
     (case request_messages now local_now r of
        [] \<Rightarrow> Inr (normalize_identity_fields (normalized_request r))
      | ms \<Rightarrow> Inl ms)"

section \<open>The result\<close>

record TaskExecutionMetrics =
  tm_execution_duration_ms :: "rat option"
  tm_provider_latency_ms :: "rat option"
  tm_provider_avg_latency_ms :: "rat option"
  tm_provider_p95_latency_ms :: "rat option"
  tm_provider_success_rate :: "rat option"
  tm_provider_total_requests :: int
  tm_provider_failed_requests :: int
  tm_retries :: int
  tm_fallback_used :: bool
  tm_prompt_tokens :: int
  tm_cached_input_tokens :: int
  tm_completion_tokens :: int
  tm_total_tokens :: int
  tm_estimated_cost :: "rat option"

definition metrics_messages :: "TaskExecutionMetrics \<Rightarrow> string list" where
  "metrics_messages m =
     concat (map (\<lambda>v. if (case v of None \<Rightarrow> True | Some x \<Rightarrow> 0 \<le> x) then [] else [''metrics_value_must_be_non_negative''])
       [tm_execution_duration_ms m, tm_provider_latency_ms m, tm_provider_avg_latency_ms m,
        tm_provider_p95_latency_ms m, tm_provider_success_rate m, tm_estimated_cost m]) @
     concat (map (\<lambda>v. if 0 \<le> v then [] else [''metrics_value_must_be_non_negative''])
       [tm_retries m, tm_prompt_tokens m, tm_cached_input_tokens m, tm_completion_tokens m, tm_total_tokens m,
        tm_provider_total_requests m, tm_provider_failed_requests m])"

record TaskExecutionResult =
  rs_task_id :: string
  rs_status :: string
  rs_output :: "pydict option"
  rs_metrics :: TaskExecutionMetrics
  rs_error_code :: "string option"
  rs_error_message :: "string option"
  rs_provider_used :: "string option"
  rs_model_used :: "string option"
  rs_resolution_metadata :: "pydict option"
  rs_completed_at :: "string option"

definition result_field_messages :: "TaskExecutionResult \<Rightarrow> string list" where
  "result_field_messages r =
     messages (normalized_non_empty_string ''task_id'' 128 (rs_task_id r)) @
     messages (literal_field TaskExecutionStatus (rs_status r)) @
     metrics_messages (rs_metrics r) @
     messages (text_field ''error_code'' (rs_error_code r)) @
     messages (optional_field (normalized_non_empty_string ''error_message'' 4096) (rs_error_message r)) @
     messages (text_field ''provider_used'' (rs_provider_used r)) @
     messages (text_field ''model_used'' (rs_model_used r))"

definition normalized_result :: "TaskExecutionResult \<Rightarrow> TaskExecutionResult" where
  "normalized_result r =
     r\<lparr>rs_task_id := valid (normalized_non_empty_string ''task_id'' 128 (rs_task_id r)),
       rs_error_code := valid (text_field ''error_code'' (rs_error_code r)),
       rs_error_message := valid (optional_field (normalized_non_empty_string ''error_message'' 4096) (rs_error_message r)),
       rs_provider_used := valid (text_field ''provider_used'' (rs_provider_used r)),
       rs_model_used := valid (text_field ''model_used'' (rs_model_used r))\<rparr>"

text \<open>The images of a completed result: a list with at least one, each with a URL and positive sizes.\<close>

definition positive_size :: "pyval \<Rightarrow> bool" where
  "positive_size v = (case v of PInt i \<Rightarrow> 0 < i | _ \<Rightarrow> False)"

definition image_error :: "pyval \<Rightarrow> string option" where
  "image_error img =
     (if \<not> is_dict img \<or> norm_string (dget (as_dict img) ''url'') = []
      then Some ''completed_image_artifact_url_required''
      else (case filter (\<lambda>f. \<not> positive_size (dget (as_dict img) f)) [''width'', ''height'', ''size_bytes''] of
              [] \<Rightarrow> None
            | f # _ \<Rightarrow> Some (''completed_image_artifact_'' @ f @ ''_required'')))"

fun images_error :: "pyval list \<Rightarrow> string option" where
  "images_error [] = None"
| "images_error (img # images) =
     (case image_error img of Some e \<Rightarrow> Some e | None \<Rightarrow> images_error images)"

definition local_only_evidence :: "pydict \<Rightarrow> bool" where
  "local_only_evidence metadata =
     (py_eq (dget metadata ''provider_class'') (PStr ''local'') \<and>
      py_eq (dget metadata ''execution_location'') (PStr ''local'') \<and>
      py_eq (dget metadata ''cloud_used'') (PBool False))"

definition status_error :: "TaskExecutionResult \<Rightarrow> string option" where
  "status_error r =
     (if rs_status r \<in> {''failed'', ''rejected'', ''unsupported''} \<and> rs_error_code r \<in> {None, Some []}
      then Some ''error_code_required_for_non_success_status''
      else if rs_status r \<in> {''completed'', ''degraded''} \<and> rs_output r = None
      then Some ''output_required_for_result_status''
      else if rs_status r = ''accepted'' \<and> rs_completed_at r \<noteq> None
      then Some ''accepted_status_cannot_have_completed_at''
      else if rs_status r \<in> {''completed'', ''failed'', ''rejected'', ''degraded'', ''unsupported''} \<and> rs_completed_at r = None
      then Some ''completed_at_required_for_terminal_status''
      else if rs_status r = ''completed'' \<and>
        (case rs_resolution_metadata r of
           None \<Rightarrow> False
         | Some m \<Rightarrow> py_lower (norm_string (dget m ''routing_policy_mode'')) = ''local_only'' \<and> \<not> local_only_evidence m)
      then Some ''local_only_resolution_evidence_required''
      else if rs_status r = ''completed''
      then (case rs_output r of
              None \<Rightarrow> None
            | Some out \<Rightarrow>
                (case map_of out ''images'' of
                   None \<Rightarrow> None
                 | Some images \<Rightarrow>
                     if as_list images = [] then Some ''completed_image_artifact_required''
                     else images_error (as_list images)))
      else None)"

definition validate_result :: "TaskExecutionResult \<Rightarrow> string list + TaskExecutionResult" where
  "validate_result r =
     (case result_field_messages r of
        [] \<Rightarrow> (case status_error (normalized_result r) of
                 Some e \<Rightarrow> Inl [e] | None \<Rightarrow> Inr (normalized_result r))
      | ms \<Rightarrow> Inl ms)"

section \<open>Lemmas\<close>

lemma messages_Nil_iff [simp]: "messages r = [] \<longleftrightarrow> (\<exists>x. r = Inr x)"
  by (cases r rule: messages.cases) auto

lemma valid_Inr [simp]: "valid (Inr x) = x"
  by (simp add: valid_def)

lemma normalized_string_iff:
  "normalized_non_empty_string f n v = Inr s \<longleftrightarrow> s = py_strip v \<and> s \<noteq> [] \<and> length s \<le> n"
  by (auto simp: normalized_non_empty_string_def Let_def)

lemma optional_field_Inr_iff:
  "optional_field f v = Inr w \<longleftrightarrow> (case v of None \<Rightarrow> w = None | Some x \<Rightarrow> \<exists>y. f x = Inr y \<and> w = Some y)"
  by (cases v) (auto simp: optional_field_def ebind_Inr_conv)

lemma optional_field_again:
  assumes "optional_field f v = Inr w" and "\<And>x y. f x = Inr y \<Longrightarrow> f y = Inr y"
  shows "optional_field f w = Inr w"
  using assms by (auto simp: optional_field_Inr_iff split: option.splits)

lemma text_field_again: "text_field f v = Inr w \<Longrightarrow> text_field f w = Inr w"
  unfolding text_field_def by (erule optional_field_again) (simp add: normalized_string_iff)

lemma literal_field_iff [simp]: "literal_field vs v = Inr w \<longleftrightarrow> w = v \<and> v \<in> set vs"
  by (auto simp: literal_field_def)

lemma stripped_again: "normalized_non_empty_string f n v = Inr s \<Longrightarrow> normalized_non_empty_string f n s = Inr s"
  by (auto simp: normalized_string_iff)

lemma prompt_version_stripped:
  assumes "validate_prompt_version v = Inr w" shows "py_strip w = w" and "w \<noteq> []" and "normalize_prompt_version True (PStr w) = Inr w"
proof -
  obtain s where n: "normalize_prompt_version True (PStr s) = Inr w" using assms by (auto simp: validate_prompt_version_def ebind_Inr_conv)
  show "py_strip w = w" using normalized_cases [OF n] canonical_stripped [of w] legacy_stored_stripped(3) [of w] by blast
  show "w \<noteq> []" using normalized_cases [OF n] by (auto simp: canonical_version_def legacy_stored_def date_text_def)
  show "normalize_prompt_version True (PStr w) = Inr w" using n by (rule normalize_idem)
qed

lemma queue_reason_again: "validate_queue_reason v = Inr w \<Longrightarrow> validate_queue_reason w = Inr w"
  by (auto simp: validate_queue_reason_def Let_def none_if_empty_def split: option.splits if_splits)

lemma canonical_families_short: "list_all (\<lambda>f. length f \<le> 128) CANONICAL_TASK_FAMILIES"
  by code_simp

lemma one_family: "family_list (PList [PStr n]) = (case canonicalize_task_family (PStr n) of None \<Rightarrow> [] | Some c \<Rightarrow> [c])"
  by (simp add: family_list_def List.map_filter_simps canonicalize_str_or split: option.splits)

lemma canonical_family_validated: "f \<in> set CANONICAL_TASK_FAMILIES \<Longrightarrow> validate_task_family f = Inr f"
proof -
  assume f: "f \<in> set CANONICAL_TASK_FAMILIES"
  have c: "canonicalize_task_family (PStr f) = Some f" "family_id_matches f" and i: "family_id_text f" and "length f \<le> 128"
    using f canonical_families_canonical canonical_families_ids canonical_families_short by (auto simp: list_all_iff)
  then have "normalized_non_empty_string ''task_family'' 128 f = Inr f"
    using family_id_text_plain [OF i] by (simp add: normalized_string_iff)
  then show ?thesis using c f by (simp add: validate_task_family_def validate_task_family_capabilities_def one_family)
qed

lemma task_family_validated:
  assumes "validate_task_family v = Inr f" shows "f \<in> set CANONICAL_TASK_FAMILIES"
proof -
  obtain n where n: "py_strip v = n" "n \<noteq> []"
    and val: "validate_task_family_capabilities (PList [PStr n]) = None"
    and f: "f = (case canonicalize_task_family (PStr n) of Some f \<Rightarrow> f | None \<Rightarrow> n)"
    using assms by (auto simp: validate_task_family_def ebind_Inr_conv normalized_string_iff split: option.splits)
  have "canonicalize_task_family (PStr n) \<noteq> None" using n by (auto simp: canonicalize_task_family_def Let_def)
  then obtain c where c: "canonicalize_task_family (PStr n) = Some c" by blast
  then show ?thesis using val f
    by (auto simp: validate_task_family_capabilities_def one_family Let_def split: if_splits)
qed

text \<open>What every validated request satisfies.\<close>

definition id_text :: "nat \<Rightarrow> string \<Rightarrow> bool" where
  "id_text n s = (s \<noteq> [] \<and> py_strip s = s \<and> length s \<le> n)"

lemma id_text_iff: "normalized_non_empty_string f n v = Inr s \<Longrightarrow> id_text n s"
  by (auto simp: normalized_string_iff id_text_def)

lemma id_text_again: "id_text n s \<Longrightarrow> normalized_non_empty_string f n s = Inr s"
  by (simp add: normalized_string_iff id_text_def)

definition queue_ok :: "TaskExecutionQueueIntent \<Rightarrow> bool" where
  "queue_ok q =
     (qi_importance q \<in> set TaskExecutionPriority \<and>
      (\<exists>p \<in> set TaskExecutionPriority. qi_priority q = Some p) \<and>
      (\<exists>c \<in> set TaskExecutionQueueClass. qi_queue_class q = Some c) \<and>
      (\<exists>l \<in> set RUNTIME_LANES. qi_runtime_lane q = Some l) \<and>
      (\<exists>w \<ge> 0. qi_max_wait_seconds q = Some w) \<and>
      (\<exists>m \<in> set QueueRoutingPolicy. qi_routing_policy q = Some m) \<and>
      qi_local_preferred q \<noteq> None)"

lemma queue_defaults_ok:
  assumes "queue_messages now lnow q = []" and "tr_priority r \<in> set TaskExecutionPriority"
  shows "queue_ok (with_queue_defaults r (normalized_queue q))"
proof -
  have "\<exists>p \<in> set TaskExecutionPriority. or_default (qi_priority q) i = Some p"
    if "i \<in> set TaskExecutionPriority" for i
    using assms(1) that by (cases "qi_priority q") (auto simp: queue_messages_def or_default_def optional_field_Inr_iff)
  moreover have "\<exists>c \<in> set TaskExecutionQueueClass. or_default (qi_queue_class q) (default_queue_class r i) = Some c" for i
    using assms(1) by (cases "qi_queue_class q")
      (auto simp: queue_messages_def or_default_def optional_field_Inr_iff default_queue_class_def Let_def TaskExecutionQueueClass_def)
  moreover have "\<exists>l \<in> set RUNTIME_LANES. or_default (qi_runtime_lane q) (infer_runtime_lane PNone f p) = Some l" for f p
    using assms(1) infer_runtime_lane_in_lanes [of PNone f p] by (cases "qi_runtime_lane q")
      (auto simp: queue_messages_def or_default_def optional_field_Inr_iff)
  moreover have "\<exists>w \<ge> 0. or_default (qi_max_wait_seconds q) d = Some w" if "0 \<le> d" for d
    using assms(1) that by (cases "qi_max_wait_seconds q")
      (auto simp: queue_messages_def or_default_def optional_field_Inr_iff validate_non_negative_int_def split: if_splits)
  moreover have "default_routing_policy r \<in> set QueueRoutingPolicy"
    by (auto simp: default_routing_policy_def QueueRoutingPolicy_def Let_def split: option.splits list.splits)
  then have "\<exists>m \<in> set QueueRoutingPolicy. or_default (qi_routing_policy q) (default_routing_policy r) = Some m"
    using assms(1) by (cases "qi_routing_policy q") (auto simp: queue_messages_def or_default_def optional_field_Inr_iff)
  moreover have "or_default (qi_local_preferred q) b \<noteq> None" for b by (cases "qi_local_preferred q") (simp_all add: or_default_def)
  moreover have "qi_importance q \<in> set TaskExecutionPriority" using assms(1) by (auto simp: queue_messages_def)
  ultimately show ?thesis using assms(2)
    unfolding queue_ok_def with_queue_defaults_def Let_def normalized_queue_def by simp
qed

lemma validated_fields:
  assumes "validate_request now lnow r = Inr v"
  shows "v = normalize_identity_fields (normalized_request r)" and "queue_messages now lnow (tr_queue r) = []"
    and "normalized_non_empty_string ''task_id'' 128 (tr_task_id r) = Inr (tr_task_id v)"
    and "text_field ''idempotency_key'' (tr_idempotency_key r) = Inr (tr_idempotency_key v)"
    and "text_field ''prompt_id'' (tr_prompt_id r) = Inr (tr_prompt_id v)"
    and "optional_field validate_prompt_version (tr_prompt_version r) = Inr (tr_prompt_version v)"
    and "validate_task_family (tr_task_family r) = Inr (tr_task_family v)"
    and "normalized_non_empty_string ''requested_by'' 255 (tr_requested_by r) = Inr (tr_requested_by v)"
    and "\<exists>s. text_field ''service_id'' (tr_service_id r) = Inr s \<and> tr_service_id v = or_default s (tr_requested_by v)"
    and "text_field ''customer_id'' (tr_customer_id r) = Inr (tr_customer_id v)"
    and "text_field ''requested_provider'' (tr_requested_provider r) = Inr (tr_requested_provider v)"
    and "text_field ''requested_model'' (tr_requested_model r) = Inr (tr_requested_model v)"
    and "tr_priority v = tr_priority r" and "tr_priority r \<in> set TaskExecutionPriority"
    and "tr_response_mode v = tr_response_mode r" and "tr_response_mode r \<in> set TaskExecutionResponseMode"
    and "optional_field (normalized_non_empty_string ''job_name'' 255) (tr_job_name r) = Inr (tr_job_name v)"
    and "tr_timeout_s v = tr_timeout_s r" and "validate_timeout_s (tr_timeout_s r) = Inr (tr_timeout_s r)"
    and "normalized_non_empty_string ''trace_id'' 128 (tr_trace_id r) = Inr (tr_trace_id v)"
    and "text_field ''lease_id'' (tr_lease_id r) = Inr (tr_lease_id v)"
    and "tr_inputs v = tr_inputs r" and "tr_constraints v = tr_constraints r"
proof -
  have m: "request_messages now lnow r = []" and v: "v = normalize_identity_fields (normalized_request r)"
    using assms by (auto simp: validate_request_def split: list.splits)
  show "v = normalize_identity_fields (normalized_request r)" by (rule v)
  note D = v normalize_identity_fields_def normalized_request_def
  show "queue_messages now lnow (tr_queue r) = []" "tr_priority r \<in> set TaskExecutionPriority"
    "tr_response_mode r \<in> set TaskExecutionResponseMode"
    using m by (auto simp: request_messages_def)
  show "validate_timeout_s (tr_timeout_s r) = Inr (tr_timeout_s r)"
    using m by (auto simp: request_messages_def validate_timeout_s_def)
  show "normalized_non_empty_string ''task_id'' 128 (tr_task_id r) = Inr (tr_task_id v)"
    "text_field ''idempotency_key'' (tr_idempotency_key r) = Inr (tr_idempotency_key v)"
    "text_field ''prompt_id'' (tr_prompt_id r) = Inr (tr_prompt_id v)"
    "optional_field validate_prompt_version (tr_prompt_version r) = Inr (tr_prompt_version v)"
    "validate_task_family (tr_task_family r) = Inr (tr_task_family v)"
    "normalized_non_empty_string ''requested_by'' 255 (tr_requested_by r) = Inr (tr_requested_by v)"
    "\<exists>s. text_field ''service_id'' (tr_service_id r) = Inr s \<and> tr_service_id v = or_default s (tr_requested_by v)"
    "text_field ''customer_id'' (tr_customer_id r) = Inr (tr_customer_id v)"
    "text_field ''requested_provider'' (tr_requested_provider r) = Inr (tr_requested_provider v)"
    "text_field ''requested_model'' (tr_requested_model r) = Inr (tr_requested_model v)"
    "optional_field (normalized_non_empty_string ''job_name'' 255) (tr_job_name r) = Inr (tr_job_name v)"
    "normalized_non_empty_string ''trace_id'' 128 (tr_trace_id r) = Inr (tr_trace_id v)"
    "text_field ''lease_id'' (tr_lease_id r) = Inr (tr_lease_id v)"
    using m unfolding request_messages_def append_is_Nil_conv messages_Nil_iff by (auto simp: D)
  show "tr_priority v = tr_priority r" "tr_response_mode v = tr_response_mode r" "tr_timeout_s v = tr_timeout_s r"
    "tr_inputs v = tr_inputs r" "tr_constraints v = tr_constraints r"
    by (simp_all add: D)
qed

lemma validated_queue:
  assumes "validate_request now lnow r = Inr v"
  shows "tr_queue v = with_queue_defaults (normalized_request r) (normalized_queue (tr_queue r))" and "queue_ok (tr_queue v)"
proof -
  show q: "tr_queue v = with_queue_defaults (normalized_request r) (normalized_queue (tr_queue r))"
    unfolding validated_fields(1) [OF assms] by (simp add: normalize_identity_fields_def normalized_request_def)
  show "queue_ok (tr_queue v)" unfolding q
    by (rule queue_defaults_ok [OF validated_fields(2) [OF assms]]) (simp add: normalized_request_def validated_fields(14) [OF assms])
qed

lemma service_given:
  assumes "validate_request now lnow r = Inr v" shows "\<exists>s. tr_service_id v = Some s \<and> id_text 255 s"
proof -
  note F = validated_fields [OF assms]
  have r: "id_text 255 (tr_requested_by v)" using F(8) by (rule id_text_iff)
  obtain s where s: "text_field ''service_id'' (tr_service_id r) = Inr s" "tr_service_id v = or_default s (tr_requested_by v)" using F(9) by blast
  show ?thesis
  proof (cases s)
    case None
    then show ?thesis using s(2) r by (simp add: or_default_def)
  next
    case (Some x)
    then have "id_text 128 x"
      using s(1) by (auto simp: text_field_def optional_field_Inr_iff intro: id_text_iff split: option.splits)
    then show ?thesis using s(2) Some by (simp add: or_default_def id_text_def)
  qed
qed

lemma version_valid_again:
  assumes "validate_prompt_version v = Inr w"
  shows "validate_prompt_version w = (if length w \<le> 128 then Inr w else Inl (ValueError ''prompt_version_too_long''))"
  using prompt_version_stripped [OF assms]
  by (simp add: validate_prompt_version_def [of w] normalized_non_empty_string_def)

lemma optional_version_again:
  assumes "optional_field validate_prompt_version v = Inr w"
  shows "(\<exists>x. optional_field validate_prompt_version w = Inr x) \<longleftrightarrow> (case w of None \<Rightarrow> True | Some s \<Rightarrow> length s \<le> 128)"
    and "optional_field validate_prompt_version w = Inr x \<Longrightarrow> x = w"
proof -
  consider "w = None" | u a where "validate_prompt_version u = Inr a" "w = Some a"
    using assms by (cases v) (auto simp: optional_field_Inr_iff)
  note cs = this
  from cs show "(\<exists>x. optional_field validate_prompt_version w = Inr x) \<longleftrightarrow> (case w of None \<Rightarrow> True | Some s \<Rightarrow> length s \<le> 128)"
    by cases (simp_all add: optional_field_Inr_iff version_valid_again)
  from cs show "optional_field validate_prompt_version w = Inr x \<Longrightarrow> x = w"
    by cases (simp_all add: optional_field_Inr_iff version_valid_again split: if_splits)
qed

text \<open>Validating again: the queue intent and all fields but two are fixed points.\<close>

lemma queue_defaults_again: "with_queue_defaults v (with_queue_defaults r q) = with_queue_defaults r q"
  if "tr_priority v = tr_priority r"
  using that by (simp add: with_queue_defaults_def Let_def or_default_def split: option.splits)

lemma queue_reason_kept: "qi_reason (with_queue_defaults r q) = qi_reason q"
  by (simp add: with_queue_defaults_def Let_def)

lemma queue_validated_again:
  assumes "queue_messages now lnow q = []" and "tr_priority r \<in> set TaskExecutionPriority"
  shows "queue_messages now lnow (with_queue_defaults r (normalized_queue q)) = []"
    and "normalized_queue (with_queue_defaults r (normalized_queue q)) = with_queue_defaults r (normalized_queue q)"
proof -
  let ?q = "with_queue_defaults r (normalized_queue q)"
  obtain w where w: "validate_queue_reason (qi_reason q) = Inr w" using assms(1) by (auto simp: queue_messages_def)
  have reason: "validate_queue_reason (qi_reason ?q) = Inr (qi_reason ?q)"
    using queue_reason_again [OF w] w by (simp add: queue_reason_kept normalized_queue_def)
  have keep: "qi_deadline_at ?q = qi_deadline_at q" "qi_estimated_vram_mib ?q = qi_estimated_vram_mib q"
    "qi_estimated_runtime_seconds ?q = qi_estimated_runtime_seconds q"
    by (simp_all add: with_queue_defaults_def Let_def normalized_queue_def)
  show "queue_messages now lnow ?q = []"
    using queue_defaults_ok [OF assms] assms(1) reason
    unfolding queue_messages_def queue_ok_def keep append_is_Nil_conv messages_Nil_iff
    by (auto simp: optional_field_Inr_iff validate_non_negative_int_def)
  show "normalized_queue ?q = ?q" using reason by (simp add: normalized_queue_def [of ?q])
qed

lemma revalidation_messages:
  assumes "validate_request now lnow r = Inr v"
  shows "request_messages now lnow v =
    messages (optional_field validate_prompt_version (tr_prompt_version v)) @ messages (text_field ''service_id'' (tr_service_id v))"
proof -
  note F = validated_fields [OF assms]
  have p: "tr_priority (normalized_request r) \<in> set TaskExecutionPriority" using F(14) by (simp add: normalized_request_def)
  have q: "queue_messages now lnow (tr_queue v) = []"
    unfolding validated_queue(1) [OF assms] by (rule queue_validated_again(1) [OF F(2) p])
  have t: "validate_timeout_s (tr_timeout_s v) = Inr (tr_timeout_s v)" using F(18,19) by simp
  have j: "optional_field (normalized_non_empty_string ''job_name'' 255) (tr_job_name v) = Inr (tr_job_name v)"
    by (rule optional_field_again [OF F(17)]) (rule stripped_again)
  show ?thesis
    using F(13-16)
    by (simp add: request_messages_def q t j stripped_again [OF F(3)] text_field_again [OF F(4)] text_field_again [OF F(5)]
      canonical_family_validated [OF task_family_validated [OF F(7)]] stripped_again [OF F(8)]
      text_field_again [OF F(10)] text_field_again [OF F(11)] text_field_again [OF F(12)]
      stripped_again [OF F(20)] text_field_again [OF F(21)])
qed

lemma revalidation_fixed:
  assumes "validate_request now lnow r = Inr v" and "request_messages now lnow v = []"
  shows "normalize_identity_fields (normalized_request v) = v"
proof -
  note F = validated_fields [OF assms(1)]
  have p: "tr_priority (normalized_request r) \<in> set TaskExecutionPriority" using F(14) by (simp add: normalized_request_def)
  have j: "optional_field (normalized_non_empty_string ''job_name'' 255) (tr_job_name v) = Inr (tr_job_name v)"
    by (rule optional_field_again [OF F(17)]) (rule stripped_again)
  obtain s where s: "tr_service_id v = Some s" using F(9) by (auto simp: or_default_def split: option.splits)
  have "py_strip s = s" using service_given [OF assms(1)] s by (auto simp: id_text_def)
  then have "text_field ''service_id'' (tr_service_id v) = Inr (tr_service_id v)"
    using assms(2) s by (auto simp: revalidation_messages [OF assms(1)] text_field_def optional_field_Inr_iff normalized_string_iff)
  moreover have "optional_field validate_prompt_version (tr_prompt_version v) = Inr (tr_prompt_version v)"
    using assms(2) optional_version_again(2) [OF F(6)] by (auto simp: revalidation_messages [OF assms(1)])
  ultimately have n: "normalized_request v = v\<lparr>tr_queue := normalized_queue (tr_queue v)\<rparr>"
    by (simp add: normalized_request_def j stripped_again [OF F(3)] text_field_again [OF F(4)] text_field_again [OF F(5)]
      canonical_family_validated [OF task_family_validated [OF F(7)]] stripped_again [OF F(8)]
      text_field_again [OF F(10)] text_field_again [OF F(11)] text_field_again [OF F(12)]
      stripped_again [OF F(20)] text_field_again [OF F(21)])
  have q: "normalized_queue (tr_queue v) = tr_queue v"
    unfolding validated_queue(1) [OF assms(1)] by (rule queue_validated_again(2) [OF F(2) p])
  have "with_queue_defaults v (tr_queue v) = tr_queue v"
    unfolding validated_queue(1) [OF assms(1)] by (rule queue_defaults_again) (simp add: F(13) normalized_request_def)
  then show ?thesis unfolding n q using s by (simp add: normalize_identity_fields_def or_default_def)
qed

section \<open>A sample request\<close>

definition sample_queue_intent :: TaskExecutionQueueIntent where
  "sample_queue_intent =
     \<lparr>qi_importance = ''normal'', qi_priority = None, qi_queue_class = None, qi_runtime_lane = None,
      qi_max_wait_seconds = None, qi_deadline_at = None, qi_allow_cloud_spillover = None, qi_local_preferred = None,
      qi_routing_policy = None, qi_estimated_vram_mib = None, qi_estimated_runtime_seconds = None, qi_reason = None\<rparr>"

definition sample_task_request :: "string \<Rightarrow> TaskExecutionRequest" where
  "sample_task_request caller =
     \<lparr>tr_task_id = '' t1 '', tr_idempotency_key = None, tr_prompt_id = Some ''p1'', tr_prompt_version = Some ''v1'',
      tr_task_family = ''task.classification.text'', tr_requested_by = caller, tr_service_id = None, tr_customer_id = None,
      tr_requested_provider = Some ''openai'', tr_requested_model = None, tr_inputs = [], tr_constraints = [],
      tr_priority = ''high'', tr_queue = sample_queue_intent, tr_response_mode = ''sync'', tr_job_name = None,
      tr_timeout_s = 60, tr_trace_id = ''trace'', tr_lease_id = None\<rparr>"

definition sample_validated :: "string \<Rightarrow> TaskExecutionRequest" where
  "sample_validated caller = (case validate_request 0 0 (sample_task_request caller) of Inr v \<Rightarrow> v | Inl _ \<Rightarrow> undefined)"

lemma sample_validates:
  "validate_request 0 0 (sample_task_request ''alice'') = Inr (sample_validated ''alice'')"
  "validate_request 0 0 (sample_task_request (replicate 200 CHR ''a'')) = Inr (sample_validated (replicate 200 CHR ''a''))"
proof -
  have "case validate_request 0 0 (sample_task_request ''alice'') of Inr v \<Rightarrow> True | Inl _ \<Rightarrow> False" by code_simp
  then show "validate_request 0 0 (sample_task_request ''alice'') = Inr (sample_validated ''alice'')"
    by (auto simp: sample_validated_def split: sum.splits)
  have "case validate_request 0 0 (sample_task_request (replicate 200 CHR ''a'')) of Inr v \<Rightarrow> True | Inl _ \<Rightarrow> False" by code_simp
  then show "validate_request 0 0 (sample_task_request (replicate 200 CHR ''a'')) = Inr (sample_validated (replicate 200 CHR ''a''))"
    by (auto simp: sample_validated_def split: sum.splits)
qed

section \<open>Properties\<close>

text \<open>
  C38. What a validated request has: ids and names that are stripped, not empty and within their
  bounds, a canonical task family, a timeout of at most an hour, a service, and a queue intent
  with every field the queue reads filled in with a value of its type.
\<close>

theorem validated_request_ok:
  assumes "validate_request now local_now r = Inr v"
  shows "id_text 128 (tr_task_id v) \<and> id_text 255 (tr_requested_by v) \<and> id_text 128 (tr_trace_id v) \<and>
    tr_task_family v \<in> set CANONICAL_TASK_FAMILIES \<and> 0 < tr_timeout_s v \<and> tr_timeout_s v \<le> 3600 \<and>
    (\<exists>s. tr_service_id v = Some s \<and> id_text 255 s) \<and> queue_ok (tr_queue v)"
proof -
  note F = validated_fields [OF assms]
  have r: "id_text 255 (tr_requested_by v)" using F(8) by (rule id_text_iff)
  have "0 < tr_timeout_s v \<and> tr_timeout_s v \<le> 3600"
    using F(18,19) by (auto simp: validate_timeout_s_def split: if_splits)
  then show ?thesis
    using r id_text_iff [OF F(3)] id_text_iff [OF F(20)] task_family_validated [OF F(7)] validated_queue(2) [OF assms]
      service_given [OF assms] by blast
qed


theorem validated_request_ok_witness:
  "tr_task_family (sample_validated ''alice'') \<in> set CANONICAL_TASK_FAMILIES \<and> queue_ok (tr_queue (sample_validated ''alice'')) \<and>
   qi_importance (tr_queue (sample_validated ''alice'')) = ''high''"
proof -
  have "qi_importance (tr_queue (sample_validated ''alice'')) = ''high''" by code_simp
  then show ?thesis using validated_request_ok [OF sample_validates(1)] by blast
qed



end
