(* ===== verification/Task_Inputs.thy ===== *)
theory Task_Inputs
  imports Task_Models Gateway Governance Provider_Policy
begin

text \<open>
  From an accepted request to the request a provider gets: the validation of the inputs
  (\<open>execution/input_validation.py\<close>), the rendering of a prompt template
  (\<open>runtime/prompt_construction.py\<close>), the choice of a handler (\<open>runtime/task_router.py\<close>) and the
  requests that the handlers (\<open>runtime/task_handlers.py\<close>) and the service
  (\<open>runtime/task_execution_service.py\<close>) build.
\<close>

section \<open>Inputs\<close>

record NormalizedTaskInputs =
  ni_prompt :: "string option"
  ni_messages :: "pydict list"
  ni_system_prompt :: "string option"
  ni_max_tokens :: "int option"
  ni_temperature :: "rat option"
  ni_metadata :: pydict

definition normalized_optional_string :: "pyval \<Rightarrow> string option" where
  "normalized_optional_string v = (case v of PStr s \<Rightarrow> none_if_empty (py_strip s) | _ \<Rightarrow> None)"

definition invalid_input :: "'a result" where
  "invalid_input = Inl (ValueError ''invalid_input'')"

definition normalized_message :: "pyval \<Rightarrow> pydict result" where
  "normalized_message entry =
     (case entry of
        PDict d \<Rightarrow>
          (case (normalized_optional_string (dget d ''role''), normalized_optional_string (dget d ''content'')) of
             (Some role, Some content) \<Rightarrow>
               Inr ([(''role'', PStr role), (''content'', PStr content)] @
                 (case normalized_optional_string (dget d ''name'') of None \<Rightarrow> [] | Some n \<Rightarrow> [(''name'', PStr n)]))
           | _ \<Rightarrow> invalid_input)
      | _ \<Rightarrow> invalid_input)"

fun normalized_entries :: "pyval list \<Rightarrow> pydict list result" where
  "normalized_entries [] = Inr []"
| "normalized_entries (v # vs) =
     ebind (normalized_message v) (\<lambda>m. ebind (normalized_entries vs) (\<lambda>ms. Inr (m # ms)))"

definition normalized_messages :: "pyval \<Rightarrow> pydict list result" where
  "normalized_messages v =
     (case v of PNone \<Rightarrow> Inr [] | PList vs \<Rightarrow> normalized_entries vs | _ \<Rightarrow> invalid_input)"

definition normalized_temperature :: "pyval \<Rightarrow> rat option result" where
  "normalized_temperature v =
     (if v = PNone then Inr None
      else (case num_of_pyval v of
              None \<Rightarrow> invalid_input
            | Some x \<Rightarrow> if x < 0 \<or> 2 < x then invalid_input else Inr (Some x)))"

definition normalized_max_tokens :: "pyval \<Rightarrow> int option result" where
  "normalized_max_tokens v =
     (if v = PNone then Inr None
      else (case int_of_pyval v of
              None \<Rightarrow> invalid_input
            | Some n \<Rightarrow> if n \<le> 0 then invalid_input else Inr (Some n)))"

fun first_text :: "string list \<Rightarrow> pydict \<Rightarrow> string option" where
  "first_text [] d = None"
| "first_text (k # ks) d =
     (case normalized_optional_string (dget d k) of Some p \<Rightarrow> Some p | None \<Rightarrow> first_text ks d)"

definition prompt_from_text_like_inputs :: "pydict \<Rightarrow> string option" where
  "prompt_from_text_like_inputs = first_text [''prompt'', ''text'', ''content'', ''body'', ''input_text'']"

definition prompt_from_email_inputs :: "pydict \<Rightarrow> string option \<times> pydict" where
  "prompt_from_email_inputs d =
     (let subject = normalized_optional_string (dget d ''subject'');
          body = first_text [''body'', ''content''] d;
          parts = (case subject of None \<Rightarrow> [] | Some s \<Rightarrow> [''Subject: '' @ s]) @ (case body of None \<Rightarrow> [] | Some b \<Rightarrow> [b])
      in if subject = None \<and> body = None then (None, [])
         else (Some (py_join [CHR 0x0A, CHR 0x0A] parts), [(''email_subject'', opt_str subject)]))"

definition prompt_from_event_inputs :: "pydict \<Rightarrow> string option" where
  "prompt_from_event_inputs d =
     (case dget d ''event'' of
        PDict (kv # kvs) \<Rightarrow> Some (json_dumps json_sorted (PDict (kv # kvs)))
      | _ \<Rightarrow> None)"

definition prompt_from_image_inputs :: "pydict \<Rightarrow> string option \<times> pydict" where
  "prompt_from_image_inputs d =
     (let image_url = normalized_optional_string (dget d ''image_url'');
          image_base64 = normalized_optional_string (dget d ''image_base64'');
          image_count = length (as_list (dget d ''images''))
      in if image_url = None \<and> image_base64 = None \<and> image_count = 0 then (None, [])
         else
           (Some (case normalized_optional_string (dget d ''instruction'') of
                    Some i \<Rightarrow> i | None \<Rightarrow> ''Classify the provided image input.''),
            [(''image_url'', opt_str image_url), (''image_base64_present'', PBool (image_base64 \<noteq> None)),
             (''image_count'', PInt (int image_count))]))"

definition family_prompt :: "string \<Rightarrow> pydict \<Rightarrow> string option \<times> pydict" where
  "family_prompt family d =
     (if py_endswith family ''.email'' then prompt_from_email_inputs d
      else if family = ''task.summarization.event'' then (prompt_from_event_inputs d, [])
      else if py_endswith family ''.image'' then prompt_from_image_inputs d
      else (None, []))"

definition validate_and_normalize_task_inputs :: "pyval \<Rightarrow> pydict \<Rightarrow> NormalizedTaskInputs result" where
  "validate_and_normalize_task_inputs task_family payload =
     ebind (normalized_messages (dget payload ''messages'')) (\<lambda>messages.
     ebind (normalized_max_tokens (dget payload ''max_tokens'')) (\<lambda>max_tokens.
     ebind (normalized_temperature (dget payload ''temperature'')) (\<lambda>temperature.
     let (p, metadata) = family_prompt (py_lower (norm_string task_family)) payload;
         prompt = (case p of Some s \<Rightarrow> Some s | None \<Rightarrow> prompt_from_text_like_inputs payload)
     in if prompt = None \<and> messages = [] then invalid_input
        else Inr \<lparr>ni_prompt = prompt, ni_messages = messages,
                  ni_system_prompt = normalized_optional_string (dget payload ''system_prompt''),
                  ni_max_tokens = max_tokens, ni_temperature = temperature, ni_metadata = metadata\<rparr>)))"

section \<open>Templates\<close>

definition name_char :: "char \<Rightarrow> bool" where
  "name_char c =
     (let n = (of_char c :: nat)
      in (97 \<le> n \<and> n \<le> 122) \<or> (65 \<le> n \<and> n \<le> 90) \<or> (48 \<le> n \<and> n \<le> 57) \<or> n = 95)"

text \<open>A match of the pattern \<open>{{\s*([a-zA-Z0-9_]+)\s*}}\<close> at the start of a text: the name and what follows.\<close>

definition match_variable :: "string \<Rightarrow> (string \<times> string) option" where
  "match_variable s =
     (if \<not> py_startswith s ''{{'' then None
      else
        let body = dropWhile py_isspace (drop 2 s);
            name = takeWhile name_char body;
            rest = dropWhile py_isspace (dropWhile name_char body)
        in if name = [] \<or> \<not> py_startswith rest ''}}'' then None else Some (name, drop 2 rest))"

lemma match_shorter: "match_variable s = Some (n, t) \<Longrightarrow> length t < length s"
proof -
  assume "match_variable s = Some (n, t)"
  then have s: "py_startswith s ''{{''"
    and t: "t = drop 2 (dropWhile py_isspace (dropWhile name_char (dropWhile py_isspace (drop 2 s))))"
    by (auto simp: match_variable_def Let_def split: if_splits)
  from s have "s \<noteq> []" by (auto simp: py_startswith_def)
  have "length t \<le> length (drop 2 s)"
    unfolding t by (simp add: le_trans [OF diff_le_self] le_trans [OF length_dropWhile_le] length_dropWhile_le)
  also have "\<dots> < length s" using \<open>s \<noteq> []\<close> by simp
  finally show ?thesis .
qed

function find_variables :: "string \<Rightarrow> string list" where
  "find_variables [] = []"
| "find_variables (c # cs) =
     (case match_variable (c # cs) of
        Some (name, rest) \<Rightarrow> name # find_variables rest
      | None \<Rightarrow> find_variables cs)"
  by pat_completeness auto
termination by (relation "measure length") (use match_shorter in fastforce)+

function py_replace :: "string \<Rightarrow> string \<Rightarrow> string \<Rightarrow> string" where
  "py_replace old new [] = []"
| "py_replace old new (c # cs) =
     (if old \<noteq> [] \<and> py_startswith (c # cs) old then new @ py_replace old new (drop (length old) (c # cs))
      else c # py_replace old new cs)"
  by pat_completeness auto
termination by (relation "measure (\<lambda>(_, _, s). length s)") auto

definition json_plain :: "bool \<Rightarrow> json_style" where
  "json_plain by_key = \<lparr>item_sep = '', '', key_sep = '': '', sort_keys = by_key, ensure_ascii = False\<rparr>"

definition stringify_template_value :: "pyval \<Rightarrow> string" where
  "stringify_template_value v =
     (case v of PNone \<Rightarrow> [] | PStr s \<Rightarrow> s | _ \<Rightarrow> json_dumps (json_plain (is_dict v)) v)"

definition merge_prompt_inputs :: "pydict \<Rightarrow> pydict \<Rightarrow> pydict" where
  "merge_prompt_inputs request_inputs prompt_definition =
     dict_update request_inputs (dict_update (as_dict (dget prompt_definition ''default_inputs'')) [])"

fun replace_variables :: "pydict \<Rightarrow> string list \<Rightarrow> string \<Rightarrow> string" where
  "replace_variables inputs [] rendered = rendered"
| "replace_variables inputs (name # names) rendered =
     (let value = stringify_template_value (dget inputs name)
      in replace_variables inputs names
           (py_replace (''{{ '' @ name @ '' }}'') value (py_replace (''{{'' @ name @ ''}}'') value rendered)))"

definition render_prompt_template :: "pydict \<Rightarrow> pydict \<Rightarrow> string option" where
  "render_prompt_template prompt_definition request_inputs =
     (let template = str_or (dget prompt_definition ''prompt_template'') []
      in if py_strip template = [] then None
         else Some (replace_variables (merge_prompt_inputs request_inputs prompt_definition)
                (sort (remdups (find_variables template))) template))"

section \<open>Handlers\<close>

datatype handler = Classification_handler | Summarization_handler | Default_handler

definition CLASSIFICATION_TASK_FAMILIES :: "string list" where
  "CLASSIFICATION_TASK_FAMILIES =
     [''task.classification'', ''task.classification'', ''task.classification.email'', ''task.classification.image'']"

definition SUMMARIZATION_TASK_FAMILIES :: "string list" where
  "SUMMARIZATION_TASK_FAMILIES =
     [''task.summarization'', ''task.summarization.text'', ''task.summarization.email'', ''task.summarization.event'']"

definition register_handler :: "string list \<Rightarrow> handler \<Rightarrow> (string \<times> handler) list \<Rightarrow> (string \<times> handler) list" where
  "register_handler task_families h handlers =
     fold (\<lambda>f hs. if py_strip f = [] then hs else AList.update (py_strip f) h hs) task_families handlers"

text \<open>The handlers the service registers when it makes its own router.\<close>

definition service_handlers :: "(string \<times> handler) list" where
  "service_handlers =
     register_handler SUMMARIZATION_TASK_FAMILIES Summarization_handler
       (register_handler CLASSIFICATION_TASK_FAMILIES Classification_handler [])"

definition resolve_handler :: "pyval list \<Rightarrow> string \<Rightarrow> handler result" where
  "resolve_handler routable task_family =
     (let normalized = py_strip task_family
      in case map_of service_handlers normalized of
           Some h \<Rightarrow> Inr h
         | None \<Rightarrow>
             if routable = [] \<or> normalized \<in> set (map norm_string routable) then Inr Default_handler
             else Inl (ValueError ''task_family_not_routable''))"

section \<open>The request to the provider\<close>

record UnifiedExecutionRequest =
  ue_task_family :: string
  ue_prompt :: "string option"
  ue_system_prompt :: "string option"
  ue_messages :: "pydict list"
  ue_requested_provider :: "string option"
  ue_requested_model :: "string option"
  ue_temperature :: "rat option"
  ue_max_tokens :: "int option"
  ue_metadata :: pydict

text \<open>The type checks of pydantic on the fields that may have any value.\<close>

definition str_field :: "pyval \<Rightarrow> string option result" where
  "str_field v =
     (case v of PNone \<Rightarrow> Inr None | PStr s \<Rightarrow> Inr (Some s) | _ \<Rightarrow> Inl (ValueError ''validation_error''))"

definition dict_list_field :: "pyval list \<Rightarrow> pydict list result" where
  "dict_list_field vs = (if list_all is_dict vs then Inr (map as_dict vs) else Inl (ValueError ''validation_error''))"

definition quoted :: "string \<Rightarrow> string" where
  "quoted s = [CHR 0x22] @ s @ [CHR 0x22]"

definition DEFAULT_CLASSIFICATION_SYSTEM_PROMPT :: string where
  "DEFAULT_CLASSIFICATION_SYSTEM_PROMPT =
     ''Return only a JSON object for the classification result. '' @
     ''Use the shape {'' @ quoted ''label'' @ '': string, '' @ quoted ''confidence'' @ '': number|null, '' @
     quoted ''reasoning'' @ '': string}. '' @
     ''Do not include markdown fences or extra prose.''"

definition STRUCTURED_EXTRACTION_SYSTEM_PROMPT_SUFFIX :: string where
  "STRUCTURED_EXTRACTION_SYSTEM_PROMPT_SUFFIX =
     '' Return exactly one JSON object. '' @
     ''Do not wrap the JSON object in a field named text. '' @
     ''Do not return a JSON string. '' @
     ''Do not include markdown fences. '' @
     ''Do not include explanations, notes, or prose before or after the JSON object. '' @
     ''The top-level response must be the template object itself.''"

text \<open>The system prompt of a structured extraction gets the suffix; the others stay as they are.\<close>

definition with_extraction_suffix :: "string \<Rightarrow> pyval \<Rightarrow> pyval" where
  "with_extraction_suffix task_family system_prompt =
     (if py_lower (norm_string (PStr task_family)) = ''task.structured_extraction''
      then PStr (if norm_string system_prompt = [] then py_strip STRUCTURED_EXTRACTION_SYSTEM_PROMPT_SUFFIX
                 else norm_string system_prompt @ STRUCTURED_EXTRACTION_SYSTEM_PROMPT_SUFFIX)
      else system_prompt)"

definition auth_definition :: "ExecutionAuthorizationResult option \<Rightarrow> pydict" where
  "auth_definition a = (case Option.bind a ea_prompt_definition of None \<Rightarrow> [] | Some d \<Rightarrow> d)"

definition auth_constraints :: "ExecutionAuthorizationResult option \<Rightarrow> pydict" where
  "auth_constraints a = (case Option.bind a ea_prompt_constraints of None \<Rightarrow> [] | Some d \<Rightarrow> d)"

definition auth_preferences :: "ExecutionAuthorizationResult option \<Rightarrow> pydict" where
  "auth_preferences a = (case Option.bind a ea_provider_preferences of None \<Rightarrow> [] | Some d \<Rightarrow> d)"

definition handler_importance_level :: "ExecutionAuthorizationResult option \<Rightarrow> string option" where
  "handler_importance_level a =
     (let level = py_lower (norm_string (dget (as_dict (dget (auth_constraints a) ''importance'')) ''level''))
      in if level \<in> {''background'', ''normal'', ''high'', ''critical''} then Some level else None)"

definition output_schema :: "pydict \<Rightarrow> pyval" where
  "output_schema inputs =
     (case dget inputs ''structured_output_schema'' of
        PDict d \<Rightarrow> PDict d
      | _ \<Rightarrow> (case dget inputs ''json_schema'' of PDict d \<Rightarrow> PDict d | _ \<Rightarrow> PNone))"

definition request_metadata :: "TaskExecutionRequest \<Rightarrow> string option \<Rightarrow> pydict" where
  "request_metadata r importance =
     [(''task_id'', PStr (tr_task_id r)), (''requested_by'', PStr (tr_requested_by r)), (''trace_id'', PStr (tr_trace_id r)),
      (''prompt_id'', opt_str (tr_prompt_id r)), (''prompt_version'', opt_str (tr_prompt_version r)),
      (''execution_priority'', PStr (tr_priority r)), (''prompt_importance'', opt_str importance),
      (''lease_id'', opt_str (tr_lease_id r)), (''structured_output_schema'', output_schema (tr_inputs r))]"

definition build_unified_execution_request ::
    "TaskExecutionRequest \<Rightarrow> ProviderResolutionResult \<Rightarrow> ExecutionAuthorizationResult option \<Rightarrow> NormalizedTaskInputs
      \<Rightarrow> UnifiedExecutionRequest result" where
  "build_unified_execution_request r plan a ni =
     (let rendered = render_prompt_template (auth_definition a) (tr_inputs r);
          default_system =
            (if py_startswith (norm_string (PStr (tr_task_family r))) ''task.classification''
             then PStr DEFAULT_CLASSIFICATION_SYSTEM_PROMPT else PNone);
          system_prompt = with_extraction_suffix (tr_task_family r)
            (py_or (opt_str (ni_system_prompt ni)) (py_or (dget (auth_definition a) ''system_prompt'') default_system))
      in ebind (str_field system_prompt) (\<lambda>system.
         Inr \<lparr>ue_task_family = tr_task_family r,
              ue_prompt = (case rendered of Some (c # cs) \<Rightarrow> Some (c # cs) | _ \<Rightarrow> ni_prompt ni),
              ue_system_prompt = system, ue_messages = ni_messages ni,
              ue_requested_provider = prr_provider_id plan, ue_requested_model = prr_model_id plan,
              ue_temperature = ni_temperature ni, ue_max_tokens = ni_max_tokens ni,
              ue_metadata = dict_update (ni_metadata ni) (request_metadata r (handler_importance_level a))\<rparr>))"

text \<open>The mapping of importance to the priority of the execution.\<close>

definition IMPORTANCE_TO_EXECUTION_PRIORITY :: "(string \<times> string) list" where
  "IMPORTANCE_TO_EXECUTION_PRIORITY =
     [(''background'', ''background''), (''normal'', ''normal''), (''high'', ''high''), (''critical'', ''high'')]"

definition prompt_importance_level :: "ExecutionAuthorizationResult option \<Rightarrow> string option" where
  "prompt_importance_level authorization =
     (case authorization of
        None \<Rightarrow> None
      | Some a \<Rightarrow>
          (case dget (auth_constraints (Some a)) ''importance'' of
             PDict importance \<Rightarrow>
               let level = py_lower (norm_string (dget importance ''level''))
               in Some (if map_of IMPORTANCE_TO_EXECUTION_PRIORITY level \<noteq> None then level else ''normal'')
           | _ \<Rightarrow> Some ''normal''))"

definition pick :: "string list \<Rightarrow> pydict \<Rightarrow> pydict" where
  "pick keys d = map (\<lambda>k. (k, dget d k)) keys"

definition build_unified_request ::
    "TaskExecutionRequest \<Rightarrow> ProviderResolutionResult \<Rightarrow> ExecutionAuthorizationResult option \<Rightarrow> UnifiedExecutionRequest result" where
  "build_unified_request r plan a =
     (let inputs = tr_inputs r;
          rendered = render_prompt_template (auth_definition a) inputs;
          prompt = (case rendered of
                      Some p \<Rightarrow> PStr p
                    | None \<Rightarrow> if dget inputs ''prompt'' \<noteq> PNone then dget inputs ''prompt'' else dget inputs ''text'');
          system_prompt = with_extraction_suffix (tr_task_family r)
            (if dget inputs ''system_prompt'' \<noteq> PNone then dget inputs ''system_prompt''
             else dget (auth_definition a) ''system_prompt'');
          image_template =
            (case dget (tr_constraints r) ''image_template_resolved'' of
               PDict t \<Rightarrow> PDict (pick [''template_id'', ''template_version'', ''template_runtime'', ''output_scope'',
                                  ''output_folder_policy'', ''model_requirements''] t)
             | _ \<Rightarrow> PNone);
          options = filter (\<lambda>kv. snd kv \<noteq> PNone) (pick [''n'', ''size'', ''quality'', ''background'', ''output_format''] inputs)
      in ebind (dict_list_field (as_list (dget inputs ''messages''))) (\<lambda>messages.
         Inr \<lparr>ue_task_family = tr_task_family r,
              ue_prompt = (if prompt = PNone then None else Some (str_or prompt [])),
              ue_system_prompt = (if system_prompt = PNone then None else Some (str_or system_prompt [])),
              ue_messages = messages,
              ue_requested_provider = prr_provider_id plan, ue_requested_model = prr_model_id plan,
              ue_temperature = num_of_pyval (dget inputs ''temperature''),
              ue_max_tokens = int_of_pyval (dget inputs ''max_tokens''),
              ue_metadata = dict_update options
                (request_metadata r (prompt_importance_level a) @ [(''image_template'', image_template)])\<rparr>))"

text \<open>What the router sends to the provider for a request.\<close>

definition routed_request ::
    "pyval list \<Rightarrow> TaskExecutionRequest \<Rightarrow> ProviderResolutionResult \<Rightarrow> ExecutionAuthorizationResult option
      \<Rightarrow> UnifiedExecutionRequest result" where
  "routed_request routable r plan a =
     ebind (resolve_handler routable (tr_task_family r)) (\<lambda>h.
     case h of
       Default_handler \<Rightarrow> build_unified_request r plan a
     | _ \<Rightarrow>
         ebind (validate_and_normalize_task_inputs (PStr (tr_task_family r)) (tr_inputs r)) (\<lambda>ni.
         build_unified_execution_request r plan a ni))"

section \<open>Lemmas\<close>

lemma routed_plan:
  assumes "routed_request routable r plan a = Inr u"
  shows "ue_requested_provider u = prr_provider_id plan" and "ue_requested_model u = prr_model_id plan"
    and "ue_task_family u = tr_task_family r"
proof -
  obtain h where h: "resolve_handler routable (tr_task_family r) = Inr h" using assms by (auto simp: routed_request_def ebind_Inr_conv)
  have "(case h of
       Default_handler \<Rightarrow> build_unified_request r plan a
     | _ \<Rightarrow> ebind (validate_and_normalize_task_inputs (PStr (tr_task_family r)) (tr_inputs r)) (\<lambda>ni.
         build_unified_execution_request r plan a ni)) = Inr u" using assms by (simp add: routed_request_def h)
  then show "ue_requested_provider u = prr_provider_id plan" and "ue_requested_model u = prr_model_id plan"
    and "ue_task_family u = tr_task_family r"
    by (cases h; auto simp: ebind_Inr_conv build_unified_request_def build_unified_execution_request_def Let_def)+
qed

subsection \<open>Inputs\<close>

definition message_ok :: "pydict \<Rightarrow> bool" where
  "message_ok m = (\<exists>role content. dget m ''role'' = PStr role \<and> role \<noteq> [] \<and> dget m ''content'' = PStr content \<and> content \<noteq> [])"

lemma optional_string_ne: "normalized_optional_string v = Some s \<Longrightarrow> s \<noteq> []"
  by (auto simp: normalized_optional_string_def none_if_empty_def split: pyval.splits if_splits)

lemma optional_string_nonempty [simp]: "normalized_optional_string v \<noteq> Some []"
  using optional_string_ne by blast

lemma normalized_message_ok: "normalized_message v = Inr m \<Longrightarrow> message_ok m"
  by (auto simp: normalized_message_def invalid_input_def message_ok_def dget_Cons split: pyval.splits option.splits dest: optional_string_ne)

lemma normalized_entries_ok: "normalized_entries vs = Inr ms \<Longrightarrow> list_all message_ok ms"
  by (induction vs arbitrary: ms) (auto simp: ebind_Inr_conv dest: normalized_message_ok)

lemma normalized_messages_ok: "normalized_messages v = Inr ms \<Longrightarrow> list_all message_ok ms"
  by (auto simp: normalized_messages_def invalid_input_def split: pyval.splits dest: normalized_entries_ok)

lemma first_text_ne: "first_text ks d = Some s \<Longrightarrow> s \<noteq> []"
  by (induction ks) (auto split: option.splits dest: optional_string_ne)

lemma py_join_ne: "x \<noteq> [] \<Longrightarrow> py_join sep (x # xs) \<noteq> []"
  by (cases xs) auto

lemma family_prompt_ne: "family_prompt f d = (Some s, m) \<Longrightarrow> s \<noteq> []"
proof -
  have "s \<noteq> []" if "prompt_from_email_inputs d = (Some s, m)"
    using that by (auto simp: prompt_from_email_inputs_def Let_def split: option.splits if_splits dest: first_text_ne)
  moreover have "s \<noteq> []" if "prompt_from_event_inputs d = Some s"
    using that by (auto simp: prompt_from_event_inputs_def split: pyval.splits list.splits)
  moreover have "s \<noteq> []" if "prompt_from_image_inputs d = (Some s, m)"
    using that by (auto simp: prompt_from_image_inputs_def Let_def split: option.splits if_splits dest: optional_string_ne)
  ultimately show "family_prompt f d = (Some s, m) \<Longrightarrow> s \<noteq> []"
    by (auto simp: family_prompt_def split: if_splits)
qed

subsection \<open>Templates\<close>

text \<open>A template as the code means it: plain text and variables, written with a space on both sides or with none.\<close>

datatype segment = Lit string | Var string bool

definition variable_text :: "string \<Rightarrow> bool \<Rightarrow> string" where
  "variable_text name spaced = (if spaced then ''{{ '' @ name @ '' }}'' else ''{{'' @ name @ ''}}'')"

fun segment_text :: "segment \<Rightarrow> string" where
  "segment_text (Lit s) = s"
| "segment_text (Var name spaced) = variable_text name spaced"

definition segments_text :: "segment list \<Rightarrow> string" where
  "segments_text segs = concat (map segment_text segs)"

definition brace_free :: "string \<Rightarrow> bool" where
  "brace_free s = (CHR 0x7B \<notin> set s)"

fun segment_ok :: "segment \<Rightarrow> bool" where
  "segment_ok (Lit s) = brace_free s"
| "segment_ok (Var name spaced) = (name \<noteq> [] \<and> list_all name_char name)"

lemma name_char_facts: "name_char c \<Longrightarrow> c \<noteq> CHR 0x7B \<and> c \<noteq> CHR 0x7D \<and> c \<noteq> CHR '' '' \<and> \<not> py_isspace c"
  by (auto simp: name_char_def py_isspace_def Let_def)

lemma space_facts: "py_isspace (CHR '' '')" "\<not> name_char (CHR '' '')" "\<not> py_isspace (CHR 0x7D)" "\<not> name_char (CHR 0x7D)"
  by (simp_all add: name_char_def py_isspace_def)

lemma takeWhile_names: "list_all P xs \<Longrightarrow> \<not> P y \<Longrightarrow> takeWhile P (xs @ y # ys) = xs \<and> dropWhile P (xs @ y # ys) = y # ys"
  by (induction xs) auto

lemma dropWhile_name: "name \<noteq> [] \<Longrightarrow> list_all name_char name \<Longrightarrow> dropWhile py_isspace (name @ ys) = name @ ys"
  by (cases name) (auto dest: name_char_facts)

lemma match_variable_text:
  assumes "name \<noteq> []" and "list_all name_char name"
  shows "match_variable (variable_text name spaced @ t) = Some (name, t)"
  using assms takeWhile_names [OF assms(2), of "CHR 0x7D" "CHR 0x7D # t"] takeWhile_names [OF assms(2), of "CHR '' ''" "''}}'' @ t"]
    dropWhile_name [OF assms] space_facts
  by (cases spaced) (simp_all add: variable_text_def match_variable_def Let_def py_startswith_def)

lemma match_variable_other: "c \<noteq> CHR 0x7B \<Longrightarrow> match_variable (c # cs) = None"
  by (simp add: match_variable_def py_startswith_def)

lemma find_variables_brace_free: "brace_free s \<Longrightarrow> find_variables (s @ t) = find_variables t"
  by (induction s) (auto simp: brace_free_def match_variable_other)

lemma variable_text_Cons:
  obtains c rest where "variable_text name spaced = CHR 0x7B # CHR 0x7B # c # rest" and
    "list_all name_char name \<Longrightarrow> name \<noteq> [] \<Longrightarrow> brace_free (c # rest)"
proof (cases spaced)
  case True
  show ?thesis
    by (rule that [of "CHR '' ''" "name @ '' }}''"])
      (use True in \<open>auto simp: variable_text_def brace_free_def list_all_iff dest: name_char_facts\<close>)
next
  case False
  show ?thesis
    by (rule that [of "hd (name @ ''}}'')" "tl (name @ ''}}'')"])
      (use False in \<open>cases name; auto simp: variable_text_def brace_free_def list_all_iff dest: name_char_facts\<close>)+
qed

lemma find_variables_variable:
  assumes "name \<noteq> []" and "list_all name_char name"
  shows "find_variables (variable_text name spaced @ t) = name # find_variables t"
proof -
  obtain c rest where v: "variable_text name spaced = CHR 0x7B # CHR 0x7B # c # rest" by (rule variable_text_Cons)
  then show ?thesis using match_variable_text [OF assms, of spaced t] by simp
qed

lemma find_variables_segments:
  "list_all segment_ok segs \<Longrightarrow>
     find_variables (segments_text segs) = concat (map (\<lambda>g. case g of Lit s \<Rightarrow> [] | Var n sp \<Rightarrow> [n]) segs)"
proof (induction segs)
  case (Cons g segs)
  then show ?case
    by (cases g) (simp_all add: segments_text_def find_variables_brace_free find_variables_variable)
qed (simp add: segments_text_def)

lemma py_startswith_iff: "py_startswith s p \<longleftrightarrow> (\<exists>u. s = p @ u)"
proof
  assume "py_startswith s p"
  then show "\<exists>u. s = p @ u" by (intro exI [of _ "drop (length p) s"]) (metis append_take_drop_id py_startswith_def)
qed (auto simp: py_startswith_def)

lemma py_replace_brace_free:
  "brace_free s \<Longrightarrow> py_replace (variable_text n sp) v (s @ t) = s @ py_replace (variable_text n sp) v t"
proof (induction s)
  case (Cons c s)
  obtain d rest where "variable_text n sp = CHR 0x7B # CHR 0x7B # d # rest" by (rule variable_text_Cons)
  then show ?case using Cons by (auto simp: brace_free_def py_startswith_def)
qed simp

lemma py_replace_same:
  "py_replace (variable_text n sp) v (variable_text n sp @ t) = v @ py_replace (variable_text n sp) v t"
proof -
  obtain d rest where v: "variable_text n sp = CHR 0x7B # CHR 0x7B # d # rest" by (rule variable_text_Cons)
  then show ?thesis by (simp add: py_startswith_def)
qed

lemma variable_text_inj:
  assumes "variable_text m sp @ t = variable_text n sq @ u" and "segment_ok (Var m sp)" and "segment_ok (Var n sq)"
  shows "m = n \<and> sp = sq"
proof -
  have "Some (m, t) = Some (n, u)"
    using assms match_variable_text [of m sp t] match_variable_text [of n sq u] by simp
  then have "m = n" "t = u" by simp_all
  moreover have "sp = sq"
  proof (rule ccontr)
    assume "sp \<noteq> sq"
    then show False using assms(1) arg_cong [OF assms(1), of length] calculation by (cases sp; cases sq) (simp_all add: variable_text_def)
  qed
  ultimately show ?thesis by simp
qed

lemma py_replace_other:
  assumes "segment_ok (Var m sp)" and "segment_ok (Var n sq)" and "\<not> (m = n \<and> sp = sq)"
  shows "py_replace (variable_text n sq) v (variable_text m sp @ t) = variable_text m sp @ py_replace (variable_text n sq) v t"
proof -
  obtain c rest where m: "variable_text m sp = CHR 0x7B # CHR 0x7B # c # rest"
    and bf: "brace_free (c # rest)"
    by (rule variable_text_Cons [of m sp]) (use assms(1) in simp)
  obtain d rest' where n: "variable_text n sq = CHR 0x7B # CHR 0x7B # d # rest'" by (rule variable_text_Cons)
  have 1: "\<not> py_startswith (CHR 0x7B # CHR 0x7B # c # rest @ t) (variable_text n sq)"
    using variable_text_inj [of m sp t n sq] assms m by (auto simp: py_startswith_iff)
  have 2: "\<not> py_startswith (CHR 0x7B # c # rest @ t) (variable_text n sq)"
    using bf n by (auto simp: py_startswith_iff brace_free_def)
  have "py_replace (variable_text n sq) v ((c # rest) @ t) = (c # rest) @ py_replace (variable_text n sq) v t"
    using bf by (rule py_replace_brace_free)
  then show ?thesis using 1 2 by (simp add: m)
qed

lemma segments_text_simps [simp]:
  "segments_text [] = []" "segments_text (g # gs) = segment_text g @ segments_text gs"
  by (simp_all add: segments_text_def)

definition put :: "string \<Rightarrow> bool \<Rightarrow> string \<Rightarrow> segment \<Rightarrow> segment" where
  "put n sp v g = (if g = Var n sp then Lit v else g)"

lemma put_simps [simp]: "put n sp v (Lit s) = Lit s" "put n sp v (Var n sp) = Lit v"
  by (simp_all add: put_def)

lemma py_replace_segments:
  assumes "list_all segment_ok segs" and "segment_ok (Var n sp)"
  shows "py_replace (variable_text n sp) v (segments_text segs) = segments_text (map (put n sp v) segs)"
  using assms(1)
proof (induction segs)
  case (Cons g segs)
  then have IH: "py_replace (variable_text n sp) v (segments_text segs) = segments_text (map (put n sp v) segs)" by simp
  show ?case
  proof (cases g)
    case (Lit s)
    then show ?thesis using Cons.prems IH py_replace_brace_free [of s n sp v "segments_text segs"]
      by simp
  next
    case (Var m sq)
    show ?thesis
    proof (cases "m = n \<and> sq = sp")
      case True
      then show ?thesis using IH Var py_replace_same [of n sp v "segments_text segs"] by simp
    next
      case False
      then have "put n sp v g = g" using Var by (simp add: put_def)
      moreover have "py_replace (variable_text n sp) v (variable_text m sq @ segments_text segs) =
          variable_text m sq @ py_replace (variable_text n sp) v (segments_text segs)"
        by (rule py_replace_other) (use Cons.prems Var assms(2) False in simp_all)
      ultimately show ?thesis using IH Var by (simp add: segments_text_def)
    qed
  qed
qed (simp add: segments_text_def)

definition value_of :: "pydict \<Rightarrow> string \<Rightarrow> string" where
  "value_of inputs n = stringify_template_value (dget inputs n)"

definition fill :: "pydict \<Rightarrow> string set \<Rightarrow> segment \<Rightarrow> segment" where
  "fill inputs N g = (case g of Lit s \<Rightarrow> Lit s | Var n sp \<Rightarrow> if n \<in> N then Lit (value_of inputs n) else g)"

lemma fill_step: "put n True (value_of inputs n) (put n False (value_of inputs n) (fill inputs N g)) = fill inputs (insert n N) g"
  by (cases g) (auto simp: fill_def put_def)

lemma replace_variables_segments:
  assumes "list_all segment_ok segs" and "list_all (\<lambda>n. n \<noteq> [] \<and> list_all name_char n \<and> brace_free (value_of inputs n)) names"
  shows "replace_variables inputs names (segments_text segs) = segments_text (map (fill inputs (set names)) segs)"
  using assms
proof (induction names arbitrary: segs)
  case Nil
  have "fill inputs {} g = g" for g by (cases g) (simp_all add: fill_def)
  then show ?case by simp
next
  case (Cons n names)
  let ?v = "value_of inputs n" and ?segs = "map (fill inputs {n}) segs"
  have ok: "segment_ok (Var n sp)" for sp using Cons.prems(2) by simp
  have "list_all segment_ok (map (put n False ?v) segs)"
    using Cons.prems by (auto simp: list_all_iff put_def)
  then have "py_replace (variable_text n True) ?v (py_replace (variable_text n False) ?v (segments_text segs)) =
      segments_text (map (put n True ?v) (map (put n False ?v) segs))"
    using py_replace_segments [OF Cons.prems(1) ok] py_replace_segments [OF _ ok] by simp
  also have "map (put n True ?v) (map (put n False ?v) segs) = ?segs"
    using fill_step [of n inputs "{}"] by (auto simp: fill_def put_def split: segment.splits)
  finally have 1: "py_replace (variable_text n True) ?v (py_replace (variable_text n False) ?v (segments_text segs)) = segments_text ?segs" .
  have "list_all segment_ok ?segs"
    using Cons.prems by (auto simp: list_all_iff fill_def split: segment.splits)
  then have "replace_variables inputs names (segments_text ?segs) = segments_text (map (fill inputs (set names)) ?segs)"
    using Cons by simp
  moreover have "map (fill inputs (set names)) ?segs = map (fill inputs (set (n # names))) segs"
    by (auto simp: fill_def split: segment.splits)
  ultimately show ?case using 1 by (simp add: variable_text_def value_of_def Let_def del: map_map map_eq_conv)
qed

text \<open>A value that looks like a variable is replaced in its turn: the variables go by name, not by place.\<close>

lemma reference_in_value_expanded:
  "render_prompt_template [(''prompt_template'', PStr ''{{a}} {{b}}'')] [(''a'', PStr ''{{b}}''), (''b'', PStr ''x'')] = Some ''x x''"
  by code_simp

lemma handler_keys: "map fst service_handlers =
    [''task.classification'', ''task.classification.email'', ''task.classification.image'',
     ''task.summarization'', ''task.summarization.text'', ''task.summarization.email'', ''task.summarization.event'']"
  by code_simp

section \<open>Properties\<close>

text \<open>
  What validated inputs have: a prompt that is not empty or at least one message, a role and a
  content in every message, a positive bound on the tokens and a temperature between 0 and 2,
  where these are given.
\<close>

theorem validated_inputs_ok:
  assumes "validate_and_normalize_task_inputs family payload = Inr ni"
  shows "\<not> (ni_prompt ni = None \<and> ni_messages ni = []) \<and> ni_prompt ni \<noteq> Some [] \<and> list_all message_ok (ni_messages ni) \<and>
    (case ni_max_tokens ni of None \<Rightarrow> True | Some n \<Rightarrow> 0 < n) \<and>
    (case ni_temperature ni of None \<Rightarrow> True | Some t \<Rightarrow> 0 \<le> t \<and> t \<le> 2)"
proof -
  obtain ms mt tp where m: "normalized_messages (dget payload ''messages'') = Inr ms"
    "normalized_max_tokens (dget payload ''max_tokens'') = Inr mt" "normalized_temperature (dget payload ''temperature'') = Inr tp"
    using assms by (auto simp: validate_and_normalize_task_inputs_def ebind_Inr_conv)
  obtain p md where fp: "family_prompt (py_lower (norm_string family)) payload = (p, md)" by (cases "family_prompt (py_lower (norm_string family)) payload") auto
  let ?p = "case p of Some s \<Rightarrow> Some s | None \<Rightarrow> prompt_from_text_like_inputs payload"
  have ni: "ni_prompt ni = ?p" "ni_messages ni = ms" "ni_max_tokens ni = mt" "ni_temperature ni = tp" "\<not> (?p = None \<and> ms = [])"
    using assms by (auto simp: validate_and_normalize_task_inputs_def m fp invalid_input_def Let_def split: if_splits)
  have "?p \<noteq> Some []"
    using fp first_text_ne by (auto simp: prompt_from_text_like_inputs_def split: option.splits dest: family_prompt_ne)
  moreover have "case mt of None \<Rightarrow> True | Some n \<Rightarrow> 0 < n"
    using m(2) by (auto simp: normalized_max_tokens_def invalid_input_def split: if_splits option.splits)
  moreover have "case tp of None \<Rightarrow> True | Some t \<Rightarrow> 0 \<le> t \<and> t \<le> 2"
    using m(3) by (auto simp: normalized_temperature_def invalid_input_def split: if_splits option.splits)
  ultimately show ?thesis using ni normalized_messages_ok [OF m(1)] by simp
qed

theorem validated_inputs_ok_witness:
  "\<exists>ni. validate_and_normalize_task_inputs (PStr ''task.summarization.email'')
      [(''subject'', PStr ''Hi''), (''max_tokens'', PInt 5)] = Inr ni \<and> (\<exists>n. ni_max_tokens ni = Some n \<and> 0 < n)"
proof -
  let ?v = "validate_and_normalize_task_inputs (PStr ''task.summarization.email'') [(''subject'', PStr ''Hi''), (''max_tokens'', PInt 5)]"
  have "case ?v of Inr ni \<Rightarrow> ni_max_tokens ni = Some 5 | Inl _ \<Rightarrow> False" by code_simp
  then obtain ni where ni: "?v = Inr ni" "ni_max_tokens ni = Some 5" by (auto split: sum.splits)
  then show ?thesis using validated_inputs_ok [OF ni(1)] by auto
qed



text \<open>
  Two legacy families are allowed and never run. On a node that declares the modern family of
  \<open>task.generation.text\<close> or \<open>task.generation.image\<close>, a request for the legacy one passes the check of
  its family, but the router has no handler for it and refuses it after the budget was reserved.
\<close>

theorem legacy_generation_unroutable:
  assumes "f \<in> {''task.generation.text'', ''task.generation.image''}" and "set ds \<subseteq> set DECLARABLE_TASK_FAMILIES"
    and "alias_of LEGACY_DECLARATION_TASK_FAMILY_ALIASES f \<in> set ds"
  shows "tf_allowed (validate_execution_task_family (PStr f) (PList (map PStr ds)) PNone) \<and>
    resolve_handler (map PStr ds) f = Inl (ValueError ''task_family_not_routable'')"
proof -
  have f: "f \<in> set CANONICAL_TASK_FAMILIES" using assms(1) by (auto simp: CANONICAL_TASK_FAMILIES_def)
  then have c: "canonicalize_task_family (PStr f) = Some f" and "family_id_text f"
    using canonical_families_canonical canonical_families_ids by (auto simp: list_all_iff)
  then have s: "py_strip f = f" using family_id_text_plain by simp
  have nd: "f \<notin> set DECLARABLE_TASK_FAMILIES"
    using assms(1) by (auto simp: DECLARABLE_TASK_FAMILIES_def LEGACY_DECLARATION_TASK_FAMILY_ALIASES_def)
  have ds: "ds \<noteq> []" using assms(3) by auto
  have fx: "canonicalize_task_family (PStr d) = Some d \<and> py_strip d = d" if "d \<in> set ds" for d
    using that assms(2) declarable_fixed(2) [of d] declarable_canonical canonical_families_ids family_id_text_plain [of d]
    by (auto simp: list_all_iff)
  have "alias_of LEGACY_DECLARATION_TASK_FAMILY_ALIASES f \<in> set (capability_families (PList (map PStr ds)))"
    using assms(2,3) fx declarable_canonical by (auto simp: set_capability_families as_list_def)
  then have "tf_allowed (validate_execution_task_family (PStr f) (PList (map PStr ds)) PNone)"
    using c f ds by (simp add: family_check_exact' py_or_def accepted_profile_families_def capability_families_def List.map_filter_simps as_list_def as_dict_def dget_def)
  moreover have "map_of service_handlers f = None"
    using assms(1) by (simp add: map_of_eq_None_iff handler_keys flip: set_map) auto
  then have "resolve_handler (map PStr ds) f = Inl (ValueError ''task_family_not_routable'')"
    using s ds nd assms(2) fx by (auto simp: resolve_handler_def)
  ultimately show ?thesis by simp
qed

theorem legacy_generation_unroutable_witness:
  "tf_allowed (validate_execution_task_family (PStr ''task.generation.text'') (PList [PStr ''task.chat'']) PNone) \<and>
   resolve_handler [PStr ''task.chat''] ''task.generation.text'' = Inl (ValueError ''task_family_not_routable'')"
proof -
  have "set [''task.chat''] \<subseteq> set DECLARABLE_TASK_FAMILIES"
    by (simp add: DECLARABLE_TASK_FAMILIES_def CANONICAL_TASK_FAMILIES_def LEGACY_DECLARATION_TASK_FAMILY_ALIASES_def)
  moreover have "alias_of LEGACY_DECLARATION_TASK_FAMILY_ALIASES ''task.generation.text'' \<in> set [''task.chat'']" by code_simp
  ultimately show ?thesis using legacy_generation_unroutable [of "''task.generation.text''" "[''task.chat'']"] by simp
qed

end
