(* ===== verification/Provider_Metrics.thy ===== *)
theory Provider_Metrics
  imports Budget
begin

text \<open>
  \<open>providers/metrics.py\<close>: the counters the node keeps for every model it calls. A success adds a
  latency sample, the tokens and the cost; a failure counts its class. A snapshot has the average
  and the 95th percentile of the last 50 samples; it is what the file holds and what a restart
  reads back.

  Latencies and costs are exact rationals and \<open>round\<close> is half to even on them: the rounding of
  binary floating point is not modelled. The text of a float is a parameter.
\<close>

section \<open>State\<close>

record model_metric_state =
  ms_latency_samples_ms :: "rat list"
  ms_total_requests :: int
  ms_successful_requests :: int
  ms_failed_requests :: int
  ms_failure_classes :: pydict
  ms_prompt_tokens :: int
  ms_cached_input_tokens :: int
  ms_completion_tokens :: int
  ms_total_tokens :: int
  ms_estimated_cost :: rat

definition new_metric_state :: model_metric_state where
  "new_metric_state =
     \<lparr>ms_latency_samples_ms = [], ms_total_requests = 0, ms_successful_requests = 0, ms_failed_requests = 0,
      ms_failure_classes = [], ms_prompt_tokens = 0, ms_cached_input_tokens = 0, ms_completion_tokens = 0,
      ms_total_tokens = 0, ms_estimated_cost = 0\<rparr>"

type_synonym metrics_state = "(string \<times> (string \<times> model_metric_state) list) list"

definition max_samples :: nat where
  "max_samples = 50"

text \<open>\<open>deque(maxlen=50).append\<close>: the oldest sample goes.\<close>

definition sample_append :: "rat \<Rightarrow> rat list \<Rightarrow> rat list" where
  "sample_append x xs = (let ys = xs @ [x] in drop (length ys - max_samples) ys)"

definition metric_key :: "string \<Rightarrow> string" where
  "metric_key s = (if py_strip s = [] then ''unknown'' else py_strip s)"

definition models_of :: "metrics_state \<Rightarrow> string \<Rightarrow> (string \<times> model_metric_state) list" where
  "models_of M pid = (case map_of M pid of None \<Rightarrow> [] | Some models \<Rightarrow> models)"

definition ensure_model_state :: "metrics_state \<Rightarrow> string \<Rightarrow> string \<Rightarrow> model_metric_state" where
  "ensure_model_state M provider_id model_id =
     (case map_of (models_of M (metric_key provider_id)) (metric_key model_id) of
        None \<Rightarrow> new_metric_state | Some s \<Rightarrow> s)"

definition set_model_state :: "string \<Rightarrow> string \<Rightarrow> model_metric_state \<Rightarrow> metrics_state \<Rightarrow> metrics_state" where
  "set_model_state provider_id model_id s M =
     AList.update (metric_key provider_id)
       (AList.update (metric_key model_id) s (models_of M (metric_key provider_id))) M"

section \<open>Recording\<close>

definition counted_success :: "rat \<Rightarrow> int \<Rightarrow> int \<Rightarrow> int \<Rightarrow> rat option \<Rightarrow> model_metric_state \<Rightarrow> model_metric_state" where
  "counted_success latency_ms prompt_tokens cached_input_tokens completion_tokens estimated_cost s =
     s\<lparr>ms_total_requests := ms_total_requests s + 1,
       ms_successful_requests := ms_successful_requests s + 1,
       ms_latency_samples_ms := sample_append (max latency_ms 0) (ms_latency_samples_ms s),
       ms_prompt_tokens := ms_prompt_tokens s + max prompt_tokens 0,
       ms_cached_input_tokens := ms_cached_input_tokens s + max cached_input_tokens 0,
       ms_completion_tokens := ms_completion_tokens s + max completion_tokens 0,
       ms_total_tokens := ms_total_tokens s + max (prompt_tokens + completion_tokens) 0,
       ms_estimated_cost := ms_estimated_cost s + max (case estimated_cost of None \<Rightarrow> 0 | Some c \<Rightarrow> c) 0\<rparr>"

definition record_success ::
    "string \<Rightarrow> string \<Rightarrow> rat \<Rightarrow> int \<Rightarrow> int \<Rightarrow> int \<Rightarrow> rat option \<Rightarrow> metrics_state \<Rightarrow> metrics_state" where
  "record_success provider_id model_id latency_ms prompt_tokens cached_input_tokens completion_tokens estimated_cost M =
     set_model_state provider_id model_id
       (counted_success latency_ms prompt_tokens cached_input_tokens completion_tokens estimated_cost
         (ensure_model_state M provider_id model_id)) M"

text \<open>\<open>v + 1\<close> for a counter that was read from a file.\<close>

definition succ_value :: "(rat \<Rightarrow> string) \<Rightarrow> pyval \<Rightarrow> pyval result" where
  "succ_value fr v =
     (case v of
        PInt i \<Rightarrow> Inr (PInt (i + 1))
      | PBool b \<Rightarrow> Inr (PInt (if b then 2 else 1))
      | PFloat x _ \<Rightarrow> Inr (PFloat (x + 1) (fr (x + 1)))
      | _ \<Rightarrow> Inl TypeError)"

definition failure_key :: "string \<Rightarrow> string" where
  "failure_key error_class = (if py_strip error_class = [] then ''unknown_error'' else py_strip error_class)"

definition counted_failure :: "(rat \<Rightarrow> string) \<Rightarrow> string \<Rightarrow> model_metric_state \<Rightarrow> model_metric_state \<times> unit result" where
  "counted_failure fr error_class s =
     (let k = failure_key error_class;
          s1 = s\<lparr>ms_total_requests := ms_total_requests s + 1, ms_failed_requests := ms_failed_requests s + 1\<rparr>
      in case succ_value fr (case map_of (ms_failure_classes s) k of None \<Rightarrow> PInt 0 | Some v \<Rightarrow> v) of
           Inl e \<Rightarrow> (s1, Inl e)
         | Inr v \<Rightarrow> (s1\<lparr>ms_failure_classes := AList.update k v (ms_failure_classes s)\<rparr>, Inr ()))"

definition record_failure ::
    "(rat \<Rightarrow> string) \<Rightarrow> string \<Rightarrow> string \<Rightarrow> string \<Rightarrow> metrics_state \<Rightarrow> metrics_state \<times> unit result" where
  "record_failure fr provider_id model_id error_class M =
     (let (s, res) = counted_failure fr error_class (ensure_model_state M provider_id model_id)
      in (set_model_state provider_id model_id s M, res))"

section \<open>The snapshot\<close>

definition round_to :: "nat \<Rightarrow> rat \<Rightarrow> rat" where
  "round_to n x = of_int (round_half_even (x * 10 ^ n)) / 10 ^ n"

text \<open>\<open>max(0, ceil(n * 0.95) - 1)\<close>, which for at most 50 samples has no rounding.\<close>

definition p95_index :: "nat \<Rightarrow> nat" where
  "p95_index n = nat (max 0 (\<lceil>of_nat n * (95 / 100 :: rat)\<rceil> - 1))"

definition avg_latency :: "rat list \<Rightarrow> rat option" where
  "avg_latency samples =
     (if samples = [] then None else Some (round_to 3 (sum_list samples / of_nat (length samples))))"

definition p95_latency :: "rat list \<Rightarrow> rat option" where
  "p95_latency samples =
     (if samples = [] then None else Some (round_to 3 (sort samples ! p95_index (length samples))))"

definition ratio4 :: "int \<Rightarrow> int \<Rightarrow> rat" where
  "ratio4 part whole = (if whole = 0 then 0 else round_to 4 (of_int part / of_int whole))"

definition float_value :: "(rat \<Rightarrow> string) \<Rightarrow> rat \<Rightarrow> pyval" where
  "float_value fr x = PFloat x (fr x)"

definition opt_float :: "(rat \<Rightarrow> string) \<Rightarrow> rat option \<Rightarrow> pyval" where
  "opt_float fr v = (case v of None \<Rightarrow> PNone | Some x \<Rightarrow> float_value fr x)"

definition model_snapshot :: "(rat \<Rightarrow> string) \<Rightarrow> model_metric_state \<Rightarrow> pydict" where
  "model_snapshot fr s =
     [(''avg_latency'', opt_float fr (avg_latency (ms_latency_samples_ms s))),
      (''p95_latency'', opt_float fr (p95_latency (ms_latency_samples_ms s))),
      (''execution_count'', PInt (ms_total_requests s)),
      (''recent_rolling_samples'', PList (map (\<lambda>x. float_value fr (round_to 3 x)) (ms_latency_samples_ms s))),
      (''total_requests'', PInt (ms_total_requests s)),
      (''successful_requests'', PInt (ms_successful_requests s)),
      (''failed_requests'', PInt (ms_failed_requests s)),
      (''failure_classes'', PDict (ms_failure_classes s)),
      (''success_rate'', float_value fr (ratio4 (ms_successful_requests s) (ms_total_requests s))),
      (''prompt_tokens'', PInt (ms_prompt_tokens s)),
      (''cached_input_tokens'', PInt (ms_cached_input_tokens s)),
      (''completion_tokens'', PInt (ms_completion_tokens s)),
      (''total_tokens'', PInt (ms_total_tokens s)),
      (''estimated_cost'', float_value fr (round_to 8 (ms_estimated_cost s))),
      (''cumulative_spend'', float_value fr (round_to 8 (ms_estimated_cost s)))]"

definition provider_snapshot :: "(rat \<Rightarrow> string) \<Rightarrow> (string \<times> model_metric_state) list \<Rightarrow> pydict" where
  "provider_snapshot fr models =
     (let provider_total = sum_list (map (\<lambda>(m, s). ms_total_requests s) models);
          provider_success = sum_list (map (\<lambda>(m, s). ms_successful_requests s) models)
      in [(''models'', PDict (map (\<lambda>(m, s). (m, PDict (model_snapshot fr s))) models)),
          (''totals'', PDict
            [(''total_requests'', PInt provider_total), (''successful_requests'', PInt provider_success),
             (''failed_requests'', PInt (provider_total - provider_success)),
             (''success_rate'', float_value fr (ratio4 provider_success provider_total))])])"

definition metrics_snapshot :: "(rat \<Rightarrow> string) \<Rightarrow> metrics_state \<Rightarrow> pydict" where
  "metrics_snapshot fr M =
     [(''providers'', PDict (map (\<lambda>(p, models). (p, PDict (provider_snapshot fr models))) M))]"

section \<open>Reading a snapshot back\<close>

definition hydrated_samples :: "pyval \<Rightarrow> rat list \<Rightarrow> rat list" where
  "hydrated_samples v samples = fold (\<lambda>x xs. case num_of_pyval x of None \<Rightarrow> xs | Some r \<Rightarrow> sample_append r xs) (as_list v) samples"

definition count_of :: "pydict \<Rightarrow> string \<Rightarrow> int result" where
  "count_of payload k = py_int (py_or (dget payload k) (PInt 0))"

definition hydrate_model :: "pydict \<Rightarrow> model_metric_state \<Rightarrow> model_metric_state result" where
  "hydrate_model payload s =
     ebind (count_of payload ''total_requests'') (\<lambda>total.
     ebind (count_of payload ''successful_requests'') (\<lambda>successful.
     ebind (count_of payload ''failed_requests'') (\<lambda>failed.
     ebind (count_of payload ''prompt_tokens'') (\<lambda>prompt_tokens.
     ebind (count_of payload ''cached_input_tokens'') (\<lambda>cached.
     ebind (count_of payload ''completion_tokens'') (\<lambda>completion.
     ebind (count_of payload ''total_tokens'') (\<lambda>total_tokens.
     ebind (py_float (py_or (dget payload ''estimated_cost'') (PInt 0))) (\<lambda>cost.
     Inr \<lparr>ms_latency_samples_ms = hydrated_samples (dget payload ''recent_rolling_samples'') (ms_latency_samples_ms s),
          ms_total_requests = total, ms_successful_requests = successful, ms_failed_requests = failed,
          ms_failure_classes = as_dict (dget payload ''failure_classes''),
          ms_prompt_tokens = prompt_tokens, ms_cached_input_tokens = cached, ms_completion_tokens = completion,
          ms_total_tokens = total_tokens, ms_estimated_cost = cost\<rparr>))))))))"

fun hydrate_models :: "string \<Rightarrow> pydict \<Rightarrow> metrics_state \<Rightarrow> metrics_state result" where
  "hydrate_models provider_id [] M = Inr M"
| "hydrate_models provider_id ((model_id, payload) # items) M =
     (case payload of
        PDict d \<Rightarrow>
          ebind (hydrate_model d (ensure_model_state M provider_id model_id)) (\<lambda>s.
          hydrate_models provider_id items (set_model_state provider_id model_id s M))
      | _ \<Rightarrow> hydrate_models provider_id items M)"

fun hydrate_providers :: "pydict \<Rightarrow> metrics_state \<Rightarrow> metrics_state result" where
  "hydrate_providers [] M = Inr M"
| "hydrate_providers ((provider_id, payload) # items) M =
     (case payload of
        PDict d \<Rightarrow>
          (case dget d ''models'' of
             PDict models \<Rightarrow> ebind (hydrate_models provider_id models M) (hydrate_providers items)
           | _ \<Rightarrow> hydrate_providers items M)
      | _ \<Rightarrow> hydrate_providers items M)"

text \<open>The constructor: the file is the value it holds, \<open>None\<close> when there is none or it is not JSON.\<close>

definition load_metrics :: "pyval option \<Rightarrow> metrics_state result" where
  "load_metrics file =
     (case file of Some (PDict payload) \<Rightarrow> hydrate_providers (as_dict (dget payload ''providers'')) [] | _ \<Rightarrow> Inr [])"

section \<open>The invariant\<close>

definition failure_total :: "pydict \<Rightarrow> int" where
  "failure_total classes = sum_list (map (\<lambda>(k, v). case v of PInt n \<Rightarrow> n | _ \<Rightarrow> 0) classes)"

definition metric_ok :: "model_metric_state \<Rightarrow> bool" where
  "metric_ok s =
     (0 \<le> ms_successful_requests s \<and> 0 \<le> ms_failed_requests s \<and>
      ms_total_requests s = ms_successful_requests s + ms_failed_requests s \<and>
      length (ms_latency_samples_ms s) \<le> max_samples \<and> list_all (\<lambda>x. 0 \<le> x) (ms_latency_samples_ms s) \<and>
      distinct (map fst (ms_failure_classes s)) \<and>
      list_all (\<lambda>(k, v). \<exists>n. v = PInt n) (ms_failure_classes s) \<and>
      failure_total (ms_failure_classes s) = ms_failed_requests s \<and>
      0 \<le> ms_prompt_tokens s \<and> 0 \<le> ms_cached_input_tokens s \<and> 0 \<le> ms_completion_tokens s \<and>
      0 \<le> ms_total_tokens s \<and> 0 \<le> ms_estimated_cost s)"

definition key_ok :: "string \<Rightarrow> bool" where
  "key_ok k = (metric_key k = k)"

definition models_ok :: "(string \<times> model_metric_state) list \<Rightarrow> bool" where
  "models_ok models = (models \<noteq> [] \<and> distinct (map fst models) \<and> list_all (\<lambda>(m, s). key_ok m \<and> metric_ok s) models)"

definition metrics_inv :: "metrics_state \<Rightarrow> bool" where
  "metrics_inv M = (distinct (map fst M) \<and> list_all (\<lambda>(p, models). key_ok p \<and> models_ok models) M)"

text \<open>What a state is after a restart.\<close>

definition rounded_state :: "model_metric_state \<Rightarrow> model_metric_state" where
  "rounded_state s =
     s\<lparr>ms_latency_samples_ms := map (round_to 3) (ms_latency_samples_ms s),
       ms_estimated_cost := round_to 8 (ms_estimated_cost s)\<rparr>"

definition rounded_metrics :: "metrics_state \<Rightarrow> metrics_state" where
  "rounded_metrics M = map (\<lambda>(p, models). (p, map (\<lambda>(m, s). (m, rounded_state s)) models)) M"

section \<open>Lemmas\<close>

lemma metric_key_key [simp]: "key_ok (metric_key s)"
proof -
  have "py_strip ''unknown'' = ''unknown''" by code_simp
  then show ?thesis by (simp add: key_ok_def metric_key_def)
qed

lemma update_fresh: "map_of al k = None \<Longrightarrow> AList.update k v al = al @ [(k, v)]"
  by (induction al) (auto split: if_splits)

lemma keys_map_values [simp]: "map (fst \<circ> (\<lambda>(a, b). (a, h b))) xs = map fst xs"
  by (induction xs) auto

lemma sum_list_update:
  fixes f :: "'a \<Rightarrow> int"
  shows "sum_list (map (\<lambda>(k, v). f v) (AList.update k v al)) =
     sum_list (map (\<lambda>(k, v). f v) al) + f v - (case map_of al k of None \<Rightarrow> 0 | Some u \<Rightarrow> f u)"
  by (induction al) auto

lemma round_half_even_mono_0: "0 \<le> x \<Longrightarrow> 0 \<le> round_half_even x"
  by (auto simp: round_half_even_def Let_def)

lemma round_to_nonneg: "0 \<le> x \<Longrightarrow> 0 \<le> round_to n x"
  by (simp add: round_to_def round_half_even_mono_0)

lemma sample_append_ok:
  "list_all P xs \<Longrightarrow> P x \<Longrightarrow> list_all P (sample_append x xs)" "length (sample_append x xs) \<le> max_samples"
  by (auto simp: sample_append_def Let_def list_all_iff dest: in_set_dropD)

lemma sample_append_fits: "length xs < max_samples \<Longrightarrow> sample_append x xs = xs @ [x]"
  by (simp add: sample_append_def)

lemma new_metric_ok [simp]: "metric_ok new_metric_state"
  by (simp add: metric_ok_def new_metric_state_def failure_total_def)

lemma counted_success_ok:
  assumes "metric_ok s"
  shows "metric_ok (counted_success latency pt cit ot cost s)"
  using assms by (simp add: metric_ok_def counted_success_def sample_append_ok)

lemma counted_failure_ok:
  assumes "metric_ok s"
  shows "\<exists>s'. counted_failure fr c s = (s', Inr ()) \<and> metric_ok s'"
proof -
  let ?k = "failure_key c" and ?v = "case map_of (ms_failure_classes s) (failure_key c) of None \<Rightarrow> PInt 0 | Some v \<Rightarrow> v"
  have "\<exists>n. ?v = PInt n"
    using assms by (auto simp: metric_ok_def list_all_iff split: option.split dest: map_of_SomeD)
  then obtain n where n: "?v = PInt n" by blast
  let ?s = "s\<lparr>ms_total_requests := ms_total_requests s + 1, ms_failed_requests := ms_failed_requests s + 1,
              ms_failure_classes := AList.update ?k (PInt (n + 1)) (ms_failure_classes s)\<rparr>"
  have "counted_failure fr c s = (?s, Inr ())" by (simp add: counted_failure_def Let_def n succ_value_def)
  moreover have "failure_total (AList.update ?k (PInt (n + 1)) (ms_failure_classes s)) = failure_total (ms_failure_classes s) + 1"
    using n unfolding failure_total_def sum_list_update by (auto split: option.splits)
  moreover have "list_all (\<lambda>(k, v). \<exists>n. v = PInt n) (AList.update ?k (PInt (n + 1)) (ms_failure_classes s))"
    using assms by (auto simp: metric_ok_def list_all_iff dest!: set_AList_update)
  ultimately show ?thesis using assms by (intro exI [of _ ?s]) (simp add: metric_ok_def distinct_update)
qed

lemma models_of_inv: "metrics_inv M \<Longrightarrow> models_of M p = [] \<or> models_ok (models_of M p)"
  by (auto simp: models_of_def metrics_inv_def list_all_iff split: option.split dest: map_of_SomeD)

lemma ensured_ok: "metrics_inv M \<Longrightarrow> metric_ok (ensure_model_state M p m)"
  using models_of_inv [of M "metric_key p"]
  by (auto simp: ensure_model_state_def models_ok_def list_all_iff split: option.split dest: map_of_SomeD)

lemma AList_update_ne [simp]: "AList.update k v al \<noteq> []"
  by (cases al) auto

lemma models_ok_update:
  assumes "models = [] \<or> models_ok models" and "key_ok m" and "metric_ok s"
  shows "models_ok (AList.update m s models)"
  using assms by (auto simp: models_ok_def list_all_iff distinct_update dest!: set_AList_update)

lemma set_model_state_inv:
  assumes "metrics_inv M" and "metric_ok s"
  shows "metrics_inv (set_model_state p m s M)"
proof -
  have "models_ok (AList.update (metric_key m) s (models_of M (metric_key p)))"
    by (rule models_ok_update [OF models_of_inv [OF assms(1)] metric_key_key assms(2)])
  then show ?thesis
    using assms(1) by (auto simp: set_model_state_def metrics_inv_def list_all_iff distinct_update dest!: set_AList_update)
qed

subsection \<open>A restart\<close>

lemma count_of_PInt: "dget d k = PInt n \<Longrightarrow> count_of d k = Inr n"
  by (simp add: count_of_def py_or_def)

lemma float_of_PFloat: "py_float (py_or (PFloat x t) (PInt 0)) = Inr x"
  by (simp add: py_or_def)

lemma hydrated_samples_fit:
  "length acc + length xs \<le> max_samples \<Longrightarrow>
     fold (\<lambda>x xs. case num_of_pyval x of None \<Rightarrow> xs | Some r \<Rightarrow> sample_append r xs) (map (float_value fr) xs) acc = acc @ xs"
  by (induction xs arbitrary: acc) (simp_all add: float_value_def sample_append_fits)

lemma snapshot_fields:
  "dget (model_snapshot fr s) ''total_requests'' = PInt (ms_total_requests s)"
  "dget (model_snapshot fr s) ''successful_requests'' = PInt (ms_successful_requests s)"
  "dget (model_snapshot fr s) ''failed_requests'' = PInt (ms_failed_requests s)"
  "dget (model_snapshot fr s) ''prompt_tokens'' = PInt (ms_prompt_tokens s)"
  "dget (model_snapshot fr s) ''cached_input_tokens'' = PInt (ms_cached_input_tokens s)"
  "dget (model_snapshot fr s) ''completion_tokens'' = PInt (ms_completion_tokens s)"
  "dget (model_snapshot fr s) ''total_tokens'' = PInt (ms_total_tokens s)"
  "dget (model_snapshot fr s) ''estimated_cost'' = PFloat (round_to 8 (ms_estimated_cost s)) (fr (round_to 8 (ms_estimated_cost s)))"
  "dget (model_snapshot fr s) ''failure_classes'' = PDict (ms_failure_classes s)"
  "dget (model_snapshot fr s) ''recent_rolling_samples'' =
     PList (map (float_value fr) (map (round_to 3) (ms_latency_samples_ms s)))"
  by (simp_all add: model_snapshot_def dget_Cons float_value_def)

lemma hydrate_snapshot:
  assumes "length (ms_latency_samples_ms s) \<le> max_samples"
  shows "hydrate_model (model_snapshot fr s) new_metric_state = Inr (rounded_state s)"
proof -
  have "hydrated_samples (dget (model_snapshot fr s) ''recent_rolling_samples'') [] = map (round_to 3) (ms_latency_samples_ms s)"
    using hydrated_samples_fit [of "[]" "map (round_to 3) (ms_latency_samples_ms s)" fr] assms
    by (simp add: hydrated_samples_def snapshot_fields del: map_map)
  then show ?thesis
    by (simp add: hydrate_model_def count_of_PInt [OF snapshot_fields(1)] count_of_PInt [OF snapshot_fields(2)]
        count_of_PInt [OF snapshot_fields(3)] count_of_PInt [OF snapshot_fields(4)] count_of_PInt [OF snapshot_fields(5)]
        count_of_PInt [OF snapshot_fields(6)] count_of_PInt [OF snapshot_fields(7)] snapshot_fields(8,9)
        float_of_PFloat rounded_state_def new_metric_state_def)
qed


lemma hydrate_models_snapshot:
  assumes "list_all (\<lambda>(m, s). key_ok m \<and> metric_ok s) ms" and "distinct (map fst ms)" and "key_ok p"
    and "\<forall>m\<in>fst ` set ms. map_of (models_of M p) m = None"
  shows "hydrate_models p (map (\<lambda>(m, s). (m, PDict (model_snapshot fr s))) ms) M =
    Inr (if ms = [] then M else AList.update p (models_of M p @ map (\<lambda>(m, s). (m, rounded_state s)) ms) M)"
  using assms
proof (induction ms arbitrary: M)
  case (Cons e ms)
  obtain m s where e: "e = (m, s)" by (cases e)
  have k: "metric_key m = m" "metric_key p = p" "metric_ok s" using Cons.prems by (simp_all add: e key_ok_def)
  then have l: "length (ms_latency_samples_ms s) \<le> max_samples" by (simp add: metric_ok_def)
  have fresh: "map_of (models_of M p) m = None" using Cons.prems(4) by (simp add: e)
  let ?M = "set_model_state p m (rounded_state s) M"
  have M: "?M = AList.update p (models_of M p @ [(m, rounded_state s)]) M"
    by (simp add: set_model_state_def k update_fresh fresh)
  have mo: "models_of ?M p = models_of M p @ [(m, rounded_state s)]" unfolding M by (simp add: models_of_def dict.get_put)
  have "hydrate_models p (map (\<lambda>(m, s). (m, PDict (model_snapshot fr s))) ms) ?M =
      Inr (if ms = [] then ?M else AList.update p (models_of ?M p @ map (\<lambda>(m, s). (m, rounded_state s)) ms) ?M)"
    using Cons.prems by (intro Cons.IH) (auto simp: e mo map_add_def split: option.splits)
  then show ?case
    using k(1,2) hydrate_snapshot [OF l] fresh
    unfolding mo by (simp add: e ensure_model_state_def M)
qed simp

lemma hydrate_providers_snapshot:
  assumes "list_all (\<lambda>(p, ms). key_ok p \<and> models_ok ms) ps" and "distinct (map fst ps)"
    and "\<forall>p\<in>fst ` set ps. map_of M p = None"
  shows "hydrate_providers (map (\<lambda>(p, ms). (p, PDict (provider_snapshot fr ms))) ps) M = Inr (M @ rounded_metrics ps)"
  using assms
proof (induction ps arbitrary: M)
  case (Cons e ps)
  obtain p ms where e: "e = (p, ms)" by (cases e)
  have ok: "key_ok p" "ms \<noteq> []" "distinct (map fst ms)" "list_all (\<lambda>(m, s). key_ok m \<and> metric_ok s) ms" "map_of M p = None"
    using Cons.prems by (simp_all add: e models_ok_def)
  let ?M = "M @ [(p, map (\<lambda>(m, s). (m, rounded_state s)) ms)]"
  have "models_of M p = []" using ok(5) by (simp add: models_of_def)
  then have 1: "hydrate_models p (map (\<lambda>(m, s). (m, PDict (model_snapshot fr s))) ms) M = Inr ?M"
    using hydrate_models_snapshot [OF ok(4,3,1), of M fr] ok(2,5) by (simp add: update_fresh)
  have 2: "dget (provider_snapshot fr ms) ''models'' = PDict (map (\<lambda>(m, s). (m, PDict (model_snapshot fr s))) ms)"
    by (simp add: provider_snapshot_def Let_def dget_Cons)
  have 3: "hydrate_providers (map (\<lambda>(p, ms). (p, PDict (provider_snapshot fr ms))) ps) ?M = Inr (?M @ rounded_metrics ps)"
    using Cons.prems by (intro Cons.IH) (auto simp: e)
  show ?case by (simp add: e 1 2 3 rounded_metrics_def)
qed (simp add: rounded_metrics_def)

lemma load_snapshot:
  assumes "metrics_inv M"
  shows "load_metrics (Some (PDict (metrics_snapshot fr M))) = Inr (rounded_metrics M)"
  using hydrate_providers_snapshot [of M "[]" fr] assms by (simp add: load_metrics_def metrics_snapshot_def metrics_inv_def dget_Cons)

lemma rounded_state_ok: "metric_ok s \<Longrightarrow> metric_ok (rounded_state s)"
  by (auto simp: metric_ok_def rounded_state_def list_all_iff round_to_nonneg)

lemma rounded_metrics_inv: "metrics_inv M \<Longrightarrow> metrics_inv (rounded_metrics M)"
  by (fastforce simp: metrics_inv_def rounded_metrics_def list_all_iff models_ok_def rounded_state_ok keys_map_values)

subsection \<open>Reachable states\<close>

inductive metrics_reachable :: "(rat \<Rightarrow> string) \<Rightarrow> metrics_state \<Rightarrow> bool" for fr where
  start: "metrics_reachable fr []"
| success: "metrics_reachable fr M \<Longrightarrow> metrics_reachable fr (record_success p m latency pt cit ot cost M)"
| failure: "metrics_reachable fr M \<Longrightarrow> record_failure fr p m c M = (M', res) \<Longrightarrow> metrics_reachable fr M'"
| restart: "metrics_reachable fr M \<Longrightarrow> load_metrics (Some (PDict (metrics_snapshot fr M))) = Inr M' \<Longrightarrow> metrics_reachable fr M'"

lemma record_failure_ok:
  assumes "metrics_inv M"
  shows "\<exists>M'. record_failure fr p m c M = (M', Inr ()) \<and> metrics_inv M'"
proof -
  obtain s where "counted_failure fr c (ensure_model_state M p m) = (s, Inr ())" "metric_ok s"
    using counted_failure_ok [OF ensured_ok [OF assms]] by blast
  then show ?thesis using set_model_state_inv [OF assms] by (simp add: record_failure_def)
qed

lemma metrics_reachable_inv: "metrics_reachable fr M \<Longrightarrow> metrics_inv M"
proof (induction rule: metrics_reachable.induct)
  case (success M p m latency pt cit ot cost)
  then show ?case
    unfolding record_success_def by (intro set_model_state_inv counted_success_ok ensured_ok)
next
  case (failure M p m c M' res)
  then show ?case using record_failure_ok [of M fr p m c] by auto
next
  case (restart M M')
  then show ?case using load_snapshot [of M fr] rounded_metrics_inv [of M] by auto
qed (simp add: metrics_inv_def)

subsection \<open>The percentile\<close>

lemma p95_index_bounds:
  assumes "0 < n"
  shows "p95_index n < n" and "19 * n \<le> 20 * (p95_index n + 1)"
proof -
  have c: "\<lceil>of_nat n * (95 / 100 :: rat)\<rceil> \<le> int n" by (simp add: ceiling_le_iff)
  have "(0 :: rat) < of_nat n * (95 / 100)" using assms by simp
  then have p: "1 \<le> \<lceil>of_nat n * (95 / 100 :: rat)\<rceil>" by linarith
  then have i: "int (p95_index n) = \<lceil>of_nat n * (95 / 100 :: rat)\<rceil> - 1" by (simp add: p95_index_def)
  then show "p95_index n < n" using c by linarith
  have "of_nat n * (95 / 100 :: rat) \<le> of_int \<lceil>of_nat n * (95 / 100 :: rat)\<rceil>" by (rule le_of_int_ceiling)
  also have "\<dots> = of_int (int (p95_index n) + 1)" using i by simp
  finally have "19 * (of_nat n :: rat) \<le> 20 * (of_nat (p95_index n) + 1)" by (simp add: field_simps)
  then have "(of_nat (19 * n) :: rat) \<le> of_nat (20 * (p95_index n + 1))" by simp
  then show "19 * n \<le> 20 * (p95_index n + 1)" by (simp only: of_nat_le_iff)
qed

lemma sorted_nth_count:
  fixes xs :: "rat list"
  assumes "i < length xs"
  shows "i + 1 \<le> length (filter (\<lambda>x. x \<le> sort xs ! i) xs)"
proof -
  let ?ys = "sort xs"
  have "length (filter (\<lambda>x. x \<le> ?ys ! i) xs) = length (filter (\<lambda>x. x \<le> ?ys ! i) ?ys)"
    by (simp add: filter_sort)
  moreover have "filter (\<lambda>x. x \<le> ?ys ! i) (take (i + 1) ?ys) = take (i + 1) ?ys"
    using assms by (auto simp: filter_id_conv in_set_conv_nth intro!: sorted_nth_mono)
  then have "length (take (i + 1) ?ys) \<le> length (filter (\<lambda>x. x \<le> ?ys ! i) ?ys)"
    by (metis append_take_drop_id filter_append le_add1 length_append)
  ultimately show ?thesis using assms by simp
qed

section \<open>Properties\<close>

text \<open>
  C13. The counters are consistent whatever is recorded and however often the node is restarted: for
  every model the requests are the successes and the failures, the failures are the sum of their
  classes, at most 50 latencies are kept and none is negative; and recording a failure never raises.
\<close>

theorem metrics_consistent:
  assumes "metrics_reachable fr M"
  shows "(\<forall>(p, models)\<in>set M. \<forall>(m, s)\<in>set models.
      ms_total_requests s = ms_successful_requests s + ms_failed_requests s \<and>
      failure_total (ms_failure_classes s) = ms_failed_requests s \<and>
      length (ms_latency_samples_ms s) \<le> 50 \<and> (\<forall>x\<in>set (ms_latency_samples_ms s). 0 \<le> x)) \<and>
    (\<exists>M'. record_failure fr p m c M = (M', Inr ()))"
  using metrics_reachable_inv [OF assms] record_failure_ok [OF metrics_reachable_inv [OF assms]]
  unfolding metrics_inv_def models_ok_def metric_ok_def list_all_iff max_samples_def by fast

definition sample_metrics :: metrics_state where
  "sample_metrics = fst (record_failure (\<lambda>_. []) ''openai'' ''m'' ''TimeoutError''
     (record_success ''openai'' ''m'' (3 / 2) 5 0 7 (Some (1 / 3)) []))"

lemma sample_metrics_reachable: "metrics_reachable (\<lambda>_. []) sample_metrics"
  unfolding sample_metrics_def
  by (rule metrics_reachable.failure [OF metrics_reachable.success [OF metrics_reachable.start]]) (rule prod.collapse [symmetric])

theorem metrics_consistent_witness:
  "(\<exists>M'. record_failure (\<lambda>_. []) ''openai'' ''m'' ''x'' sample_metrics = (M', Inr ())) \<and>
   ms_failed_requests (ensure_model_state sample_metrics ''openai'' ''m'') = 1"
proof -
  have "ms_failed_requests (ensure_model_state sample_metrics ''openai'' ''m'') = 1" by code_simp
  then show ?thesis using metrics_consistent [OF sample_metrics_reachable] by blast
qed

text \<open>
  A restart keeps the metrics. What the file of a reachable state gives back is that state with
  its latencies rounded to three places and its costs to eight; every counter is the same.
\<close>

theorem metrics_survive_restart:
  assumes "metrics_reachable fr M"
  shows "load_metrics (Some (PDict (metrics_snapshot fr M))) = Inr (rounded_metrics M)"
  by (rule load_snapshot [OF metrics_reachable_inv [OF assms]])

theorem metrics_survive_restart_witness:
  "load_metrics (Some (PDict (metrics_snapshot (\<lambda>_. []) sample_metrics))) = Inr (rounded_metrics sample_metrics) \<and>
   ms_prompt_tokens (ensure_model_state (rounded_metrics sample_metrics) ''openai'' ''m'') = 5"
  using metrics_survive_restart [OF sample_metrics_reachable] by (intro conjI) (assumption, code_simp)

text \<open>
  What the percentile says. It is one of the latencies, rounded to three places, and at least 95
  in 100 of the latencies are at most that one.
\<close>

theorem p95_covers:
  assumes "samples \<noteq> []"
  shows "\<exists>x\<in>set samples. p95_latency samples = Some (round_to 3 x) \<and>
    19 * length samples \<le> 20 * length (filter (\<lambda>y. y \<le> x) samples)"
proof -
  let ?i = "p95_index (length samples)" let ?x = "sort samples ! ?i"
  have n: "0 < length samples" using assms by simp
  have "?x \<in> set samples" using p95_index_bounds(1) [OF n] by (metis length_sort nth_mem set_sort)
  moreover have "19 * length samples \<le> 20 * length (filter (\<lambda>y. y \<le> ?x) samples)"
    using p95_index_bounds(2) [OF n] sorted_nth_count [OF p95_index_bounds(1) [OF n]]
    by (meson le_trans mult_le_mono2)
  ultimately show ?thesis using assms by (auto simp: p95_latency_def)
qed

theorem p95_covers_witness:
  "\<exists>x\<in>set [3, 1, 2 :: rat]. p95_latency [3, 1, 2] = Some (round_to 3 x) \<and> p95_latency [3, 1, 2] = Some 3"
proof -
  have "p95_latency [3, 1, 2] = Some 3" by code_simp
  then show ?thesis using p95_covers [of "[3, 1, 2 :: rat]"] by fast
qed

end
