(* ===== verification/Execution_Constraints.thy ===== *)
theory Execution_Constraints
  imports Task_Inputs Failure_Codes
begin

text \<open>
  How the service of \<open>runtime/task_execution_service.py\<close> combines what the request, the prompt and
  governance say of a task into the constraints it resolves a provider under: the routing modes,
  the requested provider and model, the timeout, the priority and the cost limit. The metadata of
  a resolution is here too.

  The code writes some of the merged values into dictionaries that belong to the request; nothing
  of the pipeline reads them there again, so the definitions return the merged dictionary only.
\<close>

section \<open>Routing modes\<close>

definition normalize_routing_policy_mode :: "pyval \<Rightarrow> string option" where
  "normalize_routing_policy_mode value =
     (let mode = py_lower (norm_string value)
      in if mode \<in> {''local_only'', ''local_preferred'', ''cloud_only'', ''cloud_fallback''} then Some mode else None)"

definition routing_mode_scope :: "string option \<Rightarrow> string set" where
  "routing_mode_scope mode =
     (if mode = Some ''local_only'' then {''local''}
      else if mode = Some ''cloud_only'' then {''cloud''}
      else {''local'', ''cloud''})"

text \<open>The merged mode and whether the two conflict.\<close>

definition merge_routing_policy_modes :: "string option \<Rightarrow> string option \<Rightarrow> string option \<times> bool" where
  "merge_routing_policy_modes prompt_mode request_mode =
     (let effective_scope = routing_mode_scope prompt_mode \<inter> routing_mode_scope request_mode
      in if effective_scope = {} then (None, True)
         else if effective_scope = {''local''} then (Some ''local_only'', False)
         else if effective_scope = {''cloud''} then (Some ''cloud_only'', False)
         else (case request_mode of Some m \<Rightarrow> Some m | None \<Rightarrow> prompt_mode, False))"

text \<open>The mode that a routing policy among some constraints asks for.\<close>

definition policy_mode_of :: "pydict \<Rightarrow> string option" where
  "policy_mode_of constraints =
     normalize_routing_policy_mode (dget (as_dict (dget constraints ''routing_policy'')) ''mode'')"

definition authorization_privacy_routing_mode :: "ExecutionAuthorizationResult \<Rightarrow> string option" where
  "authorization_privacy_routing_mode a =
     (if py_lower (norm_string (opt_str (ea_privacy_class a))) \<in> {''restricted'', ''sensitive''}
      then Some ''local_only'' else None)"

section \<open>The request\<close>

definition safe_governance_constraints :: "TaskExecutionRequest \<Rightarrow> pydict" where
  "safe_governance_constraints r =
     (let governance = as_dict (dget (tr_constraints r) ''governance'')
      in case policy_mode_of (tr_constraints r) of
           None \<Rightarrow> governance
         | Some m \<Rightarrow>
             let routing = as_dict (dget governance ''routing_policy_constraints'')
             in AList.update ''routing_policy_constraints'' (PDict (AList.update ''mode'' (PStr m) routing)) governance)"

definition provider_is_local :: "pyval \<Rightarrow> bool" where
  "provider_is_local provider_id = (py_lower (norm_string provider_id) = ''local'')"

definition default_provider_allowed_by_routing :: "pyval \<Rightarrow> string option \<Rightarrow> bool" where
  "default_provider_allowed_by_routing default_provider routing_mode =
     (let provider = py_lower (norm_string default_provider)
      in if provider = [] then False
         else if routing_mode \<in> {Some ''local_only'', Some ''local_preferred''} \<and> \<not> provider_is_local (PStr provider) then False
         else if routing_mode = Some ''cloud_only'' \<and> provider_is_local (PStr provider) then False
         else True)"

definition effective_requested_provider :: "TaskExecutionRequest \<Rightarrow> ExecutionAuthorizationResult option \<Rightarrow> pyval" where
  "effective_requested_provider r a =
     (if truthy (opt_str (tr_requested_provider r)) then opt_str (tr_requested_provider r)
      else (case Option.bind a ea_provider_preferences of
              None \<Rightarrow> PNone
            | Some preferences \<Rightarrow>
                let default_provider = dget preferences ''default_provider'';
                    (effective_mode, conflict) =
                      merge_routing_policy_modes (policy_mode_of (auth_constraints a)) (policy_mode_of (tr_constraints r))
                in if conflict \<or> \<not> default_provider_allowed_by_routing default_provider effective_mode then PNone
                   else default_provider))"

definition effective_requested_model :: "TaskExecutionRequest \<Rightarrow> ExecutionAuthorizationResult option \<Rightarrow> pyval" where
  "effective_requested_model r a =
     (if truthy (opt_str (tr_requested_model r)) then opt_str (tr_requested_model r)
      else (case Option.bind a ea_provider_preferences of
              None \<Rightarrow> PNone
            | Some preferences \<Rightarrow>
                if effective_requested_provider r a = PNone then PNone else dget preferences ''default_model''))"

definition effective_timeout_s :: "TaskExecutionRequest \<Rightarrow> ExecutionAuthorizationResult option \<Rightarrow> int result" where
  "effective_timeout_s r a =
     (let max_timeout_s = dget (auth_constraints a) ''max_timeout_s''
      in if max_timeout_s = PNone then Inr (tr_timeout_s r)
         else ebind (py_int max_timeout_s) (\<lambda>m. Inr (min (tr_timeout_s r) (max m 1))))"

definition effective_priority :: "TaskExecutionRequest \<Rightarrow> ExecutionAuthorizationResult option \<Rightarrow> string" where
  "effective_priority r a =
     (case prompt_importance_level a of
        None \<Rightarrow> tr_priority r
      | Some level \<Rightarrow> the (map_of IMPORTANCE_TO_EXECUTION_PRIORITY level))"

text \<open>The cost limit in cents; \<open>float(x) * 100\<close> is exact here.\<close>

definition request_max_cost_cents :: "TaskExecutionRequest \<Rightarrow> int option result" where
  "request_max_cost_cents r =
     (let constraints = tr_constraints r; budget = as_dict (dget constraints ''budget'')
      in if dget budget ''max_cost_cents'' \<noteq> PNone
         then ebind (py_int (dget budget ''max_cost_cents'')) (\<lambda>c. Inr (Some (max c 0)))
         else if dget constraints ''max_cost_cents'' \<noteq> PNone
         then ebind (py_int (dget constraints ''max_cost_cents'')) (\<lambda>c. Inr (Some (max c 0)))
         else if dget constraints ''max_cost_usd'' \<noteq> PNone
         then ebind (py_float (dget constraints ''max_cost_usd'')) (\<lambda>x. Inr (Some (max (rat_trunc (x * 100)) 0)))
         else Inr None)"

section \<open>Merging the constraints of a prompt\<close>

text \<open>\<open>list(v or [])\<close>, and \<open>[item for item in items if item in set(allowed)]\<close>, which raises when an
  item cannot be hashed.\<close>

definition items_of :: "pyval \<Rightarrow> pyval list result" where
  "items_of v = py_list (py_or v (PList []))"

definition hashable :: "pyval \<Rightarrow> bool" where
  "hashable v = (case v of PList _ \<Rightarrow> False | PDict _ \<Rightarrow> False | _ \<Rightarrow> True)"

definition items_in :: "pyval list \<Rightarrow> pyval list \<Rightarrow> pyval list result" where
  "items_in items allowed =
     (if items \<noteq> [] \<and> \<not> (list_all hashable allowed \<and> list_all hashable items) then Inl TypeError
      else Inr (filter (\<lambda>i. list_ex (py_eq i) allowed) items))"

text \<open>The items of a list narrowed to the preferred ones, or the preferred ones when there is none.\<close>

definition narrowed :: "pyval \<Rightarrow> pyval list \<Rightarrow> pyval list result" where
  "narrowed current preferred =
     ebind (items_of current) (\<lambda>items. if items \<noteq> [] then items_in items preferred else Inr preferred)"

definition merge_preferred_providers :: "pyval list \<Rightarrow> pydict \<Rightarrow> pydict result" where
  "merge_preferred_providers preferred merged =
     (if preferred = [] then Inr merged
      else ebind (narrowed (dget merged ''approved_providers'') preferred) (\<lambda>items.
        Inr (AList.update ''approved_providers'' (PList items) merged)))"

definition model_list_key :: "pyval \<Rightarrow> string" where
  "model_list_key default_provider =
     (let k = py_lower (norm_string default_provider) in if k = [] then ''*'' else k)"

definition merge_preferred_models :: "pyval \<Rightarrow> pyval list \<Rightarrow> pydict \<Rightarrow> pydict result" where
  "merge_preferred_models default_provider preferred merged =
     (if preferred = [] then Inr merged
      else
        let approved_models = as_dict (dget merged ''approved_models''); k = model_list_key default_provider
        in ebind (narrowed (dget approved_models k) preferred) (\<lambda>items.
           Inr (AList.update ''approved_models'' (PDict (AList.update k (PList items) approved_models)) merged)))"

definition merge_timeout :: "pyval \<Rightarrow> pydict \<Rightarrow> pydict result" where
  "merge_timeout max_timeout_s merged =
     (if max_timeout_s = PNone then Inr merged
      else
        let routing = as_dict (dget merged ''routing_policy_constraints''); current = dget routing ''max_timeout_s''
        in ebind (py_int max_timeout_s) (\<lambda>prompt_timeout.
           ebind (if current = PNone then Inr prompt_timeout else ebind (py_int current) (\<lambda>c. Inr (min c prompt_timeout))) (\<lambda>t.
           Inr (AList.update ''routing_policy_constraints'' (PDict (AList.update ''max_timeout_s'' (PInt t) routing)) merged))))"

definition feature_items :: "pydict \<Rightarrow> string list result" where
  "feature_items requirements =
     ebind (items_of (dget requirements ''required_features'')) (\<lambda>items.
     Inr (map py_lower (filter (\<lambda>s. s \<noteq> []) (map norm_string items))))"

definition merge_features :: "pydict \<Rightarrow> pydict \<Rightarrow> pydict result" where
  "merge_features prompt_constraints merged =
     ebind (feature_items (as_dict (dget prompt_constraints ''capability_requirements''))) (\<lambda>required_features.
     if required_features = [] then Inr merged
     else
       let existing = as_dict (dget merged ''model_capability_requirements'')
       in ebind (feature_items existing) (\<lambda>existing_required.
          Inr (AList.update ''model_capability_requirements''
            (PDict (AList.update ''source'' (PStr ''prompt_v3_capability_requirements'')
              (AList.update ''required_features''
                (PList (map PStr (sort (remdups (existing_required @ required_features))))) existing))) merged)))"

text \<open>The mode of the privacy class, of the prompt and of the request.\<close>

definition merge_routing :: "ExecutionAuthorizationResult \<Rightarrow> pydict \<Rightarrow> pydict" where
  "merge_routing a merged =
     (let prompt_mode = policy_mode_of (auth_constraints (Some a));
          (effective_prompt_mode, privacy_conflict) =
            merge_routing_policy_modes (authorization_privacy_routing_mode a) prompt_mode;
          routing = as_dict (dget merged ''routing_policy_constraints'');
          (effective_mode, conflict) =
            merge_routing_policy_modes effective_prompt_mode (normalize_routing_policy_mode (dget routing ''mode''));
          routing' =
            (if privacy_conflict \<or> conflict then AList.update ''routing_policy_conflict'' (PBool True) routing
             else (case effective_mode of None \<Rightarrow> routing | Some m \<Rightarrow> AList.update ''mode'' (PStr m) routing))
      in if routing' = [] then merged else AList.update ''routing_policy_constraints'' (PDict routing') merged)"

definition merge_prompt_governance_constraints :: "pydict \<Rightarrow> ExecutionAuthorizationResult \<Rightarrow> pydict result" where
  "merge_prompt_governance_constraints governance_constraints a =
     (let preferences = auth_preferences (Some a); prompt_constraints = auth_constraints (Some a)
      in ebind (items_of (dget preferences ''preferred_providers'')) (\<lambda>preferred_providers.
         ebind (items_of (dget preferences ''preferred_models'')) (\<lambda>preferred_models.
         ebind (merge_preferred_providers preferred_providers governance_constraints) (\<lambda>m1.
         ebind (merge_preferred_models (dget preferences ''default_provider'') preferred_models m1) (\<lambda>m2.
         ebind (merge_timeout (dget prompt_constraints ''max_timeout_s'') m2) (\<lambda>m3.
         ebind (merge_features prompt_constraints m3) (\<lambda>m4.
         Inr (merge_routing a m4))))))))"

section \<open>The metadata of a resolution\<close>

definition resolution_used_fallback :: "ProviderResolutionResult \<Rightarrow> bool" where
  "resolution_used_fallback p =
     (let provider_id = norm_string (opt_str (prr_provider_id p));
          order = filter (\<lambda>s. s \<noteq> []) (map py_strip (prr_provider_order p))
      in provider_id \<noteq> [] \<and> order \<noteq> [] \<and> provider_id \<noteq> hd order)"

definition provider_reason ::
    "TaskExecutionRequest \<Rightarrow> ExecutionAuthorizationResult option \<Rightarrow> pyval \<Rightarrow> string" where
  "provider_reason r a mode =
     (if truthy (opt_str (tr_requested_provider r)) then ''requested_provider''
      else if truthy mode then ''routing_policy_'' @ py_str mode
      else if truthy (dget (auth_preferences a) ''default_provider'') then ''prompt_default_provider''
      else ''provider_selection_policy'')"

definition model_reason :: "TaskExecutionRequest \<Rightarrow> ExecutionAuthorizationResult option \<Rightarrow> string" where
  "model_reason r a =
     (if truthy (opt_str (tr_requested_model r)) then ''requested_model''
      else if truthy (dget (auth_preferences a) ''default_model'') then ''prompt_default_model''
      else ''provider_task_default_or_provider_default'')"

definition recovery_payload :: "recovery_policy \<Rightarrow> pydict" where
  "recovery_payload p =
     [(''failure_category'', PStr (rp_failure_category p)), (''retryable'', PBool (rp_retryable p)),
      (''fallback_allowed'', PBool (rp_fallback_allowed p)), (''action'', PStr (rp_action p))]"

definition strings_value :: "string list \<Rightarrow> pyval" where
  "strings_value xs = PList (map PStr xs)"

text \<open>Whether the selected provider is a local one, and what the metadata says of where the task runs.\<close>

definition selected_provider :: "ProviderResolutionResult \<Rightarrow> string" where
  "selected_provider p = py_lower (norm_string (opt_str (prr_provider_id p)))"

definition location_evidence :: "ProviderResolutionResult \<Rightarrow> pydict" where
  "location_evidence p =
     (let selected = selected_provider p;
          location = (if selected \<in> {''local'', ''local_vision''} then PStr ''local''
                      else if selected \<noteq> [] then PStr ''cloud'' else PNone)
      in [(''provider_class'', location), (''concrete_executor'', opt_str (prr_provider_id p)), (''execution_location'', location),
          (''cloud_used'', if selected \<in> {''local'', ''local_vision''} then PBool False
                         else if selected \<noteq> [] then PBool True else PNone)])"

definition resolution_metadata ::
    "TaskExecutionRequest \<Rightarrow> ExecutionAuthorizationResult option \<Rightarrow> ProviderResolutionResult \<Rightarrow> pydict \<Rightarrow> string option \<Rightarrow> pydict"
  where
  "resolution_metadata r a p governance_constraints rejection =
     (let mode = dget (as_dict (dget governance_constraints ''routing_policy_constraints'')) ''mode''
      in [(''selected_provider'', opt_str (prr_provider_id p)), (''selected_model'', opt_str (prr_model_id p))] @
         location_evidence p @
         [(''provider_selection_reason'', PStr (provider_reason r a mode)),
          (''model_selection_reason'', PStr (model_reason r a)),
          (''requested_provider'', opt_str (tr_requested_provider r)), (''requested_model'', opt_str (tr_requested_model r)),
          (''effective_requested_provider'', effective_requested_provider r a),
          (''effective_requested_model'', effective_requested_model r a),
          (''routing_policy_mode'', mode),
          (''provider_order'', strings_value (prr_provider_order p)),
          (''fallback_provider_ids'', strings_value (prr_fallback_provider_ids p)),
          (''model_allowlist_by_provider'', PDict (map (\<lambda>(k, ms). (k, strings_value ms)) (prr_model_allowlist_by_provider p))),
          (''timeout_s'', PInt (prr_timeout_s p)), (''retry_count'', PInt (prr_retry_count p)),
          (''rejection_reason'', opt_str rejection)] @
         (case dget governance_constraints ''model_capability_requirements'' of
            PDict d \<Rightarrow> [(''capability_requirements'', PDict d)] | _ \<Rightarrow> []) @
         (case dget (tr_constraints r) ''image_template_resolved'' of
            PDict t \<Rightarrow> [(''image_template'', PDict (pick [''template_id'', ''template_version'', ''template_runtime'',
              ''output_scope'', ''output_folder_policy'', ''api_workflow_path'', ''ui_workflow_path''] t))]
          | _ \<Rightarrow> []) @
         (case rejection of
            Some (c # cs) \<Rightarrow> [(''error_policy'', PDict (recovery_payload (recovery_policy_for_failure_code (PStr (c # cs)))))]
          | _ \<Rightarrow> []))"

section \<open>Lemmas\<close>

lemma update_nonempty: "AList.update k v al \<noteq> []" "(AList.update k v al = []) = False"
  by (induction al) auto

lemma routing_modes_agree: "normalize_routing_policy_mode v = normalize_routing_mode v"
  by (simp add: normalize_routing_policy_mode_def normalize_routing_mode_def)

lemma policy_mode_cases:
  "normalize_routing_policy_mode v = Some m \<Longrightarrow> m \<in> {''local_only'', ''local_preferred'', ''cloud_only'', ''cloud_fallback''}"
  unfolding normalize_routing_policy_mode_def Let_def by (metis option.distinct(1) option.inject)

lemma routing_mode_fixed:
  assumes "m \<in> {''local_only'', ''local_preferred'', ''cloud_only'', ''cloud_fallback''}"
  shows "normalize_routing_policy_mode (PStr m) = Some m"
proof -
  have "normalize_routing_policy_mode (PStr ''local_only'') = Some ''local_only''"
    "normalize_routing_policy_mode (PStr ''local_preferred'') = Some ''local_preferred''"
    "normalize_routing_policy_mode (PStr ''cloud_only'') = Some ''cloud_only''"
    "normalize_routing_policy_mode (PStr ''cloud_fallback'') = Some ''cloud_fallback''" by code_simp+
  then show ?thesis using assms by (elim insertE emptyE) (simp_all only:)
qed

lemma scope_cases:
  "routing_mode_scope m = (if m = Some ''local_only'' then {''local''} else if m = Some ''cloud_only'' then {''cloud''} else {''local'', ''cloud''})"
  by (rule routing_mode_scope_def)

lemma merge_local_only:
  "merge_routing_policy_modes (Some ''local_only'') m = (if m = Some ''cloud_only'' then (None, True) else (Some ''local_only'', False))"
proof -
  have i: "a \<noteq> b \<Longrightarrow> {a} \<inter> {b} = {}" "{a} \<inter> {a, b} = {a}" "{a} \<inter> {a} = {a}" "{a} \<noteq> {}" for a b :: string by auto
  have n: "''local'' \<noteq> ''cloud''" "''cloud_only'' \<noteq> ''local_only''" by simp_all
  have l: "routing_mode_scope (Some ''local_only'') = {''local''}" by (simp only: routing_mode_scope_def simp_thms if_True)
  show ?thesis
  proof (cases "m = Some ''cloud_only''")
    case True
    have "routing_mode_scope m = {''cloud''}" unfolding True routing_mode_scope_def by (simp only: option.inject n if_False simp_thms if_True)
    then show ?thesis unfolding merge_routing_policy_modes_def Let_def l
      by (simp only: i(1) [OF n(1)] True simp_thms if_True)
  next
    case False
    then have "{''local''} \<inter> routing_mode_scope m = {''local''}"
      unfolding routing_mode_scope_def by (simp only: i(2,3) if_False split: if_split) simp
    then show ?thesis unfolding merge_routing_policy_modes_def Let_def l
      by (simp only: i(4) False simp_thms if_False if_True)
  qed
qed


text \<open>A resolution names one of the providers the policy admits.\<close>

lemma first_candidate_mem: "first_candidate ctx q d cs = Some (x, m) \<Longrightarrow> \<exists>c\<in>set cs. x = py_strip c"
  by (induction cs) (auto split: option.splits)

lemma resolved_eligible:
  assumes "resolve ctx q g = Inr p" and "prr_allowed p"
  shows "\<exists>x m. prr_provider_id p = Some x \<and> prr_model_id p = Some m \<and> x \<in> set (policy_eligible (resolution_input ctx q g))"
proof -
  obtain d where d: "build_provider_selection_policy (resolution_input ctx q g) = Inr d"
    using assms(1) by (auto simp: resolve_def ebind_Inr_conv)
  have ok: "rejection_reason d = None" "provider_order d \<noteq> []"
    using assms by (auto simp: resolve_def d split: if_splits)
  obtain x m where fc: "first_candidate ctx q d (provider_order d) = Some (x, m)"
    using assms ok by (auto simp: resolve_def d split: option.splits prod.splits)
  then have p: "prr_provider_id p = Some x" "prr_model_id p = Some m" using assms ok by (auto simp: resolve_def d)
  obtain limits where "set (provider_order d) = {x \<in> set (policy_eligible (resolution_input ctx q g)). selectable (resolution_input ctx q g) limits x}"
    using policy_accepted [OF d ok(1)] policy_order_set by metis
  then obtain c where c: "c \<in> set (policy_eligible (resolution_input ctx q g))" "x = py_strip c"
    using first_candidate_mem [OF fc] by blast
  then show ?thesis using p policy_eligible_facts(6) [OF c(1)] by auto
qed

lemma resolved_local:
  assumes "resolve ctx q (PDict g) = Inr p" and "prr_allowed p"
    and "normalize_routing_policy_mode (dget (as_dict (dget g ''routing_policy_constraints'')) ''mode'') = Some ''local_only''"
  shows "prr_provider_id p = Some ''local''"
proof -
  have "policy_mode (resolution_input ctx q (PDict g)) = Some ''local_only''"
    using assms(3) by (simp add: policy_mode_def policy_routing_def policy_governance_def resolution_input_def routing_modes_agree)
  then show ?thesis using resolved_eligible [OF assms(1,2)] policy_eligible_facts(3) by blast
qed

text \<open>A prompt whose privacy class is restricted or sensitive binds the routing of its request.\<close>

lemma merge_routing_private:
  assumes "authorization_privacy_routing_mode a = Some ''local_only''"
  shows "\<exists>rt. dget (merge_routing a m) ''routing_policy_constraints'' = PDict rt \<and>
    (dget rt ''routing_policy_conflict'' = PBool True \<or> normalize_routing_policy_mode (dget rt ''mode'') = Some ''local_only'')"
proof -
  let ?rt = "as_dict (dget m ''routing_policy_constraints'')"
  have l: "normalize_routing_policy_mode (PStr ''local_only'') = Some ''local_only''" by code_simp
  let ?c = "AList.update ''routing_policy_conflict'' (PBool True) ?rt" and ?m = "AList.update ''mode'' (PStr ''local_only'') ?rt"
  have "merge_routing a m = AList.update ''routing_policy_constraints'' (PDict ?c) m \<or>
      merge_routing a m = AList.update ''routing_policy_constraints'' (PDict ?m) m"
  proof (cases "policy_mode_of (auth_constraints (Some a)) = Some ''cloud_only''")
    case True
    obtain em cf where e: "merge_routing_policy_modes None (normalize_routing_policy_mode (dget ?rt ''mode'')) = (em, cf)"
      by (rule prod.exhaust)
    show ?thesis
      by (simp only: merge_routing_def Let_def assms merge_local_only True e if_True if_False prod.case simp_thms update_nonempty)
  next
    case False
    then show ?thesis
      by (cases "normalize_routing_policy_mode (dget ?rt ''mode'') = Some ''cloud_only''")
        (simp_all only: merge_routing_def Let_def assms merge_local_only if_True if_False prod.case option.case simp_thms update_nonempty)
  qed
  then show ?thesis
  proof
    assume "merge_routing a m = AList.update ''routing_policy_constraints'' (PDict ?c) m"
    then show ?thesis by (intro exI [of _ ?c]) (simp only: dget_update if_True simp_thms)
  next
    assume "merge_routing a m = AList.update ''routing_policy_constraints'' (PDict ?m) m"
    then show ?thesis by (intro exI [of _ ?m]) (simp only: dget_update if_True simp_thms l)
  qed
qed

lemma merged_private:
  assumes "merge_prompt_governance_constraints g a = Inr g'" and "authorization_privacy_routing_mode a = Some ''local_only''"
  shows "\<exists>rt. dget g' ''routing_policy_constraints'' = PDict rt \<and>
    (dget rt ''routing_policy_conflict'' = PBool True \<or> normalize_routing_policy_mode (dget rt ''mode'') = Some ''local_only'')"
  using assms(1) merge_routing_private [OF assms(2)]
  by (auto simp: merge_prompt_governance_constraints_def Let_def ebind_Inr_conv)


lemma effective_timeout_bounds:
  "effective_timeout_s r a = Inr t \<Longrightarrow> t \<le> tr_timeout_s r \<and> (0 < tr_timeout_s r \<longrightarrow> 1 \<le> t)"
  by (auto simp: effective_timeout_s_def Let_def ebind_Inr_conv split: if_splits)

text \<open>The later merges leave the approved providers alone.\<close>

lemma merge_keeps_providers:
  "merge_preferred_models dp ms m = Inr m' \<Longrightarrow> dget m' ''approved_providers'' = dget m ''approved_providers''"
  "merge_timeout t m = Inr m' \<Longrightarrow> dget m' ''approved_providers'' = dget m ''approved_providers''"
  "merge_features pc m = Inr m' \<Longrightarrow> dget m' ''approved_providers'' = dget m ''approved_providers''"
  "dget (merge_routing a m) ''approved_providers'' = dget m ''approved_providers''"
proof -
  have n: "''approved_providers'' \<noteq> ''approved_models''" "''approved_providers'' \<noteq> ''routing_policy_constraints''"
    "''approved_providers'' \<noteq> ''model_capability_requirements''" by simp_all
  have u: "dget (if b then m else AList.update k v m) ''approved_providers'' = dget m ''approved_providers''"
    if "''approved_providers'' \<noteq> k" for b k v m using that by simp
  have e: "(if b then Inr m else ebind x (\<lambda>i. Inr (AList.update k (f i) m))) = Inr m' \<Longrightarrow>
      dget m' ''approved_providers'' = dget m ''approved_providers''"
    if "''approved_providers'' \<noteq> k" for b k m x m' and f :: "'c \<Rightarrow> pyval"
    using that by (cases b) (auto simp: ebind_Inr_conv)
  show "merge_preferred_models dp ms m = Inr m' \<Longrightarrow> dget m' ''approved_providers'' = dget m ''approved_providers''"
    unfolding merge_preferred_models_def Let_def by (rule e [OF n(1)])
  show "dget m' ''approved_providers'' = dget m ''approved_providers''" if "merge_timeout t m = Inr m'"
    using that unfolding merge_timeout_def Let_def by (cases "t = PNone") (auto simp only: ebind_Inr_conv if_True if_False simp_thms sum.inject dget_update n)
  show "dget m' ''approved_providers'' = dget m ''approved_providers''" if f: "merge_features pc m = Inr m'"
  proof -
    obtain fs where "(if fs = [] then Inr m else ebind (feature_items (as_dict (dget m ''model_capability_requirements''))) (\<lambda>es.
          Inr (AList.update ''model_capability_requirements''
            (PDict (AList.update ''source'' (PStr ''prompt_v3_capability_requirements'')
              (AList.update ''required_features'' (PList (map PStr (sort (remdups (es @ fs)))))
                (as_dict (dget m ''model_capability_requirements''))))) m))) = Inr m'"
      using f unfolding merge_features_def Let_def ebind_Inr_conv by blast
    then show ?thesis by (rule e [OF n(3)])
  qed
  obtain ep pc where 1: "merge_routing_policy_modes (authorization_privacy_routing_mode a) (policy_mode_of (auth_constraints (Some a))) = (ep, pc)"
    by (rule prod.exhaust)
  obtain em cf where 2: "merge_routing_policy_modes ep
      (normalize_routing_policy_mode (dget (as_dict (dget m ''routing_policy_constraints'')) ''mode'')) = (em, cf)"
    by (rule prod.exhaust)
  show "dget (merge_routing a m) ''approved_providers'' = dget m ''approved_providers''"
    unfolding merge_routing_def Let_def 1 prod.case 2 by (rule u [OF n(2)])
qed

text \<open>Models preferred by a prompt without a default provider go under a key of their own, which no
  provider of another name reads.\<close>

lemma provider_models_onto_cong:
  "map_of acc x = map_of acc' x \<Longrightarrow> map_of (provider_models_onto acc items) x = map_of (provider_models_onto acc' items) x"
proof (induction items arbitrary: acc acc')
  case (Cons e items)
  show ?case
  proof (cases e)
    case (Pair k ms)
    show ?thesis unfolding Pair provider_models_onto.simps
      by (rule Cons.IH) (simp add: dict.get_put Cons.prems)
  qed
qed simp

lemma provider_models_onto_other:
  "provider_key k \<noteq> x \<Longrightarrow> map_of (provider_models_onto acc (AList.update k v items)) x = map_of (provider_models_onto acc items) x"
proof (induction items arbitrary: acc)
  case (Cons e items)
  show ?case
  proof (cases e)
    case (Pair k' ms)
    show ?thesis
    proof (cases "k' = k")
      case True
      show ?thesis
        unfolding Pair True update.simps fst_conv simp_thms if_True provider_models_onto.simps
        by (rule provider_models_onto_cong) (simp add: dict.get_put Cons.prems [symmetric])
    next
      case False
      then show ?thesis unfolding Pair by (simp add: Cons.IH [OF Cons.prems])
    qed
  qed
qed (simp add: dict.get_put)

lemma wildcard_models_ignored:
  assumes "merge_preferred_models PNone preferred m = Inr m'" and "is_dict (dget m ''approved_models'')" and "x \<noteq> ''*''"
  shows "alist_get (normalize_provider_models (dget m' ''approved_models'')) x =
    alist_get (normalize_provider_models (dget m ''approved_models'')) x"
proof -
  have k: "provider_key ''*'' = ''*''" "model_list_key PNone = ''*''" by code_simp+
  obtain d where d: "dget m ''approved_models'' = PDict d"
    using assms(2) by (auto simp: is_dict_def split: pyval.splits)
  show ?thesis
  proof (cases "preferred = []")
    case False
    then obtain items where "dget m' ''approved_models'' = PDict (AList.update ''*'' (PList items) d)"
      using assms(1) by (auto simp: merge_preferred_models_def Let_def ebind_Inr_conv d k)
    then show ?thesis
      using provider_models_onto_other [of "''*''" x] assms(3) by (simp add: normalize_provider_models_def alist_get_def d k)
  qed (use assms(1) in \<open>simp add: merge_preferred_models_def\<close>)
qed

section \<open>Properties\<close>

text \<open>
  A request that asks for a routing mode is not held to the limits of its node. The mode makes a
  routing policy of the request, and governance reads the timeout and the size of the inputs from
  that one instead of the one of its bundle, whatever the bundle says.
\<close>

theorem routing_mode_drops_bundle_limits:
  assumes "policy_mode_of (tr_constraints r) = Some m" and "dget (tr_constraints r) ''governance'' = PNone"
    and "gq_request_constraints q = PDict (safe_governance_constraints r)"
  shows "gov_timeout_exceeded q = Inr False \<and> gov_input_exceeded q = Inr False"
proof -
  have "safe_governance_constraints r = [(''routing_policy_constraints'', PDict [(''mode'', PStr m)])]"
    using assms(1,2) by (simp add: safe_governance_constraints_def Let_def)
  then have "gov_routing_policy q = [(''mode'', PStr m)]" by (simp add: gov_routing_policy_def assms(3) dget_Cons)
  then show ?thesis by (simp add: gov_timeout_exceeded_def gov_input_exceeded_def dget_Cons)
qed

definition sample_routed_request :: TaskExecutionRequest where
  "sample_routed_request = (sample_task_request ''alice'')
     \<lparr>tr_constraints := [(''routing_policy'', PDict [(''mode'', PStr ''local_preferred'')])], tr_timeout_s := 3600\<rparr>"

definition sample_query :: "pydict \<Rightarrow> governance_query" where
  "sample_query constraints =
     \<lparr>gq_task_family = PStr ''task.chat'', gq_timeout_s = PInt 3600, gq_inputs = PDict [],
      gq_governance_bundle = PDict [(''routing_policy_constraints'', PDict [(''max_timeout_s'', PInt 10)])],
      gq_request_constraints = PDict constraints, gq_provider_id = PNone, gq_model_id = PNone\<rparr>"

theorem routing_mode_drops_bundle_limits_witness:
  "gov_timeout_exceeded (sample_query (safe_governance_constraints sample_routed_request)) = Inr False \<and>
   gov_timeout_exceeded (sample_query []) = Inr True"
proof -
  have "policy_mode_of (tr_constraints sample_routed_request) = Some ''local_preferred''"
    "dget (tr_constraints sample_routed_request) ''governance'' = PNone" by code_simp+
  from routing_mode_drops_bundle_limits [OF this, of "sample_query (safe_governance_constraints sample_routed_request)"]
  have "gov_timeout_exceeded (sample_query (safe_governance_constraints sample_routed_request)) = Inr False"
    by (simp add: sample_query_def)
  moreover have "gov_timeout_exceeded (sample_query []) = Inr True" by code_simp
  ultimately show ?thesis ..
qed

text \<open>
  Two restrictions that have nothing in common lift each other. When none of the providers the
  request is confined to is one the prompt prefers, the merged list is empty, which the policy
  reads as no restriction: every enabled provider is eligible.
\<close>

theorem disjoint_preferences_unrestrict:
  assumes "dget g ''approved_providers'' = PList (map PStr approved)" and "approved \<noteq> []"
    and "dget (auth_preferences (Some a)) ''preferred_providers'' = PList (map PStr preferred)" and "preferred \<noteq> []"
    and "set approved \<inter> set preferred = {}"
    and "merge_prompt_governance_constraints g a = Inr g'"
  shows "governance_eligible (resolution_input ctx q (PDict g')) = policy_enabled (resolution_input ctx q (PDict g'))"
proof -
  have "filter (\<lambda>i. list_ex (py_eq i) (map PStr preferred)) (map PStr approved) = []"
    using assms(5) by (auto simp: filter_empty_conv list_ex_iff)
  then have n: "narrowed (PList (map PStr approved)) (map PStr preferred) = Inr []"
    using assms(2) by (simp add: narrowed_def items_of_def py_or_def items_in_def hashable_def list_all_iff)
  have "items_of (PList (map PStr preferred)) = Inr (map PStr preferred)" using assms(4) by (simp add: items_of_def py_or_def)
  then obtain m1 m2 m3 m4 where "merge_preferred_providers (map PStr preferred) g = Inr m1"
    and keep: "dget g' ''approved_providers'' = dget m1 ''approved_providers''"
    using assms(6) merge_keeps_providers unfolding merge_prompt_governance_constraints_def Let_def assms(3)
    by (auto simp: ebind_Inr_conv)
  then have "dget g' ''approved_providers'' = PList []"
    using assms(4) by (auto simp: merge_preferred_providers_def assms(1) n)
  then have "policy_approved (resolution_input ctx q (PDict g')) = []"
    by (simp add: policy_approved_def policy_governance_def resolution_input_def lower_string_list_def norm_string_list_def)
  then show ?thesis by (simp add: governance_eligible_def Let_def)
qed

definition sample_preferring :: ExecutionAuthorizationResult where
  "sample_preferring =
     \<lparr>ea_allowed = True, ea_reason = ''authorized'', ea_prompt_id = ''p'', ea_task_family = ''task.chat'',
      ea_prompt_version = None, ea_prompt_state = None, ea_privacy_class = Some ''internal'',
      ea_provider_preferences = Some [(''preferred_providers'', PList [PStr ''anthropic''])],
      ea_prompt_constraints = Some [], ea_execution_policy = Some [], ea_prompt_definition = Some []\<rparr>"

theorem disjoint_preferences_unrestrict_witness:
  "\<exists>g'. merge_prompt_governance_constraints [(''approved_providers'', PList [PStr ''local''])] sample_preferring = Inr g' \<and>
     governance_eligible (resolution_input sample_context sample_request (PDict g')) = [''openai'', ''local'']"
proof -
  let ?g = "[(''approved_providers'', PList [PStr ''local''])]"
  have "case merge_prompt_governance_constraints ?g sample_preferring of
      Inr g' \<Rightarrow> policy_enabled (resolution_input sample_context sample_request (PDict g')) = [''openai'', ''local''] | Inl _ \<Rightarrow> False"
    by code_simp
  then obtain g' where g': "merge_prompt_governance_constraints ?g sample_preferring = Inr g'"
    "policy_enabled (resolution_input sample_context sample_request (PDict g')) = [''openai'', ''local'']"
    by (auto split: sum.splits)
  have f: "dget ?g ''approved_providers'' = PList (map PStr [''local''])"
    "dget (auth_preferences (Some sample_preferring)) ''preferred_providers'' = PList (map PStr [''anthropic''])" by code_simp+
  have "governance_eligible (resolution_input sample_context sample_request (PDict g')) =
      policy_enabled (resolution_input sample_context sample_request (PDict g'))"
    by (rule disjoint_preferences_unrestrict [OF f(1) _ f(2) _ _ g'(1)]) simp_all
  with g' show ?thesis by metis
qed

end
