(* ===== verification/Execution_Router.thy ===== *)
theory Execution_Router
  imports Provider_Metrics Task_Inputs
begin

text \<open>
  \<open>providers/execution_router.py\<close>: the call of a provider. The router asks the requested provider,
  then the default one, the fallback one and every other registered one, each as often as the
  retries allow, and gives back the first answer. The providers and their health are those of
  \<open>providers/provider_registry.py\<close>. What an adapter answers is a parameter: for a provider and the
  number of the attempt the response, or the class of the exception and its text. The calls that
  were made are kept as a list.
\<close>

section \<open>The registry\<close>

record provider_registry =
  rg_providers :: "string list"
  rg_health :: "(string \<times> pydict) list"

definition register_provider :: "string \<Rightarrow> provider_registry \<Rightarrow> provider_registry result" where
  "register_provider provider_id g =
     (let k = py_strip provider_id
      in if k = [] then Inl (ValueError ''provider_id is required'')
         else Inr (g\<lparr>rg_providers := (if k \<in> set (rg_providers g) then rg_providers g else rg_providers g @ [k])\<rparr>))"

definition list_providers :: "provider_registry \<Rightarrow> string list" where
  "list_providers g = sort (rg_providers g)"

definition has_provider :: "provider_registry \<Rightarrow> string \<Rightarrow> bool" where
  "has_provider g provider_id = (py_strip provider_id \<in> set (rg_providers g))"

definition set_provider_health :: "string \<Rightarrow> pyval \<Rightarrow> provider_registry \<Rightarrow> provider_registry" where
  "set_provider_health provider_id payload g =
     g\<lparr>rg_health := AList.update (py_strip provider_id) (as_dict payload) (rg_health g)\<rparr>"

definition get_provider_health :: "provider_registry \<Rightarrow> string \<Rightarrow> pydict option" where
  "get_provider_health g provider_id = map_of (rg_health g) (py_strip provider_id)"

section \<open>The router\<close>

record UnifiedExecutionUsage =
  uu_prompt_tokens :: int
  uu_cached_input_tokens :: int
  uu_completion_tokens :: int
  uu_total_tokens :: int

record UnifiedExecutionResponse =
  ux_provider_id :: string
  ux_model_id :: string
  ux_output_text :: string
  ux_finish_reason :: "string option"
  ux_usage :: UnifiedExecutionUsage
  ux_latency_ms :: rat
  ux_estimated_cost :: "rat option"

type_synonym adapter_calls = "string \<Rightarrow> nat \<Rightarrow> (string \<times> string) + UnifiedExecutionResponse"

text \<open>The registry when the call begins, and as it is when the loop gets to a provider.\<close>

record router_env =
  rt_default_provider :: "string option"
  rt_fallback_provider :: "string option"
  rt_retry_count :: int
  rt_registry :: provider_registry
  rt_registry_at :: "string \<Rightarrow> provider_registry"
  rt_float_repr :: "rat \<Rightarrow> string"

record router_state =
  rt_metrics :: metrics_state
  rt_calls :: "string list"
  rt_first_error :: "string option"

definition with_provider :: "string option \<Rightarrow> string list \<Rightarrow> string list" where
  "with_provider p order = (case p of Some (c # cs) \<Rightarrow> if c # cs \<in> set order then order else order @ [c # cs] | _ \<Rightarrow> order)"

definition router_order :: "router_env \<Rightarrow> UnifiedExecutionRequest \<Rightarrow> string list" where
  "router_order E u =
     (let requested = norm_string (opt_str (ue_requested_provider u))
      in dedup_onto
           (with_provider (rt_fallback_provider E) (with_provider (rt_default_provider E) (if requested = [] then [] else [requested])))
           (list_providers (rt_registry E)))"

definition usable :: "router_env \<Rightarrow> string \<Rightarrow> bool" where
  "usable E p =
     (has_provider (rt_registry_at E p) p \<and>
      str_or (dget (case get_provider_health (rt_registry_at E p) p of None \<Rightarrow> [] | Some h \<Rightarrow> h) ''availability'') ''unavailable''
        \<in> {''available'', ''degraded''})"

definition router_model :: "UnifiedExecutionRequest \<Rightarrow> string" where
  "router_model u =
     (let m = py_strip (str_or (opt_str (ue_requested_model u)) ''unknown'') in if m = [] then ''unknown'' else m)"

definition counted_response :: "UnifiedExecutionResponse \<Rightarrow> metrics_state \<Rightarrow> metrics_state" where
  "counted_response r =
     record_success (ux_provider_id r) (ux_model_id r) (ux_latency_ms r) (uu_prompt_tokens (ux_usage r))
       (uu_cached_input_tokens (ux_usage r)) (uu_completion_tokens (ux_usage r)) (ux_estimated_cost r)"

text \<open>The attempts at one provider: attempt \<open>k\<close> with some left, until one answers.\<close>

fun try_provider ::
    "(rat \<Rightarrow> string) \<Rightarrow> (nat \<Rightarrow> (string \<times> string) + UnifiedExecutionResponse) \<Rightarrow> string \<Rightarrow> string \<Rightarrow> nat \<Rightarrow> nat
      \<Rightarrow> router_state \<Rightarrow> router_state \<times> UnifiedExecutionResponse option result" where
  "try_provider fr call p model k 0 st = (st, Inr None)"
| "try_provider fr call p model k (Suc left) st =
     (case call k of
        Inr r \<Rightarrow> (st\<lparr>rt_calls := rt_calls st @ [p], rt_metrics := counted_response r (rt_metrics st)\<rparr>, Inr (Some r))
      | Inl (error_class, message) \<Rightarrow>
          (case record_failure fr p model error_class (rt_metrics st) of
             (M, Inl e) \<Rightarrow> (st\<lparr>rt_calls := rt_calls st @ [p], rt_metrics := M\<rparr>, Inl e)
           | (M, Inr _) \<Rightarrow>
               try_provider fr call p model (Suc k) left
                 (st\<lparr>rt_calls := rt_calls st @ [p], rt_metrics := M,
                     rt_first_error := (case rt_first_error st of None \<Rightarrow> Some message | Some e \<Rightarrow> Some e)\<rparr>)))"

fun try_order ::
    "router_env \<Rightarrow> adapter_calls \<Rightarrow> string \<Rightarrow> string list \<Rightarrow> router_state \<Rightarrow> router_state \<times> UnifiedExecutionResponse result" where
  "try_order E call model [] st =
     (st, Inl (RuntimeError (case rt_first_error st of Some e \<Rightarrow> e | None \<Rightarrow> ''provider_execution_failed'')))"
| "try_order E call model (p # ps) st =
     (if \<not> usable E p then try_order E call model ps st
      else (case try_provider (rt_float_repr E) (call p) p model 0 (nat (max (rt_retry_count E) 0) + 1) st of
              (st', Inl e) \<Rightarrow> (st', Inl e)
            | (st', Inr (Some r)) \<Rightarrow> (st', Inr r)
            | (st', Inr None) \<Rightarrow> try_order E call model ps st'))"

definition router_execute ::
    "router_env \<Rightarrow> adapter_calls \<Rightarrow> UnifiedExecutionRequest \<Rightarrow> metrics_state \<Rightarrow> router_state \<times> UnifiedExecutionResponse result"
  where
  "router_execute E call u M =
     (let order = router_order E u; st = \<lparr>rt_metrics = M, rt_calls = [], rt_first_error = None\<rparr>
      in if order = [] then (st, Inl (RuntimeError ''no_provider_configured''))
         else try_order E call (router_model u) order st)"

section \<open>The specification\<close>

text \<open>The attempts a provider gets, the first one it answers, and whether it answers one.\<close>

definition attempts :: "router_env \<Rightarrow> nat" where
  "attempts E = nat (max (rt_retry_count E) 0) + 1"

fun first_answer :: "(nat \<Rightarrow> (string \<times> string) + UnifiedExecutionResponse) \<Rightarrow> nat \<Rightarrow> nat \<Rightarrow> (nat \<times> UnifiedExecutionResponse) option" where
  "first_answer call k 0 = None"
| "first_answer call k (Suc left) =
     (case call k of Inr r \<Rightarrow> Some (k, r) | Inl _ \<Rightarrow> first_answer call (Suc k) left)"

text \<open>The first usable provider with an answer, and the calls up to it.\<close>

fun routed_answer :: "router_env \<Rightarrow> adapter_calls \<Rightarrow> string list \<Rightarrow> string list \<times> UnifiedExecutionResponse option" where
  "routed_answer E call [] = ([], None)"
| "routed_answer E call (p # ps) =
     (if \<not> usable E p then routed_answer E call ps
      else (case first_answer (call p) 0 (attempts E) of
              Some (k, r) \<Rightarrow> (replicate (Suc k) p, Some r)
            | None \<Rightarrow> (case routed_answer E call ps of (calls, res) \<Rightarrow> (replicate (attempts E) p @ calls, res))))"

section \<open>Lemmas\<close>

lemma try_provider_exact:
  assumes "metrics_inv (rt_metrics st)"
  shows "\<exists>st'. try_provider fr call p model k n st = (st', Inr (map_option snd (first_answer call k n))) \<and>
    metrics_inv (rt_metrics st') \<and>
    rt_calls st' = rt_calls st @ replicate (case first_answer call k n of Some (j, r) \<Rightarrow> Suc j - k | None \<Rightarrow> n) p \<and>
    (case first_answer call k n of Some (j, r) \<Rightarrow> k \<le> j \<and> j < k + n | None \<Rightarrow> True)"
  using assms
proof (induction n arbitrary: k st)
  case (Suc n)
  show ?case
  proof (cases "call k")
    case (Inl f)
    obtain cls msg where f: "f = (cls, msg)" by (cases f)
    obtain M where M: "record_failure fr p model cls (rt_metrics st) = (M, Inr ())" "metrics_inv M"
      using record_failure_ok [OF Suc.prems] by blast
    let ?st = "st\<lparr>rt_calls := rt_calls st @ [p], rt_metrics := M,
                     rt_first_error := (case rt_first_error st of None \<Rightarrow> Some msg | Some e \<Rightarrow> Some e)\<rparr>"
    have "metrics_inv (rt_metrics ?st)" using M by simp
    from Suc.IH [OF this, of "Suc k"] obtain st' where
      st': "try_provider fr call p model (Suc k) n ?st = (st', Inr (map_option snd (first_answer call (Suc k) n)))"
        "metrics_inv (rt_metrics st')"
        "rt_calls st' = rt_calls ?st @ replicate (case first_answer call (Suc k) n of Some (j, r) \<Rightarrow> Suc j - Suc k | None \<Rightarrow> n) p"
        "case first_answer call (Suc k) n of Some (j, r) \<Rightarrow> Suc k \<le> j \<and> j < Suc k + n | None \<Rightarrow> True" by blast
    have e: "try_provider fr call p model k (Suc n) st = try_provider fr call p model (Suc k) n ?st"
      "first_answer call k (Suc n) = first_answer call (Suc k) n" by (simp_all add: Inl f M)
    show ?thesis
    proof (cases "first_answer call (Suc k) n")
      case None
      then show ?thesis using st' by (intro exI [of _ st']) (simp add: e del: try_provider.simps first_answer.simps)
    next
      case (Some jr)
      obtain j r where jr: "jr = (j, r)" by (cases jr)
      have j: "Suc k \<le> j" "j < Suc k + n" using st'(4) by (simp_all add: Some jr)
      then have "p # replicate (Suc j - Suc k) p = replicate (Suc j - k) p"
        by (metis Suc_diff_le diff_Suc_Suc le_SucI less_or_eq_imp_le replicate_Suc Suc_le_eq)
      then show ?thesis using st'(1,2,3) j
        by (intro exI [of _ st']) (simp add: e Some jr del: try_provider.simps first_answer.simps)
    qed
  next
    case (Inr r)
    have "metrics_inv (counted_response r (rt_metrics st))"
      unfolding counted_response_def record_success_def
      by (intro set_model_state_inv counted_success_ok ensured_ok Suc.prems)
    then show ?thesis by (simp add: Inr)
  qed
qed simp


lemma first_answer_bounds: "first_answer call k n = Some (j, r) \<Longrightarrow> k \<le> j \<and> j < k + n \<and> call j = Inr r"
proof (induction n arbitrary: k)
  case (Suc n)
  show ?case
  proof (cases "call k")
    case (Inl f)
    then show ?thesis using Suc.prems Suc.IH [of "Suc k"] by simp
  qed (use Suc.prems in simp)
qed simp

lemma try_order_exact:
  assumes "metrics_inv (rt_metrics st)"
  shows "\<exists>st' res. try_order E call model order st = (st', res) \<and> metrics_inv (rt_metrics st') \<and>
    rt_calls st' = rt_calls st @ fst (routed_answer E call order) \<and>
    (case snd (routed_answer E call order) of Some r \<Rightarrow> res = Inr r | None \<Rightarrow> \<exists>m. res = Inl (RuntimeError m))"
  using assms
proof (induction order arbitrary: st)
  case (Cons p ps)
  show ?case
  proof (cases "usable E p")
    case False
    then show ?thesis using Cons by simp
  next
    case True
    let ?f = "first_answer (call p) 0 (attempts E)"
    obtain st1 where st1: "try_provider (rt_float_repr E) (call p) p model 0 (attempts E) st = (st1, Inr (map_option snd ?f))"
      "metrics_inv (rt_metrics st1)"
      "rt_calls st1 = rt_calls st @ replicate (case ?f of Some (j, r) \<Rightarrow> Suc j | None \<Rightarrow> attempts E) p"
      using try_provider_exact [OF Cons.prems, of "rt_float_repr E" "call p" p model 0 "attempts E"]
      unfolding minus_nat.diff_0 by blast
    then have s: "try_order E call model (p # ps) st =
        (case map_option snd ?f of Some r \<Rightarrow> (st1, Inr r) | None \<Rightarrow> try_order E call model ps st1)"
      using True by (cases ?f) (auto simp: attempts_def)
    show ?thesis
    proof (cases ?f)
      case None
      obtain st' res where "try_order E call model ps st1 = (st', res)" "metrics_inv (rt_metrics st')"
        "rt_calls st' = rt_calls st1 @ fst (routed_answer E call ps)"
        "case snd (routed_answer E call ps) of Some r \<Rightarrow> res = Inr r | None \<Rightarrow> \<exists>m. res = Inl (RuntimeError m)"
        using Cons.IH [OF st1(2)] by blast
      then show ?thesis unfolding s using True None st1(3) by (cases "routed_answer E call ps") simp
    next
      case (Some jr)
      then show ?thesis unfolding s using True st1(2,3) by (cases jr) simp
    qed
  qed
qed auto

lemma router_exact:
  assumes "metrics_inv M"
  shows "\<exists>st res. router_execute E call u M = (st, res) \<and> metrics_inv (rt_metrics st) \<and>
    rt_calls st = fst (routed_answer E call (router_order E u)) \<and>
    (case snd (routed_answer E call (router_order E u)) of Some r \<Rightarrow> res = Inr r | None \<Rightarrow> \<exists>m. res = Inl (RuntimeError m))"
  using assms try_order_exact [of "\<lparr>rt_metrics = M, rt_calls = [], rt_first_error = None\<rparr>" E call "router_model u" "router_order E u"]
  by (simp add: router_execute_def Let_def)

lemma router_order_facts:
  "distinct (router_order E u)" "set (list_providers (rt_registry E)) \<subseteq> set (router_order E u)"
  "norm_string (opt_str (ue_requested_provider u)) \<noteq> [] \<Longrightarrow> hd (router_order E u) = norm_string (opt_str (ue_requested_provider u))"
proof -
  have d: "distinct l \<Longrightarrow> distinct (with_provider p l)" and h: "l \<noteq> [] \<Longrightarrow> with_provider p l \<noteq> [] \<and> hd (with_provider p l) = hd l"
    for p and l :: "string list" by (auto simp: with_provider_def split: option.split list.split)
  have dh: "l \<noteq> [] \<Longrightarrow> hd (dedup_onto l xs) = hd l" for l xs :: "string list"
    using dedup_onto_prefix [of l xs] by auto
  show "distinct (router_order E u)" unfolding router_order_def Let_def by (intro distinct_dedup_onto d) simp
  show "set (list_providers (rt_registry E)) \<subseteq> set (router_order E u)" by (simp add: router_order_def Let_def)
  show "norm_string (opt_str (ue_requested_provider u)) \<noteq> [] \<Longrightarrow> hd (router_order E u) = norm_string (opt_str (ue_requested_provider u))"
    by (simp add: router_order_def Let_def dh h)
qed

lemma routed_answer_calls:
  "set (fst (routed_answer E call ps)) \<subseteq> {p \<in> set ps. usable E p}"
  "distinct ps \<Longrightarrow> count_list (fst (routed_answer E call ps)) q \<le> attempts E"
  "length (fst (routed_answer E call ps)) \<le> attempts E * length ps"
proof -
  show s: "set (fst (routed_answer E call ps)) \<subseteq> {p \<in> set ps. usable E p}" for ps
    by (induction E call ps rule: routed_answer.induct) (auto split: option.splits prod.splits simp del: replicate_Suc)
  have f: "j < attempts E" if "first_answer (call p) 0 (attempts E) = Some (j, r)" for p j r
    using first_answer_bounds [OF that] by simp
  have c: "count_list (replicate n p) q = (if p = q then n else 0)" for n and p :: string by (induction n) auto
  show "distinct ps \<Longrightarrow> count_list (fst (routed_answer E call ps)) q \<le> attempts E"
  proof (induction ps)
    case (Cons p ps)
    have "p = q \<Longrightarrow> count_list (fst (routed_answer E call ps)) q = 0"
      using s [of ps] Cons.prems by (auto simp: count_list_0_iff)
    then show ?case using Cons f
      by (auto simp: c Suc_le_eq split: option.split prod.split simp del: replicate_Suc)
  qed simp
  show "length (fst (routed_answer E call ps)) \<le> attempts E * length ps"
  proof (induction ps)
    case (Cons p ps)
    have "j < attempts E + m" if "first_answer (call p) 0 (attempts E) = Some (j, r)" for p j r m
      using f [OF that] by simp
    with Cons show ?case by (auto simp: Suc_le_eq split: option.split prod.split simp del: replicate_Suc)
  qed simp
qed


lemma routed_answer_Some:
  "snd (routed_answer E call ps) = Some r \<Longrightarrow> \<exists>p\<in>set ps. usable E p \<and> p \<in> set (fst (routed_answer E call ps)) \<and> (\<exists>k<attempts E. call p k = Inr r)"
proof (induction ps)
  case (Cons p ps)
  show ?case
  proof (cases "usable E p \<and> first_answer (call p) 0 (attempts E) \<noteq> None")
    case True
    then obtain k where k: "first_answer (call p) 0 (attempts E) = Some (k, r)" using Cons.prems by auto
    then show ?thesis using True first_answer_bounds [OF k] by (intro bexI [of _ p]) auto
  next
    case False
    then have "routed_answer E call (p # ps) =
        (if usable E p then (replicate (attempts E) p @ fst (routed_answer E call ps), snd (routed_answer E call ps))
         else routed_answer E call ps)"
      by (cases "first_answer (call p) 0 (attempts E)") (auto split: prod.split)
    then show ?thesis using Cons by (cases "usable E p") (auto simp del: routed_answer.simps)
  qed
qed simp

lemma first_answer_None: "k \<le> j \<Longrightarrow> j < k + n \<Longrightarrow> call j = Inr r \<Longrightarrow> first_answer call k n \<noteq> None"
proof (induction n arbitrary: k)
  case (Suc n)
  show ?case
  proof (cases "call k")
    case (Inl f)
    then have "k \<noteq> j" using Suc.prems(3) by auto
    then show ?thesis using Inl Suc.prems Suc.IH [of "Suc k"] by simp
  qed simp
qed simp

lemma routed_answer_found:
  assumes "q \<in> set ps" and "usable E q" and "k < attempts E" and "call q k = Inr r"
  shows "snd (routed_answer E call ps) \<noteq> None"
  using assms(1)
proof (induction ps)
  case (Cons p ps)
  have "first_answer (call q) 0 (attempts E) \<noteq> None" using first_answer_None [of 0 k "attempts E" "call q" r] assms(3,4) by simp
  then show ?case using Cons assms(2) by (cases "routed_answer E call ps"; cases "p = q") (auto split: option.split)
qed simp

section \<open>Properties\<close>

text \<open>
  C10. The router does what it is specified to do: it answers with the first answer of the first usable
  provider, in its order, that answers within its attempts, has called exactly the providers up to
  there, as often as it had to, and raises if no provider answers; and the counters stay consistent.
\<close>

theorem router_refines_spec:
  assumes "metrics_inv M"
  shows "\<exists>st res. router_execute E call u M = (st, res) \<and> metrics_inv (rt_metrics st) \<and>
    rt_calls st = fst (routed_answer E call (router_order E u)) \<and>
    (case snd (routed_answer E call (router_order E u)) of Some r \<Rightarrow> res = Inr r | None \<Rightarrow> \<exists>m. res = Inl (RuntimeError m))"
proof -
  let ?st = "\<lparr>rt_metrics = M, rt_calls = [], rt_first_error = None\<rparr>"
  show ?thesis
    using assms try_order_exact [of ?st E call "router_model u" "router_order E u"] by (simp add: router_execute_def Let_def)
qed

definition sample_health :: "string \<Rightarrow> string \<times> pydict" where
  "sample_health p = (p, [(''availability'', PStr ''available'')])"

definition sample_router :: router_env where
  "sample_router =
     (let g = \<lparr>rg_providers = [''local'', ''openai''], rg_health = map sample_health [''local'', ''openai'']\<rparr>
      in \<lparr>rt_default_provider = Some ''local'', rt_fallback_provider = None, rt_retry_count = 1, rt_registry = g,
          rt_registry_at = (\<lambda>_. g), rt_float_repr = (\<lambda>_. [])\<rparr>)"

definition sample_answer :: "string \<Rightarrow> UnifiedExecutionResponse" where
  "sample_answer p =
     \<lparr>ux_provider_id = p, ux_model_id = ''m'', ux_output_text = ''done'', ux_finish_reason = Some ''stop'',
      ux_usage = \<lparr>uu_prompt_tokens = 3, uu_cached_input_tokens = 0, uu_completion_tokens = 4, uu_total_tokens = 7\<rparr>,
      ux_latency_ms = 12, ux_estimated_cost = Some (1 / 100)\<rparr>"

definition sample_calls :: adapter_calls where
  "sample_calls p k = (if p = ''local'' then Inl (''TimeoutError'', ''timed out'') else Inr (sample_answer p))"

definition sample_unified :: UnifiedExecutionRequest where
  "sample_unified =
     \<lparr>ue_task_family = ''task.chat'', ue_prompt = Some ''hi'', ue_system_prompt = None, ue_messages = [],
      ue_requested_provider = Some ''local'', ue_requested_model = Some ''m'', ue_temperature = None,
      ue_max_tokens = None, ue_metadata = []\<rparr>"

theorem router_refines_spec_witness:
  "\<exists>st. router_execute sample_router sample_calls sample_unified [] = (st, Inr (sample_answer ''openai'')) \<and>
     rt_calls st = [''local'', ''local'', ''openai'']"
proof -
  have "routed_answer sample_router sample_calls (router_order sample_router sample_unified) =
      ([''local'', ''local'', ''openai''], Some (sample_answer ''openai''))"
    by code_simp
  then show ?thesis
    using router_refines_spec [of "[]" sample_router sample_calls sample_unified] by (auto simp: metrics_inv_def)
qed

text \<open>
  The work of a call is bounded: only usable providers are called, each at most once more than the
  retries, so the calls are at most that number for every provider of the order; and the requested
  provider goes first.
\<close>

theorem router_calls_bounded:
  assumes "metrics_inv M" and "router_execute E call u M = (st, res)"
  shows "set (rt_calls st) \<subseteq> {p \<in> set (router_order E u). usable E p} \<and>
    (\<forall>q. count_list (rt_calls st) q \<le> nat (max (rt_retry_count E) 0) + 1) \<and>
    length (rt_calls st) \<le> (nat (max (rt_retry_count E) 0) + 1) * length (router_order E u) \<and>
    (norm_string (opt_str (ue_requested_provider u)) \<noteq> [] \<longrightarrow>
      hd (router_order E u) = norm_string (opt_str (ue_requested_provider u)))"
proof -
  have c: "rt_calls st = fst (routed_answer E call (router_order E u))"
    using router_exact [OF assms(1), of E call u] assms(2) by auto
  show ?thesis
    unfolding c attempts_def [symmetric]
    using routed_answer_calls [where ps = "router_order E u" and E = E and call = call] router_order_facts(1,3) [where E = E and u = u]
    by blast
qed

theorem router_calls_bounded_witness:
  "length (rt_calls (fst (router_execute sample_router sample_calls sample_unified []))) \<le> 4"
proof -
  let ?x = "router_execute sample_router sample_calls sample_unified []"
  have "length (router_order sample_router sample_unified) = 2" "rt_retry_count sample_router = 1" by code_simp+
  moreover have "metrics_inv []" by (simp add: metrics_inv_def)
  ultimately show ?thesis
    using router_calls_bounded [of "[]" sample_router sample_calls sample_unified "fst ?x" "snd ?x"] by simp
qed

end
