(* ===== verification/Task_Execution.thy ===== *)
theory Task_Execution
  imports Execution_Constraints Execution_Router Task_Lifecycle Prompt_Invariants
begin

text \<open>
  \<open>TaskExecutionService.execute\<close> of \<open>runtime/task_execution_service.py\<close>, which composes the
  components of the node. The coroutine is cut at its awaits: each section of code between two
  awaits is a function of the state the components share, and what the suspended coroutine
  remembers is its \<open>phase\<close>. Other executions, cancellations and the answer of the provider come
  between the sections.

  Events for telemetry and the statistics of client usage are left out (their exceptions are
  swallowed by the code); an event that is awaited is still a point where the coroutine waits. A
  section reads the clock once.
\<close>

section \<open>Environment, state, phase\<close>

text \<open>What a section reads of its surroundings: the answers of the providers of capabilities and
  governance, the configuration of the AI providers, the clock, the budget manager's surroundings
  (\<open>None\<close> when the node has none), the text of an exception that the interpreter raises.\<close>

record exec_env =
  xe_now_iso :: string
  xe_elapsed_ms :: rat
  xe_declared_task_families :: pyval
  xe_accepted_capability_profile :: pyval
  xe_governance_bundle :: pyval
  xe_governance_status :: pyval
  xe_selection_context :: selection_context
  xe_budget :: "budget_env option"
  xe_json_loads :: "string \<Rightarrow> pyval option"
  xe_exn_text :: "exn \<Rightarrow> string"
  xe_float_repr :: "rat \<Rightarrow> string"

record exec_state =
  es_tracker :: ExecutionLifecycleTracker
  es_budget :: budget_state
  es_registry :: prompt_registry
  es_metrics :: metrics_state

record exec_plan =
  pl_request :: TaskExecutionRequest
  pl_authorization :: "ExecutionAuthorizationResult option"
  pl_constraints :: pydict
  pl_timeout_s :: int
  pl_resolution :: ProviderResolutionResult

datatype phase =
    Received TaskExecutionRequest
  | Selected exec_plan
  | Denied exec_plan string
  | Budgeted exec_plan
  | Started exec_plan bool
  | Dispatched exec_plan bool UnifiedExecutionRequest
  | Answered exec_plan bool UnifiedExecutionResponse string
  | Settled exec_plan TaskExecutionResult
  | Returned TaskExecutionResult
  | Raised exn

section \<open>Helpers\<close>

definition py_rstrip :: "string \<Rightarrow> string" where
  "py_rstrip s = rev (py_lstrip (rev s))"

definition safe_error_message :: "string \<Rightarrow> string" where
  "safe_error_message value =
     (let txt = (if py_strip value = [] then ''internal_execution_error'' else py_strip value)
      in if length txt \<le> 4000 then txt else py_rstrip (take 3997 txt) @ ''...'')"

definition exn_message :: "exec_env \<Rightarrow> exn \<Rightarrow> string" where
  "exn_message X e = (case e of ValueError s \<Rightarrow> s | RuntimeError s \<Rightarrow> s | _ \<Rightarrow> xe_exn_text X e)"

definition completed_output :: "exec_env \<Rightarrow> TaskExecutionRequest \<Rightarrow> UnifiedExecutionResponse \<Rightarrow> pydict" where
  "completed_output X r response =
     (let txt = ux_output_text response
      in if py_lower (norm_string (PStr (tr_task_family r))) = ''task.structured_extraction''
         then (case xe_json_loads X txt of Some (PDict parsed) \<Rightarrow> parsed | _ \<Rightarrow> [(''text'', PStr txt)])
         else [(''text'', PStr txt)])"

definition lifecycle_context_details :: "TaskExecutionRequest \<Rightarrow> pydict \<Rightarrow> pydict" where
  "lifecycle_context_details r extras =
     filter (\<lambda>(k, v). v \<noteq> PNone \<and> v \<noteq> PStr '''')
       (dict_update extras
         [(''requested_by'', PStr (tr_requested_by r)), (''service_id'', opt_str (tr_service_id r)),
          (''customer_id'', opt_str (tr_customer_id r)), (''prompt_id'', opt_str (tr_prompt_id r)),
          (''prompt_version'', opt_str (tr_prompt_version r)), (''trace_id'', PStr (tr_trace_id r))])"

definition track ::
    "exec_env \<Rightarrow> TaskExecutionRequest \<Rightarrow> string \<Rightarrow> string option \<Rightarrow> string option \<Rightarrow> pyval \<Rightarrow> exec_state \<Rightarrow> exec_state result"
  where
  "track X r state provider_id model_id details st =
     (case tracker_update (es_tracker st) (xe_now_iso X) (PStr (tr_task_id r)) (PStr state) (opt_str (tr_lease_id r))
             (opt_str provider_id) (opt_str model_id) details of
        Inl e \<Rightarrow> Inl e
      | Inr (tracker, _) \<Rightarrow> Inr (st\<lparr>es_tracker := tracker\<rparr>))"

text \<open>The counters of a model in the snapshot of the metrics.\<close>

definition provider_metric_context :: "metrics_state \<Rightarrow> string option \<Rightarrow> string option \<Rightarrow> model_metric_state option" where
  "provider_metric_context M provider_id model_id =
     (case (provider_id, model_id) of
        (Some (c # cs), Some (d # ds)) \<Rightarrow> map_of (models_of M (c # cs)) (d # ds)
      | _ \<Rightarrow> None)"

definition with_metric_context :: "model_metric_state option \<Rightarrow> TaskExecutionMetrics \<Rightarrow> TaskExecutionMetrics" where
  "with_metric_context c m =
     (case c of
        None \<Rightarrow> m
      | Some s \<Rightarrow>
          m\<lparr>tm_provider_avg_latency_ms := avg_latency (ms_latency_samples_ms s),
            tm_provider_p95_latency_ms := p95_latency (ms_latency_samples_ms s),
            tm_provider_success_rate := Some (ratio4 (ms_successful_requests s) (ms_total_requests s)),
            tm_provider_total_requests := ms_total_requests s,
            tm_provider_failed_requests := ms_failed_requests s\<rparr>)"

definition base_metrics :: "rat \<Rightarrow> int \<Rightarrow> bool \<Rightarrow> TaskExecutionMetrics" where
  "base_metrics duration retries fallback_used =
     \<lparr>tm_execution_duration_ms = Some (round_to 3 duration), tm_provider_latency_ms = None,
      tm_provider_avg_latency_ms = None, tm_provider_p95_latency_ms = None, tm_provider_success_rate = None,
      tm_provider_total_requests = 0, tm_provider_failed_requests = 0, tm_retries = retries,
      tm_fallback_used = fallback_used, tm_prompt_tokens = 0, tm_cached_input_tokens = 0, tm_completion_tokens = 0,
      tm_total_tokens = 0, tm_estimated_cost = None\<rparr>"

text \<open>The records of the prompt registry; an exception is swallowed and leaves the registry as it is then.\<close>

definition record_prompt_authorization :: "exec_env \<Rightarrow> TaskExecutionRequest \<Rightarrow> bool \<Rightarrow> string \<Rightarrow> exec_state \<Rightarrow> exec_state" where
  "record_prompt_authorization X r allowed reason st =
     (if truthy (opt_str (tr_prompt_id r))
      then st\<lparr>es_registry := fst (record_authorization (xe_now_iso X) (opt_str (tr_prompt_id r)) allowed (PStr reason)
             (PStr (xe_now_iso X)) (es_registry st))\<rparr>
      else st)"

definition record_prompt_execution :: "exec_env \<Rightarrow> TaskExecutionRequest \<Rightarrow> string \<Rightarrow> string option \<Rightarrow> exec_state \<Rightarrow> exec_state" where
  "record_prompt_execution X r status error_code st =
     (if truthy (opt_str (tr_prompt_id r))
      then st\<lparr>es_registry := fst (record_execution (xe_now_iso X) (opt_str (tr_prompt_id r)) (PStr status)
             (PStr (xe_now_iso X)) (opt_str error_code) (es_registry st))\<rparr>
      else st)"

text \<open>The result of an execution that ends without success. The tracker is told first; a result that
  fails its validation raises, after that and before the prompt registry is told.\<close>

definition terminal_result ::
    "exec_env \<Rightarrow> TaskExecutionRequest \<Rightarrow> string \<Rightarrow> string \<Rightarrow> string \<Rightarrow> string option \<Rightarrow> string option \<Rightarrow> int \<Rightarrow> bool
      \<Rightarrow> pydict option \<Rightarrow> exec_state \<Rightarrow> exec_state \<times> phase" where
  "terminal_result X r state error_code error_message provider_id model_id retries fallback_used metadata st =
     (case track X r (if state = ''unsupported'' then ''rejected'' else state) provider_id model_id
             (PDict (lifecycle_context_details r
               [(''error_code'', PStr error_code), (''retries'', PInt (max retries 0)), (''fallback_used'', PBool fallback_used)])) st of
        Inl e \<Rightarrow> (st, Raised e)
      | Inr st1 \<Rightarrow>
          (case validate_result
              \<lparr>rs_task_id = tr_task_id r, rs_status = state,
               rs_output = (if state = ''degraded'' then Some [(''error'', PStr (safe_error_message error_message))] else None),
               rs_metrics = with_metric_context (provider_metric_context (es_metrics st1) provider_id model_id)
                  (base_metrics (xe_elapsed_ms X) (max retries 0) fallback_used),
               rs_error_code = Some error_code, rs_error_message = Some (safe_error_message error_message),
               rs_provider_used = provider_id, rs_model_used = model_id, rs_resolution_metadata = metadata,
               rs_completed_at = Some (xe_now_iso X)\<rparr> of
             Inl _ \<Rightarrow> (st1, Raised (ValueError ''validation_error''))
           | Inr res \<Rightarrow> (record_prompt_execution X r state (Some error_code) st1, Returned res)))"

text \<open>The same for a request that has a resolution.\<close>

definition terminal_plan ::
    "exec_env \<Rightarrow> exec_plan \<Rightarrow> string \<Rightarrow> string \<Rightarrow> string \<Rightarrow> exec_state \<Rightarrow> exec_state \<times> phase" where
  "terminal_plan X plan state error_code failure_reason st =
     (let r = pl_request plan; p = pl_resolution plan
      in terminal_result X r state error_code failure_reason (prr_provider_id p) (prr_model_id p) (prr_retry_count p)
           (resolution_used_fallback p)
           (Some (resolution_metadata r (pl_authorization plan) p (pl_constraints plan) (Some failure_reason))) st)"

section \<open>Admission\<close>

definition early_result ::
    "exec_env \<Rightarrow> TaskExecutionRequest \<Rightarrow> string \<Rightarrow> string \<Rightarrow> exec_state \<Rightarrow> exec_state \<times> phase" where
  "early_result X r state reason st = terminal_result X r state reason reason None None 0 False None st"

definition authorize_prompt_if_present ::
    "exec_env \<Rightarrow> TaskExecutionRequest \<Rightarrow> exec_state \<Rightarrow> ExecutionAuthorizationResult option result" where
  "authorize_prompt_if_present X r st =
     (if \<not> truthy (opt_str (tr_prompt_id r)) then Inr None
      else ebind (authorize (xe_now_iso X) (PDict (pr_state (es_registry st)))
             \<lparr>aq_prompt_id = opt_str (tr_prompt_id r), aq_task_family = PStr (tr_task_family r),
              aq_prompt_version = opt_str (tr_prompt_version r), aq_requested_by = PStr (tr_requested_by r),
              aq_service_id = opt_str (tr_service_id r), aq_customer_id = opt_str (tr_customer_id r),
              aq_requested_provider = opt_str (tr_requested_provider r),
              aq_requested_model = opt_str (tr_requested_model r), aq_inputs = PDict (tr_inputs r)\<rparr>) (\<lambda>a. Inr (Some a)))"

definition governance_check ::
    "exec_env \<Rightarrow> TaskExecutionRequest \<Rightarrow> int \<Rightarrow> pydict \<Rightarrow> string option \<Rightarrow> string option \<Rightarrow> ExecutionGovernanceDecision result"
  where
  "governance_check X r t constraints provider_id model_id =
     evaluate_execution_governance
       \<lparr>gq_task_family = PStr (tr_task_family r), gq_timeout_s = PInt t, gq_inputs = PDict (tr_inputs r),
        gq_governance_bundle = PDict (as_dict (xe_governance_bundle X)), gq_request_constraints = PDict constraints,
        gq_provider_id = opt_str provider_id, gq_model_id = opt_str model_id\<rparr>"

text \<open>The constraints and the timeout of a request, with what its prompt adds.\<close>

definition execution_constraints ::
    "TaskExecutionRequest \<Rightarrow> ExecutionAuthorizationResult option \<Rightarrow> (pydict \<times> int) result" where
  "execution_constraints r a =
     ebind (case a of None \<Rightarrow> Inr (safe_governance_constraints r)
                    | Some x \<Rightarrow> merge_prompt_governance_constraints (safe_governance_constraints r) x) (\<lambda>g.
     ebind (effective_timeout_s r a) (\<lambda>t. Inr (g, t)))"

definition resolve_plan ::
    "exec_env \<Rightarrow> TaskExecutionRequest \<Rightarrow> ExecutionAuthorizationResult option \<Rightarrow> pydict \<Rightarrow> int \<Rightarrow> ProviderResolutionResult result" where
  "resolve_plan X r a g t =
     ebind (request_max_cost_cents r) (\<lambda>c.
     resolve (xe_selection_context X)
       \<lparr>prq_task_family = PStr (tr_task_family r), prq_requested_provider = effective_requested_provider r a,
        prq_requested_model = effective_requested_model r a, prq_timeout_s = t, prq_max_cost_cents = c\<rparr> (PDict g))"

definition failure_state :: "string set \<Rightarrow> string \<Rightarrow> string \<Rightarrow> string" where
  "failure_state categories otherwise reason =
     (case classify_failure_code (PStr reason) of
        Some c \<Rightarrow> if c \<in> categories then ''degraded'' else otherwise
      | None \<Rightarrow> otherwise)"

text \<open>An admitted request up to the event that a provider is selected.\<close>

definition select_provider ::
    "exec_env \<Rightarrow> TaskExecutionRequest \<Rightarrow> ExecutionAuthorizationResult option \<Rightarrow> exec_state \<Rightarrow> exec_state \<times> phase" where
  "select_provider X r a st =
     (if py_lower (norm_string (dget (as_dict (xe_governance_status X)) ''state'')) = ''stale''
      then early_result X r ''degraded'' ''governance_stale'' st
      else
        (case execution_constraints r a of
           Inl e \<Rightarrow> (st, Raised e)
         | Inr (g, t) \<Rightarrow>
             (case governance_check X r t g None None of
                Inl e \<Rightarrow> (st, Raised e)
              | Inr d \<Rightarrow>
                  if \<not> gd_allowed d then early_result X r ''rejected'' (gd_reason d) st
                  else
                    (case resolve_plan X r a g t of
                       Inl e \<Rightarrow> (st, Raised e)
                     | Inr p \<Rightarrow>
                         let plan = \<lparr>pl_request = r, pl_authorization = a, pl_constraints = g, pl_timeout_s = t, pl_resolution = p\<rparr>;
                             reason = str_or (opt_str (prr_rejection_reason p)) ''provider_resolution_failed''
                         in if \<not> prr_allowed p
                            then terminal_plan X plan (failure_state {''provider_unavailable'', ''model_unavailable''} ''rejected'' reason)
                                   reason reason st
                            else (st, Selected plan)))))"

definition on_received :: "exec_env \<Rightarrow> TaskExecutionRequest \<Rightarrow> exec_state \<Rightarrow> exec_state \<times> phase" where
  "on_received X r st =
     (case ebind (track X r ''receiving_task'' None None PNone st) (track X r ''validating_task'' None None PNone) of
        Inl e \<Rightarrow> (st, Raised e)
      | Inr st1 \<Rightarrow>
          let family = validate_execution_task_family (PStr (tr_task_family r))
                (PList (as_list (xe_declared_task_families X))) (PDict (as_dict (xe_accepted_capability_profile X)))
          in if \<not> tf_allowed family
             then early_result X r (if tf_reason family \<noteq> ''unsupported_task_family'' then ''rejected'' else ''unsupported'')
                    (tf_reason family) st1
             else
               (case authorize_prompt_if_present X r st1 of
                  Inl e \<Rightarrow> (st1, Raised e)
                | Inr None \<Rightarrow> select_provider X r None st1
                | Inr (Some a) \<Rightarrow>
                    if \<not> ea_allowed a
                    then early_result X r ''rejected'' (ea_reason a) (record_prompt_authorization X r False (ea_reason a) st1)
                    else select_provider X (r\<lparr>tr_priority := effective_priority r (Some a)\<rparr>) (Some a)
                           (record_prompt_authorization X r True (ea_reason a) st1)))"

section \<open>Budget and dispatch\<close>

definition budget_request_of :: "TaskExecutionRequest \<Rightarrow> budget_request" where
  "budget_request_of r =
     \<lparr>br_service_id = opt_str (tr_service_id r), br_requested_by = PStr (tr_requested_by r),
      br_customer_id = opt_str (tr_customer_id r), br_requested_model = opt_str (tr_requested_model r),
      br_constraints = PDict (tr_constraints r), br_inputs = PDict (tr_inputs r)\<rparr>"

definition start_task :: "exec_env \<Rightarrow> exec_plan \<Rightarrow> bool \<Rightarrow> exec_state \<Rightarrow> exec_state \<times> phase" where
  "start_task X plan reserved st =
     (let r = pl_request plan; p = pl_resolution plan; details = PDict (lifecycle_context_details r [])
      in case ebind (track X r ''queued_local'' (prr_provider_id p) (prr_model_id p) details st)
               (track X r ''executing'' (prr_provider_id p) (prr_model_id p) details) of
           Inl e \<Rightarrow> (st, Raised e)
         | Inr st1 \<Rightarrow> (st1, Started plan reserved))"

text \<open>After the selection is announced: governance with the provider, and the reservation.\<close>

definition on_selected :: "exec_env \<Rightarrow> exec_plan \<Rightarrow> exec_state \<Rightarrow> exec_state \<times> phase" where
  "on_selected X plan st =
     (let r = pl_request plan; p = pl_resolution plan
      in case governance_check X r (pl_timeout_s plan) (pl_constraints plan) (prr_provider_id p) (prr_model_id p) of
           Inl e \<Rightarrow> (st, Raised e)
         | Inr d \<Rightarrow>
             if \<not> gd_allowed d then terminal_plan X plan ''rejected'' (gd_reason d) (gd_reason d) st
             else
               (case xe_budget X of
                  None \<Rightarrow> start_task X plan False st
                | Some B \<Rightarrow>
                    (case reserve_execution B (tr_task_id r) (budget_request_of r) (str_or (opt_str (prr_provider_id p)) [])
                            (str_or (opt_str (prr_model_id p)) []) (PDict (as_dict (xe_governance_bundle X))) (es_budget st) of
                       (b, _, Inl e) \<Rightarrow> (st\<lparr>es_budget := b\<rparr>, Raised e)
                     | (b, _, Inr res) \<Rightarrow>
                         if brr_allowed res then (st\<lparr>es_budget := b\<rparr>, Budgeted plan)
                         else (st\<lparr>es_budget := b\<rparr>, Denied plan (str_or (opt_str (brr_reason res)) ''missing_budget_grant'')))))"

definition on_denied :: "exec_env \<Rightarrow> exec_plan \<Rightarrow> string \<Rightarrow> exec_state \<Rightarrow> exec_state \<times> phase" where
  "on_denied X plan reason st = terminal_plan X plan ''rejected'' reason reason st"

text \<open>The reservation is let go when there is one, and the failure becomes the result.\<close>

definition on_failure :: "exec_env \<Rightarrow> exec_plan \<Rightarrow> bool \<Rightarrow> exn \<Rightarrow> exec_state \<Rightarrow> exec_state \<times> phase" where
  "on_failure X plan reserved e st =
     (let reason = safe_error_message (exn_message X e);
          value_error = (case e of ValueError _ \<Rightarrow> True | _ \<Rightarrow> False);
          state = (if value_error then failure_state {''provider_unavailable'', ''model_unavailable''} ''rejected'' reason
                   else failure_state {''provider_unavailable''} ''failed'' reason);
          code = (if value_error \<or> classify_failure_code (PStr reason) \<noteq> None then reason else ''internal_execution_error'')
      in case (if reserved then xe_budget X else None) of
           None \<Rightarrow> terminal_plan X plan state code reason st
         | Some B \<Rightarrow>
             (case release_execution B (tr_task_id (pl_request plan)) (es_budget st) of
                (b, _, Inl e') \<Rightarrow> (st\<lparr>es_budget := b\<rparr>, Raised e')
              | (b, _, Inr _) \<Rightarrow> terminal_plan X plan state code reason (st\<lparr>es_budget := b\<rparr>)))"

text \<open>The handler of the family makes the provider request and waits for its answer.\<close>

definition on_started :: "exec_env \<Rightarrow> exec_plan \<Rightarrow> bool \<Rightarrow> exec_state \<Rightarrow> exec_state \<times> phase" where
  "on_started X plan reserved st =
     (case routed_request (as_list (xe_declared_task_families X)) (pl_request plan) (pl_resolution plan) (pl_authorization plan) of
        Inl e \<Rightarrow> on_failure X plan reserved e st
      | Inr u \<Rightarrow> (st, Dispatched plan reserved u))"

section \<open>The answer\<close>

definition on_answer ::
    "exec_env \<Rightarrow> exec_plan \<Rightarrow> bool \<Rightarrow> UnifiedExecutionResponse result \<Rightarrow> exec_state \<Rightarrow> exec_state \<times> phase" where
  "on_answer X plan reserved answer st =
     (case answer of
        Inl e \<Rightarrow> on_failure X plan reserved e st
      | Inr response \<Rightarrow>
          (case track X (pl_request plan) ''completed'' (Some (ux_provider_id response)) (Some (ux_model_id response))
                  (PDict (lifecycle_context_details (pl_request plan)
                    [(''finish_reason'', opt_str (ux_finish_reason response)),
                     (''estimated_cost'', opt_float (xe_float_repr X) (ux_estimated_cost response)),
                     (''prompt_tokens'', PInt (uu_prompt_tokens (ux_usage response))),
                     (''cached_input_tokens'', PInt (uu_cached_input_tokens (ux_usage response))),
                     (''completion_tokens'', PInt (uu_completion_tokens (ux_usage response))),
                     (''total_tokens'', PInt (uu_total_tokens (ux_usage response)))])) st of
             Inl e \<Rightarrow> (st, Raised e)
           | Inr st1 \<Rightarrow> (st1, Answered plan reserved response (xe_now_iso X))))"

definition completed_metrics :: "exec_env \<Rightarrow> exec_plan \<Rightarrow> UnifiedExecutionResponse \<Rightarrow> metrics_state \<Rightarrow> TaskExecutionMetrics" where
  "completed_metrics X plan response M =
     with_metric_context (provider_metric_context M (Some (ux_provider_id response)) (Some (ux_model_id response)))
       ((base_metrics (xe_elapsed_ms X) (prr_retry_count (pl_resolution plan)) (resolution_used_fallback (pl_resolution plan)))
          \<lparr>tm_provider_latency_ms := Some (ux_latency_ms response),
           tm_prompt_tokens := uu_prompt_tokens (ux_usage response),
           tm_cached_input_tokens := uu_cached_input_tokens (ux_usage response),
           tm_completion_tokens := uu_completion_tokens (ux_usage response),
           tm_total_tokens := uu_total_tokens (ux_usage response),
           tm_estimated_cost := ux_estimated_cost response\<rparr>)"

definition completed_result ::
    "exec_env \<Rightarrow> exec_plan \<Rightarrow> UnifiedExecutionResponse \<Rightarrow> string \<Rightarrow> metrics_state \<Rightarrow> TaskExecutionResult" where
  "completed_result X plan response completed_at M =
     \<lparr>rs_task_id = tr_task_id (pl_request plan), rs_status = ''completed'',
      rs_output = Some (completed_output X (pl_request plan) response),
      rs_metrics = completed_metrics X plan response M, rs_error_code = None, rs_error_message = None,
      rs_provider_used = Some (ux_provider_id response), rs_model_used = Some (ux_model_id response),
      rs_resolution_metadata =
        Some (resolution_metadata (pl_request plan) (pl_authorization plan) (pl_resolution plan) (pl_constraints plan) None),
      rs_completed_at = Some completed_at\<rparr>"

definition on_settled :: "exec_env \<Rightarrow> exec_plan \<Rightarrow> TaskExecutionResult \<Rightarrow> exec_state \<Rightarrow> exec_state \<times> phase" where
  "on_settled X plan result st = (record_prompt_execution X (pl_request plan) ''completed'' None st, Returned result)"

definition on_answered ::
    "exec_env \<Rightarrow> exec_plan \<Rightarrow> bool \<Rightarrow> UnifiedExecutionResponse \<Rightarrow> string \<Rightarrow> exec_state \<Rightarrow> exec_state \<times> phase" where
  "on_answered X plan reserved response completed_at st =
     (case validate_result (completed_result X plan response completed_at (es_metrics st)) of
        Inl _ \<Rightarrow> (st, Raised (ValueError ''validation_error''))
      | Inr result \<Rightarrow>
          (case (if reserved then xe_budget X else None) of
             None \<Rightarrow> on_settled X plan result st
           | Some B \<Rightarrow>
               (case finalize_execution B (tr_task_id (pl_request plan))
                       (Some \<lparr>em_estimated_cost = tm_estimated_cost (rs_metrics result), em_total_tokens = tm_total_tokens (rs_metrics result)\<rparr>)
                       ''completed'' (es_budget st) of
                  (b, _, Inl e) \<Rightarrow> (st\<lparr>es_budget := b\<rparr>, Raised e)
                | (b, _, Inr _) \<Rightarrow> (st\<lparr>es_budget := b\<rparr>, Settled plan result))))"

section \<open>One execution among others\<close>

text \<open>A reservation under a key is held by some grant or by some provider.\<close>

definition holds_reservation :: "budget_state \<Rightarrow> string \<Rightarrow> bool" where
  "holds_reservation b rid =
     (list_ex (\<lambda>(k, u). map_of (gu_reservations u) rid \<noteq> None) (bs_grant_usage b) \<or>
      list_ex (\<lambda>(k, u). map_of (pu_reservations u) rid \<noteq> None) (bs_provider_budget_usage b))"

definition reserved_for :: "exec_state \<Rightarrow> string \<Rightarrow> bool" where
  "reserved_for st task_id = holds_reservation (es_budget st) (reservation_key task_id)"

definition task_active :: "exec_state \<Rightarrow> string \<Rightarrow> bool" where
  "task_active st task_id = (map_of (active_tasks (es_tracker st)) (py_strip task_id) \<noteq> None)"

text \<open>
  The steps of the execution of one task: its sections, the answer of the provider, which comes
  from the router, and what other executions do meanwhile, which may change everything but the
  reservation and the tracker entry of this task. A task that is cancelled stops where it waits:
  the code catches no cancellation.
\<close>

datatype waiting = Running phase | Cancelled phase

inductive exec_step :: "string \<Rightarrow> bool \<Rightarrow> waiting \<times> exec_state \<Rightarrow> waiting \<times> exec_state \<Rightarrow> bool" for task_id has_budget where
  received: "(xe_budget X \<noteq> None) = has_budget \<Longrightarrow> on_received X r st = (st', ph) \<Longrightarrow>
    exec_step task_id has_budget (Running (Received r), st) (Running ph, st')"
| selected: "(xe_budget X \<noteq> None) = has_budget \<Longrightarrow> on_selected X plan st = (st', ph) \<Longrightarrow>
    exec_step task_id has_budget (Running (Selected plan), st) (Running ph, st')"
| denied: "on_denied X plan reason st = (st', ph) \<Longrightarrow>
    exec_step task_id has_budget (Running (Denied plan reason), st) (Running ph, st')"
| budgeted: "start_task X plan True st = (st', ph) \<Longrightarrow>
    exec_step task_id has_budget (Running (Budgeted plan), st) (Running ph, st')"
| started: "(xe_budget X \<noteq> None) = has_budget \<Longrightarrow> on_started X plan reserved st = (st', ph) \<Longrightarrow>
    exec_step task_id has_budget (Running (Started plan reserved), st) (Running ph, st')"
| answer: "(xe_budget X \<noteq> None) = has_budget \<Longrightarrow> metrics_inv M \<Longrightarrow> router_execute R call u M = (rs, ans) \<Longrightarrow>
    on_answer X plan reserved ans st = (st', ph) \<Longrightarrow>
    exec_step task_id has_budget (Running (Dispatched plan reserved u), st) (Running ph, st')"
| answered: "(xe_budget X \<noteq> None) = has_budget \<Longrightarrow> on_answered X plan reserved response done_at st = (st', ph) \<Longrightarrow>
    exec_step task_id has_budget (Running (Answered plan reserved response done_at), st) (Running ph, st')"
| settled: "on_settled X plan result st = (st', ph) \<Longrightarrow>
    exec_step task_id has_budget (Running (Settled plan result), st) (Running ph, st')"
| cancel: "exec_step task_id has_budget (Running ph, st) (Cancelled ph, st)"
| interfere: "reserved_for st' task_id = reserved_for st task_id \<Longrightarrow> task_active st' task_id = task_active st task_id \<Longrightarrow>
    exec_step task_id has_budget (w, st) (w, st')"

definition exec_steps :: "string \<Rightarrow> bool \<Rightarrow> waiting \<times> exec_state \<Rightarrow> waiting \<times> exec_state \<Rightarrow> bool" where
  "exec_steps task_id has_budget = (exec_step task_id has_budget)\<^sup>*\<^sup>*"

section \<open>The invariant\<close>

text \<open>A plan is sound when it is resolved, its prompt is authorised, and a private prompt is resolved
  to the local provider.\<close>

definition plan_sound :: "exec_plan \<Rightarrow> bool" where
  "plan_sound plan =
     (prr_allowed (pl_resolution plan) \<and>
      (case pl_authorization plan of
         None \<Rightarrow> True
       | Some a \<Rightarrow> ea_allowed a \<and>
           (authorization_privacy_routing_mode a = None \<or> prr_provider_id (pl_resolution plan) = Some ''local'')))"

definition plan_governed :: "exec_plan \<Rightarrow> bool" where
  "plan_governed plan =
     (\<exists>X d. governance_check X (pl_request plan) (pl_timeout_s plan) (pl_constraints plan)
         (prr_provider_id (pl_resolution plan)) (prr_model_id (pl_resolution plan)) = Inr d \<and> gd_allowed d)"

definition dispatched_as :: "exec_plan \<Rightarrow> UnifiedExecutionRequest \<Rightarrow> bool" where
  "dispatched_as plan u =
     (ue_requested_provider u = prr_provider_id (pl_resolution plan) \<and> ue_requested_model u = prr_model_id (pl_resolution plan))"

fun phase_ok :: "string \<Rightarrow> bool \<Rightarrow> phase \<Rightarrow> exec_state \<Rightarrow> bool" where
  "phase_ok t hb (Received r) st = (tr_task_id r = t \<and> \<not> reserved_for st t)"
| "phase_ok t hb (Selected plan) st = (tr_task_id (pl_request plan) = t \<and> plan_sound plan \<and> \<not> reserved_for st t)"
| "phase_ok t hb (Denied plan reason) st = (tr_task_id (pl_request plan) = t \<and> plan_sound plan \<and> \<not> reserved_for st t)"
| "phase_ok t hb (Budgeted plan) st = (tr_task_id (pl_request plan) = t \<and> plan_sound plan \<and> plan_governed plan \<and> hb)"
| "phase_ok t hb (Started plan b) st =
     (tr_task_id (pl_request plan) = t \<and> plan_sound plan \<and> plan_governed plan \<and> b = hb \<and> (b \<or> \<not> reserved_for st t))"
| "phase_ok t hb (Dispatched plan b u) st =
     (tr_task_id (pl_request plan) = t \<and> plan_sound plan \<and> plan_governed plan \<and> b = hb \<and> (b \<or> \<not> reserved_for st t) \<and>
      dispatched_as plan u)"
| "phase_ok t hb (Answered plan b response done_at) st =
     (tr_task_id (pl_request plan) = t \<and> plan_sound plan \<and> plan_governed plan \<and> b = hb \<and> (b \<or> \<not> reserved_for st t) \<and>
      \<not> task_active st t)"
| "phase_ok t hb (Settled plan result) st =
     (tr_task_id (pl_request plan) = t \<and> \<not> reserved_for st t \<and> \<not> task_active st t)"
| "phase_ok t hb (Returned result) st = (\<not> reserved_for st t \<and> \<not> task_active st t)"
| "phase_ok t hb (Raised e) st = True"

lemma phase_ok_same:
  "reserved_for st' t = reserved_for st t \<Longrightarrow> task_active st' t = task_active st t \<Longrightarrow> phase_ok t hb ph st' = phase_ok t hb ph st"
  by (cases ph) simp_all

section \<open>Lemmas\<close>

lemma track_fields: "track X r s p m d st = Inr st' \<Longrightarrow> es_budget st' = es_budget st \<and> es_metrics st' = es_metrics st \<and> es_registry st' = es_registry st"
  by (auto simp: track_def split: sum.splits prod.splits)

lemma track_reserved: "track X r s p m d st = Inr st' \<Longrightarrow> reserved_for st' t = reserved_for st t"
  by (drule track_fields) (simp add: reserved_for_def)

lemma track_terminal:
  assumes "track X r s p m d st = Inr st'" and "s \<in> set TERMINAL_EXECUTION_LIFECYCLE_STATES" and "py_strip s = s"
  shows "\<not> task_active st' (tr_task_id r)"
proof -
  obtain rcd tr where u: "tracker_update (es_tracker st) (xe_now_iso X) (PStr (tr_task_id r)) (PStr s) (opt_str (tr_lease_id r))
      (opt_str p) (opt_str m) d = Inr (tr, rcd)" and st': "st' = st\<lparr>es_tracker := tr\<rparr>"
    using assms(1) by (auto simp: track_def split: sum.splits prod.splits)
  have "active_tasks tr = AList.delete (py_strip (tr_task_id r)) (active_tasks (es_tracker st))"
    using u assms(2,3) by (auto simp: tracker_update_cases split: option.splits if_splits)
  then show ?thesis by (simp add: task_active_def st' dict.get_del)
qed

lemma terminal_states:
  assumes "s \<in> {''rejected'', ''unsupported'', ''degraded'', ''failed''}"
  shows "(if s = ''unsupported'' then ''rejected'' else s) \<in> set TERMINAL_EXECUTION_LIFECYCLE_STATES"
    and "py_strip (if s = ''unsupported'' then ''rejected'' else s) = (if s = ''unsupported'' then ''rejected'' else s)"
proof -
  have t: "''rejected'' \<in> set TERMINAL_EXECUTION_LIFECYCLE_STATES" "''degraded'' \<in> set TERMINAL_EXECUTION_LIFECYCLE_STATES"
    "''failed'' \<in> set TERMINAL_EXECUTION_LIFECYCLE_STATES" by (simp_all add: TERMINAL_EXECUTION_LIFECYCLE_STATES_def)
  have p: "py_strip ''rejected'' = ''rejected''" "py_strip ''degraded'' = ''degraded''" "py_strip ''failed'' = ''failed''"
    by code_simp+
  show "(if s = ''unsupported'' then ''rejected'' else s) \<in> set TERMINAL_EXECUTION_LIFECYCLE_STATES"
    using assms t by (elim insertE emptyE) (simp_all only: if_True simp_thms, simp_all)
  show "py_strip (if s = ''unsupported'' then ''rejected'' else s) = (if s = ''unsupported'' then ''rejected'' else s)"
    using assms p by (elim insertE emptyE) (simp_all only: if_True simp_thms, simp_all)
qed

lemma record_prompt_fields [simp]:
  "es_budget (record_prompt_execution X r s c st) = es_budget st" "es_tracker (record_prompt_execution X r s c st) = es_tracker st"
  "es_budget (record_prompt_authorization X r b m st) = es_budget st" "es_tracker (record_prompt_authorization X r b m st) = es_tracker st"
  by (simp_all add: record_prompt_execution_def record_prompt_authorization_def)

lemma record_prompt_reserved [simp]:
  "reserved_for (record_prompt_execution X r s c st) t = reserved_for st t"
  "task_active (record_prompt_execution X r s c st) t = task_active st t"
  "reserved_for (record_prompt_authorization X r b m st) t = reserved_for st t"
  "task_active (record_prompt_authorization X r b m st) t = task_active st t"
  by (simp_all add: reserved_for_def task_active_def)

lemma terminal_ok:
  assumes "terminal_result X r s code msg p m n fb md st = (st', ph)" and "s \<in> {''rejected'', ''unsupported'', ''degraded'', ''failed''}"
    and "\<not> reserved_for st (tr_task_id r)"
  shows "phase_ok (tr_task_id r) hb ph st'"
proof -
  let ?s = "if s = ''unsupported'' then ''rejected'' else s"
  let ?d = "PDict (lifecycle_context_details r
       [(''error_code'', PStr code), (''retries'', PInt (max n 0)), (''fallback_used'', PBool fb)])"
  show ?thesis
  proof (cases "track X r ?s p m ?d st")
    case (Inl e)
    then show ?thesis using assms(1) unfolding terminal_result_def by (simp only: sum.case prod.inject) auto
  next
    case (Inr st1)
    have "\<not> task_active st1 (tr_task_id r)" by (rule track_terminal [OF Inr terminal_states [OF assms(2)]])
    moreover have "\<not> reserved_for st1 (tr_task_id r)" using track_reserved [OF Inr] assms(3) by simp
    moreover obtain v :: "string list + TaskExecutionResult" where "(st', ph) = (case v of Inl _ \<Rightarrow> (st1, Raised (ValueError ''validation_error''))
           | Inr res \<Rightarrow> (record_prompt_execution X r s (Some code) st1, Returned res))"
      using assms(1) unfolding terminal_result_def Inr sum.case by metis
    ultimately show ?thesis by (auto split: sum.splits)
  qed
qed

lemma failure_state_mem: "s \<in> {''rejected'', ''failed''} \<Longrightarrow> failure_state cs s reason \<in> {''rejected'', ''unsupported'', ''degraded'', ''failed''}"
  by (auto simp: failure_state_def split: option.split)

lemma terminal_plan_ok:
  assumes "terminal_plan X plan s code reason st = (st', ph)" and "s \<in> {''rejected'', ''unsupported'', ''degraded'', ''failed''}"
    and "\<not> reserved_for st (tr_task_id (pl_request plan))"
  shows "phase_ok (tr_task_id (pl_request plan)) hb ph st'"
  by (rule terminal_ok [OF assms(1) [unfolded terminal_plan_def Let_def] assms(2,3)])

text \<open>What governance lets through has no routing conflict, so a private prompt goes to the local provider.\<close>

lemma governance_no_conflict:
  "governance_check X r t g p m = Inr d \<Longrightarrow> gd_allowed d \<Longrightarrow> dget g ''routing_policy_constraints'' = PDict rt \<Longrightarrow>
     dget rt ''routing_policy_conflict'' \<noteq> PBool True"
  by (auto simp: governance_check_def evaluate_execution_governance_def gov_routing_policy_def gov_reject_def)

lemma private_plan_local:
  assumes "execution_constraints r (Some a) = Inr (g, t)" and "governance_check X r t g None None = Inr d" and "gd_allowed d"
    and "resolve_plan X r (Some a) g t = Inr p" and "prr_allowed p" and "authorization_privacy_routing_mode a \<noteq> None"
  shows "prr_provider_id p = Some ''local''"
proof -
  have "authorization_privacy_routing_mode a = Some ''local_only'' \<or> authorization_privacy_routing_mode a = None"
    unfolding authorization_privacy_routing_mode_def by (simp only: split: if_split) blast
  then have "authorization_privacy_routing_mode a = Some ''local_only''" using assms(6) by (simp only: simp_thms)
  moreover have "merge_prompt_governance_constraints (safe_governance_constraints r) a = Inr g"
    using assms(1) by (auto simp: execution_constraints_def ebind_Inr_conv)
  ultimately obtain rt where rt: "dget g ''routing_policy_constraints'' = PDict rt"
    "dget rt ''routing_policy_conflict'' = PBool True \<or> normalize_routing_policy_mode (dget rt ''mode'') = Some ''local_only''"
    using merged_private by blast
  then have "normalize_routing_policy_mode (dget rt ''mode'') = Some ''local_only''"
    using governance_no_conflict [OF assms(2,3) rt(1)] by blast
  moreover obtain q where "resolve (xe_selection_context X) q (PDict g) = Inr p"
    using assms(4) by (auto simp: resolve_plan_def ebind_Inr_conv)
  ultimately show ?thesis using resolved_local assms(5) rt(1) by simp
qed

lemma select_provider_ok:
  assumes "select_provider X r a st = (st', ph)" and "\<not> reserved_for st (tr_task_id r)" and "case a of None \<Rightarrow> True | Some x \<Rightarrow> ea_allowed x"
  shows "phase_ok (tr_task_id r) hb ph st'"
proof (cases "py_lower (norm_string (dget (as_dict (xe_governance_status X)) ''state'')) = ''stale''")
  case True
  have "early_result X r ''degraded'' ''governance_stale'' st = (st', ph)" using assms(1) True by (simp add: select_provider_def)
  then show ?thesis unfolding early_result_def by (rule terminal_ok) (simp_all add: assms(2))
next
  case stale: False
  show ?thesis
  proof (cases "execution_constraints r a")
    case (Inl e)
    then show ?thesis using assms(1) stale by (auto simp: select_provider_def)
  next
    case (Inr gt)
    obtain g t where gt: "execution_constraints r a = Inr (g, t)" using Inr by (cases gt) auto
    show ?thesis
    proof (cases "governance_check X r t g None None")
      case (Inl e)
      then show ?thesis using assms(1) stale gt by (auto simp: select_provider_def)
    next
      case d: (Inr d)
      show ?thesis
      proof (cases "gd_allowed d")
        case False
        then have "early_result X r ''rejected'' (gd_reason d) st = (st', ph)" using assms(1) stale gt d by (simp add: select_provider_def)
        then show ?thesis unfolding early_result_def by (rule terminal_ok) (simp_all add: assms(2))
      next
        case ok: True
        show ?thesis
        proof (cases "resolve_plan X r a g t")
          case (Inl e)
          then show ?thesis using assms(1) stale gt d ok by (auto simp: select_provider_def)
        next
          case p: (Inr p)
          let ?plan = "\<lparr>pl_request = r, pl_authorization = a, pl_constraints = g, pl_timeout_s = t, pl_resolution = p\<rparr>"
          let ?reason = "str_or (opt_str (prr_rejection_reason p)) ''provider_resolution_failed''"
          show ?thesis
          proof (cases "prr_allowed p")
            case False
            then have "terminal_plan X ?plan (failure_state {''provider_unavailable'', ''model_unavailable''} ''rejected'' ?reason)
                ?reason ?reason st = (st', ph)"
              using assms(1) stale gt d ok p by (simp add: select_provider_def Let_def)
            from terminal_plan_ok [OF this failure_state_mem] show ?thesis using assms(2) by simp
          next
            case True
            have "plan_sound ?plan"
            proof (cases a)
              case (Some x)
              have "authorization_privacy_routing_mode x \<noteq> None \<Longrightarrow> prr_provider_id p = Some ''local''"
                by (rule private_plan_local [OF gt [unfolded Some] d ok p [unfolded Some] True])
              then show ?thesis using assms(3) True by (cases "authorization_privacy_routing_mode x") (simp_all add: plan_sound_def Some)
            qed (simp add: plan_sound_def True)
            moreover have "st' = st \<and> ph = Selected ?plan"
              using assms(1) stale gt d ok p True by (simp add: select_provider_def Let_def)
            ultimately show ?thesis using assms(2) by simp
          qed
        qed
      qed
    qed
  qed
qed

lemma on_received_ok:
  assumes "on_received X r st = (st', ph)" and "\<not> reserved_for st (tr_task_id r)"
  shows "phase_ok (tr_task_id r) hb ph st'"
proof (cases "ebind (track X r ''receiving_task'' None None PNone st) (track X r ''validating_task'' None None PNone)")
  case (Inl e)
  then show ?thesis using assms(1) by (auto simp: on_received_def)
next
  case (Inr st1)
  then obtain st0 where "track X r ''receiving_task'' None None PNone st = Inr st0" "track X r ''validating_task'' None None PNone st0 = Inr st1"
    by (auto simp: ebind_Inr_conv)
  then have n: "\<not> reserved_for st1 (tr_task_id r)" using assms(2) track_reserved by blast
  let ?f = "validate_execution_task_family (PStr (tr_task_family r))
      (PList (as_list (xe_declared_task_families X))) (PDict (as_dict (xe_accepted_capability_profile X)))"
  show ?thesis
  proof (cases "tf_allowed ?f")
    case False
    let ?s = "if tf_reason ?f \<noteq> ''unsupported_task_family'' then ''rejected'' else ''unsupported''"
    have "terminal_result X r ?s (tf_reason ?f) (tf_reason ?f) None None 0 False None st1 = (st', ph)"
      using assms(1) False unfolding on_received_def Inr sum.case Let_def early_result_def by (simp only: simp_thms if_True)
    moreover have "?s \<in> {''rejected'', ''unsupported'', ''degraded'', ''failed''}" by (simp only: insert_iff simp_thms split: if_split)
    ultimately show ?thesis using n by (rule terminal_ok)
  next
    case True
    show ?thesis
    proof (cases "authorize_prompt_if_present X r st1")
      case (Inl e)
      then show ?thesis using assms(1) Inr True by (auto simp: on_received_def Let_def)
    next
      case a: (Inr a)
      show ?thesis
      proof (cases "case a of None \<Rightarrow> True | Some x \<Rightarrow> ea_allowed x")
        case False
        then obtain x where "a = Some x" "\<not> ea_allowed x" by (auto split: option.splits)
        then have "terminal_result X r ''rejected'' (ea_reason x) (ea_reason x) None None 0 False None
            (record_prompt_authorization X r False (ea_reason x) st1) = (st', ph)"
          using assms(1) Inr True a by (simp add: on_received_def Let_def early_result_def)
        then show ?thesis by (rule terminal_ok) (simp_all add: n)
      next
        case ok: True
        then obtain r' st2 where "select_provider X r' a st2 = (st', ph)" "tr_task_id r' = tr_task_id r"
          "\<not> reserved_for st2 (tr_task_id r)"
          using assms(1) Inr True a n by (cases a) (fastforce simp: on_received_def Let_def)+
        then show ?thesis using select_provider_ok [of X r' a st2 st' ph hb] ok by simp
      qed
    qed
  qed
qed

lemma start_task_ok:
  assumes "start_task X plan b st = (st', ph)" and "tr_task_id (pl_request plan) = t" and "plan_sound plan" and "plan_governed plan"
    and "b = hb" and "b \<or> \<not> reserved_for st t"
  shows "phase_ok t hb ph st'"
proof -
  have "reserved_for st2 t = reserved_for st t"
    if "track X r s p m d st = Inr st1" "track X r' s' p' m' d' st1 = Inr st2" for r s p m d r' s' p' m' d' st1 st2
    using track_reserved [OF that(1)] track_reserved [OF that(2)] by simp
  then show ?thesis
    using assms by (fastforce simp: start_task_def Let_def ebind_Inr_conv split: sum.splits)
qed

lemma same_ledgers_reserved: "same_ledgers b b' \<Longrightarrow> holds_reservation b' rid = holds_reservation b rid"
  by (simp add: same_ledgers_def holds_reservation_def)

lemma on_selected_ok:
  assumes "on_selected X plan st = (st', ph)" and "(xe_budget X \<noteq> None) = hb"
    and "tr_task_id (pl_request plan) = t" and "plan_sound plan" and "\<not> reserved_for st t"
  shows "phase_ok t hb ph st'"
proof -
  let ?p = "pl_resolution plan"
  let ?g = "governance_check X (pl_request plan) (pl_timeout_s plan) (pl_constraints plan) (prr_provider_id ?p) (prr_model_id ?p)"
  show ?thesis
  proof (cases ?g)
    case (Inl e)
    then show ?thesis using assms(1) by (auto simp: on_selected_def)
  next
    case d: (Inr d)
    show ?thesis
    proof (cases "gd_allowed d")
      case False
      then have "terminal_plan X plan ''rejected'' (gd_reason d) (gd_reason d) st = (st', ph)"
        using assms(1) d by (simp add: on_selected_def)
      from terminal_plan_ok [OF this] show ?thesis using assms(3,5) by simp
    next
      case True
      then have g: "plan_governed plan" using d by (auto simp: plan_governed_def)
      show ?thesis
      proof (cases "xe_budget X")
        case None
        then have "start_task X plan False st = (st', ph)" using assms(1) d True by (simp add: on_selected_def)
        then show ?thesis by (rule start_task_ok) (use assms g None in auto)
      next
        case (Some B)
        obtain b ns res where r: "reserve_execution B (tr_task_id (pl_request plan)) (budget_request_of (pl_request plan))
            (str_or (opt_str (prr_provider_id ?p)) []) (str_or (opt_str (prr_model_id ?p)) [])
            (PDict (as_dict (xe_governance_bundle X))) (es_budget st) = (b, ns, res)" using prod_cases3 by blast
        show ?thesis
        proof (cases "\<exists>x. res = Inr x \<and> brr_allowed x")
          case True
          then show ?thesis using assms Some d \<open>gd_allowed d\<close> r g by (auto simp: on_selected_def)
        next
          case False
          then have "\<not> reserved_for (st\<lparr>es_budget := b\<rparr>) t"
            using same_ledgers_reserved [OF refused_same_ledgers [OF r]] assms(5) by (simp add: reserved_for_def)
          then show ?thesis using False assms Some d \<open>gd_allowed d\<close> r by (cases res) (auto simp: on_selected_def)
        qed
      qed
    qed
  qed
qed

lemma release_gone:
  assumes "release_execution B t st = (st', ns, Inr r)"
  shows "\<not> holds_reservation st' (reservation_key t)"
proof -
  have g: "map_of (gu_reservations (grant_drop n rid u)) rid = None" "map_of (pu_reservations (provider_drop n rid v)) rid = None" for n rid u v
    by (auto simp: grant_drop_def provider_drop_def dict.get_del split: option.splits)
  show ?thesis
  proof (cases "holds_reservation st (reservation_key t)")
    case False
    then have "\<forall>(k, u)\<in>set (bs_grant_usage st). map_of (gu_reservations u) (reservation_key t) = None"
      "\<forall>(k, u)\<in>set (bs_provider_budget_usage st). map_of (pu_reservations u) (reservation_key t) = None"
      by (fastforce simp: holds_reservation_def list_ex_iff)+
    from settled_nothing_held(2) [OF this, of B] have "st' = st" using assms by simp
    then show ?thesis using False by simp
  next
    case True
    have f: "List.map_filter f xs = [] \<longleftrightarrow> (\<forall>x\<in>set xs. f x = None)" for f :: "'a \<Rightarrow> 'b option" and xs
      by (induction xs) (auto simp: List.map_filter_simps split: option.splits)
    have h: "map_option (Pair c) (released_of rid m) = None \<longleftrightarrow> map_of m rid = None" for c :: string and rid m
      by (simp add: released_of_def)
    have "bs_grant_usage st' = map (\<lambda>(k, u). (k, grant_drop (be_now_iso B) (reservation_key t) u)) (bs_grant_usage st) \<and>
        bs_provider_budget_usage st' = map (\<lambda>(k, u). (k, provider_drop (be_now_iso B) (reservation_key t) u)) (bs_provider_budget_usage st)"
    proof -
      let ?r = "List.map_filter (\<lambda>(k, u). map_option (Pair (gu_grant_id u)) (released_of (reservation_key t) (gu_reservations u))) (bs_grant_usage st)"
      let ?p = "List.map_filter (\<lambda>(k, u). map_option (Pair (pu_provider_id u)) (released_of (reservation_key t) (pu_reservations u)))
          (bs_provider_budget_usage st)"
      have "?r \<noteq> [] \<or> ?p \<noteq> []"
        using True unfolding holds_reservation_def list_ex_iff f split_beta h by auto
      then show ?thesis
        using assms by (auto simp: release_execution_def Let_def dest!: save_state_usage split: sum.splits)
    qed
    then show ?thesis by (auto simp: holds_reservation_def list_ex_iff g)
  qed
qed

lemma finalize_gone:
  assumes "finalize_execution B t m s st = (st', ns, Inr r)"
  shows "\<not> holds_reservation st' (reservation_key t)"
  using finalize_execution_gone [OF assms, THEN conjunct1] finalize_execution_gone [OF assms, THEN conjunct2, THEN conjunct1]
  unfolding holds_reservation_def list_ex_iff split_beta by auto

lemma on_failure_ok:
  assumes "on_failure X plan b e st = (st', ph)" and "(xe_budget X \<noteq> None) = hb" and "tr_task_id (pl_request plan) = t"
    and "b = hb" and "b \<or> \<not> reserved_for st t"
  shows "phase_ok t hb ph st'"
proof -
  let ?reason = "safe_error_message (exn_message X e)"
  let ?v = "case e of ValueError _ \<Rightarrow> True | _ \<Rightarrow> False"
  let ?s = "if ?v then failure_state {''provider_unavailable'', ''model_unavailable''} ''rejected'' ?reason
      else failure_state {''provider_unavailable''} ''failed'' ?reason"
  let ?c = "if ?v \<or> classify_failure_code (PStr ?reason) \<noteq> None then ?reason else ''internal_execution_error''"
  have s: "?s \<in> {''rejected'', ''unsupported'', ''degraded'', ''failed''}"
    using failure_state_mem [of "''rejected''"] failure_state_mem [of "''failed''"] by (simp only: split: if_split) blast
  note u = assms(1) [unfolded on_failure_def Let_def]
  show ?thesis
  proof (cases "if b then xe_budget X else None")
    case None
    then have "\<not> reserved_for st t" using assms(2,4,5) by (cases b) auto
    then show ?thesis
      using terminal_plan_ok [OF u [unfolded None option.case] s] assms(3) by simp
  next
    case (Some B)
    obtain b' ns res where r: "release_execution B (tr_task_id (pl_request plan)) (es_budget st) = (b', ns, res)"
      using prod_cases3 by blast
    show ?thesis
    proof (cases res)
      case (Inl x)
      then show ?thesis using u [unfolded Some option.case r] by auto
    next
      case (Inr x)
      have "\<not> reserved_for (st\<lparr>es_budget := b'\<rparr>) (tr_task_id (pl_request plan))"
        using release_gone [OF r [unfolded Inr]] by (simp add: reserved_for_def)
      from terminal_plan_ok [OF u [unfolded Some option.case r prod.case Inr sum.case] s this]
      show ?thesis using assms(3) by simp
    qed
  qed
qed

lemma on_started_ok:
  assumes "on_started X plan b st = (st', ph)" and "(xe_budget X \<noteq> None) = hb" and "phase_ok t hb (Started plan b) st"
  shows "phase_ok t hb ph st'"
proof (cases "routed_request (as_list (xe_declared_task_families X)) (pl_request plan) (pl_resolution plan) (pl_authorization plan)")
  case (Inl e)
  then have "on_failure X plan b e st = (st', ph)" using assms(1) by (simp add: on_started_def)
  then show ?thesis by (rule on_failure_ok) (use assms in auto)
next
  case (Inr u)
  then have "st' = st \<and> ph = Dispatched plan b u" using assms(1) by (simp add: on_started_def)
  moreover have "dispatched_as plan u" using routed_plan(1,2) [OF Inr] by (simp add: dispatched_as_def)
  ultimately show ?thesis using assms(3) by auto
qed

lemma completed_terminal: "''completed'' \<in> set TERMINAL_EXECUTION_LIFECYCLE_STATES" "py_strip ''completed'' = ''completed''"
  by (simp add: TERMINAL_EXECUTION_LIFECYCLE_STATES_def) code_simp

lemma on_answer_ok:
  assumes "on_answer X plan b ans st = (st', ph)" and "(xe_budget X \<noteq> None) = hb" and "phase_ok t hb (Dispatched plan b u) st"
  shows "phase_ok t hb ph st'"
proof (cases ans)
  case (Inl e)
  then have "on_failure X plan b e st = (st', ph)" using assms(1) by (simp add: on_answer_def)
  then show ?thesis by (rule on_failure_ok) (use assms in auto)
next
  case (Inr response)
  obtain d where tr: "(case track X (pl_request plan) ''completed'' (Some (ux_provider_id response)) (Some (ux_model_id response)) d st of
      Inl e \<Rightarrow> (st, Raised e) | Inr st1 \<Rightarrow> (st1, Answered plan b response (xe_now_iso X))) = (st', ph)"
    using assms(1) unfolding on_answer_def Inr sum.case by blast
  show ?thesis
  proof (cases "track X (pl_request plan) ''completed'' (Some (ux_provider_id response)) (Some (ux_model_id response)) d st")
    case (Inl e)
    then show ?thesis using tr by auto
  next
    case (Inr st1)
    then have "st' = st1 \<and> ph = Answered plan b response (xe_now_iso X)" using tr by simp
    moreover have "\<not> task_active st1 (tr_task_id (pl_request plan))" by (rule track_terminal [OF Inr completed_terminal])
    ultimately show ?thesis using assms(3) track_reserved [OF Inr, of t] by auto
  qed
qed

lemma on_answered_ok:
  assumes "on_answered X plan b response done_at st = (st', ph)" and "(xe_budget X \<noteq> None) = hb"
    and "phase_ok t hb (Answered plan b response done_at) st"
  shows "phase_ok t hb ph st'"
proof (cases "validate_result (completed_result X plan response done_at (es_metrics st))")
  case (Inl e)
  then show ?thesis using assms(1) by (auto simp: on_answered_def)
next
  case (Inr result)
  show ?thesis
  proof (cases "if b then xe_budget X else None")
    case None
    then show ?thesis using assms Inr by (auto simp: on_answered_def on_settled_def split: if_splits)
  next
    case (Some B)
    let ?m = "Some \<lparr>em_estimated_cost = tm_estimated_cost (rs_metrics result), em_total_tokens = tm_total_tokens (rs_metrics result)\<rparr>"
    obtain b' ns res where f: "finalize_execution B (tr_task_id (pl_request plan)) ?m ''completed'' (es_budget st) = (b', ns, res)"
      using prod_cases3 by blast
    then have e: "(st', ph) = (case res of Inl e \<Rightarrow> (st\<lparr>es_budget := b'\<rparr>, Raised e) | Inr _ \<Rightarrow> (st\<lparr>es_budget := b'\<rparr>, Settled plan result))"
      using assms(1) Some unfolding on_answered_def Inr sum.case by simp
    show ?thesis
    proof (cases res)
      case (Inr x)
      have "\<not> reserved_for (st\<lparr>es_budget := b'\<rparr>) t"
        using finalize_gone [OF f [unfolded Inr]] assms(3) by (simp add: reserved_for_def)
      then show ?thesis using e Inr assms(3) by (simp add: task_active_def)
    qed (use e in auto)
  qed
qed

fun waiting_ok :: "string \<Rightarrow> bool \<Rightarrow> waiting \<times> exec_state \<Rightarrow> bool" where
  "waiting_ok t hb (Running ph, st) = phase_ok t hb ph st"
| "waiting_ok t hb (Cancelled ph, st) = phase_ok t hb ph st"

lemma exec_step_ok: "exec_step t hb a b \<Longrightarrow> waiting_ok t hb a \<Longrightarrow> waiting_ok t hb b"
proof (induction rule: exec_step.induct)
  case (received X r st st' ph)
  then show ?case using on_received_ok [of X r st st' ph hb] by simp
next
  case (selected X plan st st' ph)
  then show ?case using on_selected_ok [of X plan st st' ph hb t] by simp
next
  case (denied X plan reason st st' ph)
  then show ?case using terminal_plan_ok [of X plan "''rejected''" reason reason st st' ph hb] by (simp add: on_denied_def)
next
  case (budgeted X plan st st' ph)
  then show ?case using start_task_ok [of X plan True st st' ph t hb] by simp
next
  case (started X plan reserved st st' ph)
  from on_started_ok [OF started(2,1), of t] started(3) show ?case unfolding waiting_ok.simps by blast
next
  case (answer X M R call u rs ans plan reserved st st' ph)
  from on_answer_ok [OF answer(4,1), of t u] answer(5) show ?case unfolding waiting_ok.simps by blast
next
  case (answered X plan reserved response done_at st st' ph)
  from on_answered_ok [OF answered(2,1), of t] answered(3) show ?case unfolding waiting_ok.simps by blast
next
  case (settled X plan result st st' ph)
  then show ?case by (auto simp: on_settled_def)
next
  case (interfere st' st w)
  show ?case
  proof (cases w)
    case (Running ph)
    show ?thesis using phase_ok_same [OF interfere(1,2), of hb ph] interfere(3) unfolding Running waiting_ok.simps by blast
  next
    case (Cancelled ph)
    show ?thesis using phase_ok_same [OF interfere(1,2), of hb ph] interfere(3) unfolding Cancelled waiting_ok.simps by blast
  qed
qed simp

lemma exec_steps_ok: "exec_steps t hb a b \<Longrightarrow> waiting_ok t hb a \<Longrightarrow> waiting_ok t hb b"
  unfolding exec_steps_def by (induction rule: rtranclp_induct) (auto intro: exec_step_ok)

text \<open>The evidence of a plan for the local provider.\<close>

lemma local_metadata:
  assumes "prr_provider_id p = Some ''local''"
  shows "dget (resolution_metadata r a p g rejection) ''cloud_used'' = PBool False"
proof -
  have "selected_provider p = ''local''" unfolding selected_provider_def assms by code_simp
  then show ?thesis by (simp add: resolution_metadata_def location_evidence_def dget_def Let_def)
qed

text \<open>A completed result whose output names no image fails its validation.\<close>

lemma completed_images_checked:
  assumes "rs_status r = ''completed''" and "rs_output r = Some d" and "map_of d ''images'' = Some v" and "as_list v = []"
  shows "status_error r \<noteq> None"
  unfolding status_error_def assms by (simp add: assms)

text \<open>A result whose error code is too long fails its validation, so its execution raises.\<close>

lemma long_code_raises:
  assumes "128 < length (py_strip code)"
  shows "\<exists>st' e. terminal_result X r s code msg p m n fb md st = (st', Raised e)"
proof -
  have "messages (text_field ''error_code'' (Some code)) \<noteq> []"
    using assms by (auto simp: text_field_def optional_field_Inr_iff normalized_string_iff)
  then have v: "\<exists>ms. validate_result R = Inl ms" if "rs_error_code R = Some code" for R
    using that by (auto simp: validate_result_def result_field_messages_def split: list.split)
  have "\<exists>st' e. (case x of Inl e \<Rightarrow> (st, Raised e)
      | Inr st1 \<Rightarrow> (case validate_result (R st1) of Inl _ \<Rightarrow> (st1, Raised z) | Inr res \<Rightarrow> (g st1, Returned res))) = (st', Raised e)"
    if c: "\<And>st1. rs_error_code (R st1) = Some code" for x :: "exec_state result" and R z and g :: "exec_state \<Rightarrow> exec_state"
  proof (cases x)
    case (Inr st1)
    obtain ms where "validate_result (R st1) = Inl ms" using v [OF c] by blast
    then show ?thesis by (simp add: Inr)
  qed simp
  then show ?thesis unfolding terminal_result_def by this simp
qed

text \<open>No step leaves a cancelled execution.\<close>

inductive_cases exec_step_cancelled: "exec_step t hb (Cancelled ph, st) b"

lemma cancelled_stays:
  assumes "exec_steps t hb (Cancelled ph, st) (w, st')"
  shows "w = Cancelled ph \<and> reserved_for st' t = reserved_for st t \<and> task_active st' t = task_active st t"
  using assms unfolding exec_steps_def
proof (induction "(w, st')" arbitrary: w st' rule: rtranclp_induct)
  case (step b)
  then show ?case by (cases b) (auto elim: exec_step_cancelled)
qed simp

section \<open>A sample execution\<close>

definition sample_exec_env :: exec_env where
  "sample_exec_env =
     \<lparr>xe_now_iso = ''now'', xe_elapsed_ms = 25, xe_declared_task_families = PList [PStr ''task.chat''],
      xe_accepted_capability_profile = PNone, xe_governance_bundle = PDict [(''budget_policy'', PDict sample_policy)],
      xe_governance_status = PNone, xe_selection_context = sample_context, xe_budget = Some sample_env,
      xe_json_loads = (\<lambda>_. None), xe_exn_text = (\<lambda>_. ''error''), xe_float_repr = (\<lambda>_. [])\<rparr>"

text \<open>A registry with a sensitive prompt, and a request that names it.\<close>

definition sample_private :: prompt_registry where
  "sample_private =
     \<lparr>pr_state = [(''prompt_services'', PList [PDict
         [(''prompt_id'', PStr ''p1''), (''service_id'', PStr ''ai''), (''task_family'', PStr ''task.chat''),
          (''status'', PStr ''active''), (''privacy_class'', PStr ''sensitive''), (''access_scope'', PStr ''service''),
          (''current_version'', PStr ''v1.0''),
          (''versions'', PList [PDict [(''version'', PStr ''v1.0''), (''definition'', PDict [(''system_prompt'', PStr ''x'')])]])]])],
      pr_has_store = False, pr_file = None\<rparr>"

definition sample_exec_state :: exec_state where
  "sample_exec_state =
     \<lparr>es_tracker = new_tracker 10, es_budget = create_budget_state ''now'', es_registry = sample_private, es_metrics = []\<rparr>"

definition sample_exec_request :: TaskExecutionRequest where
  "sample_exec_request = (sample_task_request ''alice'')
     \<lparr>tr_task_id := ''t1'', tr_task_family := ''task.chat'', tr_prompt_id := Some ''p1'', tr_prompt_version := None,
      tr_requested_provider := None, tr_requested_model := None, tr_service_id := Some ''ai'',
      tr_inputs := [(''prompt'', PStr ''hi'')], tr_constraints := [(''max_cost_cents'', PInt 5)]\<rparr>"

text \<open>The sections one after the other, the provider answering through the router, until one ends the execution.\<close>

definition next_section ::
    "exec_env \<Rightarrow> router_env \<Rightarrow> adapter_calls \<Rightarrow> metrics_state
      \<Rightarrow> phase \<Rightarrow> exec_state \<Rightarrow> exec_state \<times> phase" where
  "next_section X R call M ph st =
     (case ph of
        Received r \<Rightarrow> on_received X r st
      | Selected plan \<Rightarrow> on_selected X plan st
      | Denied plan reason \<Rightarrow> on_denied X plan reason st
      | Budgeted plan \<Rightarrow> start_task X plan True st
      | Started plan b \<Rightarrow> on_started X plan b st
      | Dispatched plan b u \<Rightarrow> on_answer X plan b (snd (router_execute R call u M)) st
      | Answered plan b response done_at \<Rightarrow> on_answered X plan b response done_at st
      | Settled plan result \<Rightarrow> on_settled X plan result st
      | _ \<Rightarrow> (st, ph))"

fun run_sections ::
    "nat \<Rightarrow> exec_env \<Rightarrow> router_env \<Rightarrow> adapter_calls \<Rightarrow> metrics_state \<Rightarrow> phase \<Rightarrow> exec_state \<Rightarrow> exec_state \<times> phase" where
  "run_sections 0 X R call M ph st = (st, ph)"
| "run_sections (Suc n) X R call M ph st =
     (case next_section X R call M ph st of (st', ph') \<Rightarrow> run_sections n X R call M ph' st')"

lemma next_section_step:
  assumes "next_section X R call M ph st = (st', ph')" and "metrics_inv M"
  shows "exec_steps t (xe_budget X \<noteq> None) (Running ph, st) (Running ph', st')"
proof (cases "\<exists>x e. ph = Returned x \<or> ph = Raised e")
  case True
  then show ?thesis using assms by (auto simp: exec_steps_def next_section_def)
next
  case False
  have "exec_step t (xe_budget X \<noteq> None) (Running ph, st) (Running ph', st')"
  proof (cases ph)
    case (Dispatched plan b u)
    obtain rs ans where r: "router_execute R call u M = (rs, ans)" by fastforce
    have "on_answer X plan b ans st = (st', ph')" using assms(1) by (simp add: next_section_def Dispatched r)
    then show ?thesis unfolding Dispatched by (rule exec_step.answer [OF refl assms(2) r])
  qed (use assms(1) False in \<open>auto simp: next_section_def intro: exec_step.intros\<close>)
  then show ?thesis by (simp add: exec_steps_def)
qed

lemma exec_steps_trans: "exec_steps t hb a b \<Longrightarrow> exec_steps t hb b c \<Longrightarrow> exec_steps t hb a c"
  by (simp add: exec_steps_def)

lemma run_sections_steps:
  "metrics_inv M \<Longrightarrow> run_sections n X R call M ph st = (st', ph') \<Longrightarrow>
     exec_steps t (xe_budget X \<noteq> None) (Running ph, st) (Running ph', st')"
proof (induction n arbitrary: ph st)
  case 0
  then show ?case by (simp add: exec_steps_def)
next
  case (Suc n)
  obtain st1 ph1 where s: "next_section X R call M ph st = (st1, ph1)" by fastforce
  then have "exec_steps t (xe_budget X \<noteq> None) (Running ph1, st1) (Running ph', st')" using Suc by simp
  then show ?case by (rule exec_steps_trans [OF next_section_step [OF s Suc.prems(1)]])
qed

section \<open>The sections come to an end\<close>

text \<open>The sections that are left at most. Each section uses up one.\<close>

fun phase_rank :: "phase \<Rightarrow> nat" where
  "phase_rank (Received r) = 7"
| "phase_rank (Selected plan) = 6"
| "phase_rank (Denied plan reason) = 5"
| "phase_rank (Budgeted plan) = 5"
| "phase_rank (Started plan reserved) = 4"
| "phase_rank (Dispatched plan reserved u) = 3"
| "phase_rank (Answered plan reserved response done_at) = 2"
| "phase_rank (Settled plan result) = 1"
| "phase_rank (Returned result) = 0"
| "phase_rank (Raised e) = 0"

lemma phase_rank_0: "phase_rank ph = 0 \<longleftrightarrow> (\<exists>result. ph = Returned result) \<or> (\<exists>e. ph = Raised e)"
  by (cases ph) simp_all

lemma terminal_result_rank [simp]: "phase_rank (snd (terminal_result X r s code msg p m n fb md st)) = 0"
  by (auto simp: terminal_result_def split: sum.split)

lemma terminal_plan_rank [simp]: "phase_rank (snd (terminal_plan X plan s code reason st)) = 0"
  by (simp add: terminal_plan_def Let_def)

lemma early_result_rank [simp]: "phase_rank (snd (early_result X r s reason st)) = 0"
  by (simp add: early_result_def)

lemma on_failure_rank [simp]: "phase_rank (snd (on_failure X plan b e st)) = 0"
  by (auto simp: on_failure_def Let_def split: option.split prod.split sum.split)

lemma select_provider_rank: "phase_rank (snd (select_provider X r a st)) \<le> 6"
  by (auto simp: select_provider_def Let_def split: sum.split)

lemma on_received_rank: "phase_rank (snd (on_received X r st)) \<le> 6"
  using select_provider_rank by (auto simp: on_received_def Let_def split: sum.split option.split)

lemma start_task_rank: "phase_rank (snd (start_task X plan b st)) \<le> 4"
  by (auto simp: start_task_def Let_def split: sum.split)

lemma on_selected_rank: "phase_rank (snd (on_selected X plan st)) \<le> 5"
  using le_trans [OF start_task_rank, of 5] by (auto simp: on_selected_def Let_def split: sum.split option.split prod.split)

lemma on_started_rank: "phase_rank (snd (on_started X plan b st)) \<le> 3"
  by (auto simp: on_started_def split: sum.split)

lemma on_answer_rank: "phase_rank (snd (on_answer X plan b ans st)) \<le> 2"
  by (auto simp: on_answer_def split: sum.split)

lemma on_settled_rank [simp]: "phase_rank (snd (on_settled X plan result st)) = 0"
  by (simp add: on_settled_def)

lemma on_answered_rank: "phase_rank (snd (on_answered X plan b response done_at st)) \<le> 1"
  by (auto simp: on_answered_def split: sum.split option.split prod.split)

lemmas section_ranks = on_received_rank on_selected_rank start_task_rank on_started_rank on_answer_rank on_answered_rank

lemma next_section_rank: "phase_rank (snd (next_section X R call M ph st)) \<le> phase_rank ph - 1"
proof (cases ph)
  case (Denied plan reason)
  then show ?thesis by (simp add: next_section_def on_denied_def)
qed (use section_ranks in \<open>simp_all add: next_section_def\<close>)

text \<open>The sections in surroundings that change, with what the others do after each.\<close>

fun run_among ::
    "(exec_env \<times> router_env \<times> adapter_calls \<times> metrics_state \<times> (exec_state \<Rightarrow> exec_state)) list
      \<Rightarrow> phase \<Rightarrow> exec_state \<Rightarrow> exec_state \<times> phase" where
  "run_among [] ph st = (st, ph)"
| "run_among ((X, R, call, M, others) # ss) ph st =
     (case next_section X R call M ph st of (st', ph') \<Rightarrow> run_among ss ph' (others st'))"

lemma run_among_rank: "phase_rank (snd (run_among ss ph st)) \<le> phase_rank ph - length ss"
proof (induction ss arbitrary: ph st)
  case (Cons s ss)
  obtain X R call M others where s: "s = (X, R, call, M, others)" using prod_cases5 by blast
  obtain st1 ph1 where n: "next_section X R call M ph st = (st1, ph1)" by fastforce
  have "phase_rank ph1 \<le> phase_rank ph - 1" using next_section_rank [of X R call M ph st] n by simp
  then show ?case using Cons [of ph1 "others st1"] by (simp add: s n)
qed simp

text \<open>The sample, some sections on.\<close>

definition sample_after :: "nat \<Rightarrow> exec_state \<times> phase" where
  "sample_after n = run_sections n sample_exec_env sample_router sample_calls [] (Received sample_exec_request) sample_exec_state"

lemma sample_holds:
  "case sample_after 4 of
     (st, Dispatched plan b u) \<Rightarrow> b \<and> reserved_for st ''t1'' \<and> task_active st ''t1''
   | _ \<Rightarrow> False"
  by code_simp

lemma sample_private_plan:
  "case sample_after 4 of
     (st, Dispatched plan b u) \<Rightarrow>
       (case pl_authorization plan of None \<Rightarrow> False | Some a \<Rightarrow> authorization_privacy_routing_mode a \<noteq> None)
   | _ \<Rightarrow> False"
  by code_simp

lemma sample_ends:
  "case sample_after 7 of (st, Returned result) \<Rightarrow> rs_provider_used result = Some ''openai'' | _ \<Rightarrow> False"
  by code_simp

lemma sample_start: "\<not> reserved_for sample_exec_state ''t1''" "tr_task_id sample_exec_request = ''t1''"
  by code_simp+

lemma sample_steps:
  assumes "sample_after n = (st, ph)"
  shows "exec_steps (tr_task_id sample_exec_request) True (Running (Received sample_exec_request), sample_exec_state) (Running ph, st)"
  using run_sections_steps [of "[]", OF _ assms [unfolded sample_after_def]] by (simp add: sample_exec_env_def metrics_inv_def)

lemma sample_dispatched:
  obtains st plan u a where "sample_after 4 = (st, Dispatched plan True u)" and "reserved_for st ''t1''" and "task_active st ''t1''"
    and "pl_authorization plan = Some a" and "authorization_privacy_routing_mode a \<noteq> None"
proof -
  obtain st ph where a: "sample_after 4 = (st, ph)" by fastforce
  obtain plan b u where ph: "ph = Dispatched plan b u" using sample_holds unfolding a by (cases ph) auto
  show thesis
    using sample_holds sample_private_plan that [of st plan u] unfolding a ph by (cases "pl_authorization plan") auto
qed

lemma sample_returned:
  obtains st result where "sample_after 7 = (st, Returned result)" and "rs_provider_used result = Some ''openai''"
proof -
  obtain st ph where a: "sample_after 7 = (st, ph)" by fastforce
  show thesis using sample_ends that [of st] unfolding a by (cases ph) auto
qed

lemma received_ok: "\<not> reserved_for st (tr_task_id r) \<Longrightarrow> waiting_ok (tr_task_id r) hb (Running (Received r), st)"
  by simp

section \<open>Properties\<close>





text \<open>
  No step undoes a cancellation: an execution that is cancelled while the provider works on it
  keeps its reservation and stays an active task, since neither the release of its budget nor the
  end of its tracking runs.
\<close>

theorem cancelled_keeps_reservation:
  assumes "exec_steps (tr_task_id r) has_budget (Running (Received r), st) (Running (Dispatched plan reserved u), st1)"
    and "\<not> reserved_for st (tr_task_id r)"
    and "exec_steps (tr_task_id r) has_budget (Cancelled (Dispatched plan reserved u), st1) (w, st2)"
  shows "reserved = has_budget \<and> w = Cancelled (Dispatched plan reserved u) \<and>
    reserved_for st2 (tr_task_id r) = reserved_for st1 (tr_task_id r) \<and>
    task_active st2 (tr_task_id r) = task_active st1 (tr_task_id r)"
  using exec_steps_ok [OF assms(1) received_ok [OF assms(2)]] cancelled_stays [OF assms(3)] by simp

theorem cancelled_keeps_reservation_witness:
  "\<exists>st1 st2 plan u w. sample_after 4 = (st1, Dispatched plan True u) \<and>
     exec_steps (tr_task_id sample_exec_request) True (Running (Dispatched plan True u), st1) (w, st2) \<and>
     w = Cancelled (Dispatched plan True u) \<and> reserved_for st2 ''t1'' \<and> task_active st2 ''t1''"
proof -
  obtain st1 plan u a where d: "sample_after 4 = (st1, Dispatched plan True u)" "reserved_for st1 ''t1''" "task_active st1 ''t1''"
    by (rule sample_dispatched)
  let ?ph = "Dispatched plan True u" and ?st2 = "st1\<lparr>es_metrics := []\<rparr>" and ?t = "tr_task_id sample_exec_request"
  have c: "exec_steps ?t True (Running ?ph, st1) (Cancelled ?ph, st1)"
    unfolding exec_steps_def by (intro r_into_rtranclp exec_step.cancel)
  have i: "exec_steps ?t True (Cancelled ?ph, st1) (Cancelled ?ph, ?st2)"
    unfolding exec_steps_def by (intro r_into_rtranclp exec_step.interfere) (simp_all add: reserved_for_def task_active_def)
  have "\<not> reserved_for sample_exec_state ?t" by (simp only: sample_start not_False_eq_True)
  from cancelled_keeps_reservation [OF sample_steps [OF d(1)] this i] show ?thesis
    using d exec_steps_trans [OF c i] sample_start(2) by auto
qed

text \<open>
  C12. A private prompt does not keep a request on the node: when the local provider answers no call
  and another provider that is registered and usable does, the router answers with another one,
  while the result still reports that no cloud was used, because its evidence is the plan's.
\<close>

theorem private_request_leaves_node:
  assumes "exec_steps (tr_task_id r) has_budget (Running (Received r), st) (Running (Dispatched plan reserved u), st')"
    and "\<not> reserved_for st (tr_task_id r)"
    and "pl_authorization plan = Some a" and "authorization_privacy_routing_mode a \<noteq> None"
    and "metrics_inv M" and "\<forall>k y. call ''local'' k \<noteq> Inr y"
    and "q \<in> set (router_order R u)" and "usable R q" and "call q 0 = Inr x"
  shows "\<exists>rs y p. router_execute R call u M = (rs, Inr y) \<and> p \<noteq> ''local'' \<and> p \<in> set (rt_calls rs) \<and>
    (\<exists>k. call p k = Inr y) \<and>
    (\<exists>md. rs_resolution_metadata (completed_result X plan y done_at M') = Some md \<and> dget md ''cloud_used'' = PBool False)"
proof -
  have l: "prr_provider_id (pl_resolution plan) = Some ''local''"
    using exec_steps_ok [OF assms(1) received_ok [OF assms(2)]] assms(3,4) by (auto simp: plan_sound_def)
  have "0 < attempts R" by (simp add: attempts_def)
  from routed_answer_found [where call = call, OF assms(7,8) this assms(9)] obtain y where y: "snd (routed_answer R call (router_order R u)) = Some y"
    by auto
  obtain rs where rs: "router_execute R call u M = (rs, Inr y)" "rt_calls rs = fst (routed_answer R call (router_order R u))"
    using router_exact [OF assms(5), of R call u] y by auto
  from routed_answer_Some [OF y] obtain p k where p: "p \<in> set (rt_calls rs)" "call p k = Inr y" unfolding rs(2) by blast
  then have "p \<noteq> ''local''" using assms(6) by blast
  then show ?thesis using rs(1) p local_metadata [OF l] by (auto simp: completed_result_def)
qed

theorem private_request_leaves_node_witness:
  "\<exists>st plan u rs y p. sample_after 4 = (st, Dispatched plan True u) \<and> ue_requested_provider u = Some ''local'' \<and>
     router_execute sample_router sample_calls u [] = (rs, Inr y) \<and> p \<noteq> ''local'' \<and> p \<in> set (rt_calls rs) \<and>
     (\<exists>md. rs_resolution_metadata (completed_result sample_exec_env plan y ''now'' []) = Some md \<and>
        dget md ''cloud_used'' = PBool False)"
proof -
  obtain st plan u a where d: "sample_after 4 = (st, Dispatched plan True u)"
    and a: "pl_authorization plan = Some a" "authorization_privacy_routing_mode a \<noteq> None" by (rule sample_dispatched)
  let ?t = "tr_task_id sample_exec_request"
  have n: "\<not> reserved_for sample_exec_state ?t" by (simp only: sample_start not_False_eq_True)
  have "set (list_providers (rt_registry sample_router)) = {''local'', ''openai''}"
    by (simp add: sample_router_def list_providers_def Let_def)
  then have oa: "''openai'' \<in> set (router_order sample_router u)"
    using router_order_facts(2) [of sample_router u] by blast
  have c: "\<forall>k y. sample_calls ''local'' k \<noteq> Inr y" by (simp add: sample_calls_def)
  have x: "usable sample_router ''openai''" "sample_calls ''openai'' 0 = Inr (sample_answer ''openai'')"
    by code_simp (simp add: sample_calls_def)
  have "metrics_inv []" by (simp add: metrics_inv_def)
  from private_request_leaves_node [where X = sample_exec_env and done_at = "''now''" and M' = "[]",
      OF sample_steps [OF d] n a this c oa x]
  obtain rs y p where r: "router_execute sample_router sample_calls u [] = (rs, Inr y)" "p \<noteq> ''local''" "p \<in> set (rt_calls rs)"
    "\<exists>md. rs_resolution_metadata (completed_result sample_exec_env plan y ''now'' []) = Some md \<and> dget md ''cloud_used'' = PBool False"
    by blast
  have "ue_requested_provider u = Some ''local''"
    using exec_steps_ok [OF sample_steps [OF d] received_ok [OF n]] a by (auto simp: plan_sound_def dispatched_as_def)
  then show ?thesis using d r by blast
qed

text \<open>
  The output of a structured extraction is what the model wrote, so a key of it can fail the
  validation of the result: with an empty \<open>images\<close> the execution raises after it was tracked as
  completed, its reservation is neither settled nor released, and no result is returned.
\<close>

theorem images_key_strands_reservation:
  assumes "py_lower (norm_string (PStr (tr_task_family (pl_request plan)))) = ''task.structured_extraction''"
    and "xe_json_loads X (ux_output_text response) = Some (PDict d)"
    and "map_of d ''images'' = Some v" and "as_list v = []"
  shows "\<exists>e. on_answered X plan reserved response done_at st = (st, Raised e)"
proof -
  let ?r = "completed_result X plan response done_at (es_metrics st)"
  have out: "rs_output (normalized_result ?r) = Some d" "rs_status (normalized_result ?r) = ''completed''"
    using assms(1,2) by (simp_all add: normalized_result_def completed_result_def completed_output_def Let_def)
  have "validate_result ?r \<noteq> Inr x" for x
    using completed_images_checked [OF out(2,1) assms(3,4)] by (auto simp: validate_result_def split: list.splits option.splits)
  then obtain ms where "validate_result ?r = Inl ms" by (cases "validate_result ?r") auto
  then show ?thesis by (simp add: on_answered_def)
qed

definition sample_extraction :: exec_plan where
  "sample_extraction =
     \<lparr>pl_request = sample_exec_request\<lparr>tr_task_family := ''task.structured_extraction''\<rparr>, pl_authorization = None,
      pl_constraints = [], pl_timeout_s = 60,
      pl_resolution =
        \<lparr>prr_allowed = True, prr_provider_id = Some ''local'', prr_model_id = Some ''qwen3'', prr_provider_order = [''local''],
         prr_fallback_provider_ids = [], prr_model_allowlist_by_provider = [], prr_timeout_s = 60, prr_retry_count = 0,
         prr_rejection_reason = None\<rparr>\<rparr>"

theorem images_key_strands_reservation_witness:
  "\<exists>st e. reserved_for st ''t1'' \<and>
     on_answered (sample_exec_env\<lparr>xe_json_loads := (\<lambda>_. Some (PDict [(''images'', PList [])]))\<rparr>) sample_extraction True
       (sample_answer ''local'') ''now'' st = (st, Raised e)"
proof -
  let ?X = "sample_exec_env\<lparr>xe_json_loads := (\<lambda>_. Some (PDict [(''images'', PList [])]))\<rparr>"
  obtain st plan u a where "sample_after 4 = (st, Dispatched plan True u)" "reserved_for st ''t1''" by (rule sample_dispatched)
  moreover have "py_lower (norm_string (PStr (tr_task_family (pl_request sample_extraction)))) = ''task.structured_extraction''"
    by code_simp
  ultimately show ?thesis
    using images_key_strands_reservation [of sample_extraction ?X "sample_answer ''local''" "[(''images'', PList [])]" "PList []"]
    by auto
qed

text \<open>
  A provider error of the kind \<open>ValueError\<close> with a text longer than an error code may be does not
  become a rejected result: the text is the error code, the result fails its own validation, and
  the execution raises, with its task already tracked as ended.
\<close>

theorem long_failure_reason_raises:
  assumes "128 < length (py_strip message)" and "length (py_strip message) \<le> 4000"
  shows "\<exists>st' e. on_failure X plan reserved (ValueError message) st = (st', Raised e)"
proof -
  have m: "safe_error_message message = py_strip message" using assms by (auto simp: safe_error_message_def Let_def)
  have t: "\<exists>st' e. terminal_plan X plan s (py_strip message) reason st1 = (st', Raised e)" for s reason st1
    unfolding terminal_plan_def Let_def by (rule long_code_raises) (simp add: assms(1) py_strip_idem)
  show ?thesis
    using t by (auto simp: on_failure_def Let_def exn_message_def m split: option.splits prod.splits sum.splits)
qed

theorem long_failure_reason_raises_witness:
  "\<exists>st' e. on_failure sample_exec_env sample_extraction False (ValueError (replicate 129 CHR ''x'')) sample_exec_state = (st', Raised e)"
proof -
  have "py_strip (replicate 129 CHR ''x'') = replicate 129 CHR ''x''" by code_simp
  then show ?thesis using long_failure_reason_raises [of "replicate 129 CHR ''x''"] by simp
qed



end
