(* ===== verification/Internal_Scheduler.thy ===== *)
theory Internal_Scheduler
  imports Prelude
begin

text \<open>
  The recurring tasks of the node: \<open>runtime/internal_scheduler.py\<close> with its catalogue
  (\<open>runtime/internal_scheduler_catalog.py\<close>) and the file that keeps it over a restart
  (\<open>persistence/internal_scheduler_state_store.py\<close>). Each task has a loop, a coroutine that sleeps
  and runs the task's operation in turn. A loop is cut at its awaits; what other code the event
  loop runs comes between its sections. The file is the value that was written last, \<open>None\<close> when
  there is none or it is not JSON. A section reads the clock once.
\<close>

section \<open>The catalogue\<close>

definition SCHEDULE_CATALOG :: "(string \<times> string) list" where
  "SCHEDULE_CATALOG =
     [(''interval_seconds'', ''Every N seconds (requires integer seconds)''), (''daily'', ''Every day at 00:01''),
      (''weekly'', ''Monday 00:01''), (''4_times_a_day'', ''00:00, 06:00, 12:00, 18:00''),
      (''every_5_minutes'', ''00:05, 00:10, 00:15, ...''), (''hourly'', ''Hourly at :00''), (''bi_weekly'', ''Every 2 weeks''),
      (''monthly'', ''First day of each month at 00:01''), (''every_other_day'', ''Every other day at 00:01''),
      (''twice_a_week'', ''Monday and Thursday at 00:01''), (''on_start'', ''Runs once after full operational readiness''),
      (''every_10_seconds'', ''Every 10 seconds''), (''heartbeat_5_seconds'', ''Heartbeat every 5 seconds''),
      (''telemetry_60_seconds'', ''Telemetry every 60 seconds'')]"

definition get_schedule_definition :: "string \<Rightarrow> string option \<Rightarrow> string \<times> string option" where
  "get_schedule_definition schedule_name fallback_detail =
     (let n = py_strip schedule_name
      in case map_of SCHEDULE_CATALOG n of
           Some detail \<Rightarrow> (n, Some detail)
         | None \<Rightarrow> (if n = [] then ''interval_seconds'' else n, none_if_empty (norm_string (opt_str fallback_detail))))"

section \<open>State\<close>

record sched_task =
  it_task_id :: string
  it_display_name :: string
  it_task_kind :: string
  it_schedule_name :: string
  it_schedule_detail :: "string option"
  it_interval_seconds :: int
  it_enabled :: bool
  it_running :: bool
  it_status :: string
  it_readiness_critical :: bool
  it_last_started_at :: "string option"
  it_last_success_at :: "string option"
  it_last_failure_at :: "string option"
  it_last_completed_at :: "string option"
  it_last_error :: "string option"
  it_current_error :: "string option"
  it_next_run_at :: "string option"
  it_last_result :: "pydict option"
  it_attempt_count :: int
  it_consecutive_failures :: int
  it_updated_at :: string

record sched_state =
  is_scheduler_status :: string
  is_tasks :: "(string \<times> sched_task) list"
  is_updated_at :: string

section \<open>The file\<close>

text \<open>\<open>d.get(k, default)\<close>, \<open>str(v or "").strip() or None\<close>, \<open>str(v or d).strip() or d\<close>.\<close>

definition dget_or :: "pydict \<Rightarrow> string \<Rightarrow> pyval \<Rightarrow> pyval" where
  "dget_or d k v = (case map_of d k of None \<Rightarrow> v | Some w \<Rightarrow> w)"

definition text_of :: "pyval \<Rightarrow> string option" where
  "text_of v = none_if_empty (norm_string v)"

definition text_else :: "pyval \<Rightarrow> string \<Rightarrow> string" where
  "text_else v d = (let t = py_strip (str_or v d) in if t = [] then d else t)"

definition MAX_LAST_RESULT_BYTES :: int where
  "MAX_LAST_RESULT_BYTES = 8192"

definition json_size :: "pyval \<Rightarrow> int" where
  "json_size v = int (length (json_dumps \<lparr>item_sep = '', '', key_sep = '': '', sort_keys = False, ensure_ascii = True\<rparr> v))"

definition bool_unless_none :: "pyval \<Rightarrow> pyval" where
  "bool_unless_none v = (if v = PNone then PNone else PBool (truthy v))"

definition provider_summary :: "pydict \<Rightarrow> pyval" where
  "provider_summary p =
     PDict [(''provider_id'', opt_str (text_of (dget p ''provider_id''))),
            (''availability'', opt_str (text_of (dget p ''availability''))),
            (''model_count'', case int_of_pyval (dget p ''model_count'') of
               Some _ \<Rightarrow> dget p ''model_count'' | None \<Rightarrow> PInt (int (length (as_list (dget p ''models'')))))]"

definition summarize_provider_capability_refresh :: "pydict \<Rightarrow> pydict" where
  "summarize_provider_capability_refresh payload =
     (let report = as_dict (dget payload ''report''); providers = as_list (dget report ''providers'');
          core = as_dict (dget payload ''core_submission'')
      in [(''status'', opt_str (text_of (dget payload ''status''))),
          (''changed'', bool_unless_none (dget payload ''changed'')),
          (''core_submission'', PDict
             [(''submitted'', bool_unless_none (dget core ''submitted'')), (''status'', opt_str (text_of (dget core ''status''))),
              (''retryable'', bool_unless_none (dget core ''retryable'')), (''error'', opt_str (text_of (dget core ''error'')))]),
          (''report'', PDict
             [(''generated_at'', opt_str (text_of (dget report ''generated_at''))),
              (''provider_count'', PInt (int (length providers))),
              (''providers'', PList (map (\<lambda>p. provider_summary (as_dict p)) (filter is_dict providers)))])])"

definition summarize_last_result :: "string \<Rightarrow> pyval \<Rightarrow> pydict option" where
  "summarize_last_result task_id value =
     (case value of
        PDict d \<Rightarrow>
          if json_size value \<le> MAX_LAST_RESULT_BYTES then Some d
          else if py_strip task_id = ''provider_capability_refresh'' then Some (summarize_provider_capability_refresh d)
          else Some [(''status'', PStr (text_else (dget d ''status'') ''summarized'')),
                     (''summary'', PStr ''last_result_truncated''), (''original_size_bytes'', PInt (json_size value))]
      | _ \<Rightarrow> None)"

definition int_or_zero :: "pyval \<Rightarrow> int result" where
  "int_or_zero v = py_int (py_or v (PInt 0))"

text \<open>The entry of a task in the file. The keys are texts and the values come from JSON.\<close>

definition normalize_task :: "string \<Rightarrow> string \<Rightarrow> pydict \<Rightarrow> sched_task result" where
  "normalize_task now task_id entry =
     ebind (int_or_zero (dget entry ''interval_seconds'')) (\<lambda>interval.
     ebind (int_or_zero (dget entry ''attempt_count'')) (\<lambda>attempts.
     ebind (int_or_zero (dget entry ''consecutive_failures'')) (\<lambda>failures.
     Inr \<lparr>it_task_id = py_strip (str_or (dget entry ''task_id'') task_id),
          it_display_name =
            (let t = py_strip (str_or (dget entry ''display_name'') task_id) in if t = [] then py_strip task_id else t),
          it_task_kind = text_else (dget entry ''task_kind'') ''local_recurring'',
          it_schedule_name = text_else (dget entry ''schedule_name'') ''interval'',
          it_schedule_detail = text_of (dget entry ''schedule_detail''),
          it_interval_seconds = interval,
          it_enabled = truthy (dget_or entry ''enabled'' (PBool True)),
          it_running = truthy (dget entry ''running''),
          it_status = text_else (dget entry ''status'') ''idle'',
          it_readiness_critical = truthy (dget entry ''readiness_critical''),
          it_last_started_at = text_of (dget entry ''last_started_at''),
          it_last_success_at = text_of (dget entry ''last_success_at''),
          it_last_failure_at = text_of (dget entry ''last_failure_at''),
          it_last_completed_at = text_of (dget entry ''last_completed_at''),
          it_last_error = text_of (dget entry ''last_error''),
          it_current_error = text_of (dget entry ''current_error''),
          it_next_run_at = text_of (dget entry ''next_run_at''),
          it_last_result = summarize_last_result task_id (dget entry ''last_result''),
          it_attempt_count = max attempts 0,
          it_consecutive_failures = max failures 0,
          it_updated_at = str_or (dget entry ''updated_at'') now\<rparr>)))"

fun normalize_tasks :: "string \<Rightarrow> pydict \<Rightarrow> (string \<times> sched_task) list \<Rightarrow> (string \<times> sched_task) list result" where
  "normalize_tasks now [] acc = Inr acc"
| "normalize_tasks now ((task_id, entry) # rest) acc =
     (case entry of
        PDict e \<Rightarrow>
          if py_strip task_id = [] then Inl (ValueError ''invalid_internal_scheduler_task_entry'')
          else ebind (normalize_task now task_id e) (\<lambda>t. normalize_tasks now rest (AList.update (py_strip task_id) t acc))
      | _ \<Rightarrow> Inl (ValueError ''invalid_internal_scheduler_task_entry''))"

definition normalize_internal_scheduler_state :: "string \<Rightarrow> pyval \<Rightarrow> sched_state result" where
  "normalize_internal_scheduler_state now v =
     (case v of
        PDict data \<Rightarrow>
          if norm_string (dget data ''schema_version'') \<noteq> ''1.0''
          then Inl (ValueError ''invalid_internal_scheduler_state_schema'')
          else (case dget data ''tasks'' of
                  PDict tasks \<Rightarrow>
                    ebind (normalize_tasks now tasks []) (\<lambda>normalized.
                    Inr \<lparr>is_scheduler_status = text_else (dget data ''scheduler_status'') ''idle'',
                         is_tasks = normalized, is_updated_at = str_or (dget data ''updated_at'') now\<rparr>)
                | _ \<Rightarrow> Inl (ValueError ''invalid_internal_scheduler_tasks''))
      | _ \<Rightarrow> Inl (ValueError ''invalid_internal_scheduler_state''))"

definition create_internal_scheduler_state :: "string \<Rightarrow> sched_state" where
  "create_internal_scheduler_state now = \<lparr>is_scheduler_status = ''idle'', is_tasks = [], is_updated_at = now\<rparr>"

text \<open>A state as the dictionary it is in the program and in the file.\<close>

definition task_value :: "sched_task \<Rightarrow> pydict" where
  "task_value t =
     [(''task_id'', PStr (it_task_id t)), (''display_name'', PStr (it_display_name t)), (''task_kind'', PStr (it_task_kind t)),
      (''schedule_name'', PStr (it_schedule_name t)), (''schedule_detail'', opt_str (it_schedule_detail t)),
      (''interval_seconds'', PInt (it_interval_seconds t)), (''enabled'', PBool (it_enabled t)),
      (''running'', PBool (it_running t)), (''status'', PStr (it_status t)),
      (''readiness_critical'', PBool (it_readiness_critical t)), (''last_started_at'', opt_str (it_last_started_at t)),
      (''last_success_at'', opt_str (it_last_success_at t)), (''last_failure_at'', opt_str (it_last_failure_at t)),
      (''last_completed_at'', opt_str (it_last_completed_at t)), (''last_error'', opt_str (it_last_error t)),
      (''current_error'', opt_str (it_current_error t)), (''next_run_at'', opt_str (it_next_run_at t)),
      (''last_result'', case it_last_result t of None \<Rightarrow> PNone | Some d \<Rightarrow> PDict d),
      (''attempt_count'', PInt (it_attempt_count t)), (''consecutive_failures'', PInt (it_consecutive_failures t)),
      (''updated_at'', PStr (it_updated_at t))]"

definition state_value :: "sched_state \<Rightarrow> pyval" where
  "state_value s =
     PDict [(''schema_version'', PStr ''1.0''), (''scheduler_status'', PStr (is_scheduler_status s)),
            (''tasks'', PDict (map (\<lambda>(k, t). (k, PDict (task_value t))) (is_tasks s))), (''updated_at'', PStr (is_updated_at s))]"

section \<open>The scheduler\<close>

text \<open>
  The surroundings of a section: the clock, the text of an instant some seconds from now, and
  whether the file can be written.
\<close>

record sched_env =
  se_now :: string
  se_in_seconds :: "int \<Rightarrow> string"
  se_disk :: bool

text \<open>
  A loop has not begun and will sleep first, sleeps, runs its operation, or has ended, with an
  exception or by cancellation.
\<close>

datatype loop = Due int | Sleeping | Working | Ended "exn option"

definition loop_live :: "loop \<Rightarrow> bool" where
  "loop_live h = (case h of Ended _ \<Rightarrow> False | _ \<Rightarrow> True)"

record scheduler =
  sc_state :: sched_state
  sc_handles :: "(string \<times> loop) list"
  sc_has_store :: bool
  sc_file :: "pyval option"

definition alive :: "scheduler \<Rightarrow> string \<Rightarrow> bool" where
  "alive s task_id = (case map_of (sc_handles s) task_id of None \<Rightarrow> False | Some h \<Rightarrow> loop_live h)"

definition set_tasks :: "(string \<times> sched_task) list \<Rightarrow> scheduler \<Rightarrow> scheduler" where
  "set_tasks ts s = s\<lparr>sc_state := (sc_state s)\<lparr>is_tasks := ts\<rparr>\<rparr>"

definition set_handle :: "string \<Rightarrow> loop \<Rightarrow> scheduler \<Rightarrow> scheduler" where
  "set_handle task_id h s = s\<lparr>sc_handles := AList.update task_id h (sc_handles s)\<rparr>"

definition refresh_running_flags :: "scheduler \<Rightarrow> scheduler" where
  "refresh_running_flags s = set_tasks (map (\<lambda>(k, t). (k, t\<lparr>it_running := alive s k\<rparr>)) (is_tasks (sc_state s))) s"

definition save_state :: "sched_env \<Rightarrow> scheduler \<Rightarrow> scheduler \<times> unit result" where
  "save_state E s =
     (let s1 = refresh_running_flags s; s2 = s1\<lparr>sc_state := (sc_state s1)\<lparr>is_updated_at := se_now E\<rparr>\<rparr>
      in if \<not> sc_has_store s then (s2, Inr ())
         else (case normalize_internal_scheduler_state (se_now E) (state_value (sc_state s2)) of
                 Inl e \<Rightarrow> (s2, Inl e)
               | Inr n \<Rightarrow>
                   if se_disk E then (s2\<lparr>sc_file := Some (state_value n)\<rparr>, Inr ()) else (s2, Inl (RuntimeError ''OSError''))))"

definition store_load :: "string \<Rightarrow> pyval option \<Rightarrow> sched_state option result" where
  "store_load now file =
     (case file of
        None \<Rightarrow> Inr None
      | Some v \<Rightarrow>
          (case normalize_internal_scheduler_state now v of
             Inr n \<Rightarrow> Inr (Some n)
           | Inl (ValueError _) \<Rightarrow> Inr None
           | Inl e \<Rightarrow> Inl e))"

text \<open>The constructor, with a store whose file is given, or with none.\<close>

definition load_or_create :: "sched_env \<Rightarrow> pyval option \<Rightarrow> (sched_state \<times> pyval option) result" where
  "load_or_create E file =
     ebind (store_load (se_now E) file) (\<lambda>loaded.
     case loaded of
       Some n \<Rightarrow> Inr (n, file)
     | None \<Rightarrow>
         let n = create_internal_scheduler_state (se_now E)
         in if se_disk E then Inr (n, Some (state_value n)) else Inl (RuntimeError ''OSError''))"

definition new_scheduler :: "sched_env \<Rightarrow> pyval option \<Rightarrow> scheduler result" where
  "new_scheduler E file =
     ebind (load_or_create E file) (\<lambda>(n, file'). Inr \<lparr>sc_state = n, sc_handles = [], sc_has_store = True, sc_file = file'\<rparr>)"

definition new_scheduler_without_store :: "sched_env \<Rightarrow> scheduler" where
  "new_scheduler_without_store E =
     \<lparr>sc_state = create_internal_scheduler_state (se_now E), sc_handles = [], sc_has_store = False, sc_file = None\<rparr>"

record interval_task =
  ia_task_id :: string
  ia_display_name :: string
  ia_interval_seconds :: int
  ia_schedule_name :: string
  ia_schedule_detail :: "string option"
  ia_task_kind :: string
  ia_readiness_critical :: bool

definition blank_task :: "string \<Rightarrow> sched_task" where
  "blank_task now =
     \<lparr>it_task_id = [], it_display_name = [], it_task_kind = [], it_schedule_name = [], it_schedule_detail = None,
      it_interval_seconds = 1, it_enabled = True, it_running = False, it_status = ''idle'', it_readiness_critical = False,
      it_last_started_at = None, it_last_success_at = None, it_last_failure_at = None, it_last_completed_at = None,
      it_last_error = None, it_current_error = None, it_next_run_at = None, it_last_result = None, it_attempt_count = 0,
      it_consecutive_failures = 0, it_updated_at = now\<rparr>"

definition registered_task :: "sched_env \<Rightarrow> interval_task \<Rightarrow> scheduler \<Rightarrow> sched_task" where
  "registered_task E a s =
     (let current = (case map_of (is_tasks (sc_state s)) (ia_task_id a) of Some t \<Rightarrow> t | None \<Rightarrow> blank_task (se_now E));
          (schedule_name, detail) = get_schedule_definition (ia_schedule_name a) (ia_schedule_detail a)
      in current\<lparr>it_task_id := ia_task_id a, it_display_name := ia_display_name a, it_task_kind := ia_task_kind a,
           it_schedule_name := schedule_name, it_schedule_detail := detail,
           it_interval_seconds := max (ia_interval_seconds a) 1, it_running := alive s (ia_task_id a),
           it_status := (if it_status current = [] then ''idle'' else it_status current),
           it_readiness_critical := ia_readiness_critical a,
           it_updated_at := (if it_updated_at current = [] then se_now E else it_updated_at current)\<rparr>)"

definition register_interval_task :: "sched_env \<Rightarrow> interval_task \<Rightarrow> scheduler \<Rightarrow> scheduler \<times> unit result" where
  "register_interval_task E a s =
     save_state E (set_tasks (AList.update (ia_task_id a) (registered_task E a s) (is_tasks (sc_state s))) s)"

definition set_scheduler_status :: "sched_env \<Rightarrow> string \<Rightarrow> scheduler \<Rightarrow> scheduler \<times> unit result" where
  "set_scheduler_status E status s =
     save_state E (s\<lparr>sc_state := (sc_state s)\<lparr>is_scheduler_status := status, is_updated_at := se_now E\<rparr>\<rparr>)"

definition start_interval_task :: "sched_env \<Rightarrow> string \<Rightarrow> int \<Rightarrow> scheduler \<Rightarrow> scheduler \<times> unit result" where
  "start_interval_task E task_id initial_delay s =
     (if alive s task_id then (s, Inr ())
      else set_scheduler_status E ''running'' (set_handle task_id (Due (max initial_delay 0)) s))"

text \<open>An assignment to the entry of a task, which has to be there, and the save.\<close>

definition on_task :: "sched_env \<Rightarrow> string \<Rightarrow> (sched_task \<Rightarrow> sched_task) \<Rightarrow> scheduler \<Rightarrow> scheduler \<times> unit result" where
  "on_task E task_id f s =
     (case map_of (is_tasks (sc_state s)) task_id of
        None \<Rightarrow> (s, Inl (ValueError (''unregistered_scheduler_task:'' @ task_id)))
      | Some t \<Rightarrow> save_state E (set_tasks (AList.update task_id (f t) (is_tasks (sc_state s))) s))"

definition mark_task_sleeping :: "sched_env \<Rightarrow> string \<Rightarrow> int \<Rightarrow> scheduler \<Rightarrow> scheduler \<times> unit result" where
  "mark_task_sleeping E task_id delay =
     on_task E task_id (\<lambda>t. t\<lparr>it_running := False, it_status := ''scheduled'', it_current_error := None,
       it_next_run_at := Some (se_in_seconds E (max delay 0)), it_updated_at := se_now E\<rparr>)"

definition mark_task_running :: "sched_env \<Rightarrow> string \<Rightarrow> scheduler \<Rightarrow> scheduler \<times> unit result" where
  "mark_task_running E task_id =
     on_task E task_id (\<lambda>t. t\<lparr>it_running := True, it_status := ''running'', it_last_started_at := Some (se_now E),
       it_attempt_count := it_attempt_count t + 1, it_current_error := None, it_updated_at := se_now E\<rparr>)"

definition mark_task_success :: "sched_env \<Rightarrow> string \<Rightarrow> pydict option \<Rightarrow> scheduler \<Rightarrow> scheduler \<times> unit result" where
  "mark_task_success E task_id res =
     on_task E task_id (\<lambda>t. t\<lparr>it_running := False, it_status := ''healthy'', it_last_success_at := Some (se_now E),
       it_last_completed_at := Some (se_now E), it_last_result := res, it_last_error := None, it_current_error := None,
       it_next_run_at := None, it_consecutive_failures := 0, it_updated_at := se_now E\<rparr>)"

definition mark_task_failure :: "sched_env \<Rightarrow> string \<Rightarrow> string \<Rightarrow> scheduler \<Rightarrow> scheduler \<times> unit result" where
  "mark_task_failure E task_id error =
     on_task E task_id (\<lambda>t. t\<lparr>it_running := False, it_status := ''failing'', it_last_failure_at := Some (se_now E),
       it_last_completed_at := Some (se_now E), it_last_error := Some error, it_current_error := Some error,
       it_next_run_at := None, it_consecutive_failures := it_consecutive_failures t + 1, it_updated_at := se_now E\<rparr>)"

definition mark_task_cancelled :: "sched_env \<Rightarrow> string \<Rightarrow> scheduler \<Rightarrow> scheduler \<times> unit result" where
  "mark_task_cancelled E task_id s =
     (if map_of (is_tasks (sc_state s)) task_id = None then (s, Inr ())
      else on_task E task_id (\<lambda>t. t\<lparr>it_running := False, it_status := ''stopped'', it_current_error := None,
             it_updated_at := se_now E\<rparr>) s)"

text \<open>The sections of a loop. An exception of a mark is not caught: it ends the loop.\<close>

definition or_end :: "string \<Rightarrow> scheduler \<times> unit result \<Rightarrow> (scheduler \<Rightarrow> scheduler) \<Rightarrow> scheduler" where
  "or_end task_id marked k = (case marked of (s, Inr _) \<Rightarrow> k s | (s, Inl e) \<Rightarrow> set_handle task_id (Ended (Some e)) s)"

definition loop_sleep :: "sched_env \<Rightarrow> string \<Rightarrow> int \<Rightarrow> scheduler \<Rightarrow> scheduler" where
  "loop_sleep E task_id delay s = or_end task_id (mark_task_sleeping E task_id delay s) (set_handle task_id Sleeping)"

definition loop_wake :: "sched_env \<Rightarrow> string \<Rightarrow> scheduler \<Rightarrow> scheduler" where
  "loop_wake E task_id s = or_end task_id (mark_task_running E task_id s) (set_handle task_id Working)"

definition next_delay :: "string \<Rightarrow> scheduler \<Rightarrow> int" where
  "next_delay task_id s =
     (case map_of (is_tasks (sc_state s)) task_id of
        None \<Rightarrow> 1
      | Some t \<Rightarrow> max (if it_interval_seconds t = 0 then 1 else it_interval_seconds t) 1)"

text \<open>The operation returned a result, or raised an exception with a text.\<close>

definition loop_finish :: "sched_env \<Rightarrow> string \<Rightarrow> string + pydict option \<Rightarrow> scheduler \<Rightarrow> scheduler" where
  "loop_finish E task_id outcome s =
     or_end task_id
       (case outcome of Inr res \<Rightarrow> mark_task_success E task_id res s | Inl error \<Rightarrow> mark_task_failure E task_id error s)
       (\<lambda>s1. loop_sleep E task_id (next_delay task_id s1) s1)"

text \<open>
  \<open>stop_all\<close>: the handles are taken, every loop is cancelled, which a working one marks itself,
  and each is awaited. Awaiting a loop that ended with an exception raises it. The operations let
  their cancellation through. The sections of the cancelled loops come before the awaits, and no
  other code between them.
\<close>

definition cancel_loop :: "sched_env \<Rightarrow> string \<Rightarrow> loop \<Rightarrow> scheduler \<Rightarrow> exn option \<times> scheduler" where
  "cancel_loop E task_id h s =
     (case h of
        Ended e \<Rightarrow> (e, s)
      | Working \<Rightarrow> (case mark_task_cancelled E task_id s of (s1, Inl e) \<Rightarrow> (Some e, s1) | (s1, Inr _) \<Rightarrow> (None, s1))
      | _ \<Rightarrow> (None, s))"

fun cancel_loops :: "sched_env \<Rightarrow> (string \<times> loop) list \<Rightarrow> scheduler \<Rightarrow> (string \<times> exn option) list \<times> scheduler" where
  "cancel_loops E [] s = ([], s)"
| "cancel_loops E ((task_id, h) # hs) s =
     (case cancel_loop E task_id h s of (e, s1) \<Rightarrow>
      (case cancel_loops E hs s1 of (es, s2) \<Rightarrow> ((task_id, e) # es, s2)))"

fun await_loops :: "sched_env \<Rightarrow> (string \<times> exn option) list \<Rightarrow> scheduler \<Rightarrow> scheduler \<times> unit result" where
  "await_loops E [] s = set_scheduler_status E ''stopped'' s"
| "await_loops E ((task_id, Some e) # es) s = (s, Inl e)"
| "await_loops E ((task_id, None) # es) s =
     (case mark_task_cancelled E task_id s of (s1, Inl e) \<Rightarrow> (s1, Inl e) | (s1, Inr _) \<Rightarrow> await_loops E es s1)"

definition stop_all :: "sched_env \<Rightarrow> scheduler \<Rightarrow> scheduler \<times> unit result" where
  "stop_all E s = (case cancel_loops E (sc_handles s) (s\<lparr>sc_handles := []\<rparr>) of (es, s1) \<Rightarrow> await_loops E es s1)"

definition snapshot :: "scheduler \<Rightarrow> scheduler" where
  "snapshot s = refresh_running_flags s"

section \<open>Runs\<close>

text \<open>What the event loop may run next, with what it does to a task: a run begins, succeeds or fails.\<close>

datatype sched_event = Registers string | Begins string | Succeeds string | Fails string string | Other

inductive sched_step :: "scheduler \<Rightarrow> sched_event \<Rightarrow> scheduler \<Rightarrow> bool" where
  register: "register_interval_task E a s = (s', r) \<Longrightarrow> sched_step s (Registers (ia_task_id a)) s'"
| start: "start_interval_task E task_id delay s = (s', r) \<Longrightarrow> sched_step s Other s'"
| sleep: "map_of (sc_handles s) task_id = Some (Due delay) \<Longrightarrow> sched_step s Other (loop_sleep E task_id delay s)"
| wake: "map_of (sc_handles s) task_id = Some Sleeping \<Longrightarrow> sched_step s (Begins task_id) (loop_wake E task_id s)"
| succeed: "map_of (sc_handles s) task_id = Some Working \<Longrightarrow> sched_step s (Succeeds task_id) (loop_finish E task_id (Inr res) s)"
| fail: "map_of (sc_handles s) task_id = Some Working \<Longrightarrow> sched_step s (Fails task_id error) (loop_finish E task_id (Inl error) s)"
| stop: "stop_all E s = (s', r) \<Longrightarrow> sched_step s Other s'"
| look: "sched_step s Other (snapshot s)"

text \<open>A restart makes a scheduler from the file of this one.\<close>

inductive sched_reachable :: "scheduler \<Rightarrow> bool" where
  created: "new_scheduler E None = Inr s \<Longrightarrow> sched_reachable s"
| bare: "sched_reachable (new_scheduler_without_store E)"
| stepped: "sched_reachable s \<Longrightarrow> sched_step s ev s' \<Longrightarrow> sched_reachable s'"
| restarted: "sched_reachable s \<Longrightarrow> sc_has_store s \<Longrightarrow> new_scheduler E (sc_file s) = Inr s' \<Longrightarrow> sched_reachable s'"

section \<open>Lemmas on the parts\<close>

abbreviation task_at :: "scheduler \<Rightarrow> string \<Rightarrow> sched_task option" where
  "task_at s k \<equiv> map_of (is_tasks (sc_state s)) k"

abbreviation handle_at :: "scheduler \<Rightarrow> string \<Rightarrow> loop option" where
  "handle_at s k \<equiv> map_of (sc_handles s) k"

lemma map_of_map_values: "map_of (map (\<lambda>(k, v). (k, f k v)) xs) k = map_option (f k) (map_of xs k)"
  by (induction xs) auto

lemma set_parts [simp]:
  "is_tasks (sc_state (set_tasks ts s)) = ts" "sc_handles (set_tasks ts s) = sc_handles s"
  "sc_has_store (set_tasks ts s) = sc_has_store s" "sc_file (set_tasks ts s) = sc_file s"
  "is_scheduler_status (sc_state (set_tasks ts s)) = is_scheduler_status (sc_state s)"
  "sc_state (set_handle k h s) = sc_state s" "sc_has_store (set_handle k h s) = sc_has_store s"
  "sc_file (set_handle k h s) = sc_file s" "sc_handles (set_handle k h s) = AList.update k h (sc_handles s)"
  by (simp_all add: set_tasks_def set_handle_def)

lemma alive_set_tasks [simp]: "alive (set_tasks ts s) = alive s"
  by (rule ext) (simp add: alive_def)

definition flagged :: "scheduler \<Rightarrow> string \<Rightarrow> sched_task \<Rightarrow> sched_task" where
  "flagged s k t = t\<lparr>it_running := alive s k\<rparr>"

lemma flagged_fields [simp]:
  "it_status (flagged s k t) = it_status t" "it_current_error (flagged s k t) = it_current_error t"
  "it_next_run_at (flagged s k t) = it_next_run_at t" "it_attempt_count (flagged s k t) = it_attempt_count t"
  "it_consecutive_failures (flagged s k t) = it_consecutive_failures t" "it_last_error (flagged s k t) = it_last_error t"
  "it_running (flagged s k t) = alive s k" "it_interval_seconds (flagged s k t) = it_interval_seconds t"
  "it_enabled (flagged s k t) = it_enabled t"
  by (simp_all add: flagged_def)

lemma refresh_facts:
  "task_at (refresh_running_flags s) k = map_option (flagged s k) (task_at s k)"
  "sc_handles (refresh_running_flags s) = sc_handles s" "sc_has_store (refresh_running_flags s) = sc_has_store s"
  "sc_file (refresh_running_flags s) = sc_file s"
  "is_scheduler_status (sc_state (refresh_running_flags s)) = is_scheduler_status (sc_state s)"
  by (simp_all add: refresh_running_flags_def flagged_def [abs_def] map_of_map_values)

lemma refresh_keys: "map fst (is_tasks (sc_state (refresh_running_flags s))) = map fst (is_tasks (sc_state s))"
  by (simp add: refresh_running_flags_def split_beta comp_def)

text \<open>What a save leaves as it is, and what the file is after it.\<close>

lemma save_facts:
  assumes "save_state E s = (s', r)"
  shows "task_at s' k = map_option (flagged s k) (task_at s k)" and "sc_handles s' = sc_handles s"
    and "sc_has_store s' = sc_has_store s" and "is_scheduler_status (sc_state s') = is_scheduler_status (sc_state s)"
    and "sc_file s' = sc_file s \<or>
      (\<exists>n. normalize_internal_scheduler_state (se_now E) (state_value (sc_state s')) = Inr n \<and> sc_file s' = Some (state_value n))"
    and "map fst (is_tasks (sc_state s')) = map fst (is_tasks (sc_state s))"
proof -
  let ?s1 = "refresh_running_flags s"
  let ?s2 = "?s1\<lparr>sc_state := (sc_state ?s1)\<lparr>is_updated_at := se_now E\<rparr>\<rparr>"
  have s: "s' = ?s2 \<or> (\<exists>n. normalize_internal_scheduler_state (se_now E) (state_value (sc_state ?s2)) = Inr n \<and>
      s' = ?s2\<lparr>sc_file := Some (state_value n)\<rparr>)"
    using assms by (auto simp: save_state_def Let_def split: if_splits sum.splits)
  then have p: "sc_state s' = sc_state ?s2" "sc_handles s' = sc_handles ?s2" "sc_has_store s' = sc_has_store ?s2" by auto
  show "task_at s' k = map_option (flagged s k) (task_at s k)" "sc_handles s' = sc_handles s" "sc_has_store s' = sc_has_store s"
    "is_scheduler_status (sc_state s') = is_scheduler_status (sc_state s)"
    "map fst (is_tasks (sc_state s')) = map fst (is_tasks (sc_state s))"
    using p by (simp_all add: refresh_facts refresh_keys)
  show "sc_file s' = sc_file s \<or>
      (\<exists>n. normalize_internal_scheduler_state (se_now E) (state_value (sc_state s')) = Inr n \<and> sc_file s' = Some (state_value n))"
    using s p by (auto simp: refresh_facts)
qed

lemma on_task_facts:
  assumes "on_task E tid f s = (s', r)"
  shows "task_at s' k = (if task_at s tid = None then task_at s k
      else if k = tid then map_option (\<lambda>t. flagged s k (f t)) (task_at s k) else map_option (flagged s k) (task_at s k))"
    and "sc_handles s' = sc_handles s" and "sc_has_store s' = sc_has_store s"
    and "is_scheduler_status (sc_state s') = is_scheduler_status (sc_state s)"
    and "task_at s tid = None \<Longrightarrow> s' = s \<and> r = Inl (ValueError (''unregistered_scheduler_task:'' @ tid))"
proof -
  have "task_at s tid = None \<or> (\<exists>t. task_at s tid = Some t)" by auto
  then consider "task_at s tid = None" "s' = s" "r = Inl (ValueError (''unregistered_scheduler_task:'' @ tid))"
    | t where "task_at s tid = Some t" "save_state E (set_tasks (AList.update tid (f t) (is_tasks (sc_state s))) s) = (s', r)"
    using assms by (auto simp: on_task_def)
  note c = this
  have fl: "flagged (set_tasks ts s) = flagged s" for ts by (simp add: flagged_def fun_eq_iff)
  show "task_at s' k = (if task_at s tid = None then task_at s k
      else if k = tid then map_option (\<lambda>t. flagged s k (f t)) (task_at s k) else map_option (flagged s k) (task_at s k))"
    using c by cases (simp_all add: save_facts(1) fl update_conv')
  show "sc_handles s' = sc_handles s" "sc_has_store s' = sc_has_store s"
    "is_scheduler_status (sc_state s') = is_scheduler_status (sc_state s)"
    using c by (cases; simp add: save_facts)+
  show "task_at s tid = None \<Longrightarrow> s' = s \<and> r = Inl (ValueError (''unregistered_scheduler_task:'' @ tid))"
    using c by cases auto
qed

section \<open>The file keeps the tasks\<close>

definition text_again :: "string option \<Rightarrow> string option" where
  "text_again v = Option.bind v (\<lambda>s. none_if_empty (py_strip s))"

lemma text_of_opt_str [simp]: "text_of (opt_str v) = text_again v"
  by (cases v) (simp_all add: text_of_def text_again_def)

lemma text_again_twice [simp]: "text_again (text_again v) = text_again v"
  by (cases v) (auto simp: text_again_def none_if_empty_def)

lemma int_or_zero_PInt [simp]: "int_or_zero (PInt i) = Inr i"
  by (simp add: int_or_zero_def py_or_def)

text \<open>What the file keeps of a task, read back.\<close>

lemma normalize_task_value:
  "\<exists>t'. normalize_task now k (task_value t) = Inr t' \<and>
     it_attempt_count t' = max (it_attempt_count t) 0 \<and> it_consecutive_failures t' = max (it_consecutive_failures t) 0 \<and>
     it_interval_seconds t' = it_interval_seconds t \<and> it_enabled t' = it_enabled t \<and>
     it_last_error t' = text_again (it_last_error t) \<and> it_status t' = text_else (PStr (it_status t)) ''idle''"
  by (simp add: normalize_task_def task_value_def dget_Cons dget_or_def)

definition tasks_value :: "(string \<times> sched_task) list \<Rightarrow> pydict" where
  "tasks_value ts = map (\<lambda>(k, t). (k, PDict (task_value t))) ts"

lemma tasks_value_simps [simp]:
  "tasks_value [] = []" "tasks_value ((k, t) # ts) = (k, PDict (task_value t)) # tasks_value ts"
  by (simp_all add: tasks_value_def)

lemma normalize_state_value:
  "normalize_internal_scheduler_state now (state_value s) =
     ebind (normalize_tasks now (tasks_value (is_tasks s)) []) (\<lambda>ts.
     Inr \<lparr>is_scheduler_status = text_else (PStr (is_scheduler_status s)) ''idle'', is_tasks = ts,
          is_updated_at = str_or (PStr (is_updated_at s)) now\<rparr>)"
  by (simp add: normalize_internal_scheduler_state_def state_value_def dget_Cons tasks_value_def [symmetric])
    (simp add: norm_simps py_strip_def py_lstrip_def py_isspace_def Let_def)

lemma normalize_tasks_mem:
  "normalize_tasks now (tasks_value ts) acc = Inr ts' \<Longrightarrow> (k', t') \<in> set ts' \<Longrightarrow>
     (k', t') \<in> set acc \<or> (\<exists>(k, t)\<in>set ts. normalize_task now k (task_value t) = Inr t' \<and> k' = py_strip k)"
proof (induction ts arbitrary: acc)
  case (Cons p ts)
  obtain k t where p: "p = (k, t)" by (cases p)
  from Cons.prems(1) obtain u where u: "py_strip k \<noteq> []" "normalize_task now k (task_value t) = Inr u"
    "normalize_tasks now (tasks_value ts) (AList.update (py_strip k) u acc) = Inr ts'"
    by (auto simp: p ebind_Inr_conv split: if_splits)
  from Cons.IH [OF u(3) Cons.prems(2)] show ?case using u(2) by (auto simp: p dest: set_AList_update)
qed simp

definition counts_ok :: "sched_task \<Rightarrow> bool" where
  "counts_ok t = (0 \<le> it_consecutive_failures t \<and> it_consecutive_failures t \<le> it_attempt_count t)"

lemma normalized_counts_ok:
  assumes "normalize_internal_scheduler_state now (state_value s) = Inr n" and "\<forall>(k, t)\<in>set (is_tasks s). counts_ok t"
  shows "\<forall>(k, t)\<in>set (is_tasks n). counts_ok t"
proof (intro ballI, clarify)
  fix k t assume "(k, t) \<in> set (is_tasks n)"
  moreover have "normalize_tasks now (tasks_value (is_tasks s)) [] = Inr (is_tasks n)"
    using assms(1) by (auto simp: normalize_state_value ebind_Inr_conv)
  ultimately obtain k0 t0 where m: "(k0, t0) \<in> set (is_tasks s)" "normalize_task now k0 (task_value t0) = Inr t"
    using normalize_tasks_mem [of now "is_tasks s" "[]"] by fastforce
  then show "counts_ok t" using normalize_task_value [of now k0 t0] assms(2) by (fastforce simp: counts_ok_def)
qed

section \<open>The invariant\<close>

text \<open>
  A task in the light of its loop: a sleeping loop has a scheduled task without an error, a working
  one a running task; a working loop has begun one run more than it has failed in a row.
\<close>

definition task_ok :: "loop option \<Rightarrow> sched_task \<Rightarrow> bool" where
  "task_ok h t =
     (counts_ok t \<and>
      (h = Some Sleeping \<longrightarrow> it_status t = ''scheduled'' \<and> it_current_error t = None \<and> it_next_run_at t \<noteq> None) \<and>
      (h = Some Working \<longrightarrow> it_status t = ''running'' \<and> it_current_error t = None \<and> it_consecutive_failures t < it_attempt_count t))"

definition tasks_ok :: "scheduler \<Rightarrow> bool" where
  "tasks_ok s =
     ((\<forall>k t. task_at s k = Some t \<longrightarrow> task_ok (handle_at s k) t) \<and>
      (\<forall>k. handle_at s k \<in> {Some Sleeping, Some Working} \<longrightarrow> task_at s k \<noteq> None))"

definition file_ok :: "pyval option \<Rightarrow> bool" where
  "file_ok file = (\<forall>v. file = Some v \<longrightarrow> (\<exists>n. v = state_value n \<and> (\<forall>(k, t)\<in>set (is_tasks n). counts_ok t)))"

text \<open>What holds in the middle of a section too: of all tasks, of the file, and of the tasks but one.\<close>

definition counted :: "scheduler \<Rightarrow> bool" where
  "counted s =
     (distinct (map fst (is_tasks (sc_state s))) \<and> (\<forall>k t. task_at s k = Some t \<longrightarrow> counts_ok t) \<and> file_ok (sc_file s))"

definition task_fits :: "scheduler \<Rightarrow> string \<Rightarrow> bool" where
  "task_fits s k =
     ((\<forall>t. task_at s k = Some t \<longrightarrow> task_ok (handle_at s k) t) \<and>
      (handle_at s k \<in> {Some Sleeping, Some Working} \<longrightarrow> task_at s k \<noteq> None))"

definition inv_but :: "string \<Rightarrow> scheduler \<Rightarrow> bool" where
  "inv_but k s = (counted s \<and> (\<forall>k'. k' \<noteq> k \<longrightarrow> task_fits s k'))"

definition sched_inv :: "scheduler \<Rightarrow> bool" where
  "sched_inv s = (counted s \<and> (\<forall>k. task_fits s k))"

lemma inv_but_weaken: "sched_inv s \<Longrightarrow> inv_but k s"
  by (simp add: sched_inv_def inv_but_def)

lemma inv_but_fits: "inv_but k s \<Longrightarrow> task_fits s k \<Longrightarrow> sched_inv s"
  unfolding sched_inv_def inv_but_def by metis

lemma counts_flagged [simp]: "counts_ok (flagged s k t) = counts_ok t"
  by (simp add: counts_ok_def)

lemma task_ok_flagged [simp]: "task_ok h (flagged s k t) = task_ok h t"
  by (simp add: task_ok_def)

lemma save_counted:
  assumes "save_state E s = (s', r)" and "counted s"
  shows "counted s'"
proof -
  note f = save_facts [OF assms(1)]
  have d: "distinct (map fst (is_tasks (sc_state s')))" using assms(2) by (simp add: counted_def f(6))
  have c: "\<forall>k t. task_at s' k = Some t \<longrightarrow> counts_ok t" using assms(2) by (auto simp: counted_def f(1))
  have "file_ok (sc_file s')"
  proof (cases "sc_file s' = sc_file s")
    case False
    then obtain n where n: "normalize_internal_scheduler_state (se_now E) (state_value (sc_state s')) = Inr n"
      "sc_file s' = Some (state_value n)" using f(5) by auto
    have "\<forall>(k, t)\<in>set (is_tasks (sc_state s')). counts_ok t" using c map_of_is_SomeI [OF d] by blast
    then show ?thesis using normalized_counts_ok [OF n(1)] n(2) by (auto simp: file_ok_def)
  qed (use assms(2) in \<open>simp add: counted_def\<close>)
  then show ?thesis using d c by (simp add: counted_def)
qed

lemma save_fits: "save_state E s = (s', r) \<Longrightarrow> task_fits s' k = task_fits s k"
  by (cases "task_at s k") (simp_all add: task_fits_def save_facts)

lemma save_inv: "save_state E s = (s', r) \<Longrightarrow> sched_inv s \<Longrightarrow> sched_inv s'"
  using save_counted [of E s s' r] save_fits [of E s s' r] by (simp add: sched_inv_def)

lemma put_task_counted: "counted s \<Longrightarrow> counts_ok t \<Longrightarrow> counted (set_tasks (AList.update k t (is_tasks (sc_state s))) s)"
  by (auto simp: counted_def update_conv' distinct_update split: if_splits)

lemma put_task_fits:
  "k' \<noteq> k \<Longrightarrow> task_fits (set_tasks (AList.update k t (is_tasks (sc_state s))) s) k' = task_fits s k'"
  by (simp add: task_fits_def update_conv')

text \<open>An assignment to a task, in the middle of a section of its loop.\<close>

lemma on_task_but:
  assumes "on_task E k f s = (s', r)" and "inv_but k s" and "\<And>t. task_at s k = Some t \<Longrightarrow> counts_ok (f t)"
  shows "inv_but k s'"
proof (cases "task_at s k")
  case (Some t)
  let ?s1 = "set_tasks (AList.update k (f t) (is_tasks (sc_state s))) s"
  have sv: "save_state E ?s1 = (s', r)" using assms(1) Some by (simp add: on_task_def)
  have "counted ?s1" using assms(2,3) Some by (simp add: inv_but_def put_task_counted)
  then have "counted s'" by (rule save_counted [OF sv])
  then show ?thesis using assms(2) by (simp add: inv_but_def save_fits [OF sv] put_task_fits)
qed (use assms in \<open>auto simp: on_task_def\<close>)

lemma but_handle:
  assumes "inv_but k s" and "\<And>t. task_at s k = Some t \<Longrightarrow> counts_ok t \<Longrightarrow> task_ok (Some h) t"
    and "h \<in> {Sleeping, Working} \<Longrightarrow> task_at s k \<noteq> None"
  shows "sched_inv (set_handle k h s)"
  using assms by (auto simp: sched_inv_def inv_but_def task_fits_def counted_def update_conv')

lemma but_end: "inv_but k s \<Longrightarrow> sched_inv (set_handle k (Ended e) s)"
  by (rule but_handle) (simp_all add: task_ok_def)

lemma but_due: "inv_but k s \<Longrightarrow> sched_inv (set_handle k (Due d) s)"
  by (rule but_handle) (simp_all add: task_ok_def)

text \<open>The sections of a loop.\<close>

lemma on_task_result: "on_task E k f s = (s', Inr u) \<Longrightarrow> \<exists>t. task_at s k = Some t \<and> task_at s' k = Some (flagged s k (f t))"
  using on_task_facts(1) [of E k f s s' "Inr u" k] by (cases "task_at s k") (auto simp: on_task_def)

lemma section_inv:
  assumes "on_task E k f s = m" and "inv_but k s" and "\<And>t. task_at s k = Some t \<Longrightarrow> counts_ok (f t)"
    and "\<And>s' u. m = (s', Inr u) \<Longrightarrow> inv_but k s' \<Longrightarrow> sched_inv (g s')"
  shows "sched_inv (or_end k m g)"
proof -
  obtain s' r where m: "m = (s', r)" by (cases m)
  have b: "inv_but k s'" using on_task_but [OF assms(1) [unfolded m] assms(2,3)] .
  show ?thesis
  proof (cases r)
    case (Inl e)
    then show ?thesis using but_end [OF b] by (simp add: or_end_def m)
  next
    case (Inr u)
    then show ?thesis using assms(4) [of s' u] b by (simp add: or_end_def m)
  qed
qed

lemma loop_sleep_inv:
  assumes "inv_but k s"
  shows "sched_inv (loop_sleep E k d s)"
  unfolding loop_sleep_def mark_task_sleeping_def
proof (rule section_inv [OF refl assms])
  fix t assume "task_at s k = Some t"
  then have "counts_ok t" using assms by (auto simp: inv_but_def counted_def)
  then show "counts_ok (t\<lparr>it_running := False, it_status := ''scheduled'', it_current_error := None,
      it_next_run_at := Some (se_in_seconds E (max d 0)), it_updated_at := se_now E\<rparr>)" by (simp add: counts_ok_def)
next
  fix s' u
  assume m: "on_task E k (\<lambda>t. t\<lparr>it_running := False, it_status := ''scheduled'', it_current_error := None,
      it_next_run_at := Some (se_in_seconds E (max d 0)), it_updated_at := se_now E\<rparr>) s = (s', Inr u)" and b: "inv_but k s'"
  from on_task_result [OF m] show "sched_inv (set_handle k Sleeping s')"
    by (intro but_handle [OF b]) (auto simp: task_ok_def)
qed

lemma loop_wake_inv:
  assumes "sched_inv s"
  shows "sched_inv (loop_wake E k s)"
  unfolding loop_wake_def mark_task_running_def
proof (rule section_inv [OF refl inv_but_weaken [OF assms]])
  fix t assume "task_at s k = Some t"
  then have "counts_ok t" using assms by (auto simp: sched_inv_def counted_def)
  then show "counts_ok (t\<lparr>it_running := True, it_status := ''running'', it_last_started_at := Some (se_now E),
       it_attempt_count := it_attempt_count t + 1, it_current_error := None, it_updated_at := se_now E\<rparr>)" by (simp add: counts_ok_def)
next
  fix s' u
  assume m: "on_task E k (\<lambda>t. t\<lparr>it_running := True, it_status := ''running'', it_last_started_at := Some (se_now E),
       it_attempt_count := it_attempt_count t + 1, it_current_error := None, it_updated_at := se_now E\<rparr>) s = (s', Inr u)"
    and b: "inv_but k s'"
  obtain t where t: "task_at s k = Some t" "counts_ok t"
    using on_task_result [OF m] assms by (auto simp: sched_inv_def counted_def)
  with on_task_result [OF m] show "sched_inv (set_handle k Working s')"
    by (intro but_handle [OF b]) (auto simp: task_ok_def counts_ok_def)
qed

lemma loop_finish_inv:
  assumes "sched_inv s" and "handle_at s k = Some Working"
  shows "sched_inv (loop_finish E k outcome s)"
proof -
  have c: "0 \<le> it_consecutive_failures t" "it_consecutive_failures t < it_attempt_count t" if "task_at s k = Some t" for t
    using assms that by (auto simp: sched_inv_def task_fits_def task_ok_def counts_ok_def)
  show ?thesis
  proof (cases outcome)
    case (Inl error)
    show ?thesis unfolding loop_finish_def Inl sum.case mark_task_failure_def
      by (rule section_inv [OF refl inv_but_weaken [OF assms(1)]]) (use c in \<open>auto simp: counts_ok_def intro: loop_sleep_inv\<close>)
  next
    case (Inr res)
    show ?thesis unfolding loop_finish_def Inr sum.case mark_task_success_def
      by (rule section_inv [OF refl inv_but_weaken [OF assms(1)]]) (use c in \<open>fastforce simp: counts_ok_def intro: loop_sleep_inv\<close>)+
  qed
qed

text \<open>Registering, starting, stopping.\<close>

lemma sched_register_inv:
  assumes "register_interval_task E a s = (s', r)" and "sched_inv s"
  shows "sched_inv s'"
proof -
  let ?k = "ia_task_id a" and ?t = "registered_task E a s"
  let ?s1 = "set_tasks (AList.update ?k ?t (is_tasks (sc_state s))) s"
  have t: "it_attempt_count ?t = (case task_at s ?k of Some t \<Rightarrow> it_attempt_count t | None \<Rightarrow> 0)"
    "it_consecutive_failures ?t = (case task_at s ?k of Some t \<Rightarrow> it_consecutive_failures t | None \<Rightarrow> 0)"
    "it_current_error ?t = (case task_at s ?k of Some t \<Rightarrow> it_current_error t | None \<Rightarrow> None)"
    "it_next_run_at ?t = (case task_at s ?k of Some t \<Rightarrow> it_next_run_at t | None \<Rightarrow> None)"
    "\<And>t. task_at s ?k = Some t \<Longrightarrow> it_status t \<noteq> [] \<Longrightarrow> it_status ?t = it_status t"
    by (simp_all add: registered_task_def blank_task_def Let_def split: prod.split option.split)
  have ok: "counts_ok ?t" and fit: "task_fits s ?k"
    using assms(2) by (auto simp: sched_inv_def counted_def counts_ok_def t split: option.split)
  have "task_ok (handle_at s ?k) ?t"
    using fit ok by (cases "task_at s ?k") (auto simp: task_fits_def task_ok_def t)
  then have "task_fits ?s1 ?k" by (simp add: task_fits_def update_conv')
  moreover have "inv_but ?k ?s1" using assms(2) ok by (simp add: sched_inv_def inv_but_def put_task_counted put_task_fits)
  ultimately have "sched_inv ?s1" by (rule inv_but_fits [rotated])
  then show ?thesis using save_inv assms(1) by (auto simp: register_interval_task_def)
qed

lemma status_parts [simp]:
  fixes s :: scheduler
  shows "task_at (s\<lparr>sc_state := (sc_state s)\<lparr>is_scheduler_status := x, is_updated_at := y\<rparr>\<rparr>) k = task_at s k"
  by simp

lemma set_status_inv:
  assumes "set_scheduler_status E x s = (s', r)" and "sched_inv s"
  shows "sched_inv s'" and "sc_handles s' = sc_handles s" and "r = Inr u \<Longrightarrow> is_scheduler_status (sc_state s') = x"
proof -
  let ?s1 = "s\<lparr>sc_state := (sc_state s)\<lparr>is_scheduler_status := x, is_updated_at := se_now E\<rparr>\<rparr>"
  have sv: "save_state E ?s1 = (s', r)" using assms(1) by (simp add: set_scheduler_status_def)
  have "counted ?s1 = counted s" "\<And>k. task_fits ?s1 k = task_fits s k" by (simp_all add: counted_def task_fits_def)
  then have "sched_inv ?s1" using assms(2) by (simp add: sched_inv_def)
  then show "sched_inv s'" by (rule save_inv [OF sv])
  show "sc_handles s' = sc_handles s" "r = Inr u \<Longrightarrow> is_scheduler_status (sc_state s') = x"
    using save_facts(2,4) [OF sv] by simp_all
qed

lemma sched_start_inv:
  assumes "start_interval_task E k d s = (s', r)" and "sched_inv s"
  shows "sched_inv s'"
proof (cases "alive s k")
  case False
  have "sched_inv (set_handle k (Due (max d 0)) s)" by (rule but_due [OF inv_but_weaken [OF assms(2)]])
  then show ?thesis using assms(1) False set_status_inv(1) by (auto simp: start_interval_task_def)
qed (use assms in \<open>auto simp: start_interval_task_def\<close>)

lemma mark_cancelled_inv:
  assumes "mark_task_cancelled E k s = (s', r)" and "sched_inv s" and "sc_handles s = []"
  shows "sched_inv s' \<and> sc_handles s' = []"
proof (cases "task_at s k")
  case None
  then show ?thesis using assms by (simp add: mark_task_cancelled_def)
next
  case (Some t)
  let ?f = "\<lambda>t. t\<lparr>it_running := False, it_status := ''stopped'', it_current_error := None, it_updated_at := se_now E\<rparr>"
  have m: "on_task E k ?f s = (s', r)" using assms(1) Some by (simp add: mark_task_cancelled_def)
  have "counts_ok t" using assms(2) Some by (auto simp: sched_inv_def counted_def)
  then have b: "inv_but k s'" by (intro on_task_but [OF m inv_but_weaken [OF assms(2)]]) (simp add: Some counts_ok_def)
  have h: "sc_handles s' = []" using on_task_facts(2) [OF m] assms(3) by simp
  then have "task_fits s' k" using b by (auto simp: inv_but_def counted_def task_fits_def task_ok_def)
  then show ?thesis using inv_but_fits [OF b] h by simp
qed

lemma cancel_loop_inv:
  "cancel_loop E k h s = (e, s') \<Longrightarrow> sched_inv s \<Longrightarrow> sc_handles s = [] \<Longrightarrow> sched_inv s' \<and> sc_handles s' = []"
  using mark_cancelled_inv [of E k s] by (cases h) (auto simp: cancel_loop_def split: prod.splits sum.splits)

lemma cancel_loops_inv:
  "cancel_loops E hs s = (es, s') \<Longrightarrow> sched_inv s \<Longrightarrow> sc_handles s = [] \<Longrightarrow> sched_inv s' \<and> sc_handles s' = []"
proof (induction hs arbitrary: es s)
  case (Cons p hs)
  obtain k h where p: "p = (k, h)" by (cases p)
  obtain e s1 where c: "cancel_loop E k h s = (e, s1)" by fastforce
  obtain es1 s2 where r: "cancel_loops E hs s1 = (es1, s2)" by fastforce
  have "s' = s2" using Cons.prems(1) by (simp add: p c r)
  then show ?case using Cons.IH [OF r [folded \<open>s' = s2\<close>]] cancel_loop_inv [OF c Cons.prems(2,3)] by simp
qed simp

lemma await_loops_inv:
  "await_loops E es s = (s', r) \<Longrightarrow> sched_inv s \<Longrightarrow> sc_handles s = [] \<Longrightarrow> sched_inv s' \<and> sc_handles s' = []"
proof (induction E es s rule: await_loops.induct)
  case (1 E s)
  then show ?case using set_status_inv(1,2) by simp
next
  case (3 E k es s)
  obtain s1 r1 where m: "mark_task_cancelled E k s = (s1, r1)" by fastforce
  have i: "sched_inv s1 \<and> sc_handles s1 = []" by (rule mark_cancelled_inv [OF m "3.prems"(2,3)])
  show ?case
  proof (cases r1)
    case (Inr u)
    then show ?thesis using "3.IH" [OF m [symmetric] Inr] "3.prems"(1) i m by simp
  qed (use "3.prems"(1) i m in auto)
qed auto

lemma sched_stop_inv:
  assumes "stop_all E s = (s', r)" and "sched_inv s"
  shows "sched_inv s'" and "sc_handles s' = []"
proof -
  let ?s0 = "s\<lparr>sc_handles := []\<rparr>"
  obtain es s1 where c: "cancel_loops E (sc_handles s) ?s0 = (es, s1)" by fastforce
  have "counted ?s0 = counted s" by (simp add: counted_def)
  then have "sched_inv ?s0" using assms(2) by (auto simp: sched_inv_def task_fits_def task_ok_def)
  then have "sched_inv s1 \<and> sc_handles s1 = []" by (intro cancel_loops_inv [OF c]) simp_all
  then show "sched_inv s'" "sc_handles s' = []"
    using await_loops_inv [of E es s1 s' r] assms(1) c by (simp_all add: stop_all_def)
qed

lemma normalize_tasks_distinct:
  "normalize_tasks now d acc = Inr ts \<Longrightarrow> distinct (map fst acc) \<Longrightarrow> distinct (map fst ts)"
  by (induction now d acc arbitrary: ts rule: normalize_tasks.induct)
    (auto simp: ebind_Inr_conv distinct_update split: pyval.splits if_splits)

lemma created_inv:
  assumes "new_scheduler E file = Inr s" and "file_ok file"
  shows "sched_inv s" and "sc_handles s = []" and "sc_has_store s"
proof -
  obtain n f where n: "load_or_create E file = Inr (n, f)" and s: "s = \<lparr>sc_state = n, sc_handles = [], sc_has_store = True, sc_file = f\<rparr>"
    using assms(1) by (auto simp: new_scheduler_def ebind_Inr_conv)
  show "sc_handles s = []" "sc_has_store s" using s by simp_all
  have "file_ok f \<and> distinct (map fst (is_tasks n)) \<and> (\<forall>(k, t)\<in>set (is_tasks n). counts_ok t)"
  proof (cases "\<exists>v. file = Some v \<and> normalize_internal_scheduler_state (se_now E) v = Inr n")
    case True
    then obtain m where m: "file = Some (state_value m)" "normalize_internal_scheduler_state (se_now E) (state_value m) = Inr n"
      "\<forall>(k, t)\<in>set (is_tasks m). counts_ok t" using assms(2) by (auto simp: file_ok_def)
    have "f = file" using n m(1,2) by (auto simp: load_or_create_def store_load_def)
    moreover have "distinct (map fst (is_tasks n))"
      using m(2) normalize_tasks_distinct [of "se_now E" "tasks_value (is_tasks m)" "[]"]
      by (auto simp: normalize_state_value ebind_Inr_conv)
    ultimately show ?thesis using normalized_counts_ok [OF m(2,3)] assms(2) by simp
  next
    case False
    then have "n = create_internal_scheduler_state (se_now E) \<and> f = Some (state_value n)"
      using n by (auto simp: load_or_create_def store_load_def ebind_Inr_conv Let_def split: option.splits sum.splits exn.splits if_splits)
    then show ?thesis by (auto simp: create_internal_scheduler_state_def file_ok_def)
  qed
  then show "sched_inv s" by (auto simp: s sched_inv_def counted_def task_fits_def task_ok_def dest: map_of_SomeD)
qed

lemma snapshot_inv: "sched_inv s \<Longrightarrow> sched_inv (snapshot s)"
  by (auto simp: snapshot_def sched_inv_def counted_def task_fits_def refresh_facts refresh_keys)

lemma sched_step_inv: "sched_step s ev s' \<Longrightarrow> sched_inv s \<Longrightarrow> sched_inv s'"
proof (induction rule: sched_step.induct)
  case (sleep s k d E)
  then show ?case by (intro loop_sleep_inv inv_but_weaken)
qed (blast intro: sched_register_inv sched_start_inv loop_wake_inv loop_finish_inv sched_stop_inv(1) snapshot_inv)+

lemma sched_reachable_inv: "sched_reachable s \<Longrightarrow> sched_inv s"
proof (induction rule: sched_reachable.induct)
  case (created E s)
  then show ?case by (rule created_inv) (simp add: file_ok_def)
next
  case (bare E)
  then show ?case
    by (simp add: new_scheduler_without_store_def create_internal_scheduler_state_def sched_inv_def counted_def task_fits_def file_ok_def)
next
  case (stepped s ev s')
  then show ?case by (blast intro: sched_step_inv)
next
  case (restarted s E s')
  then show ?case by (intro created_inv(1)) (auto simp: sched_inv_def counted_def)
qed

section \<open>The counters tell what happened\<close>

text \<open>The counters of a task, and what an event does to them.\<close>

definition tally :: "sched_task \<Rightarrow> int \<times> int \<times> string option" where
  "tally t = (it_attempt_count t, it_consecutive_failures t, it_last_error t)"

definition tallies :: "scheduler \<Rightarrow> string \<Rightarrow> (int \<times> int \<times> string option) option" where
  "tallies s k = map_option tally (task_at s k)"

fun counted_event :: "sched_event \<Rightarrow> (string \<Rightarrow> (int \<times> int \<times> string option) option) \<Rightarrow> string \<Rightarrow> (int \<times> int \<times> string option) option" where
  "counted_event (Registers k) V = V(k \<mapsto> (case V k of Some v \<Rightarrow> v | None \<Rightarrow> (0, 0, None)))"
| "counted_event (Begins k) V = V(k := map_option (\<lambda>(a, f, e). (a + 1, f, e)) (V k))"
| "counted_event (Succeeds k) V = V(k := map_option (\<lambda>(a, f, e). (a, 0, None)) (V k))"
| "counted_event (Fails k error) V = V(k := map_option (\<lambda>(a, f, e). (a, f + 1, Some error)) (V k))"
| "counted_event Other V = V"

lemma tally_flagged [simp]: "tally (flagged s k t) = tally t"
  by (simp add: tally_def)

lemma tallies_handle [simp]: "tallies (set_handle k h s) = tallies s"
  by (simp add: tallies_def fun_eq_iff)

lemma save_tallies: "save_state E s = (s', r) \<Longrightarrow> tallies s' = tallies s"
  by (rule ext, rename_tac k, case_tac "task_at s k") (simp_all add: tallies_def save_facts(1))

lemma on_task_tallies:
  assumes "on_task E k f s = (s', r)" and "\<And>t. tally (f t) = g (tally t)"
  shows "tallies s' = (tallies s)(k := map_option g (tallies s k))"
proof
  fix k'
  show "tallies s' k' = ((tallies s)(k := map_option g (tallies s k))) k'"
    using on_task_facts(1) [OF assms(1), of k'] assms(2)
    by (cases "task_at s k'"; cases "task_at s k") (auto simp: tallies_def)
qed

lemma on_task_same: "on_task E k f s = (s', r) \<Longrightarrow> (\<And>t. tally (f t) = tally t) \<Longrightarrow> tallies s' = tallies s"
  by (drule on_task_tallies [where g = "\<lambda>v. v"]) (auto simp: option.map_ident)

lemma or_end_tallies: "(\<And>s. tallies (g s) = tallies s) \<Longrightarrow> tallies (or_end k m g) = tallies (fst m)"
  by (auto simp: or_end_def split: prod.split sum.split)

lemma loop_sleep_tallies: "tallies (loop_sleep E k d s) = tallies s"
proof -
  obtain s' r where m: "mark_task_sleeping E k d s = (s', r)" by fastforce
  have "tallies s' = tallies s" by (rule on_task_same [OF m [unfolded mark_task_sleeping_def]]) (simp add: tally_def)
  then show ?thesis by (simp add: loop_sleep_def or_end_tallies m)
qed

lemma loop_wake_tallies: "tallies (loop_wake E k s) = counted_event (Begins k) (tallies s)"
proof -
  obtain s' r where m: "mark_task_running E k s = (s', r)" by fastforce
  have "tallies s' = (tallies s)(k := map_option (\<lambda>(a, f, e). (a + 1, f, e)) (tallies s k))"
    by (rule on_task_tallies [OF m [unfolded mark_task_running_def]]) (simp add: tally_def)
  then show ?thesis by (simp add: loop_wake_def or_end_tallies m)
qed

lemma loop_finish_tallies:
  "tallies (loop_finish E k (Inr res) s) = counted_event (Succeeds k) (tallies s)"
  "tallies (loop_finish E k (Inl error) s) = counted_event (Fails k error) (tallies s)"
proof -
  obtain s' r where m: "mark_task_success E k res s = (s', r)" by fastforce
  have "tallies s' = (tallies s)(k := map_option (\<lambda>(a, f, e). (a, 0, None)) (tallies s k))"
    by (rule on_task_tallies [OF m [unfolded mark_task_success_def]]) (simp add: tally_def)
  then show "tallies (loop_finish E k (Inr res) s) = counted_event (Succeeds k) (tallies s)"
    by (simp add: loop_finish_def or_end_tallies loop_sleep_tallies m)
next
  obtain s' r where m: "mark_task_failure E k error s = (s', r)" by fastforce
  have "tallies s' = (tallies s)(k := map_option (\<lambda>(a, f, e). (a, f + 1, Some error)) (tallies s k))"
    by (rule on_task_tallies [OF m [unfolded mark_task_failure_def]]) (simp add: tally_def)
  then show "tallies (loop_finish E k (Inl error) s) = counted_event (Fails k error) (tallies s)"
    by (simp add: loop_finish_def or_end_tallies loop_sleep_tallies m)
qed

lemma mark_cancelled_tallies: "mark_task_cancelled E k s = (s', r) \<Longrightarrow> tallies s' = tallies s"
  unfolding mark_task_cancelled_def by (auto elim!: on_task_same simp: tally_def split: if_splits)

lemma cancel_loop_tallies: "cancel_loop E k h s = (e, s') \<Longrightarrow> tallies s' = tallies s"
  by (cases h) (auto simp: cancel_loop_def dest: mark_cancelled_tallies split: prod.splits sum.splits)

lemma cancel_loops_tallies: "cancel_loops E hs s = (es, s') \<Longrightarrow> tallies s' = tallies s"
proof (induction hs arbitrary: es s)
  case (Cons p hs)
  obtain k h where p: "p = (k, h)" by (cases p)
  obtain e s1 where c: "cancel_loop E k h s = (e, s1)" by fastforce
  obtain es1 s2 where r: "cancel_loops E hs s1 = (es1, s2)" by fastforce
  have "s' = s2" using Cons.prems(1) by (simp add: p c r)
  then show ?case using Cons.IH [OF r [folded \<open>s' = s2\<close>]] cancel_loop_tallies [OF c] by simp
qed simp

lemma set_status_tallies: "set_scheduler_status E x s = (s', r) \<Longrightarrow> tallies s' = tallies s"
  unfolding set_scheduler_status_def by (drule save_tallies) (simp add: tallies_def fun_eq_iff)

lemma await_loops_tallies: "await_loops E es s = (s', r) \<Longrightarrow> tallies s' = tallies s"
  by (induction E es s arbitrary: s' r rule: await_loops.induct)
    (auto dest: set_status_tallies mark_cancelled_tallies split: prod.splits sum.splits)

lemma tallies_congruence: "is_tasks (sc_state s) = is_tasks (sc_state s') \<Longrightarrow> tallies s = tallies s'"
  by (simp add: tallies_def fun_eq_iff)

lemma stop_tallies: "stop_all E s = (s', r) \<Longrightarrow> tallies s' = tallies s"
  using tallies_congruence [of "s\<lparr>sc_handles := []\<rparr>" s]
  by (auto simp: stop_all_def dest!: cancel_loops_tallies await_loops_tallies split: prod.splits)

lemma register_tallies:
  assumes "register_interval_task E a s = (s', r)"
  shows "tallies s' = counted_event (Registers (ia_task_id a)) (tallies s)"
proof -
  let ?t = "registered_task E a s"
  let ?s1 = "set_tasks (AList.update (ia_task_id a) ?t (is_tasks (sc_state s))) s"
  have "tally ?t = (case tallies s (ia_task_id a) of Some v \<Rightarrow> v | None \<Rightarrow> (0, 0, None))"
    by (cases "task_at s (ia_task_id a)")
      (simp_all add: tally_def tallies_def registered_task_def blank_task_def Let_def split: prod.split)
  then have "tallies ?s1 = counted_event (Registers (ia_task_id a)) (tallies s)" by (auto simp: tallies_def update_conv' fun_eq_iff)
  then show ?thesis using save_tallies assms by (auto simp: register_interval_task_def)
qed

lemma start_tallies: "start_interval_task E k d s = (s', r) \<Longrightarrow> tallies s' = tallies s"
  by (auto simp: start_interval_task_def dest: set_status_tallies split: if_splits)

lemma snapshot_tallies: "tallies (snapshot s) = tallies s"
  by (rule ext, rename_tac k, case_tac "task_at s k") (simp_all add: snapshot_def tallies_def refresh_facts)

lemma step_tallies: "sched_step s ev s' \<Longrightarrow> tallies s' = counted_event ev (tallies s)"
proof (induction rule: sched_step.induct)
  case (register E a s s' r)
  then show ?case by (rule register_tallies)
next
  case (start E k d s s' r)
  then show ?case using start_tallies by simp
next
  case (stop E s s' r)
  then show ?case using stop_tallies by simp
qed (simp_all only: loop_sleep_tallies loop_wake_tallies loop_finish_tallies snapshot_tallies counted_event.simps)

text \<open>A run of one scheduler with its events, and what the events tell of a task.\<close>

inductive sched_run :: "scheduler \<Rightarrow> sched_event list \<Rightarrow> scheduler \<Rightarrow> bool" where
  nothing: "sched_run s [] s"
| more: "sched_run s evs s' \<Longrightarrow> sched_step s' ev s'' \<Longrightarrow> sched_run s (evs @ [ev]) s''"

definition runs_begun :: "string \<Rightarrow> sched_event list \<Rightarrow> nat" where
  "runs_begun k evs = length (filter (\<lambda>ev. ev = Begins k) evs)"

fun failed_run :: "string \<Rightarrow> sched_event \<Rightarrow> bool option" where
  "failed_run k (Succeeds k') = (if k' = k then Some False else None)"
| "failed_run k (Fails k' e) = (if k' = k then Some True else None)"
| "failed_run k _ = None"

definition failures_in_row :: "string \<Rightarrow> sched_event list \<Rightarrow> nat" where
  "failures_in_row k evs = length (takeWhile (\<lambda>b. b) (rev (List.map_filter (failed_run k) evs)))"

lemma runs_begun_simps [simp]:
  "runs_begun k [] = 0" "runs_begun k (evs @ [ev]) = runs_begun k evs + (if ev = Begins k then 1 else 0)"
  by (simp_all add: runs_begun_def)

lemma map_filter_snoc: "List.map_filter f (xs @ [x]) = List.map_filter f xs @ (case f x of None \<Rightarrow> [] | Some y \<Rightarrow> [y])"
  by (induction xs) (simp_all add: List.map_filter_simps split: option.split)

lemma failures_in_row_simps [simp]:
  "failures_in_row k [] = 0"
  "failures_in_row k (evs @ [ev]) =
     (case failed_run k ev of None \<Rightarrow> failures_in_row k evs | Some True \<Rightarrow> failures_in_row k evs + 1 | Some False \<Rightarrow> 0)"
  by (simp_all add: failures_in_row_def map_filter_snoc List.map_filter_simps split: option.split)

lemma run_inv: "sched_run s evs s' \<Longrightarrow> sched_inv s \<Longrightarrow> sched_inv s'"
  by (induction rule: sched_run.induct) (auto intro: sched_step_inv)

text \<open>A run begins, succeeds or fails only of a task that is registered.\<close>

lemma event_registered:
  assumes "sched_step s ev s'" and "sched_inv s" and "ev = Begins k \<or> failed_run k ev \<noteq> None"
  shows "tallies s k \<noteq> None"
proof -
  have "handle_at s k = Some Sleeping \<or> handle_at s k = Some Working"
    using assms(1,3) by (cases rule: sched_step.cases) (auto split: if_splits)
  then show ?thesis using assms(2) by (auto simp: sched_inv_def task_fits_def tallies_def)
qed

definition told :: "string \<Rightarrow> sched_event list \<Rightarrow> (int \<times> int \<times> string option) option \<Rightarrow> bool" where
  "told k evs v =
     (case v of
        None \<Rightarrow> runs_begun k evs = 0 \<and> failures_in_row k evs = 0
      | Some (a, f, e) \<Rightarrow> a = int (runs_begun k evs) \<and> f = int (failures_in_row k evs))"

lemma some_bool [simp]: "\<exists>b. b"
  by blast

lemma told_event:
  assumes "told k evs (V k)" and "ev = Begins k \<or> failed_run k ev \<noteq> None \<Longrightarrow> V k \<noteq> None"
  shows "told k (evs @ [ev]) (counted_event ev V k)"
  using assms by (cases ev) (auto simp: told_def split: option.splits prod.splits if_splits)

lemma run_told:
  assumes "sched_run s evs s'" and "sched_inv s" and "is_tasks (sc_state s) = []"
  shows "told k evs (tallies s' k)"
  using assms
proof (induction rule: sched_run.induct)
  case (nothing s)
  then show ?case by (simp add: told_def tallies_def)
next
  case (more s evs s' ev s'')
  have "sched_inv s'" using run_inv more by blast
  then show ?case
    unfolding step_tallies [OF more.hyps(2)]
    by (intro told_event more.IH more.prems) (rule event_registered [OF more.hyps(2)])
qed

section \<open>A loop that died\<close>

lemma mark_cancelled_status: "mark_task_cancelled E k s = (s', r) \<Longrightarrow> is_scheduler_status (sc_state s') = is_scheduler_status (sc_state s)"
  using on_task_facts(4) by (auto simp: mark_task_cancelled_def split: if_splits)

lemma cancel_loop_status: "cancel_loop E k h s = (e, s') \<Longrightarrow> is_scheduler_status (sc_state s') = is_scheduler_status (sc_state s)"
  by (cases h) (auto simp: cancel_loop_def dest: mark_cancelled_status split: prod.splits sum.splits)

lemma cancel_loops_facts:
  "cancel_loops E hs s = (es, s') \<Longrightarrow> is_scheduler_status (sc_state s') = is_scheduler_status (sc_state s) \<and>
     ((k, Ended (Some e)) \<in> set hs \<longrightarrow> (k, Some e) \<in> set es)"
proof (induction hs arbitrary: es s)
  case (Cons p hs)
  obtain k' h where p: "p = (k', h)" by (cases p)
  obtain e' s1 where c: "cancel_loop E k' h s = (e', s1)" by fastforce
  obtain es1 s2 where r: "cancel_loops E hs s1 = (es1, s2)" by fastforce
  have eq: "s2 = s'" "es = (k', e') # es1" using Cons.prems(1) by (simp_all add: p c r)
  moreover have "h = Ended (Some e) \<Longrightarrow> e' = Some e" using c by (simp add: cancel_loop_def)
  moreover have "is_scheduler_status (sc_state s') = is_scheduler_status (sc_state s)"
    using Cons.IH [OF r [unfolded eq(1)]] cancel_loop_status [OF c] by simp
  moreover have "(k, Ended (Some e)) \<in> set hs \<longrightarrow> (k, Some e) \<in> set es1" using Cons.IH [OF r [unfolded eq(1)]] by blast
  ultimately show ?case unfolding p eq by auto
qed simp

lemma await_loops_raises:
  "(k, Some e) \<in> set es \<Longrightarrow> await_loops E es s = (s', r) \<Longrightarrow>
     is_scheduler_status (sc_state s') = is_scheduler_status (sc_state s) \<and> (\<exists>e'. r = Inl e')"
proof (induction E es s rule: await_loops.induct)
  case (3 E k' es s)
  obtain s1 r1 where m: "mark_task_cancelled E k' s = (s1, r1)" by fastforce
  show ?case
  proof (cases r1)
    case (Inl e1)
    then show ?thesis using "3.prems"(2) mark_cancelled_status [OF m] by (auto simp: m)
  next
    case (Inr u)
    have "(k, Some e) \<in> set es" using "3.prems"(1) by simp
    from "3.IH" [OF m [symmetric] Inr this] show ?thesis using "3.prems"(2) mark_cancelled_status [OF m] by (simp add: m Inr)
  qed
qed auto

section \<open>Over a restart\<close>

definition keys_clean :: "(string \<times> sched_task) list \<Rightarrow> bool" where
  "keys_clean ts = (\<forall>(k, t)\<in>set ts. py_strip k = k \<and> k \<noteq> [])"

definition kept :: "string \<Rightarrow> string \<Rightarrow> sched_task \<Rightarrow> sched_task" where
  "kept now k t = (case normalize_task now k (task_value t) of Inr t' \<Rightarrow> t' | Inl _ \<Rightarrow> t)"

lemma kept: "normalize_task now k (task_value t) = Inr (kept now k t)"
  using normalize_task_value [of now k t] by (auto simp: kept_def)

lemma normalize_tasks_kept:
  "keys_clean ts \<Longrightarrow> distinct (map fst ts) \<Longrightarrow>
     \<exists>ts'. normalize_tasks now (tasks_value ts) acc = Inr ts' \<and>
       (\<forall>k. map_of ts' k = (case map_of ts k of Some t \<Rightarrow> Some (kept now k t) | None \<Rightarrow> map_of acc k))"
proof (induction ts arbitrary: acc)
  case (Cons p ts)
  obtain k t where p: "p = (k, t)" by (cases p)
  have k: "py_strip k = k" "k \<noteq> []" "keys_clean ts" "map_of ts k = None"
    using Cons.prems by (auto simp: keys_clean_def p map_of_eq_None_iff)
  obtain ts' where ts': "normalize_tasks now (tasks_value ts) (AList.update k (kept now k t) acc) = Inr ts'"
    "\<forall>j. map_of ts' j = (case map_of ts j of Some t \<Rightarrow> Some (kept now j t) | None \<Rightarrow> map_of (AList.update k (kept now k t) acc) j)"
    using Cons.IH [OF k(3), of "AList.update k (kept now k t) acc"] Cons.prems(2) by (auto simp: p)
  have "normalize_tasks now (tasks_value (p # ts)) acc = Inr ts'" by (simp add: p k(1,2) kept ts'(1))
  then show ?case using ts'(2) k(4) by (auto simp: p update_conv' split: option.splits)
qed simp

text \<open>What is looked at in a task, and what of it the file keeps.\<close>

definition task_view :: "sched_task \<Rightarrow> int \<times> int \<times> int \<times> bool \<times> string option \<times> string" where
  "task_view t = (it_attempt_count t, it_consecutive_failures t, it_interval_seconds t, it_enabled t, it_last_error t, it_status t)"

definition stored_view :: "sched_task \<Rightarrow> int \<times> int \<times> int \<times> bool \<times> string option \<times> string" where
  "stored_view t =
     (it_attempt_count t, it_consecutive_failures t, it_interval_seconds t, it_enabled t, text_again (it_last_error t),
      text_else (PStr (it_status t)) ''idle'')"

lemma text_else_twice: "text_else (PStr (text_else (PStr s) ''idle'')) ''idle'' = text_else (PStr s) ''idle''"
proof -
  have i: "py_strip ''idle'' = ''idle''" by code_simp
  show ?thesis
  proof (cases "py_strip s = []")
    case True
    then have "text_else (PStr s) ''idle'' = ''idle''" by (simp add: text_else_def str_or_def i)
    then show ?thesis by (simp add: text_else_def str_or_def i)
  next
    case False
    then have "s \<noteq> []" by auto
    then have "text_else (PStr s) ''idle'' = py_strip s" using False by (simp add: text_else_def str_or_def Let_def)
    then show ?thesis using False by (simp add: text_else_def str_or_def Let_def)
  qed
qed

lemma kept_view: "counts_ok t \<Longrightarrow> task_view (kept now k t) = stored_view t"
  using normalize_task_value [of now k t] kept [of now k t] by (auto simp: task_view_def stored_view_def counts_ok_def)

lemma stored_twice: "counts_ok t \<Longrightarrow> task_view (kept now' k (kept now k t)) = stored_view t"
  using kept_view [of t now k] kept_view [of "kept now k t" now' k]
  by (auto simp: task_view_def stored_view_def counts_ok_def text_else_twice)

lemma normalized_tasks_at:
  assumes "normalize_internal_scheduler_state now (state_value st) = Inr n" and "keys_clean (is_tasks st)"
    and "distinct (map fst (is_tasks st))"
  shows "map_of (is_tasks n) k = map_option (kept now k) (map_of (is_tasks st) k)" and "keys_clean (is_tasks n)"
    and "distinct (map fst (is_tasks n))"
proof -
  obtain ts' where ts': "normalize_tasks now (tasks_value (is_tasks st)) [] = Inr ts'"
    "\<forall>k. map_of ts' k = (case map_of (is_tasks st) k of Some t \<Rightarrow> Some (kept now k t) | None \<Rightarrow> map_of [] k)"
    using normalize_tasks_kept [OF assms(2,3), of now "[]"] by blast
  then have n: "is_tasks n = ts'" using assms(1) by (auto simp: normalize_state_value)
  show m: "map_of (is_tasks n) k = map_option (kept now k) (map_of (is_tasks st) k)" for k
    using ts'(2) by (simp add: n split: option.split)
  show d: "distinct (map fst (is_tasks n))" using normalize_tasks_distinct [OF ts'(1)] by (simp add: n)
  show "keys_clean (is_tasks n)"
    using m map_of_is_SomeI [OF d] assms(2) by (fastforce simp: keys_clean_def dest: map_of_SomeD)
qed

lemma normalize_total:
  assumes "keys_clean (is_tasks st)" and "distinct (map fst (is_tasks st))"
  shows "\<exists>n. normalize_internal_scheduler_state now (state_value st) = Inr n"
  using normalize_tasks_kept [OF assms, of now "[]"] by (auto simp: normalize_state_value)


text \<open>A save that went through has written the state, and the constructor reads it back.\<close>

lemma save_written:
  assumes "save_state E s = (s', Inr u)" and "sc_has_store s"
  shows "\<exists>n. normalize_internal_scheduler_state (se_now E) (state_value (sc_state s')) = Inr n \<and> sc_file s' = Some (state_value n)"
  using assms by (auto simp: save_state_def Let_def split: if_splits sum.splits)

lemma flagged_views: "counts_ok t \<Longrightarrow> stored_view (flagged s k t) = stored_view t"
  by (simp add: stored_view_def)

lemma keys_clean_map: "keys_clean ts \<Longrightarrow> map fst ts' = map fst ts \<Longrightarrow> keys_clean ts'"
proof -
  have k: "keys_clean xs = (\<forall>k\<in>set (map fst xs). py_strip k = k \<and> k \<noteq> [])" for xs by (auto simp: keys_clean_def)
  show "keys_clean ts \<Longrightarrow> map fst ts' = map fst ts \<Longrightarrow> keys_clean ts'" by (simp only: k)
qed

text \<open>
  C15. A scheduler made from the file of a save holds every task with its counters, interval, last
  error and status, texts trimmed.
\<close>

theorem scheduler_survives_restart:
  assumes "sched_reachable s" and "sc_has_store s" and "keys_clean (is_tasks (sc_state s))" and "save_state E s = (s', Inr ())"
  shows "\<exists>s''. new_scheduler E' (sc_file s') = Inr s'' \<and>
    (\<forall>k. map_option task_view (task_at s'' k) = map_option stored_view (task_at s k))"
proof -
  have c: "counts_ok t" if "task_at s k = Some t" for k t
    using sched_reachable_inv [OF assms(1)] that by (auto simp: sched_inv_def counted_def)
  have d: "distinct (map fst (is_tasks (sc_state s')))" and k: "keys_clean (is_tasks (sc_state s'))"
    using sched_reachable_inv [OF assms(1)] save_facts(6) [OF assms(4)] keys_clean_map [OF assms(3)]
    by (auto simp: sched_inv_def counted_def)
  obtain n where n: "normalize_internal_scheduler_state (se_now E) (state_value (sc_state s')) = Inr n"
    "sc_file s' = Some (state_value n)"
    using save_written [OF assms(4,2)] by blast
  note n1 = normalized_tasks_at [OF n(1) k d]
  obtain m where m: "normalize_internal_scheduler_state (se_now E') (state_value n) = Inr m"
    using normalize_total [OF n1(2,3)] by blast
  have "new_scheduler E' (sc_file s') = Inr \<lparr>sc_state = m, sc_handles = [], sc_has_store = True, sc_file = sc_file s'\<rparr>"
    by (simp add: new_scheduler_def load_or_create_def store_load_def n(2) m)
  moreover have "map_option task_view (map_of (is_tasks m) j) = map_option stored_view (task_at s j)" for j
    using normalized_tasks_at(1) [OF m n1(2,3), of j] n1(1) [of j] save_facts(1) [OF assms(4), of j] c [of j]
    by (cases "task_at s j") (simp_all add: stored_twice flagged_views)
  ultimately show ?thesis by (intro exI conjI) auto
qed

text \<open>A section that marks a task and sleeps, and a save that is not written.\<close>

lemma snapshot_task: "task_at (snapshot s) k = map_option (flagged s k) (task_at s k)"
  by (simp add: snapshot_def refresh_facts)

lemma loop_sleep_result:
  "(\<exists>e. handle_at (loop_sleep E k d s) k = Some (Ended (Some e))) \<or>
   handle_at (loop_sleep E k d s) k = Some Sleeping \<and>
   (\<exists>t t'. task_at s k = Some t \<and> task_at (loop_sleep E k d s) k = Some t' \<and> it_status t' = ''scheduled'' \<and>
      it_current_error t' = None \<and> it_last_error t' = it_last_error t)"
proof -
  obtain s1 r where m: "mark_task_sleeping E k d s = (s1, r)" by fastforce
  show ?thesis
  proof (cases r)
    case (Inl e)
    then show ?thesis by (simp add: loop_sleep_def m or_end_def update_conv')
  next
    case (Inr u)
    then show ?thesis using on_task_result [OF m [unfolded mark_task_sleeping_def Inr]]
      by (auto simp: loop_sleep_def m or_end_def update_conv')
  qed
qed

lemma loop_finish_result:
  "(\<exists>e. handle_at (loop_finish E k outcome s) k = Some (Ended (Some e))) \<or>
   handle_at (loop_finish E k outcome s) k = Some Sleeping \<and>
   (\<exists>t. task_at (loop_finish E k outcome s) k = Some t \<and> it_status t = ''scheduled'' \<and> it_current_error t = None \<and>
      it_last_error t = (case outcome of Inl error \<Rightarrow> Some error | Inr _ \<Rightarrow> None))"
proof -
  let ?m = "case outcome of Inr res \<Rightarrow> mark_task_success E k res s | Inl error \<Rightarrow> mark_task_failure E k error s"
  obtain s1 r where m: "?m = (s1, r)" by fastforce
  show ?thesis
  proof (cases r)
    case (Inl e)
    then show ?thesis by (simp add: loop_finish_def m or_end_def update_conv')
  next
    case (Inr u)
    have "\<exists>t. task_at s1 k = Some t \<and> it_last_error t = (case outcome of Inl error \<Rightarrow> Some error | Inr _ \<Rightarrow> None)"
      using m Inr by (cases outcome) (auto simp: mark_task_success_def mark_task_failure_def dest!: on_task_result)
    then show ?thesis using loop_sleep_result [of E k "next_delay k s1" s1]
      by (elim exE disjE conjE) (auto simp: loop_finish_def m or_end_def Inr)
  qed
qed

lemma on_task_unwritten:
  assumes "sc_has_store s" and "\<not> se_disk E" and "task_at s k = Some t"
  shows "\<exists>s' e. on_task E k f s = (s', Inl e) \<and> is_scheduler_status (sc_state s') = is_scheduler_status (sc_state s)"
proof -
  obtain s' r where m: "on_task E k f s = (s', r)" by fastforce
  moreover have "r \<noteq> Inr u" for u
    using m assms by (auto simp: on_task_def save_state_def Let_def split: sum.splits)
  ultimately show ?thesis using on_task_facts(4) [OF m] by (cases r) auto
qed

lemma stop_all_raises:
  assumes "handle_at s k = Some (Ended (Some e))" and "stop_all E s = (s', r)"
  shows "(\<exists>e'. r = Inl e') \<and> is_scheduler_status (sc_state s') = is_scheduler_status (sc_state s)"
proof -
  obtain es s1 where c: "cancel_loops E (sc_handles s) (s\<lparr>sc_handles := []\<rparr>) = (es, s1)" by fastforce
  have a: "await_loops E es s1 = (s', r)" using assms(2) by (simp add: stop_all_def c)
  note f = cancel_loops_facts [OF c, of k e]
  have "(k, Some e) \<in> set es" using f map_of_SomeD [OF assms(1)] by blast
  from await_loops_raises [OF this a] show ?thesis using f by simp
qed

section \<open>The promises of the scheduler\<close>

text \<open>
  C14. Of a scheduler that began without a task, the counters of a task are the runs begun and the
  failures since the last success.
\<close>

theorem scheduler_counts_log:
  assumes "s0 = new_scheduler_without_store E \<or> new_scheduler E None = Inr s0" and "sched_run s0 evs s"
    and "task_at s k = Some t"
  shows "it_attempt_count t = int (runs_begun k evs) \<and> it_consecutive_failures t = int (failures_in_row k evs)"
proof -
  have r: "sched_reachable s0" using assms(1) by (auto intro: sched_reachable.intros)
  have e: "is_tasks (sc_state s0) = []"
    using assms(1) by (auto simp: new_scheduler_without_store_def new_scheduler_def load_or_create_def store_load_def
      create_internal_scheduler_state_def ebind_Inr_conv Let_def split: if_splits)
  show ?thesis
    using run_told [OF assms(2) sched_reachable_inv [OF r] e, of k] assms(3) by (simp add: told_def tallies_def tally_def)
qed

text \<open>A scheduler with one task, for the concrete runs.\<close>

definition the_env :: sched_env where
  "the_env = \<lparr>se_now = ''now'', se_in_seconds = (\<lambda>n. ''later''), se_disk = True\<rparr>"

definition the_interval_task :: interval_task where
  "the_interval_task = \<lparr>ia_task_id = ''t'', ia_display_name = ''T'', ia_interval_seconds = 5, ia_schedule_name = ''hourly'',
     ia_schedule_detail = None, ia_task_kind = ''k'', ia_readiness_critical = False\<rparr>"

definition bare_registered :: scheduler where
  "bare_registered = fst (register_interval_task the_env the_interval_task (new_scheduler_without_store the_env))"

definition bare_started :: scheduler where
  "bare_started = fst (start_interval_task the_env ''t'' 0 bare_registered)"

definition bare_asleep :: scheduler where
  "bare_asleep = loop_sleep the_env ''t'' 0 bare_started"

definition bare_working :: scheduler where
  "bare_working = loop_wake the_env ''t'' bare_asleep"

definition bare_failed :: scheduler where
  "bare_failed = loop_finish the_env ''t'' (Inl ''no'') bare_working"

lemma bare_handles:
  "handle_at bare_started ''t'' = Some (Due 0)" "handle_at bare_asleep ''t'' = Some Sleeping"
  "handle_at bare_working ''t'' = Some Working"
  by code_simp+

lemma bare_registered_step: "sched_step (new_scheduler_without_store the_env) (Registers ''t'') bare_registered"
  using sched_step.register [of the_env the_interval_task "new_scheduler_without_store the_env" bare_registered]
  by (auto simp: bare_registered_def prod_eq_iff the_interval_task_def)

lemma bare_run:
  "sched_run (new_scheduler_without_store the_env) [Registers ''t'', Other, Other, Begins ''t''] bare_working"
proof -
  let ?s = "new_scheduler_without_store the_env"
  have "sched_run ?s ([] @ [Registers ''t'']) bare_registered" by (rule sched_run.more [OF sched_run.nothing bare_registered_step])
  from sched_run.more [OF this sched_step.start [where E = the_env and task_id = "''t''" and delay = 0, OF surjective_pairing]]
  have "sched_run ?s (([] @ [Registers ''t'']) @ [Other]) bare_started" by (simp only: bare_started_def)
  from sched_run.more [OF this sched_step.sleep [where E = the_env, OF bare_handles(1)]]
  have "sched_run ?s ((([] @ [Registers ''t'']) @ [Other]) @ [Other]) bare_asleep" by (simp only: bare_asleep_def)
  from sched_run.more [OF this sched_step.wake [where E = the_env, OF bare_handles(2)]]
  show ?thesis by (simp only: bare_working_def append.simps)
qed

lemma bare_run_failed:
  "sched_run (new_scheduler_without_store the_env) [Registers ''t'', Other, Other, Begins ''t'', Fails ''t'' ''no''] bare_failed"
  using sched_run.more [OF bare_run sched_step.fail [where E = the_env and error = "''no''", OF bare_handles(3)]]
  by (simp only: bare_failed_def append.simps)

theorem scheduler_counts_log_witness:
  "it_attempt_count (the (task_at bare_failed ''t'')) = 1 \<and> it_consecutive_failures (the (task_at bare_failed ''t'')) = 1"
proof -
  have t: "task_at bare_failed ''t'' = Some (the (task_at bare_failed ''t''))" by code_simp
  have "runs_begun ''t'' [Registers ''t'', Other, Other, Begins ''t'', Fails ''t'' ''no''] = 1"
    "failures_in_row ''t'' [Registers ''t'', Other, Other, Begins ''t'', Fails ''t'' ''no''] = 1" by code_simp+
  then show ?thesis using scheduler_counts_log [OF disjI1 [OF refl] bare_run_failed t] by (simp only: of_nat_1)
qed

text \<open>
  What a run ended with does not show in the status of its task: the loop marks the task as
  scheduled in the same section, which clears the current error, and as long as the loop lives
  nobody sees another status than scheduled or running, or a current error.
\<close>

theorem outcome_status_lost:
  assumes "sched_reachable s" and "handle_at s k = Some Working" and "s' = loop_finish E k outcome s"
  shows "((\<exists>e. handle_at s' k = Some (Ended (Some e))) \<or>
      handle_at s' k = Some Sleeping \<and>
      (\<exists>t. task_at (snapshot s') k = Some t \<and> it_status t = ''scheduled'' \<and> it_current_error t = None \<and> it_running t \<and>
         it_last_error t = (case outcome of Inl error \<Rightarrow> Some error | Inr _ \<Rightarrow> None))) \<and>
    (\<forall>j t. handle_at s j \<in> {Some Sleeping, Some Working} \<longrightarrow> task_at (snapshot s) j = Some t \<longrightarrow>
       it_status t \<in> {''scheduled'', ''running''} \<and> it_current_error t = None \<and> it_running t)"
proof (intro conjI)
  show "(\<exists>e. handle_at s' k = Some (Ended (Some e))) \<or>
      handle_at s' k = Some Sleeping \<and>
      (\<exists>t. task_at (snapshot s') k = Some t \<and> it_status t = ''scheduled'' \<and> it_current_error t = None \<and> it_running t \<and>
         it_last_error t = (case outcome of Inl error \<Rightarrow> Some error | Inr _ \<Rightarrow> None))"
    using loop_finish_result [of E k outcome s] unfolding assms(3) [symmetric]
    by (elim disjE conjE exE) (auto simp: snapshot_task alive_def loop_live_def)
  show "\<forall>j t. handle_at s j \<in> {Some Sleeping, Some Working} \<longrightarrow> task_at (snapshot s) j = Some t \<longrightarrow>
       it_status t \<in> {''scheduled'', ''running''} \<and> it_current_error t = None \<and> it_running t"
    using sched_reachable_inv [OF assms(1)]
    by (auto simp: sched_inv_def task_fits_def task_ok_def snapshot_task alive_def loop_live_def)
qed

text \<open>
  A write of the file that fails ends the loop that made it for good, and the next
  \<open>stop_all\<close> raises before the scheduler is marked as stopped.
\<close>

theorem failed_write_breaks_stop:
  assumes "sched_reachable s" and "sc_has_store s" and "handle_at s k = Some Sleeping" and "\<not> se_disk E"
    and "stop_all E' (loop_wake E k s) = (s', r)"
  shows "(\<exists>e. handle_at (loop_wake E k s) k = Some (Ended (Some e))) \<and> (\<exists>e. r = Inl e) \<and>
    is_scheduler_status (sc_state s') = is_scheduler_status (sc_state s)"
proof -
  have "\<exists>t. task_at s k = Some t"
    using sched_reachable_inv [OF assms(1)] assms(3) by (auto simp: sched_inv_def task_fits_def)
  then obtain t where t: "task_at s k = Some t" ..
  obtain s1 e where m: "mark_task_running E k s = (s1, Inl e)" "is_scheduler_status (sc_state s1) = is_scheduler_status (sc_state s)"
    unfolding mark_task_running_def using on_task_unwritten [OF assms(2,4) t] by blast
  then have w: "loop_wake E k s = set_handle k (Ended (Some e)) s1" by (simp add: loop_wake_def or_end_def)
  then have h: "handle_at (loop_wake E k s) k = Some (Ended (Some e))" by (simp add: update_conv')
  then show ?thesis using stop_all_raises [OF h assms(5)] m(2) by (auto simp: w)
qed


lemma run_reachable: "sched_run s evs s' \<Longrightarrow> sched_reachable s \<Longrightarrow> sched_reachable s'"
  by (induction rule: sched_run.induct) (auto intro: sched_reachable.stepped)

theorem outcome_status_lost_witness:
  "(\<exists>e. handle_at bare_failed ''t'' = Some (Ended (Some e))) \<or> handle_at bare_failed ''t'' = Some Sleeping"
  using outcome_status_lost [OF run_reachable [OF bare_run sched_reachable.bare] bare_handles(3), of bare_failed the_env "Inl ''no''"]
  by (simp only: bare_failed_def) blast

definition the_full_disk :: sched_env where
  "the_full_disk = the_env\<lparr>se_disk := False\<rparr>"

definition kept_start :: scheduler where
  "kept_start = (case new_scheduler the_env None of Inr s \<Rightarrow> s | Inl _ \<Rightarrow> new_scheduler_without_store the_env)"

definition kept_registered :: scheduler where
  "kept_registered = fst (register_interval_task the_env the_interval_task kept_start)"

definition kept_started :: scheduler where
  "kept_started = fst (start_interval_task the_env ''t'' 0 kept_registered)"

definition kept_asleep :: scheduler where
  "kept_asleep = loop_sleep the_env ''t'' 0 kept_started"

lemma kept_handles: "handle_at kept_started ''t'' = Some (Due 0)" "handle_at kept_asleep ''t'' = Some Sleeping" "sc_has_store kept_asleep"
  by code_simp+

lemma kept_reachable: "sched_reachable kept_asleep"
proof -
  have "new_scheduler the_env None = Inr kept_start"
    by (simp add: kept_start_def new_scheduler_def load_or_create_def store_load_def Let_def the_env_def)
  then have "sched_reachable kept_start" by (rule sched_reachable.created)
  from sched_reachable.stepped [OF this sched_step.register [where E = the_env and a = the_interval_task, OF surjective_pairing]]
  have "sched_reachable kept_registered" by (simp only: kept_registered_def)
  from sched_reachable.stepped [OF this sched_step.start [where E = the_env and task_id = "''t''" and delay = 0, OF surjective_pairing]]
  have "sched_reachable kept_started" by (simp only: kept_started_def)
  from sched_reachable.stepped [OF this sched_step.sleep [where E = the_env, OF kept_handles(1)]]
  show ?thesis by (simp only: kept_asleep_def)
qed

theorem failed_write_breaks_stop_witness:
  "\<exists>e. snd (stop_all the_env (loop_wake the_full_disk ''t'' kept_asleep)) = Inl e"
proof -
  have "\<not> se_disk the_full_disk" by (simp add: the_full_disk_def)
  from failed_write_breaks_stop [OF kept_reachable kept_handles(3,2) this surjective_pairing] show ?thesis by blast
qed

theorem scheduler_survives_restart_witness:
  "\<exists>s''. new_scheduler the_full_disk (sc_file (fst (save_state the_env kept_asleep))) = Inr s''"
proof -
  have c: "keys_clean (is_tasks (sc_state kept_asleep))" by code_simp
  have "snd (save_state the_env kept_asleep) = Inr ()" by code_simp
  then have "save_state the_env kept_asleep = (fst (save_state the_env kept_asleep), Inr ())" by (simp only: prod_eq_iff fst_conv snd_conv)
  from scheduler_survives_restart [OF kept_reachable kept_handles(3) c this] show ?thesis by blast
qed

end
