(* ===== verification/Family_Policy.thy ===== *)
theory Family_Policy
  imports Task_Models
begin

text \<open>
  The authorisation of the core and the records of a family's memory with their validators
  (\<open>family_memory/models.py\<close>), and the decision whether a request may touch the memory
  (\<open>family_memory/policy.py\<close>).

  A \<open>Literal\<close> is a datatype here: pydantic refuses other texts before a validator runs, and fields
  a model does not have. Validation is as in \<open>Task_Models\<close>: the messages, or the validated record.
\<close>

section \<open>The models\<close>

datatype IdentityState = Authenticated | Verified | Confirmed | Probable | UnknownIdentity | Conflicted
datatype PlatformRole = Owner | Admin | Member | Guest
datatype AudienceMode = PrivateAudience | SharedAudience | GroupAudience | PublicAudience | UnknownAudience
datatype MemoryAction = MemoryRead | MemoryWrite | MemoryDelete | MemoryExport
datatype MemoryRisk = GeneralRisk | PersonalRisk | SensitiveRisk
datatype MemoryVisibility = PrivateMemory | ExplicitMemory | HouseholdMemory | RoomMemory | GuardianManaged
datatype AuthorizationEffect = AllowEffect | DenyEffect
datatype MemoryLifecycleStatus = ActiveMemory | ExpiredMemory | DeletedMemory
datatype AuditResult = AuditAllowed | AuditDenied | AuditCompleted | AuditFailed
datatype LifecycleAction = DeleteAction | ExportAction
datatype LifecycleRequestStatus = PendingRequest | RequestInProgress | RequestCompleted | RequestIncomplete | RequestFailed

record FamilyRequester =
  fr_user_id :: string
  fr_person_id :: "string option"
  fr_platform_role :: PlatformRole
  fr_session_id :: "string option"
  fr_device_id :: "string option"

record FamilyParticipant =
  fp_person_id :: "string option"
  fp_identity_state :: IdentityState
  fp_evidence_id :: "string option"

record FamilyRoomContext =
  fc_room_id :: "string option"
  fc_endpoint_id :: "string option"
  fc_audience_mode :: AudienceMode

record FamilyOperation =
  fo_kind :: MemoryAction
  fo_risk :: MemoryRisk
  fo_requested_visibility :: "MemoryVisibility list"

record FamilyAuthorizationDecision =
  fd_effect :: AuthorizationEffect
  fd_allowed_person_ids :: "string list"
  fd_allowed_visibility :: "MemoryVisibility list"
  fd_allowed_actions :: "MemoryAction list"
  fd_consent_ids :: "string list"
  fd_policy_version :: string

record FamilyAuthorizationContext =
  fa_contract_version :: string
  fa_authorization_id :: string
  fa_core_id :: string
  fa_household_id :: string
  fa_requester :: FamilyRequester
  fa_participants :: "FamilyParticipant list"
  fa_context :: FamilyRoomContext
  fa_operation :: FamilyOperation
  fa_decision :: FamilyAuthorizationDecision
  fa_issued_at :: datetime
  fa_expires_at :: datetime
  fa_jti :: string

record FamilyInteractionContext =
  fi_schema_version :: string
  fi_interaction_id :: string
  fi_core_id :: string
  fi_household_id :: string
  fi_room_id :: "string option"
  fi_endpoint_id :: "string option"
  fi_participant_person_ids :: "string list"
  fi_unknown_person_present :: bool
  fi_audience_mode :: AudienceMode
  fi_authorization_id :: string
  fi_created_at :: datetime

record FamilyMemoryRecord =
  fm_schema_version :: string
  fm_memory_id :: string
  fm_core_id :: string
  fm_household_id :: string
  fm_subject_person_ids :: "string list"
  fm_visibility :: MemoryVisibility
  fm_audience_person_ids :: "string list"
  fm_summary :: string
  fm_sensitivity :: MemoryRisk
  fm_consent_ids :: "string list"
  fm_source_interaction_id :: string
  fm_source_room_id :: "string option"
  fm_created_at :: datetime
  fm_updated_at :: datetime
  fm_expires_at :: "datetime option"
  fm_status :: MemoryLifecycleStatus

record FamilyMemoryAuditEvent =
  fe_schema_version :: string
  fe_event_id :: string
  fe_authorization_id :: string
  fe_action :: MemoryAction
  fe_result :: AuditResult
  fe_reason :: string
  fe_subject_person_ids :: "string list"
  fe_memory_ids :: "string list"
  fe_occurred_at :: datetime

record FamilyMemoryLifecycleRequest =
  fl_schema_version :: string
  fl_request_id :: string
  fl_authorization_id :: string
  fl_core_id :: string
  fl_household_id :: string
  fl_action :: LifecycleAction
  fl_subject_person_ids :: "string list"
  fl_categories :: "string list"
  fl_requested_at :: datetime
  fl_expires_at :: datetime

record FamilyMemoryDeletionReceipt =
  dr_schema_version :: string
  dr_receipt_id :: string
  dr_request_id :: string
  dr_authorization_id :: string
  dr_core_id :: string
  dr_household_id :: string
  dr_subject_person_ids :: "string list"
  dr_categories_deleted :: "string list"
  dr_categories_retained :: "string list"
  dr_retention_reason :: "string option"
  dr_status :: LifecycleRequestStatus
  dr_completed_at :: datetime

record FamilyMemoryExportManifest =
  em_schema_version :: string
  em_export_id :: string
  em_request_id :: string
  em_authorization_id :: string
  em_core_id :: string
  em_household_id :: string
  em_subject_person_ids :: "string list"
  em_categories_exported :: "string list"
  em_record_count :: int
  em_generated_at :: datetime

section \<open>Their validators\<close>

definition require_identifier :: "string \<Rightarrow> string \<Rightarrow> string result" where
  "require_identifier field_name value = normalized_non_empty_string field_name 255 value"

definition optional_identifier :: "string \<Rightarrow> string option \<Rightarrow> string option result" where
  "optional_identifier field_name = optional_field (require_identifier field_name)"

fun identifiers :: "string \<Rightarrow> string list \<Rightarrow> string list result" where
  "identifiers field_name [] = Inr []"
| "identifiers field_name (v # vs) =
     ebind (require_identifier field_name v) (\<lambda>w. ebind (identifiers field_name vs) (\<lambda>ws. Inr (w # ws)))"

definition identifier_list :: "string \<Rightarrow> string list \<Rightarrow> string list result" where
  "identifier_list field_name vs = ebind (identifiers field_name vs) (\<lambda>ws. Inr (dedup ws))"

text \<open>\<open>Field(min_length=1)\<close> is checked before the validator of the field.\<close>

definition at_least_one :: "('a list \<Rightarrow> 'a list result) \<Rightarrow> 'a list \<Rightarrow> 'a list result" where
  "at_least_one f vs = (if vs = [] then Inl (ValueError ''too_short'') else f vs)"

definition require_aware_datetime :: "string \<Rightarrow> datetime \<Rightarrow> datetime result" where
  "require_aware_datetime field_name value =
     (case value of Aware _ \<Rightarrow> Inr value | Naive _ \<Rightarrow> Inl (ValueError (field_name @ ''_timezone_required'')))"

definition earlier :: "datetime \<Rightarrow> datetime \<Rightarrow> bool" where
  "earlier a b = (datetime_utc a < datetime_utc b)"

text \<open>A model whose fields are in order runs the validator of the whole model.\<close>

definition model_messages :: "string list \<Rightarrow> string option \<Rightarrow> string list" where
  "model_messages ms whole = (if ms \<noteq> [] then ms else case whole of None \<Rightarrow> [] | Some e \<Rightarrow> [e])"

definition requester_messages :: "FamilyRequester \<Rightarrow> string list" where
  "requester_messages r =
     messages (require_identifier ''user_id'' (fr_user_id r)) @
     messages (optional_identifier ''person_id'' (fr_person_id r)) @
     messages (optional_identifier ''session_id'' (fr_session_id r)) @
     messages (optional_identifier ''device_id'' (fr_device_id r))"

definition normalized_requester :: "FamilyRequester \<Rightarrow> FamilyRequester" where
  "normalized_requester r =
     r\<lparr>fr_user_id := valid (require_identifier ''user_id'' (fr_user_id r)),
       fr_person_id := valid (optional_identifier ''person_id'' (fr_person_id r)),
       fr_session_id := valid (optional_identifier ''session_id'' (fr_session_id r)),
       fr_device_id := valid (optional_identifier ''device_id'' (fr_device_id r))\<rparr>"

definition identity_error :: "FamilyParticipant \<Rightarrow> string option" where
  "identity_error p =
     (if fp_identity_state p \<in> {Authenticated, Verified, Confirmed, Probable} \<and> fp_person_id p = None
      then Some ''participant_person_id_required''
      else if fp_identity_state p \<in> {UnknownIdentity, Conflicted} \<and> fp_person_id p \<noteq> None
      then Some ''uncertain_participant_person_id_forbidden''
      else None)"

definition participant_messages :: "FamilyParticipant \<Rightarrow> string list" where
  "participant_messages p =
     model_messages
       (messages (optional_identifier ''person_id'' (fp_person_id p)) @
        messages (optional_identifier ''evidence_id'' (fp_evidence_id p)))
       (identity_error p)"

definition normalized_participant :: "FamilyParticipant \<Rightarrow> FamilyParticipant" where
  "normalized_participant p =
     p\<lparr>fp_person_id := valid (optional_identifier ''person_id'' (fp_person_id p)),
       fp_evidence_id := valid (optional_identifier ''evidence_id'' (fp_evidence_id p))\<rparr>"

definition room_messages :: "FamilyRoomContext \<Rightarrow> string list" where
  "room_messages c =
     messages (optional_identifier ''room_id'' (fc_room_id c)) @
     messages (optional_identifier ''endpoint_id'' (fc_endpoint_id c))"

definition normalized_room :: "FamilyRoomContext \<Rightarrow> FamilyRoomContext" where
  "normalized_room c =
     c\<lparr>fc_room_id := valid (optional_identifier ''room_id'' (fc_room_id c)),
       fc_endpoint_id := valid (optional_identifier ''endpoint_id'' (fc_endpoint_id c))\<rparr>"

definition operation_messages :: "FamilyOperation \<Rightarrow> string list" where
  "operation_messages op = messages (at_least_one (\<lambda>vs. Inr (dedup vs)) (fo_requested_visibility op))"

definition normalized_operation :: "FamilyOperation \<Rightarrow> FamilyOperation" where
  "normalized_operation op = op\<lparr>fo_requested_visibility := dedup (fo_requested_visibility op)\<rparr>"

definition decision_messages :: "FamilyAuthorizationDecision \<Rightarrow> string list" where
  "decision_messages d =
     messages (identifier_list ''allowed_person_ids'' (fd_allowed_person_ids d)) @
     messages (identifier_list ''consent_ids'' (fd_consent_ids d)) @
     messages (require_identifier ''policy_version'' (fd_policy_version d))"

definition normalized_decision :: "FamilyAuthorizationDecision \<Rightarrow> FamilyAuthorizationDecision" where
  "normalized_decision d =
     d\<lparr>fd_allowed_person_ids := valid (identifier_list ''allowed_person_ids'' (fd_allowed_person_ids d)),
       fd_allowed_visibility := dedup (fd_allowed_visibility d),
       fd_allowed_actions := dedup (fd_allowed_actions d),
       fd_consent_ids := valid (identifier_list ''consent_ids'' (fd_consent_ids d)),
       fd_policy_version := valid (require_identifier ''policy_version'' (fd_policy_version d))\<rparr>"

definition FAMILY_AUTHORIZATION_CONTRACT_VERSION :: string where
  "FAMILY_AUTHORIZATION_CONTRACT_VERSION = ''hexe.family-identity-authorization.v1''"

definition lifetime_error :: "FamilyAuthorizationContext \<Rightarrow> string option" where
  "lifetime_error a =
     (let issued = datetime_utc (fa_issued_at a); expires = datetime_utc (fa_expires_at a)
      in if expires \<le> issued then Some ''authorization_expiry_invalid''
         else if seconds 120 < expires - issued then Some ''authorization_lifetime_exceeds_limit''
         else None)"

definition authorization_messages :: "FamilyAuthorizationContext \<Rightarrow> string list" where
  "authorization_messages a =
     model_messages
       (messages (literal_field [FAMILY_AUTHORIZATION_CONTRACT_VERSION] (fa_contract_version a)) @
        messages (require_identifier ''authorization_id'' (fa_authorization_id a)) @
        messages (require_identifier ''core_id'' (fa_core_id a)) @
        messages (require_identifier ''household_id'' (fa_household_id a)) @
        requester_messages (fa_requester a) @
        concat (map participant_messages (fa_participants a)) @
        room_messages (fa_context a) @
        operation_messages (fa_operation a) @
        decision_messages (fa_decision a) @
        messages (require_aware_datetime ''issued_at'' (fa_issued_at a)) @
        messages (require_aware_datetime ''expires_at'' (fa_expires_at a)) @
        messages (require_identifier ''jti'' (fa_jti a)))
       (lifetime_error a)"

definition normalized_authorization :: "FamilyAuthorizationContext \<Rightarrow> FamilyAuthorizationContext" where
  "normalized_authorization a =
     a\<lparr>fa_authorization_id := valid (require_identifier ''authorization_id'' (fa_authorization_id a)),
       fa_core_id := valid (require_identifier ''core_id'' (fa_core_id a)),
       fa_household_id := valid (require_identifier ''household_id'' (fa_household_id a)),
       fa_requester := normalized_requester (fa_requester a),
       fa_participants := map normalized_participant (fa_participants a),
       fa_context := normalized_room (fa_context a),
       fa_operation := normalized_operation (fa_operation a),
       fa_decision := normalized_decision (fa_decision a),
       fa_jti := valid (require_identifier ''jti'' (fa_jti a))\<rparr>"

definition validated :: "string list \<Rightarrow> 'a \<Rightarrow> string list + 'a" where
  "validated ms x = (if ms = [] then Inr x else Inl ms)"

definition validate_authorization :: "FamilyAuthorizationContext \<Rightarrow> string list + FamilyAuthorizationContext" where
  "validate_authorization a = validated (authorization_messages a) (normalized_authorization a)"

definition interaction_messages :: "FamilyInteractionContext \<Rightarrow> string list" where
  "interaction_messages c =
     messages (literal_field [''1.0''] (fi_schema_version c)) @
     messages (require_identifier ''interaction_id'' (fi_interaction_id c)) @
     messages (require_identifier ''core_id'' (fi_core_id c)) @
     messages (require_identifier ''household_id'' (fi_household_id c)) @
     messages (optional_identifier ''room_id'' (fi_room_id c)) @
     messages (optional_identifier ''endpoint_id'' (fi_endpoint_id c)) @
     messages (identifier_list ''participant_person_ids'' (fi_participant_person_ids c)) @
     messages (require_identifier ''authorization_id'' (fi_authorization_id c)) @
     messages (require_aware_datetime ''created_at'' (fi_created_at c))"

definition validate_interaction :: "FamilyInteractionContext \<Rightarrow> string list + FamilyInteractionContext" where
  "validate_interaction c =
     validated (interaction_messages c)
       (c\<lparr>fi_interaction_id := valid (require_identifier ''interaction_id'' (fi_interaction_id c)),
          fi_core_id := valid (require_identifier ''core_id'' (fi_core_id c)),
          fi_household_id := valid (require_identifier ''household_id'' (fi_household_id c)),
          fi_room_id := valid (optional_identifier ''room_id'' (fi_room_id c)),
          fi_endpoint_id := valid (optional_identifier ''endpoint_id'' (fi_endpoint_id c)),
          fi_participant_person_ids := valid (identifier_list ''participant_person_ids'' (fi_participant_person_ids c)),
          fi_authorization_id := valid (require_identifier ''authorization_id'' (fi_authorization_id c))\<rparr>)"

definition scope_error :: "FamilyMemoryRecord \<Rightarrow> string option" where
  "scope_error m =
     (if fm_visibility m = PrivateMemory \<and> (length (fm_subject_person_ids m) \<noteq> 1 \<or> fm_audience_person_ids m \<noteq> [])
      then Some ''private_memory_scope_invalid''
      else if fm_visibility m = ExplicitMemory \<and> fm_audience_person_ids m = [] then Some ''explicit_memory_audience_required''
      else if earlier (fm_updated_at m) (fm_created_at m) then Some ''memory_updated_at_before_created_at''
      else if (case fm_expires_at m of None \<Rightarrow> False | Some t \<Rightarrow> \<not> earlier (fm_created_at m) t) then Some ''memory_expiry_invalid''
      else None)"

definition summary_field :: "string \<Rightarrow> string result" where
  "summary_field s =
     (if s = [] then Inl (ValueError ''string_too_short'')
      else if 4096 < length s then Inl (ValueError ''string_too_long'') else Inr s)"

definition normalized_memory :: "FamilyMemoryRecord \<Rightarrow> FamilyMemoryRecord" where
  "normalized_memory m =
     m\<lparr>fm_memory_id := valid (require_identifier ''memory_id'' (fm_memory_id m)),
       fm_core_id := valid (require_identifier ''core_id'' (fm_core_id m)),
       fm_household_id := valid (require_identifier ''household_id'' (fm_household_id m)),
       fm_subject_person_ids := valid (identifier_list ''subject_person_ids'' (fm_subject_person_ids m)),
       fm_audience_person_ids := valid (identifier_list ''audience_person_ids'' (fm_audience_person_ids m)),
       fm_consent_ids := valid (identifier_list ''consent_ids'' (fm_consent_ids m)),
       fm_source_interaction_id := valid (require_identifier ''source_interaction_id'' (fm_source_interaction_id m)),
       fm_source_room_id := valid (optional_identifier ''source_room_id'' (fm_source_room_id m))\<rparr>"

text \<open>The validator of the whole record sees its lists without their duplicates.\<close>

definition memory_messages :: "FamilyMemoryRecord \<Rightarrow> string list" where
  "memory_messages m =
     model_messages
       (messages (literal_field [''1.0''] (fm_schema_version m)) @
        messages (require_identifier ''memory_id'' (fm_memory_id m)) @
        messages (require_identifier ''core_id'' (fm_core_id m)) @
        messages (require_identifier ''household_id'' (fm_household_id m)) @
        messages (at_least_one (identifier_list ''subject_person_ids'') (fm_subject_person_ids m)) @
        messages (identifier_list ''audience_person_ids'' (fm_audience_person_ids m)) @
        messages (summary_field (fm_summary m)) @
        messages (at_least_one (identifier_list ''consent_ids'') (fm_consent_ids m)) @
        messages (require_identifier ''source_interaction_id'' (fm_source_interaction_id m)) @
        messages (optional_identifier ''source_room_id'' (fm_source_room_id m)) @
        messages (require_aware_datetime ''created_at'' (fm_created_at m)) @
        messages (require_aware_datetime ''updated_at'' (fm_updated_at m)) @
        messages (optional_field (require_aware_datetime ''expires_at'') (fm_expires_at m)))
       (scope_error (normalized_memory m))"

definition validate_memory :: "FamilyMemoryRecord \<Rightarrow> string list + FamilyMemoryRecord" where
  "validate_memory m = validated (memory_messages m) (normalized_memory m)"

definition audit_messages :: "FamilyMemoryAuditEvent \<Rightarrow> string list" where
  "audit_messages e =
     messages (literal_field [''1.0''] (fe_schema_version e)) @
     messages (require_identifier ''event_id'' (fe_event_id e)) @
     messages (require_identifier ''authorization_id'' (fe_authorization_id e)) @
     messages (require_identifier ''reason'' (fe_reason e)) @
     messages (identifier_list ''subject_person_ids'' (fe_subject_person_ids e)) @
     messages (identifier_list ''memory_ids'' (fe_memory_ids e)) @
     messages (require_aware_datetime ''occurred_at'' (fe_occurred_at e))"

definition validate_audit :: "FamilyMemoryAuditEvent \<Rightarrow> string list + FamilyMemoryAuditEvent" where
  "validate_audit e =
     validated (audit_messages e)
       (e\<lparr>fe_event_id := valid (require_identifier ''event_id'' (fe_event_id e)),
          fe_authorization_id := valid (require_identifier ''authorization_id'' (fe_authorization_id e)),
          fe_reason := valid (require_identifier ''reason'' (fe_reason e)),
          fe_subject_person_ids := valid (identifier_list ''subject_person_ids'' (fe_subject_person_ids e)),
          fe_memory_ids := valid (identifier_list ''memory_ids'' (fe_memory_ids e))\<rparr>)"

definition lifecycle_request_messages :: "FamilyMemoryLifecycleRequest \<Rightarrow> string list" where
  "lifecycle_request_messages q =
     model_messages
       (messages (literal_field [''1.0''] (fl_schema_version q)) @
        messages (require_identifier ''request_id'' (fl_request_id q)) @
        messages (require_identifier ''authorization_id'' (fl_authorization_id q)) @
        messages (require_identifier ''core_id'' (fl_core_id q)) @
        messages (require_identifier ''household_id'' (fl_household_id q)) @
        messages (at_least_one (identifier_list ''subject_person_ids'') (fl_subject_person_ids q)) @
        messages (at_least_one (identifier_list ''categories'') (fl_categories q)) @
        messages (require_aware_datetime ''requested_at'' (fl_requested_at q)) @
        messages (require_aware_datetime ''expires_at'' (fl_expires_at q)))
       (if earlier (fl_requested_at q) (fl_expires_at q) then None else Some ''lifecycle_request_expiry_invalid'')"

definition validate_lifecycle_request :: "FamilyMemoryLifecycleRequest \<Rightarrow> string list + FamilyMemoryLifecycleRequest" where
  "validate_lifecycle_request q =
     validated (lifecycle_request_messages q)
       (q\<lparr>fl_request_id := valid (require_identifier ''request_id'' (fl_request_id q)),
          fl_authorization_id := valid (require_identifier ''authorization_id'' (fl_authorization_id q)),
          fl_core_id := valid (require_identifier ''core_id'' (fl_core_id q)),
          fl_household_id := valid (require_identifier ''household_id'' (fl_household_id q)),
          fl_subject_person_ids := valid (identifier_list ''subject_person_ids'' (fl_subject_person_ids q)),
          fl_categories := valid (identifier_list ''categories'' (fl_categories q))\<rparr>)"

definition normalized_receipt :: "FamilyMemoryDeletionReceipt \<Rightarrow> FamilyMemoryDeletionReceipt" where
  "normalized_receipt r =
     r\<lparr>dr_receipt_id := valid (require_identifier ''receipt_id'' (dr_receipt_id r)),
       dr_request_id := valid (require_identifier ''request_id'' (dr_request_id r)),
       dr_authorization_id := valid (require_identifier ''authorization_id'' (dr_authorization_id r)),
       dr_core_id := valid (require_identifier ''core_id'' (dr_core_id r)),
       dr_household_id := valid (require_identifier ''household_id'' (dr_household_id r)),
       dr_subject_person_ids := valid (identifier_list ''subject_person_ids'' (dr_subject_person_ids r)),
       dr_categories_deleted := valid (identifier_list ''categories_deleted'' (dr_categories_deleted r)),
       dr_categories_retained := valid (identifier_list ''categories_retained'' (dr_categories_retained r)),
       dr_retention_reason := valid (optional_identifier ''retention_reason'' (dr_retention_reason r))\<rparr>"

definition receipt_error :: "FamilyMemoryDeletionReceipt \<Rightarrow> string option" where
  "receipt_error r =
     (if list_ex (\<lambda>c. c \<in> set (dr_categories_retained r)) (dr_categories_deleted r) then Some ''deletion_receipt_category_overlap''
      else if dr_categories_retained r \<noteq> [] \<and> dr_retention_reason r = None
      then Some ''deletion_receipt_retention_reason_required''
      else if dr_status r = RequestCompleted \<and> dr_categories_retained r \<noteq> []
      then Some ''deletion_receipt_completed_with_retained_categories''
      else None)"

definition receipt_messages :: "FamilyMemoryDeletionReceipt \<Rightarrow> string list" where
  "receipt_messages r =
     model_messages
       (messages (literal_field [''1.0''] (dr_schema_version r)) @
        messages (require_identifier ''receipt_id'' (dr_receipt_id r)) @
        messages (require_identifier ''request_id'' (dr_request_id r)) @
        messages (require_identifier ''authorization_id'' (dr_authorization_id r)) @
        messages (require_identifier ''core_id'' (dr_core_id r)) @
        messages (require_identifier ''household_id'' (dr_household_id r)) @
        messages (at_least_one (identifier_list ''subject_person_ids'') (dr_subject_person_ids r)) @
        messages (identifier_list ''categories_deleted'' (dr_categories_deleted r)) @
        messages (identifier_list ''categories_retained'' (dr_categories_retained r)) @
        messages (optional_identifier ''retention_reason'' (dr_retention_reason r)) @
        messages (require_aware_datetime ''completed_at'' (dr_completed_at r)))
       (receipt_error (normalized_receipt r))"

definition validate_receipt :: "FamilyMemoryDeletionReceipt \<Rightarrow> string list + FamilyMemoryDeletionReceipt" where
  "validate_receipt r = validated (receipt_messages r) (normalized_receipt r)"

definition manifest_messages :: "FamilyMemoryExportManifest \<Rightarrow> string list" where
  "manifest_messages e =
     messages (literal_field [''1.0''] (em_schema_version e)) @
     messages (require_identifier ''export_id'' (em_export_id e)) @
     messages (require_identifier ''request_id'' (em_request_id e)) @
     messages (require_identifier ''authorization_id'' (em_authorization_id e)) @
     messages (require_identifier ''core_id'' (em_core_id e)) @
     messages (require_identifier ''household_id'' (em_household_id e)) @
     messages (at_least_one (identifier_list ''subject_person_ids'') (em_subject_person_ids e)) @
     messages (identifier_list ''categories_exported'' (em_categories_exported e)) @
     (if 0 \<le> em_record_count e then [] else [''greater_than_equal'']) @
     messages (require_aware_datetime ''generated_at'' (em_generated_at e))"

definition validate_manifest :: "FamilyMemoryExportManifest \<Rightarrow> string list + FamilyMemoryExportManifest" where
  "validate_manifest e =
     validated (manifest_messages e)
       (e\<lparr>em_export_id := valid (require_identifier ''export_id'' (em_export_id e)),
          em_request_id := valid (require_identifier ''request_id'' (em_request_id e)),
          em_authorization_id := valid (require_identifier ''authorization_id'' (em_authorization_id e)),
          em_core_id := valid (require_identifier ''core_id'' (em_core_id e)),
          em_household_id := valid (require_identifier ''household_id'' (em_household_id e)),
          em_subject_person_ids := valid (identifier_list ''subject_person_ids'' (em_subject_person_ids e)),
          em_categories_exported := valid (identifier_list ''categories_exported'' (em_categories_exported e))\<rparr>)"

section \<open>The policy\<close>

record FamilyMemoryPolicyDecision =
  mp_allowed :: bool
  mp_reason :: string
  mp_authorization_id :: "string option"
  mp_allowed_person_ids :: "string list"
  mp_allowed_visibility :: "MemoryVisibility list"

definition deny :: "string \<Rightarrow> FamilyAuthorizationContext option \<Rightarrow> FamilyMemoryPolicyDecision" where
  "deny reason context =
     \<lparr>mp_allowed = False, mp_reason = reason, mp_authorization_id = map_option fa_authorization_id context,
      mp_allowed_person_ids = [], mp_allowed_visibility = []\<rparr>"

definition participant_ids :: "FamilyAuthorizationContext \<Rightarrow> string list" where
  "participant_ids a = dedup (List.map_filter fp_person_id (fa_participants a))"

definition identity_states :: "FamilyAuthorizationContext \<Rightarrow> IdentityState list" where
  "identity_states a = map fp_identity_state (fa_participants a)"

definition normalized_subjects :: "string list \<Rightarrow> string list" where
  "normalized_subjects subject_person_ids = dedup (filter (\<lambda>s. s \<noteq> []) (map py_strip subject_person_ids))"

definition subset_of :: "'a list \<Rightarrow> 'a list \<Rightarrow> bool" where
  "subset_of xs ys = list_all (\<lambda>x. x \<in> set ys) xs"

text \<open>The clock of the caller, with or without a time zone. A request without a context has no \<open>authorization\<close>.\<close>

definition evaluate_family_memory_access ::
    "FamilyAuthorizationContext option \<Rightarrow> MemoryAction \<Rightarrow> MemoryVisibility \<Rightarrow> string list \<Rightarrow> string \<Rightarrow> string
      \<Rightarrow> string option \<Rightarrow> datetime \<Rightarrow> FamilyMemoryPolicyDecision" where
  "evaluate_family_memory_access authorization action visibility subject_person_ids expected_core_id
       expected_household_id expected_room_id now =
     (case authorization of
        None \<Rightarrow> deny ''identity_required'' None
      | Some a \<Rightarrow>
        let subjects = normalized_subjects subject_person_ids; states = identity_states a; persons = participant_ids a;
            d = fa_decision a
        in if (case now of Naive _ \<Rightarrow> True | Aware _ \<Rightarrow> False) then deny ''authorization_expired'' (Some a)
           else if earlier now (fa_issued_at a) \<or> \<not> earlier now (fa_expires_at a) then deny ''authorization_expired'' (Some a)
           else if fa_core_id a \<noteq> expected_core_id then deny ''wrong_core'' (Some a)
           else if fa_household_id a \<noteq> expected_household_id then deny ''wrong_household'' (Some a)
           else if expected_room_id \<noteq> None \<and> fc_room_id (fa_context a) \<noteq> expected_room_id then deny ''wrong_room'' (Some a)
           else if visibility = RoomMemory \<and> fc_room_id (fa_context a) = None then deny ''wrong_room'' (Some a)
           else if fd_effect d \<noteq> AllowEffect then deny ''operation_denied'' (Some a)
           else if fo_kind (fa_operation a) \<noteq> action \<or> action \<notin> set (fd_allowed_actions d) then deny ''operation_denied'' (Some a)
           else if visibility \<notin> set (fo_requested_visibility (fa_operation a)) then deny ''visibility_denied'' (Some a)
           else if visibility \<notin> set (fd_allowed_visibility d) then deny ''visibility_denied'' (Some a)
           else if subjects = [] then deny ''identity_required'' (Some a)
           else if \<not> subset_of subjects (fd_allowed_person_ids d) then deny ''visibility_denied'' (Some a)
           else if fd_consent_ids d = [] then deny ''consent_required'' (Some a)
           else if (UnknownIdentity \<in> set states \<or> Conflicted \<in> set states)
             \<and> visibility \<in> {PrivateMemory, ExplicitMemory, GuardianManaged} then deny ''identity_uncertain'' (Some a)
           else if Probable \<in> set states
             \<and> (visibility \<in> {PrivateMemory, ExplicitMemory, GuardianManaged} \<or> fo_risk (fa_operation a) = SensitiveRisk)
           then deny ''identity_uncertain'' (Some a)
           else if fr_platform_role (fa_requester a) = Guest
             \<and> (action \<noteq> MemoryRead \<or> visibility \<in> {PrivateMemory, GuardianManaged}) then deny ''operation_denied'' (Some a)
           else if visibility = PrivateMemory \<and> length subjects \<noteq> 1 then deny ''visibility_denied'' (Some a)
           else if visibility = PrivateMemory
             \<and> (length persons \<noteq> 1 \<or> \<not> (subset_of persons subjects \<and> subset_of subjects persons))
           then deny ''visibility_denied'' (Some a)
           else if 1 < length persons \<and> \<not> subset_of persons (fd_allowed_person_ids d) then deny ''visibility_denied'' (Some a)
           else \<lparr>mp_allowed = True, mp_reason = ''family_memory_allowed'', mp_authorization_id = Some (fa_authorization_id a),
                 mp_allowed_person_ids = subjects, mp_allowed_visibility = [visibility]\<rparr>)"


section \<open>Lemmas on the validators\<close>

lemma identifier_iff: "require_identifier f v = Inr s \<longleftrightarrow> s = py_strip v \<and> s \<noteq> [] \<and> length s \<le> 255"
  by (simp add: require_identifier_def normalized_string_iff)

lemma identifier_again: "require_identifier f v = Inr s \<Longrightarrow> require_identifier f s = Inr s"
  by (auto simp: identifier_iff)

lemma optional_identifier_again: "optional_identifier f v = Inr w \<Longrightarrow> optional_identifier f w = Inr w"
  unfolding optional_identifier_def by (erule optional_field_again) (rule identifier_again)

lemma optional_identifier_None: "optional_identifier f v = Inr w \<Longrightarrow> w = None \<longleftrightarrow> v = None"
  by (auto simp: optional_identifier_def optional_field_Inr_iff split: option.splits)

lemma identifiers_iff: "identifiers f vs = Inr ws \<longleftrightarrow> list_all2 (\<lambda>v w. require_identifier f v = Inr w) vs ws"
  by (induction f vs arbitrary: ws rule: identifiers.induct) (auto simp: ebind_Inr_conv list_all2_Cons1)

lemma identifiers_same: "identifiers f vs = Inr vs \<longleftrightarrow> (\<forall>v\<in>set vs. require_identifier f v = Inr v)"
  by (simp add: identifiers_iff list.rel_eq_onp [unfolded eq_onp_def] list_all2_same)

lemma identifier_list_facts:
  assumes "identifier_list f vs = Inr ws"
  shows "identifier_list f ws = Inr ws" and "distinct ws" and "ws = [] \<longleftrightarrow> vs = []"
proof -
  obtain us where us: "list_all2 (\<lambda>v w. require_identifier f v = Inr w) vs us" "ws = dedup us"
    using assms by (auto simp: identifier_list_def ebind_Inr_conv identifiers_iff)
  have "\<forall>u\<in>set us. require_identifier f u = Inr u"
    using us(1) by (auto simp: list_all2_conv_all_nth in_set_conv_nth) (metis identifier_again)
  then have "identifiers f ws = Inr ws" by (simp add: us(2) identifiers_same)
  then show "identifier_list f ws = Inr ws" by (simp add: identifier_list_def us(2))
  show "distinct ws" by (simp add: us(2))
  show "ws = [] \<longleftrightarrow> vs = []" using us by (auto dest: list_all2_lengthD)
qed

lemma at_least_one_iff: "at_least_one f vs = Inr ws \<longleftrightarrow> vs \<noteq> [] \<and> f vs = Inr ws"
  by (auto simp: at_least_one_def)

lemma aware_iff: "require_aware_datetime f t = Inr u \<longleftrightarrow> u = t \<and> (\<exists>i. t = Aware i)"
  by (cases t) (auto simp: require_aware_datetime_def)

lemma model_messages_Nil [simp]: "model_messages ms whole = [] \<longleftrightarrow> ms = [] \<and> whole = None"
  by (auto simp: model_messages_def split: option.splits)

lemma validated_iff [simp]: "validated ms x = Inr y \<longleftrightarrow> ms = [] \<and> y = x"
  by (auto simp: validated_def)

text \<open>A record that was validated is validated again as itself.\<close>

lemma validate_memory_again:
  assumes "validate_memory m0 = Inr m"
  shows "validate_memory m = Inr m"
proof -
  have m: "m = normalized_memory m0" "scope_error m = None" and ms: "memory_messages m0 = []"
    using assms by (auto simp: validate_memory_def memory_messages_def)
  obtain a b c d e f g h where v:
    "require_identifier ''memory_id'' (fm_memory_id m0) = Inr a" "require_identifier ''core_id'' (fm_core_id m0) = Inr b"
    "require_identifier ''household_id'' (fm_household_id m0) = Inr c"
    "identifier_list ''subject_person_ids'' (fm_subject_person_ids m0) = Inr d"
    "identifier_list ''audience_person_ids'' (fm_audience_person_ids m0) = Inr e"
    "identifier_list ''consent_ids'' (fm_consent_ids m0) = Inr f"
    "require_identifier ''source_interaction_id'' (fm_source_interaction_id m0) = Inr g"
    "optional_identifier ''source_room_id'' (fm_source_room_id m0) = Inr h" "d \<noteq> []" "f \<noteq> []"
    using ms by (auto simp: memory_messages_def at_least_one_iff identifier_list_facts(3))
  have n: "m = m0\<lparr>fm_memory_id := a, fm_core_id := b, fm_household_id := c, fm_subject_person_ids := d,
      fm_audience_person_ids := e, fm_consent_ids := f, fm_source_interaction_id := g, fm_source_room_id := h\<rparr>"
    using m(1) v by (simp add: normalized_memory_def)
  have same: "normalized_memory m = m"
    unfolding normalized_memory_def n
    by (simp add: identifier_again [OF v(1)] identifier_again [OF v(2)] identifier_again [OF v(3)] identifier_again [OF v(7)]
      identifier_list_facts(1) [OF v(4)] identifier_list_facts(1) [OF v(5)] identifier_list_facts(1) [OF v(6)]
      optional_identifier_again [OF v(8)])
  have "memory_messages m = []"
    using ms m(2) unfolding memory_messages_def same
    by (simp add: n identifier_again [OF v(1)] identifier_again [OF v(2)] identifier_again [OF v(3)] identifier_again [OF v(7)]
      identifier_list_facts(1) [OF v(4)] identifier_list_facts(1) [OF v(5)] identifier_list_facts(1) [OF v(6)]
      optional_identifier_again [OF v(8)] at_least_one_def v(9,10))
  then show ?thesis by (simp add: validate_memory_def same)
qed

lemma validated_participant:
  assumes "participant_messages p = []"
  shows "fp_person_id (normalized_participant p) = None \<longleftrightarrow> fp_identity_state (normalized_participant p) \<in> {UnknownIdentity, Conflicted}"
proof -
  obtain w where w: "optional_identifier ''person_id'' (fp_person_id p) = Inr w" and e: "identity_error p = None"
    using assms by (auto simp: participant_messages_def)
  have "fp_person_id p = None \<longleftrightarrow> fp_identity_state p \<in> {UnknownIdentity, Conflicted}"
    using e by (cases "fp_identity_state p") (auto simp: identity_error_def split: if_splits)
  then show ?thesis using optional_identifier_None [OF w] by (simp add: normalized_participant_def w)
qed

lemma validated_authorization:
  assumes "validate_authorization a0 = Inr a"
  shows "\<exists>i e. fa_issued_at a = Aware i \<and> fa_expires_at a = Aware e \<and> i < e \<and> e - i \<le> seconds 120"
    and "p \<in> set (fa_participants a) \<Longrightarrow> fp_person_id p = None \<longleftrightarrow> fp_identity_state p \<in> {UnknownIdentity, Conflicted}"
proof -
  have m: "authorization_messages a0 = []" and a: "a = normalized_authorization a0"
    using assms by (simp_all add: validate_authorization_def)
  show "\<exists>i e. fa_issued_at a = Aware i \<and> fa_expires_at a = Aware e \<and> i < e \<and> e - i \<le> seconds 120"
    using m by (auto simp: a normalized_authorization_def authorization_messages_def aware_iff lifetime_error_def Let_def
      split: if_splits)
  show "fp_person_id p = None \<longleftrightarrow> fp_identity_state p \<in> {UnknownIdentity, Conflicted}" if "p \<in> set (fa_participants a)"
    using that m validated_participant by (auto simp: a normalized_authorization_def authorization_messages_def)
qed

section \<open>Lemmas on the policy\<close>

lemma subset_of_iff [simp]: "subset_of xs ys \<longleftrightarrow> set xs \<subseteq> set ys"
  by (auto simp: subset_of_def list_all_iff)

lemma deny_simps [simp]: "mp_allowed (deny r c) = False" "mp_allowed_person_ids (deny r c) = []"
  by (simp_all add: deny_def)

lemma set_participant_ids: "set (participant_ids a) = {i. \<exists>p\<in>set (fa_participants a). fp_person_id p = Some i}"
  by (force simp: participant_ids_def List.map_filter_def)

lemma distinct_participant_ids [simp]: "distinct (participant_ids a)"
  by (simp add: participant_ids_def)

lemma allowed_if: "mp_allowed (if b then deny r c else x) \<longleftrightarrow> \<not> b \<and> mp_allowed x"
  by simp

text \<open>What an allowed request has passed.\<close>

lemma access_passed:
  assumes "mp_allowed (evaluate_family_memory_access (Some a) action visibility subjects core household room now)"
  shows "\<exists>t. now = Aware t" and "\<not> earlier now (fa_issued_at a)" and "earlier now (fa_expires_at a)"
    and "fa_core_id a = core" and "fa_household_id a = household"
    and "room \<noteq> None \<Longrightarrow> fc_room_id (fa_context a) = room"
    and "fd_effect (fa_decision a) = AllowEffect"
    and "fo_kind (fa_operation a) = action" and "action \<in> set (fd_allowed_actions (fa_decision a))"
    and "visibility \<in> set (fd_allowed_visibility (fa_decision a))"
    and "normalized_subjects subjects \<noteq> []" and "set (normalized_subjects subjects) \<subseteq> set (fd_allowed_person_ids (fa_decision a))"
    and "fd_consent_ids (fa_decision a) \<noteq> []"
    and "visibility \<in> {PrivateMemory, ExplicitMemory, GuardianManaged} \<Longrightarrow>
      set (identity_states a) \<inter> {UnknownIdentity, Conflicted, Probable} = {}"
    and "fr_platform_role (fa_requester a) = Guest \<Longrightarrow> action = MemoryRead \<and> visibility \<notin> {PrivateMemory, GuardianManaged}"
    and "visibility = PrivateMemory \<Longrightarrow> length (normalized_subjects subjects) = 1 \<and>
      set (participant_ids a) = set (normalized_subjects subjects)"
    and "mp_allowed_person_ids (evaluate_family_memory_access (Some a) action visibility subjects core household room now) =
      normalized_subjects subjects"
proof -
  note p = assms [unfolded evaluate_family_memory_access_def Let_def option.case, unfolded allowed_if]
  show "\<exists>t. now = Aware t" using p by (cases now) simp_all
  show "\<not> earlier now (fa_issued_at a)" "earlier now (fa_expires_at a)" "fa_core_id a = core" "fa_household_id a = household"
    "fd_effect (fa_decision a) = AllowEffect" "fo_kind (fa_operation a) = action" "action \<in> set (fd_allowed_actions (fa_decision a))"
    "visibility \<in> set (fd_allowed_visibility (fa_decision a))" "normalized_subjects subjects \<noteq> []"
    "fd_consent_ids (fa_decision a) \<noteq> []"
    using p by blast+
  show "set (normalized_subjects subjects) \<subseteq> set (fd_allowed_person_ids (fa_decision a))" using p unfolding subset_of_iff by blast
  show "fc_room_id (fa_context a) = room" if "room \<noteq> None" using p that by blast
  show "set (identity_states a) \<inter> {UnknownIdentity, Conflicted, Probable} = {}"
    if "visibility \<in> {PrivateMemory, ExplicitMemory, GuardianManaged}" using p that by blast
  show "action = MemoryRead \<and> visibility \<notin> {PrivateMemory, GuardianManaged}"
    if "fr_platform_role (fa_requester a) = Guest" using p that by blast
  show "length (normalized_subjects subjects) = 1 \<and> set (participant_ids a) = set (normalized_subjects subjects)"
    if "visibility = PrivateMemory" using p that unfolding subset_of_iff by blast
  show "mp_allowed_person_ids (evaluate_family_memory_access (Some a) action visibility subjects core household room now) =
      normalized_subjects subjects"
    unfolding evaluate_family_memory_access_def Let_def option.case using p by (simp only: if_False) simp
qed


lemma evaluate_participants:
  assumes "visibility \<notin> {PrivateMemory, ExplicitMemory, GuardianManaged}"
    and "participant_ids a = participant_ids b" and "Probable \<in> set (identity_states a) \<longleftrightarrow> Probable \<in> set (identity_states b)"
    and "b = a\<lparr>fa_participants := ps\<rparr>"
  shows "evaluate_family_memory_access (Some a) action visibility subjects core household room now =
    evaluate_family_memory_access (Some b) action visibility subjects core household room now"
proof -
  have f: "fa_issued_at b = fa_issued_at a" "fa_expires_at b = fa_expires_at a" "fa_core_id b = fa_core_id a"
    "fa_household_id b = fa_household_id a" "fa_context b = fa_context a" "fa_decision b = fa_decision a"
    "fa_operation b = fa_operation a" "fa_requester b = fa_requester a" "fa_authorization_id b = fa_authorization_id a"
    "deny r (Some b) = deny r (Some a)" for r
    by (simp_all add: assms(4) deny_def)
  have v: "visibility \<in> {PrivateMemory, ExplicitMemory, GuardianManaged} \<longleftrightarrow> False" using assms(1) by simp
  show ?thesis
    unfolding evaluate_family_memory_access_def Let_def option.case
    by (simp only: f assms(2,3) v simp_thms if_False)
qed

section \<open>What the policy promises\<close>

text \<open>
  C21. An allowed access is asked within the lifetime of its authorisation, at most two minutes, for
  the household of the authorisation and for persons it allows, with a consent. Private memory is
  the memory of the one person who is present, recognised with certainty, and never goes to a
  guest; nor does the memory a guardian manages.
\<close>

theorem memory_access_sound:
  assumes "validate_authorization a0 = Inr a"
    and "d = evaluate_family_memory_access (Some a) action visibility subjects core household room now" and "mp_allowed d"
  shows "(\<exists>t i e. now = Aware t \<and> fa_issued_at a = Aware i \<and> fa_expires_at a = Aware e \<and> i \<le> t \<and> t < e \<and> t - i < seconds 120) \<and>
    fa_core_id a = core \<and> fa_household_id a = household \<and>
    mp_allowed_person_ids d \<noteq> [] \<and> set (mp_allowed_person_ids d) \<subseteq> set (fd_allowed_person_ids (fa_decision a)) \<and>
    fd_consent_ids (fa_decision a) \<noteq> [] \<and>
    (visibility = PrivateMemory \<longrightarrow>
      (\<exists>p. mp_allowed_person_ids d = [p] \<and> fa_participants a \<noteq> [] \<and> (\<forall>q\<in>set (fa_participants a). fp_person_id q = Some p))) \<and>
    (visibility \<in> {PrivateMemory, ExplicitMemory, GuardianManaged} \<longrightarrow>
      (\<forall>q\<in>set (fa_participants a). fp_identity_state q \<in> {Authenticated, Verified, Confirmed})) \<and>
    (fr_platform_role (fa_requester a) = Guest \<longrightarrow> action = MemoryRead \<and> visibility \<notin> {PrivateMemory, GuardianManaged})"
proof -
  note p = access_passed [OF assms(3) [unfolded assms(2)]]
  have ids: "mp_allowed_person_ids d = normalized_subjects subjects" using p(17) by (simp add: assms(2))
  have time: "\<exists>t i e. now = Aware t \<and> fa_issued_at a = Aware i \<and> fa_expires_at a = Aware e \<and> i \<le> t \<and> t < e \<and> t - i < seconds 120"
    using p(1-3) validated_authorization(1) [OF assms(1)] by (auto simp: earlier_def)
  have states: "fp_identity_state q \<in> {Authenticated, Verified, Confirmed}"
    if "visibility \<in> {PrivateMemory, ExplicitMemory, GuardianManaged}" "q \<in> set (fa_participants a)" for q
    using p(14) [OF that(1)] that(2) by (cases "fp_identity_state q") (auto simp: identity_states_def image_iff)
  have one: "\<exists>p. mp_allowed_person_ids d = [p] \<and> fa_participants a \<noteq> [] \<and> (\<forall>q\<in>set (fa_participants a). fp_person_id q = Some p)"
    if v: "visibility = PrivateMemory"
  proof -
    obtain i where i: "normalized_subjects subjects = [i]" using p(16) [OF v] by (auto simp: length_Suc_conv)
    have "set (participant_ids a) = {i}" using p(16) [OF v] by (simp add: i)
    moreover have "fp_person_id q \<noteq> None" if "q \<in> set (fa_participants a)" for q
      using states [OF _ that] v validated_authorization(2) [OF assms(1) that] by auto
    ultimately show ?thesis by (force simp: ids i set_participant_ids)
  qed
  show ?thesis
    using p(4,5,11-13,15) time states one by (simp add: ids)
qed

text \<open>
  A participant nobody recognises, or whose identity is contradictory, changes nothing when
  household or room memory is asked for, not even when the operation is marked as sensitive;
  a participant who is recognised with some doubt refuses a sensitive one.
\<close>

theorem unknown_participant_ignored:
  assumes "visibility = HouseholdMemory \<or> visibility = RoomMemory"
    and "fp_person_id u = None" and "fp_identity_state u \<noteq> Probable" and "fp_identity_state q = Probable"
  shows "evaluate_family_memory_access (Some (a\<lparr>fa_participants := u # ps\<rparr>)) action visibility subjects core household room now =
      evaluate_family_memory_access (Some (a\<lparr>fa_participants := ps\<rparr>)) action visibility subjects core household room now \<and>
    (fo_risk (fa_operation a) = SensitiveRisk \<longrightarrow>
      \<not> mp_allowed (evaluate_family_memory_access (Some (a\<lparr>fa_participants := q # ps\<rparr>)) action visibility subjects core
          household room now))"
proof (intro conjI impI)
  show "evaluate_family_memory_access (Some (a\<lparr>fa_participants := u # ps\<rparr>)) action visibility subjects core household room now =
      evaluate_family_memory_access (Some (a\<lparr>fa_participants := ps\<rparr>)) action visibility subjects core household room now"
    by (rule evaluate_participants [where ps = ps])
      (use assms(1-3) in \<open>auto simp: participant_ids_def identity_states_def List.map_filter_simps\<close>)
  assume r: "fo_risk (fa_operation a) = SensitiveRisk"
  have "Probable \<in> set (identity_states (a\<lparr>fa_participants := q # ps\<rparr>))" using assms(4) by (simp add: identity_states_def)
  then show "\<not> mp_allowed (evaluate_family_memory_access (Some (a\<lparr>fa_participants := q # ps\<rparr>)) action visibility subjects core
          household room now)"
    unfolding evaluate_family_memory_access_def Let_def option.case allowed_if using r by simp
qed

text \<open>
  A receipt of a completed deletion retains nothing; a receipt that retains a category says why,
  and never claims to have deleted it too.
\<close>

theorem receipt_honest:
  assumes "validate_receipt r0 = Inr r"
  shows "(dr_status r = RequestCompleted \<longrightarrow> dr_categories_retained r = []) \<and>
    (dr_categories_retained r \<noteq> [] \<longrightarrow> dr_retention_reason r \<noteq> None) \<and>
    set (dr_categories_deleted r) \<inter> set (dr_categories_retained r) = {} \<and> dr_subject_person_ids r \<noteq> []"
proof -
  have e: "receipt_error r = None" and m: "receipt_messages r0 = []" and r: "r = normalized_receipt r0"
    using assms by (auto simp: validate_receipt_def receipt_messages_def)
  obtain ws where "identifier_list ''subject_person_ids'' (dr_subject_person_ids r0) = Inr ws" "ws \<noteq> []"
    using m by (auto simp: receipt_messages_def at_least_one_iff identifier_list_facts(3))
  then have "dr_subject_person_ids r \<noteq> []" by (simp add: r normalized_receipt_def)
  then show ?thesis using e by (auto simp: receipt_error_def list_ex_iff split: if_splits)
qed


section \<open>Concrete instances\<close>

definition an_authorization :: "MemoryVisibility \<Rightarrow> FamilyParticipant list \<Rightarrow> FamilyAuthorizationContext" where
  "an_authorization visibility participants =
     \<lparr>fa_contract_version = FAMILY_AUTHORIZATION_CONTRACT_VERSION, fa_authorization_id = ''z'', fa_core_id = ''c'',
      fa_household_id = ''h'',
      fa_requester = \<lparr>fr_user_id = ''u'', fr_person_id = None, fr_platform_role = Member, fr_session_id = None, fr_device_id = None\<rparr>,
      fa_participants = participants,
      fa_context = \<lparr>fc_room_id = Some ''r'', fc_endpoint_id = None, fc_audience_mode = PrivateAudience\<rparr>,
      fa_operation = \<lparr>fo_kind = MemoryRead, fo_risk = SensitiveRisk, fo_requested_visibility = [visibility]\<rparr>,
      fa_decision = \<lparr>fd_effect = AllowEffect, fd_allowed_person_ids = [''p'', ''q''], fd_allowed_visibility = [visibility],
        fd_allowed_actions = [MemoryRead], fd_consent_ids = [''k''], fd_policy_version = ''v1''\<rparr>,
      fa_issued_at = Aware 0, fa_expires_at = Aware 60000000, fa_jti = ''j''\<rparr>"

definition present :: "string option \<Rightarrow> IdentityState \<Rightarrow> FamilyParticipant" where
  "present person state = \<lparr>fp_person_id = person, fp_identity_state = state, fp_evidence_id = None\<rparr>"

abbreviation private_access :: "FamilyMemoryPolicyDecision" where
  "private_access \<equiv> evaluate_family_memory_access (Some (an_authorization PrivateMemory [present (Some ''p'') Verified]))
     MemoryRead PrivateMemory [''p''] ''c'' ''h'' None (Aware 5)"

theorem memory_access_sound_witness:
  "mp_allowed private_access \<and> (\<exists>p. mp_allowed_person_ids private_access = [p])"
proof -
  have v: "validate_authorization (an_authorization PrivateMemory [present (Some ''p'') Verified]) =
      Inr (an_authorization PrivateMemory [present (Some ''p'') Verified])" by code_simp
  have a: "mp_allowed private_access" by code_simp
  from memory_access_sound [OF v refl a] show ?thesis using a by (simp only: simp_thms) blast
qed

theorem unknown_participant_ignored_witness:
  "mp_allowed (evaluate_family_memory_access
      (Some ((an_authorization HouseholdMemory [])\<lparr>fa_participants := [present None UnknownIdentity, present (Some ''p'') Verified]\<rparr>))
      MemoryRead HouseholdMemory [''p''] ''c'' ''h'' None (Aware 5)) \<and>
   \<not> mp_allowed (evaluate_family_memory_access
      (Some ((an_authorization HouseholdMemory [])\<lparr>fa_participants := [present (Some ''q'') Probable, present (Some ''p'') Verified]\<rparr>))
      MemoryRead HouseholdMemory [''p''] ''c'' ''h'' None (Aware 5))"
proof -
  have v: "HouseholdMemory = HouseholdMemory \<or> HouseholdMemory = RoomMemory" "fp_person_id (present None UnknownIdentity) = None"
    "fp_identity_state (present None UnknownIdentity) \<noteq> Probable" "fp_identity_state (present (Some ''q'') Probable) = Probable"
    by (simp_all add: present_def)
  have r: "fo_risk (fa_operation (an_authorization HouseholdMemory [])) = SensitiveRisk" by (simp add: an_authorization_def)
  have a: "mp_allowed (evaluate_family_memory_access
      (Some ((an_authorization HouseholdMemory [])\<lparr>fa_participants := [present (Some ''p'') Verified]\<rparr>))
      MemoryRead HouseholdMemory [''p''] ''c'' ''h'' None (Aware 5))" by code_simp
  show ?thesis
    using unknown_participant_ignored [OF v, where a = "an_authorization HouseholdMemory []" and ps = "[present (Some ''p'') Verified]"
      and action = MemoryRead and subjects = "[''p'']" and core = "''c''" and household = "''h''" and room = None and now = "Aware 5"]
      r a by (simp only: simp_thms)
qed

definition a_receipt :: FamilyMemoryDeletionReceipt where
  "a_receipt =
     \<lparr>dr_schema_version = ''1.0'', dr_receipt_id = ''r'', dr_request_id = ''q'', dr_authorization_id = ''z'', dr_core_id = ''c'',
      dr_household_id = ''h'', dr_subject_person_ids = [''p''], dr_categories_deleted = [''x''], dr_categories_retained = [''y''],
      dr_retention_reason = Some ''law'', dr_status = RequestIncomplete, dr_completed_at = Aware 1\<rparr>"

theorem receipt_honest_witness:
  "validate_receipt a_receipt = Inr a_receipt \<and> set (dr_categories_deleted a_receipt) \<inter> set (dr_categories_retained a_receipt) = {} \<and>
   validate_receipt (a_receipt\<lparr>dr_status := RequestCompleted\<rparr>) = Inl [''deletion_receipt_completed_with_retained_categories'']"
proof -
  have v: "validate_receipt a_receipt = Inr a_receipt" by code_simp
  have "validate_receipt (a_receipt\<lparr>dr_status := RequestCompleted\<rparr>) = Inl [''deletion_receipt_completed_with_retained_categories'']"
    by code_simp
  with receipt_honest [OF v] v show ?thesis by (simp only: simp_thms)
qed

end
