(* ===== verification/Family_Memory.thy ===== *)
theory Family_Memory
  imports Family_Policy
begin

text \<open>
  The encrypted partitions of a family's memory (\<open>family_memory/storage.py\<close>) and the retrieval from
  them (\<open>family_memory/retrieval.py\<close>). The ciphers and hashes are functions of an environment. A
  file is what its JSON and base64 decode to, \<open>None\<close> when they do not, and the plaintext is the value
  that is serialised.
\<close>

section \<open>The partitions\<close>

text \<open>
  The hashes and ciphers (a ciphertext is of any type), and how pydantic prints an instant and reads one. What a save draws from
  \<open>os.urandom\<close> and whether the file can be written depends on the person whose partition it is.
\<close>

record 'c memory_env =
  me_sha256_hex :: "string \<Rightarrow> string"
  me_sha256 :: "string \<Rightarrow> string"
  me_hkdf :: "string \<Rightarrow> string \<Rightarrow> string \<Rightarrow> string"
  me_seal :: "string \<Rightarrow> string \<Rightarrow> pyval \<Rightarrow> string \<Rightarrow> 'c"
  me_open :: "string \<Rightarrow> string \<Rightarrow> 'c \<Rightarrow> string \<Rightarrow> pyval option"
  me_print_datetime :: "int \<Rightarrow> string"
  me_parse_datetime :: "pyval \<Rightarrow> datetime option"

record save_env =
  sv_nonce :: "string \<Rightarrow> string"
  sv_writable :: "string \<Rightarrow> bool"

subsection \<open>A record as a value\<close>

fun visibility_text :: "MemoryVisibility \<Rightarrow> string" where
  "visibility_text PrivateMemory = ''private''"
| "visibility_text ExplicitMemory = ''explicit''"
| "visibility_text HouseholdMemory = ''household''"
| "visibility_text RoomMemory = ''room''"
| "visibility_text GuardianManaged = ''guardian_managed''"

fun risk_text :: "MemoryRisk \<Rightarrow> string" where
  "risk_text GeneralRisk = ''general''"
| "risk_text PersonalRisk = ''personal''"
| "risk_text SensitiveRisk = ''personal_sensitive''"

fun status_text :: "MemoryLifecycleStatus \<Rightarrow> string" where
  "status_text ActiveMemory = ''active''"
| "status_text ExpiredMemory = ''expired''"
| "status_text DeletedMemory = ''deleted''"

definition text_list :: "string list \<Rightarrow> pyval" where
  "text_list xs = PList (map PStr xs)"

definition datetime_value :: "'c memory_env \<Rightarrow> datetime \<Rightarrow> pyval" where
  "datetime_value E t = PStr (me_print_datetime E (datetime_utc t))"

definition memory_value :: "'c memory_env \<Rightarrow> FamilyMemoryRecord \<Rightarrow> pyval" where
  "memory_value E m =
     PDict [(''schema_version'', PStr (fm_schema_version m)), (''memory_id'', PStr (fm_memory_id m)),
       (''core_id'', PStr (fm_core_id m)), (''household_id'', PStr (fm_household_id m)),
       (''subject_person_ids'', text_list (fm_subject_person_ids m)),
       (''visibility'', PStr (visibility_text (fm_visibility m))),
       (''audience_person_ids'', text_list (fm_audience_person_ids m)), (''summary'', PStr (fm_summary m)),
       (''sensitivity'', PStr (risk_text (fm_sensitivity m))), (''consent_ids'', text_list (fm_consent_ids m)),
       (''source_interaction_id'', PStr (fm_source_interaction_id m)), (''source_room_id'', opt_str (fm_source_room_id m)),
       (''created_at'', datetime_value E (fm_created_at m)), (''updated_at'', datetime_value E (fm_updated_at m)),
       (''expires_at'', case fm_expires_at m of None \<Rightarrow> PNone | Some t \<Rightarrow> datetime_value E t),
       (''status'', PStr (status_text (fm_status m)))]"

text \<open>\<open>model_validate\<close> of such a value; \<open>None\<close> is any exception.\<close>

fun text_value :: "pyval \<Rightarrow> string option" where
  "text_value (PStr s) = Some s"
| "text_value _ = None"

fun text_values :: "pyval list \<Rightarrow> string list option" where
  "text_values [] = Some []"
| "text_values (v # vs) = (case (text_value v, text_values vs) of (Some s, Some ss) \<Rightarrow> Some (s # ss) | _ \<Rightarrow> None)"

fun text_list_value :: "pyval \<Rightarrow> string list option" where
  "text_list_value (PList vs) = text_values vs"
| "text_list_value _ = None"

definition or_none :: "(pyval \<Rightarrow> 'a option) \<Rightarrow> pyval \<Rightarrow> 'a option option" where
  "or_none f v = (if v = PNone then Some None else map_option Some (f v))"

definition choice :: "('a \<Rightarrow> string) \<Rightarrow> 'a list \<Rightarrow> pyval \<Rightarrow> 'a option" where
  "choice f xs v = List.find (\<lambda>x. v = PStr (f x)) xs"

text \<open>A field that has to be there, and one with a default.\<close>

definition field :: "pydict \<Rightarrow> string \<Rightarrow> (pyval \<Rightarrow> 'a option) \<Rightarrow> 'a option" where
  "field d k f = (case map_of d k of None \<Rightarrow> None | Some v \<Rightarrow> f v)"

definition field_or :: "pydict \<Rightarrow> string \<Rightarrow> 'a \<Rightarrow> (pyval \<Rightarrow> 'a option) \<Rightarrow> 'a option" where
  "field_or d k x f = (case map_of d k of None \<Rightarrow> Some x | Some v \<Rightarrow> f v)"

definition MEMORY_FIELDS :: "string list" where
  "MEMORY_FIELDS =
     [''schema_version'', ''memory_id'', ''core_id'', ''household_id'', ''subject_person_ids'', ''visibility'',
      ''audience_person_ids'', ''summary'', ''sensitivity'', ''consent_ids'', ''source_interaction_id'', ''source_room_id'',
      ''created_at'', ''updated_at'', ''expires_at'', ''status'']"

definition raw_memory :: "'c memory_env \<Rightarrow> pydict \<Rightarrow> FamilyMemoryRecord option" where
  "raw_memory E d =
     Option.bind (field_or d ''schema_version'' ''1.0'' text_value) (\<lambda>version.
     Option.bind (field d ''memory_id'' text_value) (\<lambda>memory.
     Option.bind (field d ''core_id'' text_value) (\<lambda>core.
     Option.bind (field d ''household_id'' text_value) (\<lambda>household.
     Option.bind (field d ''subject_person_ids'' text_list_value) (\<lambda>subjects.
     Option.bind (field d ''visibility''
       (choice visibility_text [PrivateMemory, ExplicitMemory, HouseholdMemory, RoomMemory, GuardianManaged])) (\<lambda>visibility.
     Option.bind (field_or d ''audience_person_ids'' [] text_list_value) (\<lambda>audience.
     Option.bind (field d ''summary'' text_value) (\<lambda>summary.
     Option.bind (field d ''sensitivity'' (choice risk_text [GeneralRisk, PersonalRisk, SensitiveRisk])) (\<lambda>sensitivity.
     Option.bind (field d ''consent_ids'' text_list_value) (\<lambda>consents.
     Option.bind (field d ''source_interaction_id'' text_value) (\<lambda>interaction.
     Option.bind (field_or d ''source_room_id'' None (or_none text_value)) (\<lambda>room.
     Option.bind (field d ''created_at'' (me_parse_datetime E)) (\<lambda>created.
     Option.bind (field d ''updated_at'' (me_parse_datetime E)) (\<lambda>updated.
     Option.bind (field_or d ''expires_at'' None (or_none (me_parse_datetime E))) (\<lambda>expires.
     Option.bind (field_or d ''status'' ActiveMemory (choice status_text [ActiveMemory, ExpiredMemory, DeletedMemory]))
       (\<lambda>status.
     Some \<lparr>fm_schema_version = version, fm_memory_id = memory, fm_core_id = core, fm_household_id = household,
        fm_subject_person_ids = subjects, fm_visibility = visibility, fm_audience_person_ids = audience,
        fm_summary = summary, fm_sensitivity = sensitivity, fm_consent_ids = consents,
        fm_source_interaction_id = interaction, fm_source_room_id = room, fm_created_at = created,
        fm_updated_at = updated, fm_expires_at = expires, fm_status = status\<rparr>))))))))))))))))"

definition memory_of_value :: "'c memory_env \<Rightarrow> pyval \<Rightarrow> FamilyMemoryRecord option" where
  "memory_of_value E v =
     (case v of
        PDict d \<Rightarrow>
          if \<not> subset_of (map fst d) MEMORY_FIELDS then None
          else Option.bind (raw_memory E d) (\<lambda>m. case validate_memory m of Inl _ \<Rightarrow> None | Inr n \<Rightarrow> Some n)
      | _ \<Rightarrow> None)"

fun memories_of_values :: "'c memory_env \<Rightarrow> pyval list \<Rightarrow> FamilyMemoryRecord list option" where
  "memories_of_values E [] = Some []"
| "memories_of_values E (v # vs) =
     (case (memory_of_value E v, memories_of_values E vs) of (Some m, Some ms) \<Rightarrow> Some (m # ms) | _ \<Rightarrow> None)"

subsection \<open>A partition\<close>

type_synonym partition_file = "string \<times> string \<times> string"

record 'c envelope =
  ev_schema_version :: pyval
  ev_nonce :: "string option"
  ev_ciphertext :: "'c option"

type_synonym 'c memory_files = "(partition_file \<times> 'c envelope option) list"

definition FAMILY_MEMORY_STORE_SCHEMA_VERSION :: string where
  "FAMILY_MEMORY_STORE_SCHEMA_VERSION = ''1.0''"

definition new_store :: "string \<Rightarrow> string result" where
  "new_store master_key =
     (if length master_key \<noteq> 32 then Inl (ValueError ''family_memory_master_key_must_be_32_bytes'') else Inr master_key)"

definition partition_path :: "'c memory_env \<Rightarrow> string \<Rightarrow> string \<Rightarrow> string \<Rightarrow> partition_file" where
  "partition_path E core_id household_id person_id =
     (me_sha256_hex E core_id, me_sha256_hex E household_id, me_sha256_hex E person_id)"

definition associated_data :: "'c memory_env \<Rightarrow> string \<Rightarrow> string \<Rightarrow> string \<Rightarrow> string" where
  "associated_data E core_id household_id person_id =
     json_dumps \<lparr>item_sep = '','', key_sep = '':'', sort_keys = True, ensure_ascii = True\<rparr>
       (PDict [(''schema_version'', PStr FAMILY_MEMORY_STORE_SCHEMA_VERSION), (''core_scope'', PStr (me_sha256_hex E core_id)),
          (''household_scope'', PStr (me_sha256_hex E household_id)), (''person_scope'', PStr (me_sha256_hex E person_id))])"

definition partition_key :: "'c memory_env \<Rightarrow> string \<Rightarrow> string \<Rightarrow> string \<Rightarrow> string \<Rightarrow> string" where
  "partition_key E master_key core_id household_id person_id =
     me_hkdf E master_key (me_sha256 E (core_id @ [char_of (0::nat)] @ household_id))
       (''hexe-family-memory-v1'' @ [char_of (0::nat)] @ person_id)"

definition store_error :: "string \<Rightarrow> exn" where
  "store_error reason = RuntimeError (''family_memory_store_'' @ reason)"

definition open_envelope :: "'c memory_env \<Rightarrow> string \<Rightarrow> 'c envelope \<Rightarrow> string \<Rightarrow> string \<Rightarrow> string \<Rightarrow> pyval option" where
  "open_envelope E master_key ev core_id household_id person_id =
     (case (ev_nonce ev, ev_ciphertext ev) of
        (Some nonce, Some ciphertext) \<Rightarrow>
          me_open E (partition_key E master_key core_id household_id person_id) nonce ciphertext
            (associated_data E core_id household_id person_id)
      | _ \<Rightarrow> None)"

definition in_scope :: "string \<Rightarrow> string \<Rightarrow> string \<Rightarrow> FamilyMemoryRecord \<Rightarrow> bool" where
  "in_scope core_id household_id person_id m =
     (fm_core_id m = core_id \<and> fm_household_id m = household_id \<and> person_id \<in> set (fm_subject_person_ids m))"

definition load_partition ::
    "'c memory_env \<Rightarrow> string \<Rightarrow> 'c memory_files \<Rightarrow> string \<Rightarrow> string \<Rightarrow> string \<Rightarrow> FamilyMemoryRecord list result" where
  "load_partition E master_key files core_id household_id person_id =
     (case map_of files (partition_path E core_id household_id person_id) of
        None \<Rightarrow> Inr []
      | Some None \<Rightarrow> Inl (store_error ''decryption_failed'')
      | Some (Some ev) \<Rightarrow>
          if ev_schema_version ev \<noteq> PStr FAMILY_MEMORY_STORE_SCHEMA_VERSION then Inl (store_error ''version_unsupported'')
          else (case open_envelope E master_key ev core_id household_id person_id of
                  Some (PList items) \<Rightarrow>
                    (case memories_of_values E items of
                       None \<Rightarrow> Inl (store_error ''decryption_failed'')
                     | Some ms \<Rightarrow>
                         if list_all (in_scope core_id household_id person_id) ms then Inr ms
                         else Inl (store_error ''scope_mismatch''))
                | _ \<Rightarrow> Inl (store_error ''decryption_failed'')))"

definition sealed_partition ::
    "'c memory_env \<Rightarrow> string \<Rightarrow> string \<Rightarrow> string \<Rightarrow> string \<Rightarrow> string \<Rightarrow> FamilyMemoryRecord list \<Rightarrow> 'c envelope" where
  "sealed_partition E master_key nonce core_id household_id person_id ms =
     \<lparr>ev_schema_version = PStr FAMILY_MEMORY_STORE_SCHEMA_VERSION, ev_nonce = Some nonce,
      ev_ciphertext = Some (me_seal E (partition_key E master_key core_id household_id person_id) nonce
        (PList (map (memory_value E) ms)) (associated_data E core_id household_id person_id))\<rparr>"

text \<open>\<open>by_id\<close> of the records with the new one, in the order of their ids.\<close>

definition by_id :: "FamilyMemoryRecord list \<Rightarrow> (string \<times> FamilyMemoryRecord) list" where
  "by_id ms = fold (\<lambda>m. AList.update (fm_memory_id m) m) ms []"

definition with_record :: "FamilyMemoryRecord \<Rightarrow> FamilyMemoryRecord list \<Rightarrow> FamilyMemoryRecord list" where
  "with_record m ms = sort_key fm_memory_id (map snd (AList.update (fm_memory_id m) m (by_id ms)))"

fun upsert_persons ::
    "'c memory_env \<Rightarrow> string \<Rightarrow> save_env \<Rightarrow> FamilyMemoryRecord \<Rightarrow> string list \<Rightarrow> 'c memory_files \<Rightarrow> 'c memory_files \<times> unit result" where
  "upsert_persons E master_key W m [] files = (files, Inr ())"
| "upsert_persons E master_key W m (p # ps) files =
     (case load_partition E master_key files (fm_core_id m) (fm_household_id m) p of
        Inl e \<Rightarrow> (files, Inl e)
      | Inr ms \<Rightarrow>
          if \<not> sv_writable W p then (files, Inl (RuntimeError ''OSError''))
          else upsert_persons E master_key W m ps
            (AList.update (partition_path E (fm_core_id m) (fm_household_id m) p)
              (Some (sealed_partition E master_key (sv_nonce W p) (fm_core_id m) (fm_household_id m) p (with_record m ms)))
              files))"

definition upsert :: "'c memory_env \<Rightarrow> string \<Rightarrow> save_env \<Rightarrow> FamilyMemoryRecord \<Rightarrow> 'c memory_files \<Rightarrow> 'c memory_files \<times> unit result" where
  "upsert E master_key W m files = upsert_persons E master_key W m (fm_subject_person_ids m) files"

section \<open>The retrieval\<close>

definition kept_record ::
    "FamilyAuthorizationContext \<Rightarrow> MemoryVisibility \<Rightarrow> datetime \<Rightarrow> string list \<Rightarrow> FamilyMemoryRecord \<Rightarrow> bool" where
  "kept_record a visibility now allowed m =
     (fm_status m = ActiveMemory \<and>
      (case fm_expires_at m of None \<Rightarrow> True | Some t \<Rightarrow> earlier now t) \<and>
      fm_visibility m = visibility \<and>
      subset_of (fm_subject_person_ids m) allowed \<and>
      (visibility = ExplicitMemory \<longrightarrow> subset_of (participant_ids a) (fm_audience_person_ids m)))"

fun gather ::
    "(string \<Rightarrow> FamilyMemoryRecord list result) \<Rightarrow> (FamilyMemoryRecord \<Rightarrow> bool) \<Rightarrow> string list
      \<Rightarrow> (string \<times> FamilyMemoryRecord) list \<Rightarrow> (string \<times> FamilyMemoryRecord) list result" where
  "gather load keep [] found = Inr found"
| "gather load keep (p # ps) found =
     ebind (load p) (\<lambda>ms.
     gather load keep ps (fold (\<lambda>m. AList.update (fm_memory_id m) m) (filter keep ms) found))"

text \<open>\<open>sorted(..., reverse=True)\<close> keeps the order of equal items.\<close>

definition newest_first :: "FamilyMemoryRecord list \<Rightarrow> FamilyMemoryRecord list" where
  "newest_first ms = rev (sort_key (\<lambda>m. (datetime_utc (fm_updated_at m), fm_memory_id m)) (rev ms))"

definition retrieve ::
    "(string \<Rightarrow> string \<Rightarrow> string \<Rightarrow> FamilyMemoryRecord list result) \<Rightarrow> FamilyAuthorizationContext option \<Rightarrow> MemoryVisibility
      \<Rightarrow> string list \<Rightarrow> string \<Rightarrow> string \<Rightarrow> string option \<Rightarrow> datetime \<Rightarrow> int
      \<Rightarrow> (FamilyMemoryPolicyDecision \<times> FamilyMemoryRecord list) result" where
  "retrieve load authorization visibility subject_person_ids expected_core_id expected_household_id expected_room_id now limit =
     (let decision = evaluate_family_memory_access authorization MemoryRead visibility subject_person_ids
            expected_core_id expected_household_id expected_room_id now;
          bounded_limit = nat (min (max limit 0) 100)
      in case authorization of
           Some a \<Rightarrow>
             if \<not> mp_allowed decision \<or> bounded_limit = 0 then Inr (decision, [])
             else ebind (gather (load expected_core_id expected_household_id)
                    (kept_record a visibility now (mp_allowed_person_ids decision)) (mp_allowed_person_ids decision) [])
                    (\<lambda>found. Inr (decision, take bounded_limit (newest_first (map snd found))))
         | None \<Rightarrow> Inr (decision, []))"


section \<open>Records keep over the file\<close>

text \<open>
  What the store relies on of its surroundings: what was sealed opens again under the same key and
  associated data, a printed instant reads back, and no two scopes have one hash.
\<close>

definition env_ok :: "'c memory_env \<Rightarrow> bool" where
  "env_ok E =
     ((\<forall>k n v a. me_open E k n (me_seal E k n v a) a = Some v) \<and>
      (\<forall>t. me_parse_datetime E (PStr (me_print_datetime E t)) = Some (Aware t)) \<and>
      inj (me_sha256_hex E))"

definition stored_memory :: "FamilyMemoryRecord \<Rightarrow> bool" where
  "stored_memory m = (validate_memory m = Inr m)"

lemma text_values_PStr [simp]: "text_values (map PStr xs) = Some xs"
  by (induction xs) simp_all

lemma text_list_value_text_list [simp]: "text_list_value (text_list xs) = Some xs"
  by (simp add: text_list_def)

lemma choice_texts:
  "choice visibility_text [PrivateMemory, ExplicitMemory, HouseholdMemory, RoomMemory, GuardianManaged] (PStr (visibility_text v)) = Some v"
  "choice risk_text [GeneralRisk, PersonalRisk, SensitiveRisk] (PStr (risk_text r)) = Some r"
  "choice status_text [ActiveMemory, ExpiredMemory, DeletedMemory] (PStr (status_text s)) = Some s"
  subgoal by (cases v) (simp_all add: choice_def)
  subgoal by (cases r) (simp_all add: choice_def)
  subgoal by (cases s) (simp_all add: choice_def)
  done

lemma or_none_text [simp]: "or_none text_value (opt_str s) = Some s"
  by (cases s) (simp_all add: or_none_def)

lemma stored_datetimes:
  assumes "stored_memory m"
  shows "\<exists>i. fm_created_at m = Aware i" and "\<exists>i. fm_updated_at m = Aware i"
    and "fm_expires_at m = Some t \<Longrightarrow> \<exists>i. t = Aware i"
  using assms
  by (auto simp: stored_memory_def validate_memory_def memory_messages_def aware_iff optional_field_Inr_iff)

lemma datetime_value_back:
  assumes "env_ok E" and "t = Aware i"
  shows "me_parse_datetime E (datetime_value E t) = Some t" and "datetime_value E t \<noteq> PNone"
  using assms by (simp_all add: env_ok_def datetime_value_def)

lemma fields_known: "subset_of (map fst (case memory_value E m of PDict d \<Rightarrow> d | _ \<Rightarrow> [])) MEMORY_FIELDS"
  by (simp add: memory_value_def MEMORY_FIELDS_def subset_of_def del: subset_of_iff)

lemma memory_back:
  assumes "env_ok E" and "stored_memory m"
  shows "memory_of_value E (memory_value E m) = Some m"
proof -
  obtain d where d: "memory_value E m = PDict d" by (simp add: memory_value_def)
  obtain i j where t: "fm_created_at m = Aware i" "fm_updated_at m = Aware j" using stored_datetimes [OF assms(2)] by blast
  have e: "or_none (me_parse_datetime E) (case fm_expires_at m of None \<Rightarrow> PNone | Some t \<Rightarrow> datetime_value E t) =
      Some (fm_expires_at m)"
    using stored_datetimes(3) [OF assms(2)] datetime_value_back [OF assms(1)]
    by (cases "fm_expires_at m") (auto simp: or_none_def)
  have "raw_memory E d = Some m"
    using d t e datetime_value_back(1) [OF assms(1)]
    by (auto simp: memory_value_def raw_memory_def field_def field_or_def choice_texts)
  then show ?thesis
    using assms(2) fields_known [of E m] by (simp add: memory_of_value_def d stored_memory_def del: subset_of_iff)
qed

lemma memories_back: "env_ok E \<Longrightarrow> \<forall>m\<in>set ms. stored_memory m \<Longrightarrow> memories_of_values E (map (memory_value E) ms) = Some ms"
  by (induction ms) (simp_all add: memory_back)

section \<open>Partitions keep their records\<close>

text \<open>Records under their ids: \<open>put_all\<close> is the loop that assigns them to a dictionary.\<close>

abbreviation put_all :: "FamilyMemoryRecord list \<Rightarrow> (string \<times> FamilyMemoryRecord) list \<Rightarrow> (string \<times> FamilyMemoryRecord) list" where
  "put_all ms al \<equiv> fold (\<lambda>m. AList.update (fm_memory_id m) m) ms al"

definition keyed :: "(string \<times> FamilyMemoryRecord) list \<Rightarrow> bool" where
  "keyed al = (distinct (map fst al) \<and> (\<forall>(k, m)\<in>set al. k = fm_memory_id m))"

definition index :: "FamilyMemoryRecord list \<Rightarrow> string \<Rightarrow> FamilyMemoryRecord option" where
  "index ms = map_of (map (\<lambda>m. (fm_memory_id m, m)) ms)"

lemma keyed_update: "keyed al \<Longrightarrow> keyed (AList.update (fm_memory_id m) m al)"
  by (auto simp: keyed_def distinct_update dest: set_AList_update)

lemma keyed_put_all: "keyed al \<Longrightarrow> keyed (put_all ms al)"
  by (induction ms arbitrary: al) (simp_all add: keyed_update)

lemma set_put_all: "snd ` set (put_all ms al) \<subseteq> snd ` set al \<union> set ms"
proof (induction ms arbitrary: al)
  case (Cons m ms)
  have "snd ` set (AList.update (fm_memory_id m) m al) \<subseteq> insert m (snd ` set al)" by (auto dest!: set_AList_update)
  from order_trans [OF Cons.IH Un_mono [OF this subset_refl]] show ?case by (simp only: fold.simps comp_apply) auto
qed simp

lemma put_all_other: "\<forall>m\<in>set ms. fm_memory_id m \<noteq> k \<Longrightarrow> map_of (put_all ms al) k = map_of al k"
  by (induction ms arbitrary: al) (auto simp: dict.get_put)

lemma put_all_same:
  "\<forall>m\<in>set ms. fm_memory_id m = k \<longrightarrow> m = x \<Longrightarrow> x \<in> set ms \<and> fm_memory_id x = k \<or> map_of al k = Some x \<Longrightarrow>
     map_of (put_all ms al) k = Some x"
proof (induction ms arbitrary: al)
  case (Cons m ms)
  show ?case using Cons.prems by (simp, intro Cons.IH) (auto simp: dict.get_put)
qed simp

lemma keyed_index: "keyed al \<Longrightarrow> map_of al = index (map snd al)"
proof -
  assume "keyed al"
  then have "map (\<lambda>m. (fm_memory_id m, m)) (map snd al) = al" by (auto simp: keyed_def intro!: map_idI)
  then show ?thesis by (simp add: index_def)
qed

lemma keyed_ids: "keyed al \<Longrightarrow> distinct (map fm_memory_id (map snd al))"
proof -
  assume k: "keyed al"
  then have "map fm_memory_id (map snd al) = map fst al" by (auto simp: keyed_def)
  then show "distinct (map fm_memory_id (map snd al))" using k unfolding keyed_def by (simp only:)
qed

lemma update_nonmem: "k \<notin> fst ` set al \<Longrightarrow> AList.update k v al = al @ [(k, v)]"
  by (induction al) auto

lemma by_id_distinct:
  assumes "distinct (map fm_memory_id ms)"
  shows "by_id ms = map (\<lambda>m. (fm_memory_id m, m)) ms"
proof -
  have "put_all ms al = al @ map (\<lambda>m. (fm_memory_id m, m)) ms"
    if "distinct (map fm_memory_id ms)" "\<forall>m\<in>set ms. fm_memory_id m \<notin> fst ` set al" for ms al
    using that
  proof (induction ms arbitrary: al)
    case (Cons m ms)
    have "AList.update (fm_memory_id m) m al = al @ [(fm_memory_id m, m)]" using Cons.prems(2) by (intro update_nonmem) simp
    moreover have new: "fm_memory_id m \<notin> fm_memory_id ` set ms" "distinct (map fm_memory_id ms)" using Cons.prems(1) by simp_all
    then have "fm_memory_id n \<noteq> fm_memory_id m" if "n \<in> set ms" for n using that by (metis imageI)
    then have "\<forall>n\<in>set ms. fm_memory_id n \<notin> fst ` set (al @ [(fm_memory_id m, m)])" using Cons.prems(2) by simp
    ultimately show ?case using Cons.IH [of "al @ [(fm_memory_id m, m)]"] new(2) by simp
  qed simp
  from this [of ms "[]"] assms show ?thesis by (simp add: by_id_def)
qed

lemma index_sorted:
  assumes "distinct (map fm_memory_id ms)"
  shows "index (sort_key fm_memory_id ms) = index ms"
  unfolding index_def using assms by (subst map_of_inject_set) (auto simp: comp_def distinct_map inj_on_def)

lemma distinct_sort_ids: "distinct (map fm_memory_id (sort_key f ms)) \<longleftrightarrow> distinct (map fm_memory_id ms)"
  by (auto simp: distinct_map)

lemma with_record_facts:
  assumes "distinct (map fm_memory_id ms)"
  shows "distinct (map fm_memory_id (with_record m ms))" and "sorted (map fm_memory_id (with_record m ms))"
    and "set (with_record m ms) \<subseteq> insert m (set ms)" and "index (with_record m ms) = (index ms)(fm_memory_id m \<mapsto> m)"
proof -
  let ?al = "AList.update (fm_memory_id m) m (by_id ms)"
  have k: "keyed ?al" by (intro keyed_update) (use assms in \<open>auto simp: by_id_distinct keyed_def comp_def\<close>)
  show "distinct (map fm_memory_id (with_record m ms))"
    using keyed_ids [OF k] unfolding with_record_def by (simp only: distinct_sort_ids)
  show "sorted (map fm_memory_id (with_record m ms))" by (simp add: with_record_def)
  show "set (with_record m ms) \<subseteq> insert m (set ms)"
    by (auto simp: with_record_def by_id_distinct [OF assms] dest!: set_AList_update)
  show "index (with_record m ms) = (index ms)(fm_memory_id m \<mapsto> m)"
    unfolding with_record_def index_sorted [OF keyed_ids [OF k]] keyed_index [OF k, symmetric]
    by (simp add: update_conv' by_id_distinct [OF assms] index_def)
qed


section \<open>The store\<close>

definition partition_ok :: "string \<Rightarrow> string \<Rightarrow> string \<Rightarrow> FamilyMemoryRecord list \<Rightarrow> bool" where
  "partition_ok c h p ms =
     ((\<forall>m\<in>set ms. stored_memory m \<and> in_scope c h p m) \<and> distinct (map fm_memory_id ms) \<and> sorted (map fm_memory_id ms))"

definition store_ok :: "'c memory_env \<Rightarrow> string \<Rightarrow> 'c memory_files \<Rightarrow> bool" where
  "store_ok E K files =
     (\<forall>path f. map_of files path = Some f \<longrightarrow>
       (\<exists>c h p n ms. path = partition_path E c h p \<and> f = Some (sealed_partition E K n c h p ms) \<and> partition_ok c h p ms))"

text \<open>The records under a scope and a person, by id.\<close>

definition contents ::
    "'c memory_env \<Rightarrow> string \<Rightarrow> 'c memory_files \<Rightarrow> string \<Rightarrow> string \<Rightarrow> string \<Rightarrow> string \<Rightarrow> FamilyMemoryRecord option" where
  "contents E K files c h p = (case load_partition E K files c h p of Inr ms \<Rightarrow> index ms | Inl _ \<Rightarrow> Map.empty)"

inductive store_reachable :: "'c memory_env \<Rightarrow> string \<Rightarrow> 'c memory_files \<Rightarrow> bool" for E K where
  no_files: "store_reachable E K []"
| upserted: "store_reachable E K files \<Longrightarrow> validate_memory m0 = Inr m \<Longrightarrow> upsert E K W m files = (files', r) \<Longrightarrow>
    store_reachable E K files'"

lemma path_inj: "env_ok E \<Longrightarrow> partition_path E c h p = partition_path E c' h' p' \<longleftrightarrow> c = c' \<and> h = h' \<and> p = p'"
  by (auto simp: env_ok_def partition_path_def dest: injD)

lemma open_sealed:
  "env_ok E \<Longrightarrow> open_envelope E K (sealed_partition E K n c h p ms) c h p = Some (PList (map (memory_value E) ms))"
  by (simp add: open_envelope_def sealed_partition_def env_ok_def)

lemma load_sealed:
  assumes "env_ok E" and "partition_ok c h p ms" and "map_of files (partition_path E c h p) = Some (Some (sealed_partition E K n c h p ms))"
  shows "load_partition E K files c h p = Inr ms"
proof -
  have "memories_of_values E (map (memory_value E) ms) = Some ms" "list_all (in_scope c h p) ms"
    using memories_back [OF assms(1)] assms(2) by (auto simp: partition_ok_def list_all_iff)
  moreover have "ev_schema_version (sealed_partition E K n c h p ms) = PStr FAMILY_MEMORY_STORE_SCHEMA_VERSION"
    by (simp add: sealed_partition_def)
  ultimately show ?thesis by (simp add: load_partition_def assms(3) open_sealed [OF assms(1)])
qed

lemma load_ok:
  assumes "env_ok E" and "store_ok E K files"
  shows "\<exists>ms. load_partition E K files c h p = Inr ms \<and> partition_ok c h p ms"
proof (cases "map_of files (partition_path E c h p)")
  case None
  then show ?thesis by (simp add: load_partition_def partition_ok_def)
next
  case (Some f)
  with assms(2) obtain c' h' p' n ms where
    f: "partition_path E c h p = partition_path E c' h' p'" "f = Some (sealed_partition E K n c' h' p' ms)" "partition_ok c' h' p' ms"
    unfolding store_ok_def by blast
  then show ?thesis using load_sealed [OF assms(1)] Some by (auto simp: path_inj [OF assms(1)])
qed

lemma load_update:
  assumes "env_ok E" and "partition_ok c h p ms"
  shows "load_partition E K (AList.update (partition_path E c h p) (Some (sealed_partition E K n c h p ms)) files) c' h' p' =
    (if c' = c \<and> h' = h \<and> p' = p then Inr ms else load_partition E K files c' h' p')"
proof (cases "c' = c \<and> h' = h \<and> p' = p")
  case True
  then show ?thesis using load_sealed [OF assms] by (simp add: dict.get_put)
next
  case False
  then have "partition_path E c' h' p' \<noteq> partition_path E c h p" by (simp add: path_inj [OF assms(1)])
  then have "map_of (AList.update (partition_path E c h p) (Some (sealed_partition E K n c h p ms)) files) (partition_path E c' h' p') =
      map_of files (partition_path E c' h' p')" by (simp add: dict.get_put)
  then show ?thesis unfolding if_not_P [OF False] by (simp only: load_partition_def)
qed

lemma store_ok_update:
  "store_ok E K files \<Longrightarrow> partition_ok c h p ms \<Longrightarrow>
     store_ok E K (AList.update (partition_path E c h p) (Some (sealed_partition E K n c h p ms)) files)"
  unfolding store_ok_def by (simp add: dict.get_put) blast

lemma partition_ok_with_record:
  assumes "partition_ok (fm_core_id m) (fm_household_id m) p ms" and "stored_memory m" and "p \<in> set (fm_subject_person_ids m)"
  shows "partition_ok (fm_core_id m) (fm_household_id m) p (with_record m ms)"
proof -
  have d: "distinct (map fm_memory_id ms)" using assms(1) by (simp add: partition_ok_def)
  show ?thesis
    using with_record_facts(1-3) [OF d, of m] assms unfolding partition_ok_def in_scope_def by blast
qed

definition written :: "save_env \<Rightarrow> FamilyMemoryRecord \<Rightarrow> string list \<Rightarrow> (string \<Rightarrow> string \<Rightarrow> string \<Rightarrow> string \<Rightarrow> FamilyMemoryRecord option)
    \<Rightarrow> string \<Rightarrow> string \<Rightarrow> string \<Rightarrow> string \<Rightarrow> FamilyMemoryRecord option" where
  "written W m ps M c h p =
     (if c = fm_core_id m \<and> h = fm_household_id m \<and> p \<in> set (takeWhile (sv_writable W) ps)
      then (M c h p)(fm_memory_id m \<mapsto> m) else M c h p)"

lemma upsert_persons_exact:
  assumes "env_ok E" and "stored_memory m"
  shows "store_ok E K files \<Longrightarrow> set ps \<subseteq> set (fm_subject_person_ids m) \<Longrightarrow> upsert_persons E K W m ps files = (files', r) \<Longrightarrow>
    store_ok E K files' \<and> contents E K files' = written W m ps (contents E K files) \<and>
    r = (if list_all (sv_writable W) ps then Inr () else Inl (RuntimeError ''OSError''))"
proof (induction ps arbitrary: files)
  case Nil
  then show ?case by (simp add: written_def fun_eq_iff)
next
  case (Cons p ps)
  obtain ms where ms: "load_partition E K files (fm_core_id m) (fm_household_id m) p = Inr ms"
    "partition_ok (fm_core_id m) (fm_household_id m) p ms"
    using load_ok [OF assms(1) Cons.prems(1)] by blast
  show ?case
  proof (cases "sv_writable W p")
    case False
    then show ?thesis using Cons.prems ms by (simp add: written_def fun_eq_iff)
  next
    case True
    let ?new = "with_record m ms"
    let ?files = "AList.update (partition_path E (fm_core_id m) (fm_household_id m) p)
      (Some (sealed_partition E K (sv_nonce W p) (fm_core_id m) (fm_household_id m) p ?new)) files"
    have new: "partition_ok (fm_core_id m) (fm_household_id m) p ?new"
      using partition_ok_with_record [OF ms(2) assms(2)] Cons.prems(2) by simp
    have d: "distinct (map fm_memory_id ms)" using ms(2) by (simp add: partition_ok_def)
    have c: "contents E K ?files c h q = (if c = fm_core_id m \<and> h = fm_household_id m \<and> q = p
        then (contents E K files c h q)(fm_memory_id m \<mapsto> m) else contents E K files c h q)" for c h q
      unfolding contents_def load_update [OF assms(1) new] using ms(1) with_record_facts(4) [OF d] by simp
    have IH: "store_ok E K files' \<and> contents E K files' = written W m ps (contents E K ?files) \<and>
        r = (if list_all (sv_writable W) ps then Inr () else Inl (RuntimeError ''OSError''))"
      using Cons.prems ms(1) True by (intro Cons.IH store_ok_update new) simp_all
    moreover have "written W m ps (contents E K ?files) = written W m (p # ps) (contents E K files)"
      using True by (auto simp: written_def c fun_eq_iff)
    ultimately show ?thesis using True by simp
  qed
qed

lemma store_reachable_ok: "store_reachable E K files \<Longrightarrow> env_ok E \<Longrightarrow> store_ok E K files"
proof (induction rule: store_reachable.induct)
  case no_files
  then show ?case by (simp add: store_ok_def)
next
  case (upserted files m0 m W files' r)
  have "stored_memory m" using validate_memory_again [OF upserted.hyps(2)] by (simp add: stored_memory_def)
  from upsert_persons_exact [OF upserted.prems this upserted.IH subset_refl] upserted show ?case by (simp add: upsert_def)
qed

section \<open>The retrieval over partitions in scope\<close>

text \<open>What the retrieval relies on of the store: a partition it loads holds records of its scope.\<close>

locale scoped_partitions =
  fixes load :: "string \<Rightarrow> string \<Rightarrow> string \<Rightarrow> FamilyMemoryRecord list result"
  assumes loaded_in_scope: "load c h p = Inr ms \<Longrightarrow> m \<in> set ms \<Longrightarrow> in_scope c h p m"
begin

lemma gather_kept:
  assumes "gather (load c h) keep ps found = Inr found'" and "keyed found"
    and "\<forall>m\<in>snd ` set found. keep m \<and> fm_core_id m = c \<and> fm_household_id m = h"
  shows "keyed found' \<and> (\<forall>m\<in>snd ` set found'. keep m \<and> fm_core_id m = c \<and> fm_household_id m = h)"
  using assms
proof (induction ps arbitrary: found)
  case (Cons p ps)
  obtain ms where ms: "load c h p = Inr ms" "gather (load c h) keep ps (put_all (filter keep ms) found) = Inr found'"
    using Cons.prems(1) by (auto simp: ebind_Inr_conv)
  have "\<forall>m\<in>snd ` set (put_all (filter keep ms) found). keep m \<and> fm_core_id m = c \<and> fm_household_id m = h"
    using set_put_all [of "filter keep ms" found] Cons.prems(3) loaded_in_scope [OF ms(1)] unfolding in_scope_def by fastforce
  from Cons.IH [OF ms(2) keyed_put_all [OF Cons.prems(2)] this] show ?case .
qed simp

lemma gather_all_kept:
  assumes "gather (load c h) keep ps [] = Inr found"
  shows "keyed found" and "(k, m) \<in> set found \<Longrightarrow> keep m \<and> fm_core_id m = c \<and> fm_household_id m = h"
  using gather_kept [OF assms] by (force simp: keyed_def)+

end

interpretation partitions: scoped_partitions "load_partition E K files" for E K files
proof
  fix c h p ms m
  assume "load_partition E K files c h p = Inr ms" and "m \<in> set ms"
  then show "in_scope c h p m"
    by (auto simp: load_partition_def list_all_iff split: option.splits if_splits pyval.splits)
qed

lemma newest_first_facts:
  "set (newest_first ms) = set ms" "length (newest_first ms) = length ms"
  "distinct (map fm_memory_id ms) \<Longrightarrow> distinct (map fm_memory_id (newest_first ms))"
  "sorted_wrt (\<lambda>m n. (datetime_utc (fm_updated_at n), fm_memory_id n) \<le> (datetime_utc (fm_updated_at m), fm_memory_id m))
     (newest_first ms)"
proof -
  show "set (newest_first ms) = set ms" "length (newest_first ms) = length ms" by (simp_all add: newest_first_def)
  show "distinct (map fm_memory_id ms) \<Longrightarrow> distinct (map fm_memory_id (newest_first ms))"
    by (simp add: newest_first_def rev_map [symmetric] distinct_sort_ids)
  let ?k = "\<lambda>m. (datetime_utc (fm_updated_at m), fm_memory_id m)"
  have "sorted_wrt (\<lambda>x y. ?k x \<le> ?k y) (sort_key ?k (rev ms))"
    using sorted_sort_key [of ?k "rev ms"] by (simp only: sorted_map)
  then show "sorted_wrt (\<lambda>m n. ?k n \<le> ?k m) (newest_first ms)" by (simp add: newest_first_def sorted_wrt_rev)
qed


lemma retrieve_cases:
  assumes "retrieve load auth v subjects c h room now limit = Inr (d, ms)"
  shows "d = evaluate_family_memory_access auth MemoryRead v subjects c h room now" and
    "ms = [] \<or> (\<exists>a found. auth = Some a \<and> mp_allowed d \<and>
       gather (load c h) (kept_record a v now (mp_allowed_person_ids d)) (mp_allowed_person_ids d) [] = Inr found \<and>
       ms = take (nat (min (max limit 0) 100)) (newest_first (map snd found)))"
  using assms by (auto simp: retrieve_def Let_def ebind_Inr_conv split: option.splits if_splits)

lemma gather_same:
  assumes "gather load keep ps found = Inr found'"
    and "\<And>p ms m. p \<in> set ps \<Longrightarrow> load p = Inr ms \<Longrightarrow> m \<in> set ms \<Longrightarrow> keep m \<Longrightarrow> fm_memory_id m = fm_memory_id x \<Longrightarrow> m = x"
    and "map_of found (fm_memory_id x) = Some x \<or> (\<exists>p\<in>set ps. \<exists>ms. load p = Inr ms \<and> x \<in> set ms \<and> keep x)"
  shows "map_of found' (fm_memory_id x) = Some x"
  using assms
proof (induction ps arbitrary: found)
  case (Cons p ps)
  obtain ms where ms: "load p = Inr ms" "gather load keep ps (put_all (filter keep ms) found) = Inr found'"
    using Cons.prems(1) by (auto simp: ebind_Inr_conv)
  have same: "\<forall>m\<in>set (filter keep ms). fm_memory_id m = fm_memory_id x \<longrightarrow> m = x" using Cons.prems(2) [of p ms] ms(1) by simp
  have "map_of (put_all (filter keep ms) found) (fm_memory_id x) = Some x \<or>
      (\<exists>p\<in>set ps. \<exists>ms. load p = Inr ms \<and> x \<in> set ms \<and> keep x)"
  proof (cases "x \<in> set (filter keep ms) \<or> map_of found (fm_memory_id x) = Some x")
    case True
    then have "x \<in> set (filter keep ms) \<and> fm_memory_id x = fm_memory_id x \<or> map_of found (fm_memory_id x) = Some x" by blast
    from put_all_same [OF same this] show ?thesis ..
  next
    case False
    then show ?thesis using Cons.prems(3) ms(1) by auto
  qed
  from Cons.IH [OF ms(2) _ this] Cons.prems(2) show ?case by (meson list.set_intros(2))
qed simp

lemma index_Some:
  assumes "distinct (map fm_memory_id ms)"
  shows "index ms k = Some m \<longleftrightarrow> m \<in> set ms \<and> fm_memory_id m = k"
  unfolding index_def using assms by (subst map_of_eq_Some_iff) (auto simp: comp_def)

section \<open>What the memory promises\<close>

text \<open>
  C23. The partitions are a map: an update of a record puts it, under its id, into the memory of its
  subjects up to the first whose file cannot be written, and into no other; every partition can
  always be read back, sorted by id and without a record twice.
\<close>

theorem store_refines_map:
  assumes "env_ok E" and "store_reachable E K files" and "validate_memory m0 = Inr m" and "upsert E K W m files = (files', r)"
  shows "contents E K files' = written W m (fm_subject_person_ids m) (contents E K files) \<and>
    r = (if list_all (sv_writable W) (fm_subject_person_ids m) then Inr () else Inl (RuntimeError ''OSError'')) \<and>
    (\<forall>c h p. \<exists>ms. load_partition E K files' c h p = Inr ms \<and> partition_ok c h p ms)"
proof -
  have m: "stored_memory m" using validate_memory_again [OF assms(3)] by (simp add: stored_memory_def)
  have "store_ok E K files'" using store_reachable_ok [OF store_reachable.upserted [OF assms(2-4)] assms(1)] .
  then show ?thesis
    using upsert_persons_exact [OF assms(1) m store_reachable_ok [OF assms(2,1)] subset_refl] assms(4) load_ok [OF assms(1)]
    by (simp add: upsert_def)
qed

text \<open>
  C22. A retrieval that is not allowed reads nothing. What an allowed one returns belongs to the
  household, is active and not expired, has the visibility asked for and only subjects the request
  and the core allow, and is told only to the audience of an explicit record; newest first, no
  record twice, and at most as many as asked for and a hundred.
\<close>

theorem retrieve_sound:
  assumes "retrieve (load_partition E K files) auth v subjects c h room now limit = Inr (d, ms)"
  shows "(\<not> mp_allowed d \<longrightarrow> (\<forall>load. retrieve load auth v subjects c h room now limit = Inr (d, []))) \<and>
    int (length ms) \<le> min (max limit 0) 100 \<and> distinct (map fm_memory_id ms) \<and>
    sorted_wrt (\<lambda>m n. (datetime_utc (fm_updated_at n), fm_memory_id n) \<le> (datetime_utc (fm_updated_at m), fm_memory_id m)) ms \<and>
    (\<forall>m\<in>set ms. \<exists>a. auth = Some a \<and> mp_allowed d \<and> fm_core_id m = c \<and> fm_household_id m = h \<and> fm_status m = ActiveMemory \<and>
       fm_visibility m = v \<and> (\<forall>t. fm_expires_at m = Some t \<longrightarrow> earlier now t) \<and>
       set (fm_subject_person_ids m) \<subseteq> set (fd_allowed_person_ids (fa_decision a)) \<and>
       (v = ExplicitMemory \<longrightarrow> set (participant_ids a) \<subseteq> set (fm_audience_person_ids m)))"
proof -
  note d = retrieve_cases(1) [OF assms]
  have not_read: "\<not> mp_allowed d \<longrightarrow> (\<forall>load. retrieve load auth v subjects c h room now limit = Inr (d, []))"
    by (simp add: retrieve_def Let_def d [symmetric] split: option.split)
  show ?thesis
  proof (cases "ms = []")
    case True
    then show ?thesis using not_read by simp
  next
    case False
    then obtain a found where a: "auth = Some a" "mp_allowed d"
      "gather (load_partition E K files c h) (kept_record a v now (mp_allowed_person_ids d)) (mp_allowed_person_ids d) [] = Inr found"
      "ms = take (nat (min (max limit 0) 100)) (newest_first (map snd found))"
      using retrieve_cases(2) [OF assms] by blast
    note k = partitions.gather_all_kept [OF a(3)]
    have found: "m \<in> snd ` set found" if "m \<in> set ms" for m
      using that set_take_subset [of "nat (min (max limit 0) 100)" "newest_first (map snd found)"]
      by (auto simp: a(4) newest_first_facts(1))
    have allowed: "set (mp_allowed_person_ids d) \<subseteq> set (fd_allowed_person_ids (fa_decision a))"
      using access_passed(12,17) a(1,2) unfolding d by simp
    have "fm_core_id m = c \<and> fm_household_id m = h \<and> fm_status m = ActiveMemory \<and> fm_visibility m = v \<and>
        (\<forall>t. fm_expires_at m = Some t \<longrightarrow> earlier now t) \<and> set (fm_subject_person_ids m) \<subseteq> set (fd_allowed_person_ids (fa_decision a)) \<and>
        (v = ExplicitMemory \<longrightarrow> set (participant_ids a) \<subseteq> set (fm_audience_person_ids m))" if "m \<in> set ms" for m
      using found [OF that] k(2) allowed by (fastforce simp: kept_record_def)
    moreover have "distinct (map fm_memory_id ms)"
      using newest_first_facts(3) [OF keyed_ids [OF k(1)]] by (simp add: a(4) take_map [symmetric] distinct_take)
    moreover have "length ms \<le> nat (min (max limit 0) 100)" by (simp add: a(4))
    then have "int (length ms) \<le> min (max limit 0) 100" by (subst (asm) le_nat_iff) simp_all
    moreover have "sorted_wrt (\<lambda>m n. (datetime_utc (fm_updated_at n), fm_memory_id n) \<le> (datetime_utc (fm_updated_at m), fm_memory_id m)) ms"
      unfolding a(4) by (rule sorted_wrt_take) (rule newest_first_facts(4))
    ultimately show ?thesis using not_read a(1,2) by blast
  qed
qed

text \<open>
  C24. An update that takes a subject off a record leaves the record as it was in the partition of that
  subject: a record that was deleted that way is still returned to who asks for the old subjects.
\<close>

theorem stale_copy_returned:
  assumes "env_ok E" and "store_reachable E K files" and "validate_memory m0 = Inr m" and "validate_memory n0 = Inr n"
    and "\<forall>q. contents E K files c h q (fm_memory_id m) = None"
    and "fm_memory_id n = fm_memory_id m" and "fm_core_id m = c" and "fm_household_id m = h" and "fm_core_id n = c" and "fm_household_id n = h"
    and "p \<in> set (fm_subject_person_ids m)" and "p \<notin> set (fm_subject_person_ids n)" and "fm_status n = DeletedMemory"
    and "upsert E K W m files = (files1, Inr ())" and "upsert E K W' n files1 = (files2, Inr ())"
    and "retrieve (load_partition E K files2) (Some a) v subjects c h room now limit = Inr (d, ms)"
    and "kept_record a v now (mp_allowed_person_ids d) m" and "mp_allowed d" and "int (length ms) < min (max limit 0) 100"
  shows "m \<in> set ms"
proof -
  let ?k = "fm_memory_id m" and ?keep = "kept_record a v now (mp_allowed_person_ids d)"
  note s1 = store_refines_map [OF assms(1-3,14)] and r1 = store_reachable.upserted [OF assms(2,3,14)]
  note s2 = store_refines_map [OF assms(1) r1 assms(4,15)]
  have w1: "takeWhile (sv_writable W) (fm_subject_person_ids m) = fm_subject_person_ids m"
    using s1 by (auto simp: takeWhile_eq_all_conv list_all_iff split: if_splits)
  have c1: "contents E K files1 c h q ?k = (if q \<in> set (fm_subject_person_ids m) then Some m else None)" for q
    using s1 assms(5,7,8) by (simp add: written_def w1)
  have c2: "contents E K files2 c h q ?k = Some n \<or> contents E K files2 c h q ?k = contents E K files1 c h q ?k" for q
    using s2 assms(6) by (simp add: written_def)
  have p: "contents E K files2 c h p ?k = Some m"
    using s2 c1 [of p] assms(11,12) by (auto simp: written_def dest: set_takeWhileD)
  have loads: "\<exists>us. load_partition E K files2 c h q = Inr us \<and> (\<forall>x. contents E K files2 c h q ?k = Some x \<longleftrightarrow> x \<in> set us \<and> fm_memory_id x = ?k)" for q
  proof -
    obtain us where us: "load_partition E K files2 c h q = Inr us" "partition_ok c h q us" using s2 by blast
    then show ?thesis using index_Some [of us ?k] by (auto simp: contents_def partition_ok_def)
  qed
  have same: "x = m" if x: "load_partition E K files2 c h q = Inr us" "x \<in> set us" "?keep x" "fm_memory_id x = ?k" for q us x
  proof -
    have "contents E K files2 c h q ?k = Some x" using loads [of q] x by auto
    moreover have "x \<noteq> n" using x(3) assms(13) by (auto simp: kept_record_def)
    ultimately show ?thesis using c2 [of q] c1 [of q] by (auto split: if_splits)
  qed
  have "p \<in> set (mp_allowed_person_ids d)" using assms(11,17) by (auto simp: kept_record_def)
  moreover obtain us where "load_partition E K files2 c h p = Inr us" "m \<in> set us" using loads [of p] p by blast
  ultimately have there: "\<exists>q\<in>set (mp_allowed_person_ids d). \<exists>us. load_partition E K files2 c h q = Inr us \<and> m \<in> set us \<and> ?keep m"
    using assms(17) by blast
  obtain found where f: "gather (load_partition E K files2 c h) ?keep (mp_allowed_person_ids d) [] = Inr found"
    "ms = take (nat (min (max limit 0) 100)) (newest_first (map snd found))"
    using assms(16,18,19) by (auto simp: retrieve_def Let_def ebind_Inr_conv split: if_splits)
  have "map_of found ?k = Some m" by (rule gather_same [OF f(1)]) (use same there in blast)+
  then have "m \<in> set (newest_first (map snd found))" by (force simp: newest_first_facts(1) dest: map_of_SomeD)
  moreover have "ms = newest_first (map snd found)"
    using assms(19) unfolding f(2) by (intro take_all) (simp add: min_def split: if_splits)
  ultimately show ?thesis by simp
qed

text \<open>Functions that leave alone what the retrieval looks at.\<close>

definition elsewhere :: "(FamilyMemoryRecord \<Rightarrow> string option) \<Rightarrow> (FamilyMemoryRecord \<Rightarrow> MemoryRisk) \<Rightarrow> FamilyMemoryRecord \<Rightarrow> FamilyMemoryRecord" where
  "elsewhere room risk m = m\<lparr>fm_source_room_id := room m, fm_sensitivity := risk m\<rparr>"

lemma elsewhere_fields [simp]:
  "fm_memory_id (elsewhere r s m) = fm_memory_id m" "fm_updated_at (elsewhere r s m) = fm_updated_at m"
  "kept_record a v now ps (elsewhere r s m) = kept_record a v now ps m"
  by (simp_all add: elsewhere_def kept_record_def)

lemma put_all_elsewhere:
  "put_all (map (elsewhere r s) ms) (map (\<lambda>(k, m). (k, elsewhere r s m)) al) = map (\<lambda>(k, m). (k, elsewhere r s m)) (put_all ms al)"
proof (induction ms arbitrary: al)
  case (Cons m ms)
  have "AList.update k (elsewhere r s m) (map (\<lambda>(k, m). (k, elsewhere r s m)) al) =
      map (\<lambda>(k, m). (k, elsewhere r s m)) (AList.update k m al)" for k
    by (induction al) auto
  then show ?case using Cons.IH [of "AList.update (fm_memory_id m) m al"] by simp
qed simp

lemma gather_elsewhere:
  assumes "\<And>m. keep (elsewhere r s m) = keep m"
  shows "gather (\<lambda>p. map_sum (\<lambda>e. e) (map (elsewhere r s)) (load p)) keep ps (map (\<lambda>(k, m). (k, elsewhere r s m)) al) =
    map_sum (\<lambda>e. e) (map (\<lambda>(k, m). (k, elsewhere r s m))) (gather load keep ps al)"
proof (induction ps arbitrary: al)
  case (Cons p ps)
  have "filter keep (map (elsewhere r s) ms) = map (elsewhere r s) (filter keep ms)" for ms
    by (simp add: filter_map comp_def assms)
  then show ?case using Cons.IH by (cases "load p") (simp_all add: put_all_elsewhere)
qed simp

lemma newest_first_elsewhere: "newest_first (map (elsewhere r s) ms) = map (elsewhere r s) (newest_first ms)"
proof -
  let ?k = "\<lambda>m. (datetime_utc (fm_updated_at m), fm_memory_id m)"
  have "insort_key ?k (elsewhere r s m) (map (elsewhere r s) ns) = map (elsewhere r s) (insort_key ?k m ns)" for m ns
    by (induction ns) simp_all
  then have "sort_key ?k (map (elsewhere r s) ns) = map (elsewhere r s) (sort_key ?k ns)" for ns
    by (induction ns) (simp_all add: sort_key_simps)
  then show ?thesis by (simp add: newest_first_def rev_map)
qed

text \<open>
  The room a memory comes from and how sensitive it is decide nothing: over records with any other
  rooms and sensitivities a retrieval returns the same ones. So room memory is told in every room
  of the household, and sensitive memory to a request whose risk was authorised as general.
\<close>

theorem retrieval_ignores_room_and_sensitivity:
  "retrieve (\<lambda>c h p. map_sum (\<lambda>e. e) (map (elsewhere room risk)) (load c h p)) auth v subjects core household where_asked now limit =
   map_sum (\<lambda>e. e) (\<lambda>(d, ms). (d, map (elsewhere room risk) ms)) (retrieve load auth v subjects core household where_asked now limit)"
proof (cases auth)
  case None
  then show ?thesis by (simp add: retrieve_def Let_def)
next
  case (Some a)
  let ?d = "evaluate_family_memory_access (Some a) MemoryRead v subjects core household where_asked now"
  have g: "gather (\<lambda>p. map_sum (\<lambda>e. e) (map (elsewhere room risk)) (load core household p)) (kept_record a v now ps) ps [] =
      map_sum (\<lambda>e. e) (map (\<lambda>(k, m). (k, elsewhere room risk m))) (gather (load core household) (kept_record a v now ps) ps [])" for ps
    using gather_elsewhere [where al = "[]" and keep = "kept_record a v now ps"] by simp
  have "map (snd \<circ> (\<lambda>(k, m). (k, elsewhere room risk m))) al = map (elsewhere room risk) (map snd al)"
    for al :: "(string \<times> FamilyMemoryRecord) list"
    by (induction al) auto
  then have n: "newest_first (map (snd \<circ> (\<lambda>(k, m). (k, elsewhere room risk m))) al) =
      map (elsewhere room risk) (newest_first (map snd al))" for al :: "(string \<times> FamilyMemoryRecord) list"
    by (simp only: newest_first_elsewhere)
  show ?thesis
    by (cases "gather (load core household) (kept_record a v now (mp_allowed_person_ids ?d)) (mp_allowed_person_ids ?d) []")
      (simp_all add: Some retrieve_def Let_def g n take_map)
qed

section \<open>Concrete instances\<close>

text \<open>A cipher that keeps its arguments, hashes that are the text, and instants in unary.\<close>

definition plain_env :: "(string \<times> string \<times> pyval \<times> string) memory_env" where
  "plain_env =
     \<lparr>me_sha256_hex = (\<lambda>s. s), me_sha256 = (\<lambda>s. s), me_hkdf = (\<lambda>k salt info. k @ salt @ info),
      me_seal = (\<lambda>k n v a. (k, n, v, a)),
      me_open = (\<lambda>k n (k', n', v, a') a. if k' = k \<and> n' = n \<and> a' = a then Some v else None),
      me_print_datetime = (\<lambda>t. (if t < 0 then ''-'' else ''+'') @ replicate (nat \<bar>t\<bar>) CHR ''1''),
      me_parse_datetime = (\<lambda>v. case v of
          PStr (c # cs) \<Rightarrow> Some (Aware (if c = CHR ''-'' then - int (length cs) else int (length cs)))
        | _ \<Rightarrow> None)\<rparr>"

lemma plain_env_ok: "env_ok plain_env"
  by (auto simp: env_ok_def plain_env_def inj_def)

definition all_written :: save_env where
  "all_written = \<lparr>sv_nonce = (\<lambda>p. ''n''), sv_writable = (\<lambda>p. True)\<rparr>"

definition a_memory :: "string list \<Rightarrow> MemoryLifecycleStatus \<Rightarrow> FamilyMemoryRecord" where
  "a_memory subjects status =
     \<lparr>fm_schema_version = ''1.0'', fm_memory_id = ''m'', fm_core_id = ''c'', fm_household_id = ''h'', fm_subject_person_ids = subjects,
      fm_visibility = HouseholdMemory, fm_audience_person_ids = [], fm_summary = ''s'', fm_sensitivity = PersonalRisk,
      fm_consent_ids = [''k''], fm_source_interaction_id = ''i'', fm_source_room_id = None, fm_created_at = Aware 1,
      fm_updated_at = Aware 1, fm_expires_at = None, fm_status = status\<rparr>"

definition shared_stored :: "(string \<times> string \<times> pyval \<times> string) memory_files" where
  "shared_stored = fst (upsert plain_env ''K'' all_written (a_memory [''p'', ''q''] ActiveMemory) [])"

definition narrowed_stored :: "(string \<times> string \<times> pyval \<times> string) memory_files" where
  "narrowed_stored = fst (upsert plain_env ''K'' all_written (a_memory [''p''] DeletedMemory) shared_stored)"

lemma a_memory_valid:
  "validate_memory (a_memory [''p'', ''q''] ActiveMemory) = Inr (a_memory [''p'', ''q''] ActiveMemory)"
  "validate_memory (a_memory [''p''] DeletedMemory) = Inr (a_memory [''p''] DeletedMemory)"
  by code_simp+

theorem store_refines_map_witness:
  "snd (upsert plain_env ''K'' all_written (a_memory [''p'', ''q''] ActiveMemory) []) = Inr () \<and>
   (\<exists>ms. load_partition plain_env ''K'' shared_stored ''c'' ''h'' ''q'' = Inr ms \<and> partition_ok ''c'' ''h'' ''q'' ms)"
proof -
  have w: "list_all (sv_writable all_written) (fm_subject_person_ids (a_memory [''p'', ''q''] ActiveMemory))"
    by (simp add: all_written_def list_all_iff)
  from store_refines_map [OF plain_env_ok store_reachable.no_files a_memory_valid(1) surjective_pairing, of "''K''" all_written] w
  show ?thesis unfolding shared_stored_def by (simp only: if_True)
qed

theorem retrieve_sound_witness:
  "\<exists>d ms. retrieve (load_partition plain_env ''K'' shared_stored) (Some (an_authorization HouseholdMemory [])) HouseholdMemory
       [''p'', ''q''] ''c'' ''h'' None (Aware 5) 20 = Inr (d, ms) \<and> ms \<noteq> [] \<and> (\<forall>m\<in>set ms. fm_status m = ActiveMemory)"
proof -
  have "case retrieve (load_partition plain_env ''K'' shared_stored) (Some (an_authorization HouseholdMemory [])) HouseholdMemory
       [''p'', ''q''] ''c'' ''h'' None (Aware 5) 20 of Inr (d, ms) \<Rightarrow> ms \<noteq> [] | Inl _ \<Rightarrow> False" by code_simp
  then obtain d ms where r: "retrieve (load_partition plain_env ''K'' shared_stored) (Some (an_authorization HouseholdMemory []))
       HouseholdMemory [''p'', ''q''] ''c'' ''h'' None (Aware 5) 20 = Inr (d, ms)" "ms \<noteq> []"
    by (auto split: sum.splits)
  from retrieve_sound [OF r(1)] have "\<forall>m\<in>set ms. fm_status m = ActiveMemory" by blast
  with r show ?thesis by blast
qed

theorem stale_copy_returned_witness:
  "\<exists>d ms. retrieve (load_partition plain_env ''K'' narrowed_stored) (Some (an_authorization HouseholdMemory [])) HouseholdMemory
       [''p'', ''q''] ''c'' ''h'' None (Aware 5) 20 = Inr (d, ms) \<and> a_memory [''p'', ''q''] ActiveMemory \<in> set ms"
proof -
  have "case retrieve (load_partition plain_env ''K'' narrowed_stored) (Some (an_authorization HouseholdMemory [])) HouseholdMemory
       [''p'', ''q''] ''c'' ''h'' None (Aware 5) 20 of
      Inr (d, ms) \<Rightarrow> mp_allowed d \<and> int (length ms) < min (max 20 0) 100 \<and>
        kept_record (an_authorization HouseholdMemory []) HouseholdMemory (Aware 5) (mp_allowed_person_ids d)
          (a_memory [''p'', ''q''] ActiveMemory)
    | Inl _ \<Rightarrow> False" by code_simp
  then obtain d ms where r: "retrieve (load_partition plain_env ''K'' narrowed_stored) (Some (an_authorization HouseholdMemory []))
       HouseholdMemory [''p'', ''q''] ''c'' ''h'' None (Aware 5) 20 = Inr (d, ms)" "mp_allowed d"
       "int (length ms) < min (max 20 0) 100"
       "kept_record (an_authorization HouseholdMemory []) HouseholdMemory (Aware 5) (mp_allowed_person_ids d) (a_memory [''p'', ''q''] ActiveMemory)"
    by (auto split: sum.splits)
  have none: "\<forall>q. contents plain_env ''K'' [] ''c'' ''h'' q (fm_memory_id (a_memory [''p'', ''q''] ActiveMemory)) = None"
    by (simp add: contents_def load_partition_def index_def)
  have u: "upsert plain_env ''K'' all_written (a_memory [''p'', ''q''] ActiveMemory) [] = (shared_stored, Inr ())"
    "upsert plain_env ''K'' all_written (a_memory [''p''] DeletedMemory) shared_stored = (narrowed_stored, Inr ())"
    unfolding shared_stored_def narrowed_stored_def prod_eq_iff fst_conv snd_conv by (rule conjI, rule refl, code_simp)+
  have f: "fm_memory_id (a_memory [''p''] DeletedMemory) = fm_memory_id (a_memory [''p'', ''q''] ActiveMemory)"
    "fm_core_id (a_memory s t) = ''c''" "fm_household_id (a_memory s t) = ''h''" "fm_status (a_memory s t) = t"
    "''q'' \<in> set (fm_subject_person_ids (a_memory [''p'', ''q''] ActiveMemory))"
    "''q'' \<notin> set (fm_subject_person_ids (a_memory [''p''] DeletedMemory))" for s t
    by (simp_all add: a_memory_def)
  from stale_copy_returned [OF plain_env_ok store_reachable.no_files a_memory_valid none f(1-3) f(2,3) f(5,6,4) u r(1,4,2,3)] r(1)
  show ?thesis by blast
qed

end
