(* ===== verification/Trust.thy ===== *)
theory Trust
  imports Node_Lifecycle
begin

text \<open>
  Node identities (\<open>identity/node_ids.py\<close>), the payload that activates the trust of a node
  (\<open>trust/trust_activation_parser.py\<close>), the file that keeps it (\<open>trust/trust_store.py\<close>) and the
  way a node starts (\<open>trust/trusted_startup.py\<close>). The file is the value that its JSON gives,
  \<open>None\<close> when there is none or it is not JSON. Log lines are left out.
\<close>

section \<open>Node identities\<close>

definition lower_hex :: "char \<Rightarrow> bool" where
  "lower_hex c = (is_digit c \<or> (let n = (of_char c :: nat) in 97 \<le> n \<and> n \<le> 102))"

text \<open>Groups of 8, 4, 4, 4 and 12 hexadecimal digits with a version of the given ones and a variant of \<open>[89ab]\<close>.\<close>

definition uuid_text :: "string \<Rightarrow> string \<Rightarrow> bool" where
  "uuid_text versions s =
     (length s = 36 \<and>
      list_all (\<lambda>(i, c). if i \<in> {8, 13, 18, 23} then c = CHR ''-'' else lower_hex c) (zip [0..<36] s) \<and>
      s ! 14 \<in> set versions \<and> s ! 19 \<in> set ''89ab'')"

definition normalize_node_id :: "pyval \<Rightarrow> string" where
  "normalize_node_id value =
     (let normalized = py_lower (norm_string value)
      in if uuid_text ''4'' normalized then ''node-'' @ normalized else normalized)"

text \<open>A UUID of that form prints as it was read, and its version is the digit.\<close>

definition is_valid_canonical_node_id :: "pyval \<Rightarrow> bool" where
  "is_valid_canonical_node_id value =
     (let normalized = normalize_node_id value; uuid = drop 5 normalized
      in py_startswith normalized ''node-'' \<and> uuid_text ''12345'' uuid \<and> uuid ! 14 = CHR ''4'')"

definition derive_operational_mqtt_identity :: "pyval \<Rightarrow> string" where
  "derive_operational_mqtt_identity value =
     (let normalized = normalize_node_id value in if normalized = [] then [] else ''hn_'' @ normalized)"

section \<open>The activation\<close>

definition is_non_empty_string :: "pyval \<Rightarrow> bool" where
  "is_non_empty_string v = (case v of PStr s \<Rightarrow> py_strip s \<noteq> [] | _ \<Rightarrow> False)"

definition stripped :: "pyval \<Rightarrow> string" where
  "stripped v = (case v of PStr s \<Rightarrow> py_strip s | _ \<Rightarrow> [])"

definition REQUIRED_TRUST_FIELDS :: "string list" where
  "REQUIRED_TRUST_FIELDS =
     [''node_id'', ''paired_core_id'', ''node_trust_token'', ''initial_baseline_policy'', ''operational_mqtt_identity'',
      ''operational_mqtt_token'', ''operational_mqtt_host'', ''operational_mqtt_port'']"

definition first_missing :: "string list \<Rightarrow> pydict \<Rightarrow> string option" where
  "first_missing keys d = List.find (\<lambda>k. map_of d k = None) keys"

definition positive_port :: "pyval \<Rightarrow> int option" where
  "positive_port v = (case py_int v of Inr p \<Rightarrow> if p \<le> 0 then None else Some p | Inl _ \<Rightarrow> None)"

record activation =
  ac_node_id :: string
  ac_node_type :: string
  ac_paired_core_id :: string
  ac_node_trust_token :: string
  ac_initial_baseline_policy :: pydict
  ac_operational_mqtt_identity :: string
  ac_operational_mqtt_token :: string
  ac_operational_mqtt_host :: string
  ac_operational_mqtt_port :: int

definition parse_trust_activation_payload :: "pyval \<Rightarrow> string + activation" where
  "parse_trust_activation_payload payload =
     (case payload of
        PDict d \<Rightarrow>
          let node_id = normalize_node_id (dget d ''node_id'');
              node_type = py_strip (py_str (case map_of d ''node_type'' of None \<Rightarrow> PStr ''ai-node'' | Some v \<Rightarrow> v))
          in if dget d ''status'' \<noteq> PStr ''approved'' then Inl ''invalid_status''
             else (case first_missing REQUIRED_TRUST_FIELDS d of
               Some k \<Rightarrow> Inl (''missing_'' @ k)
             | None \<Rightarrow>
                 if \<not> is_valid_canonical_node_id (PStr node_id) then Inl ''invalid_node_id''
                 else if node_type = [] then Inl ''invalid_node_type''
                 else if \<not> is_non_empty_string (dget d ''paired_core_id'') then Inl ''invalid_paired_core_id''
                 else if \<not> is_non_empty_string (dget d ''node_trust_token'') then Inl ''invalid_node_trust_token''
                 else (case dget d ''initial_baseline_policy'' of
                   PDict policy \<Rightarrow>
                     if \<not> is_non_empty_string (dget d ''operational_mqtt_token'') then Inl ''invalid_operational_mqtt_token''
                     else if \<not> is_non_empty_string (dget d ''operational_mqtt_host'') then Inl ''invalid_operational_mqtt_host''
                     else (case positive_port (dget d ''operational_mqtt_port'') of
                       None \<Rightarrow> Inl ''invalid_operational_mqtt_port''
                     | Some port \<Rightarrow>
                         Inr \<lparr>ac_node_id = node_id, ac_node_type = node_type,
                           ac_paired_core_id = stripped (dget d ''paired_core_id''),
                           ac_node_trust_token = stripped (dget d ''node_trust_token''),
                           ac_initial_baseline_policy = policy,
                           ac_operational_mqtt_identity = derive_operational_mqtt_identity (PStr node_id),
                           ac_operational_mqtt_token = stripped (dget d ''operational_mqtt_token''),
                           ac_operational_mqtt_host = stripped (dget d ''operational_mqtt_host''),
                           ac_operational_mqtt_port = port\<rparr>)
                 | _ \<Rightarrow> Inl ''invalid_initial_baseline_policy''))
      | _ \<Rightarrow> Inl ''invalid_payload'')"

section \<open>The trust file\<close>

definition REQUIRED_TRUST_STATE_FIELDS :: "string list" where
  "REQUIRED_TRUST_STATE_FIELDS =
     [''node_id'', ''node_name'', ''node_type'', ''paired_core_id'', ''core_api_endpoint'', ''node_trust_token'',
      ''initial_baseline_policy'', ''baseline_policy_version'', ''operational_mqtt_identity'', ''operational_mqtt_token'',
      ''operational_mqtt_host'', ''operational_mqtt_port'', ''bootstrap_mqtt_host'', ''registration_timestamp'']"

definition TRUST_STRING_FIELDS :: "string list" where
  "TRUST_STRING_FIELDS =
     [''node_id'', ''node_name'', ''node_type'', ''paired_core_id'', ''core_api_endpoint'', ''node_trust_token'',
      ''baseline_policy_version'', ''operational_mqtt_identity'', ''operational_mqtt_token'', ''operational_mqtt_host'',
      ''bootstrap_mqtt_host'', ''registration_timestamp'']"

definition normalize_trust_state :: "pydict \<Rightarrow> pydict" where
  "normalize_trust_state d =
     (case map_of d ''node_id'' of
        None \<Rightarrow> d
      | Some v \<Rightarrow>
          let node_id = normalize_node_id v
          in AList.update ''operational_mqtt_identity'' (PStr (derive_operational_mqtt_identity (PStr node_id)))
               (AList.update ''node_id'' (PStr node_id) d))"

text \<open>The error of a state, with the caller's \<open>isinstance(data, dict)\<close> already true.\<close>

definition validate_trust_state :: "pydict \<Rightarrow> string option" where
  "validate_trust_state data =
     (let d = normalize_trust_state data
      in case first_missing REQUIRED_TRUST_STATE_FIELDS d of
           Some k \<Rightarrow> Some (''missing_'' @ k)
         | None \<Rightarrow>
             (case List.find (\<lambda>k. \<not> is_non_empty_string (dget d k)) TRUST_STRING_FIELDS of
                Some k \<Rightarrow> Some (''invalid_'' @ k)
              | None \<Rightarrow>
                  if \<not> is_valid_canonical_node_id (dget d ''node_id'') then Some ''invalid_node_id''
                  else if dget d ''node_type'' \<noteq> PStr ''ai-node'' then Some ''invalid_node_type''
                  else if \<not> is_dict (dget d ''initial_baseline_policy'') then Some ''invalid_initial_baseline_policy''
                  else if positive_port (dget d ''operational_mqtt_port'') = None then Some ''invalid_operational_mqtt_port''
                  else None))"

text \<open>What the disk is after a save, or the exception with the disk as it was.\<close>

definition trust_save :: "bool \<Rightarrow> pydict \<Rightarrow> pyval result" where
  "trust_save disk trust_state =
     (let d = normalize_trust_state trust_state
      in case validate_trust_state d of
           Some error \<Rightarrow> Inl (ValueError (''cannot save invalid trust state: '' @ error))
         | None \<Rightarrow> if disk then Inr (PDict d) else Inl (RuntimeError ''OSError''))"

text \<open>
  \<open>dict(data)\<close>: of a dictionary, or of pairs. A key that is no text is none of the fields and is
  dropped; a list or a dictionary cannot be a key.
\<close>

fun pair_of :: "pyval \<Rightarrow> (pyval \<times> pyval) option" where
  "pair_of (PList [k, v]) = Some (k, v)"
| "pair_of (PStr [a, b]) = Some (PStr [a], PStr [b])"
| "pair_of (PDict [(a, _), (b, _)]) = Some (PStr a, PStr b)"
| "pair_of _ = None"

fun dict_of_pairs :: "pyval list \<Rightarrow> pydict \<Rightarrow> pydict result" where
  "dict_of_pairs [] d = Inr d"
| "dict_of_pairs (p # ps) d =
     (case pair_of p of
        None \<Rightarrow> Inl TypeError
      | Some (PStr k, v) \<Rightarrow> dict_of_pairs ps (AList.update k v d)
      | Some (PList _, v) \<Rightarrow> Inl TypeError
      | Some (PDict _, v) \<Rightarrow> Inl TypeError
      | Some _ \<Rightarrow> dict_of_pairs ps d)"

definition dict_of :: "pyval \<Rightarrow> pydict result" where
  "dict_of v =
     (case v of
        PDict d \<Rightarrow> Inr d
      | PList vs \<Rightarrow> dict_of_pairs vs []
      | PStr s \<Rightarrow> if s = [] then Inr [] else Inl (ValueError ''dictionary update sequence'')
      | _ \<Rightarrow> Inl TypeError)"

text \<open>Loading writes the file again when normalising changed it.\<close>

definition trust_load :: "bool \<Rightarrow> pyval option \<Rightarrow> pyval option \<times> pydict option result" where
  "trust_load disk file =
     (case file of
        None \<Rightarrow> (None, Inr None)
      | Some v \<Rightarrow>
          (case dict_of v of
             Inl e \<Rightarrow> (file, Inl e)
           | Inr data \<Rightarrow>
               let normalized = normalize_trust_state data
               in if validate_trust_state normalized \<noteq> None then (file, Inr None)
                  else if py_eq (PDict normalized) v then (file, Inr (Some normalized))
                  else (case trust_save disk normalized of
                          Inl e \<Rightarrow> (file, Inl e)
                        | Inr file' \<Rightarrow> (Some file', Inr (Some normalized)))))"

section \<open>The start of a node\<close>

record StartupDecision =
  sd_mode :: string
  sd_trust_state :: "pydict option"
  sd_reason :: string

definition startup_meta :: "string \<Rightarrow> pydict" where
  "startup_meta mode = [(''startup_mode'', PStr mode)]"

text \<open>A transition that raises leaves those before it.\<close>

fun transitions :: "(NodeLifecycleState \<times> pydict) list \<Rightarrow> node_lifecycle \<Rightarrow> node_lifecycle \<times> unit result" where
  "transitions [] lc = (lc, Inr ())"
| "transitions ((s, meta) # rest) lc =
     (case transition_to lc (IsState s) meta of Inl e \<Rightarrow> (lc, Inl e) | Inr lc' \<Rightarrow> transitions rest lc')"

definition resolve_startup_path ::
    "bool \<Rightarrow> pyval option \<times> node_lifecycle \<Rightarrow> (pyval option \<times> node_lifecycle) \<times> StartupDecision result" where
  "resolve_startup_path disk w =
     (case trust_load disk (fst w) of
        (file, Inl e) \<Rightarrow> ((file, snd w), Inl e)
      | (file, Inr (Some trusted_state)) \<Rightarrow>
          (case transitions [(TRUSTED, startup_meta ''trusted_resume''), (CAPABILITY_SETUP_PENDING, startup_meta ''trusted_resume'')]
                  (snd w) of
             (lc, Inl e) \<Rightarrow> ((file, lc), Inl e)
           | (lc, Inr _) \<Rightarrow>
               ((file, lc), Inr \<lparr>sd_mode = ''trusted_resume'', sd_trust_state = Some trusted_state,
                  sd_reason = ''valid_trust_state_found''\<rparr>))
      | (file, Inr None) \<Rightarrow>
          (case transitions [(BOOTSTRAP_CONNECTING, startup_meta ''bootstrap_onboarding'')] (snd w) of
             (lc, Inl e) \<Rightarrow> ((file, lc), Inl e)
           | (lc, Inr _) \<Rightarrow>
               ((file, lc), Inr \<lparr>sd_mode = ''bootstrap_onboarding'', sd_trust_state = None,
                  sd_reason = ''trust_state_missing_or_invalid''\<rparr>)))"


section \<open>Lemmas on node identities\<close>

lemma lower_hex_plain: "lower_hex c \<Longrightarrow> \<not> py_isspace c \<and> py_lower_char c = c"
  by (auto simp: lower_hex_def is_digit_def py_isspace_def py_lower_char_def Let_def)

lemma uuid_chars:
  assumes "uuid_text vs s"
  shows "length s = 36" and "\<forall>c\<in>set s. \<not> py_isspace c \<and> py_lower_char c = c" and "s \<noteq> []"
proof -
  show l: "length s = 36" using assms by (simp add: uuid_text_def)
  then show "s \<noteq> []" by auto
  have d: "\<not> py_isspace CHR ''-'' \<and> py_lower_char CHR ''-'' = CHR ''-''" by code_simp
  show "\<forall>c\<in>set s. \<not> py_isspace c \<and> py_lower_char c = c"
  proof
    fix c assume "c \<in> set s"
    then obtain i where i: "i < 36" "c = s ! i" using l by (auto simp: in_set_conv_nth)
    have "(i, c) \<in> set (zip [0..<36] s)" using i l by (auto simp: set_zip intro!: exI [of _ i])
    moreover have "list_all (\<lambda>(i, c). if i \<in> {8, 13, 18, 23} then c = CHR ''-'' else lower_hex c) (zip [0..<36] s)"
      using assms by (simp only: uuid_text_def)
    ultimately have "if i \<in> {8, 13, 18, 23} then c = CHR ''-'' else lower_hex c" unfolding list_all_iff by blast
    then show "\<not> py_isspace c \<and> py_lower_char c = c" using d lower_hex_plain by (auto split: if_splits)
  qed
qed

lemma plain_text:
  assumes "\<forall>c\<in>set s. \<not> py_isspace c \<and> py_lower_char c = c"
  shows "py_strip s = s" and "py_lower s = s"
proof -
  show "py_strip s = s" using assms by (intro py_strip_fixed) auto
  show "py_lower s = s" using assms by (simp add: py_lower_def map_idI)
qed

lemma node_prefix_plain: "\<forall>c\<in>set ''node-''. \<not> py_isspace c \<and> py_lower_char c = c"
  by code_simp

lemma normalize_node_id_text: "normalize_node_id (PStr s) = (let n = py_lower (py_strip s) in if uuid_text ''4'' n then ''node-'' @ n else n)"
  by (simp add: normalize_node_id_def)

lemma normalize_node_id_again [simp]: "normalize_node_id (PStr (normalize_node_id v)) = normalize_node_id v"
proof (cases "uuid_text ''4'' (py_lower (norm_string v))")
  case True
  let ?n = "py_lower (norm_string v)"
  have p: "\<forall>c\<in>set (''node-'' @ ?n). \<not> py_isspace c \<and> py_lower_char c = c"
    using uuid_chars(2) [OF True] node_prefix_plain unfolding set_append by blast
  have n: "normalize_node_id v = ''node-'' @ ?n" by (simp only: normalize_node_id_def Let_def True if_True)
  have "length (''node-'' @ ?n) = 41" using uuid_chars(1) [OF True] by simp
  then have "\<not> uuid_text ''4'' (''node-'' @ ?n)" by (auto simp only: uuid_text_def)
  then show ?thesis unfolding n normalize_node_id_text plain_text [OF p] Let_def by (simp only: if_False)
next
  case False
  then have n: "normalize_node_id v = py_lower (norm_string v)" by (simp add: normalize_node_id_def)
  have "py_strip (py_lower (norm_string v)) = py_lower (norm_string v)"
    by (simp add: py_lower_strip [symmetric] norm_string_stripped)
  then show ?thesis unfolding n normalize_node_id_text using False by simp
qed

lemma update_twice: "AList.update k v (AList.update k w al) = AList.update k v al"
  by (induction al) auto

lemma update_swap_present: "map_of al k = Some u \<Longrightarrow> k \<noteq> j \<Longrightarrow> AList.update k v (AList.update j w al) = AList.update j w (AList.update k v al)"
  by (induction al) (auto split: if_splits)

lemma normalize_trust_state_again [simp]: "normalize_trust_state (normalize_trust_state d) = normalize_trust_state d"
proof (cases "map_of d ''node_id''")
  case (Some v)
  let ?n = "normalize_node_id v"
  let ?d = "AList.update ''operational_mqtt_identity'' (PStr (derive_operational_mqtt_identity (PStr ?n)))
      (AList.update ''node_id'' (PStr ?n) d)"
  have "map_of ?d ''node_id'' = Some (PStr ?n)" by (simp add: dict.get_put)
  moreover have "AList.update ''node_id'' (PStr ?n) ?d = ?d"
  proof -
    have "AList.update ''node_id'' (PStr ?n) ?d = AList.update ''operational_mqtt_identity''
        (PStr (derive_operational_mqtt_identity (PStr ?n))) (AList.update ''node_id'' (PStr ?n) (AList.update ''node_id'' (PStr ?n) d))"
      by (rule update_swap_present) (simp_all add: dict.get_put)
    then show ?thesis by (simp add: update_twice)
  qed
  ultimately show ?thesis by (simp add: normalize_trust_state_def Some Let_def update_twice)
qed (simp add: normalize_trust_state_def)


section \<open>What the file promises\<close>

definition trust_valid :: "pyval option \<Rightarrow> bool" where
  "trust_valid file = (\<exists>d. file = Some (PDict d) \<and> normalize_trust_state d = d \<and> validate_trust_state d = None)"

lemma trust_saved:
  assumes "trust_save disk d = Inr file"
  shows "file = PDict (normalize_trust_state d)" and "validate_trust_state (normalize_trust_state d) = None" and "disk"
  using assms by (auto simp: trust_save_def Let_def split: option.splits if_splits)

lemma trust_load_valid:
  assumes "normalize_trust_state d = d" and "validate_trust_state d = None"
  shows "trust_load True (Some (PDict d)) = (Some (PDict d), Inr (Some d))"
  using assms by (simp add: trust_load_def dict_of_def trust_save_def Let_def)

lemma trust_load_facts:
  assumes "trust_load disk file = (file', r)"
  shows "file' = file \<or> trust_valid file'" and "r = Inr (Some d) \<Longrightarrow> normalize_trust_state d = d \<and> validate_trust_state d = None"
  using assms by (auto simp: trust_load_def Let_def trust_valid_def dest: trust_saved split: option.splits sum.splits if_splits)


definition a_node_id :: string where
  "a_node_id = ''node-00000000-0000-4000-8000-000000000000''"

definition a_trust_state :: pydict where
  "a_trust_state =
     [(''node_id'', PStr a_node_id), (''node_name'', PStr ''n''), (''node_type'', PStr ''ai-node''), (''paired_core_id'', PStr ''c''),
      (''core_api_endpoint'', PStr ''u''), (''node_trust_token'', PStr ''t''), (''initial_baseline_policy'', PDict []),
      (''baseline_policy_version'', PStr ''1.0''), (''operational_mqtt_identity'', PStr ''i''), (''operational_mqtt_token'', PStr ''k''),
      (''operational_mqtt_host'', PStr ''h''), (''operational_mqtt_port'', PInt 1883), (''bootstrap_mqtt_host'', PStr ''b''),
      (''registration_timestamp'', PStr ''now'')]"


end
