(* ===== verification/Onboarding.thy ===== *)
theory Onboarding
  imports Trust
begin

text \<open>
  How a node becomes trusted: \<open>runtime/onboarding_runtime.py\<close> with the request of
  \<open>registration/registration_client.py\<close>. A registration runs in a thread of its own that is cut at
  its waits, for an answer of the core or for the next poll; what other threads do (a
  cancellation, a reset of the lifecycle, a new discovery, the removal of the trust file) comes
  between. An exception of the network is a \<open>RuntimeError\<close> with its text. How a URL is put together
  is a function of the environment, callbacks and log lines are left out.
\<close>

section \<open>State\<close>

record onboarding_config =
  oc_software_version :: string
  oc_protocol_version :: string
  oc_hostname :: "string option"
  oc_ui_endpoint :: "string option"
  oc_api_base_url :: "string option"
  oc_has_identity_store :: bool

text \<open>What a section draws from its surroundings.\<close>

record onboarding_env =
  oe_registration_url :: "pydict \<Rightarrow> string result"
  oe_finalize_url :: "string \<Rightarrow> string \<Rightarrow> string \<Rightarrow> string result"
  oe_text :: "exn \<Rightarrow> string"
  oe_repr :: "exn \<Rightarrow> string"
  oe_type :: "exn \<Rightarrow> string"
  oe_nonce :: string
  oe_retry_nonce :: string
  oe_new_identity :: "pydict option result"
  oe_disk :: bool
  oe_now :: string

text \<open>
  Where a thread waits: before it begins, for the answer to a post with a nonce, before a poll of a
  URL, for the answer to it, both with the number of failed polls in a row.
\<close>

datatype phase =
    Starting
  | Registering bool string "string \<times> pydict"
  | Polling string nat
  | Deciding string nat

record worker =
  wk_run :: nat
  wk_bootstrap :: pydict
  wk_name :: string
  wk_phase :: phase

record onboarding =
  ob_lifecycle :: node_lifecycle
  ob_node_id :: string
  ob_inflight :: bool
  ob_run_id :: nat
  ob_pending :: "(pyval \<times> pyval \<times> string) option"
  ob_allow_reset :: bool
  ob_trust_file :: "pyval option"
  ob_workers :: "worker list"

definition new_onboarding :: "node_lifecycle \<Rightarrow> string \<Rightarrow> pyval option \<Rightarrow> onboarding result" where
  "new_onboarding lc node_id file =
     (if py_strip node_id = [] then Inl (ValueError ''onboarding runtime requires node_id'')
      else Inr \<lparr>ob_lifecycle = lc, ob_node_id = py_strip node_id, ob_inflight = False, ob_run_id = 0, ob_pending = None,
                ob_allow_reset = False, ob_trust_file = file, ob_workers = []\<rparr>)"

definition on_core_discovered :: "pydict \<Rightarrow> string \<Rightarrow> onboarding \<Rightarrow> onboarding" where
  "on_core_discovered bootstrap_payload node_name ob =
     (if ob_inflight ob \<or> nl_state (ob_lifecycle ob) \<noteq> CORE_DISCOVERED then ob
      else ob\<lparr>ob_inflight := True, ob_run_id := ob_run_id ob + 1,
              ob_workers := ob_workers ob @
                [\<lparr>wk_run = ob_run_id ob + 1, wk_bootstrap = bootstrap_payload, wk_name = node_name, wk_phase = Starting\<rparr>]\<rparr>)"

definition cancel :: "onboarding \<Rightarrow> onboarding" where
  "cancel ob = ob\<lparr>ob_run_id := ob_run_id ob + 1, ob_inflight := False, ob_pending := None, ob_allow_reset := False\<rparr>"

definition prepare_retrust :: "bool \<Rightarrow> onboarding \<Rightarrow> onboarding" where
  "prepare_retrust allowed ob = ob\<lparr>ob_allow_reset := allowed\<rparr>"

definition is_run_active :: "worker \<Rightarrow> onboarding \<Rightarrow> bool" where
  "is_run_active w ob = (wk_run w = ob_run_id ob)"

definition change_state :: "NodeLifecycleState \<Rightarrow> pydict \<Rightarrow> onboarding \<Rightarrow> onboarding \<times> unit result" where
  "change_state s meta ob =
     (case transition_to (ob_lifecycle ob) (IsState s) meta of
        Inl e \<Rightarrow> (ob, Inl e) | Inr lc \<Rightarrow> (ob\<lparr>ob_lifecycle := lc\<rparr>, Inr ()))"

section \<open>The registration\<close>

definition require_text :: "string \<Rightarrow> string \<Rightarrow> string result" where
  "require_text name s = (if py_strip s = [] then Inl (ValueError (name @ '' is required'')) else Inr (py_strip s))"

definition normalize_endpoint :: "string \<Rightarrow> string option \<Rightarrow> string option result" where
  "normalize_endpoint name v =
     (case v of
        None \<Rightarrow> Inr None
      | Some s \<Rightarrow>
          let t = py_strip s
          in if t = [] then Inr None
             else if py_startswith t ''http://'' \<or> py_startswith t ''https://'' then Inr (Some t)
             else Inl (ValueError (name @ '' must be an absolute http/https URL'')))"

definition optional_entry :: "string \<Rightarrow> string option \<Rightarrow> pydict" where
  "optional_entry k v = (case v of None \<Rightarrow> [] | Some s \<Rightarrow> [(k, PStr s)])"

definition registration_payload :: "onboarding_config \<Rightarrow> string \<Rightarrow> string \<Rightarrow> string \<Rightarrow> pydict result" where
  "registration_payload C node_id node_name node_nonce =
     ebind (require_text ''node_id'' node_id) (\<lambda>i.
     ebind (require_text ''node_name'' node_name) (\<lambda>n.
     ebind (require_text ''node_software_version'' (oc_software_version C)) (\<lambda>v.
     ebind (require_text ''node_nonce'' node_nonce) (\<lambda>c.
     ebind (normalize_endpoint ''ui_endpoint'' (oc_ui_endpoint C)) (\<lambda>ui.
     ebind (normalize_endpoint ''api_base_url'' (oc_api_base_url C)) (\<lambda>api.
     Inr ([(''node_id'', PStr i), (''node_name'', PStr n), (''node_type'', PStr ''ai-node''),
           (''node_software_version'', PStr v), (''protocol_version'', PStr (py_strip (oc_protocol_version C))),
           (''node_nonce'', PStr c)] @
          optional_entry ''hostname'' (case oc_hostname C of None \<Rightarrow> None | Some h \<Rightarrow> none_if_empty (py_strip h)) @
          optional_entry ''ui_endpoint'' ui @ optional_entry ''api_base_url'' api)))))))"

text \<open>Up to the post: the URL and the payload that are sent.\<close>

definition register ::
    "onboarding_config \<Rightarrow> onboarding_env \<Rightarrow> worker \<Rightarrow> string \<Rightarrow> bool \<Rightarrow> onboarding \<Rightarrow> onboarding \<times> (string \<times> pydict) result" where
  "register C E w node_nonce set_pending_state ob =
     (case ebind (oe_registration_url E (wk_bootstrap w)) (\<lambda>url.
           ebind (registration_payload C (ob_node_id ob) (wk_name w) node_nonce) (\<lambda>payload. Inr (url, payload))) of
        Inl e \<Rightarrow> (ob, Inl e)
      | Inr post \<Rightarrow>
          if set_pending_state
          then (case change_state REGISTRATION_PENDING [] ob of (ob', Inl e) \<Rightarrow> (ob', Inl e) | (ob', Inr _) \<Rightarrow> (ob', Inr post))
          else (ob, Inr post))"

definition contains :: "string \<Rightarrow> string \<Rightarrow> bool" where
  "contains s p = list_ex (\<lambda>i. py_startswith (drop i s) p) [0..<Suc (length s)]"

definition should_retry_duplicate_identity :: "onboarding_env \<Rightarrow> exn \<Rightarrow> bool \<Rightarrow> onboarding \<Rightarrow> bool" where
  "should_retry_duplicate_identity E e attempted ob =
     (\<not> attempted \<and> ob_allow_reset ob \<and> contains (py_lower (py_strip (oe_text E e))) ''duplicate_node_identity'')"

definition rotate_node_identity :: "onboarding_config \<Rightarrow> onboarding_env \<Rightarrow> onboarding \<Rightarrow> onboarding \<times> unit result" where
  "rotate_node_identity C E ob =
     (if \<not> oc_has_identity_store C
      then (ob, Inl (RuntimeError ''duplicate node identity retry requires node identity store create() support''))
      else (case oe_new_identity E of
              Inl e \<Rightarrow> (ob, Inl e)
            | Inr identity \<Rightarrow>
                let new_node_id = norm_string (case identity of None \<Rightarrow> PNone | Some d \<Rightarrow> dget d ''node_id'')
                in if new_node_id = []
                   then (ob, Inl (RuntimeError ''duplicate node identity retry did not produce a valid node_id''))
                   else (ob\<lparr>ob_node_id := new_node_id, ob_pending := None\<rparr>, Inr ())))"

definition message_of :: "onboarding_env \<Rightarrow> exn \<Rightarrow> string" where
  "message_of E e = (let text = py_strip (oe_text E e) in if text = [] then oe_repr E e else text)"

text \<open>What a section ends with: the next wait, the end of the thread, or an exception.\<close>

datatype outcome = Waits phase | Ends | Raises exn

definition attempt :: "onboarding_config \<Rightarrow> onboarding_env \<Rightarrow> worker \<Rightarrow> onboarding \<Rightarrow> onboarding \<times> outcome" where
  "attempt C E w ob =
     (case register C E w (oe_retry_nonce E) False ob of
        (ob', Inl e) \<Rightarrow> (ob', Raises e)
      | (ob', Inr post) \<Rightarrow> (ob', Waits (Registering True (oe_retry_nonce E) post)))"

definition register_failed ::
    "onboarding_config \<Rightarrow> onboarding_env \<Rightarrow> worker \<Rightarrow> bool \<Rightarrow> exn \<Rightarrow> onboarding \<Rightarrow> onboarding \<times> outcome" where
  "register_failed C E w attempted e ob =
     (if \<not> should_retry_duplicate_identity E e attempted ob then (ob, Raises e)
      else (case rotate_node_identity C E ob of
              (ob', Inl e') \<Rightarrow> (ob', Raises e')
            | (ob', Inr _) \<Rightarrow> attempt C E w ob'))"

definition on_start :: "onboarding_config \<Rightarrow> onboarding_env \<Rightarrow> worker \<Rightarrow> onboarding \<Rightarrow> onboarding \<times> outcome" where
  "on_start C E w ob =
     (if \<not> is_run_active w ob then (ob, Ends)
      else (case register C E w (oe_nonce E) True ob of
              (ob', Inl e) \<Rightarrow> register_failed C E w False e ob'
            | (ob', Inr post) \<Rightarrow> (ob', Waits (Registering False (oe_nonce E) post))))"

text \<open>The answer to a registration.\<close>

definition dict_get :: "pydict \<Rightarrow> string \<Rightarrow> pyval \<Rightarrow> pyval" where
  "dict_get d k v = (case map_of d k of None \<Rightarrow> v | Some w \<Rightarrow> w)"

definition response_status :: "pydict \<Rightarrow> pyval result" where
  "response_status response =
     (if truthy (dget response ''status'') then Inr (dget response ''status'')
      else if truthy (dget response ''onboarding_status'') then Inr (dget response ''onboarding_status'')
      else vget (dict_get response ''session'' (PDict [])) ''onboarding_status'')"

definition pending_status :: "pyval \<Rightarrow> bool result" where
  "pending_status v =
     (case v of
        PList _ \<Rightarrow> Inl TypeError
      | PDict _ \<Rightarrow> Inl TypeError
      | _ \<Rightarrow> Inr (v = PStr ''pending'' \<or> v = PStr ''pending_approval''))"

definition session_of :: "pydict \<Rightarrow> (pyval \<times> pyval \<times> string) result" where
  "session_of response =
     ebind (response_status response) (\<lambda>status.
     let session = as_dict (dget response ''session'')
     in ebind (vget (dict_get session ''finalize'' (PDict [])) ''path'') (\<lambda>finalize_path.
        ebind (pending_status status) (\<lambda>pending.
        if \<not> pending \<or> \<not> truthy (dget session ''session_id'') \<or> \<not> truthy finalize_path
        then Inl (RuntimeError (''unexpected onboarding session response: '' @ py_repr (PDict response)))
        else Inr (dget session ''session_id'', dget session ''approval_url'', py_str finalize_path))))"

definition poll_url :: "onboarding_env \<Rightarrow> pydict \<Rightarrow> string \<Rightarrow> string \<Rightarrow> outcome" where
  "poll_url E bootstrap_payload finalize_path node_nonce =
     (let api_base = py_strip (py_str (dict_get bootstrap_payload ''api_base'' (PStr [])))
      in if api_base = [] then Raises (RuntimeError ''bootstrap payload missing api_base'')
         else (case oe_finalize_url E api_base finalize_path node_nonce of
                 Inl e \<Rightarrow> Raises e
               | Inr url \<Rightarrow> Waits (Polling url 0)))"

definition on_response ::
    "onboarding_config \<Rightarrow> onboarding_env \<Rightarrow> worker \<Rightarrow> bool \<Rightarrow> string \<Rightarrow> pydict result \<Rightarrow> onboarding \<Rightarrow> onboarding \<times> outcome" where
  "on_response C E w attempted node_nonce answer ob =
     (case answer of
        Inl e \<Rightarrow> register_failed C E w attempted e ob
      | Inr response \<Rightarrow>
          let ob1 = ob\<lparr>ob_allow_reset := False\<rparr>
          in case session_of response of
               Inl e \<Rightarrow> (ob1, Raises e)
             | Inr (session_id, approval_url, finalize_path) \<Rightarrow>
                 if \<not> is_run_active w ob1 then (ob1, Ends)
                 else (case change_state PENDING_APPROVAL [] ob1 of
                         (ob2, Inl e) \<Rightarrow> (ob2, Raises e)
                       | (ob2, Inr _) \<Rightarrow>
                           let ob3 = ob2\<lparr>ob_pending := Some (approval_url, session_id, node_nonce)\<rparr>
                           in (ob3, poll_url E (wk_bootstrap w) finalize_path node_nonce)))"

section \<open>The decision\<close>

definition is_loopback_host :: "string \<Rightarrow> bool" where
  "is_loopback_host host = (py_lower (py_strip host) \<in> {''127.0.0.1'', ''localhost'', ''0.0.0.0'', ''::1''})"

definition activation_of :: "pydict \<Rightarrow> pydict" where
  "activation_of decision = (case dget decision ''activation'' of PDict a \<Rightarrow> a | _ \<Rightarrow> decision)"

definition activation_envelope :: "pydict \<Rightarrow> pyval" where
  "activation_envelope decision =
     PDict (fold (\<lambda>(k, v). AList.update k v) (activation_of decision) [(''status'', PStr ''approved'')])"

definition bootstrap_mqtt_host :: "pydict \<Rightarrow> string" where
  "bootstrap_mqtt_host bootstrap_payload =
     norm_string (py_or (dget bootstrap_payload ''mqtt_host'') (dget bootstrap_payload ''bootstrap_host''))"

definition trust_state_of :: "string \<Rightarrow> pydict \<Rightarrow> pydict \<Rightarrow> string \<Rightarrow> activation \<Rightarrow> pydict" where
  "trust_state_of now decision bootstrap_payload node_name a =
     (let host = ac_operational_mqtt_host a; boot = bootstrap_mqtt_host bootstrap_payload;
          effective = (if is_loopback_host host \<and> boot \<noteq> [] \<and> \<not> is_loopback_host boot then boot else host)
      in [(''node_id'', PStr (ac_node_id a)), (''node_name'', PStr node_name), (''node_type'', PStr (ac_node_type a)),
          (''paired_core_id'', PStr (ac_paired_core_id a)),
          (''core_api_endpoint'', PStr (py_strip (py_str (dict_get bootstrap_payload ''api_base'' (PStr []))))),
          (''node_trust_token'', PStr (ac_node_trust_token a)),
          (''initial_baseline_policy'', PDict (ac_initial_baseline_policy a)),
          (''baseline_policy_version'', dict_get (activation_of decision) ''baseline_policy_version'' (PStr ''1.0'')),
          (''operational_mqtt_identity'', PStr (ac_operational_mqtt_identity a)),
          (''operational_mqtt_token'', PStr (ac_operational_mqtt_token a)), (''operational_mqtt_host'', PStr effective),
          (''operational_mqtt_port'', PInt (ac_operational_mqtt_port a)), (''bootstrap_mqtt_host'', PStr boot),
          (''registration_timestamp'', PStr now)])"

definition finalize_approved :: "onboarding_env \<Rightarrow> worker \<Rightarrow> pydict \<Rightarrow> onboarding \<Rightarrow> onboarding \<times> outcome" where
  "finalize_approved E w decision ob =
     (case parse_trust_activation_payload (activation_envelope decision) of
        Inl error \<Rightarrow> (ob, Raises (RuntimeError (''invalid trust activation payload: '' @ error)))
      | Inr a \<Rightarrow>
          if ac_node_id a \<noteq> ob_node_id ob
          then (ob, Raises (RuntimeError (''node_id mismatch between identity ('' @ ob_node_id ob @ '') and activation payload (''
                  @ ac_node_id a @ '')'')))
          else (case trust_save (oe_disk E) (trust_state_of (oe_now E) decision (wk_bootstrap w) (wk_name w) a) of
                  Inl e \<Rightarrow> (ob, Raises e)
                | Inr file \<Rightarrow>
                    (case change_state TRUSTED [] (ob\<lparr>ob_trust_file := Some file\<rparr>) of
                       (ob1, Inl e) \<Rightarrow> (ob1, Raises e)
                     | (ob1, Inr _) \<Rightarrow>
                         (case change_state CAPABILITY_SETUP_PENDING [(''source'', PStr ''onboarding_finalize_approved'')] ob1 of
                            (ob2, Inl e) \<Rightarrow> (ob2, Raises e)
                          | (ob2, Inr _) \<Rightarrow> (ob2\<lparr>ob_pending := None\<rparr>, Ends)))))"

definition MAX_POLL_ERRORS :: nat where
  "MAX_POLL_ERRORS = 30"

definition on_poll :: "worker \<Rightarrow> string \<Rightarrow> nat \<Rightarrow> onboarding \<Rightarrow> onboarding \<times> outcome" where
  "on_poll w finalize_url errors ob = (ob, if is_run_active w ob then Waits (Deciding finalize_url errors) else Ends)"

definition decision_status :: "pydict \<Rightarrow> string" where
  "decision_status decision = norm_string (py_or (dget decision ''onboarding_status'') (dget decision ''status''))"

text \<open>The answer to a poll. The run is not looked at again before an approval is carried out.\<close>

definition on_decision ::
    "onboarding_env \<Rightarrow> worker \<Rightarrow> string \<Rightarrow> nat \<Rightarrow> pydict result \<Rightarrow> onboarding \<Rightarrow> onboarding \<times> outcome" where
  "on_decision E w finalize_url errors answer ob =
     (case answer of
        Inl e \<Rightarrow>
          if MAX_POLL_ERRORS \<le> errors + 1
          then (ob, Raises (RuntimeError (''finalize polling failed after 30 attempts: '' @ oe_type E e @ '': '' @ message_of E e)))
          else (ob, Waits (Polling finalize_url (errors + 1)))
      | Inr decision \<Rightarrow>
          let s = decision_status decision
          in if s = ''pending'' \<or> s = ''pending_approval'' then (ob, Waits (Polling finalize_url 0))
             else if s = ''approved'' then finalize_approved E w decision ob
             else if s \<in> {''rejected'', ''expired'', ''consumed'', ''invalid''}
             then (ob, Raises (RuntimeError (''onboarding finalize returned '' @ s)))
             else (ob, Raises (RuntimeError (''unexpected finalize response: '' @ py_repr (PDict decision)))))"

section \<open>The thread\<close>

definition worker_section ::
    "onboarding_config \<Rightarrow> onboarding_env \<Rightarrow> pydict result \<Rightarrow> worker \<Rightarrow> onboarding \<Rightarrow> onboarding \<times> outcome" where
  "worker_section C E answer w ob =
     (case wk_phase w of
        Starting \<Rightarrow> on_start C E w ob
      | Registering attempted node_nonce post \<Rightarrow> on_response C E w attempted node_nonce answer ob
      | Polling finalize_url errors \<Rightarrow> on_poll w finalize_url errors ob
      | Deciding finalize_url errors \<Rightarrow> on_decision E w finalize_url errors answer ob)"

definition failure_meta :: "onboarding_env \<Rightarrow> exn \<Rightarrow> pydict" where
  "failure_meta E e =
     [(''stage'', PStr ''registration''), (''error_type'', PStr (oe_type E e)), (''error'', PStr (message_of E e))]"

definition run_failed :: "onboarding_env \<Rightarrow> worker \<Rightarrow> exn \<Rightarrow> onboarding \<Rightarrow> onboarding" where
  "run_failed E w e ob =
     (if \<not> is_run_active w ob then ob
      else if nl_state (ob_lifecycle ob) \<in> {CORE_DISCOVERED, REGISTRATION_PENDING, PENDING_APPROVAL}
      then fst (change_state DEGRADED (failure_meta E e) ob)
      else ob)"

definition leave :: "worker \<Rightarrow> onboarding \<Rightarrow> onboarding" where
  "leave w ob =
     ob\<lparr>ob_inflight := (if is_run_active w ob then False else ob_inflight ob),
        ob_workers := filter (\<lambda>v. wk_run v \<noteq> wk_run w) (ob_workers ob)\<rparr>"

definition in_phase :: "worker \<Rightarrow> phase \<Rightarrow> onboarding \<Rightarrow> onboarding" where
  "in_phase w p ob =
     ob\<lparr>ob_workers := map (\<lambda>v. if wk_run v = wk_run w then v\<lparr>wk_phase := p\<rparr> else v) (ob_workers ob)\<rparr>"

definition worker_step :: "onboarding_config \<Rightarrow> onboarding_env \<Rightarrow> pydict result \<Rightarrow> worker \<Rightarrow> onboarding \<Rightarrow> onboarding" where
  "worker_step C E answer w ob =
     (case worker_section C E answer w ob of
        (ob', Waits p) \<Rightarrow> in_phase w p ob'
      | (ob', Ends) \<Rightarrow> leave w ob'
      | (ob', Raises e) \<Rightarrow> leave w (run_failed E w e ob'))"

text \<open>What may happen next.\<close>

datatype onboarding_event =
    Discovered
  | Cancelled
  | PreparedRetrust
  | Worked worker "pydict result"
  | LifecycleMoved
  | FileRemoved

inductive onboarding_step :: "onboarding_config \<Rightarrow> onboarding \<Rightarrow> onboarding_event \<Rightarrow> onboarding \<Rightarrow> bool" for C where
  discovered: "onboarding_step C ob Discovered (on_core_discovered bootstrap name ob)"
| cancelled: "onboarding_step C ob Cancelled (cancel ob)"
| prepared: "onboarding_step C ob PreparedRetrust (prepare_retrust allowed ob)"
| worked: "w \<in> set (ob_workers ob) \<Longrightarrow> onboarding_step C ob (Worked w answer) (worker_step C E answer w ob)"
| moved: "onboarding_step C ob LifecycleMoved (ob\<lparr>ob_lifecycle := lifecycle_step (ob_lifecycle ob) op\<rparr>)"
| removed: "onboarding_step C ob FileRemoved (ob\<lparr>ob_trust_file := None\<rparr>)"

inductive onboarding_reachable :: "onboarding_config \<Rightarrow> onboarding \<Rightarrow> bool" for C where
  created: "new_onboarding lc node_id file = Inr ob \<Longrightarrow> file = None \<or> trust_valid file \<Longrightarrow> onboarding_reachable C ob"
| stepped: "onboarding_reachable C ob \<Longrightarrow> onboarding_step C ob ev ob' \<Longrightarrow> onboarding_reachable C ob'"


section \<open>What the sections leave alone\<close>

definition kept :: "onboarding \<Rightarrow> onboarding \<Rightarrow> bool" where
  "kept ob ob' = (ob_inflight ob' = ob_inflight ob \<and> ob_run_id ob' = ob_run_id ob \<and> ob_workers ob' = ob_workers ob)"

definition untrusting :: "onboarding \<Rightarrow> onboarding \<Rightarrow> bool" where
  "untrusting ob ob' =
     (ob_trust_file ob' = ob_trust_file ob \<and>
      (\<exists>cs. nl_calls (ob_lifecycle ob') = nl_calls (ob_lifecycle ob) @ cs \<and> TRUSTED \<notin> tr_to ` set cs))"

definition few_errors :: "phase \<Rightarrow> bool" where
  "few_errors p = (case p of Polling _ n \<Rightarrow> n < MAX_POLL_ERRORS | Deciding _ n \<Rightarrow> n < MAX_POLL_ERRORS | _ \<Rightarrow> True)"

definition waits_few :: "outcome \<Rightarrow> bool" where
  "waits_few r = (case r of Waits p \<Rightarrow> few_errors p | _ \<Rightarrow> True)"

lemma waits_few_simps [simp]: "waits_few Ends" "waits_few (Raises e)" "waits_few (Waits (Registering b n post))" "waits_few (Waits (Polling url 0))"
  by (simp_all add: waits_few_def few_errors_def MAX_POLL_ERRORS_def)

lemma kept_refl [simp]: "kept ob ob"
  by (simp add: kept_def)

lemma kept_trans: "kept a b \<Longrightarrow> kept b c \<Longrightarrow> kept a c"
  by (simp add: kept_def)

lemma untrusting_same: "ob_trust_file ob' = ob_trust_file ob \<Longrightarrow> ob_lifecycle ob' = ob_lifecycle ob \<Longrightarrow> untrusting ob ob'"
  by (simp add: untrusting_def)

lemma untrusting_refl [simp]: "untrusting ob ob"
  by (simp add: untrusting_same)

lemma untrusting_trans: "untrusting a b \<Longrightarrow> untrusting b c \<Longrightarrow> untrusting a c"
  unfolding untrusting_def by (metis append.assoc image_Un set_append Un_iff)

lemma change_state_kept: "change_state s meta ob = (ob', r) \<Longrightarrow> kept ob ob' \<and> ob_trust_file ob' = ob_trust_file ob \<and> ob_node_id ob' = ob_node_id ob"
  by (auto simp: change_state_def kept_def split: sum.splits)

lemma change_state_untrusting:
  assumes "change_state s meta ob = (ob', r)" and "s \<noteq> TRUSTED"
  shows "untrusting ob ob'"
proof (cases "transition_to (ob_lifecycle ob) (IsState s) meta")
  case (Inr lc)
  then have "nl_calls lc = nl_calls (ob_lifecycle ob) @ [\<lparr>tr_from = nl_state (ob_lifecycle ob), tr_to = s, tr_meta = meta\<rparr>]"
    by (auto split: if_splits)
  with assms Inr show ?thesis by (auto simp: change_state_def untrusting_def)
qed (use assms in \<open>auto simp: change_state_def\<close>)

lemma change_state_allowed:
  "can_transition (nl_state (ob_lifecycle ob)) s \<Longrightarrow> \<exists>lc. change_state s meta ob = (ob\<lparr>ob_lifecycle := lc\<rparr>, Inr ()) \<and> nl_state lc = s"
  by (auto simp: change_state_def intro!: exI [of _ "(ob_lifecycle ob)\<lparr>nl_state := s, nl_calls := nl_calls (ob_lifecycle ob) @
    [\<lparr>tr_from = nl_state (ob_lifecycle ob), tr_to = s, tr_meta = meta\<rparr>]\<rparr>"])

lemma register_keeps:
  assumes "register C E w n b ob = (ob', r)"
  shows "kept ob ob'" and "untrusting ob ob'" and "\<not> b \<Longrightarrow> ob' = ob"
proof -
  have "ob' = ob \<or> (b \<and> (\<exists>r'. change_state REGISTRATION_PENDING [] ob = (ob', r')))"
    using assms by (auto simp: register_def split: sum.splits prod.splits if_splits)
  then show "kept ob ob'" "untrusting ob ob'" "\<not> b \<Longrightarrow> ob' = ob"
    using change_state_kept change_state_untrusting by (auto dest: change_state_kept change_state_untrusting)
qed

lemma rotate_keeps:
  assumes "rotate_node_identity C E ob = (ob', r)"
  shows "kept ob ob'" and "untrusting ob ob'"
  using assms by (auto simp: rotate_node_identity_def kept_def Let_def intro!: untrusting_same split: if_splits sum.splits)

lemma register_failed_keeps:
  assumes "register_failed C E w b e ob = (ob', r)"
  shows "kept ob ob'" and "untrusting ob ob'" and "waits_few r"
    and "\<not> should_retry_duplicate_identity E e b ob \<Longrightarrow> ob' = ob"
proof -
  consider (no) "ob' = ob" "r = Raises e"
    | (retry) ob1 u where "should_retry_duplicate_identity E e b ob" "rotate_node_identity C E ob = (ob1, u)"
        "(\<exists>e'. ob' = ob1 \<and> r = Raises e') \<or> attempt C E w ob1 = (ob', r)"
    using assms by (auto simp: register_failed_def split: if_splits prod.splits sum.splits)
  note c = this
  have a: "ob' = ob1 \<and> waits_few r" if "attempt C E w ob1 = (ob', r)" for ob1 r
    using that by (auto simp: attempt_def dest: register_keeps(3) split: prod.splits sum.splits)
  show "kept ob ob'" using c by cases (auto dest: a rotate_keeps)
  show "untrusting ob ob'" using c by cases (auto dest: a rotate_keeps)
  show "waits_few r" using c by cases (auto dest: a)
  show "\<not> should_retry_duplicate_identity E e b ob \<Longrightarrow> ob' = ob" using c by cases auto
qed

lemma on_start_keeps:
  assumes "on_start C E w ob = (ob', r)"
  shows "kept ob ob'" and "untrusting ob ob'" and "waits_few r"
    and "\<not> is_run_active w ob \<Longrightarrow> ob' = ob \<and> r = Ends"
proof -
  consider (ends) "ob' = ob" "r = Ends" "\<not> is_run_active w ob"
    | (failed) ob1 e u where "is_run_active w ob" "register C E w (oe_nonce E) True ob = (ob1, u)" "register_failed C E w False e ob1 = (ob', r)"
    | (sent) post u where "is_run_active w ob" "register C E w (oe_nonce E) True ob = (ob', u)" "r = Waits (Registering False (oe_nonce E) post)"
    using assms by (auto simp: on_start_def split: if_splits prod.splits sum.splits)
  note c = this
  show "kept ob ob'" using c by cases (auto dest: register_keeps(1) register_failed_keeps(1) intro: kept_trans)
  show "untrusting ob ob'" using c by cases (auto dest: register_keeps(2) register_failed_keeps(2) intro: untrusting_trans)
  show "waits_few r" using c by cases (auto dest: register_failed_keeps(3))
  show "\<not> is_run_active w ob \<Longrightarrow> ob' = ob \<and> r = Ends" using c by cases auto
qed

lemma poll_url_waits [simp]: "waits_few (poll_url E b f n)"
  by (auto simp: poll_url_def Let_def split: if_splits sum.splits)

text \<open>What a worker whose run is over may still touch, short of an approval.\<close>

definition same_but_reset :: "onboarding \<Rightarrow> onboarding \<Rightarrow> bool" where
  "same_but_reset ob ob' = (\<exists>b. ob' = ob\<lparr>ob_allow_reset := b\<rparr>)"

lemma same_but_reset_refl [simp]: "same_but_reset ob ob"
  unfolding same_but_reset_def by (rule exI [of _ "ob_allow_reset ob"]) simp

lemma same_but_reset_kept: "same_but_reset ob ob' \<Longrightarrow> kept ob ob'"
  by (auto simp: same_but_reset_def kept_def)

lemma on_response_keeps:
  assumes "on_response C E w b n answer ob = (ob', r)"
  shows "kept ob ob'" and "untrusting ob ob'" and "waits_few r"
    and "\<not> is_run_active w ob \<Longrightarrow> (\<And>e. answer = Inl e \<Longrightarrow> \<not> should_retry_duplicate_identity E e b ob) \<Longrightarrow> same_but_reset ob ob'"
proof -
  let ?ob = "ob\<lparr>ob_allow_reset := False\<rparr>"
  have s: "kept ob ?ob" "untrusting ob ?ob" "same_but_reset ob ?ob" "is_run_active w ?ob = is_run_active w ob"
    by (auto simp: kept_def untrusting_same same_but_reset_def is_run_active_def)
  consider (failed) e where "answer = Inl e" "register_failed C E w b e ob = (ob', r)"
    | (left) "ob' = ?ob" "waits_few r"
    | (moved) ob2 u where "is_run_active w ob" "change_state PENDING_APPROVAL [] ?ob = (ob2, u)" "kept ob2 ob'" "untrusting ob2 ob'" "waits_few r"
    using assms s(4)
    by (auto simp: on_response_def Let_def kept_def untrusting_same split: if_splits prod.splits sum.splits)
  note c = this
  show "kept ob ob'" using c s(1) by cases (auto dest: register_failed_keeps(1) change_state_kept intro: kept_trans)
  show "untrusting ob ob'"
    using c s(2) by cases (auto dest: register_failed_keeps(2) change_state_untrusting intro: untrusting_trans)
  show "waits_few r"
    using c by cases (auto dest: register_failed_keeps(3))
  show "\<not> is_run_active w ob \<Longrightarrow> (\<And>e. answer = Inl e \<Longrightarrow> \<not> should_retry_duplicate_identity E e b ob) \<Longrightarrow> same_but_reset ob ob'"
    using c s(3) by cases (auto dest: register_failed_keeps(4))
qed

lemma parsed_node_id: "parse_trust_activation_payload v = Inr a \<Longrightarrow> \<exists>u. ac_node_id a = normalize_node_id u"
  by (auto simp: parse_trust_activation_payload_def Let_def split: pyval.splits if_splits option.splits)

lemma saved_valid:
  assumes "trust_save disk d = Inr file"
  shows "trust_valid (Some file)"
  using trust_saved [OF assms] by (simp add: trust_valid_def)

lemma trust_state_node_id:
  assumes "ac_node_id a = normalize_node_id u"
  shows "dget (normalize_trust_state (trust_state_of now d b n a)) ''node_id'' = PStr (ac_node_id a)"
proof -
  have "map_of (trust_state_of now d b n a) ''node_id'' = Some (PStr (ac_node_id a))" by (simp add: trust_state_of_def Let_def)
  then show ?thesis by (simp add: normalize_trust_state_def Let_def dget_def dict.get_put assms)
qed

definition trusted_as :: "string \<Rightarrow> pyval option \<Rightarrow> bool" where
  "trusted_as node_id file = (\<exists>d. file = Some (PDict d) \<and> trust_valid file \<and> dget d ''node_id'' = PStr node_id)"

lemma finalize_keeps:
  assumes "finalize_approved E w decision ob = (ob', r)"
  shows "kept ob ob'" and "ob' = ob \<or> trusted_as (ob_node_id ob) (ob_trust_file ob')" and "waits_few r"
proof -
  consider (no) "ob' = ob" "waits_few r"
    | (saved) a v where "parse_trust_activation_payload (activation_envelope decision) = Inr a" "ac_node_id a = ob_node_id ob"
        "trust_save (oe_disk E) (trust_state_of (oe_now E) decision (wk_bootstrap w) (wk_name w) a) = Inr v"
        "kept ob ob'" "ob_trust_file ob' = Some v" "waits_few r"
    using assms
    by (auto simp: finalize_approved_def kept_def dest!: change_state_kept split: if_splits prod.splits sum.splits)
  note c = this
  show "kept ob ob'" "waits_few r" using c by (cases; simp)+
  show "ob' = ob \<or> trusted_as (ob_node_id ob) (ob_trust_file ob')"
    using c
  proof cases
    case saved
    obtain u where "ac_node_id a = normalize_node_id u" using parsed_node_id [OF saved(1)] ..
    from trust_state_node_id [OF this] saved show ?thesis
      using trust_saved(1) [OF saved(3)] saved_valid [OF saved(3)] by (simp add: trusted_as_def)
  qed simp
qed

lemma on_decision_keeps:
  assumes "on_decision E w url n answer ob = (ob', r)"
  shows "ob' = ob \<or> (\<exists>decision. answer = Inr decision \<and> decision_status decision = ''approved'' \<and>
      finalize_approved E w decision ob = (ob', r))"
    and "waits_few r"
proof -
  consider (no) "ob' = ob" "waits_few r"
    | (approved) decision where "answer = Inr decision" "decision_status decision = ''approved''"
        "finalize_approved E w decision ob = (ob', r)"
    using assms
    by (auto simp: on_decision_def Let_def waits_few_def few_errors_def MAX_POLL_ERRORS_def not_le
        split: if_splits sum.splits)
  then show "ob' = ob \<or> (\<exists>decision. answer = Inr decision \<and> decision_status decision = ''approved'' \<and>
      finalize_approved E w decision ob = (ob', r))" "waits_few r"
    by (cases; auto dest: finalize_keeps(3))+
qed

text \<open>An approval that a worker gets as the answer to its poll.\<close>

definition approves :: "worker \<Rightarrow> pydict result \<Rightarrow> bool" where
  "approves w answer =
     (case (wk_phase w, answer) of
        (Deciding _ _, Inr decision) \<Rightarrow> decision_status decision = ''approved''
      | _ \<Rightarrow> False)"

definition retries :: "onboarding_env \<Rightarrow> worker \<Rightarrow> pydict result \<Rightarrow> onboarding \<Rightarrow> bool" where
  "retries E w answer ob =
     (case (wk_phase w, answer) of
        (Registering b _ _, Inl e) \<Rightarrow> should_retry_duplicate_identity E e b ob
      | _ \<Rightarrow> False)"

lemma worker_section_keeps:
  assumes "worker_section C E answer w ob = (ob', r)"
  shows "kept ob ob'"
    and "few_errors (wk_phase w) \<Longrightarrow> waits_few r"
    and "untrusting ob ob' \<or> approves w answer \<and> (ob' = ob \<or> trusted_as (ob_node_id ob) (ob_trust_file ob'))"
    and "\<not> is_run_active w ob \<Longrightarrow> \<not> approves w answer \<Longrightarrow> \<not> retries E w answer ob \<Longrightarrow> same_but_reset ob ob'"
proof -
  note d = worker_section_def approves_def retries_def on_poll_def few_errors_def
  show "kept ob ob'"
    using assms
    by (cases "wk_phase w") (auto simp: d dest: on_start_keeps(1) on_response_keeps(1) on_decision_keeps(1) finalize_keeps(1))
  show "few_errors (wk_phase w) \<Longrightarrow> waits_few r"
    using assms
    by (cases "wk_phase w") (auto simp: d waits_few_def dest: on_start_keeps(3) on_response_keeps(3) on_decision_keeps(2))
  show "untrusting ob ob' \<or> approves w answer \<and> (ob' = ob \<or> trusted_as (ob_node_id ob) (ob_trust_file ob'))"
    using assms
    by (cases "wk_phase w")
      (auto simp: d dest: on_start_keeps(2) on_response_keeps(2) dest!: on_decision_keeps(1) finalize_keeps(2))
  show "\<not> is_run_active w ob \<Longrightarrow> \<not> approves w answer \<Longrightarrow> \<not> retries E w answer ob \<Longrightarrow> same_but_reset ob ob'"
  proof -
    assume i: "\<not> is_run_active w ob" "\<not> approves w answer" "\<not> retries E w answer ob"
    show "same_but_reset ob ob'"
    proof (cases "wk_phase w")
      case (Registering b n post)
      then have "on_response C E w b n answer ob = (ob', r)" using assms by (simp add: d)
      then show ?thesis using i Registering by (rule_tac on_response_keeps(4)) (auto simp: d)
    qed (use assms i in \<open>auto simp: d dest: on_start_keeps(4) dest!: on_decision_keeps(1)\<close>)
  qed
qed

lemma run_failed_keeps: "kept ob (run_failed E w e ob)" "untrusting ob (run_failed E w e ob)" "\<not> is_run_active w ob \<Longrightarrow> run_failed E w e ob = ob"
proof -
  have "run_failed E w e ob = ob \<or> (is_run_active w ob \<and> (\<exists>r. change_state DEGRADED (failure_meta E e) ob = (run_failed E w e ob, r)))"
    by (auto simp: run_failed_def intro: exI [of _ "snd (change_state DEGRADED (failure_meta E e) ob)"])
  then show "kept ob (run_failed E w e ob)" "untrusting ob (run_failed E w e ob)" "\<not> is_run_active w ob \<Longrightarrow> run_failed E w e ob = ob"
    by (auto dest: change_state_kept change_state_untrusting)
qed

lemma run_failed_file: "ob_trust_file (run_failed E w e ob) = ob_trust_file ob"
  using run_failed_keeps(2) by (simp add: untrusting_def)

text \<open>A step is a section and, at its end, what \<open>_run_registration\<close> does after it.\<close>

lemma worker_step_cases:
  obtains (waits) ob1 p where "worker_section C E answer w ob = (ob1, Waits p)" "worker_step C E answer w ob = in_phase w p ob1"
  | (ends) ob1 r ob2 where "worker_section C E answer w ob = (ob1, r)" "ob2 = ob1 \<or> (\<exists>e. ob2 = run_failed E w e ob1)"
      "worker_step C E answer w ob = leave w ob2"
  by (cases "worker_section C E answer w ob"; cases "snd (worker_section C E answer w ob)") (auto simp: worker_step_def)

lemma untrusting_in_phase: "untrusting ob (in_phase w p ob)"
  by (simp add: untrusting_same in_phase_def)

lemma untrusting_leave: "untrusting ob (leave w ob)"
  by (simp add: untrusting_same leave_def)


section \<open>Trust and cancellation\<close>

text \<open>
  C16. The lifecycle is made trusted, or the trust file changed, by a worker only when the core answers
  its poll with an approval, and the file is then a valid one for the node's own id.
\<close>

theorem trust_only_when_approved:
  assumes "\<not> untrusting ob (worker_step C E answer w ob)"
  shows "approves w answer \<and> trusted_as (ob_node_id ob) (ob_trust_file (worker_step C E answer w ob))"
proof (cases rule: worker_step_cases [of C E answer w ob])
  case (waits ob1 p)
  with assms have "\<not> untrusting ob ob1" using untrusting_trans [OF _ untrusting_in_phase] by metis
  with worker_section_keeps(3) [OF waits(1)] waits(2) show ?thesis by (auto simp: in_phase_def)
next
  case (ends ob1 r ob2)
  have "untrusting ob1 ob2" "ob_trust_file ob2 = ob_trust_file ob1" using ends(2) run_failed_keeps(2) run_failed_file by auto
  moreover from this assms ends(3) have "\<not> untrusting ob ob1" using untrusting_trans untrusting_leave by metis
  ultimately show ?thesis using worker_section_keeps(3) [OF ends(1)] ends(3) by (auto simp: leave_def)
qed


text \<open>
  C18. An approval is carried out by a run that was cancelled while the core answered: after the
  cancellation and the reset of a new setup the lifecycle ends as trusted all the same, the trust
  file is written, and the next start of the node resumes with it.
\<close>

theorem cancelled_run_still_trusts:
  assumes "wk_phase w = Deciding url n" and "decision_status decision = ''approved''"
    and "parse_trust_activation_payload (activation_envelope decision) = Inr a" and "ac_node_id a = ob_node_id ob"
    and "trust_save (oe_disk E) (trust_state_of (oe_now E) decision (wk_bootstrap w) (wk_name w) a) = Inr v"
    and "now = worker_step C E (Inr decision) w
           (cancel (ob\<lparr>ob_lifecycle := reset_to_unconfigured (ob_lifecycle ob) meta\<rparr>))"
  shows "nl_state (ob_lifecycle now) = CAPABILITY_SETUP_PENDING \<and> trusted_as (ob_node_id ob) (ob_trust_file now) \<and>
    (\<exists>lc sd. resolve_startup_path True (ob_trust_file now, new_lifecycle) = ((ob_trust_file now, lc), Inr sd) \<and>
       sd_mode sd = ''trusted_resume'' \<and> nl_state lc = CAPABILITY_SETUP_PENDING)"
proof -
  let ?ob = "cancel (ob\<lparr>ob_lifecycle := reset_to_unconfigured (ob_lifecycle ob) meta\<rparr>)"
  have f: "ob_trust_file now = Some v" "nl_state (ob_lifecycle now) = CAPABILITY_SETUP_PENDING"
    using assms
    by (auto simp: worker_step_def worker_section_def on_decision_def finalize_approved_def cancel_def change_state_def
        reset_to_unconfigured_def can_transition_def leave_def)
  obtain u where "ac_node_id a = normalize_node_id u" using parsed_node_id [OF assms(3)] ..
  from trust_state_node_id [OF this] have t: "trusted_as (ob_node_id ob) (Some v)"
    using saved_valid [OF assms(5)] trust_saved(1) [OF assms(5)] assms(4) by (simp add: trusted_as_def)
  then obtain d where "v = PDict d" "normalize_trust_state d = d" "validate_trust_state d = None"
    by (auto simp: trusted_as_def trust_valid_def)
  then have "trust_load True (Some v) = (Some v, Inr (Some d))" using trust_load_valid by simp
  then show ?thesis using f t by (simp add: resolve_startup_path_def new_lifecycle_def can_transition_def)
qed

section \<open>A run\<close>

definition an_onboarding_env :: onboarding_env where
  "an_onboarding_env =
     \<lparr>oe_registration_url = (\<lambda>_. Inr ''http://core/register''), oe_finalize_url = (\<lambda>_ _ _. Inr ''http://core/finalize''),
      oe_text = (\<lambda>_. ''text''), oe_repr = (\<lambda>_. ''repr''), oe_type = (\<lambda>_. ''RuntimeError''), oe_nonce = ''1'', oe_retry_nonce = ''2'',
      oe_new_identity = Inr None, oe_disk = True, oe_now = ''now''\<rparr>"

definition an_onboarding_config :: onboarding_config where
  "an_onboarding_config =
     \<lparr>oc_software_version = ''0.1.0'', oc_protocol_version = ''1.0'', oc_hostname = None, oc_ui_endpoint = None,
      oc_api_base_url = None, oc_has_identity_store = True\<rparr>"

definition a_waiting_worker :: worker where
  "a_waiting_worker =
     \<lparr>wk_run = 1, wk_bootstrap = [(''api_base'', PStr ''http://core''), (''mqtt_host'', PStr ''b'')], wk_name = ''n'',
      wk_phase = Deciding ''u'' 0\<rparr>"

definition an_approval :: pydict where
  "an_approval =
     [(''onboarding_status'', PStr ''approved''),
      (''activation'', PDict [(''node_id'', PStr a_node_id), (''paired_core_id'', PStr ''c''), (''node_trust_token'', PStr ''t''),
         (''initial_baseline_policy'', PDict []), (''operational_mqtt_identity'', PStr ''i''), (''operational_mqtt_token'', PStr ''k''),
         (''operational_mqtt_host'', PStr ''localhost''), (''operational_mqtt_port'', PInt 1883)])]"

definition a_pending_onboarding :: onboarding where
  "a_pending_onboarding =
     \<lparr>ob_lifecycle = \<lparr>nl_state = PENDING_APPROVAL, nl_calls = []\<rparr>, ob_node_id = a_node_id, ob_inflight = True, ob_run_id = 1,
      ob_pending = None, ob_allow_reset = False, ob_trust_file = None, ob_workers = [a_waiting_worker]\<rparr>"

abbreviation an_activation :: activation where
  "an_activation \<equiv> projr (parse_trust_activation_payload (activation_envelope an_approval))"

abbreviation a_saved_state :: pydict where
  "a_saved_state \<equiv> trust_state_of (oe_now an_onboarding_env) an_approval (wk_bootstrap a_waiting_worker) (wk_name a_waiting_worker) an_activation"

lemma an_approval_facts:
  "decision_status an_approval = ''approved''"
  "parse_trust_activation_payload (activation_envelope an_approval) = Inr an_activation"
  "ac_node_id an_activation = ob_node_id a_pending_onboarding"
  "trust_save (oe_disk an_onboarding_env) a_saved_state = Inr (projr (trust_save (oe_disk an_onboarding_env) a_saved_state))"
proof -
  show "decision_status an_approval = ''approved''" by code_simp
  have "\<not> isl (parse_trust_activation_payload (activation_envelope an_approval))" by code_simp
  then show "parse_trust_activation_payload (activation_envelope an_approval) = Inr an_activation" by simp
  show "ac_node_id an_activation = ob_node_id a_pending_onboarding" by code_simp
  have "\<not> isl (trust_save (oe_disk an_onboarding_env) a_saved_state)" by code_simp
  then show "trust_save (oe_disk an_onboarding_env) a_saved_state = Inr (projr (trust_save (oe_disk an_onboarding_env) a_saved_state))"
    by simp
qed

theorem cancelled_run_still_trusts_witness:
  "\<exists>ob. ob_inflight ob = False \<and> nl_state (ob_lifecycle ob) = UNCONFIGURED \<and> ob_trust_file ob = None \<and>
     nl_state (ob_lifecycle (worker_step an_onboarding_config an_onboarding_env (Inr an_approval) a_waiting_worker ob)) =
       CAPABILITY_SETUP_PENDING"
proof -
  have "wk_phase a_waiting_worker = Deciding ''u'' 0" by (simp add: a_waiting_worker_def)
  note t = cancelled_run_still_trusts [OF this an_approval_facts refl, where C = an_onboarding_config and meta = "[]"]
  show ?thesis
    by (rule exI [of _ "cancel (a_pending_onboarding\<lparr>ob_lifecycle := reset_to_unconfigured (ob_lifecycle a_pending_onboarding) []\<rparr>)"])
      (use t in \<open>simp add: cancel_def reset_to_unconfigured_def a_pending_onboarding_def\<close>)
qed

theorem trust_only_when_approved_witness:
  "approves a_waiting_worker (Inr an_approval) \<and>
   trusted_as a_node_id (ob_trust_file (worker_step an_onboarding_config an_onboarding_env (Inr an_approval) a_waiting_worker a_pending_onboarding))"
proof -
  let ?ob = "worker_step an_onboarding_config an_onboarding_env (Inr an_approval) a_waiting_worker a_pending_onboarding"
  have "ob_trust_file ?ob \<noteq> ob_trust_file a_pending_onboarding" by code_simp
  then have "\<not> untrusting a_pending_onboarding ?ob" by (simp only: untrusting_def simp_thms)
  from trust_only_when_approved [OF this] show ?thesis by (simp add: a_pending_onboarding_def)
qed


section \<open>One run at a time\<close>

definition onboarding_inv :: "onboarding \<Rightarrow> bool" where
  "onboarding_inv ob =
     (distinct (map wk_run (ob_workers ob)) \<and>
      (\<forall>n\<in>set (map wk_run (ob_workers ob)). n \<le> ob_run_id ob) \<and>
      ob_inflight ob = (ob_run_id ob \<in> set (map wk_run (ob_workers ob))) \<and>
      (\<forall>w\<in>set (ob_workers ob). few_errors (wk_phase w)) \<and>
      (ob_trust_file ob = None \<or> trust_valid (ob_trust_file ob)))"

lemma worker_step_file:
  "ob_trust_file ob = None \<or> trust_valid (ob_trust_file ob) \<Longrightarrow>
   ob_trust_file (worker_step C E answer w ob) = None \<or> trust_valid (ob_trust_file (worker_step C E answer w ob))"
proof (cases rule: worker_step_cases [of C E answer w ob])
  case (waits ob1 p)
  assume "ob_trust_file ob = None \<or> trust_valid (ob_trust_file ob)"
  with waits worker_section_keeps(3) [OF waits(1)] show ?thesis by (auto simp: in_phase_def untrusting_def trusted_as_def)
next
  case (ends ob1 r ob2)
  assume "ob_trust_file ob = None \<or> trust_valid (ob_trust_file ob)"
  moreover have "ob_trust_file ob2 = ob_trust_file ob1" using ends(2) run_failed_file by auto
  ultimately show ?thesis using worker_section_keeps(3) [OF ends(1)] ends(3) by (auto simp: leave_def untrusting_def trusted_as_def)
qed

lemma in_phase_runs: "map wk_run (ob_workers (in_phase w p ob)) = map wk_run (ob_workers ob)"
  by (simp add: in_phase_def comp_def if_distrib cong: if_cong)

lemma onboarding_inv_worker:
  assumes i: "onboarding_inv ob" and w: "w \<in> set (ob_workers ob)"
  shows "onboarding_inv (worker_step C E answer w ob)"
proof (cases rule: worker_step_cases [of C E answer w ob])
  case (waits ob1 p)
  have k: "kept ob ob1" "few_errors p"
    using worker_section_keeps(1,2) [OF waits(1)] i w by (auto simp: onboarding_inv_def waits_few_def)
  have "\<forall>v\<in>set (ob_workers (in_phase w p ob1)). few_errors (wk_phase v)"
    using i k by (auto simp: in_phase_def kept_def onboarding_inv_def)
  moreover have "ob_run_id (in_phase w p ob1) = ob_run_id ob" "ob_inflight (in_phase w p ob1) = ob_inflight ob"
    "ob_workers ob1 = ob_workers ob"
    using k(1) by (simp_all add: in_phase_def kept_def)
  ultimately show ?thesis
    using i worker_step_file [of ob C E answer w] waits(2) by (simp only: onboarding_inv_def in_phase_runs simp_thms) blast
next
  case (ends ob1 r ob2)
  have k: "kept ob ob2" using worker_section_keeps(1) [OF ends(1)] ends(2) run_failed_keeps(1) kept_trans by blast
  then show ?thesis
    using i w worker_step_file [of ob C E answer w] ends(3)
    by (auto simp: onboarding_inv_def leave_def kept_def is_run_active_def distinct_map_filter)
qed

lemma onboarding_inv_step:
  assumes "onboarding_inv ob" and "onboarding_step C ob ev ob'"
  shows "onboarding_inv ob'"
  using assms(2)
proof cases
  case (worked w answer E)
  then show ?thesis using onboarding_inv_worker assms(1) by metis
next
  case (discovered bootstrap name)
  have "few_errors Starting" by (simp add: few_errors_def)
  with discovered assms(1) show ?thesis by (auto simp: onboarding_inv_def on_core_discovered_def)
qed (use assms(1) in \<open>auto simp: onboarding_inv_def cancel_def prepare_retrust_def\<close>)

lemma onboarding_inv_reachable: "onboarding_reachable C ob \<Longrightarrow> onboarding_inv ob"
proof (induction rule: onboarding_reachable.induct)
  case (created lc node_id v ob)
  then show ?case by (auto simp: new_onboarding_def onboarding_inv_def split: if_splits)
qed (rule onboarding_inv_step)

text \<open>
  C17. Whatever is discovered, cancelled, reset or answered: every run has at most one thread, the
  runtime is in flight exactly while the thread of the current run is there, fewer than 30 polls
  failed in a row where a thread waits, and a trust file that is there is valid.
\<close>

theorem single_active_run:
  assumes "onboarding_reachable C ob"
  shows "distinct (map wk_run (ob_workers ob)) \<and> ob_inflight ob = (\<exists>w\<in>set (ob_workers ob). is_run_active w ob) \<and>
    (\<forall>w\<in>set (ob_workers ob). few_errors (wk_phase w)) \<and> (ob_trust_file ob = None \<or> trust_valid (ob_trust_file ob))"
proof -
  have "(\<exists>w\<in>set (ob_workers ob). is_run_active w ob) = (ob_run_id ob \<in> set (map wk_run (ob_workers ob)))"
    by (auto simp: is_run_active_def) (metis imageI)
  then show ?thesis using onboarding_inv_reachable [OF assms] by (simp only: onboarding_inv_def simp_thms) blast
qed

theorem single_active_run_witness:
  "\<exists>ob. onboarding_reachable an_onboarding_config ob \<and> length (ob_workers ob) = 2 \<and> ob_inflight ob \<and>
     (\<exists>w\<in>set (ob_workers ob). is_run_active w ob)"
proof -
  let ?found = "\<lparr>nl_state = CORE_DISCOVERED, nl_calls = []\<rparr>"
  have "py_strip ''n'' \<noteq> []" by code_simp
  then obtain ob0 where n: "new_onboarding ?found ''n'' None = Inr ob0" and z: "ob_inflight ob0 = False" "ob_workers ob0 = []"
    "nl_state (ob_lifecycle ob0) = CORE_DISCOVERED"
    by (simp add: new_onboarding_def)
  let ?ob = "on_core_discovered [] ''n'' (cancel (on_core_discovered [] ''n'' ob0))"
  note s = onboarding_reachable.stepped [where C = an_onboarding_config]
  have "onboarding_reachable an_onboarding_config ob0" using n by (rule onboarding_reachable.created) simp
  from s [OF s [OF s [OF this onboarding_step.discovered] onboarding_step.cancelled] onboarding_step.discovered]
  have r: "onboarding_reachable an_onboarding_config ?ob" .
  have "length (ob_workers ?ob) = 2" "ob_inflight ?ob" using z by (simp_all add: on_core_discovered_def cancel_def)
  with r single_active_run [OF r] show ?thesis by blast
qed

end
