(* ===== verification/Client_Usage.thy ===== *)
theory Client_Usage
  imports Task_Models Provider_Metrics "HOL-Library.Multiset"
begin

text \<open>
  What each client of the node used: \<open>persistence/client_usage_store.py\<close>, how an execution is recorded
  (\<open>_record_client_usage\<close> of \<open>runtime/task_execution_service.py\<close>) and how \<open>main.py\<close> fills an empty store
  from the log and the counters of the providers. A table of the database is an association list by
  its primary key; a statement that fails is rolled back. Rows that the order of a query leaves
  equal are in the order of the table. Amounts are exact, \<open>round\<close> is half to even on them.
\<close>

section \<open>Usage\<close>

datatype usage =
  Usage (us_calls: int) (us_prompt_tokens: int) (us_cached_input_tokens: int) (us_completion_tokens: int)
    (us_total_tokens: int) (us_cost_usd: rat)

instantiation usage :: comm_monoid_add
begin

definition zero_usage :: usage where
  "zero_usage = Usage 0 0 0 0 0 0"

fun plus_usage :: "usage \<Rightarrow> usage \<Rightarrow> usage" where
  "plus_usage (Usage a b c d e f) (Usage a' b' c' d' e' f') = Usage (a + a') (b + b') (c + c') (d + d') (e + e') (f + f')"

instance
proof
  fix a b c :: usage
  show "a + b + c = a + (b + c)" by (cases a; cases b; cases c) simp
  show "a + b = b + a" by (cases a; cases b) simp
  show "0 + a = a" by (cases a) (simp add: zero_usage_def)
qed

end

definition clamped :: "usage \<Rightarrow> usage" where
  "clamped u =
     Usage (max (us_calls u) 0) (max (us_prompt_tokens u) 0) (max (us_cached_input_tokens u) 0)
       (max (us_completion_tokens u) 0) (max (us_total_tokens u) 0) (max (us_cost_usd u) 0)"

definition cost_rounded :: "usage \<Rightarrow> usage" where
  "cost_rounded u =
     Usage (us_calls u) (us_prompt_tokens u) (us_cached_input_tokens u) (us_completion_tokens u) (us_total_tokens u)
       (round_to 10 (us_cost_usd u))"

section \<open>The tables\<close>

record rollup =
  ru_customer_id :: "string option"
  ru_usage :: usage
  ru_last_used_at :: "string option"
  ru_updated_at :: string

type_synonym usage_key = "string \<times> string \<times> string \<times> string"
type_synonym model_key = "string \<times> string \<times> string \<times> string \<times> string"

record usage_store =
  cu_rollups :: "(usage_key \<times> rollup) list"
  cu_model_rollups :: "(model_key \<times> rollup) list"
  cu_metadata :: "(string \<times> string) list"

definition empty_usage_store :: usage_store where
  "empty_usage_store = \<lparr>cu_rollups = [], cu_model_rollups = [], cu_metadata = []\<rparr>"

definition has_usage_data :: "usage_store \<Rightarrow> bool" where
  "has_usage_data st = (cu_rollups st \<noteq> [])"

definition has_model_usage_data :: "usage_store \<Rightarrow> bool" where
  "has_model_usage_data st = (cu_model_rollups st \<noteq> [])"

definition get_metadata :: "string \<Rightarrow> usage_store \<Rightarrow> string option" where
  "get_metadata k st = map_of (cu_metadata st) k"

definition set_metadata :: "string \<Rightarrow> string \<Rightarrow> usage_store \<Rightarrow> usage_store" where
  "set_metadata k v st = st\<lparr>cu_metadata := AList.update k v (cu_metadata st)\<rparr>"

text \<open>The row that is there and the one that is inserted.\<close>

definition merged_rollup :: "rollup \<Rightarrow> rollup \<Rightarrow> rollup" where
  "merged_rollup old new =
     \<lparr>ru_customer_id = (case ru_customer_id new of None \<Rightarrow> ru_customer_id old | Some c \<Rightarrow> Some c),
      ru_usage = ru_usage old + ru_usage new,
      ru_last_used_at =
        (case (ru_last_used_at old, ru_last_used_at new) of
           (None, u) \<Rightarrow> u
         | (Some t, Some u) \<Rightarrow> if t < u then Some u else Some t
         | (Some t, None) \<Rightarrow> Some t),
      ru_updated_at = ru_updated_at new\<rparr>"

definition upsert_row :: "'k \<Rightarrow> rollup \<Rightarrow> ('k \<times> rollup) list \<Rightarrow> ('k \<times> rollup) list" where
  "upsert_row k r t = AList.update k (case map_of t k of None \<Rightarrow> r | Some old \<Rightarrow> merged_rollup old r) t"

record usage_args =
  ua_client_id :: string
  ua_prompt_id :: string
  ua_model_id :: "string option"
  ua_include_aggregate :: bool
  ua_customer_id :: "string option"
  ua_usage :: usage
  ua_used_at :: "string option"

record usage_entry =
  ue_client_id :: string
  ue_prompt_id :: string
  ue_model_id :: "string option"
  ue_include_aggregate :: bool
  ue_customer_id :: "string option"
  ue_usage :: usage
  ue_used_at :: string
  ue_month :: string
  ue_updated_at :: string

definition month_key :: "string \<Rightarrow> string \<Rightarrow> string" where
  "month_key now s = (if 7 \<le> length (py_strip s) then take 7 (py_strip s) else take 7 now)"

definition text_or :: "string \<Rightarrow> string \<Rightarrow> string" where
  "text_or s d = (if py_strip s = [] then d else py_strip s)"

definition optional_text :: "string option \<Rightarrow> string option" where
  "optional_text v = (case v of None \<Rightarrow> None | Some s \<Rightarrow> none_if_empty (py_strip s))"

definition used_at_text :: "string \<Rightarrow> string option \<Rightarrow> string" where
  "used_at_text now v = (case v of None \<Rightarrow> text_or now now | Some s \<Rightarrow> text_or (if s = [] then now else s) now)"

definition normalized_usage :: "string \<Rightarrow> usage_args \<Rightarrow> usage_entry" where
  "normalized_usage now a =
     \<lparr>ue_client_id = text_or (ua_client_id a) ''unknown-client'', ue_prompt_id = text_or (ua_prompt_id a) ''unattributed-prompt'',
      ue_model_id = optional_text (ua_model_id a), ue_include_aggregate = ua_include_aggregate a,
      ue_customer_id = optional_text (ua_customer_id a), ue_usage = clamped (ua_usage a),
      ue_used_at = used_at_text now (ua_used_at a), ue_month = month_key now (used_at_text now (ua_used_at a)),
      ue_updated_at = now\<rparr>"

definition entry_rollup :: "usage_entry \<Rightarrow> rollup" where
  "entry_rollup e =
     \<lparr>ru_customer_id = ue_customer_id e, ru_usage = ue_usage e, ru_last_used_at = Some (ue_used_at e), ru_updated_at = ue_updated_at e\<rparr>"

definition upsert_scope :: "usage_entry \<Rightarrow> string \<times> string \<Rightarrow> usage_store \<Rightarrow> usage_store" where
  "upsert_scope e sp st =
     (let (scope, period) = sp;
          st1 = (if ue_include_aggregate e
                 then st\<lparr>cu_rollups := upsert_row (scope, period, ue_client_id e, ue_prompt_id e) (entry_rollup e) (cu_rollups st)\<rparr>
                 else st)
      in case ue_model_id e of
           None \<Rightarrow> st1
         | Some m \<Rightarrow> st1\<lparr>cu_model_rollups :=
             upsert_row (scope, period, ue_client_id e, ue_prompt_id e, m) (entry_rollup e) (cu_model_rollups st1)\<rparr>)"

definition apply_entry :: "usage_entry \<Rightarrow> usage_store \<Rightarrow> usage_store" where
  "apply_entry e st = fold (upsert_scope e) [(''lifetime'', ''all''), (''monthly'', ue_month e)] st"

definition upsert_usage :: "bool \<Rightarrow> string \<Rightarrow> usage_args \<Rightarrow> usage_store \<Rightarrow> usage_store \<times> unit result" where
  "upsert_usage disk now a st =
     (if disk then (apply_entry (normalized_usage now a) st, Inr ()) else (st, Inl (RuntimeError ''OperationalError'')))"

section \<open>Recording and seeding\<close>

text \<open>\<open>record_execution\<close> has no argument for the calls or the aggregate: one call, with the aggregate.\<close>

definition with_calls :: "int \<Rightarrow> usage \<Rightarrow> usage" where
  "with_calls n u =
     Usage n (us_prompt_tokens u) (us_cached_input_tokens u) (us_completion_tokens u) (us_total_tokens u) (us_cost_usd u)"

definition record_execution :: "bool \<Rightarrow> string \<Rightarrow> usage_args \<Rightarrow> usage_store \<Rightarrow> usage_store \<times> unit result" where
  "record_execution disk now a = upsert_usage disk now (a\<lparr>ua_include_aggregate := True, ua_usage := with_calls 1 (ua_usage a)\<rparr>)"

definition seed_historical_usage :: "bool \<Rightarrow> string \<Rightarrow> usage_args \<Rightarrow> usage_store \<Rightarrow> usage_store \<times> unit result" where
  "seed_historical_usage disk now a st =
     (if us_calls (ua_usage a) \<le> 0 \<and> us_total_tokens (ua_usage a) \<le> 0 \<and> us_cost_usd (ua_usage a) \<le> 0
      then (st, Inr ()) else upsert_usage disk now a st)"

text \<open>What the task execution service records; an exception is swallowed.\<close>

definition option_or :: "string option \<Rightarrow> string option \<Rightarrow> string option" where
  "option_or a b = (case a of None \<Rightarrow> b | Some s \<Rightarrow> if s = [] then b else a)"

definition record_client_usage ::
    "bool \<Rightarrow> string \<Rightarrow> TaskExecutionRequest \<Rightarrow> usage \<Rightarrow> string \<Rightarrow> string option \<Rightarrow> usage_store \<Rightarrow> usage_store" where
  "record_client_usage disk now request metrics completed_at model_id st =
     fst (record_execution disk now
       \<lparr>ua_client_id = text_or (the (option_or (Some (tr_requested_by request)) (option_or (tr_service_id request) (Some ''unknown-client''))))
                         ''unknown-client'',
        ua_prompt_id = text_or (the (option_or (tr_prompt_id request) (Some ''unattributed-prompt''))) ''unattributed-prompt'',
        ua_model_id = optional_text (option_or model_id (tr_requested_model request)), ua_include_aggregate = True,
        ua_customer_id = optional_text (tr_customer_id request), ua_usage = clamped metrics, ua_used_at = Some completed_at\<rparr> st)"

section \<open>The summary\<close>

record model_summary =
  mu_model_id :: string
  mu_customer_id :: "string option"
  mu_lifetime :: usage
  mu_lifetime_last_used_at :: "string option"
  mu_month :: usage
  mu_month_last_used_at :: "string option"

record prompt_summary =
  pu_prompt_id :: string
  pu_customer_id :: "string option"
  pu_lifetime :: usage
  pu_lifetime_last_used_at :: "string option"
  pu_month :: usage
  pu_month_last_used_at :: "string option"
  pu_models :: "model_summary list"

record client_summary =
  cs_client_id :: string
  cs_customer_id :: "string option"
  cs_lifetime :: usage
  cs_month :: usage
  cs_prompts :: "prompt_summary list"

text \<open>The rows of a query, by cost, tokens and calls, the largest first.\<close>

definition query_rows :: "('k \<Rightarrow> bool) \<Rightarrow> ('k \<times> rollup) list \<Rightarrow> ('k \<times> rollup) list" where
  "query_rows P t =
     sort_key (\<lambda>(k, r). (- us_cost_usd (ru_usage r), - us_total_tokens (ru_usage r), - us_calls (ru_usage r)))
       (filter (\<lambda>(k, r). P k) t)"

definition row_usage :: "'k \<Rightarrow> ('k \<times> rollup) list \<Rightarrow> usage" where
  "row_usage k rows = (case map_of rows k of None \<Rightarrow> 0 | Some r \<Rightarrow> ru_usage r)"

definition row_last_used_at :: "'k \<Rightarrow> ('k \<times> rollup) list \<Rightarrow> string option" where
  "row_last_used_at k rows = (case map_of rows k of None \<Rightarrow> None | Some r \<Rightarrow> ru_last_used_at r)"

definition by_cost :: "('a \<Rightarrow> usage) \<Rightarrow> 'a list \<Rightarrow> 'a list" where
  "by_cost f = sort_key (\<lambda>x. - us_cost_usd (f x))"

definition model_summary_of :: "string \<Rightarrow> (model_key \<times> rollup) list \<Rightarrow> string \<times> string \<Rightarrow> string \<Rightarrow> rollup \<Rightarrow> model_summary" where
  "model_summary_of month monthly cp m r =
     (let k = (''monthly'', month, fst cp, snd cp, m)
      in \<lparr>mu_model_id = m, mu_customer_id = optional_text (ru_customer_id r),
          mu_lifetime = cost_rounded (clamped (ru_usage r)), mu_lifetime_last_used_at = ru_last_used_at r,
          mu_month = cost_rounded (clamped (row_usage k monthly)), mu_month_last_used_at = row_last_used_at k monthly\<rparr>)"

definition models_by_prompt ::
    "string \<Rightarrow> (model_key \<times> rollup) list \<Rightarrow> (model_key \<times> rollup) list \<Rightarrow> string \<times> string \<Rightarrow> model_summary list" where
  "models_by_prompt month lifetime monthly cp =
     map (\<lambda>((_, _, _, _, m), r). model_summary_of month monthly cp m r)
       (filter (\<lambda>((_, _, c, p, _), _). (c, p) = cp) lifetime)"

definition prompt_summary_of ::
    "string \<Rightarrow> (usage_key \<times> rollup) list \<Rightarrow> (string \<times> string \<Rightarrow> model_summary list) \<Rightarrow> string \<times> string \<Rightarrow> rollup \<Rightarrow> prompt_summary" where
  "prompt_summary_of month monthly models cp r =
     (let k = (''monthly'', month, fst cp, snd cp)
      in \<lparr>pu_prompt_id = snd cp, pu_customer_id = optional_text (ru_customer_id r),
          pu_lifetime = cost_rounded (clamped (ru_usage r)), pu_lifetime_last_used_at = ru_last_used_at r,
          pu_month = cost_rounded (clamped (row_usage k monthly)), pu_month_last_used_at = row_last_used_at k monthly,
          pu_models = by_cost mu_lifetime (models cp)\<rparr>)"

definition new_client_summary :: "string \<Rightarrow> string option \<Rightarrow> client_summary" where
  "new_client_summary c customer =
     \<lparr>cs_client_id = c, cs_customer_id = customer, cs_lifetime = 0, cs_month = 0, cs_prompts = []\<rparr>"

definition add_row ::
    "string \<Rightarrow> (usage_key \<times> rollup) list \<Rightarrow> (string \<times> string \<Rightarrow> model_summary list) \<Rightarrow> usage_key \<times> rollup \<Rightarrow>
     (string \<times> client_summary) list \<Rightarrow> (string \<times> client_summary) list" where
  "add_row month monthly models row clients =
     (let ((_, _, c, p), r) = row; customer = optional_text (ru_customer_id r);
          entry = (case map_of clients c of None \<Rightarrow> new_client_summary c customer | Some e \<Rightarrow> e)
      in AList.update c
           (entry\<lparr>cs_customer_id := (case cs_customer_id entry of None \<Rightarrow> customer | Some x \<Rightarrow> Some x),
                  cs_lifetime := cs_lifetime entry + clamped (ru_usage r),
                  cs_month := cs_month entry + clamped (row_usage (''monthly'', month, c, p) monthly),
                  cs_prompts := cs_prompts entry @ [prompt_summary_of month monthly models (c, p) r]\<rparr>) clients)"

definition finished_client :: "client_summary \<Rightarrow> client_summary" where
  "finished_client e =
     e\<lparr>cs_lifetime := cost_rounded (cs_lifetime e), cs_month := cost_rounded (cs_month e),
       cs_prompts := by_cost pu_lifetime (cs_prompts e)\<rparr>"

definition selected_month :: "string \<Rightarrow> string option \<Rightarrow> string" where
  "selected_month now v =
     text_or (case v of None \<Rightarrow> take 7 now | Some s \<Rightarrow> if s = [] then take 7 now else s) (take 7 now)"

definition summary_payload :: "string \<Rightarrow> string option \<Rightarrow> usage_store \<Rightarrow> string \<times> client_summary list" where
  "summary_payload now v st =
     (let month = selected_month now v;
          lifetime = query_rows (\<lambda>(s, k, _, _). s = ''lifetime'' \<and> k = ''all'') (cu_rollups st);
          monthly = query_rows (\<lambda>(s, k, _, _). s = ''monthly'' \<and> k = month) (cu_rollups st);
          model_lifetime = query_rows (\<lambda>(s, k, _, _, _). s = ''lifetime'' \<and> k = ''all'') (cu_model_rollups st);
          model_monthly = query_rows (\<lambda>(s, k, _, _, _). s = ''monthly'' \<and> k = month) (cu_model_rollups st);
          clients = fold (add_row month monthly (models_by_prompt month model_lifetime model_monthly)) lifetime []
      in (month, by_cost cs_lifetime (map (finished_client \<circ> snd) clients)))"

section \<open>The past of a node\<close>

definition count_or_zero :: "pydict \<Rightarrow> string \<Rightarrow> int result" where
  "count_or_zero d k = ebind (py_int (py_or (dget d k) (PInt 0))) (\<lambda>n. Inr (max n 0))"

definition cost_or_zero :: "pydict \<Rightarrow> string \<Rightarrow> rat result" where
  "cost_or_zero d k = ebind (py_float (py_or (dget d k) (PInt 0))) (\<lambda>x. Inr (max x 0))"

text \<open>Of the counters of a model.\<close>

definition counted_usage :: "pydict \<Rightarrow> usage result" where
  "counted_usage d =
     ebind (count_or_zero d ''successful_requests'') (\<lambda>calls.
     ebind (count_or_zero d ''prompt_tokens'') (\<lambda>prompt.
     ebind (count_or_zero d ''cached_input_tokens'') (\<lambda>cached.
     ebind (count_or_zero d ''completion_tokens'') (\<lambda>completion.
     ebind (count_or_zero d ''total_tokens'') (\<lambda>total.
     ebind (cost_or_zero d ''estimated_cost'') (\<lambda>cost.
     Inr (Usage calls prompt cached completion total cost)))))))"

type_synonym model_totals = "(string \<times> usage \<times> string option) list"

definition model_name :: "string \<Rightarrow> string" where
  "model_name s = text_or s ''unknown-model''"

text \<open>A model of one name of the payload, and the models of all providers; the totals of each name and their sum.\<close>

definition add_total :: "string \<Rightarrow> usage \<Rightarrow> string option \<Rightarrow> model_totals \<Rightarrow> model_totals" where
  "add_total m u t totals =
     AList.update m ((case map_of totals m of None \<Rightarrow> 0 | Some (v, _) \<Rightarrow> v) + u, t) totals"

fun add_models :: "pydict \<Rightarrow> model_totals \<Rightarrow> model_totals result" where
  "add_models [] totals = Inr totals"
| "add_models ((m, v) # items) totals =
     (case v of
        PDict d \<Rightarrow> ebind (counted_usage d) (\<lambda>u. add_models items (add_total (model_name m) u None totals))
      | _ \<Rightarrow> add_models items totals)"

fun add_providers :: "pydict \<Rightarrow> model_totals \<Rightarrow> model_totals result" where
  "add_providers [] totals = Inr totals"
| "add_providers ((_, v) # items) totals =
     (case v of
        PDict d \<Rightarrow>
          (case map_of d ''models'' of
             Some (PDict models) \<Rightarrow> ebind (add_models models totals) (add_providers items)
           | _ \<Rightarrow> add_providers items totals)
      | _ \<Rightarrow> add_providers items totals)"

definition rounded_totals :: "model_totals \<Rightarrow> model_totals" where
  "rounded_totals = map (\<lambda>(m, u, t). (m, cost_rounded u, t))"

definition payload_providers :: "pyval \<Rightarrow> pydict" where
  "payload_providers payload = (case payload of PDict d \<Rightarrow> as_dict (dget d ''providers'') | _ \<Rightarrow> [])"

definition aggregate_provider_metrics_by_model :: "pyval \<Rightarrow> model_totals result" where
  "aggregate_provider_metrics_by_model payload =
     ebind (add_providers (payload_providers payload) []) (\<lambda>totals. Inr (rounded_totals totals))"

fun sum_models :: "pydict \<Rightarrow> usage \<Rightarrow> usage result" where
  "sum_models [] acc = Inr acc"
| "sum_models ((m, v) # items) acc =
     (case v of PDict d \<Rightarrow> ebind (counted_usage d) (\<lambda>u. sum_models items (acc + u)) | _ \<Rightarrow> sum_models items acc)"

fun sum_providers :: "pydict \<Rightarrow> usage \<Rightarrow> usage result" where
  "sum_providers [] acc = Inr acc"
| "sum_providers ((_, v) # items) acc =
     (case v of
        PDict d \<Rightarrow>
          (case map_of d ''models'' of
             Some (PDict models) \<Rightarrow> ebind (sum_models models acc) (sum_providers items)
           | _ \<Rightarrow> sum_providers items acc)
      | _ \<Rightarrow> sum_providers items acc)"

definition aggregate_provider_metrics :: "pyval \<Rightarrow> usage result" where
  "aggregate_provider_metrics payload =
     ebind (sum_providers (payload_providers payload) 0) (\<lambda>acc. Inr (cost_rounded acc))"

text \<open>The log: what a line has after its marker is read by \<open>ast.literal_eval\<close>, which is a parameter.\<close>

fun after_marker :: "string \<Rightarrow> string \<Rightarrow> string option" where
  "after_marker marker s =
     (if py_startswith s marker then Some (drop (length marker) s)
      else case s of [] \<Rightarrow> None | _ # cs \<Rightarrow> after_marker marker cs)"

fun replace_first :: "char \<Rightarrow> char \<Rightarrow> string \<Rightarrow> string" where
  "replace_first a b [] = []"
| "replace_first a b (c # cs) = (if c = a then b # cs else c # replace_first a b cs)"

definition iso_timestamp :: "string \<Rightarrow> string" where
  "iso_timestamp line = replace_first (CHR '','') (CHR ''.'') (replace_first (CHR '' '') (CHR ''T'') (py_strip (take 23 line)))"

definition logged_execution :: "(string \<Rightarrow> pyval option) \<Rightarrow> string \<Rightarrow> pydict option" where
  "logged_execution literal_eval line =
     (case after_marker ''[provider-execution]'' line of
        None \<Rightarrow> None
      | Some rest \<Rightarrow>
          (case literal_eval (py_strip rest) of
             Some (PDict d) \<Rightarrow> if truthy (dget d ''success'') then Some d else None
           | _ \<Rightarrow> None))"

definition logged_usage :: "pydict \<Rightarrow> usage result" where
  "logged_usage d =
     ebind (count_or_zero d ''prompt_tokens'') (\<lambda>prompt.
     ebind (count_or_zero d ''cached_input_tokens'') (\<lambda>cached.
     ebind (count_or_zero d ''completion_tokens'') (\<lambda>completion.
     ebind (cost_or_zero d ''estimated_cost'') (\<lambda>cost.
     Inr (Usage 1 prompt cached completion (prompt + completion) cost)))))"

fun log_lines :: "(string \<Rightarrow> pyval option) \<Rightarrow> string list \<Rightarrow> usage \<times> string option \<Rightarrow> (usage \<times> string option) result" where
  "log_lines literal_eval [] acc = Inr acc"
| "log_lines literal_eval (line # lines) acc =
     (case logged_execution literal_eval line of
        None \<Rightarrow> log_lines literal_eval lines acc
      | Some d \<Rightarrow> ebind (logged_usage d) (\<lambda>u. log_lines literal_eval lines (fst acc + u, Some (iso_timestamp line))))"

text \<open>The lines of the file, \<open>None\<close> when there is none.\<close>

definition aggregate_provider_execution_log ::
    "(string \<Rightarrow> pyval option) \<Rightarrow> string list option \<Rightarrow> (usage \<times> string option) result" where
  "aggregate_provider_execution_log literal_eval file =
     (case file of
        None \<Rightarrow> Inr (0, None)
      | Some lines \<Rightarrow> ebind (log_lines literal_eval lines (0, None)) (\<lambda>(u, t). Inr (cost_rounded u, t)))"

fun log_model_lines :: "(string \<Rightarrow> pyval option) \<Rightarrow> string list \<Rightarrow> model_totals \<Rightarrow> model_totals result" where
  "log_model_lines literal_eval [] totals = Inr totals"
| "log_model_lines literal_eval (line # lines) totals =
     (case logged_execution literal_eval line of
        None \<Rightarrow> log_model_lines literal_eval lines totals
      | Some d \<Rightarrow> ebind (logged_usage d) (\<lambda>u.
          log_model_lines literal_eval lines
            (add_total (model_name (norm_string (dget d ''model_id''))) u (Some (iso_timestamp line)) totals)))"

definition aggregate_provider_execution_log_by_model ::
    "(string \<Rightarrow> pyval option) \<Rightarrow> string list option \<Rightarrow> model_totals result" where
  "aggregate_provider_execution_log_by_model literal_eval file =
     (case file of
        None \<Rightarrow> Inr []
      | Some lines \<Rightarrow> ebind (log_model_lines literal_eval lines []) (\<lambda>totals. Inr (rounded_totals totals)))"

section \<open>Filling an empty store\<close>

text \<open>What is in the log, and what the counters have more.\<close>

definition excess :: "usage \<Rightarrow> usage \<Rightarrow> usage" where
  "excess metrics logged =
     Usage (max (us_calls metrics - us_calls logged) 0) (max (us_prompt_tokens metrics - us_prompt_tokens logged) 0) 0
       (max (us_completion_tokens metrics - us_completion_tokens logged) 0)
       (max (us_total_tokens metrics - us_total_tokens logged) 0) (max (us_cost_usd metrics - us_cost_usd logged) 0)"

definition without_cached :: "usage \<Rightarrow> usage" where
  "without_cached u = Usage (us_calls u) (us_prompt_tokens u) 0 (us_completion_tokens u) (us_total_tokens u) (us_cost_usd u)"

record history =
  hi_prompt_services :: "pydict list"
  hi_recent_denials :: "pyval list"
  hi_log :: "string list option"
  hi_metrics :: pyval
  hi_literal_eval :: "string \<Rightarrow> pyval option"

definition primary_prompt :: "history \<Rightarrow> pydict" where
  "primary_prompt H = (case hi_prompt_services H of [] \<Rightarrow> [] | p # _ \<Rightarrow> p)"

definition historical_client_id :: "history \<Rightarrow> string" where
  "historical_client_id H =
     text_or (py_str (py_or (py_or (dget (primary_prompt H) ''service_id'') (dget (primary_prompt H) ''owner_service'')) (PStr ''node-email'')))
       ''node-email''"

definition historical_prompt_id :: "history \<Rightarrow> string" where
  "historical_prompt_id H = text_or (py_str (py_or (dget (primary_prompt H) ''prompt_id'') (PStr ''prompt.email.classifier''))) ''prompt.email.classifier''"

definition customer_candidates :: "history \<Rightarrow> string list" where
  "customer_candidates H =
     dedup (filter (\<lambda>s. s \<noteq> []) (map (\<lambda>v. case v of PDict d \<Rightarrow> norm_string (dget d ''customer_id'') | _ \<Rightarrow> []) (hi_recent_denials H)))"

definition historical_customer_id :: "history \<Rightarrow> string option" where
  "historical_customer_id H = (case customer_candidates H of [c] \<Rightarrow> Some c | _ \<Rightarrow> None)"

definition historical_args :: "history \<Rightarrow> string option \<Rightarrow> usage \<Rightarrow> string \<Rightarrow> usage_args" where
  "historical_args H model u used_at =
     \<lparr>ua_client_id = historical_client_id H, ua_prompt_id = historical_prompt_id H, ua_model_id = model,
      ua_include_aggregate = (model = None), ua_customer_id = historical_customer_id H, ua_usage = u, ua_used_at = Some used_at\<rparr>"

text \<open>Two seeds, the second not tried when the first raises.\<close>

definition seed_pair :: "bool \<Rightarrow> string \<Rightarrow> history \<Rightarrow> string option \<Rightarrow> usage \<Rightarrow> usage \<Rightarrow> string \<Rightarrow> usage_store \<Rightarrow> usage_store \<times> unit result" where
  "seed_pair disk now H model logged metrics used_at st =
     (case seed_historical_usage disk now (historical_args H model (clamped (without_cached logged)) used_at) st of
        (st', Inl e) \<Rightarrow> (st', Inl e)
      | (st', Inr _) \<Rightarrow> seed_historical_usage disk now (historical_args H model (excess metrics logged) used_at) st')"

definition totals_of :: "model_totals \<Rightarrow> string \<Rightarrow> usage \<times> string option" where
  "totals_of totals m = (case map_of totals m of None \<Rightarrow> (0, None) | Some x \<Rightarrow> x)"

fun seed_models ::
    "bool \<Rightarrow> string \<Rightarrow> history \<Rightarrow> string \<Rightarrow> model_totals \<Rightarrow> model_totals \<Rightarrow> string list \<Rightarrow> usage_store \<Rightarrow> usage_store \<times> unit result" where
  "seed_models disk now H used_at logged metrics [] st = (st, Inr ())"
| "seed_models disk now H used_at logged metrics (m # ms) st =
     (case seed_pair disk now H (Some m) (fst (totals_of logged m)) (fst (totals_of metrics m))
              (case snd (totals_of logged m) of None \<Rightarrow> used_at | Some t \<Rightarrow> text_or (if t = [] then used_at else t) used_at) st of
        (st', Inl e) \<Rightarrow> (st', Inl e)
      | (st', Inr _) \<Rightarrow> seed_models disk now H used_at logged metrics ms st')"

definition historical_model_ids :: "model_totals \<Rightarrow> model_totals \<Rightarrow> string list" where
  "historical_model_ids logged metrics = sort (dedup (map fst logged @ map fst metrics))"

definition seed_history :: "bool \<Rightarrow> string \<Rightarrow> history \<Rightarrow> usage_store \<Rightarrow> usage_store \<times> unit result" where
  "seed_history disk now H st =
     (let usage_seed = \<not> has_usage_data st \<and> get_metadata ''historical_seed_completed'' st \<noteq> Some ''1'';
          model_seed = \<not> has_model_usage_data st
      in if \<not> usage_seed \<and> \<not> model_seed then (st, Inr ())
         else (case ebind (aggregate_provider_execution_log (hi_literal_eval H) (hi_log H)) (\<lambda>logged.
                    ebind (aggregate_provider_execution_log_by_model (hi_literal_eval H) (hi_log H)) (\<lambda>model_logged.
                    ebind (aggregate_provider_metrics (hi_metrics H)) (\<lambda>metrics.
                    ebind (aggregate_provider_metrics_by_model (hi_metrics H)) (\<lambda>model_metrics.
                    Inr (logged, model_logged, metrics, model_metrics))))) of
                 Inl e \<Rightarrow> (st, Inl e)
               | Inr ((logged, latest), model_logged, metrics, model_metrics) \<Rightarrow>
                   let used_at = used_at_text now latest
                   in (case (if usage_seed then seed_pair disk now H None logged metrics used_at st else (st, Inr ())) of
                         (st1, Inl e) \<Rightarrow> (st1, Inl e)
                       | (st1, Inr _) \<Rightarrow>
                           (case (if model_seed
                                  then seed_models disk now H used_at model_logged model_metrics (historical_model_ids model_logged model_metrics) st1
                                  else (st1, Inr ())) of
                              (st2, Inl e) \<Rightarrow> (st2, Inl e)
                            | (st2, Inr _) \<Rightarrow>
                                if \<not> usage_seed then (st2, Inr ())
                                else if disk then (set_metadata ''historical_seed_completed'' ''1'' st2, Inr ())
                                else (st2, Inl (RuntimeError ''OperationalError''))))))"

section \<open>The tables sum what was recorded\<close>

datatype usage_op = Recorded bool string usage_args | Seeded bool string usage_args | MetadataSet string string

fun usage_op_step :: "usage_op \<Rightarrow> usage_store \<Rightarrow> usage_store" where
  "usage_op_step (Recorded disk now a) st = fst (record_execution disk now a st)"
| "usage_op_step (Seeded disk now a) st = fst (seed_historical_usage disk now a st)"
| "usage_op_step (MetadataSet k v) st = set_metadata k v st"

text \<open>The entries that an operation leaves: none when the database fails or nothing was used.\<close>

fun entries_of :: "usage_op \<Rightarrow> usage_entry list" where
  "entries_of (Recorded disk now a) =
     (if disk then [normalized_usage now (a\<lparr>ua_include_aggregate := True, ua_usage := with_calls 1 (ua_usage a)\<rparr>)] else [])"
| "entries_of (Seeded disk now a) =
     (if \<not> disk \<or> us_calls (ua_usage a) \<le> 0 \<and> us_total_tokens (ua_usage a) \<le> 0 \<and> us_cost_usd (ua_usage a) \<le> 0
      then [] else [normalized_usage now a])"
| "entries_of (MetadataSet k v) = []"

definition usage_after :: "usage_op list \<Rightarrow> usage_store" where
  "usage_after ops = fold usage_op_step ops empty_usage_store"

definition entries_after :: "usage_op list \<Rightarrow> usage_entry list" where
  "entries_after ops = concat (map entries_of ops)"

definition total_usage :: "(usage_entry \<Rightarrow> bool) \<Rightarrow> usage_entry list \<Rightarrow> usage" where
  "total_usage P es = sum_list (map ue_usage (filter P es))"

definition table_usage :: "('k \<Rightarrow> bool) \<Rightarrow> ('k \<times> rollup) list \<Rightarrow> usage" where
  "table_usage P t = sum_list (map (\<lambda>(k, r). if P k then ru_usage r else 0) t)"

lemma upsert_row_simps [simp]:
  "upsert_row k r [] = [(k, r)]"
  "upsert_row k r ((k', r') # t) = (if k' = k then (k, merged_rollup r' r) # t else (k', r') # upsert_row k r t)"
  by (auto simp: upsert_row_def)

lemma merged_usage [simp]: "ru_usage (merged_rollup r s) = ru_usage r + ru_usage s"
  by (simp add: merged_rollup_def)

lemma table_usage_upsert: "table_usage P (upsert_row k r t) = table_usage P t + (if P k then ru_usage r else 0)"
  by (induction t) (auto simp: table_usage_def add_ac)

lemma upsert_row_keys: "fst ` set (upsert_row k r t) = insert k (fst ` set t)"
  by (simp add: upsert_row_def update_conv' dom_map_of_conv_image_fst [symmetric])

lemma upsert_row_distinct: "distinct (map fst t) \<Longrightarrow> distinct (map fst (upsert_row k r t))"
  by (simp add: upsert_row_def distinct_update)

lemma row_usage_table: "distinct (map fst t) \<Longrightarrow> row_usage k t = table_usage (\<lambda>j. j = k) t"
proof (induction t)
  case (Cons x t)
  have "table_usage (\<lambda>j. j = fst x) t = 0" if "fst x \<notin> fst ` set t"
    using that by (induction t) (auto simp: table_usage_def)
  with Cons show ?case by (cases x) (auto simp: row_usage_def table_usage_def)
qed (simp add: row_usage_def table_usage_def)

text \<open>What an entry adds to a table.\<close>

definition entry_hits :: "(usage_key \<Rightarrow> bool) \<Rightarrow> usage_entry \<Rightarrow> string \<times> string \<Rightarrow> bool" where
  "entry_hits P e sp = (ue_include_aggregate e \<and> P (fst sp, snd sp, ue_client_id e, ue_prompt_id e))"

definition entry_hits_model :: "(model_key \<Rightarrow> bool) \<Rightarrow> usage_entry \<Rightarrow> string \<times> string \<Rightarrow> bool" where
  "entry_hits_model P e sp =
     (case ue_model_id e of None \<Rightarrow> False | Some m \<Rightarrow> P (fst sp, snd sp, ue_client_id e, ue_prompt_id e, m))"

lemma upsert_scope_rollups:
  "cu_rollups (upsert_scope e sp st) =
     (if ue_include_aggregate e then upsert_row (fst sp, snd sp, ue_client_id e, ue_prompt_id e) (entry_rollup e) (cu_rollups st)
      else cu_rollups st)"
  "cu_model_rollups (upsert_scope e sp st) =
     (case ue_model_id e of None \<Rightarrow> cu_model_rollups st
      | Some m \<Rightarrow> upsert_row (fst sp, snd sp, ue_client_id e, ue_prompt_id e, m) (entry_rollup e) (cu_model_rollups st))"
  by (auto simp: upsert_scope_def split: prod.splits option.splits)

lemma entry_rollup_usage [simp]: "ru_usage (entry_rollup e) = ue_usage e"
  by (simp add: entry_rollup_def)

lemma apply_entry_usage:
  "table_usage P (cu_rollups (apply_entry e st)) =
     table_usage P (cu_rollups st) + ((if entry_hits P e (''lifetime'', ''all'') then ue_usage e else 0) +
       (if entry_hits P e (''monthly'', ue_month e) then ue_usage e else 0))"
  "table_usage Q (cu_model_rollups (apply_entry e st)) =
     table_usage Q (cu_model_rollups st) + ((if entry_hits_model Q e (''lifetime'', ''all'') then ue_usage e else 0) +
       (if entry_hits_model Q e (''monthly'', ue_month e) then ue_usage e else 0))"
  by (auto simp: apply_entry_def upsert_scope_rollups table_usage_upsert entry_hits_def entry_hits_model_def add_ac split: option.splits)

lemma apply_entry_distinct:
  "distinct (map fst (cu_rollups st)) \<Longrightarrow> distinct (map fst (cu_rollups (apply_entry e st)))"
  "distinct (map fst (cu_model_rollups st)) \<Longrightarrow> distinct (map fst (cu_model_rollups (apply_entry e st)))"
  by (auto simp: apply_entry_def upsert_scope_rollups upsert_row_distinct split: option.splits)

lemma usage_op_step_entries:
  "cu_rollups (usage_op_step op st) = cu_rollups (fold apply_entry (entries_of op) st)"
  "cu_model_rollups (usage_op_step op st) = cu_model_rollups (fold apply_entry (entries_of op) st)"
  by (cases op; auto simp: record_execution_def seed_historical_usage_def upsert_usage_def set_metadata_def)+

definition contribution :: "(string \<times> string \<Rightarrow> bool) \<Rightarrow> usage_entry \<Rightarrow> usage" where
  "contribution hits e =
     (if hits (''lifetime'', ''all'') then ue_usage e else 0) + (if hits (''monthly'', ue_month e) then ue_usage e else 0)"

lemma entries_usage:
  "table_usage P (cu_rollups (fold apply_entry es st)) =
     table_usage P (cu_rollups st) + sum_list (map (\<lambda>e. contribution (entry_hits P e) e) es)"
  "table_usage Q (cu_model_rollups (fold apply_entry es st)) =
     table_usage Q (cu_model_rollups st) + sum_list (map (\<lambda>e. contribution (entry_hits_model Q e) e) es)"
  by (induction es arbitrary: st) (simp_all add: apply_entry_usage contribution_def add_ac)

lemma entries_distinct:
  "distinct (map fst (cu_rollups st)) \<Longrightarrow> distinct (map fst (cu_rollups (fold apply_entry es st)))"
  "distinct (map fst (cu_model_rollups st)) \<Longrightarrow> distinct (map fst (cu_model_rollups (fold apply_entry es st)))"
  by (induction es arbitrary: st) (simp_all add: apply_entry_distinct)

lemma ops_usage:
  "table_usage P (cu_rollups (fold usage_op_step ops st)) =
     table_usage P (cu_rollups st) + sum_list (map (\<lambda>e. contribution (entry_hits P e) e) (entries_after ops))"
  "table_usage Q (cu_model_rollups (fold usage_op_step ops st)) =
     table_usage Q (cu_model_rollups st) + sum_list (map (\<lambda>e. contribution (entry_hits_model Q e) e) (entries_after ops))"
  by (induction ops arbitrary: st) (simp_all add: entries_after_def usage_op_step_entries entries_usage add_ac)

lemma ops_distinct:
  "distinct (map fst (cu_rollups st)) \<Longrightarrow> distinct (map fst (cu_rollups (fold usage_op_step ops st)))"
  "distinct (map fst (cu_model_rollups st)) \<Longrightarrow> distinct (map fst (cu_model_rollups (fold usage_op_step ops st)))"
  by (induction ops arbitrary: st) (simp_all add: usage_op_step_entries entries_distinct)

lemma usage_after_distinct: "distinct (map fst (cu_rollups (usage_after ops)))" "distinct (map fst (cu_model_rollups (usage_after ops)))"
  by (simp_all add: usage_after_def ops_distinct empty_usage_store_def)

lemma usage_after_tables:
  "table_usage P (cu_rollups (usage_after ops)) = sum_list (map (\<lambda>e. contribution (entry_hits P e) e) (entries_after ops))"
  "table_usage Q (cu_model_rollups (usage_after ops)) = sum_list (map (\<lambda>e. contribution (entry_hits_model Q e) e) (entries_after ops))"
  unfolding usage_after_def ops_usage by (simp_all add: empty_usage_store_def table_usage_def)

lemma total_usage_sum: "total_usage P es = sum_list (map (\<lambda>e. if P e then ue_usage e else 0) es)"
  by (simp add: total_usage_def sum_list_map_filter')

definition of_prompt :: "string \<Rightarrow> string \<Rightarrow> usage_entry \<Rightarrow> bool" where
  "of_prompt c p e = (ue_client_id e = c \<and> ue_prompt_id e = p)"

lemma scopes_differ: "''lifetime'' \<noteq> ''monthly''" "''monthly'' \<noteq> ''lifetime''"
  by simp_all

lemma contributions:
  "contribution (entry_hits (\<lambda>j. j = (''lifetime'', ''all'', c, p)) e) e =
      (if of_prompt c p e \<and> ue_include_aggregate e then ue_usage e else 0)"
  "contribution (entry_hits (\<lambda>j. j = (''monthly'', month, c, p)) e) e =
      (if of_prompt c p e \<and> ue_include_aggregate e \<and> ue_month e = month then ue_usage e else 0)"
  "contribution (entry_hits (\<lambda>(s, _, c', p'). s = ''monthly'' \<and> c' = c \<and> p' = p) e) e =
      (if of_prompt c p e \<and> ue_include_aggregate e then ue_usage e else 0)"
  "contribution (entry_hits (\<lambda>(s, k, c', p'). (s = ''lifetime'' \<and> k = ''all'') \<and> c' = c) e) e =
      (if ue_client_id e = c \<and> ue_include_aggregate e then ue_usage e else 0)"
  "contribution (entry_hits_model (\<lambda>j. j = (''lifetime'', ''all'', c, p, m)) e) e =
      (if of_prompt c p e \<and> ue_model_id e = Some m then ue_usage e else 0)"
  "contribution (entry_hits_model (\<lambda>j. j = (''monthly'', month, c, p, m)) e) e =
      (if of_prompt c p e \<and> ue_model_id e = Some m \<and> ue_month e = month then ue_usage e else 0)"
  by (auto simp: contribution_def entry_hits_def entry_hits_model_def of_prompt_def split: option.splits)

text \<open>
  C29. The rows hold what was recorded: for a client and a prompt the lifetime row has the sum of all the
  entries with the aggregate, the row of a month the sum of those of that month, the rows of a
  model the sum of the entries of that model, and the lifetime is the sum over the months.
\<close>

theorem usage_rows_sum_entries:
  "let st = usage_after ops; es = entries_after ops
   in row_usage (''lifetime'', ''all'', c, p) (cu_rollups st) = total_usage (\<lambda>e. of_prompt c p e \<and> ue_include_aggregate e) es \<and>
      row_usage (''monthly'', month, c, p) (cu_rollups st) =
        total_usage (\<lambda>e. of_prompt c p e \<and> ue_include_aggregate e \<and> ue_month e = month) es \<and>
      row_usage (''lifetime'', ''all'', c, p, m) (cu_model_rollups st) = total_usage (\<lambda>e. of_prompt c p e \<and> ue_model_id e = Some m) es \<and>
      row_usage (''monthly'', month, c, p, m) (cu_model_rollups st) =
        total_usage (\<lambda>e. of_prompt c p e \<and> ue_model_id e = Some m \<and> ue_month e = month) es \<and>
      table_usage (\<lambda>(s, _, c', p'). s = ''monthly'' \<and> c' = c \<and> p' = p) (cu_rollups st) =
        row_usage (''lifetime'', ''all'', c, p) (cu_rollups st)"
proof -
  note simps = row_usage_table usage_after_distinct usage_after_tables total_usage_sum
  show ?thesis by (simp only: Let_def simps contributions simp_thms)
qed


section \<open>The summary tells what was recorded\<close>

lemma query_rows_mset: "mset (query_rows P t) = mset (filter (\<lambda>(k, r). P k) t)"
  by (simp add: query_rows_def)

lemma table_usage_mset: "mset t = mset t' \<Longrightarrow> table_usage P t = table_usage P t'"
proof -
  have "table_usage P t = (\<Sum>(k, r)\<in>#mset t. if P k then ru_usage r else 0)" for t :: "('a \<times> rollup) list"
    unfolding table_usage_def sum_mset_sum_list [symmetric] by simp
  then show "mset t = mset t' \<Longrightarrow> ?thesis" by simp
qed

lemma table_usage_filter: "table_usage P (filter (\<lambda>(k, r). Q k) t) = table_usage (\<lambda>k. Q k \<and> P k) t"
  by (induction t) (auto simp: table_usage_def)

lemma query_rows_distinct: "distinct (map fst t) \<Longrightarrow> distinct (map fst (query_rows P t))"
proof -
  assume "distinct (map fst t)"
  then have "distinct (map fst (filter (\<lambda>(k, r). P k) t))" by (simp add: distinct_map_filter)
  moreover have "mset (map fst (query_rows P t)) = mset (map fst (filter (\<lambda>(k, r). P k) t))" by (simp add: query_rows_mset mset_map)
  ultimately show ?thesis using mset_eq_imp_distinct_iff by blast
qed

lemma query_rows_usage:
  assumes "distinct (map fst t)"
  shows "row_usage k (query_rows P t) = (if P k then row_usage k t else 0)"
proof -
  have "row_usage k (query_rows P t) = table_usage (\<lambda>j. j = k) (filter (\<lambda>(k, r). P k) t)"
    using row_usage_table [OF query_rows_distinct [OF assms]] table_usage_mset [OF query_rows_mset] by metis
  also have "\<dots> = (if P k then table_usage (\<lambda>j. j = k) t else 0)"
    unfolding table_usage_filter by (cases "P k"; induction t) (auto simp: table_usage_def)
  finally show ?thesis by (simp add: row_usage_table [OF assms])
qed

text \<open>Recorded amounts are not negative, so clamping them changes nothing.\<close>

lemma clamped_idem [simp]: "clamped (clamped u) = clamped u"
  by (simp add: clamped_def)

lemma clamped_iff:
  "clamped u = u \<longleftrightarrow> 0 \<le> us_calls u \<and> 0 \<le> us_prompt_tokens u \<and> 0 \<le> us_cached_input_tokens u \<and>
     0 \<le> us_completion_tokens u \<and> 0 \<le> us_total_tokens u \<and> 0 \<le> us_cost_usd u"
  by (cases u) (simp add: clamped_def max_def_raw)

lemma clamped_plus: "clamped u = u \<Longrightarrow> clamped v = v \<Longrightarrow> clamped (u + v) = u + v"
  by (cases u; cases v) (simp add: clamped_iff)

lemma clamped_zero [simp]: "clamped 0 = 0"
  by (simp add: clamped_def zero_usage_def)

definition rows_clamped :: "('k \<times> rollup) list \<Rightarrow> bool" where
  "rows_clamped t = (\<forall>(k, r)\<in>set t. clamped (ru_usage r) = ru_usage r)"

lemma rows_clamped_upsert: "rows_clamped t \<Longrightarrow> clamped (ru_usage r) = ru_usage r \<Longrightarrow> rows_clamped (upsert_row k r t)"
  by (induction t) (auto simp: rows_clamped_def clamped_plus split: if_splits)

lemma rows_clamped_entry:
  "rows_clamped (cu_rollups st) \<Longrightarrow> clamped (ue_usage e) = ue_usage e \<Longrightarrow> rows_clamped (cu_rollups (apply_entry e st))"
  by (simp add: apply_entry_def upsert_scope_rollups rows_clamped_upsert)

lemma entries_clamped: "e \<in> set (entries_of op) \<Longrightarrow> clamped (ue_usage e) = ue_usage e"
  by (cases op) (auto simp: normalized_usage_def split: if_splits)

lemma rows_clamped_fold:
  "rows_clamped (cu_rollups st) \<Longrightarrow> \<forall>e\<in>set es. clamped (ue_usage e) = ue_usage e \<Longrightarrow> rows_clamped (cu_rollups (fold apply_entry es st))"
  by (induction es arbitrary: st) (simp_all add: rows_clamped_entry)

lemma rows_clamped_ops: "rows_clamped (cu_rollups st) \<Longrightarrow> rows_clamped (cu_rollups (fold usage_op_step ops st))"
  by (induction ops arbitrary: st) (simp_all add: usage_op_step_entries rows_clamped_fold entries_clamped)

lemma usage_after_clamped: "rows_clamped (cu_rollups (usage_after ops))"
  unfolding usage_after_def by (rule rows_clamped_ops) (simp add: empty_usage_store_def rows_clamped_def)

text \<open>A client of the summary is the sum of its rows.\<close>

definition row_client :: "usage_key \<times> rollup \<Rightarrow> string" where
  "row_client row = fst (snd (snd (fst row)))"

definition client_of :: "string \<Rightarrow> (string \<times> client_summary) list \<Rightarrow> client_summary" where
  "client_of c clients = (case map_of clients c of None \<Rightarrow> new_client_summary c None | Some e \<Rightarrow> e)"

definition month_of_row :: "string \<Rightarrow> (usage_key \<times> rollup) list \<Rightarrow> usage_key \<times> rollup \<Rightarrow> usage" where
  "month_of_row month monthly row = clamped (row_usage (''monthly'', month, snd (snd (fst row))) monthly)"

lemma add_row_update:
  obtains e where "add_row month monthly models row clients = AList.update (row_client row) e clients"
    and "cs_lifetime e = cs_lifetime (client_of (row_client row) clients) + clamped (ru_usage (snd row))"
    and "cs_month e = cs_month (client_of (row_client row) clients) + month_of_row month monthly row"
    and "cs_client_id e = cs_client_id (client_of (row_client row) clients)"
proof -
  obtain s k c p r where fields: "row = ((s, k, c, p), r)" by (cases row) auto
  show ?thesis
    by (rule that, simp only: fields add_row_def Let_def prod.case row_client_def fst_conv snd_conv)
      (cases "map_of clients c"; simp add: fields client_of_def new_client_summary_def month_of_row_def row_client_def)+
qed

lemma add_row_client:
  "cs_lifetime (client_of c (add_row month monthly models row clients)) =
     cs_lifetime (client_of c clients) + (if row_client row = c then clamped (ru_usage (snd row)) else 0)" (is ?life)
  "cs_month (client_of c (add_row month monthly models row clients)) =
     cs_month (client_of c clients) + (if row_client row = c then month_of_row month monthly row else 0)" (is ?month)
  "dom (map_of (add_row month monthly models row clients)) = insert (row_client row) (dom (map_of clients))" (is ?dom)
  "cs_client_id (client_of c (add_row month monthly models row clients)) = cs_client_id (client_of c clients)" (is ?name)
  "distinct (map fst clients) \<Longrightarrow> distinct (map fst (add_row month monthly models row clients))"
proof -
  obtain e where e: "add_row month monthly models row clients = AList.update (row_client row) e clients"
    "cs_lifetime e = cs_lifetime (client_of (row_client row) clients) + clamped (ru_usage (snd row))"
    "cs_month e = cs_month (client_of (row_client row) clients) + month_of_row month monthly row"
    "cs_client_id e = cs_client_id (client_of (row_client row) clients)"
    by (rule add_row_update)
  then show ?life ?month ?name by (auto simp: client_of_def update_conv')
  show ?dom by (simp add: e(1) update_conv')
  show "distinct (map fst clients) \<Longrightarrow> distinct (map fst (add_row month monthly models row clients))"
    by (simp add: e(1) distinct_update)
qed

lemma add_rows_client:
  "cs_lifetime (client_of c (fold (add_row month monthly models) rows clients)) =
     cs_lifetime (client_of c clients) + sum_list (map (\<lambda>row. if row_client row = c then clamped (ru_usage (snd row)) else 0) rows)"
  "cs_month (client_of c (fold (add_row month monthly models) rows clients)) =
     cs_month (client_of c clients) + sum_list (map (\<lambda>row. if row_client row = c then month_of_row month monthly row else 0) rows)"
  "dom (map_of (fold (add_row month monthly models) rows clients)) = dom (map_of clients) \<union> row_client ` set rows"
  "cs_client_id (client_of c (fold (add_row month monthly models) rows clients)) = cs_client_id (client_of c clients)"
  "distinct (map fst clients) \<Longrightarrow> distinct (map fst (fold (add_row month monthly models) rows clients))"
  by (induction rows arbitrary: clients) (auto simp: add_row_client add_ac)

lemma total_usage_clamped: "clamped (total_usage P (entries_after ops)) = total_usage P (entries_after ops)"
proof -
  have "\<forall>e\<in>set es. clamped (ue_usage e) = ue_usage e \<Longrightarrow> clamped (total_usage P es) = total_usage P es" for es
    by (induction es) (auto simp: total_usage_def clamped_plus)
  then show ?thesis using entries_clamped by (auto simp: entries_after_def)
qed

lemma usage_after_keys:
  "fst ` set (cu_rollups (usage_after ops)) =
     (\<Union>e\<in>{e \<in> set (entries_after ops). ue_include_aggregate e}.
        {(''lifetime'', ''all'', ue_client_id e, ue_prompt_id e), (''monthly'', ue_month e, ue_client_id e, ue_prompt_id e)})"
proof -
  let ?K = "\<lambda>es. \<Union>e\<in>{e \<in> set es. ue_include_aggregate e}.
      {(''lifetime'', ''all'', ue_client_id e, ue_prompt_id e), (''monthly'', ue_month e, ue_client_id e, ue_prompt_id e)}"
  have e: "fst ` set (cu_rollups (fold apply_entry es st)) = fst ` set (cu_rollups st) \<union> ?K es" for es st
  proof (induction es arbitrary: st)
    case (Cons e es)
    have "fst ` set (cu_rollups (apply_entry e st)) = fst ` set (cu_rollups st) \<union> ?K [e]"
      by (auto simp: apply_entry_def upsert_scope_rollups upsert_row_keys)
    with Cons show ?case by auto
  qed simp
  have "fst ` set (cu_rollups (fold usage_op_step ops st)) = fst ` set (cu_rollups st) \<union> ?K (entries_after ops)" for st
  proof (induction ops arbitrary: st)
    case (Cons op ops)
    then show ?case by (simp add: usage_op_step_entries e entries_after_def) blast
  qed (simp add: entries_after_def)
  then show ?thesis by (simp add: usage_after_def empty_usage_store_def)
qed

lemma sum_list_swap: "(\<Sum>x\<leftarrow>xs. \<Sum>y\<leftarrow>ys. f x y) = (\<Sum>y\<leftarrow>ys. \<Sum>x\<leftarrow>xs. (f x y :: 'c :: comm_monoid_add))"
  by (induction xs) (simp_all add: sum_list_addf)

lemma sum_list_key: "distinct (map fst rows) \<Longrightarrow> (\<Sum>row\<leftarrow>rows. if fst row = k then u else 0) = (if k \<in> fst ` set rows then u else (0 :: usage))"
proof (induction rows)
  case (Cons x rows)
  have "(\<Sum>row\<leftarrow>rows. if fst row = fst x then u else 0) = 0" if "fst x \<notin> fst ` set rows"
    using that by (induction rows) auto
  with Cons show ?case by auto
qed simp

lemma client_rows_sum:
  assumes "rows_clamped t"
  shows "(\<Sum>row\<leftarrow>query_rows P t. if row_client row = c then clamped (ru_usage (snd row)) else 0) =
    table_usage (\<lambda>(_, _, c', _). c' = c) (query_rows P t)"
proof -
  have "(if row_client row = c then clamped (ru_usage (snd row)) else 0) =
      (case row of (k, r) \<Rightarrow> if (\<lambda>(_, _, c', _). c' = c) k then ru_usage r else 0)" if "row \<in> set (query_rows P t)" for row
  proof -
    have "row \<in> set t" using that by (simp add: query_rows_def)
    with assms have "clamped (ru_usage (snd row)) = ru_usage (snd row)" by (auto simp: rows_clamped_def)
    then show ?thesis by (auto simp: row_client_def split: prod.splits)
  qed
  then show ?thesis unfolding table_usage_def by (intro arg_cong [of _ _ sum_list] map_cong refl)
qed

lemma client_lifetime_sum:
  "(\<Sum>row\<leftarrow>query_rows (\<lambda>(s, k, _, _). s = ''lifetime'' \<and> k = ''all'') (cu_rollups (usage_after ops)).
      if row_client row = c then clamped (ru_usage (snd row)) else 0) =
   total_usage (\<lambda>e. ue_client_id e = c \<and> ue_include_aggregate e) (entries_after ops)" (is "(\<Sum>row\<leftarrow>?rows. _) = _")
proof -
  have "(\<Sum>row\<leftarrow>?rows. if row_client row = c then clamped (ru_usage (snd row)) else 0) = table_usage (\<lambda>(_, _, c', _). c' = c) ?rows"
    by (rule client_rows_sum [OF usage_after_clamped])
  also have "\<dots> = table_usage (\<lambda>(s, k, c', p'). (s = ''lifetime'' \<and> k = ''all'') \<and> c' = c) (cu_rollups (usage_after ops))"
    unfolding table_usage_mset [OF query_rows_mset] table_usage_filter by (rule arg_cong [of _ _ "\<lambda>P. table_usage P _"]) auto
  also have "\<dots> = total_usage (\<lambda>e. ue_client_id e = c \<and> ue_include_aggregate e) (entries_after ops)"
    by (simp only: usage_after_tables contributions total_usage_sum)
  finally show ?thesis .
qed

lemma month_row_total:
  "clamped (row_usage (''monthly'', month, c, p) (query_rows (\<lambda>(s, k, _, _). s = ''monthly'' \<and> k = month) (cu_rollups (usage_after ops)))) =
   total_usage (\<lambda>e. of_prompt c p e \<and> ue_include_aggregate e \<and> ue_month e = month) (entries_after ops)"
proof -
  have "row_usage (''monthly'', month, c, p) (query_rows (\<lambda>(s, k, _, _). s = ''monthly'' \<and> k = month) (cu_rollups (usage_after ops))) =
      row_usage (''monthly'', month, c, p) (cu_rollups (usage_after ops))"
    by (simp add: query_rows_usage usage_after_distinct)
  also have "\<dots> = total_usage (\<lambda>e. of_prompt c p e \<and> ue_include_aggregate e \<and> ue_month e = month) (entries_after ops)"
    by (simp only: row_usage_table usage_after_distinct usage_after_tables contributions total_usage_sum)
  finally show ?thesis by (simp only: total_usage_clamped)
qed

text \<open>The rows of a query for the lifetime, one for each client and prompt of an entry.\<close>

lemma lifetime_rows:
  "distinct (map fst (query_rows (\<lambda>(s, k, _, _). s = ''lifetime'' \<and> k = ''all'') (cu_rollups (usage_after ops))))" (is "distinct (map fst ?rows)")
  "fst ` set (query_rows (\<lambda>(s, k, _, _). s = ''lifetime'' \<and> k = ''all'') (cu_rollups (usage_after ops))) =
     (\<lambda>e. (''lifetime'', ''all'', ue_client_id e, ue_prompt_id e)) ` {e \<in> set (entries_after ops). ue_include_aggregate e}"
proof -
  let ?P = "\<lambda>(s, k, _, _). s = ''lifetime'' \<and> k = ''all''"
  show "distinct (map fst ?rows)" by (rule query_rows_distinct [OF usage_after_distinct(1)])
  have "fst ` set (query_rows P t) = {k \<in> fst ` set t. P k}" for P and t :: "(usage_key \<times> rollup) list"
    by (auto simp: query_rows_def image_iff)
  then have "fst ` set ?rows = {k \<in> fst ` set (cu_rollups (usage_after ops)). ?P k}" .
  also have "\<dots> = (\<lambda>e. (''lifetime'', ''all'', ue_client_id e, ue_prompt_id e)) ` {e \<in> set (entries_after ops). ue_include_aggregate e}"
    unfolding usage_after_keys by auto
  finally show "fst ` set ?rows =
     (\<lambda>e. (''lifetime'', ''all'', ue_client_id e, ue_prompt_id e)) ` {e \<in> set (entries_after ops). ue_include_aggregate e}" .
qed

lemma image_ex: "x \<in> f ` A \<Longrightarrow> \<exists>y. x = f y"
  by blast

lemma client_month_sum:
  fixes ops month c
  defines "rows \<equiv> query_rows (\<lambda>(s, k, _, _). s = ''lifetime'' \<and> k = ''all'') (cu_rollups (usage_after ops))"
    and "monthly \<equiv> query_rows (\<lambda>(s, k, _, _). s = ''monthly'' \<and> k = month) (cu_rollups (usage_after ops))"
    and "es \<equiv> entries_after ops"
  shows "(\<Sum>row\<leftarrow>rows. if row_client row = c then month_of_row month monthly row else 0) =
    total_usage (\<lambda>e. ue_client_id e = c \<and> ue_include_aggregate e \<and> ue_month e = month) es"
proof -
  let ?k = "\<lambda>e :: usage_entry. (''lifetime'', ''all'', ue_client_id e, ue_prompt_id e)"
  let ?Q = "\<lambda>e :: usage_entry. ue_client_id e = c \<and> ue_include_aggregate e \<and> ue_month e = month"
  have keys: "fst ` set rows = ?k ` {e \<in> set es. ue_include_aggregate e}" unfolding rows_def es_def by (rule lifetime_rows(2))
  have "(if row_client row = c then month_of_row month monthly row else 0) =
      (\<Sum>e\<leftarrow>es. if fst row = ?k e then (if ?Q e then ue_usage e else 0) else 0)" if "row \<in> set rows" for row
  proof -
    have "fst row \<in> fst ` set rows" using that by (rule imageI)
    then have "fst row \<in> ?k ` {e \<in> set es. ue_include_aggregate e}" by (simp only: keys)
    from image_ex [OF this] obtain e0 where "fst row = ?k e0" ..
    then obtain p d where k: "fst row = (''lifetime'', ''all'', d, p)" by simp
    have "month_of_row month monthly row = total_usage (\<lambda>e. of_prompt d p e \<and> ue_include_aggregate e \<and> ue_month e = month) es"
      unfolding month_of_row_def monthly_def es_def k snd_conv by (rule month_row_total)
    then have "(if row_client row = c then month_of_row month monthly row else 0) =
        (\<Sum>e\<leftarrow>es. if d = c then (if of_prompt d p e \<and> ue_include_aggregate e \<and> ue_month e = month then ue_usage e else 0) else 0)"
      by (simp add: row_client_def k total_usage_sum)
    also have "\<dots> = (\<Sum>e\<leftarrow>es. if fst row = ?k e then (if ?Q e then ue_usage e else 0) else 0)"
      by (intro arg_cong [of _ _ sum_list] map_cong refl) (auto simp: k of_prompt_def)
    finally show ?thesis .
  qed
  then have "(\<Sum>row\<leftarrow>rows. if row_client row = c then month_of_row month monthly row else 0) =
      (\<Sum>row\<leftarrow>rows. \<Sum>e\<leftarrow>es. if fst row = ?k e then (if ?Q e then ue_usage e else 0) else 0)"
    by (intro arg_cong [of _ _ sum_list] map_cong refl)
  also have "\<dots> = (\<Sum>e\<leftarrow>es. \<Sum>row\<leftarrow>rows. if fst row = ?k e then (if ?Q e then ue_usage e else 0) else 0)" by (rule sum_list_swap)
  also have "\<dots> = (\<Sum>e\<leftarrow>es. if ?Q e then ue_usage e else 0)"
  proof (intro arg_cong [of _ _ sum_list] map_cong refl)
    fix e assume "e \<in> set es"
    then have "?Q e \<Longrightarrow> ?k e \<in> fst ` set rows" unfolding keys by blast
    then show "(\<Sum>row\<leftarrow>rows. if fst row = ?k e then (if ?Q e then ue_usage e else 0) else 0) = (if ?Q e then ue_usage e else 0)"
      unfolding sum_list_key [OF lifetime_rows(1) [of ops, folded rows_def]] by auto
  qed
  finally show ?thesis by (simp only: total_usage_sum)
qed

lemma by_cost_mset: "mset (by_cost f xs) = mset xs"
  by (simp add: by_cost_def)

lemma summary_clients:
  fixes ops now v
  defines "month \<equiv> selected_month now v" and "es \<equiv> entries_after ops"
  obtains C where "summary_payload now v (usage_after ops) = (month, by_cost cs_lifetime (map (finished_client \<circ> snd) C))"
    and "distinct (map fst C)" and "fst ` set C = ue_client_id ` {e \<in> set es. ue_include_aggregate e}"
    and "\<And>c s. (c, s) \<in> set C \<Longrightarrow> cs_client_id s = c \<and>
      cs_lifetime s = total_usage (\<lambda>e. ue_client_id e = c \<and> ue_include_aggregate e) es \<and>
      cs_month s = total_usage (\<lambda>e. ue_client_id e = c \<and> ue_include_aggregate e \<and> ue_month e = month) es"
proof -
  let ?rows = "query_rows (\<lambda>(s, k, _, _). s = ''lifetime'' \<and> k = ''all'') (cu_rollups (usage_after ops))"
  let ?monthly = "query_rows (\<lambda>(s, k, _, _). s = ''monthly'' \<and> k = month) (cu_rollups (usage_after ops))"
  let ?models = "models_by_prompt month (query_rows (\<lambda>(s, k, _, _, _). s = ''lifetime'' \<and> k = ''all'') (cu_model_rollups (usage_after ops)))
      (query_rows (\<lambda>(s, k, _, _, _). s = ''monthly'' \<and> k = month) (cu_model_rollups (usage_after ops)))"
  define C where "C = fold (add_row month ?monthly ?models) ?rows []"
  have d: "distinct (map fst C)" unfolding C_def by (rule add_rows_client(5)) simp
  have e: "client_of c [] = new_client_summary c None" for c by (simp add: client_of_def)
  have g: "row_client ` A = (\<lambda>k. fst (snd (snd k))) ` (fst ` A)" for A by (simp add: image_image row_client_def)
  have "row_client ` set ?rows = (\<lambda>k. fst (snd (snd k))) ` (fst ` set ?rows)" by (rule g)
  also have "\<dots> = ue_client_id ` {e \<in> set es. ue_include_aggregate e}"
    unfolding lifetime_rows(2) image_image es_def by (simp only: snd_conv fst_conv)
  finally have k: "fst ` set C = ue_client_id ` {e \<in> set es. ue_include_aggregate e}"
    by (simp only: dom_map_of_conv_image_fst [symmetric] C_def add_rows_client(3)) simp
  have s: "cs_client_id s = c \<and> cs_lifetime s = total_usage (\<lambda>e. ue_client_id e = c \<and> ue_include_aggregate e) es \<and>
      cs_month s = total_usage (\<lambda>e. ue_client_id e = c \<and> ue_include_aggregate e \<and> ue_month e = month) es"
    if "(c, s) \<in> set C" for c s
  proof -
    from d that have "client_of c C = s" by (simp add: client_of_def)
    moreover have "cs_client_id (client_of c C) = c"
      unfolding C_def add_rows_client(4) e by (simp add: new_client_summary_def)
    moreover have "cs_lifetime (client_of c C) = total_usage (\<lambda>e. ue_client_id e = c \<and> ue_include_aggregate e) es"
      unfolding C_def add_rows_client(1) e client_lifetime_sum es_def by (simp add: new_client_summary_def)
    moreover have "cs_month (client_of c C) = total_usage (\<lambda>e. ue_client_id e = c \<and> ue_include_aggregate e \<and> ue_month e = month) es"
      unfolding C_def add_rows_client(2) e client_month_sum es_def by (simp add: new_client_summary_def)
    ultimately show ?thesis by simp
  qed
  have "summary_payload now v (usage_after ops) = (month, by_cost cs_lifetime (map (finished_client \<circ> snd) C))"
    by (simp only: summary_payload_def Let_def C_def month_def)
  from that [OF this d k s] show thesis .
qed


definition a_recorded_op :: usage_op where
  "a_recorded_op = Recorded True ''2026-01-05''
     \<lparr>ua_client_id = ''app'', ua_prompt_id = ''p'', ua_model_id = Some ''m'', ua_include_aggregate = True, ua_customer_id = None,
      ua_usage = Usage 0 5 0 2 7 (1 / 2), ua_used_at = None\<rparr>"


section \<open>The past is counted by model and as a whole\<close>

text \<open>
  A log with one call of one model beside counters with one call of another: as a whole the larger
  of the two is taken, by model both are, so the rows of the models add up to more than the total.
\<close>

definition a_history :: history where
  "a_history =
     \<lparr>hi_prompt_services = [], hi_recent_denials = [], hi_log = Some [''[provider-execution] x''],
      hi_metrics = PDict [(''providers'', PDict [(''local'', PDict [(''models'', PDict [(''b'', PDict [(''successful_requests'', PInt 1)])])])])],
      hi_literal_eval = (\<lambda>_. Some (PDict [(''success'', PBool True), (''model_id'', PStr ''a'')]))\<rparr>"

lemma model_history_overcounted:
  "let st = fst (seed_history True ''2026-01-05'' a_history empty_usage_store)
   in us_calls (table_usage (\<lambda>(s, _). s = ''lifetime'') (cu_rollups st)) = 1 \<and>
      us_calls (table_usage (\<lambda>(s, _). s = ''lifetime'') (cu_model_rollups st)) = 2"
  by code_simp

end
