(* ===== verification/Spec2Isabelle.thy ===== *)
theory Spec2Isabelle
  imports Prelude Queue_Contract Failure_Codes Node_Lifecycle Task_Lifecycle Governance Provider_Policy
    Local_Scheduler Budget Execution_Queue Queue_Liveness Idempotency Task_Families Prompt_Versions
    Prompts Prompt_Registry Prompt_Invariants Gateway Task_Models Task_Inputs
    Provider_Metrics Execution_Constraints Execution_Router Task_Execution
    Internal_Scheduler Family_Policy Family_Memory Trust Onboarding Client_Usage
begin

text \<open>
  A verification development for the Hexe AI node (\<open>src/src/ai_node\<close>), the Python service that
  accepts AI tasks, decides whether and where they may run, queues them, charges budgets for them
  and reports on them.

  \<^bold>\<open>The program.\<close> A node boots through a lifecycle state machine (\<open>lifecycle/node_lifecycle.py\<close>) that
  is watched by a bootstrap timeout (\<open>runtime/bootstrap_timeout.py\<close>): it resumes with its trust file
  (\<open>trust/trusted_startup.py\<close>, \<open>trust/trust_store.py\<close>) or registers with a core and waits for an
  approval (\<open>runtime/onboarding_runtime.py\<close>). A task request is checked
  against the governance bundle (\<open>execution/governance.py\<close>, \<open>governance/freshness.py\<close>), its
  candidate providers are ordered and limited (\<open>execution/provider_selection_policy.py\<close>) and one
  provider and model are resolved (\<open>runtime/provider_resolver.py\<close>). The budget manager
  (\<open>runtime/budget_manager.py\<close>, state in \<open>persistence/budget_state_store.py\<close>) reserves the cost
  before the execution and settles it after. Long executions go through the execution queue
  (\<open>runtime/execution_queue.py\<close>) on the lanes of \<open>execution/queue_contract.py\<close>, whose local lanes are
  admitted by the VRAM scheduler (\<open>runtime/local_scheduler_policy.py\<close>). The task tracker
  (\<open>execution/lifecycle.py\<close>) keeps the state of each execution, and a failure code is turned into a
  category and a recovery by \<open>execution/failure_codes.py\<close>. Repeated requests of one caller are answered
  from the idempotency store (\<open>execution/idempotency.py\<close>).

  A task runs a registered prompt. The prompt registry (\<open>prompts/registry.py\<close>, entries in
  \<open>prompts/registration.py\<close> with versions in \<open>prompts/versioning.py\<close>, file in
  \<open>persistence/prompt_service_state_store.py\<close>) keeps their state, versions and counters; the gateway
  (\<open>execution/gateway.py\<close>) decides from a snapshot of it who may run which prompt on which version;
  and the family of a task is checked against the declared and accepted capabilities
  (\<open>capabilities/task_families.py\<close>, \<open>config/task_capability_selection_config.py\<close>,
  \<open>execution/task_families.py\<close>). A request is an object of \<open>execution/task_models.py\<close>; its inputs are
  normalised (\<open>execution/input_validation.py\<close>), its prompt is rendered
  (\<open>runtime/prompt_construction.py\<close>) and a handler (\<open>runtime/task_router.py\<close>,
  \<open>runtime/task_handlers.py\<close>) makes the request to the provider from it. The service of \<open>runtime/task_execution_service.py\<close> runs
  all of this for a request, and the provider router (\<open>providers/execution_router.py\<close>) calls the
  providers of the registry (\<open>providers/provider_registry.py\<close>) and counts in
  \<open>providers/metrics.py\<close> how they answer. Beside the tasks of clients the node runs recurring ones
  of its own (\<open>runtime/internal_scheduler.py\<close>). What a family lets the node remember is kept in
  encrypted partitions (\<open>family_memory/storage.py\<close>) and told only after an authorisation of the core
  was evaluated (\<open>family_memory/policy.py\<close>, \<open>family_memory/retrieval.py\<close>). What each client used is summed in
  \<open>persistence/client_usage_store.py\<close>.

  \<^bold>\<open>The theories.\<close>
  \<^item> \<open>Prelude\<close>: Python values (\<open>pyval\<close>, dictionaries as association lists in insertion order),
    \<open>str\<close>, \<open>int\<close>, \<open>float\<close> and truth of values, string methods, \<open>datetime\<close> as instants in
    microseconds with the text conversions as a parameter (\<open>time_env\<close>), the result type
    \<open>error + 'a\<close>, and the locale of the dictionaries with its interpretation on association lists.
  \<^item> \<open>Queue_Contract\<close>: the lanes, their aliases and capacities, and the inference of a lane.
  \<^item> \<open>Failure_Codes\<close>: the taxonomy, \<open>classify_failure_code\<close> and the recovery policy.
  \<^item> \<open>Node_Lifecycle\<close>: \<open>NodeLifecycle.transition_to\<close> with its table, history and callbacks, and the
    timeout monitor that runs beside it; reachable states as an inductive predicate.
  \<^item> \<open>Task_Lifecycle\<close>: \<open>TaskExecutionLifecycleTracker\<close>, its invariant and the effect of an update.
  \<^item> \<open>Governance\<close>: \<open>evaluate\<close> of the execution governance with every rejection, and the freshness
    of a bundle.
  \<^item> \<open>Provider_Policy\<close>: the selection policy (candidates, order, limits) and the resolver.
  \<^item> \<open>Local_Scheduler\<close>: admission of a local lane against the VRAM in use and the unload actions.
  \<^item> \<open>Budget\<close>: the state store with its validation, reserving, settling, releasing, usage periods,
    summaries and notifications; the locale \<open>ledger\<close>, what a keyed set of reservations promises,
    is interpreted for the grants and for the providers.
  \<^item> \<open>Execution_Queue\<close>: the queue service as atomic sections of one event loop (\<open>queue_step\<close>), with
    what a suspended coroutine remembers as part of the state; the locale \<open>priority_queue\<close> is
    interpreted on the sorted lists that stand for the heaps; the invariant \<open>queue_inv\<close> is kept by
    every section and holds after every restart from a state file.
  \<^item> \<open>Queue_Liveness\<close>: progress of the queue service and the exact effect of the deadline monitor.
  \<^item> \<open>Idempotency\<close>: the store of answered requests with the calls that wait for a running one, as
    sections of one event loop.
  \<^item> \<open>Task_Families\<close>: the canonical families, declarations, selections and the check of a request.
  \<^item> \<open>Prompt_Versions\<close>, \<open>Prompts\<close>: versions and entries with every normaliser; an operation on an
    entry is a list of assignments that an exception cuts short, as in the code.
  \<^item> \<open>Prompt_Registry\<close>: the store and the registry; every operation returns the registry as it
    leaves it beside its result or its exception.
  \<^item> \<open>Prompt_Invariants\<close>: \<open>registry_step\<close> and \<open>registry_reachable\<close>, the invariant, the refinement of
    a map of views (\<open>spec_step\<close>) and what a restart keeps.
  \<^item> \<open>Gateway\<close>: the authorisation and its agreement with the registry.
  \<^item> \<open>Task_Models\<close>: the request, its queue intent, the metrics and the result of a task with every
    validator of \<open>execution/task_models.py\<close> in the order pydantic runs them.
  \<^item> \<open>Task_Inputs\<close>: from the inputs of a request to the request a provider gets: normalisation of
    the inputs, prompt templates, the task router with its handlers, the two ways to build a
    provider request.
  \<^item> \<open>Provider_Metrics\<close>: the counters of the providers, their snapshot and their file.
  \<^item> \<open>Execution_Router\<close>: the registry and the router; \<open>routed_answer\<close> is what it promises.
  \<^item> \<open>Execution_Constraints\<close>: how the service merges the constraints of request, prompt and privacy,
    and the metadata it reports.
  \<^item> \<open>Task_Execution\<close>: \<open>TaskExecutionService.execute\<close> cut at its awaits into sections, which other
    executions and cancellations come between (\<open>exec_step\<close>); \<open>phase_ok\<close> is the invariant of an
    execution at each place it waits, \<open>phase_rank\<close> the sections it has left.
  \<^item> \<open>Internal_Scheduler\<close>: the recurring tasks, each with a loop cut at its awaits (\<open>sched_step\<close>), and
    their file; \<open>sched_inv\<close> relates a task to where its loop is, \<open>counted_event\<close> is what a step does
    to the counters.
  \<^item> \<open>Family_Policy\<close>, \<open>Family_Memory\<close>: the models of the family memory with their validators and
    the policy; the partitions, which refine a map (\<open>contents\<close>, \<open>written\<close>) when the cipher and the
    hashes are what \<open>env_ok\<close> says, and the retrieval, proved over the locale \<open>scoped_partitions\<close>
    that the store interprets.
  \<^item> \<open>Trust\<close>: node ids, the activation, the trust file and the start of a node.
  \<^item> \<open>Onboarding\<close>: the runs of \<open>OnboardingRuntime\<close>, each a thread cut at its waits, between which
    the run is cancelled, the lifecycle reset or another run begun (\<open>onboarding_step\<close>); \<open>untrusting\<close>
    says that a section neither trusts nor writes the trust file.
  \<^item> \<open>Client_Usage\<close>: the tables of what each client used, their summary, and how the past is put into
    them from the log and the counters; amounts of usage are a commutative monoid, and a table
    is related to the entries it was made from (\<open>usage_rows_sum_entries\<close>).
  \<^item> this theory: what spans components, here the budget denials as failure codes.

  \<^bold>\<open>State and errors.\<close> Every class is a record and each method a function that returns the new
  state. A raise is a value of a sum type. Dictionaries whose order or duplicates matter are
  association lists. Amounts are \<open>int\<close> (Python integers are unbounded), exact costs are \<open>rat\<close>:
  rounding of floats other than the explicit \<open>round\<close> calls is not modelled. Times, ids, text
  conversions of instants, calendar windows of the budget periods, the model catalogue, the lane
  admission answer and the recovery factory are arguments of the definitions.

  \<^bold>\<open>Bounds.\<close> No definition needs fuel: every loop is over a finite list and is structurally
  recursive or a fold. The dispatcher loop and the monitor loop are step relations.

  \<^bold>\<open>What the lemmas show.\<close> The node never becomes operational without having been trusted except
  through the transitions named in \<open>Node_Lifecycle\<close>; task histories are well formed; an allowed
  task satisfies every limit of its bundle; the provider order, the admission and the resolution
  are exact or sound against specifications stated over the inputs; ledgers balance, a reservation
  is all or nothing and within limits, and settling charges exactly once; the queue loses no job,
  starts no job twice, never exceeds its concurrency or its client limits, takes the most urgent
  job first, replays nothing after a restart and loses no wake-up; the prompt registry is a map
  of well formed prompts that survives a restart, and the gateway lets only its executable prompts
  run, for callers they admit; the router calls the providers it should, a bounded number of
  times; and an execution ends, reaches a provider only when everyone consents, and leaves no
  reservation when it returns; the counters of a recurring task tell its runs and survive a restart;
  memory is told only within its authorisation; what clients used is summed exactly; and a node is trusted by an approval of its core alone.
  Where the code departs from its
  documentation or its intent, a theorem states what it does instead.

  \<^bold>\<open>Not modelled, and why.\<close> The HTTP API, MQTT, the notification texts, the provider clients and
  process supervision are input and output; the diagnostics payloads of the queue and of the
  budget manager only read the state; the web interface is not Python. Capability declaration,
  the provider catalogues and the clients of the core are requests to outside services whose answers
  decide what happens; the residency state of local components and the execution of leases hold
  what such services report; they are left out, as is everything that only puts components
  together (the rest of \<open>main.py\<close>, the node control API, the service manager).
\<close>

section \<open>Budget denials and recovery\<close>

lemma reserve_grants_reasons:
  "reserve_grants E rv gs ap us = Inl (reason, us') \<Longrightarrow> reason = ''reservation_conflict'' \<or> reason = ''budget_exhausted''"
proof (induction gs arbitrary: ap us)
  case (Cons g gs)
  then show ?case by (simp only: reserve_grants.simps Let_def split: if_splits) blast+
qed (simp only: reserve_grants.simps sum.distinct)

lemma denied_reason:
  "denied E t req reason p s ns0 st = (st', ns, Inr b) \<Longrightarrow> \<not> brr_allowed b \<and> brr_reason b = Some reason"
  by (auto simp: denied_def split: prod.splits sum.splits)

lemma accepted_allowed: "accepted E rv ap s ns0 store st = (st', ns, Inr b) \<Longrightarrow> brr_allowed b"
  by (auto simp: accepted_def split: sum.splits)

definition denial_reasons :: "string set" where
  "denial_reasons = {''missing_budget_grant'', ''reservation_conflict'', ''budget_exhausted'', ''provider_budget_exhausted''}"

lemma denial_reasonsI:
  "''missing_budget_grant'' \<in> denial_reasons" "''reservation_conflict'' \<in> denial_reasons"
  "''budget_exhausted'' \<in> denial_reasons" "''provider_budget_exhausted'' \<in> denial_reasons"
  by (simp_all add: denial_reasons_def)

lemma reserve_without_policy_reasons:
  assumes "reserve_without_policy E rv req p s store st = (st', ns, Inr b)" and "\<not> brr_allowed b"
  shows "\<exists>r\<in>denial_reasons. brr_reason b = Some r"
  using assms denied_reason denial_reasonsI accepted_allowed unfolding reserve_without_policy_def
  by (auto split: prod.splits provider_outcome.splits)

lemma reserve_with_policy_reasons:
  assumes "reserve_with_policy E rv req p s pol store st = (st', ns, Inr b)" and "\<not> brr_allowed b"
  shows "\<exists>r\<in>denial_reasons. brr_reason b = Some r"
proof (cases "applicable_grants E pol req p")
  case (Inl e)
  with assms show ?thesis by (simp add: reserve_with_policy_def)
next
  case (Inr gs)
  show ?thesis
  proof (cases "gs = [] \<or> (\<exists>x. reserve_grants E rv gs [] (bs_grant_usage st) = Inl x)")
    case True
    then have "\<exists>r\<in>denial_reasons. denied E (rv_task_id rv) req r p s [] store = (st', ns, Inr b)"
    proof
      assume "gs = []"
      with assms(1) Inr show ?thesis
        by (intro bexI [of _ "''missing_budget_grant''"]) (simp_all add: reserve_with_policy_def denial_reasonsI)
    next
      assume "\<exists>x. reserve_grants E rv gs [] (bs_grant_usage st) = Inl x"
      then obtain r us where r: "reserve_grants E rv gs [] (bs_grant_usage st) = Inl (r, us)" by auto
      from reserve_grants_reasons [OF r] have "r \<in> denial_reasons" using denial_reasonsI by metis
      moreover have "gs \<noteq> []" using r by auto
      ultimately show ?thesis using assms(1) Inr r by (intro bexI [of _ r]) (simp_all add: reserve_with_policy_def)
    qed
    then show ?thesis using denied_reason by blast
  next
    case False
    then obtain ap us where "gs \<noteq> []" "reserve_grants E rv gs [] (bs_grant_usage st) = Inr (ap, us)"
      by (metis old.sum.exhaust surj_pair)
    with assms Inr denied_reason accepted_allowed denial_reasonsI(4) show ?thesis
      by (auto simp: reserve_with_policy_def split: prod.splits provider_outcome.splits)
  qed
qed

lemma reserve_reasons:
  assumes "reserve_execution E t req p m gov st = (st', ns, Inr b)" and "\<not> brr_allowed b"
  shows "\<exists>r\<in>denial_reasons. brr_reason b = Some r"
  using assms reserve_without_policy_reasons reserve_with_policy_reasons
  unfolding reserve_execution_def reserve_under_def Let_def
  by (simp split: prod.splits sum.splits pyval.splits if_splits)

lemma denial_categories:
  "\<forall>r\<in>denial_reasons. rp_failure_category (recovery_policy_for_failure_code (PStr r)) =
     (if r = ''provider_budget_exhausted'' then ''internal_execution_error'' else ''budget_violation'')"
  unfolding denial_reasons_def by code_simp

text \<open>
  The reason of a denied reservation as a failure code: a missing grant, a conflict and an
  exhausted grant are told to the client as budget violations, while a provider budget that is
  exhausted is not in the taxonomy and is told as an internal execution error.
\<close>

theorem denial_recovery:
  assumes "reserve_execution E t req p m gov st = (st', ns, Inr b)" and "\<not> brr_allowed b"
  shows "\<exists>r. brr_reason b = Some r \<and>
    rp_failure_category (recovery_policy_for_failure_code (PStr r)) =
      (if r = ''provider_budget_exhausted'' then ''internal_execution_error'' else ''budget_violation'')"
proof -
  from reserve_reasons [OF assms] obtain r where "r \<in> denial_reasons" "brr_reason b = Some r" by blast
  with bspec [OF denial_categories] show ?thesis by (intro exI [of _ r]) simp
qed

theorem denial_recovery_witness:
  "\<exists>st' ns b. sample_reserve sample_state = (st', ns, Inr b) \<and> brr_reason b = Some ''reservation_conflict'' \<and>
     rp_failure_category (recovery_policy_for_failure_code (PStr ''reservation_conflict'')) = ''budget_violation''"
proof -
  obtain st' ns res where r: "sample_reserve sample_state = (st', ns, res)" using prod_cases3 by blast
  have "case sample_reserve sample_state of
      (_, _, Inr b) \<Rightarrow> \<not> brr_allowed b \<and> brr_reason b = Some ''reservation_conflict'' | _ \<Rightarrow> False"
    by code_simp
  with r obtain b where b: "res = Inr b" "\<not> brr_allowed b" "brr_reason b = Some ''reservation_conflict''"
    by (auto split: sum.splits)
  from denial_recovery [OF r [unfolded sample_reserve_def b(1)] b(2)] b(3)
  have "rp_failure_category (recovery_policy_for_failure_code (PStr ''reservation_conflict'')) = ''budget_violation''"
    by simp
  with r b show ?thesis by blast
qed

end
